(* ===== verification/Prelude.thy ===== *)
theory Prelude
  imports Main "HOL-Library.Word"
begin

text \<open>
  Shared vocabulary of the development: bytes, results of fallible code, JavaScript numbers,
  little-endian integers, decimal and hexadecimal text. \<open>'a result\<close> is what a TypeScript
  function that may throw returns: \<open>Inl message\<close> for \<open>throw new Error(message)\<close>, \<open>Inr v\<close> for a
  returned value. The locale \<open>fixed_codec\<close> is the contract of a fixed-width byte encoding; it is
  interpreted here on the little-endian integers that \<open>DataView\<close> reads and writes, and every
  account and instruction layout of the later theories rests on its facts.
\<close>

section \<open>Types\<close>

type_synonym byte = "8 word"
type_synonym bytes = "byte list"
type_synonym address = string
type_synonym 'a result = "string + 'a"

text \<open>
  A JavaScript \<open>number\<close> is an integer or not (\<open>Number.isInteger\<close>). The code computes with a number only
  after that test has succeeded; a fraction, NaN or infinity is kept as the text
  \<open>JSON.stringify\<close> gives it.
\<close>

datatype jsnum = NInt int | NonInt string

text \<open>\<open>Number.isInteger(x) && lo <= x && x <= hi\<close>\<close>

fun num_in :: "int \<Rightarrow> int \<Rightarrow> jsnum \<Rightarrow> bool" where
  "num_in lo hi (NInt v) = (lo \<le> v \<and> v \<le> hi)"
| "num_in lo hi (NonInt t) = False"

fun num_val :: "jsnum \<Rightarrow> int" where
  "num_val (NInt v) = v"
| "num_val (NonInt t) = 0"

section \<open>Results\<close>

definition bindR :: "'e + 'a \<Rightarrow> ('a \<Rightarrow> 'e + 'b) \<Rightarrow> 'e + 'b" where
  "bindR m f = (case m of Inl e \<Rightarrow> Inl e | Inr x \<Rightarrow> f x)"

definition require :: "bool \<Rightarrow> 'e \<Rightarrow> 'e + unit" where
  "require c msg = (if c then Inr () else Inl msg)"

definition fetch :: "'a option \<Rightarrow> 'e \<Rightarrow> 'e + 'a" where
  "fetch x e = (case x of None \<Rightarrow> Inl e | Some v \<Rightarrow> Inr v)"

fun mapR :: "('a \<Rightarrow> 'e + 'b) \<Rightarrow> 'a list \<Rightarrow> 'e + 'b list" where
  "mapR f [] = Inr []"
| "mapR f (x # xs) = bindR (f x) (\<lambda>y. bindR (mapR f xs) (\<lambda>ys. Inr (y # ys)))"

fun is_ok :: "'e + 'a \<Rightarrow> bool" where
  "is_ok (Inr _) = True"
| "is_ok (Inl _) = False"

named_theorems result_simps \<open>unfolding of the result combinators under an equation\<close>

lemma bindR_Inl [simp]: "bindR (Inl e) f = Inl e"
  and bindR_Inr [simp]: "bindR (Inr x) f = f x"
  by (simp_all add: bindR_def)

lemma bindR_eq_Inr [result_simps]: "bindR m f = Inr y \<longleftrightarrow> (\<exists>x. m = Inr x \<and> f x = Inr y)"
  by (cases m) simp_all

lemma bindR_eq_Inl [result_simps]:
  "bindR m f = Inl e \<longleftrightarrow> m = Inl e \<or> (\<exists>x. m = Inr x \<and> f x = Inl e)"
  by (cases m) simp_all

lemma require_eq_Inr [simp]: "require c msg = Inr u \<longleftrightarrow> c"
  and require_eq_Inl [simp]: "require c msg = Inl e \<longleftrightarrow> \<not> c \<and> e = msg"
  and require_True [simp]: "require True msg = Inr ()"
  and require_False [simp]: "require False msg = Inl msg"
  by (auto simp: require_def)

lemma fetch_Some [simp]: "fetch (Some v) e = Inr v"
  and fetch_None [simp]: "fetch None e = Inl e"
  and fetch_eq_Inr [simp]: "fetch x e = Inr v \<longleftrightarrow> x = Some v"
  and fetch_eq_Inl [simp]: "fetch x e = Inl e' \<longleftrightarrow> x = None \<and> e' = e"
  by (auto simp: fetch_def split: option.splits)

lemma bindR_require: "bindR (require c msg) f = (if c then f () else Inl msg)"
  by (simp add: require_def)

lemma is_ok_iff: "is_ok r \<longleftrightarrow> (\<exists>x. r = Inr x)"
  by (cases r) simp_all

lemma mapR_eq_Inr:
  "mapR f xs = Inr ys \<longleftrightarrow> length ys = length xs \<and> (\<forall>i < length xs. f (xs ! i) = Inr (ys ! i))"
proof (induction xs arbitrary: ys)
  case (Cons x xs)
  show ?case
    by (cases ys) (auto simp: result_simps Cons less_Suc_eq_0_disj)
qed auto

lemma mapR_total: "(\<And>x. x \<in> set xs \<Longrightarrow> f x = Inr (g x)) \<Longrightarrow> mapR f xs = Inr (map g xs)"
  by (induction xs) simp_all

section \<open>Lists\<close>

definition slice :: "'a list \<Rightarrow> nat \<Rightarrow> nat \<Rightarrow> 'a list" where
  "slice xs off n = take n (drop off xs)"

lemma length_slice [simp]: "off + n \<le> length xs \<Longrightarrow> length (slice xs off n) = n"
  by (simp add: slice_def)

lemma slice_append_right [simp]: "length xs \<le> off \<Longrightarrow> slice (xs @ ys) off n = slice ys (off - length xs) n"
  by (simp add: slice_def)

lemma slice_append_left: "off + n \<le> length xs \<Longrightarrow> slice (xs @ ys) off n = slice xs off n"
  by (simp add: slice_def)

lemma slice_whole [simp]: "length xs = n \<Longrightarrow> slice xs 0 n = xs"
  and slice_prefix [simp]: "length xs = n \<Longrightarrow> slice (xs @ ys) 0 n = xs"
  by (simp_all add: slice_def)

definition pad_start :: "nat \<Rightarrow> char \<Rightarrow> string \<Rightarrow> string" where
  "pad_start n c s = replicate (n - length s) c @ s"

lemma length_pad_start [simp]: "length (pad_start n c s) = max n (length s)"
  by (simp add: pad_start_def)

section \<open>Fixed-width encodings\<close>

locale fixed_codec =
  fixes width :: nat
    and enc :: "'a \<Rightarrow> bytes"
    and dec :: "bytes \<Rightarrow> 'a"
    and valid :: "'a \<Rightarrow> bool"
  assumes enc_length [simp]: "length (enc v) = width"
    and dec_enc [simp]: "valid v \<Longrightarrow> dec (enc v) = v"
    and enc_dec: "length bs = width \<Longrightarrow> enc (dec bs) = bs"
    and dec_valid: "length bs = width \<Longrightarrow> valid (dec bs)"
begin

lemma dec_slice: "valid v \<Longrightarrow> dec (slice (enc v @ rest) 0 width) = v"
  by simp

lemma dec_take: "valid v \<Longrightarrow> dec (take width (enc v @ rest)) = v"
  by simp

lemma enc_append_inject:
  assumes "valid a" and "valid b" and "enc a @ xs = enc b @ ys"
  shows "a = b \<and> xs = ys"
proof -
  from assms(3) have "enc a = enc b \<and> xs = ys"
    by simp
  then show ?thesis using assms(1,2) by (metis dec_enc)
qed

lemma concat_map_length: "length (concat (map enc vs)) = width * length vs"
  by (induction vs) simp_all

lemma dec_nth_chunk:
  assumes "\<And>v. v \<in> set vs \<Longrightarrow> valid v" and "i < length vs"
  shows "dec (slice (concat (map enc vs) @ rest) (i * width) width) = vs ! i"
  using assms
proof (induction vs arbitrary: i)
  case (Cons v vs)
  show ?case
  proof (cases i)
    case 0
    with Cons.prems show ?thesis by (simp add: slice_def)
  next
    case (Suc j)
    with Cons.prems Cons.IH [of j] show ?thesis by (simp add: slice_def)
  qed
qed simp

end

section \<open>Little-endian integers\<close>

text \<open>
  \<open>DataView.set*(0, value, true)\<close> stores \<open>value mod 2^(8n)\<close>, least significant byte first;
  a negative value is stored in two's complement because \<open>div\<close> rounds down.
\<close>

fun le_bytes :: "nat \<Rightarrow> int \<Rightarrow> bytes" where
  "le_bytes 0 v = []"
| "le_bytes (Suc n) v = word_of_int v # le_bytes n (v div 256)"

fun le_val :: "bytes \<Rightarrow> int" where
  "le_val [] = 0"
| "le_val (b # bs) = uint b + 256 * le_val bs"

definition le_sval :: "bytes \<Rightarrow> int" where
  "le_sval bs = (let u = le_val bs; m = 256 ^ length bs in if 2 * u < m then u else u - m)"

lemma length_le_bytes [simp]: "length (le_bytes n v) = n"
  by (induction n arbitrary: v) simp_all

lemma uint_byte_bounds: "0 \<le> uint (b :: byte)" "uint (b :: byte) < 256"
  using uint_lt2p [of b] by simp_all

lemma le_val_bounds: "0 \<le> le_val bs" "le_val bs < 256 ^ length bs"
proof (induction bs)
  case (Cons b bs)
  { case 1 with Cons uint_byte_bounds(1) [of b] show ?case by simp }
  { case 2 with Cons uint_byte_bounds(2) [of b] show ?case by simp }
qed simp_all

lemma le_val_le_bytes: "le_val (le_bytes n v) = v mod 256 ^ n"
proof (induction n arbitrary: v)
  case (Suc n)
  have "uint (word_of_int v :: byte) = v mod 256"
    by (simp add: uint_word_of_int)
  with Suc show ?case by (simp add: zmod_zmult2_eq)
qed simp

lemma le_bytes_le_val: "length bs = n \<Longrightarrow> le_bytes n (le_val bs) = bs"
proof (induction n arbitrary: bs)
  case (Suc n)
  then obtain b cs where bs: "bs = b # cs" and n: "length cs = n"
    by (cases bs) auto
  have "(uint b + 256 * le_val cs) div 256 = le_val cs"
    using uint_byte_bounds [of b] by simp
  moreover have "uint (word_of_int (uint b + 256 * le_val cs) :: byte) = uint b"
    unfolding uint_word_of_int using uint_byte_bounds [of b] by simp
  then have "(word_of_int (uint b + 256 * le_val cs) :: byte) = b"
    by (rule word_uint_eqI)
  ultimately show ?case using bs n Suc.IH by simp
qed simp


lemma le_val_inverse [simp]: "0 \<le> v \<Longrightarrow> v < 256 ^ n \<Longrightarrow> le_val (le_bytes n v) = v"
  by (simp add: le_val_le_bytes)

lemma le_sval_inverse:
  assumes "- (256 ^ n) \<le> 2 * v" and "2 * v < 256 ^ n"
  shows "le_sval (le_bytes n v) = v"
proof (cases "0 \<le> v")
  case True
  with assms show ?thesis by (simp add: le_sval_def)
next
  case False
  with assms have "v mod 256 ^ n = v + 256 ^ n"
    by (intro mod_pos_pos_trivial [of "v + 256 ^ n" "256 ^ n", simplified]) auto
  with False assms show ?thesis
    by (simp add: le_sval_def le_val_le_bytes)
qed

lemma le_bytes_add_period: "le_bytes n (v + 256 ^ n) = le_bytes n v"
proof -
  have "le_bytes n (le_val (le_bytes n (v + 256 ^ n))) = le_bytes n (le_val (le_bytes n v))"
    by (simp add: le_val_le_bytes)
  then show ?thesis by (simp add: le_bytes_le_val)
qed

lemma le_bytes_le_sval: "length bs = n \<Longrightarrow> le_bytes n (le_sval bs) = bs"
  using le_bytes_add_period [of n "le_sval bs"]
  by (auto simp: le_sval_def Let_def le_bytes_le_val)

lemma le_sval_bounds:
  assumes "length bs = n"
  shows "- (256 ^ n) \<le> 2 * le_sval bs" and "2 * le_sval bs < 256 ^ n"
  using le_val_bounds [of bs] assms by (auto simp: le_sval_def Let_def)

definition u8_ok :: "int \<Rightarrow> bool" where "u8_ok v \<longleftrightarrow> 0 \<le> v \<and> v \<le> 0xff"
definition u16_ok :: "int \<Rightarrow> bool" where "u16_ok v \<longleftrightarrow> 0 \<le> v \<and> v \<le> 0xffff"
definition u32_ok :: "int \<Rightarrow> bool" where "u32_ok v \<longleftrightarrow> 0 \<le> v \<and> v \<le> 0xffffffff"
definition u64_ok :: "int \<Rightarrow> bool" where "u64_ok v \<longleftrightarrow> 0 \<le> v \<and> v \<le> 18446744073709551615"
definition i64_ok :: "int \<Rightarrow> bool" where
  "i64_ok v \<longleftrightarrow> - 9223372036854775808 \<le> v \<and> v \<le> 9223372036854775807"

lemmas int_range_defs = u8_ok_def u16_ok_def u32_ok_def u64_ok_def i64_ok_def

lemma le_codec:
  assumes "\<And>v. ok v \<longleftrightarrow> 0 \<le> v \<and> v < 256 ^ n"
  shows "fixed_codec n (le_bytes n) le_val ok"
  using assms le_val_bounds by unfold_locales (auto simp: le_bytes_le_val)

lemma le_signed_codec:
  assumes "\<And>v. ok v \<longleftrightarrow> - (256 ^ n) \<le> 2 * v \<and> 2 * v < 256 ^ n"
  shows "fixed_codec n (le_bytes n) le_sval ok"
  using assms le_sval_bounds by unfold_locales (auto simp: le_bytes_le_sval le_sval_inverse)

interpretation u8: fixed_codec 1 "le_bytes 1" le_val u8_ok
  by (rule le_codec) (auto simp: u8_ok_def)

interpretation u16: fixed_codec 2 "le_bytes 2" le_val u16_ok
  by (rule le_codec) (auto simp: u16_ok_def)

interpretation u32: fixed_codec 4 "le_bytes 4" le_val u32_ok
  by (rule le_codec) (auto simp: u32_ok_def)

interpretation u64: fixed_codec 8 "le_bytes 8" le_val u64_ok
  by (rule le_codec) (auto simp: u64_ok_def)

interpretation i64: fixed_codec 8 "le_bytes 8" le_sval i64_ok
  by (rule le_signed_codec) (auto simp: i64_ok_def)


section \<open>State machines\<close>

text \<open>
  The states a step relation reaches from a start state, and the contract of an invariant: it
  holds at the start and every step from a state that satisfies it keeps it.
\<close>

inductive reach :: "'s \<Rightarrow> ('s \<Rightarrow> 's \<Rightarrow> bool) \<Rightarrow> 's \<Rightarrow> bool" for s0 and step where
  reach_start: "reach s0 step s0"
| reach_step: "reach s0 step s \<Longrightarrow> step s t \<Longrightarrow> reach s0 step t"

locale invariant =
  fixes s0 :: 's
    and step :: "'s \<Rightarrow> 's \<Rightarrow> bool"
    and inv :: "'s \<Rightarrow> bool"
  assumes inv_start: "inv s0"
    and inv_step: "inv s \<Longrightarrow> step s t \<Longrightarrow> inv t"
begin

lemma inv_reach: "reach s0 step s \<Longrightarrow> inv s"
  by (induction rule: reach.induct) (auto intro: inv_start inv_step)

lemma inv_run: "inv s \<Longrightarrow> step\<^sup>*\<^sup>* s t \<Longrightarrow> inv t"
  by (rotate_tac, induction rule: rtranclp_induct) (auto intro: inv_step)

end

end
