(* ===== verification/JsText.thy ===== *)
theory JsText
  imports Prelude
begin

text \<open>
  The text operations of the JavaScript runtime the sources use on ASCII data: printing an
  integer in a radix, reading decimal and hexadecimal digits, byte-to-hex and base-independent
  round trips, \<open>trim\<close>, \<open>includes\<close> and \<open>startsWith\<close>. The lemmas are the round trips between
  numbers and their text.
\<close>

section \<open>Digits\<close>

definition digit_char :: "nat \<Rightarrow> char" where
  "digit_char d = char_of (if d < 10 then 48 + d else 87 + d)"

definition digit_val :: "char \<Rightarrow> nat" where
  "digit_val c = (let n = (of_char c :: nat) in
     if 48 \<le> n \<and> n \<le> 57 then n - 48
     else if 97 \<le> n \<and> n \<le> 122 then n - 87
     else if 65 \<le> n \<and> n \<le> 90 then n - 55
     else 36)"

definition is_digit :: "char \<Rightarrow> bool" where
  "is_digit c = (let n = (of_char c :: nat) in 48 \<le> n \<and> n \<le> 57)"

definition is_hex_digit :: "char \<Rightarrow> bool" where
  "is_hex_digit c = (digit_val c < 16)"

definition is_lower_hex :: "char \<Rightarrow> bool" where
  "is_lower_hex c = (let n = (of_char c :: nat) in 48 \<le> n \<and> n \<le> 57 \<or> 97 \<le> n \<and> n \<le> 102)"

lemma digit_val_char [simp]: "d < 36 \<Longrightarrow> digit_val (digit_char d) = d"
  by (auto simp: digit_val_def digit_char_def Let_def)

lemma is_digit_char [simp]: "d < 10 \<Longrightarrow> is_digit (digit_char d)"
  by (simp add: is_digit_def digit_char_def)

lemma is_lower_hex_char [simp]: "d < 16 \<Longrightarrow> is_lower_hex (digit_char d)"
  by (auto simp: is_lower_hex_def digit_char_def)

lemma lower_hex_is_hex: "is_lower_hex c \<Longrightarrow> is_hex_digit c"
  by (auto simp: is_lower_hex_def is_hex_digit_def digit_val_def Let_def)

lemma digit_val_is_digit: "is_digit c \<Longrightarrow> digit_val c < 10"
  by (auto simp: is_digit_def digit_val_def Let_def)

lemma digit_char_val:
  assumes "is_lower_hex c"
  shows "digit_char (digit_val c) = c"
proof -
  have "char_of (of_char c :: nat) = c" by simp
  with assms show ?thesis
    by (auto simp: is_lower_hex_def digit_val_def digit_char_def Let_def)
qed

section \<open>Printing and reading naturals\<close>

text \<open>\<open>x.toString(radix)\<close> for a non-negative integer.\<close>

function radix_str :: "nat \<Rightarrow> nat \<Rightarrow> string" where
  "radix_str r n =
     (if n < r \<or> r < 2 then [digit_char n] else radix_str r (n div r) @ [digit_char (n mod r)])"
  by pat_completeness auto
termination
  by (relation "measure snd") auto

declare radix_str.simps [simp del]

definition radix_val :: "nat \<Rightarrow> string \<Rightarrow> nat" where
  "radix_val r s = foldl (\<lambda>a c. r * a + digit_val c) 0 s"

abbreviation nat_dec :: "nat \<Rightarrow> string" where
  "nat_dec \<equiv> radix_str 10"

text \<open>\<open>BigInt.toString()\<close>, with the sign of a negative value.\<close>

definition int_dec :: "int \<Rightarrow> string" where
  "int_dec v = (if v < 0 then ''-'' @ nat_dec (nat (- v)) else nat_dec (nat v))"

text \<open>\<open>/^\\d+$/.test(s)\<close>, and \<open>BigInt(s)\<close> of such a string.\<close>

definition is_digits :: "string \<Rightarrow> bool" where
  "is_digits s \<longleftrightarrow> s \<noteq> [] \<and> list_all is_digit s"

definition dec_val :: "string \<Rightarrow> int" where
  "dec_val s = int (radix_val 10 s)"

lemma radix_val_Nil [simp]: "radix_val r [] = 0"
  by (simp add: radix_val_def)

lemma radix_val_snoc [simp]: "radix_val r (s @ [c]) = r * radix_val r s + digit_val c"
  by (simp add: radix_val_def)

lemma radix_val_append: "radix_val r (s @ t) = radix_val r s * r ^ length t + radix_val r t"
  by (induction t rule: rev_induct) (auto simp: algebra_simps simp flip: append_assoc)

lemma digit_val_0 [simp]: "digit_val CHR ''0'' = 0"
  by (simp add: digit_val_def)

lemma digit_char_0: "digit_char 0 = CHR ''0''"
  by (rule of_char_eqI [where 'a = nat]) (simp add: digit_char_def)

lemma radix_val_zeros [simp]: "radix_val r (replicate k CHR ''0'' @ s) = radix_val r s"
proof (induction k)
  case (Suc k)
  have "radix_val r (CHR ''0'' # t) = radix_val r t" for t
    by (simp add: radix_val_def)
  with Suc show ?case by simp
qed simp

lemma radix_val_str:
  assumes "2 \<le> r" and "r \<le> 36"
  shows "radix_val r (radix_str r n) = n"
proof (induction n rule: less_induct)
  case (less n)
  show ?case
  proof (cases "n < r")
    case True
    then show ?thesis
      using assms by (subst radix_str.simps) (simp add: radix_val_def)
  next
    case False
    with assms have "n div r < n" by (intro div_less_dividend) auto
    moreover have "n mod r < 36"
      using assms mod_less_divisor [of r n] by linarith
    ultimately show ?thesis
      using less False assms by (subst radix_str.simps) simp
  qed
qed

lemma radix_str_not_Nil [simp]: "radix_str r n \<noteq> []"
  by (subst radix_str.simps) simp

lemma radix_str_digits:
  assumes "2 \<le> r" and "r \<le> 16" and "c \<in> set (radix_str r n)"
  shows "\<exists>d < r. c = digit_char d"
  using assms(3)
proof (induction n rule: less_induct)
  case (less n)
  show ?case
  proof (cases "n < r")
    case True
    with less.prems show ?thesis by (subst (asm) radix_str.simps) auto
  next
    case False
    with assms have "n div r < n" by (intro div_less_dividend) auto
    moreover from less.prems False assms
    have "c \<in> set (radix_str r (n div r)) \<or> c = digit_char (n mod r)"
      by (subst (asm) radix_str.simps) auto
    moreover have "n mod r < r" using assms by simp
    ultimately show ?thesis using less.IH by blast
  qed
qed

lemma is_digits_nat_dec [simp]: "is_digits (nat_dec n)"
  using radix_str_digits [of 10 _ n] by (fastforce simp: is_digits_def list_all_iff)

lemma dec_val_nat_dec [simp]: "dec_val (nat_dec n) = int n"
  by (simp add: dec_val_def radix_val_str)

lemma dec_val_nonneg [simp]: "0 \<le> dec_val s"
  by (simp add: dec_val_def)

lemma radix_val_dec [simp]: "radix_val 10 (nat_dec n) = n"
  by (rule radix_val_str) simp_all

lemma nat_dec_inject: "nat_dec a = nat_dec b \<longleftrightarrow> a = b"
  by (metis radix_val_dec)

section \<open>Hexadecimal bytes\<close>

text \<open>\<open>byte.toString(16).padStart(2, "0")\<close>, and \<open>parseInt\<close> of two hexadecimal characters.\<close>

definition hex_byte :: "byte \<Rightarrow> string" where
  "hex_byte b = pad_start 2 CHR ''0'' (radix_str 16 (unat b))"

fun hex_str :: "bytes \<Rightarrow> string" where
  "hex_str [] = []"
| "hex_str (b # bs) = hex_byte b @ hex_str bs"

definition parse_hex_byte :: "string \<Rightarrow> byte" where
  "parse_hex_byte s = word_of_nat (radix_val 16 s)"

lemma unat_byte_less: "unat (b :: byte) < 256"
  using unsigned_less [of b, where ?'a = nat] by simp

lemma hex_byte_eq: "hex_byte b = [digit_char (unat b div 16), digit_char (unat b mod 16)]"
proof (cases "unat b < 16")
  case True
  then show ?thesis
    by (simp add: hex_byte_def radix_str.simps pad_start_def digit_char_0)
next
  case False
  then have "unat b div 16 < 16" using unat_byte_less [of b] by auto
  with False show ?thesis
    by (simp add: hex_byte_def radix_str.simps [of 16 "unat b"] radix_str.simps [of 16 "unat b div 16"] pad_start_def)
qed

lemma length_hex_str [simp]: "length (hex_str bs) = 2 * length bs"
  by (induction bs) (simp_all add: hex_byte_eq)

lemma hex_str_lower: "list_all is_lower_hex (hex_str bs)"
  using unat_byte_less by (induction bs) (auto simp: hex_byte_eq less_mult_imp_div_less)

lemma parse_hex_byte_hex [simp]: "parse_hex_byte (hex_byte b) = b"
proof -
  have "unat b div 16 < 16" using unat_byte_less [of b] by auto
  then have "radix_val 16 (hex_byte b) = unat b"
    by (simp add: hex_byte_eq radix_val_def)
  then show ?thesis by (simp add: parse_hex_byte_def)
qed

lemma hex_str_nth_pair: "i < length bs \<Longrightarrow> slice (hex_str bs) (2 * i) 2 = hex_byte (bs ! i)"
proof (induction bs arbitrary: i)
  case (Cons b bs)
  then show ?case by (cases i) (simp_all add: hex_byte_eq slice_def)
qed simp

lemma hex_str_inject: "hex_str a = hex_str b \<longleftrightarrow> a = b"
proof
  assume eq: "hex_str a = hex_str b"
  have "length a = length b" using eq by (metis length_hex_str mult_left_cancel zero_neq_numeral)
  then show "a = b"
  proof (rule nth_equalityI)
    fix i assume i: "i < length a"
    then have "hex_byte (a ! i) = hex_byte (b ! i)"
      using eq \<open>length a = length b\<close> hex_str_nth_pair by metis
    then show "a ! i = b ! i" by (metis parse_hex_byte_hex)
  qed
qed simp

section \<open>Substrings and white space\<close>

fun starts_with :: "string \<Rightarrow> string \<Rightarrow> bool" where
  "starts_with s [] = True"
| "starts_with [] (p # ps) = False"
| "starts_with (c # cs) (p # ps) = (c = p \<and> starts_with cs ps)"

fun str_includes :: "string \<Rightarrow> string \<Rightarrow> bool" where
  "str_includes [] p = (p = [])"
| "str_includes (c # cs) p = (starts_with (c # cs) p \<or> str_includes cs p)"

text \<open>The ASCII part of what \<open>String.prototype.trim\<close> removes.\<close>

definition is_space :: "char \<Rightarrow> bool" where
  "is_space c = (let n = (of_char c :: nat) in n = 32 \<or> 9 \<le> n \<and> n \<le> 13 \<or> n = 160)"

definition trim :: "string \<Rightarrow> string" where
  "trim s = rev (dropWhile is_space (rev (dropWhile is_space s)))"

lemma starts_with_iff: "starts_with s p \<longleftrightarrow> (\<exists>t. s = p @ t)"
  by (induction s p rule: starts_with.induct) auto

lemma str_includes_iff: "str_includes s p \<longleftrightarrow> (\<exists>a b. s = a @ p @ b)"
proof (induction s)
  case (Cons c cs)
  have "(\<exists>a b. c # cs = a @ p @ b) \<longleftrightarrow> (\<exists>b. c # cs = p @ b) \<or> (\<exists>a b. cs = a @ p @ b)"
    by (metis append_Cons append_Nil list.inject neq_Nil_conv)
  with Cons show ?case by (simp add: starts_with_iff)
qed auto

end
