(* ===== verification/Encoding.thy ===== *)
theory Encoding
  imports JsText
begin

text \<open>
  \<open>sdk/src/constants.ts\<close>, \<open>sdk/src/encoding.ts\<close>, \<open>sdk/src/pda.ts\<close> and \<open>sdk/src/token.ts\<close>: the
  byte layer of the SDK. \<open>@solana/web3.js\<close> is not part of the repository; what the code calls of
  it (\<open>new PublicKey(text).toBytes()\<close>, \<open>toBase58()\<close>, \<open>findProgramAddressSync\<close>) is the record
  \<open>web3\<close>, an argument \<open>W\<close> of every definition that uses it. \<open>web3_ok W\<close> names the documented
  behaviour the properties rely on. A Uint8Array is a list of bytes, a bigint an \<open>int\<close>.
\<close>

section \<open>The web3.js interface\<close>

record web3 =
  pk_parse :: "string \<Rightarrow> bytes option"
  to_base58 :: "bytes \<Rightarrow> string"
  find_pda :: "bytes list \<Rightarrow> bytes \<Rightarrow> bytes result"

definition SYSTEM_PROGRAM_ID :: address where
  "SYSTEM_PROGRAM_ID = ''11111111111111111111111111111111''"

definition web3_ok :: "web3 \<Rightarrow> bool" where
  "web3_ok W \<longleftrightarrow>
     (\<forall>s b. pk_parse W s = Some b \<longrightarrow> length b = 32) \<and>
     (\<forall>b. length b = 32 \<longrightarrow> pk_parse W (to_base58 W b) = Some b) \<and>
     (\<forall>seeds p b. find_pda W seeds p = Inr b \<longrightarrow> length b = 32) \<and>
     to_base58 W (replicate 32 0) = SYSTEM_PROGRAM_ID"

section \<open>Constants\<close>

definition DEFAULT_PROGRAM_ID :: address where
  "DEFAULT_PROGRAM_ID = ''3H9TV1EPR2BAQgVmcMqpufiZKPXbAMnjHp13LA9Lndv4''"

definition SPL_TOKEN_PROGRAM_ID :: address where
  "SPL_TOKEN_PROGRAM_ID = ''TokenkegQfeZyiNwAJbNbGKPFXCWuBvf9Ss623VQ5DA''"

definition TOKEN_2022_PROGRAM_ID :: address where
  "TOKEN_2022_PROGRAM_ID = ''TokenzQdBNbLqP5VEhdkAS6EPFLC1PHnBqCXEpPxuEb''"

definition ASSOCIATED_TOKEN_PROGRAM_ID :: address where
  "ASSOCIATED_TOKEN_PROGRAM_ID = ''ATokenGPvbdGVxr1b2hvZbsiqW5xWH25efTNsLJA8knL''"

definition DISC_initializeConfig :: bytes where
  "DISC_initializeConfig = [208, 127, 21, 1, 194, 190, 196, 70]"
definition DISC_createMandate :: bytes where
  "DISC_createMandate = [230, 170, 158, 68, 33, 169, 16, 158]"
definition DISC_executePayment :: bytes where
  "DISC_executePayment = [86, 4, 7, 7, 120, 139, 232, 139]"
definition DISC_pauseMandate :: bytes where
  "DISC_pauseMandate = [192, 108, 97, 124, 56, 229, 236, 3]"
definition DISC_revokeMandate :: bytes where
  "DISC_revokeMandate = [252, 97, 140, 119, 67, 43, 177, 108]"
definition DISC_updateMandate :: bytes where
  "DISC_updateMandate = [69, 131, 248, 29, 105, 50, 139, 30]"
definition DISC_registerAsset :: bytes where
  "DISC_registerAsset = [21, 80, 155, 149, 117, 207, 235, 16]"
definition DISC_setAssetStatus :: bytes where
  "DISC_setAssetStatus = [58, 54, 181, 102, 68, 238, 240, 245]"
definition DISC_approveChecked :: bytes where
  "DISC_approveChecked = [13]"
definition DISC_revokeDelegate :: bytes where
  "DISC_revokeDelegate = [5]"

lemmas DISC_defs =
  DISC_initializeConfig_def DISC_createMandate_def DISC_executePayment_def DISC_pauseMandate_def
  DISC_revokeMandate_def DISC_updateMandate_def DISC_registerAsset_def DISC_setAssetStatus_def
  DISC_approveChecked_def DISC_revokeDelegate_def

definition ACCT_protocolConfig :: bytes where
  "ACCT_protocolConfig = [207, 91, 250, 28, 152, 179, 215, 209]"
definition ACCT_supportedAsset :: bytes where
  "ACCT_supportedAsset = [129, 27, 96, 192, 89, 180, 227, 200]"
definition ACCT_paymentMandate :: bytes where
  "ACCT_paymentMandate = [139, 106, 43, 122, 82, 211, 96, 162]"
definition ACCT_paymentReceipt :: bytes where
  "ACCT_paymentReceipt = [168, 198, 209, 4, 60, 235, 126, 109]"

lemmas ACCT_defs =
  ACCT_protocolConfig_def ACCT_supportedAsset_def ACCT_paymentMandate_def ACCT_paymentReceipt_def

definition MANDATE_NONCE_PREFIX :: bytes where
  "MANDATE_NONCE_PREFIX = [67, 80, 78, 79, 78, 67, 69, 33]"

definition RECEIPT_STATUS_SETTLED :: int where "RECEIPT_STATUS_SETTLED = 1"
definition RECEIPT_ACCOUNT_LENGTH :: nat where "RECEIPT_ACCOUNT_LENGTH = 282"
definition RECEIPT_ACCOUNT_LENGTH_V2 :: nat where "RECEIPT_ACCOUNT_LENGTH_V2 = 371"
definition MANDATE_ACCOUNT_LENGTH :: nat where "MANDATE_ACCOUNT_LENGTH = 235"

text \<open>\<open>Buffer.from(text)\<close> / \<open>TextEncoder.encode\<close> on ASCII text.\<close>

definition str_bytes :: "string \<Rightarrow> bytes" where
  "str_bytes s = map (\<lambda>c. word_of_nat (of_char c)) s"

section \<open>Instructions and their parts\<close>

datatype TokenProgram = SplToken | Token2022

record AccountMeta =
  meta_address :: address
  isSigner :: bool
  isWritable :: bool

record ChainPayInstruction =
  ix_name :: string
  ix_programId :: address
  ix_keys :: "AccountMeta list"
  ix_data :: bytes

section \<open>encoding.ts\<close>

definition publicKey :: "web3 \<Rightarrow> address \<Rightarrow> bytes result" where
  "publicKey W value = (case pk_parse W value of
     None \<Rightarrow> Inl (''Invalid Solana address: '' @ value) | Some b \<Rightarrow> Inr b)"

definition address :: "web3 \<Rightarrow> address \<Rightarrow> address result" where
  "address W value = bindR (publicKey W value) (\<lambda>b. Inr (to_base58 W b))"

definition bytes32 :: "bytes \<Rightarrow> string \<Rightarrow> bytes result" where
  "bytes32 value name =
     (if length value \<noteq> 32 then Inl (name @ '' must be exactly 32 bytes'') else Inr value)"

definition writeU64 :: "int \<Rightarrow> string \<Rightarrow> bytes result" where
  "writeU64 value name =
     (if value < 0 \<or> value > 18446744073709551615
      then Inl (name @ '' must fit in an unsigned 64-bit integer'')
      else Inr (le_bytes 8 value))"

definition readU64 :: "bytes \<Rightarrow> nat \<Rightarrow> int result" where
  "readU64 data off =
     (if off + 8 > length data then Inl ''Account data ended while reading u64''
      else Inr (le_val (slice data off 8)))"

definition readU8 :: "bytes \<Rightarrow> nat \<Rightarrow> int result" where
  "readU8 data off =
     (if off \<ge> length data then Inl ''Account data ended while reading u8''
      else Inr (uint (data ! off)))"

definition readBytes32 :: "bytes \<Rightarrow> nat \<Rightarrow> string \<Rightarrow> bytes result" where
  "readBytes32 data off name =
     (if off + 32 > length data then Inl (''Account data ended while reading '' @ name)
      else Inr (slice data off 32))"

text \<open>The loop over the discriminator's bytes, with the length test before it.\<close>

fun discriminator_loop :: "bytes \<Rightarrow> bytes \<Rightarrow> nat \<Rightarrow> nat \<Rightarrow> bool" where
  "discriminator_loop data disc i 0 = True"
| "discriminator_loop data disc i (Suc k) =
     (if data ! i \<noteq> disc ! i then False else discriminator_loop data disc (Suc i) k)"

definition assertDiscriminator :: "bytes \<Rightarrow> bytes \<Rightarrow> string \<Rightarrow> unit result" where
  "assertDiscriminator data disc accountName =
     (if length data < length disc then Inl (accountName @ '' account data is truncated'')
      else if \<not> discriminator_loop data disc 0 (length disc)
      then Inl (''Invalid '' @ accountName @ '' account discriminator'')
      else Inr ())"

definition readPublicKey :: "web3 \<Rightarrow> bytes \<Rightarrow> nat \<Rightarrow> address result" where
  "readPublicKey W data off =
     (if off + 32 > length data then Inl ''Account data ended while reading public key''
      else Inr (to_base58 W (slice data off 32)))"

definition isMandateNonce :: "web3 \<Rightarrow> address \<Rightarrow> bool result" where
  "isMandateNonce W value = bindR (publicKey W value)
     (\<lambda>b. Inr (list_all (\<lambda>i. b ! i = MANDATE_NONCE_PREFIX ! i) [0..<length MANDATE_NONCE_PREFIX]))"

text \<open>\<open>concat(...parts)\<close>: one buffer of the total size, each part copied at a running offset.\<close>

definition set_at :: "bytes \<Rightarrow> bytes \<Rightarrow> nat \<Rightarrow> bytes" where
  "set_at buf part off = take off buf @ part @ drop (off + length part) buf"

fun concat_loop :: "bytes \<Rightarrow> nat \<Rightarrow> bytes list \<Rightarrow> bytes" where
  "concat_loop buf off [] = buf"
| "concat_loop buf off (part # parts) = concat_loop (set_at buf part off) (off + length part) parts"

definition concat_bytes :: "bytes list \<Rightarrow> bytes" where
  "concat_bytes parts = concat_loop (replicate (foldl (\<lambda>total part. total + length part) 0 parts) 0) 0 parts"

definition meta :: "web3 \<Rightarrow> address \<Rightarrow> bool \<Rightarrow> bool \<Rightarrow> AccountMeta result" where
  "meta W value writable signer = bindR (address W value)
     (\<lambda>a. Inr \<lparr>meta_address = a, isSigner = signer, isWritable = writable\<rparr>)"

fun tokenProgramAddress :: "TokenProgram \<Rightarrow> address" where
  "tokenProgramAddress Token2022 = TOKEN_2022_PROGRAM_ID"
| "tokenProgramAddress SplToken = SPL_TOKEN_PROGRAM_ID"

definition tokenProgramFromAddress :: "web3 \<Rightarrow> address \<Rightarrow> TokenProgram option result" where
  "tokenProgramFromAddress W value = bindR (address W value) (\<lambda>normalized. Inr
     (if normalized = tokenProgramAddress SplToken then Some SplToken
      else if normalized = tokenProgramAddress Token2022 then Some Token2022 else None))"

text \<open>
  The keys and the data are evaluated before the call, in this order; \<open>address(programId)\<close> inside.
\<close>

definition instruction ::
  "web3 \<Rightarrow> string \<Rightarrow> address \<Rightarrow> AccountMeta result list \<Rightarrow> bytes result \<Rightarrow> ChainPayInstruction result" where
  "instruction W name programId keys data =
     bindR (mapR (\<lambda>k. k) keys) (\<lambda>ks. bindR data (\<lambda>d. bindR (address W programId) (\<lambda>p.
       Inr \<lparr>ix_name = name, ix_programId = p, ix_keys = ks, ix_data = d\<rparr>)))"

definition concatR :: "bytes result list \<Rightarrow> bytes result" where
  "concatR parts = bindR (mapR (\<lambda>p. p) parts) (\<lambda>ps. Inr (concat_bytes ps))"

record CreateMandateData =
  cd_approvedAgent :: address
  cd_sourceTokenAccount :: address
  cd_allowedMint :: address
  cd_maxPerPayment :: int
  cd_totalLimit :: int
  cd_expiresAtSlot :: int
  cd_maxPaymentCount :: int
  cd_cooldownSlots :: int
  cd_mandateNonce :: address

definition encodeCreateMandate :: "web3 \<Rightarrow> CreateMandateData \<Rightarrow> bytes result" where
  "encodeCreateMandate W params = concatR
     [Inr DISC_createMandate,
      publicKey W (cd_approvedAgent params),
      publicKey W (cd_sourceTokenAccount params),
      publicKey W (cd_allowedMint params),
      writeU64 (cd_maxPerPayment params) ''maxPerPayment'',
      writeU64 (cd_totalLimit params) ''totalLimit'',
      writeU64 (cd_expiresAtSlot params) ''expiresAtSlot'',
      writeU64 (cd_maxPaymentCount params) ''maxPaymentCount'',
      writeU64 (cd_cooldownSlots params) ''cooldownSlots'',
      publicKey W (cd_mandateNonce params)]"

definition encodeInitializeConfig :: "web3 \<Rightarrow> address list \<Rightarrow> bytes result" where
  "encodeInitializeConfig W supportedMints =
     (if length supportedMints \<noteq> 3
      then Inl ''initialize_config requires exactly three mint slots''
      else concatR (Inr DISC_initializeConfig # map (publicKey W) supportedMints))"

definition encodeRegisterAsset :: "web3 \<Rightarrow> address \<Rightarrow> bytes result" where
  "encodeRegisterAsset W mint = concatR [Inr DISC_registerAsset, publicKey W mint]"

definition encodeSetAssetStatus :: "bool \<Rightarrow> bytes" where
  "encodeSetAssetStatus enabled = concat_bytes [DISC_setAssetStatus, [if enabled then 1 else 0]]"

record UpdateMandateInput =
  up_approvedAgent :: address
  up_maxPerPayment :: int
  up_totalLimit :: int
  up_expiresAtSlot :: int
  up_maxPaymentCount :: int
  up_cooldownSlots :: int
  up_paused :: bool

definition encodeUpdateMandate :: "web3 \<Rightarrow> UpdateMandateInput \<Rightarrow> bytes result" where
  "encodeUpdateMandate W params = concatR
     [Inr DISC_updateMandate,
      publicKey W (up_approvedAgent params),
      writeU64 (up_maxPerPayment params) ''maxPerPayment'',
      writeU64 (up_totalLimit params) ''totalLimit'',
      writeU64 (up_expiresAtSlot params) ''expiresAtSlot'',
      writeU64 (up_maxPaymentCount params) ''maxPaymentCount'',
      writeU64 (up_cooldownSlots params) ''cooldownSlots'',
      Inr [if up_paused params then 1 else 0]]"

definition encodePayment :: "bytes \<Rightarrow> bytes \<Rightarrow> bytes \<Rightarrow> int \<Rightarrow> bytes result" where
  "encodePayment invoiceHash paymentId signatureReference amount = concatR
     [Inr DISC_executePayment,
      bytes32 invoiceHash ''invoiceHash'',
      bytes32 paymentId ''paymentId'',
      bytes32 signatureReference ''signatureReference'',
      writeU64 amount ''amount'']"

definition encodePauseMandate :: bytes where
  "encodePauseMandate = DISC_pauseMandate"

definition encodeRevokeMandate :: bytes where
  "encodeRevokeMandate = DISC_revokeMandate"

definition encodeApproveChecked :: "int \<Rightarrow> jsnum \<Rightarrow> bytes result" where
  "encodeApproveChecked amount decimals =
     (if \<not> num_in 0 255 decimals then Inl ''Token decimals must be between 0 and 255''
      else concatR [Inr DISC_approveChecked, writeU64 amount ''delegateAmount'',
                    Inr [word_of_int (num_val decimals)]])"

definition encodeRevokeDelegate :: bytes where
  "encodeRevokeDelegate = DISC_revokeDelegate"

definition systemProgramMeta :: "web3 \<Rightarrow> AccountMeta result" where
  "systemProgramMeta W = meta W SYSTEM_PROGRAM_ID False False"

section \<open>pda.ts and token.ts\<close>

text \<open>
  \<open>PublicKey.findProgramAddressSync(seeds, publicKey(programId))[0].toBase58()\<close>: the seeds are
  evaluated first, then the program key.
\<close>

definition pda :: "web3 \<Rightarrow> bytes result list \<Rightarrow> address \<Rightarrow> address result" where
  "pda W seeds programId =
     bindR (mapR (\<lambda>s. s) seeds) (\<lambda>ss. bindR (publicKey W programId) (\<lambda>p.
     bindR (find_pda W ss p) (\<lambda>a. Inr (to_base58 W a))))"

definition deriveConfigAddress :: "web3 \<Rightarrow> address \<Rightarrow> address result" where
  "deriveConfigAddress W programId = pda W [Inr (str_bytes ''config'')] programId"

definition deriveLegacyMandateAddress :: "web3 \<Rightarrow> address \<Rightarrow> address \<Rightarrow> address result" where
  "deriveLegacyMandateAddress W owner programId =
     pda W [Inr (str_bytes ''mandate''), publicKey W owner] programId"

definition deriveMintMandateAddress :: "web3 \<Rightarrow> address \<Rightarrow> address \<Rightarrow> address \<Rightarrow> address result" where
  "deriveMintMandateAddress W owner allowedMint programId =
     pda W [Inr (str_bytes ''mandate''), publicKey W owner, publicKey W allowedMint] programId"

definition deriveVersionedMandateAddress ::
  "web3 \<Rightarrow> address \<Rightarrow> address \<Rightarrow> address \<Rightarrow> address \<Rightarrow> address result" where
  "deriveVersionedMandateAddress W owner allowedMint mandateNonce programId =
     pda W [Inr (str_bytes ''mandate''), publicKey W owner, publicKey W allowedMint,
            publicKey W mandateNonce] programId"

definition deriveMandateAddress :: "web3 \<Rightarrow> address \<Rightarrow> address \<Rightarrow> address option \<Rightarrow> address result" where
  "deriveMandateAddress W owner programId allowedMint = (case allowedMint of
     None \<Rightarrow> deriveLegacyMandateAddress W owner programId
   | Some mint \<Rightarrow> deriveMintMandateAddress W owner mint programId)"

definition deriveReceiptAddress :: "web3 \<Rightarrow> address \<Rightarrow> bytes \<Rightarrow> address \<Rightarrow> address result" where
  "deriveReceiptAddress W mandate invoiceHash programId =
     pda W [Inr (str_bytes ''receipt''), publicKey W mandate, bytes32 invoiceHash ''invoiceHash''] programId"

definition deriveAssetAddress :: "web3 \<Rightarrow> address \<Rightarrow> address \<Rightarrow> address result" where
  "deriveAssetAddress W mint programId =
     pda W [Inr (str_bytes ''asset''), publicKey W mint] programId"

definition deriveAssociatedTokenAddress ::
  "web3 \<Rightarrow> address \<Rightarrow> address \<Rightarrow> TokenProgram \<Rightarrow> address result" where
  "deriveAssociatedTokenAddress W owner mint tokenProgram =
     pda W [publicKey W owner, publicKey W (tokenProgramAddress tokenProgram), publicKey W mint]
       ASSOCIATED_TOKEN_PROGRAM_ID"

definition buildCreateAssociatedTokenAccountInstruction ::
  "web3 \<Rightarrow> address \<Rightarrow> address \<Rightarrow> address \<Rightarrow> TokenProgram \<Rightarrow> ChainPayInstruction result" where
  "buildCreateAssociatedTokenAccountInstruction W payer owner mint tokenProgram =
     bindR (deriveAssociatedTokenAddress W owner mint tokenProgram) (\<lambda>associatedTokenAccount.
     instruction W ''create_associated_token_account'' ASSOCIATED_TOKEN_PROGRAM_ID
       [meta W payer True True,
        meta W associatedTokenAccount True False,
        meta W owner False False,
        meta W mint False False,
        systemProgramMeta W,
        meta W (tokenProgramAddress tokenProgram) False False]
       (Inr [1]))"

record TokenAccountFields =
  ta_mint :: address
  ta_owner :: address
  ta_balance :: int
  ta_delegate :: "address option"
  ta_delegatedAmount :: int

definition readTokenAccountFields :: "web3 \<Rightarrow> bytes \<Rightarrow> TokenAccountFields option" where
  "readTokenAccountFields W data =
     (if length data < 165 then None else
      let delegateOption = le_val (slice data 72 4) in
      Some \<lparr>ta_mint = to_base58 W (slice data 0 32),
            ta_owner = to_base58 W (slice data 32 32),
            ta_balance = le_val (slice data 64 8),
            ta_delegate = (if delegateOption = 0 then None else Some (to_base58 W (slice data 76 32))),
            ta_delegatedAmount = (if length data \<ge> 129 then le_val (slice data 121 8) else 0)\<rparr>)"

record PaymentPreflightContext =
  sourceBalance :: int
  sourceOwner :: address
  delegate :: "address option"
  delegatedAmount :: int

definition paymentPreflightContextFromTokenAccount ::
  "web3 \<Rightarrow> bytes \<Rightarrow> PaymentPreflightContext option" where
  "paymentPreflightContextFromTokenAccount W data = (case readTokenAccountFields W data of
     None \<Rightarrow> None
   | Some f \<Rightarrow> Some \<lparr>sourceBalance = ta_balance f, sourceOwner = ta_owner f,
       delegate = ta_delegate f, delegatedAmount = ta_delegatedAmount f\<rparr>)"


section \<open>Facts the later theories use\<close>

named_theorems enc_simps \<open>reads and writes at known offsets\<close>

lemma publicKey_length: "web3_ok W \<Longrightarrow> publicKey W v = Inr b \<Longrightarrow> length b = 32"
  by (auto simp: publicKey_def web3_ok_def split: option.splits)

lemma publicKey_base58 [simp]: "web3_ok W \<Longrightarrow> length b = 32 \<Longrightarrow> publicKey W (to_base58 W b) = Inr b"
  by (auto simp: publicKey_def web3_ok_def)

lemma address_base58 [simp]: "web3_ok W \<Longrightarrow> length b = 32 \<Longrightarrow> address W (to_base58 W b) = Inr (to_base58 W b)"
  by (simp add: address_def)

lemma base58_inject:
  "web3_ok W \<Longrightarrow> length a = 32 \<Longrightarrow> length b = 32 \<Longrightarrow> to_base58 W a = to_base58 W b \<longleftrightarrow> a = b"
  unfolding web3_ok_def by (metis option.inject)

lemma base58_default: "web3_ok W \<Longrightarrow> to_base58 W (replicate 32 0) = SYSTEM_PROGRAM_ID"
  by (simp add: web3_ok_def)

lemma address_eq_Inr:
  "address W v = Inr a \<longleftrightarrow> (\<exists>b. publicKey W v = Inr b \<and> a = to_base58 W b)"
  by (auto simp: address_def result_simps)

lemma address_canonical:
  assumes "web3_ok W" and "address W v = Inr a"
  shows "address W a = Inr a"
proof -
  from assms(2) obtain b where b: "publicKey W v = Inr b" "a = to_base58 W b"
    by (auto simp: address_eq_Inr)
  with publicKey_length [OF assms(1) b(1)] assms(1) show ?thesis by simp
qed

lemma writeU64_eq_Inr: "writeU64 v n = Inr bs \<longleftrightarrow> u64_ok v \<and> bs = le_bytes 8 v"
  by (auto simp: writeU64_def u64_ok_def)

lemma bytes32_eq_Inr: "bytes32 v n = Inr b \<longleftrightarrow> length v = 32 \<and> b = v"
  by (auto simp: bytes32_def)

lemma readU64_ok [enc_simps]: "off + 8 \<le> length d \<Longrightarrow> readU64 d off = Inr (le_val (slice d off 8))"
  and readU8_ok [enc_simps]: "off < length d \<Longrightarrow> readU8 d off = Inr (uint (d ! off))"
  and readBytes32_ok [enc_simps]: "off + 32 \<le> length d \<Longrightarrow> readBytes32 d off n = Inr (slice d off 32)"
  and readPublicKey_ok [enc_simps]:
    "off + 32 \<le> length d \<Longrightarrow> readPublicKey W d off = Inr (to_base58 W (slice d off 32))"
  by (simp_all add: readU64_def readU8_def readBytes32_def readPublicKey_def)

lemma concat_loop_eq:
  "length done = off \<Longrightarrow>
   concat_loop (done @ replicate (length (concat parts)) 0) off parts = done @ concat parts"
proof (induction parts arbitrary: "done" off)
  case (Cons part parts)
  have "set_at (done @ replicate (length (concat (part # parts))) 0) part off
        = (done @ part) @ replicate (length (concat parts)) 0"
    using Cons.prems by (simp add: set_at_def)
  with Cons.IH [of "done @ part" "off + length part"] Cons.prems show ?case by simp
qed simp

lemma foldl_length: "foldl (\<lambda>total part. total + length part) n parts = n + length (concat parts)"
  by (induction parts arbitrary: n) simp_all

text \<open>The buffer-filling loop computes plain concatenation.\<close>

lemma concat_bytes_eq [simp]: "concat_bytes parts = concat parts"
  using concat_loop_eq [of "[]" 0 parts] by (simp add: concat_bytes_def foldl_length)

lemma concatR_Cons: "concatR (Inr p # ps) = bindR (concatR ps) (\<lambda>rest. Inr (p @ rest))"
  by (simp add: concatR_def) (cases "mapR (\<lambda>p. p) ps"; simp)

lemma concatR_eq_Inr_Cons:
  "concatR (m # ps) = Inr bs \<longleftrightarrow> (\<exists>p rest. m = Inr p \<and> concatR ps = Inr rest \<and> bs = p @ rest)"
  by (auto simp: concatR_def result_simps)

lemma concatR_Nil [simp]: "concatR [] = Inr []"
  by (simp add: concatR_def)

lemma discriminator_loop_iff:
  assumes "i + k \<le> length data" and "i + k = length disc"
  shows "discriminator_loop data disc i k \<longleftrightarrow> slice data i k = drop i disc"
  using assms
proof (induction k arbitrary: i)
  case (Suc k)
  have "slice data i (Suc k) = data ! i # slice data (Suc i) k"
    using Suc.prems by (simp add: slice_def Cons_nth_drop_Suc [symmetric])
  moreover have "drop i disc = disc ! i # drop (Suc i) disc"
    using Suc.prems by (simp add: Cons_nth_drop_Suc)
  ultimately show ?case using Suc by simp
qed (simp add: slice_def)

lemma assertDiscriminator_iff:
  "assertDiscriminator data disc n = Inr () \<longleftrightarrow>
     length disc \<le> length data \<and> take (length disc) data = disc"
  using discriminator_loop_iff [of 0 "length disc" data disc]
  by (auto simp: assertDiscriminator_def slice_def)

lemma instruction_eq_Inr:
  "instruction W n p ks d = Inr ix \<longleftrightarrow>
     (\<exists>keys data prog. mapR (\<lambda>k. k) ks = Inr keys \<and> d = Inr data \<and> address W p = Inr prog \<and>
        ix = \<lparr>ix_name = n, ix_programId = prog, ix_keys = keys, ix_data = data\<rparr>)"
  by (auto simp: instruction_def result_simps)

lemma meta_eq_Inr:
  "meta W v w s = Inr m \<longleftrightarrow> (\<exists>a. address W v = Inr a \<and>
     m = \<lparr>meta_address = a, isSigner = s, isWritable = w\<rparr>)"
  by (auto simp: meta_def result_simps)

lemma pda_eq_Inr:
  "pda W seeds p = Inr a \<longleftrightarrow> (\<exists>ss k b. mapR (\<lambda>s. s) seeds = Inr ss \<and> publicKey W p = Inr k \<and>
     find_pda W ss k = Inr b \<and> a = to_base58 W b)"
  by (auto simp: pda_def result_simps)

lemma pda_canonical: "web3_ok W \<Longrightarrow> pda W seeds p = Inr a \<Longrightarrow> address W a = Inr a"
  by (auto simp: pda_eq_Inr web3_ok_def address_def publicKey_def)

end
