(* ===== verification/Program.thy ===== *)
theory Program
  imports Encoding
begin

text \<open>
  The on-chain program \<open>programs/chainpay/src\<close>: its accounts (\<open>state.rs\<close>), its policy checks
  (\<open>policy.rs\<close>), and its instruction handlers with their account constraints (\<open>lib.rs\<close>,
  \<open>instructions/*.rs\<close>) as functions on a chain state. Rust \<open>u64\<close> is \<open>64 word\<close> and
  \<open>checked_add\<close> is written out. Address derivation and the SPL token program are outside the
  repository: they are the record \<open>runtime\<close>, an argument \<open>R\<close> of the handlers. The program's state
  machine is \<open>chain_step R\<close>; its invariant (spend and payment count equal the receipts issued and
  stay within the limits, one receipt per address) is proved for every reachable state through
  the locale \<open>invariant\<close>.
\<close>

section \<open>Accounts (state.rs)\<close>

type_synonym u64 = "64 word"
type_synonym pubkey = bytes

definition default_key :: pubkey where
  "default_key = replicate 32 0"

definition is_mandate_nonce :: "pubkey \<Rightarrow> bool" where
  "is_mandate_nonce value = (take (length MANDATE_NONCE_PREFIX) value = MANDATE_NONCE_PREFIX)"

record ProtocolConfig =
  cfg_authority :: pubkey
  cfg_supported_mints :: "pubkey list"
  cfg_bump :: byte

record SupportedAsset =
  sa_authority :: pubkey
  sa_mint :: pubkey
  sa_token_program :: pubkey
  sa_enabled :: bool
  sa_bump :: byte

record PaymentMandate =
  pm_owner :: pubkey
  pm_approved_agent :: pubkey
  pm_source_token_account :: pubkey
  pm_allowed_mint :: pubkey
  pm_legacy_allowed_recipient :: pubkey
  pm_max_per_payment :: u64
  pm_total_limit :: u64
  pm_amount_spent :: u64
  pm_payment_count :: u64
  pm_expires_at_slot :: u64
  pm_max_payment_count :: u64
  pm_cooldown_slots :: u64
  pm_last_payment_slot :: u64
  pm_paused :: bool
  pm_revoked :: bool
  pm_bump :: byte

record PaymentReceipt =
  pr_mandate :: pubkey
  pr_invoice_hash :: bytes
  pr_payment_id :: bytes
  pr_mint :: pubkey
  pr_source_token_account :: pubkey
  pr_recipient_token_account :: pubkey
  pr_amount :: u64
  pr_agent :: pubkey
  pr_executed_at_slot :: u64
  pr_signature_reference :: bytes
  pr_status :: byte
  pr_bump :: byte
  pr_snapshot_version :: byte
  pr_policy_max_per_payment :: u64
  pr_policy_total_limit :: u64
  pr_policy_amount_spent_after :: u64
  pr_policy_payment_count_after :: u64
  pr_policy_max_payment_count :: u64
  pr_policy_expires_at_slot :: u64
  pr_policy_cooldown_slots :: u64
  pr_reserved :: bytes

text \<open>Borsh serialisation of the structs, in field order, after Anchor's account discriminator.\<close>

definition ser_u64 :: "u64 \<Rightarrow> bytes" where
  "ser_u64 v = le_bytes 8 (uint v)"

definition ser_bool :: "bool \<Rightarrow> bytes" where
  "ser_bool b = [if b then 1 else 0]"

definition ser_ProtocolConfig :: "ProtocolConfig \<Rightarrow> bytes" where
  "ser_ProtocolConfig c = ACCT_protocolConfig @ cfg_authority c @ concat (cfg_supported_mints c) @ [cfg_bump c]"

definition ser_SupportedAsset :: "SupportedAsset \<Rightarrow> bytes" where
  "ser_SupportedAsset a = ACCT_supportedAsset @ sa_authority a @ sa_mint a @ sa_token_program a
     @ ser_bool (sa_enabled a) @ [sa_bump a]"

definition ser_PaymentMandate :: "PaymentMandate \<Rightarrow> bytes" where
  "ser_PaymentMandate m = ACCT_paymentMandate @ pm_owner m @ pm_approved_agent m
     @ pm_source_token_account m @ pm_allowed_mint m @ pm_legacy_allowed_recipient m
     @ ser_u64 (pm_max_per_payment m) @ ser_u64 (pm_total_limit m) @ ser_u64 (pm_amount_spent m)
     @ ser_u64 (pm_payment_count m) @ ser_u64 (pm_expires_at_slot m) @ ser_u64 (pm_max_payment_count m)
     @ ser_u64 (pm_cooldown_slots m) @ ser_u64 (pm_last_payment_slot m)
     @ ser_bool (pm_paused m) @ ser_bool (pm_revoked m) @ [pm_bump m]"

definition ser_PaymentReceipt :: "PaymentReceipt \<Rightarrow> bytes" where
  "ser_PaymentReceipt r = ACCT_paymentReceipt @ pr_mandate r @ pr_invoice_hash r @ pr_payment_id r
     @ pr_mint r @ pr_source_token_account r @ pr_recipient_token_account r @ ser_u64 (pr_amount r)
     @ pr_agent r @ ser_u64 (pr_executed_at_slot r) @ pr_signature_reference r
     @ [pr_status r] @ [pr_bump r] @ [pr_snapshot_version r]
     @ ser_u64 (pr_policy_max_per_payment r) @ ser_u64 (pr_policy_total_limit r)
     @ ser_u64 (pr_policy_amount_spent_after r) @ ser_u64 (pr_policy_payment_count_after r)
     @ ser_u64 (pr_policy_max_payment_count r) @ ser_u64 (pr_policy_expires_at_slot r)
     @ ser_u64 (pr_policy_cooldown_slots r) @ pr_reserved r"

section \<open>Instruction arguments\<close>

record MandateParams =
  mp_approved_agent :: pubkey
  mp_source_token_account :: pubkey
  mp_allowed_mint :: pubkey
  mp_max_per_payment :: u64
  mp_total_limit :: u64
  mp_expires_at_slot :: u64
  mp_max_payment_count :: u64
  mp_cooldown_slots :: u64
  mp_mandate_nonce :: pubkey

record MandateUpdate =
  mu_approved_agent :: pubkey
  mu_max_per_payment :: u64
  mu_total_limit :: u64
  mu_expires_at_slot :: u64
  mu_max_payment_count :: u64
  mu_cooldown_slots :: u64
  mu_paused :: bool

record PaymentParams =
  pp_invoice_hash :: bytes
  pp_payment_id :: bytes
  pp_signature_reference :: bytes
  pp_amount :: u64

section \<open>Policy (policy.rs)\<close>

datatype ChainPayError =
    InvalidConfigAuthority | InvalidSupportedMintList | AssetNotEnabled | InvalidAssetAuthority
  | InvalidTokenProgram | InvalidAgent | InvalidMandateNonce | InvalidSourceTokenAccount
  | InvalidSourceMint | InvalidRecipientMint | InvalidRecipient | InvalidMint
  | InvalidPerPaymentLimit | InvalidTotalLimit | InvalidExpiry | MandatePaused | MandateRevoked
  | MandateExpired | InvalidPaymentAmount | AmountExceedsPerPayment | TotalLimitExceeded
  | PaymentCountExceeded | PaymentCooldownActive | InvalidInvoiceHash | InvalidPaymentId
  | InvalidSignatureReference
  | ConstraintSeeds | ConstraintAddress | ConstraintHasOne | AccountNotInitialized
  | AccountAlreadyInUse | TransferFailed

definition checked_add :: "u64 \<Rightarrow> u64 \<Rightarrow> u64 option" where
  "checked_add a b = (if unat a + unat b < 2 ^ 64 then Some (a + b) else None)"

definition zero32 :: bytes where
  "zero32 = replicate 32 0"

fun supported_mints_loop :: "pubkey list \<Rightarrow> pubkey list \<Rightarrow> bool \<Rightarrow> ChainPayError + bool" where
  "supported_mints_loop seen [] has = Inr has"
| "supported_mints_loop seen (m # ms) has =
     (if m = default_key then supported_mints_loop (seen @ [m]) ms has
      else if m \<in> set seen then Inl InvalidSupportedMintList
      else supported_mints_loop (seen @ [m]) ms True)"

definition validate_supported_mints :: "pubkey list \<Rightarrow> ChainPayError + unit" where
  "validate_supported_mints ms =
     bindR (supported_mints_loop [] ms False) (\<lambda>has. require has InvalidSupportedMintList)"

definition validate_mandate_params :: "MandateParams \<Rightarrow> u64 \<Rightarrow> ChainPayError + unit" where
  "validate_mandate_params p current_slot =
     bindR (require (mp_approved_agent p \<noteq> default_key) InvalidAgent) (\<lambda>_.
     bindR (require (mp_mandate_nonce p \<noteq> default_key \<and> is_mandate_nonce (mp_mandate_nonce p)) InvalidMandateNonce) (\<lambda>_.
     bindR (require (mp_source_token_account p \<noteq> default_key) InvalidSourceTokenAccount) (\<lambda>_.
     bindR (require (mp_allowed_mint p \<noteq> default_key) InvalidMint) (\<lambda>_.
     bindR (require (mp_max_per_payment p > 0) InvalidPerPaymentLimit) (\<lambda>_.
     bindR (require (mp_total_limit p \<ge> mp_max_per_payment p) InvalidTotalLimit) (\<lambda>_.
     bindR (require (mp_expires_at_slot p > current_slot) InvalidExpiry) (\<lambda>_.
     require (mp_max_payment_count p = 0 \<or> mp_max_payment_count p \<ge> 1) PaymentCountExceeded)))))))"

definition validate_payment :: "PaymentMandate \<Rightarrow> PaymentParams \<Rightarrow> u64 \<Rightarrow> ChainPayError + unit" where
  "validate_payment m p current_slot =
     bindR (require (\<not> pm_revoked m) MandateRevoked) (\<lambda>_.
     bindR (require (\<not> pm_paused m) MandatePaused) (\<lambda>_.
     bindR (require (pm_expires_at_slot m > current_slot) MandateExpired) (\<lambda>_.
     bindR (require (pp_amount p > 0) InvalidPaymentAmount) (\<lambda>_.
     bindR (require (pp_amount p \<le> pm_max_per_payment m) AmountExceedsPerPayment) (\<lambda>_.
     bindR (require (pp_invoice_hash p \<noteq> zero32) InvalidInvoiceHash) (\<lambda>_.
     bindR (require (pp_payment_id p \<noteq> zero32) InvalidPaymentId) (\<lambda>_.
     bindR (require (pp_signature_reference p \<noteq> zero32) InvalidSignatureReference) (\<lambda>_.
     bindR (fetch (checked_add (pm_amount_spent m) (pp_amount p)) TotalLimitExceeded) (\<lambda>new_amount_spent.
     bindR (require (new_amount_spent \<le> pm_total_limit m) TotalLimitExceeded) (\<lambda>_.
     bindR (fetch (checked_add (pm_payment_count m) 1) PaymentCountExceeded) (\<lambda>new_payment_count.
     bindR (require (pm_max_payment_count m = 0 \<or> new_payment_count \<le> pm_max_payment_count m)
              PaymentCountExceeded) (\<lambda>_.
     if pm_last_payment_slot m > 0
     then bindR (fetch (checked_add (pm_last_payment_slot m) (pm_cooldown_slots m)) PaymentCooldownActive)
            (\<lambda>next_allowed_slot. require (current_slot \<ge> next_allowed_slot) PaymentCooldownActive)
     else Inr ()))))))))))))"

section \<open>The chain state and what the program calls\<close>

record TokenAccount =
  tk_program :: pubkey
  tk_mint :: pubkey
  tk_owner :: pubkey
  tk_amount :: u64
  tk_delegate :: "pubkey option"
  tk_delegated_amount :: u64

record MintAccount =
  mint_program :: pubkey
  mint_decimals :: byte

type_synonym token_accounts = "pubkey \<rightharpoonup> TokenAccount"

record chain =
  ch_config :: "(pubkey \<times> ProtocolConfig) option"
  ch_assets :: "pubkey \<rightharpoonup> SupportedAsset"
  ch_mandates :: "pubkey \<rightharpoonup> PaymentMandate"
  ch_receipts :: "(pubkey \<times> PaymentReceipt) list"
  ch_tokens :: token_accounts
  ch_mints :: "pubkey \<rightharpoonup> MintAccount"

record runtime =
  rt_find :: "bytes list \<Rightarrow> pubkey \<times> byte"
  rt_create :: "bytes list \<Rightarrow> byte \<Rightarrow> pubkey option"
  rt_transfer_checked :: "token_accounts \<Rightarrow> pubkey \<Rightarrow> pubkey \<Rightarrow> pubkey \<Rightarrow> pubkey \<Rightarrow> u64 \<Rightarrow> byte \<Rightarrow> token_accounts option"

definition empty_chain :: chain where
  "empty_chain = \<lparr>ch_config = None, ch_assets = Map.empty, ch_mandates = Map.empty, ch_receipts = [],
     ch_tokens = Map.empty, ch_mints = Map.empty\<rparr>"

definition receipt_seeds :: "pubkey \<Rightarrow> bytes \<Rightarrow> bytes list" where
  "receipt_seeds mandate invoice_hash = [str_bytes ''receipt'', mandate, invoice_hash]"

section \<open>Handlers (lib.rs) with their account constraints (instructions/*.rs)\<close>

definition initialize_config :: "runtime \<Rightarrow> pubkey \<Rightarrow> pubkey \<Rightarrow> pubkey list \<Rightarrow> chain \<Rightarrow> ChainPayError + chain" where
  "initialize_config R config authority supported_mints c =
     (let (addr, bump) = rt_find R [str_bytes ''config''] in
      bindR (require (config = addr) ConstraintSeeds) (\<lambda>_.
      bindR (require (ch_config c = None) AccountAlreadyInUse) (\<lambda>_.
      bindR (validate_supported_mints supported_mints) (\<lambda>_.
      Inr (c\<lparr>ch_config := Some (addr, \<lparr>cfg_authority = authority,
             cfg_supported_mints = supported_mints, cfg_bump = bump\<rparr>)\<rparr>)))))"

text \<open>\<open>seeds = [b"config"], bump = config.bump\<close> on the typed config account.\<close>

definition config_account :: "runtime \<Rightarrow> pubkey \<Rightarrow> chain \<Rightarrow> ChainPayError + ProtocolConfig" where
  "config_account R config c =
     bindR (fetch (ch_config c) AccountNotInitialized) (\<lambda>(addr, cfg).
     bindR (require (config = addr) AccountNotInitialized) (\<lambda>_.
     bindR (require (rt_create R [str_bytes ''config''] (cfg_bump cfg) = Some config) ConstraintSeeds) (\<lambda>_.
     Inr cfg)))"

definition update_config :: "runtime \<Rightarrow> pubkey \<Rightarrow> pubkey \<Rightarrow> pubkey list \<Rightarrow> chain \<Rightarrow> ChainPayError + chain" where
  "update_config R config authority supported_mints c =
     bindR (config_account R config c) (\<lambda>cfg.
     bindR (require (cfg_authority cfg = authority) InvalidConfigAuthority) (\<lambda>_.
     bindR (validate_supported_mints supported_mints) (\<lambda>_.
     Inr (c\<lparr>ch_config := Some (config, cfg\<lparr>cfg_supported_mints := supported_mints\<rparr>)\<rparr>))))"

definition register_asset ::
  "runtime \<Rightarrow> pubkey \<Rightarrow> pubkey \<Rightarrow> pubkey \<Rightarrow> pubkey \<Rightarrow> pubkey \<Rightarrow> pubkey \<Rightarrow> chain \<Rightarrow> ChainPayError + chain" where
  "register_asset R config asset authority mint_account token_program mint c =
     bindR (config_account R config c) (\<lambda>cfg.
     bindR (require (cfg_authority cfg = authority) InvalidConfigAuthority) (\<lambda>_.
     let (addr, bump) = rt_find R [str_bytes ''asset'', mint] in
     bindR (require (asset = addr) ConstraintSeeds) (\<lambda>_.
     bindR (require (ch_assets c asset = None) AccountAlreadyInUse) (\<lambda>_.
     bindR (require (mint_account = mint) InvalidMint) (\<lambda>_.
     bindR (fetch (ch_mints c mint_account) AccountNotInitialized) (\<lambda>mi.
     bindR (require (mint_program mi = token_program) InvalidTokenProgram) (\<lambda>_.
     Inr (c\<lparr>ch_assets := (ch_assets c)(asset \<mapsto> \<lparr>sa_authority = authority, sa_mint = mint,
            sa_token_program = token_program, sa_enabled = True, sa_bump = bump\<rparr>)\<rparr>))))))))"

definition set_asset_status ::
  "runtime \<Rightarrow> pubkey \<Rightarrow> pubkey \<Rightarrow> pubkey \<Rightarrow> bool \<Rightarrow> chain \<Rightarrow> ChainPayError + chain" where
  "set_asset_status R config asset authority enabled c =
     bindR (config_account R config c) (\<lambda>cfg.
     bindR (require (cfg_authority cfg = authority) InvalidConfigAuthority) (\<lambda>_.
     bindR (fetch (ch_assets c asset) AccountNotInitialized) (\<lambda>a.
     bindR (require (rt_create R [str_bytes ''asset'', sa_mint a] (sa_bump a) = Some asset) ConstraintSeeds) (\<lambda>_.
     bindR (require (sa_authority a = authority) InvalidAssetAuthority) (\<lambda>_.
     Inr (c\<lparr>ch_assets := (ch_assets c)(asset \<mapsto> a\<lparr>sa_enabled := enabled\<rparr>)\<rparr>))))))"

text \<open>The asset-registry constraints shared by \<open>CreateMandate\<close> and \<open>ExecutePayment\<close>.\<close>

definition asset_registry ::
  "runtime \<Rightarrow> pubkey \<Rightarrow> pubkey \<Rightarrow> pubkey \<Rightarrow> chain \<Rightarrow> ChainPayError + unit" where
  "asset_registry R asset mint token_program c =
     bindR (fetch (ch_assets c asset) AccountNotInitialized) (\<lambda>a.
     bindR (require (rt_create R [str_bytes ''asset'', mint] (sa_bump a) = Some asset) ConstraintSeeds) (\<lambda>_.
     bindR (require (sa_enabled a) AssetNotEnabled) (\<lambda>_.
     bindR (require (sa_mint a = mint) InvalidMint) (\<lambda>_.
     require (sa_token_program a = token_program) InvalidTokenProgram))))"

record CreateMandateAccounts =
  cm_config :: pubkey
  cm_asset_registry :: pubkey
  cm_mandate :: pubkey
  cm_owner :: pubkey
  cm_allowed_mint :: pubkey
  cm_source_token_account :: pubkey
  cm_token_program :: pubkey

definition create_mandate ::
  "runtime \<Rightarrow> u64 \<Rightarrow> CreateMandateAccounts \<Rightarrow> MandateParams \<Rightarrow> chain \<Rightarrow> ChainPayError + chain" where
  "create_mandate R current_slot ctx p c =
     bindR (config_account R (cm_config ctx) c) (\<lambda>_.
     bindR (asset_registry R (cm_asset_registry ctx) (mp_allowed_mint p) (cm_token_program ctx) c) (\<lambda>_.
     let (addr, bump) = rt_find R [str_bytes ''mandate'', cm_owner ctx, mp_allowed_mint p, mp_mandate_nonce p] in
     bindR (require (cm_mandate ctx = addr) ConstraintSeeds) (\<lambda>_.
     bindR (require (ch_mandates c (cm_mandate ctx) = None) AccountAlreadyInUse) (\<lambda>_.
     bindR (fetch (ch_mints c (cm_allowed_mint ctx)) AccountNotInitialized) (\<lambda>mi.
     bindR (require (cm_allowed_mint ctx = mp_allowed_mint p) InvalidMint) (\<lambda>_.
     bindR (require (mint_program mi = cm_token_program ctx) InvalidTokenProgram) (\<lambda>_.
     bindR (fetch (ch_tokens c (cm_source_token_account ctx)) AccountNotInitialized) (\<lambda>src.
     bindR (require (cm_source_token_account ctx = mp_source_token_account p) InvalidSourceTokenAccount) (\<lambda>_.
     bindR (require (tk_owner src = cm_owner ctx) InvalidSourceTokenAccount) (\<lambda>_.
     bindR (require (tk_mint src = mp_allowed_mint p) InvalidSourceMint) (\<lambda>_.
     bindR (require (tk_program src = cm_token_program ctx) InvalidTokenProgram) (\<lambda>_.
     bindR (validate_mandate_params p current_slot) (\<lambda>_.
     Inr (c\<lparr>ch_mandates := (ch_mandates c)(cm_mandate ctx \<mapsto>
       \<lparr>pm_owner = cm_owner ctx, pm_approved_agent = mp_approved_agent p,
        pm_source_token_account = mp_source_token_account p, pm_allowed_mint = mp_allowed_mint p,
        pm_legacy_allowed_recipient = mp_mandate_nonce p,
        pm_max_per_payment = mp_max_per_payment p, pm_total_limit = mp_total_limit p,
        pm_amount_spent = 0, pm_payment_count = 0, pm_expires_at_slot = mp_expires_at_slot p,
        pm_max_payment_count = mp_max_payment_count p, pm_cooldown_slots = mp_cooldown_slots p,
        pm_last_payment_slot = 0, pm_paused = False, pm_revoked = False, pm_bump = bump\<rparr>)\<rparr>))))))))))))))"

text \<open>\<open>#[account(mut, has_one = owner)]\<close>, and the update written back.\<close>

definition with_owned_mandate ::
  "pubkey \<Rightarrow> pubkey \<Rightarrow> (PaymentMandate \<Rightarrow> ChainPayError + PaymentMandate) \<Rightarrow> chain \<Rightarrow> ChainPayError + chain" where
  "with_owned_mandate mandate owner f c =
     bindR (fetch (ch_mandates c mandate) AccountNotInitialized) (\<lambda>m.
     bindR (require (pm_owner m = owner) ConstraintHasOne) (\<lambda>_.
     bindR (f m) (\<lambda>m'. Inr (c\<lparr>ch_mandates := (ch_mandates c)(mandate \<mapsto> m')\<rparr>))))"

definition update_mandate_body :: "u64 \<Rightarrow> MandateUpdate \<Rightarrow> PaymentMandate \<Rightarrow> ChainPayError + PaymentMandate" where
  "update_mandate_body current_slot p m =
     bindR (require (\<not> pm_revoked m) MandateRevoked) (\<lambda>_.
     bindR (require (mu_approved_agent p \<noteq> default_key) InvalidAgent) (\<lambda>_.
     bindR (require (mu_max_per_payment p > 0) InvalidPerPaymentLimit) (\<lambda>_.
     bindR (require (mu_total_limit p \<ge> mu_max_per_payment p \<and> mu_total_limit p \<ge> pm_amount_spent m)
              InvalidTotalLimit) (\<lambda>_.
     bindR (require (mu_expires_at_slot p > current_slot) InvalidExpiry) (\<lambda>_.
     bindR (require (mu_max_payment_count p = 0 \<or> mu_max_payment_count p \<ge> pm_payment_count m)
              PaymentCountExceeded) (\<lambda>_.
     Inr (m\<lparr>pm_approved_agent := mu_approved_agent p, pm_max_per_payment := mu_max_per_payment p,
            pm_total_limit := mu_total_limit p, pm_expires_at_slot := mu_expires_at_slot p,
            pm_max_payment_count := mu_max_payment_count p, pm_cooldown_slots := mu_cooldown_slots p,
            pm_paused := mu_paused p\<rparr>)))))))"

definition update_mandate :: "u64 \<Rightarrow> pubkey \<Rightarrow> pubkey \<Rightarrow> MandateUpdate \<Rightarrow> chain \<Rightarrow> ChainPayError + chain" where
  "update_mandate current_slot mandate owner p = with_owned_mandate mandate owner (update_mandate_body current_slot p)"

definition pause_mandate :: "pubkey \<Rightarrow> pubkey \<Rightarrow> chain \<Rightarrow> ChainPayError + chain" where
  "pause_mandate mandate owner = with_owned_mandate mandate owner
     (\<lambda>m. bindR (require (\<not> pm_revoked m) MandateRevoked) (\<lambda>_. Inr (m\<lparr>pm_paused := True\<rparr>)))"

definition revoke_mandate :: "pubkey \<Rightarrow> pubkey \<Rightarrow> chain \<Rightarrow> ChainPayError + chain" where
  "revoke_mandate mandate owner = with_owned_mandate mandate owner
     (\<lambda>m. Inr (m\<lparr>pm_paused := True, pm_revoked := True\<rparr>))"


record ExecutePaymentAccounts =
  ex_config :: pubkey
  ex_asset_registry :: pubkey
  ex_mandate :: pubkey
  ex_receipt :: pubkey
  ex_agent :: pubkey
  ex_allowed_mint :: pubkey
  ex_source_token_account :: pubkey
  ex_recipient_token_account :: pubkey
  ex_token_program :: pubkey

text \<open>
  \<open>#[derive(Accounts)] ExecutePayment\<close>: every constraint, in the order of the struct. The check of the account type
  \<open>Interface<TokenInterface>\<close>, that the token program is one of the two known ones, is left out: the model accepts any
  program that owns the registered mint and both token accounts. On success
  it yields the mandate, the receipt bump of the new account, and the mint's decimals.
\<close>

definition source_constraints ::
  "ExecutePaymentAccounts \<Rightarrow> PaymentMandate \<Rightarrow> PaymentParams \<Rightarrow> TokenAccount \<Rightarrow> ChainPayError + unit" where
  "source_constraints ctx m p src =
     bindR (require (ex_source_token_account ctx = pm_source_token_account m) ConstraintAddress) (\<lambda>_.
     bindR (require (tk_owner src = pm_owner m) InvalidSourceTokenAccount) (\<lambda>_.
     bindR (require (tk_mint src = pm_allowed_mint m) InvalidSourceMint) (\<lambda>_.
     bindR (require (tk_delegate src = Some (ex_mandate ctx)) InvalidSourceTokenAccount) (\<lambda>_.
     bindR (require (tk_delegated_amount src \<ge> pp_amount p) InvalidSourceTokenAccount) (\<lambda>_.
     require (tk_program src = ex_token_program ctx) InvalidTokenProgram)))))"

definition recipient_constraints ::
  "ExecutePaymentAccounts \<Rightarrow> PaymentMandate \<Rightarrow> TokenAccount \<Rightarrow> ChainPayError + unit" where
  "recipient_constraints ctx m rcp =
     bindR (require (is_mandate_nonce (pm_legacy_allowed_recipient m)
           \<or> pm_legacy_allowed_recipient m = default_key
           \<or> ex_recipient_token_account ctx = pm_legacy_allowed_recipient m) InvalidRecipient) (\<lambda>_.
     bindR (require (tk_mint rcp = pm_allowed_mint m) InvalidRecipientMint) (\<lambda>_.
     require (tk_program rcp = ex_token_program ctx) InvalidTokenProgram))"

definition execute_payment_accounts ::
  "runtime \<Rightarrow> ExecutePaymentAccounts \<Rightarrow> PaymentParams \<Rightarrow> chain \<Rightarrow> ChainPayError + PaymentMandate \<times> byte \<times> byte" where
  "execute_payment_accounts R ctx p c =
     bindR (config_account R (ex_config ctx) c) (\<lambda>_.
     bindR (fetch (ch_mandates c (ex_mandate ctx)) AccountNotInitialized) (\<lambda>m.
     bindR (asset_registry R (ex_asset_registry ctx) (pm_allowed_mint m) (ex_token_program ctx) c) (\<lambda>_.
     let (addr, bump) = rt_find R (receipt_seeds (ex_mandate ctx) (pp_invoice_hash p)) in
     bindR (require (ex_receipt ctx = addr) ConstraintSeeds) (\<lambda>_.
     bindR (require (map_of (ch_receipts c) (ex_receipt ctx) = None) AccountAlreadyInUse) (\<lambda>_.
     bindR (require (ex_agent ctx = pm_approved_agent m) ConstraintAddress) (\<lambda>_.
     bindR (fetch (ch_mints c (ex_allowed_mint ctx)) AccountNotInitialized) (\<lambda>mi.
     bindR (require (ex_allowed_mint ctx = pm_allowed_mint m) InvalidMint) (\<lambda>_.
     bindR (require (mint_program mi = ex_token_program ctx) InvalidTokenProgram) (\<lambda>_.
     bindR (fetch (ch_tokens c (ex_source_token_account ctx)) AccountNotInitialized) (\<lambda>src.
     bindR (source_constraints ctx m p src) (\<lambda>_.
     bindR (fetch (ch_tokens c (ex_recipient_token_account ctx)) AccountNotInitialized) (\<lambda>rcp.
     bindR (recipient_constraints ctx m rcp) (\<lambda>_.
     Inr (m, bump, mint_decimals mi))))))))))))))"

text \<open>The signer seeds the handler picks, and whether the runtime accepts them for the mandate.\<close>

definition signer_seeds :: "runtime \<Rightarrow> pubkey \<Rightarrow> PaymentMandate \<Rightarrow> bytes list" where
  "signer_seeds R mandate_key m =
     (let legacy = [str_bytes ''mandate'', pm_owner m];
          mint_scoped = [str_bytes ''mandate'', pm_owner m, pm_allowed_mint m];
          nonce_scoped = [str_bytes ''mandate'', pm_owner m, pm_allowed_mint m, pm_legacy_allowed_recipient m]
      in if is_mandate_nonce (pm_legacy_allowed_recipient m)
            \<and> rt_create R nonce_scoped (pm_bump m) = Some mandate_key then nonce_scoped
         else if rt_create R mint_scoped (pm_bump m) = Some mandate_key then mint_scoped
         else legacy)"

definition snapshot_receipt ::
  "ExecutePaymentAccounts \<Rightarrow> PaymentParams \<Rightarrow> u64 \<Rightarrow> byte \<Rightarrow> PaymentMandate \<Rightarrow> PaymentReceipt" where
  "snapshot_receipt ctx p current_slot bump m =
     \<lparr>pr_mandate = ex_mandate ctx, pr_invoice_hash = pp_invoice_hash p, pr_payment_id = pp_payment_id p,
      pr_mint = pm_allowed_mint m, pr_source_token_account = pm_source_token_account m,
      pr_recipient_token_account = ex_recipient_token_account ctx, pr_amount = pp_amount p,
      pr_agent = ex_agent ctx, pr_executed_at_slot = current_slot,
      pr_signature_reference = pp_signature_reference p, pr_status = 1, pr_bump = bump,
      pr_snapshot_version = 1, pr_policy_max_per_payment = pm_max_per_payment m,
      pr_policy_total_limit = pm_total_limit m, pr_policy_amount_spent_after = pm_amount_spent m,
      pr_policy_payment_count_after = pm_payment_count m,
      pr_policy_max_payment_count = pm_max_payment_count m,
      pr_policy_expires_at_slot = pm_expires_at_slot m, pr_policy_cooldown_slots = pm_cooldown_slots m,
      pr_reserved = replicate 32 0\<rparr>"

definition charge :: "u64 \<Rightarrow> u64 \<Rightarrow> u64 \<Rightarrow> PaymentMandate \<Rightarrow> PaymentMandate" where
  "charge new_amount_spent new_payment_count current_slot m =
     m\<lparr>pm_amount_spent := new_amount_spent, pm_payment_count := new_payment_count,
       pm_last_payment_slot := current_slot\<rparr>"

definition execute_payment ::
  "runtime \<Rightarrow> u64 \<Rightarrow> ExecutePaymentAccounts \<Rightarrow> PaymentParams \<Rightarrow> chain \<Rightarrow> ChainPayError + chain" where
  "execute_payment R current_slot ctx p c =
     bindR (execute_payment_accounts R ctx p c) (\<lambda>(m, bump, decimals).
     bindR (validate_payment m p current_slot) (\<lambda>_.
     bindR (fetch (checked_add (pm_amount_spent m) (pp_amount p)) TotalLimitExceeded) (\<lambda>new_amount_spent.
     bindR (fetch (checked_add (pm_payment_count m) 1) PaymentCountExceeded) (\<lambda>new_payment_count.
     bindR (require (rt_create R (signer_seeds R (ex_mandate ctx) m) (pm_bump m) = Some (ex_mandate ctx))
              TransferFailed) (\<lambda>_.
     bindR (fetch (rt_transfer_checked R (ch_tokens c) (ex_source_token_account ctx) (ex_allowed_mint ctx)
              (ex_recipient_token_account ctx) (ex_mandate ctx) (pp_amount p) decimals) TransferFailed) (\<lambda>tokens.
     let m' = charge new_amount_spent new_payment_count current_slot m in
     Inr (c\<lparr>ch_mandates := (ch_mandates c)(ex_mandate ctx \<mapsto> m'),
            ch_receipts := ch_receipts c @ [(ex_receipt ctx, snapshot_receipt ctx p current_slot bump m')],
            ch_tokens := tokens\<rparr>)))))))"

section \<open>The state machine\<close>

text \<open>
  One step is one successful instruction, or any change of the token and mint accounts, which
  other programs own.
\<close>

inductive chain_step :: "runtime \<Rightarrow> chain \<Rightarrow> chain \<Rightarrow> bool" for R where
  step_initialize: "initialize_config R config authority mints c = Inr c' \<Longrightarrow> chain_step R c c'"
| step_update_config: "update_config R config authority mints c = Inr c' \<Longrightarrow> chain_step R c c'"
| step_register: "register_asset R config asset authority mint_account program mint c = Inr c' \<Longrightarrow> chain_step R c c'"
| step_asset_status: "set_asset_status R config asset authority enabled c = Inr c' \<Longrightarrow> chain_step R c c'"
| step_create: "create_mandate R slot ctx p c = Inr c' \<Longrightarrow> chain_step R c c'"
| step_update: "update_mandate slot mandate owner u c = Inr c' \<Longrightarrow> chain_step R c c'"
| step_pause: "pause_mandate mandate owner c = Inr c' \<Longrightarrow> chain_step R c c'"
| step_revoke: "revoke_mandate mandate owner c = Inr c' \<Longrightarrow> chain_step R c c'"
| step_execute: "execute_payment R slot ectx pp c = Inr c' \<Longrightarrow> chain_step R c c'"
| step_tokens: "chain_step R c (c\<lparr>ch_tokens := T, ch_mints := M\<rparr>)"

definition chain_reachable :: "runtime \<Rightarrow> chain \<Rightarrow> bool" where
  "chain_reachable R = reach empty_chain (chain_step R)"

section \<open>The invariant\<close>

definition receipts_of :: "pubkey \<Rightarrow> chain \<Rightarrow> PaymentReceipt list" where
  "receipts_of k c = filter (\<lambda>r. pr_mandate r = k) (map snd (ch_receipts c))"

definition spent_of :: "pubkey \<Rightarrow> chain \<Rightarrow> nat" where
  "spent_of k c = sum_list (map (\<lambda>r. unat (pr_amount r)) (receipts_of k c))"

text \<open>What one mandate account says, against the receipts issued under it.\<close>

definition mandate_inv :: "pubkey \<Rightarrow> PaymentMandate \<Rightarrow> chain \<Rightarrow> bool" where
  "mandate_inv k m c \<longleftrightarrow>
     unat (pm_amount_spent m) = spent_of k c \<and>
     unat (pm_payment_count m) = length (receipts_of k c) \<and>
     pm_amount_spent m \<le> pm_total_limit m \<and>
     (pm_max_payment_count m = 0 \<or> pm_payment_count m \<le> pm_max_payment_count m) \<and>
     0 < pm_max_per_payment m \<and> pm_max_per_payment m \<le> pm_total_limit m"

definition receipt_inv :: "runtime \<Rightarrow> pubkey \<Rightarrow> PaymentReceipt \<Rightarrow> bool" where
  "receipt_inv R addr r \<longleftrightarrow>
     addr = fst (rt_find R (receipt_seeds (pr_mandate r) (pr_invoice_hash r))) \<and>
     pr_status r = 1 \<and> 0 < pr_amount r \<and> pr_amount r \<le> pr_policy_max_per_payment r \<and>
     pr_policy_amount_spent_after r \<le> pr_policy_total_limit r \<and>
     (pr_policy_max_payment_count r = 0 \<or> pr_policy_payment_count_after r \<le> pr_policy_max_payment_count r) \<and>
     pr_executed_at_slot r < pr_policy_expires_at_slot r"

definition chain_inv :: "runtime \<Rightarrow> chain \<Rightarrow> bool" where
  "chain_inv R c \<longleftrightarrow>
     (\<forall>k m. ch_mandates c k = Some m \<longrightarrow> mandate_inv k m c) \<and>
     (\<forall>(addr, r) \<in> set (ch_receipts c). receipt_inv R addr r \<and> ch_mandates c (pr_mandate r) \<noteq> None) \<and>
     distinct (map fst (ch_receipts c))"


section \<open>Lemmas\<close>

lemma checked_add_Some: "checked_add a b = Some c \<longleftrightarrow> unat a + unat b < 2 ^ 64 \<and> c = a + b"
  by (auto simp: checked_add_def)

lemma unat_add_no_overflow: "unat a + unat b < 2 ^ 64 \<Longrightarrow> unat (a + b :: u64) = unat a + unat b"
  by (simp add: unat_word_ariths)

lemma unat_u64_less: "unat (a :: u64) < 2 ^ 64"
  using unsigned_less [of a, where ?'a = nat] by simp

text \<open>The payment policy as one arithmetic condition on naturals.\<close>

definition payment_allowed :: "PaymentMandate \<Rightarrow> PaymentParams \<Rightarrow> u64 \<Rightarrow> bool" where
  "payment_allowed m p slot \<longleftrightarrow>
     \<not> pm_revoked m \<and> \<not> pm_paused m \<and> unat slot < unat (pm_expires_at_slot m) \<and>
     0 < unat (pp_amount p) \<and> unat (pp_amount p) \<le> unat (pm_max_per_payment m) \<and>
     pp_invoice_hash p \<noteq> zero32 \<and> pp_payment_id p \<noteq> zero32 \<and> pp_signature_reference p \<noteq> zero32 \<and>
     unat (pm_amount_spent m) + unat (pp_amount p) \<le> unat (pm_total_limit m) \<and>
     unat (pm_payment_count m) + 1 < 2 ^ 64 \<and>
     (pm_max_payment_count m = 0 \<or> unat (pm_payment_count m) + 1 \<le> unat (pm_max_payment_count m)) \<and>
     (pm_last_payment_slot m = 0 \<or>
      unat (pm_last_payment_slot m) + unat (pm_cooldown_slots m) \<le> unat slot)"

lemma validate_payment_iff: "validate_payment m p slot = Inr () \<longleftrightarrow> payment_allowed m p slot"
proof -
  have spent: "(\<exists>x. checked_add (pm_amount_spent m) (pp_amount p) = Some x \<and> x \<le> pm_total_limit m) \<longleftrightarrow>
      unat (pm_amount_spent m) + unat (pp_amount p) \<le> unat (pm_total_limit m)"
    using unat_u64_less [of "pm_total_limit m"]
    by (auto simp: checked_add_Some word_le_nat_alt unat_add_no_overflow)
  have count: "(\<exists>x. checked_add (pm_payment_count m) 1 = Some x \<and>
        (pm_max_payment_count m = 0 \<or> x \<le> pm_max_payment_count m)) \<longleftrightarrow>
      unat (pm_payment_count m) + 1 < 2 ^ 64 \<and>
      (pm_max_payment_count m = 0 \<or> unat (pm_payment_count m) + 1 \<le> unat (pm_max_payment_count m))"
    using unat_add_no_overflow [of "pm_payment_count m" 1]
    by (auto simp: checked_add_Some word_le_nat_alt)
  have cool: "(\<exists>x. checked_add (pm_last_payment_slot m) (pm_cooldown_slots m) = Some x \<and> x \<le> slot) \<longleftrightarrow>
      unat (pm_last_payment_slot m) + unat (pm_cooldown_slots m) \<le> unat slot"
    using unat_u64_less [of slot]
    by (auto simp: checked_add_Some word_le_nat_alt unat_add_no_overflow)
  have last: "pm_last_payment_slot m > 0 \<longleftrightarrow> pm_last_payment_slot m \<noteq> 0"
    by (simp add: word_gt_0)
  show ?thesis
    using spent count cool
    unfolding validate_payment_def payment_allowed_def last
    by (auto simp: result_simps word_less_nat_alt word_le_nat_alt)
qed

lemma receipts_of_simps [simp]:
  "receipts_of k (c\<lparr>ch_config := g\<rparr>) = receipts_of k c"
  "receipts_of k (c\<lparr>ch_assets := a\<rparr>) = receipts_of k c"
  "receipts_of k (c\<lparr>ch_mandates := M\<rparr>) = receipts_of k c"
  "receipts_of k (c\<lparr>ch_tokens := T\<rparr>) = receipts_of k c"
  "receipts_of k (c\<lparr>ch_mints := X\<rparr>) = receipts_of k c"
  "receipts_of k (c\<lparr>ch_receipts := ch_receipts c @ [(adr, r)]\<rparr>) =
     (if pr_mandate r = k then receipts_of k c @ [r] else receipts_of k c)"
  by (simp_all add: receipts_of_def)

lemma spent_of_simps [simp]:
  "spent_of k (c\<lparr>ch_config := g\<rparr>) = spent_of k c"
  "spent_of k (c\<lparr>ch_assets := a\<rparr>) = spent_of k c"
  "spent_of k (c\<lparr>ch_mandates := M\<rparr>) = spent_of k c"
  "spent_of k (c\<lparr>ch_tokens := T\<rparr>) = spent_of k c"
  "spent_of k (c\<lparr>ch_mints := X\<rparr>) = spent_of k c"
  "spent_of k (c\<lparr>ch_receipts := ch_receipts c @ [(adr, r)]\<rparr>) =
     (if pr_mandate r = k then spent_of k c + unat (pr_amount r) else spent_of k c)"
  by (simp_all add: spent_of_def)

lemma mandate_inv_frame [simp]:
  "mandate_inv k m (c\<lparr>ch_config := g\<rparr>) = mandate_inv k m c"
  "mandate_inv k m (c\<lparr>ch_assets := a\<rparr>) = mandate_inv k m c"
  "mandate_inv k m (c\<lparr>ch_mandates := M\<rparr>) = mandate_inv k m c"
  "mandate_inv k m (c\<lparr>ch_tokens := T\<rparr>) = mandate_inv k m c"
  "mandate_inv k m (c\<lparr>ch_mints := X\<rparr>) = mandate_inv k m c"
  by (simp_all add: mandate_inv_def)

lemma chain_inv_set_mandate:
  assumes "chain_inv R c" and "mandate_inv k m c"
  shows "chain_inv R (c\<lparr>ch_mandates := (ch_mandates c)(k \<mapsto> m)\<rparr>)"
  using assms by (auto simp: chain_inv_def)

lemma no_receipts_without_mandate:
  assumes "chain_inv R c" and "ch_mandates c k = None"
  shows "receipts_of k c = []"
  using assms by (force simp: chain_inv_def receipts_of_def filter_empty_conv)

lemma with_owned_mandate_inv:
  assumes inv: "chain_inv R c" and eq: "with_owned_mandate k owner f c = Inr c'"
    and keep: "\<And>m m'. mandate_inv k m c \<Longrightarrow> f m = Inr m' \<Longrightarrow> mandate_inv k m' c"
  shows "chain_inv R c'"
proof -
  from eq obtain m m' where "ch_mandates c k = Some m" "f m = Inr m'"
    and c': "c' = c\<lparr>ch_mandates := (ch_mandates c)(k \<mapsto> m')\<rparr>"
    by (auto simp: with_owned_mandate_def result_simps)
  with inv keep have "mandate_inv k m' c" by (auto simp: chain_inv_def)
  with inv c' show ?thesis by (simp add: chain_inv_set_mandate)
qed

lemma update_mandate_inv:
  assumes "chain_inv R c" and "update_mandate slot k owner p c = Inr c'"
  shows "chain_inv R c'"
  by (rule with_owned_mandate_inv [OF assms(1) assms(2) [unfolded update_mandate_def]])
     (auto simp: update_mandate_body_def mandate_inv_def result_simps)

lemma pause_mandate_inv:
  assumes "chain_inv R c" and "pause_mandate k owner c = Inr c'"
  shows "chain_inv R c'"
  by (rule with_owned_mandate_inv [OF assms(1) assms(2) [unfolded pause_mandate_def]])
     (auto simp: mandate_inv_def result_simps)

lemma revoke_mandate_inv:
  assumes "chain_inv R c" and "revoke_mandate k owner c = Inr c'"
  shows "chain_inv R c'"
  by (rule with_owned_mandate_inv [OF assms(1) assms(2) [unfolded revoke_mandate_def]])
     (auto simp: mandate_inv_def)

lemma create_mandate_inv:
  assumes inv: "chain_inv R c" and eq: "create_mandate R slot ctx p c = Inr c'"
  shows "chain_inv R c'"
proof -
  let ?k = "cm_mandate ctx"
  from eq obtain m where none: "ch_mandates c ?k = None"
    and c': "c' = c\<lparr>ch_mandates := (ch_mandates c)(?k \<mapsto> m)\<rparr>"
    and m: "pm_amount_spent m = 0" "pm_payment_count m = 0"
      "0 < pm_max_per_payment m" "pm_max_per_payment m \<le> pm_total_limit m"
    by (auto simp: create_mandate_def validate_mandate_params_def result_simps split: prod.splits)
  from no_receipts_without_mandate [OF inv none] have "mandate_inv ?k m c"
    using m by (simp add: mandate_inv_def spent_of_def)
  with inv c' show ?thesis by (simp add: chain_inv_set_mandate)
qed

text \<open>What a successful payment did, in terms of the policy condition.\<close>

lemma execute_payment_success:
  assumes "execute_payment R slot ctx p c = Inr c'"
  obtains m bump tokens where
    "ch_mandates c (ex_mandate ctx) = Some m"
    "payment_allowed m p slot"
    "ex_agent ctx = pm_approved_agent m" "ex_allowed_mint ctx = pm_allowed_mint m"
    "ex_receipt ctx = fst (rt_find R (receipt_seeds (ex_mandate ctx) (pp_invoice_hash p)))"
    "ex_receipt ctx \<notin> fst ` set (ch_receipts c)"
    "c' = c\<lparr>ch_mandates := (ch_mandates c)(ex_mandate ctx \<mapsto>
              charge (pm_amount_spent m + pp_amount p) (pm_payment_count m + 1) slot m),
            ch_receipts := ch_receipts c @ [(ex_receipt ctx, snapshot_receipt ctx p slot bump
              (charge (pm_amount_spent m + pp_amount p) (pm_payment_count m + 1) slot m))],
            ch_tokens := tokens\<rparr>"
proof -
  obtain addr bump where find: "rt_find R (receipt_seeds (ex_mandate ctx) (pp_invoice_hash p)) = (addr, bump)"
    by fastforce
  from assms obtain m decimals tokens where
    acc: "execute_payment_accounts R ctx p c = Inr (m, bump, decimals)"
    and ok: "payment_allowed m p slot"
    and c': "c' = c\<lparr>ch_mandates := (ch_mandates c)(ex_mandate ctx \<mapsto>
              charge (pm_amount_spent m + pp_amount p) (pm_payment_count m + 1) slot m),
            ch_receipts := ch_receipts c @ [(ex_receipt ctx, snapshot_receipt ctx p slot bump
              (charge (pm_amount_spent m + pp_amount p) (pm_payment_count m + 1) slot m))],
            ch_tokens := tokens\<rparr>"
    by (auto simp: execute_payment_def execute_payment_accounts_def find result_simps checked_add_Some
        validate_payment_iff Let_def)
  from acc have "ch_mandates c (ex_mandate ctx) = Some m" "ex_agent ctx = pm_approved_agent m"
    "ex_allowed_mint ctx = pm_allowed_mint m" "ex_receipt ctx = addr"
    "ex_receipt ctx \<notin> fst ` set (ch_receipts c)"
    by (auto simp: execute_payment_accounts_def find result_simps map_of_eq_None_iff)
  with that ok c' find show thesis by simp
qed

lemma charge_mandate_inv:
  assumes "mandate_inv k m c" and "payment_allowed m p slot"
    and "pr_mandate r = k" and "pr_amount r = pp_amount p"
  shows "mandate_inv k (charge (pm_amount_spent m + pp_amount p) (pm_payment_count m + 1) slot m)
           (c\<lparr>ch_receipts := ch_receipts c @ [(adr, r)]\<rparr>)"
proof -
  let ?s = "pm_amount_spent m + pp_amount p" and ?n = "pm_payment_count m + 1"
  from assms(2) unat_u64_less [of "pm_total_limit m"]
  have s: "unat ?s = unat (pm_amount_spent m) + unat (pp_amount p)"
    by (intro unat_add_no_overflow) (simp add: payment_allowed_def)
  from assms(2) have n: "unat ?n = unat (pm_payment_count m) + 1"
    using unat_add_no_overflow [of "pm_payment_count m" 1] by (simp add: payment_allowed_def)
  show ?thesis
    using assms s n by (auto simp: mandate_inv_def payment_allowed_def charge_def word_le_nat_alt)
qed

lemma snapshot_receipt_inv:
  assumes "payment_allowed m p slot"
    and "ex_receipt ctx = fst (rt_find R (receipt_seeds (ex_mandate ctx) (pp_invoice_hash p)))"
    and "m' = charge (pm_amount_spent m + pp_amount p) (pm_payment_count m + 1) slot m"
  shows "receipt_inv R (ex_receipt ctx) (snapshot_receipt ctx p slot bump m')"
proof -
  from assms(1) unat_u64_less [of "pm_total_limit m"]
  have "unat (pm_amount_spent m + pp_amount p) = unat (pm_amount_spent m) + unat (pp_amount p)"
    by (intro unat_add_no_overflow) (simp add: payment_allowed_def)
  moreover from assms(1) have "unat (pm_payment_count m + 1) = unat (pm_payment_count m) + 1"
    using unat_add_no_overflow [of "pm_payment_count m" 1] by (simp add: payment_allowed_def)
  ultimately show ?thesis
    using assms
    by (auto simp: receipt_inv_def snapshot_receipt_def charge_def payment_allowed_def
        word_le_nat_alt word_less_nat_alt)
qed

lemma execute_payment_inv:
  assumes inv: "chain_inv R c" and eq: "execute_payment R slot ctx p c = Inr c'"
  shows "chain_inv R c'"
  using eq
proof (rule execute_payment_success)
  fix m bump tokens
  let ?k = "ex_mandate ctx" and ?m' = "charge (pm_amount_spent m + pp_amount p) (pm_payment_count m + 1) slot m"
  let ?r = "snapshot_receipt ctx p slot bump ?m'"
  assume m: "ch_mandates c ?k = Some m" and ok: "payment_allowed m p slot"
    and addr: "ex_receipt ctx = fst (rt_find R (receipt_seeds ?k (pp_invoice_hash p)))"
    and fresh: "ex_receipt ctx \<notin> fst ` set (ch_receipts c)"
    and c': "c' = c\<lparr>ch_mandates := (ch_mandates c)(?k \<mapsto> ?m'),
       ch_receipts := ch_receipts c @ [(ex_receipt ctx, ?r)], ch_tokens := tokens\<rparr>"
  have r: "pr_mandate ?r = ?k" "pr_amount ?r = pp_amount p"
    by (simp_all add: snapshot_receipt_def)
  let ?d = "c\<lparr>ch_receipts := ch_receipts c @ [(ex_receipt ctx, ?r)]\<rparr>"
  have c'_eq: "c' = ?d\<lparr>ch_mandates := (ch_mandates c)(?k \<mapsto> ?m'), ch_tokens := tokens\<rparr>"
    using c' by simp
  from inv m have "mandate_inv ?k m c" by (simp add: chain_inv_def)
  then have self: "mandate_inv ?k ?m' ?d" using ok r by (rule charge_mandate_inv)
  have others: "mandate_inv k' m2 ?d" if "ch_mandates c k' = Some m2" "k' \<noteq> ?k" for k' m2
    using inv that r by (auto simp: chain_inv_def mandate_inv_def)
  have rinv: "receipt_inv R (ex_receipt ctx) ?r"
    using ok addr by (rule snapshot_receipt_inv) simp
  have mandates: "\<forall>k m. ch_mandates c' k = Some m \<longrightarrow> mandate_inv k m c'"
    using self others c'_eq by auto
  have receipts: "\<forall>(a, q) \<in> set (ch_receipts c'). receipt_inv R a q \<and> ch_mandates c' (pr_mandate q) \<noteq> None"
    using inv rinv r c'_eq by (auto simp: chain_inv_def)
  have "distinct (map fst (ch_receipts c'))"
    using inv fresh c'_eq by (auto simp: chain_inv_def)
  with mandates receipts show ?thesis by (simp add: chain_inv_def)
qed

lemma frame_steps_inv:
  assumes "chain_inv R c"
  shows "initialize_config R g a ms c = Inr c' \<Longrightarrow> chain_inv R c'"
    and "register_asset R g s a x y z c = Inr c' \<Longrightarrow> chain_inv R c'"
    and "set_asset_status R g s a e c = Inr c' \<Longrightarrow> chain_inv R c'"
    and "update_config R g a ms c = Inr c' \<Longrightarrow> chain_inv R c'"
    and "chain_inv R (c\<lparr>ch_tokens := T, ch_mints := M\<rparr>)"
  using assms
  by (auto simp: initialize_config_def update_config_def register_asset_def set_asset_status_def chain_inv_def
      result_simps split: prod.splits)

interpretation chain: invariant empty_chain "chain_step R" "chain_inv R" for R
proof
  show "chain_inv R empty_chain"
    by (simp add: chain_inv_def empty_chain_def)
next
  fix s t assume inv: "chain_inv R s" and "chain_step R s t"
  from this(2) show "chain_inv R t"
    by cases (use inv in \<open>auto dest: frame_steps_inv(1-4) create_mandate_inv update_mandate_inv
        pause_mandate_inv revoke_mandate_inv execute_payment_inv intro: frame_steps_inv(5)\<close>)
qed

end
