(* ===== verification/Sample.thy ===== *)
theory Sample
  imports Program
begin

text \<open>
  A concrete instance of the interfaces that stand for code outside the repository: an injective
  textual form of 32-byte keys with a matching parser, and an address derivation. It shows that
  \<open>web3_ok\<close> and the program's runtime can hold together, and the examples of the properties are
  stated on it.
\<close>

definition known_ids :: "string list" where
  "known_ids = [SYSTEM_PROGRAM_ID, SPL_TOKEN_PROGRAM_ID, TOKEN_2022_PROGRAM_ID,
     ASSOCIATED_TOKEN_PROGRAM_ID, DEFAULT_PROGRAM_ID]"

definition sample_key :: "string \<Rightarrow> bytes" where
  "sample_key s = (if s = SYSTEM_PROGRAM_ID then replicate 32 0 else take 32 (str_bytes s))"

definition sample_text :: "bytes \<Rightarrow> string" where
  "sample_text b = (case find (\<lambda>s. sample_key s = b) known_ids of
     Some s \<Rightarrow> s | None \<Rightarrow> map (\<lambda>w. char_of (unat w)) b @ ''!'')"

definition sample_parse :: "string \<Rightarrow> bytes option" where
  "sample_parse s = (if s \<in> set known_ids \<or> 33 \<le> length s then Some (sample_key s) else None)"

definition sample_pda :: "bytes list \<Rightarrow> bytes" where
  "sample_pda seeds = take 32 (rev (concat seeds) @ replicate 32 0)"

definition sample_web3 :: web3 where
  "sample_web3 = \<lparr>pk_parse = sample_parse, to_base58 = sample_text,
     find_pda = (\<lambda>seeds p. Inr (sample_pda seeds))\<rparr>"

text \<open>A token program that moves the amount between the two balances, and the same derivation.\<close>

definition sample_transfer ::
  "token_accounts \<Rightarrow> pubkey \<Rightarrow> pubkey \<Rightarrow> pubkey \<Rightarrow> pubkey \<Rightarrow> u64 \<Rightarrow> byte \<Rightarrow> token_accounts option" where
  "sample_transfer T src mint dst auth amount decimals = (case (T src, T dst) of
     (Some s, Some d) \<Rightarrow>
       if amount \<le> tk_amount s \<and> amount \<le> tk_delegated_amount s
       then Some (T(src \<mapsto> s\<lparr>tk_amount := tk_amount s - amount,
                             tk_delegated_amount := tk_delegated_amount s - amount\<rparr>,
                   dst \<mapsto> d\<lparr>tk_amount := tk_amount d + amount\<rparr>))
       else None
   | _ \<Rightarrow> None)"

definition sample_runtime :: runtime where
  "sample_runtime = \<lparr>rt_find = (\<lambda>seeds. (sample_pda seeds, 255)),
     rt_create = (\<lambda>seeds bump. Some (sample_pda seeds)),
     rt_transfer_checked = sample_transfer\<rparr>"

section \<open>Lemmas\<close>

lemma length_str_bytes [simp]: "length (str_bytes s) = length s"
  by (simp add: str_bytes_def)

lemma length_known_ids:
  "s \<in> set known_ids \<Longrightarrow> s = SYSTEM_PROGRAM_ID \<or> 33 \<le> length s"
  by (auto simp: known_ids_def SPL_TOKEN_PROGRAM_ID_def TOKEN_2022_PROGRAM_ID_def
      ASSOCIATED_TOKEN_PROGRAM_ID_def DEFAULT_PROGRAM_ID_def)

lemma length_sample_key: "s \<in> set known_ids \<or> 33 \<le> length s \<Longrightarrow> length (sample_key s) = 32"
  using length_known_ids [of s] by (auto simp: sample_key_def)

lemma byte_of_char: "word_of_nat (of_char (char_of (unat (w :: byte)))) = w"
  using unsigned_less [of w, where ?'a = nat] by simp

lemma str_bytes_chars: "str_bytes (map (\<lambda>w :: byte. char_of (unat w)) b) = b"
  by (induction b) (simp_all add: str_bytes_def byte_of_char del: of_char_of)

lemma sample_parse_text:
  assumes "length b = 32"
  shows "sample_parse (sample_text b) = Some b"
proof (cases "find (\<lambda>s. sample_key s = b) known_ids")
  case None
  let ?t = "map (\<lambda>w. char_of (unat w)) b @ ''!''"
  have "?t \<noteq> SYSTEM_PROGRAM_ID"
    using assms by (auto simp: SYSTEM_PROGRAM_ID_def dest: arg_cong [where f = length])
  moreover have "str_bytes ?t = b @ [33]"
    using str_bytes_chars [of b] by (simp add: str_bytes_def)
  ultimately show ?thesis
    using None assms by (simp add: sample_parse_def sample_text_def sample_key_def)
next
  case (Some s)
  then have "s \<in> set known_ids" "sample_key s = b"
    by (auto simp: find_Some_iff)
  with Some show ?thesis by (simp add: sample_parse_def sample_text_def)
qed

lemma sample_web3_ok [simp]: "web3_ok sample_web3"
proof -
  have "sample_text (replicate 32 0) = SYSTEM_PROGRAM_ID"
    by (simp add: sample_text_def known_ids_def sample_key_def)
  then show ?thesis
    using length_sample_key sample_parse_text
    by (auto simp: web3_ok_def sample_web3_def sample_parse_def sample_pda_def split: if_splits)
qed

lemma sample_find_pda [simp]: "find_pda sample_web3 seeds p = Inr (sample_pda seeds)"
  by (simp add: sample_web3_def)

lemma length_sample_pda [simp]: "length (sample_pda seeds) = 32"
  by (simp add: sample_pda_def)

lemma sample_id_ok [simp]:
  "s \<in> set known_ids \<Longrightarrow> publicKey sample_web3 s = Inr (sample_key s)"
  by (simp add: publicKey_def sample_web3_def sample_parse_def)

lemma known_ids_simps [simp]:
  "SYSTEM_PROGRAM_ID \<in> set known_ids" "SPL_TOKEN_PROGRAM_ID \<in> set known_ids"
  "TOKEN_2022_PROGRAM_ID \<in> set known_ids" "ASSOCIATED_TOKEN_PROGRAM_ID \<in> set known_ids"
  "DEFAULT_PROGRAM_ID \<in> set known_ids" "tokenProgramAddress tp \<in> set known_ids"
  by (cases tp; simp add: known_ids_def)+

end
