(* ===== verification/Invariants.thy ===== *)
theory Invariants
  imports Sample
begin

text \<open>
  Properties of every state the on-chain program can reach, from the invariant of \<open>Program\<close>:
  accounting, one receipt per invoice, and the finality of revocation, with a run of the program
  (configure, register, create, pay) as the example.
\<close>

section \<open>Properties of every reachable state\<close>

lemma reachable_inv: "chain_reachable R c \<Longrightarrow> chain_inv R c"
  unfolding chain_reachable_def by (rule chain.inv_reach)

text \<open>
  C4. In every state the program can reach, a mandate's recorded spend is the sum of the amounts on
  its receipts and its count is the number of its receipts; the spend is within the total limit,
  the count within its cap, and the per-payment limit within the total limit.
\<close>

theorem spend_matches_receipts:
  assumes "chain_reachable R c" and "ch_mandates c k = Some m"
  shows "unat (pm_amount_spent m) = sum_list (map (\<lambda>r. unat (pr_amount r)) (receipts_of k c)) \<and>
     unat (pm_payment_count m) = length (receipts_of k c) \<and>
     pm_amount_spent m \<le> pm_total_limit m \<and> pm_max_per_payment m \<le> pm_total_limit m \<and>
     (pm_max_payment_count m = 0 \<or> pm_payment_count m \<le> pm_max_payment_count m)"
  using reachable_inv [OF assms(1)] assms(2)
  by (auto simp: chain_inv_def mandate_inv_def spent_of_def)

text \<open>
  C5. One invoice is paid at most once under a mandate: in every reachable state no two receipts
  carry the same mandate and invoice hash, and each receipt was settled within the limits and
  before the expiry it records.
\<close>

theorem no_invoice_paid_twice:
  assumes "chain_reachable R c"
  shows "distinct (map (\<lambda>(addr, r). (pr_mandate r, pr_invoice_hash r)) (ch_receipts c)) \<and>
     (\<forall>(addr, r) \<in> set (ch_receipts c). pr_status r = 1 \<and> 0 < pr_amount r \<and>
        pr_amount r \<le> pr_policy_max_per_payment r \<and>
        pr_policy_amount_spent_after r \<le> pr_policy_total_limit r \<and>
        pr_executed_at_slot r < pr_policy_expires_at_slot r)"
proof -
  have inv: "chain_inv R c" by (rule reachable_inv [OF assms])
  let ?key = "\<lambda>(addr, r). (pr_mandate r, pr_invoice_hash r)"
  let ?addr = "\<lambda>(k, h). fst (rt_find R (receipt_seeds k h))"
  have "map fst (ch_receipts c) = map ?addr (map ?key (ch_receipts c))"
    using inv by (auto simp: chain_inv_def receipt_inv_def)
  moreover have "distinct (map fst (ch_receipts c))" using inv by (simp add: chain_inv_def)
  ultimately have "distinct (map ?addr (map ?key (ch_receipts c)))" by argo
  then have "distinct (map ?key (ch_receipts c))" unfolding distinct_map [of ?addr] by blast
  with inv show ?thesis by (auto simp: chain_inv_def receipt_inv_def)
qed

text \<open>What a step keeps of a revoked mandate: it stays revoked and gets no new receipt.\<close>

lemma revoked_step:
  assumes "chain_step R c c'" and "ch_mandates c k = Some m" and "pm_revoked m"
  shows "\<exists>m'. ch_mandates c' k = Some m' \<and> pm_revoked m' \<and> pm_amount_spent m' = pm_amount_spent m \<and>
     receipts_of k c' = receipts_of k c"
  using assms(1)
proof cases
  case (step_execute slot ectx pp)
  from step_execute show ?thesis
    by (rule execute_payment_success) (use assms(2,3) in \<open>auto simp: payment_allowed_def receipts_of_def snapshot_receipt_def\<close>)
qed (use assms(2,3) in \<open>auto simp: initialize_config_def update_config_def register_asset_def
    set_asset_status_def create_mandate_def update_mandate_def update_mandate_body_def pause_mandate_def
    revoke_mandate_def with_owned_mandate_def result_simps split: prod.splits\<close>)

lemma revoked_forever:
  assumes "ch_mandates c k = Some m" and "pm_revoked m" and "(chain_step R)\<^sup>*\<^sup>* c c'"
  shows "\<exists>m'. ch_mandates c' k = Some m' \<and> pm_revoked m' \<and> pm_amount_spent m' = pm_amount_spent m \<and>
     receipts_of k c' = receipts_of k c"
  using assms(3)
proof (induction rule: rtranclp_induct)
  case base
  with assms show ?case by simp
next
  case (step y z)
  then obtain m1 where m1: "ch_mandates y k = Some m1" "pm_revoked m1" "pm_amount_spent m1 = pm_amount_spent m"
    "receipts_of k y = receipts_of k c" by auto
  from revoked_step [OF step.hyps(2) m1(1,2)] m1 show ?case by auto
qed

text \<open>
  C6. Revocation is final: after the owner's \<open>revoke_mandate\<close> has succeeded, no sequence of program steps clears
  the flag, changes the mandate's spend from what it was before, or issues another receipt under it.
\<close>

theorem revocation_is_final:
  assumes revoked: "revoke_mandate k owner c0 = Inr c" and steps: "(chain_step R)\<^sup>*\<^sup>* c c'"
  shows "\<exists>m m'. ch_mandates c0 k = Some m \<and> pm_owner m = owner \<and> ch_mandates c' k = Some m' \<and> pm_revoked m' \<and>
     pm_amount_spent m' = pm_amount_spent m \<and> receipts_of k c' = receipts_of k c0"
proof -
  from revoked obtain m where m: "ch_mandates c0 k = Some m" "pm_owner m = owner"
    and c: "c = c0\<lparr>ch_mandates := (ch_mandates c0)(k \<mapsto> m\<lparr>pm_paused := True, pm_revoked := True\<rparr>)\<rparr>"
    by (auto simp: revoke_mandate_def with_owned_mandate_def result_simps)
  have "receipts_of k c = receipts_of k c0" by (simp add: c receipts_of_def)
  with revoked_forever [OF _ _ steps, of k "m\<lparr>pm_paused := True, pm_revoked := True\<rparr>"] m show ?thesis by (auto simp: c)
qed

section \<open>A run of the program\<close>

definition run_nonce :: pubkey where
  "run_nonce = MANDATE_NONCE_PREFIX @ replicate 24 1"

definition run_mandate :: pubkey where
  "run_mandate = sample_pda [str_bytes ''mandate'', replicate 32 1, replicate 32 4, run_nonce]"

definition run_tokens :: token_accounts where
  "run_tokens = [replicate 32 3 \<mapsto> \<lparr>tk_program = replicate 32 5, tk_mint = replicate 32 4,
       tk_owner = replicate 32 1, tk_amount = 700, tk_delegate = Some run_mandate, tk_delegated_amount = 700\<rparr>,
     replicate 32 6 \<mapsto> \<lparr>tk_program = replicate 32 5, tk_mint = replicate 32 4,
       tk_owner = replicate 32 7, tk_amount = 0, tk_delegate = None, tk_delegated_amount = 0\<rparr>]"

definition run_mints :: "pubkey \<rightharpoonup> MintAccount" where
  "run_mints = [replicate 32 4 \<mapsto> \<lparr>mint_program = replicate 32 5, mint_decimals = 6\<rparr>]"

definition run_params :: MandateParams where
  "run_params = \<lparr>mp_approved_agent = replicate 32 2, mp_source_token_account = replicate 32 3,
     mp_allowed_mint = replicate 32 4, mp_max_per_payment = 100, mp_total_limit = 1000,
     mp_expires_at_slot = 900, mp_max_payment_count = 5, mp_cooldown_slots = 10, mp_mandate_nonce = run_nonce\<rparr>"

definition run_create :: CreateMandateAccounts where
  "run_create = \<lparr>cm_config = sample_pda [str_bytes ''config''],
     cm_asset_registry = sample_pda [str_bytes ''asset'', replicate 32 4], cm_mandate = run_mandate,
     cm_owner = replicate 32 1, cm_allowed_mint = replicate 32 4, cm_source_token_account = replicate 32 3,
     cm_token_program = replicate 32 5\<rparr>"

definition run_accounts :: ExecutePaymentAccounts where
  "run_accounts = \<lparr>ex_config = sample_pda [str_bytes ''config''],
     ex_asset_registry = sample_pda [str_bytes ''asset'', replicate 32 4], ex_mandate = run_mandate,
     ex_receipt = sample_pda (receipt_seeds run_mandate (replicate 32 8)), ex_agent = replicate 32 2,
     ex_allowed_mint = replicate 32 4, ex_source_token_account = replicate 32 3,
     ex_recipient_token_account = replicate 32 6, ex_token_program = replicate 32 5\<rparr>"

definition run_payment :: PaymentParams where
  "run_payment = \<lparr>pp_invoice_hash = replicate 32 8, pp_payment_id = replicate 32 9,
     pp_signature_reference = replicate 32 10, pp_amount = 40\<rparr>"

definition run :: "ChainPayError + chain" where
  "run =
     bindR (initialize_config sample_runtime (sample_pda [str_bytes ''config'']) (replicate 32 1)
       [replicate 32 4, default_key, default_key] empty_chain) (\<lambda>c1.
     bindR (register_asset sample_runtime (sample_pda [str_bytes ''config''])
       (sample_pda [str_bytes ''asset'', replicate 32 4]) (replicate 32 1) (replicate 32 4) (replicate 32 5)
       (replicate 32 4) (c1\<lparr>ch_tokens := run_tokens, ch_mints := run_mints\<rparr>)) (\<lambda>c2.
     bindR (create_mandate sample_runtime 100 run_create run_params c2) (\<lambda>c3.
     execute_payment sample_runtime 200 run_accounts run_payment c3)))"

lemma run_reachable:
  assumes "run = Inr c"
  shows "chain_reachable sample_runtime c"
proof -
  let ?S = "chain_step sample_runtime"
  from assms obtain c1 c2 c3 where s: "?S empty_chain c1" "?S (c1\<lparr>ch_tokens := run_tokens, ch_mints := run_mints\<rparr>) c2"
    "?S c2 c3" "?S c3 c"
    unfolding run_def bindR_eq_Inr
    by (elim exE conjE) (rule that; (rule step_initialize step_register step_create step_execute, assumption))
  have "reach empty_chain ?S c1" using reach_start s(1) by (rule reach_step)
  then have "reach empty_chain ?S (c1\<lparr>ch_tokens := run_tokens, ch_mints := run_mints\<rparr>)"
    by (rule reach_step) (rule step_tokens)
  then have "reach empty_chain ?S c2" using s(2) by (rule reach_step)
  then have "reach empty_chain ?S c3" using s(3) by (rule reach_step)
  then show ?thesis unfolding chain_reachable_def using s(4) by (rule reach_step)
qed

lemma run_nonce_ok: "is_mandate_nonce run_nonce" "run_nonce \<noteq> replicate 32 0"
  by (auto simp: is_mandate_nonce_def run_nonce_def MANDATE_NONCE_PREFIX_def numeral_eq_Suc)

lemma run_settles:
  "\<exists>c m r. run = Inr c \<and> ch_mandates c run_mandate = Some m \<and> unat (pm_amount_spent m) = 40 \<and>
     ch_receipts c = [(sample_pda (receipt_seeds run_mandate (replicate 32 8)), r)] \<and> pr_mandate r = run_mandate \<and>
     r = snapshot_receipt run_accounts run_payment 200 255 m \<and>
     pm_allowed_mint m = replicate 32 4 \<and> pm_source_token_account m = replicate 32 3"
  by (simp add: run_def initialize_config_def register_asset_def create_mandate_def execute_payment_def
      execute_payment_accounts_def source_constraints_def recipient_constraints_def config_account_def
      asset_registry_def validate_supported_mints_def validate_mandate_params_def validate_payment_def
      sample_runtime_def sample_transfer_def run_tokens_def run_mints_def run_params_def run_create_def
      run_accounts_def run_payment_def empty_chain_def checked_add_def charge_def snapshot_receipt_def
      default_key_def zero32_def Let_def signer_seeds_def run_nonce_ok
      run_mandate_def [symmetric])

theorem spend_matches_receipts_witness:
  "\<exists>c m. run = Inr c \<and> ch_mandates c run_mandate = Some m \<and>
     unat (pm_payment_count m) = length (receipts_of run_mandate c) \<and> receipts_of run_mandate c \<noteq> []"
proof -
  obtain c m r where c: "run = Inr c" "ch_mandates c run_mandate = Some m"
    "ch_receipts c = [(sample_pda (receipt_seeds run_mandate (replicate 32 8)), r)]" "pr_mandate r = run_mandate"
    using run_settles by auto
  from spend_matches_receipts [OF run_reachable [OF c(1)] c(2)] c show ?thesis
    by (auto simp: receipts_of_def)
qed

theorem no_invoice_paid_twice_witness:
  "\<exists>c. run = Inr c \<and> length (ch_receipts c) = 1 \<and>
     distinct (map (\<lambda>(addr, r). (pr_mandate r, pr_invoice_hash r)) (ch_receipts c))"
proof -
  obtain c r where c: "run = Inr c"
    "ch_receipts c = [(sample_pda (receipt_seeds run_mandate (replicate 32 8)), r)]"
    using run_settles by auto
  from no_invoice_paid_twice [OF run_reachable [OF c(1)]] c show ?thesis by (intro exI [of _ c]) simp
qed

theorem revocation_is_final_witness:
  "\<exists>c0 owner c c' m'. revoke_mandate run_mandate owner c0 = Inr c \<and> c \<noteq> c' \<and>
     (chain_step sample_runtime)\<^sup>*\<^sup>* c c' \<and> ch_mandates c' run_mandate = Some m' \<and> pm_revoked m'"
proof -
  obtain c1 :: chain and m where m: "ch_mandates c1 run_mandate = Some m" using run_settles by blast
  define c0 where "c0 = c1\<lparr>ch_tokens := Map.empty, ch_mints := Map.empty\<rparr>"
  obtain c where c: "revoke_mandate run_mandate (pm_owner m) c0 = Inr c" "ch_mints c = Map.empty"
    using m by (simp add: c0_def revoke_mandate_def with_owned_mandate_def)
  define c' where "c' = c\<lparr>ch_tokens := run_tokens, ch_mints := run_mints\<rparr>"
  have "run_mints \<noteq> Map.empty" by (simp add: run_mints_def)
  then have "c \<noteq> c'" using c(2) by (auto simp: c'_def dest: arg_cong [where f = ch_mints])
  moreover have steps: "(chain_step sample_runtime)\<^sup>*\<^sup>* c c'"
    unfolding c'_def by (rule r_into_rtranclp) (rule step_tokens)
  ultimately show ?thesis using revocation_is_final [OF c(1) steps] c(1) by blast
qed

end
