(* ===== verification/Accounts.thy ===== *)
theory Accounts
  imports Sample
begin

text \<open>
  \<open>sdk/src/types.ts\<close> (the decoded account types) and \<open>sdk/src/accounts.ts\<close> (the decoders). The
  properties tie the decoders' byte offsets to the Rust structs of \<open>Program\<close>: decoding what the
  program serialises gives back every field, for the original 282-byte receipt and for the
  371-byte one with its policy snapshot.
\<close>

section \<open>Decoded accounts (types.ts)\<close>

datatype MandateStatus = Active | Paused | Revoked | Expired

datatype PaymentStatus = Prepared | Submitted | Confirmed | Failed

record Mandate =
  m_address :: address
  m_owner :: address
  m_approvedAgent :: address
  m_sourceTokenAccount :: address
  m_allowedMint :: address
  m_legacyAllowedRecipient :: "address option"
  m_maxPerPayment :: int
  m_totalLimit :: int
  m_amountSpent :: int
  m_paymentCount :: int
  m_expiresAtSlot :: int
  m_maxPaymentCount :: int
  m_cooldownSlots :: int
  m_lastPaymentSlot :: int
  m_paused :: bool
  m_revoked :: bool
  m_status :: MandateStatus
  m_tokenProgram :: "TokenProgram option"
  m_mandateNonce :: "address option"

record SupportedAssetView =
  a_address :: address
  a_authority :: address
  a_mint :: address
  a_tokenProgram :: address
  a_enabled :: bool
  a_bump :: int

record ProtocolConfigView =
  c_address :: "address option"
  c_authority :: address
  c_supportedMints :: "address list"
  c_bump :: int

record ReceiptPolicySnapshot =
  s_version :: int
  s_maxPerPayment :: int
  s_totalLimit :: int
  s_amountSpentAfter :: int
  s_paymentCountAfter :: int
  s_maxPaymentCount :: int
  s_expiresAtSlot :: int
  s_cooldownSlots :: int

record Receipt =
  r_address :: address
  r_mandate :: address
  r_invoiceHash :: bytes
  r_paymentId :: bytes
  r_mint :: address
  r_recipient :: address
  r_sourceTokenAccount :: address
  r_recipientTokenAccount :: address
  r_amount :: int
  r_agent :: address
  r_executedAtSlot :: int
  r_signatureReference :: bytes
  r_status :: PaymentStatus
  r_onChainStatus :: int
  r_bump :: int
  r_transactionSignature :: "string option"
  r_policySnapshot :: "ReceiptPolicySnapshot option"

section \<open>Decoders (accounts.ts)\<close>

definition DEFAULT_ADDRESS :: "web3 \<Rightarrow> address" where
  "DEFAULT_ADDRESS W = to_base58 W (replicate 32 0)"

definition requireLength :: "bytes \<Rightarrow> nat \<Rightarrow> string \<Rightarrow> unit result" where
  "requireLength data len accountName =
     require (\<not> length data < len) (accountName @ '' account data is truncated'')"

definition mandateStatus :: "bool \<Rightarrow> bool \<Rightarrow> int \<Rightarrow> int option \<Rightarrow> MandateStatus" where
  "mandateStatus paused revoked expiresAtSlot currentSlot =
     (if revoked then Revoked
      else if paused then Paused
      else case currentSlot of
        Some slot \<Rightarrow> if expiresAtSlot \<le> slot then Expired else Active
      | None \<Rightarrow> Active)"

definition decodeProtocolConfig :: "web3 \<Rightarrow> bytes \<Rightarrow> address option \<Rightarrow> ProtocolConfigView result" where
  "decodeProtocolConfig W data configAddress =
     bindR (assertDiscriminator data ACCT_protocolConfig ''ProtocolConfig'') (\<lambda>_.
     bindR (requireLength data 137 ''ProtocolConfig'') (\<lambda>_.
     bindR (readPublicKey W data 40) (\<lambda>mint0.
     bindR (readPublicKey W data 72) (\<lambda>mint1.
     bindR (readPublicKey W data 104) (\<lambda>mint2.
     bindR (case configAddress of None \<Rightarrow> Inr None
            | Some a \<Rightarrow> if a = [] then Inr None else bindR (address W a) (\<lambda>n. Inr (Some n))) (\<lambda>addr.
     bindR (readPublicKey W data 8) (\<lambda>authority.
     bindR (readU8 data 136) (\<lambda>bump.
     Inr \<lparr>c_address = addr, c_authority = authority,
          c_supportedMints = filter (\<lambda>mint. mint \<noteq> DEFAULT_ADDRESS W) [mint0, mint1, mint2],
          c_bump = bump\<rparr>))))))))"

definition decodeSupportedAsset :: "web3 \<Rightarrow> bytes \<Rightarrow> address \<Rightarrow> SupportedAssetView result" where
  "decodeSupportedAsset W data assetAddress =
     bindR (assertDiscriminator data ACCT_supportedAsset ''SupportedAsset'') (\<lambda>_.
     bindR (requireLength data 106 ''SupportedAsset'') (\<lambda>_.
     bindR (address W assetAddress) (\<lambda>addr.
     bindR (readPublicKey W data 8) (\<lambda>authority.
     bindR (readPublicKey W data 40) (\<lambda>mint.
     bindR (readPublicKey W data 72) (\<lambda>tokenProgram.
     bindR (readU8 data 104) (\<lambda>enabled.
     bindR (readU8 data 105) (\<lambda>bump.
     Inr \<lparr>a_address = addr, a_authority = authority, a_mint = mint, a_tokenProgram = tokenProgram,
          a_enabled = (enabled \<noteq> 0), a_bump = bump\<rparr>))))))))"

definition decodeMandate ::
  "web3 \<Rightarrow> bytes \<Rightarrow> address \<Rightarrow> int option \<Rightarrow> TokenProgram option \<Rightarrow> Mandate result" where
  "decodeMandate W data mandateAddress currentSlot tokenProgram =
     bindR (assertDiscriminator data ACCT_paymentMandate ''PaymentMandate'') (\<lambda>_.
     bindR (requireLength data MANDATE_ACCOUNT_LENGTH ''PaymentMandate'') (\<lambda>_.
     bindR (readU64 data 200) (\<lambda>expiresAtSlot.
     bindR (readU64 data 208) (\<lambda>maxPaymentCount.
     bindR (readU64 data 216) (\<lambda>cooldownSlots.
     bindR (readU64 data 224) (\<lambda>lastPaymentSlot.
     bindR (readU8 data 232) (\<lambda>pausedByte.
     bindR (readU8 data 233) (\<lambda>revokedByte.
     bindR (readPublicKey W data 136) (\<lambda>legacyAllowedRecipient.
     bindR (isMandateNonce W legacyAllowedRecipient) (\<lambda>isNonce.
     bindR (address W mandateAddress) (\<lambda>addr.
     bindR (readPublicKey W data 8) (\<lambda>owner.
     bindR (readPublicKey W data 40) (\<lambda>approvedAgent.
     bindR (readPublicKey W data 72) (\<lambda>sourceTokenAccount.
     bindR (readPublicKey W data 104) (\<lambda>allowedMint.
     bindR (readU64 data 168) (\<lambda>maxPerPayment.
     bindR (readU64 data 176) (\<lambda>totalLimit.
     bindR (readU64 data 184) (\<lambda>amountSpent.
     bindR (readU64 data 192) (\<lambda>paymentCount.
     let paused = (pausedByte \<noteq> 0); revoked = (revokedByte \<noteq> 0) in
     Inr \<lparr>m_address = addr, m_owner = owner, m_approvedAgent = approvedAgent,
          m_sourceTokenAccount = sourceTokenAccount, m_allowedMint = allowedMint,
          m_legacyAllowedRecipient =
            (if isNonce \<or> legacyAllowedRecipient = DEFAULT_ADDRESS W then None
             else Some legacyAllowedRecipient),
          m_maxPerPayment = maxPerPayment, m_totalLimit = totalLimit, m_amountSpent = amountSpent,
          m_paymentCount = paymentCount, m_expiresAtSlot = expiresAtSlot,
          m_maxPaymentCount = maxPaymentCount, m_cooldownSlots = cooldownSlots,
          m_lastPaymentSlot = lastPaymentSlot, m_paused = paused, m_revoked = revoked,
          m_status = mandateStatus paused revoked expiresAtSlot currentSlot,
          m_tokenProgram = tokenProgram,
          m_mandateNonce = (if isNonce then Some legacyAllowedRecipient else None)\<rparr>)))))))))))))))))))"

definition paymentStatus :: "int \<Rightarrow> PaymentStatus" where
  "paymentStatus onChainStatus = (if onChainStatus = RECEIPT_STATUS_SETTLED then Confirmed else Failed)"

definition decodeReceiptPolicySnapshot :: "bytes \<Rightarrow> ReceiptPolicySnapshot option result" where
  "decodeReceiptPolicySnapshot data =
     (if length data < RECEIPT_ACCOUNT_LENGTH_V2 then Inr None
      else bindR (readU8 data RECEIPT_ACCOUNT_LENGTH) (\<lambda>version.
      if version = 0 then Inr None
      else
      bindR (readU64 data 283) (\<lambda>maxPerPayment.
      bindR (readU64 data 291) (\<lambda>totalLimit.
      bindR (readU64 data 299) (\<lambda>amountSpentAfter.
      bindR (readU64 data 307) (\<lambda>paymentCountAfter.
      bindR (readU64 data 315) (\<lambda>maxPaymentCount.
      bindR (readU64 data 323) (\<lambda>expiresAtSlot.
      bindR (readU64 data 331) (\<lambda>cooldownSlots.
      Inr (Some \<lparr>s_version = version, s_maxPerPayment = maxPerPayment, s_totalLimit = totalLimit,
             s_amountSpentAfter = amountSpentAfter, s_paymentCountAfter = paymentCountAfter,
             s_maxPaymentCount = maxPaymentCount, s_expiresAtSlot = expiresAtSlot,
             s_cooldownSlots = cooldownSlots\<rparr>))))))))))"

definition decodePaymentReceipt ::
  "web3 \<Rightarrow> bytes \<Rightarrow> address \<Rightarrow> string option \<Rightarrow> Receipt result" where
  "decodePaymentReceipt W data receiptAddress transactionSignature =
     bindR (assertDiscriminator data ACCT_paymentReceipt ''PaymentReceipt'') (\<lambda>_.
     bindR (requireLength data RECEIPT_ACCOUNT_LENGTH ''PaymentReceipt'') (\<lambda>_.
     bindR (readU8 data 280) (\<lambda>onChainStatus.
     bindR (address W receiptAddress) (\<lambda>addr.
     bindR (readPublicKey W data 8) (\<lambda>mandate.
     bindR (readBytes32 data 40 ''invoiceHash'') (\<lambda>invoiceHash.
     bindR (readBytes32 data 72 ''paymentId'') (\<lambda>paymentId.
     bindR (readPublicKey W data 104) (\<lambda>mint.
     bindR (readPublicKey W data 136) (\<lambda>sourceTokenAccount.
     bindR (readPublicKey W data 168) (\<lambda>recipientTokenAccount.
     bindR (readPublicKey W data 168) (\<lambda>recipient.
     bindR (readU64 data 200) (\<lambda>amount.
     bindR (readPublicKey W data 208) (\<lambda>agent.
     bindR (readU64 data 240) (\<lambda>executedAtSlot.
     bindR (readBytes32 data 248 ''signatureReference'') (\<lambda>signatureReference.
     bindR (readU8 data 281) (\<lambda>bump.
     bindR (decodeReceiptPolicySnapshot data) (\<lambda>policySnapshot.
     Inr \<lparr>r_address = addr, r_mandate = mandate, r_invoiceHash = invoiceHash, r_paymentId = paymentId,
          r_mint = mint, r_recipient = recipient, r_sourceTokenAccount = sourceTokenAccount,
          r_recipientTokenAccount = recipientTokenAccount, r_amount = amount, r_agent = agent,
          r_executedAtSlot = executedAtSlot, r_signatureReference = signatureReference,
          r_status = paymentStatus onChainStatus, r_onChainStatus = onChainStatus, r_bump = bump,
          r_transactionSignature = transactionSignature,
          r_policySnapshot = policySnapshot\<rparr>)))))))))))))))))"

definition decodeCurrentMandateFields :: "web3 \<Rightarrow> bytes \<Rightarrow> address \<Rightarrow> int option \<Rightarrow> Mandate result" where
  "decodeCurrentMandateFields W data mandateAddress currentSlot =
     decodeMandate W data mandateAddress currentSlot None"

section \<open>What the decoders should return\<close>

definition mandate_wf :: "PaymentMandate \<Rightarrow> bool" where
  "mandate_wf m \<longleftrightarrow> length (pm_owner m) = 32 \<and> length (pm_approved_agent m) = 32 \<and>
     length (pm_source_token_account m) = 32 \<and> length (pm_allowed_mint m) = 32 \<and>
     length (pm_legacy_allowed_recipient m) = 32"

definition receipt_wf :: "PaymentReceipt \<Rightarrow> bool" where
  "receipt_wf r \<longleftrightarrow> length (pr_mandate r) = 32 \<and> length (pr_invoice_hash r) = 32 \<and>
     length (pr_payment_id r) = 32 \<and> length (pr_mint r) = 32 \<and>
     length (pr_source_token_account r) = 32 \<and> length (pr_recipient_token_account r) = 32 \<and>
     length (pr_agent r) = 32 \<and> length (pr_signature_reference r) = 32 \<and> length (pr_reserved r) = 32"

definition mandate_view ::
  "web3 \<Rightarrow> PaymentMandate \<Rightarrow> address \<Rightarrow> int option \<Rightarrow> TokenProgram option \<Rightarrow> Mandate" where
  "mandate_view W m addr slot tp =
     (let k = to_base58 W (pm_legacy_allowed_recipient m);
          nonce = is_mandate_nonce (pm_legacy_allowed_recipient m)
      in \<lparr>m_address = addr, m_owner = to_base58 W (pm_owner m),
          m_approvedAgent = to_base58 W (pm_approved_agent m),
          m_sourceTokenAccount = to_base58 W (pm_source_token_account m),
          m_allowedMint = to_base58 W (pm_allowed_mint m),
          m_legacyAllowedRecipient =
            (if nonce \<or> pm_legacy_allowed_recipient m = default_key then None else Some k),
          m_maxPerPayment = uint (pm_max_per_payment m), m_totalLimit = uint (pm_total_limit m),
          m_amountSpent = uint (pm_amount_spent m), m_paymentCount = uint (pm_payment_count m),
          m_expiresAtSlot = uint (pm_expires_at_slot m),
          m_maxPaymentCount = uint (pm_max_payment_count m),
          m_cooldownSlots = uint (pm_cooldown_slots m),
          m_lastPaymentSlot = uint (pm_last_payment_slot m),
          m_paused = pm_paused m, m_revoked = pm_revoked m,
          m_status = mandateStatus (pm_paused m) (pm_revoked m) (uint (pm_expires_at_slot m)) slot,
          m_tokenProgram = tp,
          m_mandateNonce = (if nonce then Some k else None)\<rparr>)"

definition snapshot_view :: "PaymentReceipt \<Rightarrow> ReceiptPolicySnapshot option" where
  "snapshot_view r = (if pr_snapshot_version r = 0 then None else
     Some \<lparr>s_version = uint (pr_snapshot_version r),
       s_maxPerPayment = uint (pr_policy_max_per_payment r),
       s_totalLimit = uint (pr_policy_total_limit r),
       s_amountSpentAfter = uint (pr_policy_amount_spent_after r),
       s_paymentCountAfter = uint (pr_policy_payment_count_after r),
       s_maxPaymentCount = uint (pr_policy_max_payment_count r),
       s_expiresAtSlot = uint (pr_policy_expires_at_slot r),
       s_cooldownSlots = uint (pr_policy_cooldown_slots r)\<rparr>)"

definition receipt_view ::
  "web3 \<Rightarrow> PaymentReceipt \<Rightarrow> address \<Rightarrow> string option \<Rightarrow> ReceiptPolicySnapshot option \<Rightarrow> Receipt" where
  "receipt_view W r addr sig snap =
     \<lparr>r_address = addr, r_mandate = to_base58 W (pr_mandate r), r_invoiceHash = pr_invoice_hash r,
      r_paymentId = pr_payment_id r, r_mint = to_base58 W (pr_mint r),
      r_recipient = to_base58 W (pr_recipient_token_account r),
      r_sourceTokenAccount = to_base58 W (pr_source_token_account r),
      r_recipientTokenAccount = to_base58 W (pr_recipient_token_account r),
      r_amount = uint (pr_amount r), r_agent = to_base58 W (pr_agent r),
      r_executedAtSlot = uint (pr_executed_at_slot r),
      r_signatureReference = pr_signature_reference r,
      r_status = (if pr_status r = 1 then Confirmed else Failed),
      r_onChainStatus = uint (pr_status r), r_bump = uint (pr_bump r),
      r_transactionSignature = sig, r_policySnapshot = snap\<rparr>"

section \<open>Lemmas\<close>

lemma length_ser_u64 [simp]: "length (ser_u64 v) = 8"
  by (simp add: ser_u64_def)

lemma length_ser_bool [simp]: "length (ser_bool b) = 1"
  by (simp add: ser_bool_def)

lemma uint_u64_ok: "u64_ok (uint (v :: u64))"
  using uint_lt2p [of v] by (simp add: u64_ok_def)

lemma le_val_ser_u64 [simp]: "le_val (ser_u64 v) = uint v"
  using uint_u64_ok [of v] by (simp add: ser_u64_def)

lemma take_eq_iff_nth:
  assumes "length p \<le> length b"
  shows "take (length p) b = p \<longleftrightarrow> (\<forall>i < length p. b ! i = p ! i)"
  using assms by (auto simp: list_eq_iff_nth_eq)

lemma isMandateNonce_base58:
  assumes "web3_ok W" and "length b = 32"
  shows "isMandateNonce W (to_base58 W b) = Inr (is_mandate_nonce b)"
proof -
  have "length MANDATE_NONCE_PREFIX \<le> length b"
    using assms(2) by (simp add: MANDATE_NONCE_PREFIX_def)
  then have "list_all (\<lambda>i. b ! i = MANDATE_NONCE_PREFIX ! i) [0..<length MANDATE_NONCE_PREFIX]
        \<longleftrightarrow> is_mandate_nonce b"
    using take_eq_iff_nth [of MANDATE_NONCE_PREFIX b]
    by (auto simp: is_mandate_nonce_def list_all_iff)
  with assms show ?thesis by (simp add: isMandateNonce_def)
qed

text \<open>Layout facts: a field at its offset, once the fields before it have been skipped.\<close>

lemma nth_append_right: "length xs \<le> n \<Longrightarrow> (xs @ ys) ! n = ys ! (n - length xs)"
  by (simp add: nth_append)

lemma slice_Cons: "0 < off \<Longrightarrow> slice (x # xs) off n = slice xs (off - 1) n"
  by (cases off) (simp_all add: slice_def)

lemma disc_append:
  assumes "length disc = n"
  shows "assertDiscriminator (disc @ rest) disc name = Inr ()"
  by (simp add: assertDiscriminator_iff)

lemma length_ACCT [simp]:
  "length ACCT_protocolConfig = 8" "length ACCT_supportedAsset = 8"
  "length ACCT_paymentMandate = 8" "length ACCT_paymentReceipt = 8"
  by (simp_all add: ACCT_defs)

lemma base58_is_default:
  "web3_ok W \<Longrightarrow> length b = 32 \<Longrightarrow> to_base58 W b = DEFAULT_ADDRESS W \<longleftrightarrow> b = default_key"
  by (simp add: DEFAULT_ADDRESS_def default_key_def base58_inject)

lemma ser_bool_flag [simp]: "uint (ser_bool b ! 0) \<noteq> 0 \<longleftrightarrow> b" "uint (((if b then 1 else 0) :: byte)) = 0 \<longleftrightarrow> \<not> b"
  by (simp_all add: ser_bool_def)

lemma length_ser_PaymentMandate: "mandate_wf m \<Longrightarrow> length (ser_PaymentMandate m) = 235"
  by (simp add: ser_PaymentMandate_def mandate_wf_def)

lemma length_ser_PaymentReceipt: "receipt_wf r \<Longrightarrow> length (ser_PaymentReceipt r) = 371"
  by (simp add: ser_PaymentReceipt_def receipt_wf_def)

lemma mandate_fields:
  assumes "mandate_wf m" and "d = ser_PaymentMandate m @ extra"
  shows "length d = 235 + length extra"
    and "assertDiscriminator d ACCT_paymentMandate n = Inr ()"
    and "slice d 8 32 = pm_owner m" and "slice d 40 32 = pm_approved_agent m"
    and "slice d 72 32 = pm_source_token_account m" and "slice d 104 32 = pm_allowed_mint m"
    and "slice d 136 32 = pm_legacy_allowed_recipient m"
    and "le_val (slice d 168 8) = uint (pm_max_per_payment m)"
    and "le_val (slice d 176 8) = uint (pm_total_limit m)"
    and "le_val (slice d 184 8) = uint (pm_amount_spent m)"
    and "le_val (slice d 192 8) = uint (pm_payment_count m)"
    and "le_val (slice d 200 8) = uint (pm_expires_at_slot m)"
    and "le_val (slice d 208 8) = uint (pm_max_payment_count m)"
    and "le_val (slice d 216 8) = uint (pm_cooldown_slots m)"
    and "le_val (slice d 224 8) = uint (pm_last_payment_slot m)"
    and "d ! 232 = (if pm_paused m then 1 else 0)" and "d ! 233 = (if pm_revoked m then 1 else 0)"
  using assms
  by (simp_all add: ser_PaymentMandate_def mandate_wf_def nth_append_right disc_append ser_bool_def)

lemma decodeMandate_ser:
  assumes W: "web3_ok W" and wf: "mandate_wf m" and addr: "address W addr = Inr a"
  shows "decodeMandate W (ser_PaymentMandate m @ extra) addr slot tp = Inr (mandate_view W m a slot tp)"
proof -
  define d where d: "d = ser_PaymentMandate m @ extra"
  note fields = mandate_fields [OF wf d]
  have key: "length (pm_legacy_allowed_recipient m) = 32"
    using wf by (simp add: mandate_wf_def)
  show ?thesis
    unfolding d [symmetric] decodeMandate_def requireLength_def MANDATE_ACCOUNT_LENGTH_def
    by (simp add: fields enc_simps W key addr isMandateNonce_base58 base58_is_default
        mandate_view_def Let_def)
qed

lemma receipt_fields:
  assumes "receipt_wf r" and "d = ser_PaymentReceipt r @ extra"
  shows "length d = 371 + length extra"
    and "assertDiscriminator d ACCT_paymentReceipt n = Inr ()"
    and "slice d 8 32 = pr_mandate r" and "slice d 40 32 = pr_invoice_hash r"
    and "slice d 72 32 = pr_payment_id r" and "slice d 104 32 = pr_mint r"
    and "slice d 136 32 = pr_source_token_account r"
    and "slice d 168 32 = pr_recipient_token_account r"
    and "le_val (slice d 200 8) = uint (pr_amount r)" and "slice d 208 32 = pr_agent r"
    and "le_val (slice d 240 8) = uint (pr_executed_at_slot r)"
    and "slice d 248 32 = pr_signature_reference r"
    and "d ! 280 = pr_status r" and "d ! 281 = pr_bump r" and "d ! 282 = pr_snapshot_version r"
    and "le_val (slice d 283 8) = uint (pr_policy_max_per_payment r)"
    and "le_val (slice d 291 8) = uint (pr_policy_total_limit r)"
    and "le_val (slice d 299 8) = uint (pr_policy_amount_spent_after r)"
    and "le_val (slice d 307 8) = uint (pr_policy_payment_count_after r)"
    and "le_val (slice d 315 8) = uint (pr_policy_max_payment_count r)"
    and "le_val (slice d 323 8) = uint (pr_policy_expires_at_slot r)"
    and "le_val (slice d 331 8) = uint (pr_policy_cooldown_slots r)"
  using assms
  by (simp_all add: ser_PaymentReceipt_def receipt_wf_def nth_append_right disc_append slice_Cons)

lemma uint_byte_eq_0: "uint (b :: byte) = 0 \<longleftrightarrow> b = 0"
  and uint_byte_eq_1: "uint (b :: byte) = 1 \<longleftrightarrow> b = 1"
  by (simp_all add: word_uint_eq_iff)

lemma decodeReceiptPolicySnapshot_ser:
  assumes "receipt_wf r"
  shows "decodeReceiptPolicySnapshot (ser_PaymentReceipt r @ extra) = Inr (snapshot_view r)"
proof -
  define d where d: "d = ser_PaymentReceipt r @ extra"
  note fields = receipt_fields [OF assms d]
  show ?thesis
    unfolding d [symmetric] decodeReceiptPolicySnapshot_def RECEIPT_ACCOUNT_LENGTH_def
      RECEIPT_ACCOUNT_LENGTH_V2_def
    by (simp add: fields enc_simps snapshot_view_def uint_byte_eq_0)
qed

lemma decodePaymentReceipt_ser:
  assumes wf: "receipt_wf r" and addr: "address W addr = Inr a"
  shows "decodePaymentReceipt W (ser_PaymentReceipt r @ extra) addr sig
           = Inr (receipt_view W r a sig (snapshot_view r))"
proof -
  note snap = decodeReceiptPolicySnapshot_ser [OF wf, of extra]
  define d where d: "d = ser_PaymentReceipt r @ extra"
  note fields = receipt_fields [OF wf d]
  show ?thesis
    using snap
    unfolding d [symmetric] decodePaymentReceipt_def requireLength_def RECEIPT_ACCOUNT_LENGTH_def
    by (simp add: fields enc_simps addr receipt_view_def paymentStatus_def RECEIPT_STATUS_SETTLED_def
        uint_byte_eq_1)
qed

text \<open>The original accounts are the first 282 bytes of today's layout.\<close>

lemma slice_take: "off + n \<le> k \<Longrightarrow> slice (take k d) off n = slice d off n"
  by (simp add: slice_def drop_take min_absorb1)

lemma assertDiscriminator_take:
  assumes "assertDiscriminator d disc n = Inr ()" and "length disc \<le> k"
  shows "assertDiscriminator (take k d) disc n = Inr ()"
  using assms by (simp add: assertDiscriminator_iff min_absorb1)

lemma decodePaymentReceipt_legacy:
  assumes wf: "receipt_wf r" and addr: "address W addr = Inr a"
    and n: "282 \<le> n" "n < 371"
  shows "decodePaymentReceipt W (take n (ser_PaymentReceipt r)) addr sig
           = Inr (receipt_view W r a sig None)"
proof -
  define d where d: "d = ser_PaymentReceipt r @ []"
  note fields = receipt_fields [OF wf d]
  have disc: "assertDiscriminator (take n d) ACCT_paymentReceipt k = Inr ()" for k
    using fields(2) n by (intro assertDiscriminator_take) simp_all
  have len: "length (take n d) = n" using fields(1) n by simp
  have "decodePaymentReceipt W (take n d) addr sig = Inr (receipt_view W r a sig None)"
    unfolding decodePaymentReceipt_def requireLength_def RECEIPT_ACCOUNT_LENGTH_def
      decodeReceiptPolicySnapshot_def RECEIPT_ACCOUNT_LENGTH_V2_def disc
    using n by (simp add: len enc_simps fields addr receipt_view_def paymentStatus_def slice_take
        RECEIPT_STATUS_SETTLED_def uint_byte_eq_1 del: length_take)
  then show ?thesis by (simp add: d)
qed

lemma decodeProtocolConfig_ser:
  assumes W: "web3_ok W" and addr: "address W addr = Inr a" "addr \<noteq> []"
    and len: "length (cfg_authority g) = 32" "length m0 = 32" "length m1 = 32" "length m2 = 32"
    and mints: "cfg_supported_mints g = [m0, m1, m2]"
  shows "decodeProtocolConfig W (ser_ProtocolConfig g @ extra) (Some addr) =
     Inr \<lparr>c_address = Some a, c_authority = to_base58 W (cfg_authority g),
          c_supportedMints = map (to_base58 W) (filter (\<lambda>m. m \<noteq> default_key) [m0, m1, m2]),
          c_bump = uint (cfg_bump g)\<rparr>"
proof -
  define d where d: "d = ser_ProtocolConfig g @ extra"
  have fields: "length d = 137 + length extra" "slice d 8 32 = cfg_authority g"
    "slice d 40 32 = m0" "slice d 72 32 = m1" "slice d 104 32 = m2" "d ! 136 = cfg_bump g"
    "assertDiscriminator d ACCT_protocolConfig n = Inr ()" for n
    using len mints d by (simp_all add: ser_ProtocolConfig_def nth_append_right disc_append)
  show ?thesis
    unfolding d [symmetric] decodeProtocolConfig_def requireLength_def
    by (simp add: fields enc_simps addr base58_is_default W len)
qed

lemma decodeSupportedAsset_ser:
  assumes addr: "address W addr = Inr a"
    and len: "length (sa_authority s) = 32" "length (sa_mint s) = 32" "length (sa_token_program s) = 32"
  shows "decodeSupportedAsset W (ser_SupportedAsset s @ extra) addr =
     Inr \<lparr>a_address = a, a_authority = to_base58 W (sa_authority s), a_mint = to_base58 W (sa_mint s),
          a_tokenProgram = to_base58 W (sa_token_program s), a_enabled = sa_enabled s,
          a_bump = uint (sa_bump s)\<rparr>"
proof -
  define d where d: "d = ser_SupportedAsset s @ extra"
  have fields: "length d = 106 + length extra" "slice d 8 32 = sa_authority s"
    "slice d 40 32 = sa_mint s" "slice d 72 32 = sa_token_program s"
    "d ! 104 = (if sa_enabled s then 1 else 0)" "d ! 105 = sa_bump s"
    "assertDiscriminator d ACCT_supportedAsset n = Inr ()" for n
    using len d by (simp_all add: ser_SupportedAsset_def nth_append_right disc_append ser_bool_def)
  show ?thesis
    unfolding d [symmetric] decodeSupportedAsset_def requireLength_def
    by (simp add: fields enc_simps addr)
qed

text \<open>Which bytes the mandate and receipt decoders accept, and what they answer otherwise.\<close>

lemma assertDiscriminator_cases:
  "assertDiscriminator d disc n =
     (if length d < length disc then Inl (n @ '' account data is truncated'')
      else if take (length disc) d \<noteq> disc then Inl (''Invalid '' @ n @ '' account discriminator'')
      else Inr ())"
  using discriminator_loop_iff [of 0 "length disc" d disc]
  by (simp add: assertDiscriminator_def slice_def)

lemma isMandateNonce_total:
  "web3_ok W \<Longrightarrow> length b = 32 \<Longrightarrow> \<exists>v. isMandateNonce W (to_base58 W b) = Inr v"
  by (auto simp: isMandateNonce_base58)

lemma decodeMandate_iff:
  assumes "web3_ok W"
  shows "is_ok (decodeMandate W d addr slot tp) \<longleftrightarrow>
     235 \<le> length d \<and> take 8 d = ACCT_paymentMandate \<and> is_ok (address W addr)"
proof (cases "235 \<le> length d \<and> take 8 d = ACCT_paymentMandate")
  case True
  then obtain v where v: "isMandateNonce W (to_base58 W (slice d 136 32)) = Inr v"
    using isMandateNonce_total [OF assms, of "slice d 136 32"] by auto
  show ?thesis
    using True unfolding decodeMandate_def requireLength_def MANDATE_ACCOUNT_LENGTH_def
    by (cases "address W addr") (simp_all add: assertDiscriminator_cases enc_simps v Let_def)
next
  case False
  then show ?thesis
    unfolding decodeMandate_def requireLength_def MANDATE_ACCOUNT_LENGTH_def
    by (auto simp: assertDiscriminator_cases)
qed

lemma decodePaymentReceipt_iff:
  "is_ok (decodePaymentReceipt W d addr sig) \<longleftrightarrow>
     282 \<le> length d \<and> take 8 d = ACCT_paymentReceipt \<and> is_ok (address W addr)"
proof (cases "282 \<le> length d \<and> take 8 d = ACCT_paymentReceipt")
  case True
  have "\<exists>v. decodeReceiptPolicySnapshot d = Inr v"
    unfolding decodeReceiptPolicySnapshot_def RECEIPT_ACCOUNT_LENGTH_V2_def RECEIPT_ACCOUNT_LENGTH_def
    by (auto simp: enc_simps)
  with True show ?thesis
    unfolding decodePaymentReceipt_def requireLength_def RECEIPT_ACCOUNT_LENGTH_def
    by (cases "address W addr") (auto simp: assertDiscriminator_cases enc_simps)
next
  case False
  then show ?thesis
    unfolding decodePaymentReceipt_def requireLength_def RECEIPT_ACCOUNT_LENGTH_def
    by (auto simp: assertDiscriminator_cases)
qed

section \<open>Properties\<close>

text \<open>
  C16. The mandate decoder inverts the program's layout: for every mandate the program stores, also
  with trailing bytes, decoding gives back each field at its value, the status follows revoked
  before paused before expired, and the 32-byte slot is reported as a nonce or as a legacy
  recipient, never both.
\<close>

theorem mandate_account_roundtrip:
  assumes "web3_ok W" and "mandate_wf m" and "address W addr = Inr a"
  shows "decodeMandate W (ser_PaymentMandate m @ extra) addr slot tp = Inr (mandate_view W m a slot tp) \<and>
     (m_mandateNonce (mandate_view W m a slot tp) = None \<or>
      m_legacyAllowedRecipient (mandate_view W m a slot tp) = None)"
  using decodeMandate_ser [OF assms] by (simp add: mandate_view_def Let_def)

definition example_mandate :: PaymentMandate where
  "example_mandate = \<lparr>pm_owner = replicate 32 1, pm_approved_agent = replicate 32 2,
     pm_source_token_account = replicate 32 3, pm_allowed_mint = replicate 32 4,
     pm_legacy_allowed_recipient = MANDATE_NONCE_PREFIX @ replicate 24 5, pm_max_per_payment = 100,
     pm_total_limit = 1000, pm_amount_spent = 50, pm_payment_count = 1, pm_expires_at_slot = 900,
     pm_max_payment_count = 5, pm_cooldown_slots = 0, pm_last_payment_slot = 300, pm_paused = True,
     pm_revoked = False, pm_bump = 255\<rparr>"

theorem mandate_account_roundtrip_witness:
  "\<exists>M. decodeMandate sample_web3 (ser_PaymentMandate example_mandate @ [1, 2])
      (to_base58 sample_web3 (replicate 32 9)) (Some 500) None = Inr M \<and>
     m_status M = Paused \<and> m_totalLimit M = 1000 \<and> m_legacyAllowedRecipient M = None"
proof -
  have wf: "mandate_wf example_mandate"
    by (simp add: mandate_wf_def example_mandate_def MANDATE_NONCE_PREFIX_def)
  have addr: "address sample_web3 (to_base58 sample_web3 (replicate 32 9)) = Inr (to_base58 sample_web3 (replicate 32 9))"
    by simp
  have "is_mandate_nonce (pm_legacy_allowed_recipient example_mandate)"
    by (simp add: is_mandate_nonce_def example_mandate_def)
  then show ?thesis
    using mandate_account_roundtrip [OF sample_web3_ok wf addr, of "[1, 2]" "Some 500" None]
    by (simp add: mandate_view_def Let_def mandateStatus_def example_mandate_def)
qed

text \<open>
  The receipt decoder inverts the program's layout in both generations: a 371-byte receipt gives
  every field and its policy snapshot, the same receipt cut to any length from the original 282
  bytes up gives the same fields and no snapshot, and a shorter one is refused.
\<close>

theorem receipt_account_roundtrip:
  assumes wf: "receipt_wf r" and addr: "address W addr = Inr a"
  shows "decodePaymentReceipt W (ser_PaymentReceipt r @ extra) addr sig = Inr (receipt_view W r a sig (snapshot_view r)) \<and>
     (\<forall>n. 282 \<le> n \<longrightarrow> n < 371 \<longrightarrow>
        decodePaymentReceipt W (take n (ser_PaymentReceipt r)) addr sig = Inr (receipt_view W r a sig None)) \<and>
     (\<forall>n < 282. \<not> is_ok (decodePaymentReceipt W (take n (ser_PaymentReceipt r)) addr sig))"
  using decodePaymentReceipt_ser [OF assms] decodePaymentReceipt_legacy [OF assms]
    length_ser_PaymentReceipt [OF wf] by (simp add: decodePaymentReceipt_iff)

definition example_receipt :: PaymentReceipt where
  "example_receipt = \<lparr>pr_mandate = replicate 32 1, pr_invoice_hash = replicate 32 2, pr_payment_id = replicate 32 3,
     pr_mint = replicate 32 4, pr_source_token_account = replicate 32 5, pr_recipient_token_account = replicate 32 6,
     pr_amount = 25, pr_agent = replicate 32 7, pr_executed_at_slot = 400, pr_signature_reference = replicate 32 8,
     pr_status = 1, pr_bump = 254, pr_snapshot_version = 1, pr_policy_max_per_payment = 100,
     pr_policy_total_limit = 1000, pr_policy_amount_spent_after = 75, pr_policy_payment_count_after = 2,
     pr_policy_max_payment_count = 5, pr_policy_expires_at_slot = 900, pr_policy_cooldown_slots = 0,
     pr_reserved = replicate 32 0\<rparr>"

theorem receipt_account_roundtrip_witness:
  "\<exists>R R'. decodePaymentReceipt sample_web3 (ser_PaymentReceipt example_receipt) SYSTEM_PROGRAM_ID None = Inr R \<and>
     decodePaymentReceipt sample_web3 (take 300 (ser_PaymentReceipt example_receipt)) SYSTEM_PROGRAM_ID None = Inr R' \<and>
     r_amount R = 25 \<and> r_policySnapshot R \<noteq> None \<and> r_policySnapshot R' = None"
proof -
  have wf: "receipt_wf example_receipt" by (simp add: receipt_wf_def example_receipt_def)
  obtain a where addr: "address sample_web3 SYSTEM_PROGRAM_ID = Inr a" by (simp add: address_def)
  from receipt_account_roundtrip [OF wf addr, of "[]" None] show ?thesis
    by (simp add: receipt_view_def snapshot_view_def example_receipt_def)
qed

text \<open>
  C18. The decoders accept exactly the accounts of their type: a mandate needs 235 bytes and its
  discriminator, a receipt 282 bytes and its own, nothing else than the address can then fail, and
  so no bytes decode both as a mandate and as a receipt.
\<close>

theorem decoders_accept_exactly:
  assumes "web3_ok W"
  shows "(is_ok (decodeMandate W d addr slot tp) \<longleftrightarrow>
       235 \<le> length d \<and> take 8 d = ACCT_paymentMandate \<and> is_ok (address W addr)) \<and>
     (is_ok (decodePaymentReceipt W d addr sig) \<longleftrightarrow>
       282 \<le> length d \<and> take 8 d = ACCT_paymentReceipt \<and> is_ok (address W addr)) \<and>
     \<not> (is_ok (decodeMandate W d addr slot tp) \<and> is_ok (decodePaymentReceipt W d addr' sig))"
  using decodeMandate_iff [OF assms] decodePaymentReceipt_iff
  by (auto simp: ACCT_paymentMandate_def ACCT_paymentReceipt_def)

theorem decoders_accept_exactly_witness:
  "is_ok (decodeMandate sample_web3 (ACCT_paymentMandate @ replicate 227 0) SYSTEM_PROGRAM_ID None None) \<and>
   \<not> is_ok (decodeMandate sample_web3 (ACCT_paymentMandate @ replicate 226 0) SYSTEM_PROGRAM_ID None None) \<and>
   \<not> is_ok (decodePaymentReceipt sample_web3 (ACCT_paymentMandate @ replicate 227 0) SYSTEM_PROGRAM_ID None)"
proof -
  have "is_ok (address sample_web3 SYSTEM_PROGRAM_ID)" by (simp add: address_def known_ids_def)
  moreover have "length ACCT_paymentMandate = 8" by (simp add: ACCT_paymentMandate_def)
  ultimately show ?thesis
    using decoders_accept_exactly [OF sample_web3_ok, of _ SYSTEM_PROGRAM_ID None None None SYSTEM_PROGRAM_ID] by simp
qed

end
