(* ===== verification/Mandate.thy ===== *)
theory Mandate
  imports Accounts
begin

text \<open>
  \<open>sdk/src/mandate.ts\<close>: validation of a new mandate and the builders of the owner's instructions.
  \<open>Keypair.generate()\<close> is outside the repository: its 32 public-key bytes are the argument \<open>kp\<close>.
  The properties: what a builder emits is byte for byte the Borsh encoding of the arguments the
  program's handler takes, and what the SDK's validation leaves for the program to check.
\<close>

section \<open>Inputs\<close>

record CreateMandateInput =
  ci_approvedAgent :: address
  ci_sourceTokenAccount :: address
  ci_allowedMint :: address
  ci_maxPerPayment :: int
  ci_totalLimit :: int
  ci_expiresAtSlot :: int
  ci_maxPaymentCount :: int
  ci_cooldownSlots :: int
  ci_tokenProgram :: TokenProgram
  ci_delegateAmount :: "int option"
  ci_mandateNonce :: "address option"

record PreparedTransaction =
  tx_instructions :: "ChainPayInstruction list"
  tx_requiredSigners :: "address list"
  tx_feePayer :: "address option"

record PreparedMandate =
  pmd_mandateAddress :: address
  pmd_configAddress :: address
  pmd_transaction :: PreparedTransaction

section \<open>Operations\<close>

definition createMandateNonce :: "web3 \<Rightarrow> bytes \<Rightarrow> address" where
  "createMandateNonce W kp = to_base58 W (set_at kp MANDATE_NONCE_PREFIX 0)"

definition normalizedMandateNonce :: "web3 \<Rightarrow> bytes \<Rightarrow> CreateMandateInput \<Rightarrow> address result" where
  "normalizedMandateNonce W kp input =
     (let mandateNonce = (case ci_mandateNonce input of Some n \<Rightarrow> n | None \<Rightarrow> createMandateNonce W kp) in
      bindR (publicKey W mandateNonce) (\<lambda>_.
      bindR (isMandateNonce W mandateNonce) (\<lambda>isNonce.
      bindR (require isNonce ''mandateNonce must be generated by ChainPay and include its nonce prefix'') (\<lambda>_.
      Inr mandateNonce))))"

definition validateMandateInput :: "web3 \<Rightarrow> bytes \<Rightarrow> CreateMandateInput \<Rightarrow> unit result" where
  "validateMandateInput W kp input =
     bindR (publicKey W (ci_approvedAgent input)) (\<lambda>_.
     bindR (publicKey W (ci_sourceTokenAccount input)) (\<lambda>_.
     bindR (publicKey W (ci_allowedMint input)) (\<lambda>_.
     bindR (normalizedMandateNonce W kp input) (\<lambda>_.
     bindR (writeU64 (ci_maxPerPayment input) ''maxPerPayment'') (\<lambda>_.
     bindR (writeU64 (ci_totalLimit input) ''totalLimit'') (\<lambda>_.
     bindR (writeU64 (ci_expiresAtSlot input) ''expiresAtSlot'') (\<lambda>_.
     bindR (writeU64 (ci_maxPaymentCount input) ''maxPaymentCount'') (\<lambda>_.
     bindR (writeU64 (ci_cooldownSlots input) ''cooldownSlots'') (\<lambda>_.
     bindR (require (\<not> ci_maxPerPayment input \<le> 0) ''maxPerPayment must be positive'') (\<lambda>_.
     bindR (require (\<not> ci_totalLimit input < ci_maxPerPayment input) ''totalLimit must cover maxPerPayment'') (\<lambda>_.
     bindR (require (\<not> ci_expiresAtSlot input \<le> 0) ''expiresAtSlot must be positive'') (\<lambda>_.
     case ci_delegateAmount input of
       None \<Rightarrow> Inr ()
     | Some amount \<Rightarrow>
         bindR (writeU64 amount ''delegateAmount'') (\<lambda>_.
         require (\<not> amount \<le> 0) ''delegateAmount must be positive'')))))))))))))"

definition create_data :: "CreateMandateInput \<Rightarrow> address \<Rightarrow> CreateMandateData" where
  "create_data i nonce = \<lparr>cd_approvedAgent = ci_approvedAgent i,
     cd_sourceTokenAccount = ci_sourceTokenAccount i, cd_allowedMint = ci_allowedMint i,
     cd_maxPerPayment = ci_maxPerPayment i, cd_totalLimit = ci_totalLimit i,
     cd_expiresAtSlot = ci_expiresAtSlot i, cd_maxPaymentCount = ci_maxPaymentCount i,
     cd_cooldownSlots = ci_cooldownSlots i, cd_mandateNonce = nonce\<rparr>"

definition buildInitializeConfigInstruction ::
  "web3 \<Rightarrow> address list \<Rightarrow> address \<Rightarrow> address \<Rightarrow> ChainPayInstruction result" where
  "buildInitializeConfigInstruction W supportedMints authority programId =
     bindR (require (length supportedMints = 3) ''initialize_config requires exactly three mint slots'') (\<lambda>_.
     bindR (publicKey W authority) (\<lambda>_.
     bindR (mapR (publicKey W) supportedMints) (\<lambda>_.
     instruction W ''initialize_config'' programId
       [bindR (deriveConfigAddress W programId) (\<lambda>a. meta W a True False),
        meta W authority True True,
        systemProgramMeta W]
       (encodeInitializeConfig W supportedMints))))"

definition buildCreateMandateInstruction ::
  "web3 \<Rightarrow> bytes \<Rightarrow> CreateMandateInput \<Rightarrow> address \<Rightarrow> address \<Rightarrow> ChainPayInstruction result" where
  "buildCreateMandateInstruction W kp input owner programId =
     bindR (normalizedMandateNonce W kp input) (\<lambda>mandateNonce.
     let normalizedInput = input\<lparr>ci_mandateNonce := Some mandateNonce\<rparr> in
     bindR (validateMandateInput W kp normalizedInput) (\<lambda>_.
     bindR (deriveConfigAddress W programId) (\<lambda>config.
     bindR (deriveAssetAddress W (ci_allowedMint normalizedInput) programId) (\<lambda>asset.
     bindR (deriveVersionedMandateAddress W owner (ci_allowedMint normalizedInput) mandateNonce programId) (\<lambda>mandate.
     instruction W ''create_mandate'' programId
       [meta W config False False,
        meta W asset False False,
        meta W mandate True False,
        meta W owner True True,
        meta W (ci_allowedMint normalizedInput) False False,
        meta W (ci_sourceTokenAccount normalizedInput) False False,
        meta W (tokenProgramAddress (ci_tokenProgram normalizedInput)) False False,
        systemProgramMeta W]
       (encodeCreateMandate W (create_data normalizedInput mandateNonce)))))))"

definition buildRegisterAssetInstruction ::
  "web3 \<Rightarrow> address \<Rightarrow> TokenProgram \<Rightarrow> address \<Rightarrow> address \<Rightarrow> ChainPayInstruction result" where
  "buildRegisterAssetInstruction W mint tokenProgram authority programId =
     bindR (publicKey W mint) (\<lambda>_.
     bindR (publicKey W authority) (\<lambda>_.
     instruction W ''register_asset'' programId
       [bindR (deriveConfigAddress W programId) (\<lambda>a. meta W a False False),
        bindR (deriveAssetAddress W mint programId) (\<lambda>a. meta W a True False),
        meta W authority False True,
        meta W mint False False,
        meta W (tokenProgramAddress tokenProgram) False False,
        systemProgramMeta W]
       (encodeRegisterAsset W mint)))"

definition buildSetAssetStatusInstruction ::
  "web3 \<Rightarrow> address \<Rightarrow> address \<Rightarrow> bool \<Rightarrow> address \<Rightarrow> ChainPayInstruction result" where
  "buildSetAssetStatusInstruction W mint authority enabled programId =
     bindR (publicKey W mint) (\<lambda>_.
     bindR (publicKey W authority) (\<lambda>_.
     instruction W ''set_asset_status'' programId
       [bindR (deriveConfigAddress W programId) (\<lambda>a. meta W a False False),
        bindR (deriveAssetAddress W mint programId) (\<lambda>a. meta W a True False),
        meta W authority False True]
       (Inr (encodeSetAssetStatus enabled))))"

record ApproveInput =
  ap_sourceTokenAccount :: address
  ap_allowedMint :: address
  ap_tokenProgram :: TokenProgram
  ap_totalLimit :: int
  ap_owner :: address
  ap_mandate :: "address option"
  ap_delegateAmount :: "int option"
  ap_decimals :: jsnum

definition buildApproveDelegateInstruction :: "web3 \<Rightarrow> ApproveInput \<Rightarrow> ChainPayInstruction result" where
  "buildApproveDelegateInstruction W input =
     bindR (case ap_mandate input of Some m \<Rightarrow> Inr m
            | None \<Rightarrow> deriveMandateAddress W (ap_owner input) DEFAULT_PROGRAM_ID None) (\<lambda>mandate.
     let amount = (case ap_delegateAmount input of Some a \<Rightarrow> a | None \<Rightarrow> ap_totalLimit input) in
     bindR (writeU64 amount ''delegateAmount'') (\<lambda>_.
     instruction W ''approve_delegate'' (tokenProgramAddress (ap_tokenProgram input))
       [meta W (ap_sourceTokenAccount input) True False,
        meta W (ap_allowedMint input) False False,
        meta W mandate False False,
        meta W (ap_owner input) False True]
       (encodeApproveChecked amount (ap_decimals input))))"

definition buildRevokeDelegateInstruction ::
  "web3 \<Rightarrow> address \<Rightarrow> address \<Rightarrow> TokenProgram \<Rightarrow> ChainPayInstruction result" where
  "buildRevokeDelegateInstruction W sourceTokenAccount owner tokenProgram =
     instruction W ''revoke_delegate'' (tokenProgramAddress tokenProgram)
       [meta W sourceTokenAccount True False, meta W owner False True]
       (Inr encodeRevokeDelegate)"

definition buildCreateMandateTransaction ::
  "web3 \<Rightarrow> bytes \<Rightarrow> CreateMandateInput \<Rightarrow> address \<Rightarrow> address \<Rightarrow> jsnum option \<Rightarrow> PreparedMandate result" where
  "buildCreateMandateTransaction W kp input owner programId decimals =
     bindR (normalizedMandateNonce W kp input) (\<lambda>mandateNonce.
     let normalizedInput = input\<lparr>ci_mandateNonce := Some mandateNonce\<rparr> in
     bindR (validateMandateInput W kp normalizedInput) (\<lambda>_.
     bindR (deriveVersionedMandateAddress W owner (ci_allowedMint input) mandateNonce programId) (\<lambda>mandateAddress.
     bindR (fetch decimals ''Token decimals are required to prepare delegate approval'') (\<lambda>dec.
     bindR (buildCreateMandateInstruction W kp normalizedInput owner programId) (\<lambda>create.
     bindR (buildApproveDelegateInstruction W
              \<lparr>ap_sourceTokenAccount = ci_sourceTokenAccount normalizedInput,
               ap_allowedMint = ci_allowedMint normalizedInput,
               ap_tokenProgram = ci_tokenProgram normalizedInput,
               ap_totalLimit = ci_totalLimit normalizedInput, ap_owner = owner,
               ap_mandate = Some mandateAddress,
               ap_delegateAmount = ci_delegateAmount normalizedInput, ap_decimals = dec\<rparr>) (\<lambda>approve.
     bindR (deriveConfigAddress W programId) (\<lambda>config.
     Inr \<lparr>pmd_mandateAddress = mandateAddress, pmd_configAddress = config,
          pmd_transaction = \<lparr>tx_instructions = [create, approve], tx_requiredSigners = [owner],
            tx_feePayer = Some owner\<rparr>\<rparr>)))))))"

text \<open>\<open>mandateAddress ?? deriveMandateAddress(owner, programId)\<close>\<close>

definition owner_mandate :: "web3 \<Rightarrow> address \<Rightarrow> address \<Rightarrow> address option \<Rightarrow> address result" where
  "owner_mandate W owner programId mandateAddress = (case mandateAddress of
     Some a \<Rightarrow> Inr a | None \<Rightarrow> deriveMandateAddress W owner programId None)"

definition buildUpdateMandateInstruction ::
  "web3 \<Rightarrow> UpdateMandateInput \<Rightarrow> address \<Rightarrow> address \<Rightarrow> address option \<Rightarrow> ChainPayInstruction result" where
  "buildUpdateMandateInstruction W input owner programId mandateAddress =
     bindR (publicKey W owner) (\<lambda>_.
     bindR (publicKey W (up_approvedAgent input)) (\<lambda>_.
     bindR (writeU64 (up_maxPerPayment input) ''maxPerPayment'') (\<lambda>_.
     bindR (writeU64 (up_totalLimit input) ''totalLimit'') (\<lambda>_.
     bindR (writeU64 (up_expiresAtSlot input) ''expiresAtSlot'') (\<lambda>_.
     bindR (writeU64 (up_maxPaymentCount input) ''maxPaymentCount'') (\<lambda>_.
     bindR (writeU64 (up_cooldownSlots input) ''cooldownSlots'') (\<lambda>_.
     bindR (require (\<not> up_maxPerPayment input \<le> 0) ''maxPerPayment must be positive'') (\<lambda>_.
     bindR (require (\<not> up_totalLimit input < up_maxPerPayment input) ''totalLimit must cover maxPerPayment'') (\<lambda>_.
     instruction W ''update_mandate'' programId
       [bindR (owner_mandate W owner programId mandateAddress) (\<lambda>a. meta W a True False),
        meta W owner False True]
       (encodeUpdateMandate W input))))))))))"

definition buildPauseMandateInstruction ::
  "web3 \<Rightarrow> address \<Rightarrow> address \<Rightarrow> address option \<Rightarrow> ChainPayInstruction result" where
  "buildPauseMandateInstruction W owner programId mandateAddress =
     instruction W ''pause_mandate'' programId
       [bindR (owner_mandate W owner programId mandateAddress) (\<lambda>a. meta W a True False),
        meta W owner False True]
       (Inr encodePauseMandate)"

definition buildRevokeMandateInstruction ::
  "web3 \<Rightarrow> address \<Rightarrow> address \<Rightarrow> address option \<Rightarrow> ChainPayInstruction result" where
  "buildRevokeMandateInstruction W owner programId mandateAddress =
     instruction W ''revoke_mandate'' programId
       [bindR (owner_mandate W owner programId mandateAddress) (\<lambda>a. meta W a True False),
        meta W owner False True]
       (Inr encodeRevokeMandate)"

section \<open>The program's view of the instruction data\<close>

text \<open>Borsh encodings of the handler arguments (\<open>instructions/create_mandate.rs\<close>, \<open>update_mandate.rs\<close>).\<close>

definition ser_MandateParams :: "MandateParams \<Rightarrow> bytes" where
  "ser_MandateParams p = mp_approved_agent p @ mp_source_token_account p @ mp_allowed_mint p
     @ ser_u64 (mp_max_per_payment p) @ ser_u64 (mp_total_limit p) @ ser_u64 (mp_expires_at_slot p)
     @ ser_u64 (mp_max_payment_count p) @ ser_u64 (mp_cooldown_slots p) @ mp_mandate_nonce p"

definition ser_MandateUpdate :: "MandateUpdate \<Rightarrow> bytes" where
  "ser_MandateUpdate p = mu_approved_agent p
     @ ser_u64 (mu_max_per_payment p) @ ser_u64 (mu_total_limit p) @ ser_u64 (mu_expires_at_slot p)
     @ ser_u64 (mu_max_payment_count p) @ ser_u64 (mu_cooldown_slots p) @ ser_bool (mu_paused p)"

section \<open>Lemmas\<close>

lemma ser_u64_of_int [simp]: "u64_ok v \<Longrightarrow> ser_u64 (word_of_int v) = le_bytes 8 v"
  by (simp add: ser_u64_def u64_ok_def uint_word_of_int)

lemma uint_u64_of_int [simp]: "u64_ok v \<Longrightarrow> uint (word_of_int v :: u64) = v"
  by (simp add: u64_ok_def uint_word_of_int)

lemma length_nonce_prefix [simp]: "length MANDATE_NONCE_PREFIX = 8"
  by (simp add: MANDATE_NONCE_PREFIX_def)

lemma createMandateNonce_bytes:
  assumes "web3_ok W" and "length kp = 32"
  shows "publicKey W (createMandateNonce W kp) = Inr (MANDATE_NONCE_PREFIX @ drop 8 kp)"
  using assms by (simp add: createMandateNonce_def set_at_def)

lemma normalizedMandateNonce_fresh:
  assumes "web3_ok W" and "length kp = 32" and "ci_mandateNonce input = None"
  shows "normalizedMandateNonce W kp input = Inr (createMandateNonce W kp)"
proof -
  let ?b = "MANDATE_NONCE_PREFIX @ drop 8 kp"
  have len: "length ?b = 32" using assms(2) by simp
  have nonce: "createMandateNonce W kp = to_base58 W ?b"
    using assms(2) by (simp add: createMandateNonce_def set_at_def)
  have "is_mandate_nonce ?b" by (simp add: is_mandate_nonce_def)
  then have "isMandateNonce W (createMandateNonce W kp) = Inr True"
    using isMandateNonce_base58 [OF assms(1) len] nonce by simp
  with createMandateNonce_bytes [OF assms(1,2)] assms(3) show ?thesis
    by (simp add: normalizedMandateNonce_def Let_def)
qed

lemma isMandateNonce_bytes:
  assumes "publicKey W v = Inr b" and "length b = 32"
  shows "isMandateNonce W v = Inr (is_mandate_nonce b)"
proof -
  have "length MANDATE_NONCE_PREFIX \<le> length b"
    using assms(2) by simp
  with assms show ?thesis
    using take_eq_iff_nth [of MANDATE_NONCE_PREFIX b]
    by (auto simp: isMandateNonce_def is_mandate_nonce_def list_all_iff)
qed

lemma normalizedMandateNonce_key:
  assumes W: "web3_ok W" and eq: "normalizedMandateNonce W kp i = Inr n"
  obtains b where "publicKey W n = Inr b" "length b = 32" "is_mandate_nonce b"
proof -
  from eq obtain b where b: "publicKey W n = Inr b" "isMandateNonce W n = Inr True"
    by (auto simp: normalizedMandateNonce_def result_simps Let_def)
  with publicKey_length [OF W b(1)] isMandateNonce_bytes [OF b(1)] that show thesis by simp
qed

text \<open>\<open>validateMandateInput\<close> as one condition.\<close>

definition mandate_input_ok :: "CreateMandateInput \<Rightarrow> bool" where
  "mandate_input_ok i \<longleftrightarrow> u64_ok (ci_maxPerPayment i) \<and> u64_ok (ci_totalLimit i) \<and>
     u64_ok (ci_expiresAtSlot i) \<and> u64_ok (ci_maxPaymentCount i) \<and> u64_ok (ci_cooldownSlots i) \<and>
     0 < ci_maxPerPayment i \<and> ci_maxPerPayment i \<le> ci_totalLimit i \<and> 0 < ci_expiresAtSlot i \<and>
     (case ci_delegateAmount i of None \<Rightarrow> True | Some a \<Rightarrow> u64_ok a \<and> 0 < a)"

lemma validateMandateInput_ok_iff:
  "validateMandateInput W kp i = Inr () \<longleftrightarrow>
     is_ok (publicKey W (ci_approvedAgent i)) \<and> is_ok (publicKey W (ci_sourceTokenAccount i)) \<and>
     is_ok (publicKey W (ci_allowedMint i)) \<and> is_ok (normalizedMandateNonce W kp i) \<and>
     mandate_input_ok i"
  by (cases "ci_delegateAmount i")
     (auto simp: validateMandateInput_def mandate_input_ok_def is_ok_iff result_simps writeU64_eq_Inr)

lemma concatR_keys_u64:
  "concatR (publicKey W a # ps) = Inr bs \<longleftrightarrow>
     (\<exists>k rest. publicKey W a = Inr k \<and> concatR ps = Inr rest \<and> bs = k @ rest)"
  "concatR (writeU64 v n # ps) = Inr bs \<longleftrightarrow>
     u64_ok v \<and> (\<exists>rest. concatR ps = Inr rest \<and> bs = le_bytes 8 v @ rest)"
  "concatR (Inr b # ps) = Inr bs \<longleftrightarrow> (\<exists>rest. concatR ps = Inr rest \<and> bs = b @ rest)"
  by (auto simp: concatR_eq_Inr_Cons writeU64_eq_Inr)

definition params_of :: "bytes \<Rightarrow> bytes \<Rightarrow> bytes \<Rightarrow> CreateMandateInput \<Rightarrow> bytes \<Rightarrow> MandateParams" where
  "params_of agent source mint i nonce =
     \<lparr>mp_approved_agent = agent, mp_source_token_account = source, mp_allowed_mint = mint,
      mp_max_per_payment = word_of_int (ci_maxPerPayment i), mp_total_limit = word_of_int (ci_totalLimit i),
      mp_expires_at_slot = word_of_int (ci_expiresAtSlot i),
      mp_max_payment_count = word_of_int (ci_maxPaymentCount i),
      mp_cooldown_slots = word_of_int (ci_cooldownSlots i), mp_mandate_nonce = nonce\<rparr>"

lemma encodeCreateMandate_ser:
  assumes "encodeCreateMandate W (create_data i n) = Inr d"
  obtains agent source mint nonce where
    "publicKey W (ci_approvedAgent i) = Inr agent" "publicKey W (ci_sourceTokenAccount i) = Inr source"
    "publicKey W (ci_allowedMint i) = Inr mint" "publicKey W n = Inr nonce"
    "d = DISC_createMandate @ ser_MandateParams (params_of agent source mint i nonce)"
  using assms
  by (auto simp: encodeCreateMandate_def create_data_def concatR_keys_u64 ser_MandateParams_def params_of_def)

lemma validate_params_of:
  assumes "mandate_input_ok i" and "is_mandate_nonce nonce"
  shows "validate_mandate_params (params_of agent source mint i nonce) slot = Inr () \<longleftrightarrow>
     agent \<noteq> default_key \<and> source \<noteq> default_key \<and> mint \<noteq> default_key \<and> uint slot < ci_expiresAtSlot i"
proof -
  have ok: "u64_ok (ci_maxPerPayment i)" "u64_ok (ci_totalLimit i)" "u64_ok (ci_expiresAtSlot i)"
    "0 < ci_maxPerPayment i" "ci_maxPerPayment i \<le> ci_totalLimit i"
    using assms(1) by (auto simp: mandate_input_ok_def)
  have "nonce \<noteq> default_key"
    using assms(2) by (auto simp: is_mandate_nonce_def default_key_def MANDATE_NONCE_PREFIX_def)
  moreover have "(word_of_int (ci_maxPaymentCount i) :: u64) = 0 \<or> 1 \<le> (word_of_int (ci_maxPaymentCount i) :: u64)"
    by (metis word_less_1 linorder_not_le)
  ultimately show ?thesis
    using assms(2) ok
    by (auto simp: validate_mandate_params_def params_of_def result_simps word_le_def word_less_def)
qed

section \<open>Properties\<close>

lemma build_create_data:
  assumes "buildCreateMandateInstruction W kp i owner programId = Inr ix"
  obtains n where "normalizedMandateNonce W kp i = Inr n"
    "validateMandateInput W kp (i\<lparr>ci_mandateNonce := Some n\<rparr>) = Inr ()"
    "encodeCreateMandate W (create_data i n) = Inr (ix_data ix)"
  using assms
  by (auto simp: buildCreateMandateInstruction_def result_simps Let_def instruction_eq_Inr create_data_def)

text \<open>
  C17. What \<open>buildCreateMandateInstruction\<close> emits is the \<open>create_mandate\<close> discriminator followed by the
  Borsh encoding of the handler's arguments with exactly the input's values, with a nonce that
  carries the ChainPay prefix. The program's own argument check then passes if and only if the
  agent, source and mint keys are not the zero key and the expiry is still in the future: every
  other condition of the program was already enforced by \<open>validateMandateInput\<close>.
\<close>

theorem created_mandate_passes_program_checks:
  assumes W: "web3_ok W" and build: "buildCreateMandateInstruction W kp i owner programId = Inr ix"
  shows "\<exists>agent source mint nonce.
     publicKey W (ci_approvedAgent i) = Inr agent \<and> publicKey W (ci_sourceTokenAccount i) = Inr source \<and>
     publicKey W (ci_allowedMint i) = Inr mint \<and> is_mandate_nonce nonce \<and>
     ix_data ix = DISC_createMandate @ ser_MandateParams (params_of agent source mint i nonce) \<and>
     (\<forall>slot. validate_mandate_params (params_of agent source mint i nonce) slot = Inr () \<longleftrightarrow>
        agent \<noteq> default_key \<and> source \<noteq> default_key \<and> mint \<noteq> default_key \<and> uint slot < ci_expiresAtSlot i)"
  using build
proof (rule build_create_data)
  fix n assume n: "normalizedMandateNonce W kp i = Inr n"
    and valid: "validateMandateInput W kp (i\<lparr>ci_mandateNonce := Some n\<rparr>) = Inr ()"
    and enc: "encodeCreateMandate W (create_data i n) = Inr (ix_data ix)"
  from valid have ok: "mandate_input_ok i"
    by (simp add: validateMandateInput_ok_iff mandate_input_ok_def)
  from n obtain b where b: "publicKey W n = Inr b" "is_mandate_nonce b"
    by (rule normalizedMandateNonce_key [OF W])
  from enc show ?thesis
  proof (rule encodeCreateMandate_ser)
    fix agent source mint nonce
    assume "publicKey W (ci_approvedAgent i) = Inr agent" "publicKey W (ci_sourceTokenAccount i) = Inr source"
      "publicKey W (ci_allowedMint i) = Inr mint" "publicKey W n = Inr nonce"
      "ix_data ix = DISC_createMandate @ ser_MandateParams (params_of agent source mint i nonce)"
    with b validate_params_of [OF ok] show ?thesis by (intro exI conjI allI) auto
  qed
qed

definition sample_input :: CreateMandateInput where
  "sample_input = \<lparr>ci_approvedAgent = to_base58 sample_web3 (replicate 32 2),
     ci_sourceTokenAccount = to_base58 sample_web3 (replicate 32 3),
     ci_allowedMint = to_base58 sample_web3 (replicate 32 4), ci_maxPerPayment = 100, ci_totalLimit = 1000,
     ci_expiresAtSlot = 900, ci_maxPaymentCount = 0, ci_cooldownSlots = 5, ci_tokenProgram = SplToken,
     ci_delegateAmount = Some 500, ci_mandateNonce = None\<rparr>"

lemma sample_nonce: "normalizedMandateNonce sample_web3 (replicate 32 7) sample_input
    = Inr (createMandateNonce sample_web3 (replicate 32 7))"
  by (rule normalizedMandateNonce_fresh) (simp_all add: sample_input_def)

lemma normalizedMandateNonce_idem:
  "normalizedMandateNonce W kp i = Inr n \<Longrightarrow> normalizedMandateNonce W kp' (i\<lparr>ci_mandateNonce := Some n\<rparr>) = Inr n"
  by (auto simp: normalizedMandateNonce_def result_simps Let_def)

lemma sample_create:
  "\<exists>ix. buildCreateMandateInstruction sample_web3 (replicate 32 7) sample_input
      (to_base58 sample_web3 (replicate 32 1)) DEFAULT_PROGRAM_ID = Inr ix"
proof -
  let ?n = "createMandateNonce sample_web3 (replicate 32 7)"
  have n: "normalizedMandateNonce sample_web3 kp (sample_input\<lparr>ci_mandateNonce := Some ?n\<rparr>) = Inr ?n" for kp
    by (rule normalizedMandateNonce_idem [OF sample_nonce])
  have key: "publicKey sample_web3 ?n = Inr (MANDATE_NONCE_PREFIX @ drop 8 (replicate 32 7))"
    by (rule createMandateNonce_bytes) simp_all
  have valid: "validateMandateInput sample_web3 kp (sample_input\<lparr>ci_mandateNonce := Some ?n\<rparr>) = Inr ()" for kp
    unfolding validateMandateInput_ok_iff n by (simp add: sample_input_def mandate_input_ok_def u64_ok_def)
  show ?thesis
    unfolding buildCreateMandateInstruction_def sample_nonce bindR_Inr Let_def valid
    by (simp add: sample_input_def instruction_def deriveConfigAddress_def deriveAssetAddress_def
        deriveVersionedMandateAddress_def pda_def meta_def address_def systemProgramMeta_def key
        encodeCreateMandate_def create_data_def concatR_def writeU64_def)
qed

theorem created_mandate_passes_program_checks_witness:
  "\<exists>ix. buildCreateMandateInstruction sample_web3 (replicate 32 7) sample_input
      (to_base58 sample_web3 (replicate 32 1)) DEFAULT_PROGRAM_ID = Inr ix \<and>
     (\<exists>p. ix_data ix = DISC_createMandate @ ser_MandateParams p \<and>
        (\<forall>slot. uint slot < 900 \<longrightarrow> validate_mandate_params p slot = Inr ()))"
proof -
  obtain ix where ix: "buildCreateMandateInstruction sample_web3 (replicate 32 7) sample_input
      (to_base58 sample_web3 (replicate 32 1)) DEFAULT_PROGRAM_ID = Inr ix"
    using sample_create by blast
  from created_mandate_passes_program_checks [OF sample_web3_ok ix] ix show ?thesis
    by (auto simp: sample_input_def default_key_def)
qed

text \<open>
  \<open>validateMandateInput\<close> accepts an input if and only if its three addresses and its nonce are
  well formed, every amount fits in an unsigned 64-bit integer, the per-payment limit is positive
  and covered by the total limit, the expiry is positive, and a delegate amount, when given, is
  positive.
\<close>

theorem mandate_validation_exact:
  "validateMandateInput W kp i = Inr () \<longleftrightarrow>
     is_ok (publicKey W (ci_approvedAgent i)) \<and> is_ok (publicKey W (ci_sourceTokenAccount i)) \<and>
     is_ok (publicKey W (ci_allowedMint i)) \<and> is_ok (normalizedMandateNonce W kp i) \<and>
     u64_ok (ci_maxPerPayment i) \<and> u64_ok (ci_totalLimit i) \<and> u64_ok (ci_expiresAtSlot i) \<and>
     u64_ok (ci_maxPaymentCount i) \<and> u64_ok (ci_cooldownSlots i) \<and>
     0 < ci_maxPerPayment i \<and> ci_maxPerPayment i \<le> ci_totalLimit i \<and> 0 < ci_expiresAtSlot i \<and>
     (case ci_delegateAmount i of None \<Rightarrow> True | Some a \<Rightarrow> u64_ok a \<and> 0 < a)"
  unfolding validateMandateInput_ok_iff mandate_input_ok_def ..

text \<open>
  A freshly generated nonce always works: with no nonce given and 32 random bytes,
  \<open>normalizedMandateNonce\<close> returns the generated address, whose bytes are the ChainPay prefix
  followed by the last 24 random bytes.
\<close>

theorem fresh_nonce_accepted:
  assumes "web3_ok W" and "length kp = 32" and "ci_mandateNonce i = None"
  shows "normalizedMandateNonce W kp i = Inr (createMandateNonce W kp) \<and>
     publicKey W (createMandateNonce W kp) = Inr (MANDATE_NONCE_PREFIX @ drop 8 kp)"
  using normalizedMandateNonce_fresh [OF assms] createMandateNonce_bytes [OF assms(1,2)] by simp

theorem fresh_nonce_accepted_witness:
  "normalizedMandateNonce sample_web3 (replicate 32 7) sample_input
     = Inr (createMandateNonce sample_web3 (replicate 32 7))"
  using fresh_nonce_accepted [of sample_web3 "replicate 32 7" sample_input] by (simp add: sample_input_def)

end
