(* ===== verification/Payment.thy ===== *)
theory Payment
  imports Mandate
begin

text \<open>
  \<open>sdk/src/payment.ts\<close>: preparing a payment, building its instruction, and the preflight checks
  for one payment and for a batch. A check carries its name, its outcome and its message. The
  refinement properties compare preflight with the program's \<open>validate_payment\<close>: preflight accepts
  exactly what the program's policy accepts, and an accepted batch settles payment after payment.
\<close>

section \<open>Data\<close>

record PaymentRequest =
  q_mandate :: address
  q_invoiceHash :: bytes
  q_paymentId :: bytes
  q_signatureReference :: bytes
  q_mint :: address
  q_recipient :: address
  q_amount :: int
  q_tokenProgram :: "TokenProgram option"

record PolicyCheck =
  pc_name :: string
  pc_ok :: bool
  pc_message :: string

record PaymentPreflight =
  pf_valid :: bool
  pf_currentSlot :: int
  pf_checks :: "PolicyCheck list"

record BatchPreflightEntry =
  be_request :: PaymentRequest
  be_mandate :: Mandate
  be_agent :: "address option"
  be_receiptAlreadyExists :: "bool option"
  be_sourceContext :: "PaymentPreflightContext option"

record PreparedEntry =
  pe_request :: PaymentRequest
  pe_mandate :: address
  pe_preflight :: PaymentPreflight

record PaymentBatchPreflight =
  bp_valid :: bool
  bp_currentSlot :: int
  bp_entries :: "PreparedEntry list"
  bp_batchChecks :: "PolicyCheck list"

definition DUPLICATE_INVOICE_MESSAGE :: string where
  "DUPLICATE_INVOICE_MESSAGE = ''This invoice was already paid. Nothing new was submitted.''"

definition isReceiptAlreadyInUse :: "string \<Rightarrow> address \<Rightarrow> bool" where
  "isReceiptAlreadyInUse message receiptAddress =
     (str_includes message ''already in use'' \<and> str_includes message receiptAddress)"

section \<open>Preparing and building\<close>

text \<open>\<open>remaining\<close> is the length of the caller's \<open>remainingAccounts\<close>, when it passed any.\<close>

definition preparePayment :: "web3 \<Rightarrow> PaymentRequest \<Rightarrow> nat option \<Rightarrow> PaymentRequest result" where
  "preparePayment W input remaining =
     bindR (publicKey W (q_mandate input)) (\<lambda>_.
     bindR (publicKey W (q_mint input)) (\<lambda>_.
     bindR (publicKey W (q_recipient input)) (\<lambda>_.
     bindR (require (remaining = None \<or> remaining = Some 0)
       ''Caller-supplied remainingAccounts are not accepted; ChainPay must resolve extension accounts from verified on-chain state'') (\<lambda>_.
     bindR (bytes32 (q_invoiceHash input) ''invoiceHash'') (\<lambda>_.
     bindR (bytes32 (q_paymentId input) ''paymentId'') (\<lambda>_.
     bindR (bytes32 (q_signatureReference input) ''signatureReference'') (\<lambda>_.
     bindR (require (length (q_invoiceHash input) = 32) ''invoiceHash must be 32 bytes'') (\<lambda>_.
     bindR (require (length (q_paymentId input) = 32) ''paymentId must be 32 bytes'') (\<lambda>_.
     bindR (require (length (q_signatureReference input) = 32) ''signatureReference must be 32 bytes'') (\<lambda>_.
     bindR (require (\<not> q_amount input \<le> 0) ''amount must be positive'') (\<lambda>_.
     Inr input)))))))))))"

definition buildExecutePaymentInstruction ::
  "web3 \<Rightarrow> PaymentRequest \<Rightarrow> address \<Rightarrow> Mandate \<Rightarrow> address \<Rightarrow> ChainPayInstruction result" where
  "buildExecutePaymentInstruction W request agent mandate programId =
     bindR (publicKey W agent) (\<lambda>_.
     bindR (address W (q_mandate request)) (\<lambda>requested.
     bindR (require (requested = m_address mandate)
       ''Payment request mandate does not match the loaded mandate'') (\<lambda>_.
     bindR (fetch (case q_tokenProgram request of Some p \<Rightarrow> Some p | None \<Rightarrow> m_tokenProgram mandate)
       ''Token program is required to build an execute_payment instruction'') (\<lambda>tokenProgram.
     instruction W ''execute_payment'' programId
       [bindR (deriveConfigAddress W programId) (\<lambda>a. meta W a False False),
        bindR (deriveAssetAddress W (m_allowedMint mandate) programId) (\<lambda>a. meta W a False False),
        meta W (m_address mandate) True False,
        bindR (deriveReceiptAddress W (m_address mandate) (q_invoiceHash request) programId)
          (\<lambda>a. meta W a True False),
        meta W agent True True,
        meta W (q_mint request) False False,
        meta W (m_sourceTokenAccount mandate) True False,
        meta W (q_recipient request) True False,
        meta W (tokenProgramAddress tokenProgram) False False,
        meta W SYSTEM_PROGRAM_ID False False]
       (encodePayment (q_invoiceHash request) (q_paymentId request) (q_signatureReference request)
          (q_amount request))))))"

definition preparedPaymentTransaction :: "ChainPayInstruction \<Rightarrow> address \<Rightarrow> PreparedTransaction" where
  "preparedPaymentTransaction instructionData agent =
     \<lparr>tx_instructions = [instructionData], tx_requiredSigners = [agent], tx_feePayer = Some agent\<rparr>"

section \<open>Preflight\<close>

definition check :: "string \<Rightarrow> bool \<Rightarrow> string \<Rightarrow> PolicyCheck" where
  "check name ok message = \<lparr>pc_name = name, pc_ok = ok, pc_message = message\<rparr>"

text \<open>\<open>check(name, c, c ? yes : no)\<close>\<close>

definition check2 :: "string \<Rightarrow> bool \<Rightarrow> string \<Rightarrow> string \<Rightarrow> PolicyCheck" where
  "check2 name c yes no = check name c (if c then yes else no)"

fun status_text :: "MandateStatus \<Rightarrow> string" where
  "status_text Active = ''active''"
| "status_text Paused = ''paused''"
| "status_text Revoked = ''revoked''"
| "status_text Expired = ''expired''"

definition some_nonzero :: "bytes \<Rightarrow> bool" where
  "some_nonzero b = list_ex (\<lambda>x. x \<noteq> 0) b"

definition sourceAccountChecks ::
  "web3 \<Rightarrow> PaymentRequest \<Rightarrow> Mandate \<Rightarrow> PaymentPreflightContext \<Rightarrow> PolicyCheck list result" where
  "sourceAccountChecks W request mandate context =
     bindR (address W (sourceOwner context)) (\<lambda>owner.
     bindR (case delegate context of None \<Rightarrow> Inr False
            | Some d \<Rightarrow> bindR (address W d) (\<lambda>a. Inr (a = m_address mandate))) (\<lambda>delegated.
     Inr
      [check2 ''source_owner'' (owner = m_owner mandate)
         ''Source token account owner matches the mandate owner''
         ''Source token account owner does not match the mandate owner'',
       check2 ''source_balance'' (q_amount request \<le> sourceBalance context)
         ''Source token account balance covers this payment''
         ''Source token account balance is insufficient for this payment'',
       check2 ''delegate_identity'' delegated
         ''Source token account delegates spending authority to this mandate''
         ''Source token account is not delegated to this mandate'',
       check2 ''delegated_amount'' (delegatedAmount context > 0 \<and> q_amount request \<le> delegatedAmount context)
         ''Remaining delegated allowance covers this payment''
         (if delegatedAmount context \<le> 0 then ''Source token account has no remaining delegated allowance''
          else ''Payment exceeds the remaining delegated allowance'')]))"

definition preflightPayment ::
  "web3 \<Rightarrow> PaymentRequest \<Rightarrow> Mandate \<Rightarrow> int \<Rightarrow> address option \<Rightarrow> bool \<Rightarrow> PaymentPreflightContext option
     \<Rightarrow> PaymentPreflight result" where
  "preflightPayment W request mandate currentSlot agent receiptAlreadyExists sourceContext =
     bindR (case agent of None \<Rightarrow> Inr True
            | Some g \<Rightarrow> bindR (address W g) (\<lambda>a. Inr (a = m_approvedAgent mandate))) (\<lambda>agentOk.
     bindR (address W (q_mint request)) (\<lambda>mint.
     bindR (address W (q_recipient request)) (\<lambda>recipient.
     bindR (case sourceContext of None \<Rightarrow> Inr []
            | Some context \<Rightarrow> sourceAccountChecks W request mandate context) (\<lambda>sourceChecks.
     let checks =
      [check ''mandate_status'' (m_status mandate = Active)
         (if m_status mandate = Active then ''Mandate is active''
          else ''Mandate is '' @ status_text (m_status mandate)),
       check2 ''approved_agent'' agentOk
         ''Payment agent matches the mandate'' ''Payment agent does not match the mandate'',
       check2 ''mint'' (mint = m_allowedMint mandate)
         ''Payment mint matches the mandate'' ''Payment mint does not match the mandate'',
       check2 ''recipient'' (recipient \<noteq> SYSTEM_PROGRAM_ID)
         ''Payment recipient is specified for this request'' ''Payment recipient must be specified'',
       check2 ''amount_positive'' (q_amount request > 0)
         ''Payment amount is positive'' ''Payment amount must be positive'',
       check2 ''per_payment_limit'' (q_amount request \<le> m_maxPerPayment mandate)
         ''Payment is within the per-payment limit'' ''Payment exceeds the per-payment limit'',
       check2 ''total_limit''
         (q_amount request \<ge> 0 \<and> m_amountSpent mandate + q_amount request \<le> m_totalLimit mandate)
         ''Payment is within the total spend limit'' ''Payment exceeds the total spend limit'',
       check2 ''payment_count_limit''
         (m_maxPaymentCount mandate = 0 \<or> m_paymentCount mandate + 1 \<le> m_maxPaymentCount mandate)
         ''Payment is within the payment-count limit'' ''Payment exceeds the payment-count limit'',
       check2 ''cooldown''
         (m_lastPaymentSlot mandate = 0 \<or> currentSlot \<ge> m_lastPaymentSlot mandate + m_cooldownSlots mandate)
         ''Mandate cooldown has elapsed'' ''Mandate cooldown is still active'',
       check2 ''expiry'' (m_expiresAtSlot mandate > currentSlot)
         ''Mandate has not expired'' ''Mandate has expired'',
       check2 ''invoice_hash'' (some_nonzero (q_invoiceHash request))
         ''Invoice hash is non-zero'' ''Invoice hash must not be all zeroes'',
       check2 ''payment_id'' (some_nonzero (q_paymentId request))
         ''Payment ID is non-zero'' ''Payment ID must not be all zeroes'',
       check2 ''signature_reference'' (some_nonzero (q_signatureReference request))
         ''Signature reference is non-zero'' ''Signature reference must not be all zeroes'',
       check2 ''duplicate_invoice'' (\<not> receiptAlreadyExists)
         ''No receipt exists for this invoice hash''
         ''This invoice hash already has a receipt under the mandate'',
       check2 ''token_program''
         (q_tokenProgram request = None \<or> m_tokenProgram mandate = None
          \<or> q_tokenProgram request = m_tokenProgram mandate)
         ''Token program matches the loaded mandate context''
         ''Token program does not match the source token account'']
      @ sourceChecks
     in Inr \<lparr>pf_valid = list_all pc_ok checks, pf_currentSlot = currentSlot, pf_checks = checks\<rparr>))))"

definition batchChecksForMandateGroup :: "BatchPreflightEntry list \<Rightarrow> Mandate \<Rightarrow> PolicyCheck list" where
  "batchChecksForMandateGroup entryGroup mandate =
     (let totalAmount = foldl (\<lambda>total entry. total + q_amount (be_request entry)) 0 entryGroup;
          checks =
      [check2 ''batch_total_limit'' (m_amountSpent mandate + totalAmount \<le> m_totalLimit mandate)
         ''Batch total is within the mandate spending limit''
         ''Together, these payments exceed the mandate total spending limit'',
       check2 ''batch_payment_count''
         (m_maxPaymentCount mandate = 0
          \<or> m_paymentCount mandate + int (length entryGroup) \<le> m_maxPaymentCount mandate)
         ''Batch size is within the mandate payment-count limit''
         ''Together, these payments exceed the mandate payment-count limit'',
       check2 ''batch_cooldown'' (length entryGroup \<le> 1 \<or> m_cooldownSlots mandate = 0)
         ''Batch respects the mandate cooldown policy''
         ''This mandate has a cooldown and can only settle once per atomic batch'']
      in case find (\<lambda>entry. be_sourceContext entry \<noteq> None) entryGroup of
        None \<Rightarrow> checks
      | Some entry \<Rightarrow> (case be_sourceContext entry of
          None \<Rightarrow> checks
        | Some context \<Rightarrow> checks @
           [check2 ''batch_source_balance'' (totalAmount \<le> sourceBalance context)
              ''Source token account balance covers the batch total''
              ''Source token account balance is insufficient for the batch total'',
            check2 ''batch_delegated_amount''
              (delegatedAmount context > 0 \<and> totalAmount \<le> delegatedAmount context)
              ''Remaining delegated allowance covers the batch total''
              (if delegatedAmount context \<le> 0
               then ''Source token account has no remaining delegated allowance for this batch''
               else ''Batch total exceeds the remaining delegated allowance'')]))"

text \<open>\<open>Map\<close> with insertion order: a new key is appended, a present one gets the entry pushed.\<close>

fun group_push :: "'k \<Rightarrow> 'e \<Rightarrow> ('k \<times> 'e list) list \<Rightarrow> ('k \<times> 'e list) list" where
  "group_push key entry [] = [(key, [entry])]"
| "group_push key entry ((k, entryGroup) # groups) =
     (if k = key then (k, entryGroup @ [entry]) # groups else (k, entryGroup) # group_push key entry groups)"

fun group_entries ::
  "web3 \<Rightarrow> (address \<times> BatchPreflightEntry list) list \<Rightarrow> BatchPreflightEntry list
     \<Rightarrow> (address \<times> BatchPreflightEntry list) list result" where
  "group_entries W groups [] = Inr groups"
| "group_entries W groups (entry # entries) =
     bindR (address W (m_address (be_mandate entry))) (\<lambda>key.
     group_entries W (group_push key entry groups) entries)"

definition prepare_entry :: "web3 \<Rightarrow> int \<Rightarrow> BatchPreflightEntry \<Rightarrow> PreparedEntry result" where
  "prepare_entry W currentSlot entry =
     bindR (address W (m_address (be_mandate entry))) (\<lambda>mandate.
     bindR (preflightPayment W (be_request entry) (be_mandate entry) currentSlot (be_agent entry)
              (case be_receiptAlreadyExists entry of Some b \<Rightarrow> b | None \<Rightarrow> False)
              (be_sourceContext entry)) (\<lambda>pf.
     Inr \<lparr>pe_request = be_request entry, pe_mandate = mandate, pe_preflight = pf\<rparr>))"

definition preflightPaymentBatch ::
  "web3 \<Rightarrow> BatchPreflightEntry list \<Rightarrow> int \<Rightarrow> PaymentBatchPreflight result" where
  "preflightPaymentBatch W entries currentSlot =
     bindR (mapR (prepare_entry W currentSlot) entries) (\<lambda>preparedEntries.
     bindR (group_entries W [] entries) (\<lambda>groups.
     let batchChecks = concat (map (\<lambda>(k, entryGroup). batchChecksForMandateGroup entryGroup (be_mandate (hd entryGroup))) groups)
     in Inr \<lparr>bp_valid = (list_all (\<lambda>e. pf_valid (pe_preflight e)) preparedEntries \<and> list_all pc_ok batchChecks),
             bp_currentSlot = currentSlot, bp_entries = preparedEntries, bp_batchChecks = batchChecks\<rparr>))"

section \<open>Preflight against the program's policy\<close>

definition payment_params :: "PaymentRequest \<Rightarrow> PaymentParams" where
  "payment_params r = \<lparr>pp_invoice_hash = q_invoiceHash r, pp_payment_id = q_paymentId r,
     pp_signature_reference = q_signatureReference r, pp_amount = word_of_int (q_amount r)\<rparr>"

definition request_wf :: "PaymentRequest \<Rightarrow> bool" where
  "request_wf r \<longleftrightarrow> length (q_invoiceHash r) = 32 \<and> length (q_paymentId r) = 32 \<and>
     length (q_signatureReference r) = 32 \<and> u64_ok (q_amount r)"

text \<open>What preflight asks beside the mandate's policy, on the decoded 32-byte keys.\<close>

definition parties_ok ::
  "web3 \<Rightarrow> PaymentRequest \<Rightarrow> PaymentMandate \<Rightarrow> TokenProgram option \<Rightarrow> address option \<Rightarrow> bool" where
  "parties_ok W r m tp agent \<longleftrightarrow>
     (case agent of None \<Rightarrow> True | Some g \<Rightarrow> publicKey W g = Inr (pm_approved_agent m)) \<and>
     publicKey W (q_mint r) = Inr (pm_allowed_mint m) \<and>
     publicKey W (q_recipient r) \<noteq> Inr default_key \<and>
     (q_tokenProgram r = None \<or> tp = None \<or> q_tokenProgram r = tp)"

definition source_ok ::
  "web3 \<Rightarrow> PaymentRequest \<Rightarrow> PaymentMandate \<Rightarrow> pubkey \<Rightarrow> PaymentPreflightContext \<Rightarrow> bool" where
  "source_ok W r m k ctx \<longleftrightarrow>
     publicKey W (sourceOwner ctx) = Inr (pm_owner m) \<and>
     q_amount r \<le> sourceBalance ctx \<and>
     (case delegate ctx of None \<Rightarrow> False | Some d \<Rightarrow> publicKey W d = Inr k) \<and>
     0 < delegatedAmount ctx \<and> q_amount r \<le> delegatedAmount ctx"

lemma pc_ok_check [simp]: "pc_ok (check n c t) = c" "pc_ok (check2 n c y z) = c"
  by (simp_all add: check_def check2_def)

lemma some_nonzero_iff: "length b = 32 \<Longrightarrow> some_nonzero b \<longleftrightarrow> b \<noteq> zero32"
  using replicate_length_same [of b 0] by (auto simp: some_nonzero_def list_ex_iff zero32_def)

lemma address_is_key:
  assumes "web3_ok W" and "address W v = Inr a" and "length k = 32"
  shows "a = to_base58 W k \<longleftrightarrow> publicKey W v = Inr k"
  using assms publicKey_length [OF assms(1)] base58_inject [OF assms(1)]
  by (auto simp: address_eq_Inr)

lemma address_base58_iff:
  assumes "web3_ok W" and "length k = 32"
  shows "address W v = Inr (to_base58 W k) \<longleftrightarrow> publicKey W v = Inr k"
  using assms publicKey_length [OF assms(1)] base58_inject [OF assms(1)]
  by (auto simp: address_eq_Inr)

lemma address_is_system:
  assumes "web3_ok W" and "address W v = Inr a"
  shows "a = SYSTEM_PROGRAM_ID \<longleftrightarrow> publicKey W v = Inr default_key"
  using address_is_key [OF assms, of default_key] base58_default [OF assms(1)]
  by (simp add: default_key_def)

lemma sourceAccountChecks_ok:
  assumes W: "web3_ok W" and wf: "mandate_wf m" "length k = 32"
    and eq: "sourceAccountChecks W r (mandate_view W m (to_base58 W k) slot tp) ctx = Inr cs"
  shows "list_all pc_ok cs \<longleftrightarrow> source_ok W r m k ctx"
proof -
  have "length (pm_owner m) = 32" using wf by (simp add: mandate_wf_def)
  note keys = address_is_key [OF W _ this] address_is_key [OF W _ wf(2)]
  show ?thesis
    using eq
    by (cases "delegate ctx")
       (auto simp: sourceAccountChecks_def result_simps source_ok_def mandate_view_def Let_def keys)
qed

text \<open>The mandate-policy part of preflight, on integers.\<close>

definition policy_ok :: "PaymentRequest \<Rightarrow> Mandate \<Rightarrow> int \<Rightarrow> bool" where
  "policy_ok r m slot \<longleftrightarrow> m_status m = Active \<and> 0 < q_amount r \<and> q_amount r \<le> m_maxPerPayment m \<and>
     m_amountSpent m + q_amount r \<le> m_totalLimit m \<and>
     (m_maxPaymentCount m = 0 \<or> m_paymentCount m + 1 \<le> m_maxPaymentCount m) \<and>
     (m_lastPaymentSlot m = 0 \<or> m_lastPaymentSlot m + m_cooldownSlots m \<le> slot) \<and>
     slot < m_expiresAtSlot m \<and>
     some_nonzero (q_invoiceHash r) \<and> some_nonzero (q_paymentId r) \<and> some_nonzero (q_signatureReference r)"

lemma preflightPayment_success:
  assumes "preflightPayment W r M slot agent dup ctx = Inr pf"
  obtains agentOk mint recipient cs where
    "(case agent of None \<Rightarrow> Inr True
      | Some g \<Rightarrow> bindR (address W g) (\<lambda>a. Inr (a = m_approvedAgent M))) = Inr agentOk"
    "address W (q_mint r) = Inr mint" "address W (q_recipient r) = Inr recipient"
    "(case ctx of None \<Rightarrow> Inr [] | Some x \<Rightarrow> sourceAccountChecks W r M x) = Inr cs"
    "pf_valid pf \<longleftrightarrow> policy_ok r M slot \<and> agentOk \<and> mint = m_allowedMint M \<and>
       recipient \<noteq> SYSTEM_PROGRAM_ID \<and> \<not> dup \<and>
       (q_tokenProgram r = None \<or> m_tokenProgram M = None \<or> q_tokenProgram r = m_tokenProgram M) \<and>
       list_all pc_ok cs"
  using assms unfolding preflightPayment_def bindR_eq_Inr Let_def
  by (elim exE conjE) (rule that, assumption, assumption, assumption, assumption,
    simp add: policy_ok_def, drule sym, simp, rule iffI; elim conjE; intro conjI; (assumption | simp))

lemma preflightPayment_valid:
  assumes W: "web3_ok W" and wf: "mandate_wf m" "length k = 32"
    and eq: "preflightPayment W r (mandate_view W m (to_base58 W k) s tp) slot agent dup ctx = Inr pf"
  shows "pf_valid pf \<longleftrightarrow> policy_ok r (mandate_view W m (to_base58 W k) s tp) slot \<and>
     parties_ok W r m tp agent \<and> \<not> dup \<and>
     (case ctx of None \<Rightarrow> True | Some x \<Rightarrow> source_ok W r m k x)"
proof -
  let ?m = "mandate_view W m (to_base58 W k) s tp"
  have lens: "length (pm_approved_agent m) = 32" "length (pm_allowed_mint m) = 32"
    using wf by (simp_all add: mandate_wf_def)
  note keys = address_is_key [OF W _ lens(1)] address_is_key [OF W _ lens(2)]
  have view: "m_approvedAgent ?m = to_base58 W (pm_approved_agent m)" "m_tokenProgram ?m = tp"
    "m_allowedMint ?m = to_base58 W (pm_allowed_mint m)"
    by (simp_all add: mandate_view_def Let_def)
  from eq obtain agentOk mint recipient cs where
    agent: "(case agent of None \<Rightarrow> Inr True
       | Some g \<Rightarrow> bindR (address W g) (\<lambda>a. Inr (a = m_approvedAgent ?m))) = Inr agentOk"
    and mint: "address W (q_mint r) = Inr mint" and recipient: "address W (q_recipient r) = Inr recipient"
    and cs: "(case ctx of None \<Rightarrow> Inr [] | Some x \<Rightarrow> sourceAccountChecks W r ?m x) = Inr cs"
    and valid: "pf_valid pf \<longleftrightarrow> policy_ok r ?m slot \<and> agentOk \<and>
       mint = to_base58 W (pm_allowed_mint m) \<and> recipient \<noteq> SYSTEM_PROGRAM_ID \<and> \<not> dup \<and>
       (q_tokenProgram r = None \<or> tp = None \<or> q_tokenProgram r = tp) \<and> list_all pc_ok cs"
    by (rule preflightPayment_success) (simp add: view)
  have "agentOk \<longleftrightarrow> (case agent of None \<Rightarrow> True | Some g \<Rightarrow> publicKey W g = Inr (pm_approved_agent m))"
    using agent by (cases agent) (auto simp: result_simps view keys address_base58_iff W lens)
  moreover have "list_all pc_ok cs \<longleftrightarrow> (case ctx of None \<Rightarrow> True | Some x \<Rightarrow> source_ok W r m k x)"
    using cs sourceAccountChecks_ok [OF W wf] by (cases ctx) auto
  ultimately show ?thesis
    using valid keys(2) [OF mint] address_is_system [OF W recipient] by (auto simp: parties_ok_def)
qed

lemma int_unat: "int (unat (a :: u64)) = uint a"
  by (rule uint_nat [symmetric])

lemma unat_uint_order:
  "unat (a :: u64) \<le> unat (b :: u64) \<longleftrightarrow> uint a \<le> uint b"
  "unat (a :: u64) < unat (b :: u64) \<longleftrightarrow> uint a < uint b"
  "unat (a :: u64) + unat (c :: u64) \<le> unat (b :: u64) \<longleftrightarrow> uint a + uint c \<le> uint b"
  "unat (a :: u64) + 1 \<le> unat (b :: u64) \<longleftrightarrow> uint a + 1 \<le> uint b"
  "0 < unat (a :: u64) \<longleftrightarrow> 0 < uint a"
  using int_unat [of a] int_unat [of b] int_unat [of c] by linarith+

lemma uint_eq_zero: "uint (a :: u64) = 0 \<longleftrightarrow> a = 0"
  by (simp add: word_uint_eq_iff)

text \<open>The program's policy over integers: the shape preflight computes with.\<close>

lemma payment_allowed_int:
  assumes "unat (pm_payment_count m) + 1 < 2 ^ 64"
  shows "payment_allowed m p slot \<longleftrightarrow>
     \<not> pm_revoked m \<and> \<not> pm_paused m \<and> uint slot < uint (pm_expires_at_slot m) \<and>
     0 < uint (pp_amount p) \<and> uint (pp_amount p) \<le> uint (pm_max_per_payment m) \<and>
     pp_invoice_hash p \<noteq> zero32 \<and> pp_payment_id p \<noteq> zero32 \<and> pp_signature_reference p \<noteq> zero32 \<and>
     uint (pm_amount_spent m) + uint (pp_amount p) \<le> uint (pm_total_limit m) \<and>
     (pm_max_payment_count m = 0 \<or> uint (pm_payment_count m) + 1 \<le> uint (pm_max_payment_count m)) \<and>
     (pm_last_payment_slot m = 0 \<or>
      uint (pm_last_payment_slot m) + uint (pm_cooldown_slots m) \<le> uint slot)"
  unfolding payment_allowed_def unat_uint_order using assms by simp

lemma policy_ok_view:
  assumes wf: "request_wf r" and count: "unat (pm_payment_count m) + 1 < 2 ^ 64"
  shows "policy_ok r (mandate_view W m a (Some (uint slot)) tp) (uint slot) \<longleftrightarrow>
         validate_payment m (payment_params r) slot = Inr ()"
proof -
  have amount: "uint (word_of_int (q_amount r) :: u64) = q_amount r"
    using wf by (simp add: request_wf_def)
  have hashes: "length (q_invoiceHash r) = 32" "length (q_paymentId r) = 32"
    "length (q_signatureReference r) = 32"
    using wf by (simp_all add: request_wf_def)
  have status: "mandateStatus (pm_paused m) (pm_revoked m) e (Some s) = Active \<longleftrightarrow>
      \<not> pm_revoked m \<and> \<not> pm_paused m \<and> s < e" for e s
    by (simp add: mandateStatus_def)
  show ?thesis
    unfolding validate_payment_iff payment_allowed_int [OF count] policy_ok_def
    by (simp add: payment_params_def mandate_view_def Let_def status some_nonzero_iff hashes amount
        uint_eq_zero) blast
qed

section \<open>Batches against sequential settlement\<close>

text \<open>
  The mandate part of \<open>execute_payment\<close>: policy, then charge. A batch settles its payments one
  after the other, each on the mandate account the earlier ones left.
\<close>

definition settle :: "u64 \<Rightarrow> PaymentMandate \<Rightarrow> PaymentParams \<Rightarrow> ChainPayError + PaymentMandate" where
  "settle slot m p = bindR (validate_payment m p slot) (\<lambda>_.
     Inr (charge (pm_amount_spent m + pp_amount p) (pm_payment_count m + 1) slot m))"

fun settle_all :: "u64 \<Rightarrow> PaymentMandate \<Rightarrow> PaymentParams list \<Rightarrow> ChainPayError + PaymentMandate" where
  "settle_all slot m [] = Inr m"
| "settle_all slot m (p # ps) = bindR (settle slot m p) (\<lambda>m'. settle_all slot m' ps)"

fun settle_batch ::
  "u64 \<Rightarrow> (pubkey \<rightharpoonup> PaymentMandate) \<Rightarrow> (pubkey \<times> PaymentParams) list
     \<Rightarrow> ChainPayError + (pubkey \<rightharpoonup> PaymentMandate)" where
  "settle_batch slot M [] = Inr M"
| "settle_batch slot M ((k, p) # xs) =
     bindR (fetch (M k) AccountNotInitialized) (\<lambda>m.
     bindR (settle slot m p) (\<lambda>m'. settle_batch slot (M(k \<mapsto> m')) xs))"

definition total_amount :: "PaymentParams list \<Rightarrow> nat" where
  "total_amount ps = sum_list (map (\<lambda>p. unat (pp_amount p)) ps)"

lemma charge_sel [simp]:
  "pm_amount_spent (charge s n slot m) = s" "pm_payment_count (charge s n slot m) = n"
  "pm_last_payment_slot (charge s n slot m) = slot"
  "pm_total_limit (charge s n slot m) = pm_total_limit m"
  "pm_max_per_payment (charge s n slot m) = pm_max_per_payment m"
  "pm_expires_at_slot (charge s n slot m) = pm_expires_at_slot m"
  "pm_max_payment_count (charge s n slot m) = pm_max_payment_count m"
  "pm_cooldown_slots (charge s n slot m) = pm_cooldown_slots m"
  "pm_paused (charge s n slot m) = pm_paused m" "pm_revoked (charge s n slot m) = pm_revoked m"
  by (simp_all add: charge_def)

text \<open>What a group needs for every one of its payments to pass in turn.\<close>

definition group_ok :: "u64 \<Rightarrow> PaymentMandate \<Rightarrow> PaymentParams list \<Rightarrow> bool" where
  "group_ok slot m ps \<longleftrightarrow> (\<forall>p \<in> set ps. payment_allowed m p slot) \<and>
     unat (pm_amount_spent m) + total_amount ps \<le> unat (pm_total_limit m) \<and>
     (pm_max_payment_count m = 0 \<or> unat (pm_payment_count m) + length ps \<le> unat (pm_max_payment_count m)) \<and>
     (length ps \<le> 1 \<or> pm_cooldown_slots m = 0) \<and>
     unat (pm_payment_count m) + length ps < 2 ^ 64"

lemma settle_group_step:
  assumes ok: "group_ok slot m (p # ps)"
  obtains m' where "settle slot m p = Inr m'" "group_ok slot m' ps"
    "unat (pm_amount_spent m') = unat (pm_amount_spent m) + unat (pp_amount p)"
    "unat (pm_payment_count m') = unat (pm_payment_count m) + 1"
proof -
  let ?m = "charge (pm_amount_spent m + pp_amount p) (pm_payment_count m + 1) slot m"
  have p: "payment_allowed m p slot" using ok by (simp add: group_ok_def)
  have spent: "unat (pm_amount_spent m + pp_amount p) = unat (pm_amount_spent m) + unat (pp_amount p)"
    using p unat_u64_less [of "pm_total_limit m"]
    by (intro unat_add_no_overflow) (simp add: payment_allowed_def)
  have count: "unat (pm_payment_count m + 1) = unat (pm_payment_count m) + 1"
    using p unat_add_no_overflow [of "pm_payment_count m" 1] by (simp add: payment_allowed_def)
  have total: "total_amount (p # ps) = unat (pp_amount p) + total_amount ps"
    by (simp add: total_amount_def)
  have rest: "payment_allowed ?m q slot" if q: "q \<in> set ps" for q
  proof -
    have "unat (pp_amount q) \<le> total_amount ps"
      using q by (auto simp: total_amount_def intro: member_le_sum_list)
    moreover obtain n where "length ps = Suc n" using q by (cases ps) auto
    moreover from this have "pm_cooldown_slots m = 0" using ok by (simp add: group_ok_def)
    moreover have "payment_allowed m q slot" using ok q by (simp add: group_ok_def)
    ultimately show ?thesis
      using ok total spent count by (auto simp: payment_allowed_def group_ok_def)
  qed
  show thesis
  proof
    show "settle slot m p = Inr ?m" using p by (simp add: settle_def validate_payment_iff [THEN iffD2])
    show "group_ok slot ?m ps"
      using ok rest total spent count by (auto simp: group_ok_def)
  qed (simp_all add: spent count)
qed

lemma settle_all_group:
  assumes "group_ok slot m ps"
  obtains m' where "settle_all slot m ps = Inr m'"
    "unat (pm_amount_spent m') = unat (pm_amount_spent m) + total_amount ps"
    "unat (pm_payment_count m') = unat (pm_payment_count m) + length ps"
  using assms
proof (induction ps arbitrary: m thesis)
  case Nil
  then show ?case by (simp add: total_amount_def)
next
  case (Cons p ps)
  obtain m1 where m1: "settle slot m p = Inr m1" "group_ok slot m1 ps"
    "unat (pm_amount_spent m1) = unat (pm_amount_spent m) + unat (pp_amount p)"
    "unat (pm_payment_count m1) = unat (pm_payment_count m) + 1"
    by (rule settle_group_step [OF Cons.prems(2)])
  obtain m' where "settle_all slot m1 ps = Inr m'"
    "unat (pm_amount_spent m') = unat (pm_amount_spent m1) + total_amount ps"
    "unat (pm_payment_count m') = unat (pm_payment_count m1) + length ps"
    by (rule Cons.IH [OF _ m1(2)])
  with m1 Cons.prems(1) [of m'] show ?case by (simp add: total_amount_def)
qed

definition payments_for :: "'k \<Rightarrow> ('k \<times> 'p) list \<Rightarrow> 'p list" where
  "payments_for k xs = map snd (filter (\<lambda>x. fst x = k) xs)"

lemma payments_for_simps [simp]:
  "payments_for k [] = []"
  "payments_for k ((k', p) # xs) = (if k' = k then p # payments_for k xs else payments_for k xs)"
  by (simp_all add: payments_for_def)

text \<open>Payments under different mandates do not interfere: a batch settles when each group does.\<close>

lemma settle_batch_groups:
  assumes "\<And>k. k \<in> fst ` set xs \<Longrightarrow> M k \<noteq> None"
    and "\<And>k m. M k = Some m \<Longrightarrow> settle_all slot m (payments_for k xs) = Inr (F k)"
  shows "\<exists>M'. settle_batch slot M xs = Inr M' \<and> (\<forall>k m. M k = Some m \<longrightarrow> M' k = Some (F k))"
  using assms
proof (induction xs arbitrary: M)
  case Nil
  then show ?case by auto
next
  case (Cons x xs)
  obtain k p where x: "x = (k, p)" by fastforce
  from Cons.prems(1) [of k] x obtain m where m: "M k = Some m" by auto
  from Cons.prems(2) [OF m] x obtain m' where
    m': "settle slot m p = Inr m'" "settle_all slot m' (payments_for k xs) = Inr (F k)"
    by (auto simp: result_simps)
  have "\<exists>M'. settle_batch slot (M(k \<mapsto> m')) xs = Inr M' \<and>
          (\<forall>j n. (M(k \<mapsto> m')) j = Some n \<longrightarrow> M' j = Some (F j))"
  proof (rule Cons.IH)
    show "(M(k \<mapsto> m')) j \<noteq> None" if "j \<in> fst ` set xs" for j
      using Cons.prems(1) [of j] that by auto
    show "settle_all slot n (payments_for j xs) = Inr (F j)" if "(M(k \<mapsto> m')) j = Some n" for j n
      using Cons.prems(2) [of j n] that m' x by (auto split: if_splits)
  qed
  then obtain M' where M': "settle_batch slot (M(k \<mapsto> m')) xs = Inr M'"
    "\<And>j n. (M(k \<mapsto> m')) j = Some n \<Longrightarrow> M' j = Some (F j)" by blast
  have "M' j = Some (F j)" if "M j = Some n" for j n
    using M'(2) [of j] that by (cases "j = k") auto
  with x m m' M'(1) show ?case by auto
qed

section \<open>What the grouping loop builds\<close>

lemma group_push_lookup:
  "map_of (group_push key e gs) k =
     (if k = key then Some ((case map_of gs key of None \<Rightarrow> [] | Some g \<Rightarrow> g) @ [e]) else map_of gs k)"
  by (induction gs) auto

text \<open>Each group holds, in order, the entries whose mandate address is its key.\<close>

lemma group_entries_lookup:
  assumes "group_entries W gs es = Inr gs'"
  shows "map_of gs' k = (let new = filter (\<lambda>e. address W (m_address (be_mandate e)) = Inr k) es in
     case map_of gs k of Some g \<Rightarrow> Some (g @ new) | None \<Rightarrow> (if new = [] then None else Some new))"
  using assms
proof (induction es arbitrary: gs)
  case Nil
  then show ?case by (simp split: option.splits)
next
  case (Cons e es)
  then obtain key where key: "address W (m_address (be_mandate e)) = Inr key"
    and rest: "group_entries W (group_push key e gs) es = Inr gs'"
    by (auto simp: result_simps)
  from Cons.IH [OF rest] key show ?case
    by (auto simp: group_push_lookup Let_def split: option.splits)
qed

lemma foldl_amount: "foldl (\<lambda>t e. t + f e) (a :: int) es = a + sum_list (map f es)"
  by (induction es arbitrary: a) simp_all

lemma batch_group_checks:
  assumes "list_all pc_ok (batchChecksForMandateGroup es M)"
  shows "m_amountSpent M + sum_list (map (\<lambda>e. q_amount (be_request e)) es) \<le> m_totalLimit M"
    and "m_maxPaymentCount M = 0 \<or> m_paymentCount M + int (length es) \<le> m_maxPaymentCount M"
    and "length es \<le> 1 \<or> m_cooldownSlots M = 0"
  using assms
  by (auto simp: batchChecksForMandateGroup_def Let_def foldl_amount split: option.splits)

section \<open>A valid batch settles\<close>

text \<open>An entry loaded from the mandate account at key \<open>k\<close>, at the batch's slot.\<close>

definition entry_loaded ::
  "web3 \<Rightarrow> (pubkey \<rightharpoonup> PaymentMandate) \<Rightarrow> u64 \<Rightarrow> BatchPreflightEntry \<Rightarrow> pubkey \<Rightarrow> bool" where
  "entry_loaded W M slot e k \<longleftrightarrow> length k = 32 \<and> request_wf (be_request e) \<and>
     (\<exists>m tp. M k = Some m \<and> mandate_wf m \<and>
        be_mandate e = mandate_view W m (to_base58 W k) (Some (uint slot)) tp)"

lemma mandate_view_sel [simp]:
  "m_address (mandate_view W m a s tp) = a"
  "m_amountSpent (mandate_view W m a s tp) = uint (pm_amount_spent m)"
  "m_totalLimit (mandate_view W m a s tp) = uint (pm_total_limit m)"
  "m_paymentCount (mandate_view W m a s tp) = uint (pm_payment_count m)"
  "m_maxPaymentCount (mandate_view W m a s tp) = uint (pm_max_payment_count m)"
  "m_cooldownSlots (mandate_view W m a s tp) = uint (pm_cooldown_slots m)"
  by (simp_all add: mandate_view_def Let_def)

lemma total_amount_requests:
  assumes "\<And>e. e \<in> set es \<Longrightarrow> request_wf (be_request e)"
  shows "int (total_amount (map (\<lambda>e. payment_params (be_request e)) es)) =
     sum_list (map (\<lambda>e. q_amount (be_request e)) es)"
  using assms
  by (induction es) (auto simp: total_amount_def payment_params_def request_wf_def uint_nat [symmetric])

text \<open>The entries of one mandate, and the payments they stand for.\<close>

definition entries_for :: "pubkey \<Rightarrow> (BatchPreflightEntry \<times> pubkey) list \<Rightarrow> BatchPreflightEntry list" where
  "entries_for k es = map fst (filter (\<lambda>x. snd x = k) es)"

definition batch_payments :: "(BatchPreflightEntry \<times> pubkey) list \<Rightarrow> (pubkey \<times> PaymentParams) list" where
  "batch_payments es = map (\<lambda>(e, k). (k, payment_params (be_request e))) es"

lemma payments_for_batch:
  "payments_for k (batch_payments es) = map (\<lambda>e. payment_params (be_request e)) (entries_for k es)"
  by (induction es) (auto simp: batch_payments_def entries_for_def)

lemma entries_for_filter:
  assumes W: "web3_ok W" and k: "length k = 32"
    and loaded: "\<And>e k. (e, k) \<in> set es \<Longrightarrow> entry_loaded W M slot e k"
  shows "filter (\<lambda>e. address W (m_address (be_mandate e)) = Inr (to_base58 W k)) (map fst es) = entries_for k es"
  using loaded
proof (induction es)
  case (Cons x es)
  obtain e j where x: "x = (e, j)" by fastforce
  with Cons.prems have "entry_loaded W M slot e j" by simp
  then have "address W (m_address (be_mandate e)) = Inr (to_base58 W k) \<longleftrightarrow> j = k"
    using W k by (auto simp: entry_loaded_def base58_inject)
  with Cons x show ?case by (simp add: entries_for_def)
qed (simp add: entries_for_def)

lemma valid_batch_entry:
  assumes "preflightPaymentBatch W entries slot = Inr bp" and "bp_valid bp" and "e \<in> set entries"
  obtains pf dup ctx where
    "preflightPayment W (be_request e) (be_mandate e) slot (be_agent e) dup ctx = Inr pf" "pf_valid pf"
proof -
  from assms(1,2) obtain prepared where "mapR (prepare_entry W slot) entries = Inr prepared"
    and "list_all (\<lambda>e. pf_valid (pe_preflight e)) prepared"
    by (auto simp: preflightPaymentBatch_def result_simps Let_def)
  moreover from assms(3) obtain i where "i < length entries" "entries ! i = e"
    by (auto simp: in_set_conv_nth)
  ultimately obtain pe where "prepare_entry W slot e = Inr pe" "pf_valid (pe_preflight pe)"
    by (auto simp: mapR_eq_Inr list_all_length)
  with that show thesis by (auto simp: prepare_entry_def result_simps)
qed

lemma valid_batch_group:
  assumes "preflightPaymentBatch W entries slot = Inr bp" and "bp_valid bp"
    and "filter (\<lambda>e. address W (m_address (be_mandate e)) = Inr key) entries = g" and "g \<noteq> []"
  shows "list_all pc_ok (batchChecksForMandateGroup g (be_mandate (hd g)))"
proof -
  from assms(1,2) obtain gs where gs: "group_entries W [] entries = Inr gs"
    and checks: "\<And>key g. (key, g) \<in> set gs \<Longrightarrow>
        list_all pc_ok (batchChecksForMandateGroup g (be_mandate (hd g)))"
    by (auto simp: preflightPaymentBatch_def result_simps Let_def list_all_iff)
  have "map_of gs key = Some g"
    using group_entries_lookup [OF gs, of key] assms(3,4) by (auto simp: Let_def)
  then show ?thesis by (intro checks map_of_SomeD)
qed

lemma loaded_entry_allowed:
  assumes W: "web3_ok W" and load: "entry_loaded W M slot e k" and m: "M k = Some m"
    and count: "unat (pm_payment_count m) + 1 < 2 ^ 64"
    and pf: "preflightPayment W (be_request e) (be_mandate e) (uint slot) agent dup ctx = Inr pf" "pf_valid pf"
  shows "payment_allowed m (payment_params (be_request e)) slot"
proof -
  from load m obtain tp where view: "be_mandate e = mandate_view W m (to_base58 W k) (Some (uint slot)) tp"
    and wf: "mandate_wf m" "length k = 32" "request_wf (be_request e)"
    by (auto simp: entry_loaded_def)
  with preflightPayment_valid [OF W wf(1,2), of "be_request e"] pf
  have "policy_ok (be_request e) (be_mandate e) (uint slot)" by simp
  with policy_ok_view [OF wf(3) count] view show ?thesis by (simp add: validate_payment_iff)
qed

lemma batch_group_ok:
  assumes W: "web3_ok W"
    and loaded: "\<And>e k. (e, k) \<in> set es \<Longrightarrow> entry_loaded W M slot e k"
    and pre: "preflightPaymentBatch W (map fst es) (uint slot) = Inr bp" "bp_valid bp"
    and m: "M k = Some m" and count: "unat (pm_payment_count m) + length es < 2 ^ 64"
    and some: "entries_for k es \<noteq> []"
  shows "group_ok slot m (map (\<lambda>e. payment_params (be_request e)) (entries_for k es))"
proof -
  from some obtain e0 rest where Cons: "entries_for k es = e0 # rest"
    by (cases "entries_for k es") auto
  let ?g = "entries_for k es"
  have load: "entry_loaded W M slot e k" if "e \<in> set ?g" for e
    using that loaded by (auto simp: entries_for_def)
  have short: "length ?g \<le> length es" by (simp add: entries_for_def)
  with Cons count have count1: "unat (pm_payment_count m) + 1 < 2 ^ 64" by simp
  from Cons load have k: "length k = 32" and "entry_loaded W M slot (hd ?g) k"
    by (auto simp: entry_loaded_def)
  then obtain tp where hd: "be_mandate (hd ?g) = mandate_view W m (to_base58 W k) (Some (uint slot)) tp"
    using m by (auto simp: entry_loaded_def)
  from valid_batch_group [OF pre entries_for_filter [OF W k loaded]] Cons
  have "list_all pc_ok (batchChecksForMandateGroup ?g (be_mandate (hd ?g)))" by simp
  from batch_group_checks [OF this] hd
  have total: "uint (pm_amount_spent m) + sum_list (map (\<lambda>e. q_amount (be_request e)) ?g) \<le> uint (pm_total_limit m)"
    and cnt: "uint (pm_max_payment_count m) = 0 \<or>
        uint (pm_payment_count m) + int (length ?g) \<le> uint (pm_max_payment_count m)"
    and cool: "length ?g \<le> 1 \<or> uint (pm_cooldown_slots m) = 0"
    by simp_all
  have allowed: "payment_allowed m (payment_params (be_request e)) slot" if e: "e \<in> set ?g" for e
  proof -
    from e have "e \<in> set (map fst es)" by (auto simp: entries_for_def)
    then show ?thesis
      by (rule valid_batch_entry [OF pre]) (rule loaded_entry_allowed [OF W load [OF e] m count1])
  qed
  have "unat (pm_amount_spent m) + total_amount (map (\<lambda>e. payment_params (be_request e)) ?g) \<le> unat (pm_total_limit m)"
  proof -
    have "int (total_amount (map (\<lambda>e. payment_params (be_request e)) ?g)) = sum_list (map (\<lambda>e. q_amount (be_request e)) ?g)"
      using load by (intro total_amount_requests) (simp add: entry_loaded_def)
    with total int_unat [of "pm_amount_spent m"] int_unat [of "pm_total_limit m"] show ?thesis by linarith
  qed
  moreover have "pm_max_payment_count m = 0 \<or> unat (pm_payment_count m) + length ?g \<le> unat (pm_max_payment_count m)"
    using cnt int_unat [of "pm_payment_count m"] int_unat [of "pm_max_payment_count m"]
      uint_eq_zero [of "pm_max_payment_count m"] by linarith
  ultimately show ?thesis
    using allowed cool count short uint_eq_zero [of "pm_cooldown_slots m"] by (auto simp: group_ok_def)
qed

lemma batch_group_settles:
  assumes "web3_ok W" and "\<And>e k. (e, k) \<in> set es \<Longrightarrow> entry_loaded W M slot e k"
    and "preflightPaymentBatch W (map fst es) (uint slot) = Inr bp" "bp_valid bp"
    and "M k = Some m" and "unat (pm_payment_count m) + length es < 2 ^ 64"
  obtains m' where "settle_all slot m (payments_for k (batch_payments es)) = Inr m'"
    "unat (pm_amount_spent m') = unat (pm_amount_spent m) + total_amount (payments_for k (batch_payments es))"
    "unat (pm_payment_count m') = unat (pm_payment_count m) + length (payments_for k (batch_payments es))"
proof (cases "entries_for k es = []")
  case True
  with that [of m] show thesis by (simp add: payments_for_batch total_amount_def)
next
  case False
  show thesis
    using settle_all_group [OF batch_group_ok [OF assms False]] that
    by (auto simp: payments_for_batch)
qed

text \<open>
  C2. A batch that \<open>preflightPaymentBatch\<close> accepts settles on chain: when each entry was loaded from
  its mandate account at the batch's slot, running the program's policy check and charge for the
  payments one after the other, each on the account the earlier ones left, never fails, and every
  mandate ends with its spend and its payment count raised by exactly its share of the batch.
\<close>

theorem batch_preflight_settles:
  assumes "web3_ok W" and load: "\<forall>(e, k) \<in> set es. entry_loaded W M slot e k"
    and "preflightPaymentBatch W (map fst es) (uint slot) = Inr bp" and "bp_valid bp"
    and count: "\<forall>k m. M k = Some m \<longrightarrow> unat (pm_payment_count m) + length es < 2 ^ 64"
  shows "\<exists>M'. settle_batch slot M (batch_payments es) = Inr M' \<and>
     (\<forall>k m. M k = Some m \<longrightarrow> (\<exists>m'. M' k = Some m' \<and>
        unat (pm_amount_spent m') = unat (pm_amount_spent m) + total_amount (payments_for k (batch_payments es)) \<and>
        unat (pm_payment_count m') = unat (pm_payment_count m) + length (payments_for k (batch_payments es))))"
proof -
  have loaded: "entry_loaded W M slot e k" if "(e, k) \<in> set es" for e k
    using load that by auto
  define F where "F k = projr (settle_all slot (the (M k)) (payments_for k (batch_payments es)))" for k
  have F: "settle_all slot m (payments_for k (batch_payments es)) = Inr (F k)"
    "unat (pm_amount_spent (F k)) = unat (pm_amount_spent m) + total_amount (payments_for k (batch_payments es))"
    "unat (pm_payment_count (F k)) = unat (pm_payment_count m) + length (payments_for k (batch_payments es))"
    if "M k = Some m" for k m
    by (rule batch_group_settles [OF assms(1) loaded assms(3,4) that count [rule_format, OF that]],
        assumption, simp_all add: F_def that)+
  have "M k \<noteq> None" if "k \<in> fst ` set (batch_payments es)" for k
    using that loaded by (force simp: batch_payments_def entry_loaded_def)
  then have "\<exists>M'. settle_batch slot M (batch_payments es) = Inr M' \<and> (\<forall>k m. M k = Some m \<longrightarrow> M' k = Some (F k))"
    by (rule settle_batch_groups) (assumption, rule F(1))
  then obtain M' where M': "settle_batch slot M (batch_payments es) = Inr M'"
    "\<And>k m. M k = Some m \<Longrightarrow> M' k = Some (F k)" by auto
  show ?thesis
    by (rule exI [of _ M']) (use M' F(2,3) in simp)
qed

section \<open>A concrete mandate and its payments\<close>

definition sample_mandate :: PaymentMandate where
  "sample_mandate = \<lparr>pm_owner = replicate 32 1, pm_approved_agent = replicate 32 2,
     pm_source_token_account = replicate 32 3, pm_allowed_mint = replicate 32 4,
     pm_legacy_allowed_recipient = replicate 32 0, pm_max_per_payment = 100, pm_total_limit = 1000,
     pm_amount_spent = 50, pm_payment_count = 1, pm_expires_at_slot = 900, pm_max_payment_count = 5,
     pm_cooldown_slots = 0, pm_last_payment_slot = 300, pm_paused = False, pm_revoked = False,
     pm_bump = 255\<rparr>"

definition sample_mandate_key :: pubkey where
  "sample_mandate_key = sample_pda [str_bytes ''mandate'', replicate 32 1, replicate 32 4]"

lemma length_sample_mandate_key [simp]: "length sample_mandate_key = 32"
  by (simp add: sample_mandate_key_def)

definition sample_request :: "byte \<Rightarrow> int \<Rightarrow> PaymentRequest" where
  "sample_request tag amount = \<lparr>q_mandate = to_base58 sample_web3 sample_mandate_key,
     q_invoiceHash = replicate 32 tag, q_paymentId = replicate 32 7, q_signatureReference = replicate 32 8,
     q_mint = to_base58 sample_web3 (replicate 32 4), q_recipient = to_base58 sample_web3 (replicate 32 6),
     q_amount = amount, q_tokenProgram = Some SplToken\<rparr>"

definition sample_view :: Mandate where
  "sample_view = mandate_view sample_web3 sample_mandate (to_base58 sample_web3 sample_mandate_key)
     (Some 500) (Some SplToken)"

definition sample_entry :: "byte \<Rightarrow> int \<Rightarrow> BatchPreflightEntry" where
  "sample_entry tag amount = \<lparr>be_request = sample_request tag amount, be_mandate = sample_view,
     be_agent = Some (to_base58 sample_web3 (replicate 32 2)), be_receiptAlreadyExists = None,
     be_sourceContext = None\<rparr>"

lemmas sample_defs = sample_mandate_def sample_request_def sample_view_def
  sample_entry_def

lemma base58_is_system:
  "web3_ok W \<Longrightarrow> length b = 32 \<Longrightarrow> to_base58 W b = SYSTEM_PROGRAM_ID \<longleftrightarrow> b = default_key"
  using base58_inject [of W b "replicate 32 0"] by (simp add: base58_default default_key_def)

lemma sample_entry_loaded:
  "u64_ok amount \<Longrightarrow>
   entry_loaded sample_web3 [sample_mandate_key \<mapsto> sample_mandate] 500 (sample_entry tag amount) sample_mandate_key"
  by (auto simp: entry_loaded_def sample_defs request_wf_def mandate_wf_def)

lemma sample_preflight:
  "\<exists>pf. preflightPayment sample_web3 (sample_request 5 40) sample_view 500
      (Some (to_base58 sample_web3 (replicate 32 2))) False None = Inr pf \<and> pf_valid pf"
  by (simp add: preflightPayment_def sample_defs mandate_view_def Let_def base58_inject base58_is_system
      mandateStatus_def default_key_def some_nonzero_def is_mandate_nonce_def list_ex_iff)

lemmas sample_eval = sample_defs mandate_view_def Let_def base58_inject base58_is_system
  mandateStatus_def default_key_def some_nonzero_def is_mandate_nonce_def list_ex_iff

lemma sample_batch:
  "\<exists>bp. preflightPaymentBatch sample_web3 [sample_entry 5 40, sample_entry 6 60] 500 = Inr bp \<and> bp_valid bp"
  by (simp add: preflightPaymentBatch_def prepare_entry_def preflightPayment_def
      batchChecksForMandateGroup_def sample_eval)

theorem batch_preflight_settles_witness:
  "\<exists>M'. settle_batch 500 [sample_mandate_key \<mapsto> sample_mandate]
      (batch_payments [(sample_entry 5 40, sample_mandate_key), (sample_entry 6 60, sample_mandate_key)]) = Inr M'"
proof -
  let ?es = "[(sample_entry 5 40, sample_mandate_key), (sample_entry 6 60, sample_mandate_key)]"
  obtain bp where bp: "preflightPaymentBatch sample_web3 (map fst ?es) (uint (500 :: u64)) = Inr bp" "bp_valid bp"
    using sample_batch by auto
  have loaded: "\<forall>(e, k) \<in> set ?es. entry_loaded sample_web3 [sample_mandate_key \<mapsto> sample_mandate] 500 e k"
    using sample_entry_loaded [of 40] sample_entry_loaded [of 60] by (auto simp: u64_ok_def)
  have count: "\<forall>k m. [sample_mandate_key \<mapsto> sample_mandate] k = Some m \<longrightarrow>
      unat (pm_payment_count m) + length ?es < 2 ^ 64"
    by (auto simp: sample_mandate_def split: if_splits)
  from batch_preflight_settles [OF sample_web3_ok loaded bp count] show ?thesis
    by (elim exE conjE) (rule exI, assumption)
qed

text \<open>
  C3. Preflight is exact for the mandate's policy: on a mandate decoded from its account bytes at the
  current slot, preflight is valid if and only if the program's \<open>validate_payment\<close> accepts the same
  payment and the parties, the token program, the duplicate flag and the source account are right.
  The payment count must not be at the last \<open>u64\<close> value, where only the program refuses.
\<close>

theorem preflight_agrees_with_policy:
  assumes "web3_ok W" and "mandate_wf m" and "length k = 32" and "request_wf r"
    and "unat (pm_payment_count m) + 1 < 2 ^ 64"
    and "decodeMandate W (ser_PaymentMandate m) (to_base58 W k) (Some (uint slot)) tp = Inr M"
    and "preflightPayment W r M (uint slot) agent dup ctx = Inr pf"
  shows "pf_valid pf \<longleftrightarrow> validate_payment m (payment_params r) slot = Inr () \<and>
     parties_ok W r m tp agent \<and> \<not> dup \<and> (case ctx of None \<Rightarrow> True | Some x \<Rightarrow> source_ok W r m k x)"
proof -
  have "M = mandate_view W m (to_base58 W k) (Some (uint slot)) tp"
    using decodeMandate_ser [OF assms(1,2) address_base58 [OF assms(1,3)], of "[]"] assms(6) by simp
  with preflightPayment_valid [OF assms(1-3)] policy_ok_view [OF assms(4,5)] assms(7) show ?thesis
    by metis
qed

theorem preflight_agrees_with_policy_witness:
  "\<exists>M pf. decodeMandate sample_web3 (ser_PaymentMandate sample_mandate)
        (to_base58 sample_web3 sample_mandate_key) (Some (uint (500 :: u64))) (Some SplToken) = Inr M \<and>
     preflightPayment sample_web3 (sample_request 5 40) M (uint (500 :: u64))
        (Some (to_base58 sample_web3 (replicate 32 2))) False None = Inr pf \<and>
     validate_payment sample_mandate (payment_params (sample_request 5 40)) 500 = Inr ()"
proof -
  have wf: "mandate_wf sample_mandate" "length sample_mandate_key = 32" "request_wf (sample_request 5 40)"
    by (simp_all add: sample_defs mandate_wf_def request_wf_def u64_ok_def)
  have count: "unat (pm_payment_count sample_mandate) + 1 < 2 ^ 64"
    by (simp add: sample_mandate_def)
  have M: "decodeMandate sample_web3 (ser_PaymentMandate sample_mandate)
      (to_base58 sample_web3 sample_mandate_key) (Some (uint (500 :: u64))) (Some SplToken) = Inr sample_view"
    using decodeMandate_ser [OF sample_web3_ok wf(1) address_base58 [OF sample_web3_ok wf(2)], of "[]"]
    by (simp add: sample_view_def)
  obtain pf where pf: "preflightPayment sample_web3 (sample_request 5 40) sample_view (uint (500 :: u64))
      (Some (to_base58 sample_web3 (replicate 32 2))) False None = Inr pf" "pf_valid pf"
    using sample_preflight by auto
  from preflight_agrees_with_policy [OF sample_web3_ok wf count M pf(1)] M pf show ?thesis by auto
qed

section \<open>The instruction a payment becomes\<close>

definition ser_PaymentParams :: "PaymentParams \<Rightarrow> bytes" where
  "ser_PaymentParams p = pp_invoice_hash p @ pp_payment_id p @ pp_signature_reference p @ ser_u64 (pp_amount p)"

definition parse_PaymentParams :: "bytes \<Rightarrow> PaymentParams option" where
  "parse_PaymentParams d = (if length d \<noteq> 104 then None else
     Some \<lparr>pp_invoice_hash = slice d 0 32, pp_payment_id = slice d 32 32,
           pp_signature_reference = slice d 64 32, pp_amount = word_of_int (le_val (slice d 96 8))\<rparr>)"

lemma encodePayment_ser:
  "encodePayment (q_invoiceHash r) (q_paymentId r) (q_signatureReference r) (q_amount r) = Inr d \<longleftrightarrow>
     request_wf r \<and> d = DISC_executePayment @ ser_PaymentParams (payment_params r)"
  by (auto simp: encodePayment_def concatR_eq_Inr_Cons writeU64_eq_Inr bytes32_eq_Inr request_wf_def
      ser_PaymentParams_def payment_params_def)

lemma parse_ser_PaymentParams:
  assumes "length (pp_invoice_hash p) = 32" "length (pp_payment_id p) = 32" "length (pp_signature_reference p) = 32"
  shows "parse_PaymentParams (ser_PaymentParams p) = Some p"
  using assms by (simp add: parse_PaymentParams_def ser_PaymentParams_def)

end
