(* ===== verification/Settlement.thy ===== *)
theory Settlement
  imports Payment
begin

text \<open>
  The SDK and the program together: the program's entry point reads the keys and the data of an
  instruction the SDK built and runs its handler. The main property is end to end: a payment that
  preflight accepts, built by \<open>buildExecutePaymentInstruction\<close>, settles on chain.
\<close>

section \<open>The entry point\<close>

fun execute_accounts :: "pubkey list \<Rightarrow> ExecutePaymentAccounts option" where
  "execute_accounts [config, asset, mandate, receipt, agent, mint, source, recipient, program, system] =
     Some \<lparr>ex_config = config, ex_asset_registry = asset, ex_mandate = mandate, ex_receipt = receipt,
       ex_agent = agent, ex_allowed_mint = mint, ex_source_token_account = source,
       ex_recipient_token_account = recipient, ex_token_program = program\<rparr>"
| "execute_accounts _ = None"

definition dispatch_execute ::
  "web3 \<Rightarrow> runtime \<Rightarrow> u64 \<Rightarrow> ChainPayInstruction \<Rightarrow> chain \<Rightarrow> (ChainPayError + chain) option" where
  "dispatch_execute W R slot ix c =
     (if take 8 (ix_data ix) \<noteq> DISC_executePayment then None
      else case (mapR (\<lambda>k. publicKey W (meta_address k)) (ix_keys ix),
                 parse_PaymentParams (drop 8 (ix_data ix))) of
        (Inr keys, Some p) \<Rightarrow> (case execute_accounts keys of
           Some ctx \<Rightarrow> Some (execute_payment R slot ctx p c) | None \<Rightarrow> None)
      | _ \<Rightarrow> None)"

section \<open>The chain as the SDK expects it\<close>

text \<open>web3.js and the runtime derive the same program addresses.\<close>

definition derivations_agree :: "web3 \<Rightarrow> runtime \<Rightarrow> pubkey \<Rightarrow> bool" where
  "derivations_agree W R prog \<longleftrightarrow> (\<forall>seeds. find_pda W seeds prog = Inr (fst (rt_find R seeds)))"

text \<open>
  The accounts around mandate \<open>k\<close>: configuration, registered asset, mint, source account with the
  fields preflight was given, recipient account, and mandate signer seeds.
\<close>

definition deployed ::
  "web3 \<Rightarrow> runtime \<Rightarrow> chain \<Rightarrow> pubkey \<Rightarrow> PaymentMandate \<Rightarrow> pubkey \<Rightarrow> pubkey \<Rightarrow> PaymentPreflightContext \<Rightarrow> bool" where
  "deployed W R c k m tp rcpt ctx \<longleftrightarrow>
     ch_mandates c k = Some m \<and>
     is_ok (config_account R (fst (rt_find R [str_bytes ''config''])) c) \<and>
     asset_registry R (fst (rt_find R [str_bytes ''asset'', pm_allowed_mint m])) (pm_allowed_mint m) tp c = Inr () \<and>
     (\<exists>mi. ch_mints c (pm_allowed_mint m) = Some mi \<and> mint_program mi = tp) \<and>
     (\<exists>src. ch_tokens c (pm_source_token_account m) = Some src \<and>
        tk_mint src = pm_allowed_mint m \<and> tk_program src = tp \<and>
        ctx = \<lparr>sourceBalance = uint (tk_amount src), sourceOwner = to_base58 W (tk_owner src),
               delegate = map_option (to_base58 W) (tk_delegate src),
               delegatedAmount = uint (tk_delegated_amount src)\<rparr> \<and>
        length (tk_owner src) = 32 \<and> (\<forall>d. tk_delegate src = Some d \<longrightarrow> length d = 32)) \<and>
     (\<exists>acc. ch_tokens c rcpt = Some acc \<and> tk_mint acc = pm_allowed_mint m \<and> tk_program acc = tp) \<and>
     rt_create R (signer_seeds R k m) (pm_bump m) = Some k"

text \<open>A mandate whose old fixed-recipient slot does not restrict this recipient.\<close>

definition recipient_open :: "PaymentMandate \<Rightarrow> pubkey \<Rightarrow> bool" where
  "recipient_open m rcpt \<longleftrightarrow> is_mandate_nonce (pm_legacy_allowed_recipient m) \<or>
     pm_legacy_allowed_recipient m = default_key \<or> rcpt = pm_legacy_allowed_recipient m"

text \<open>
  The documented behaviour of \<open>TransferChecked\<close> on these accounts (not frozen, and without a
  transfer hook or fee extension): with the decimals of the mint, both accounts of that mint and of the
  mint's token program, the authority the source's delegate, enough balance and allowance, and room for
  the amount at the destination, it succeeds and moves the amount. Nothing is assumed in any other case.
\<close>

definition transfer_checked_documented :: "runtime \<Rightarrow> chain \<Rightarrow> pubkey \<Rightarrow> pubkey \<Rightarrow> pubkey \<Rightarrow> bool" where
  "transfer_checked_documented R c src mint dst \<longleftrightarrow> (\<forall>auth amount mi s t.
     ch_mints c mint = Some mi \<and> ch_tokens c src = Some s \<and> ch_tokens c dst = Some t \<and>
     tk_mint s = mint \<and> tk_mint t = mint \<and>
     tk_program s = mint_program mi \<and> tk_program t = mint_program mi \<and>
     tk_delegate s = Some auth \<and> amount \<le> tk_amount s \<and> amount \<le> tk_delegated_amount s \<and>
     uint (tk_amount t) + uint amount < 2 ^ 64 \<longrightarrow>
     (\<exists>T' s' t'. rt_transfer_checked R (ch_tokens c) src mint dst auth amount (mint_decimals mi) = Some T' \<and>
        T' src = Some s' \<and> T' dst = Some t' \<and>
        (src \<noteq> dst \<longrightarrow> tk_amount s' = tk_amount s - amount \<and> tk_amount t' = tk_amount t + amount)))"

section \<open>What the builder emits\<close>

lemma meta_key:
  assumes "web3_ok W" and "meta W v w s = Inr x" and "publicKey W v = Inr b"
  shows "publicKey W (meta_address x) = Inr b"
  using assms publicKey_length [OF assms(1,3)] by (auto simp: meta_eq_Inr address_eq_Inr)

lemma pda_key:
  assumes W: "web3_ok W" and "derivations_agree W R prog" and "publicKey W programId = Inr prog"
    and "mapR (\<lambda>s. s) seeds = Inr ss" and "pda W seeds programId = Inr a"
  shows "publicKey W a = Inr (fst (rt_find R ss))"
proof -
  from assms have find: "find_pda W ss prog = Inr (fst (rt_find R ss))" and a: "a = to_base58 W (fst (rt_find R ss))"
    by (auto simp: pda_eq_Inr derivations_agree_def)
  from W find have "length (fst (rt_find R ss)) = 32"
    unfolding web3_ok_def by blast
  with W a show ?thesis by simp
qed

text \<open>A meta result denotes a key when the meta it yields decodes to that key.\<close>

definition denotes :: "web3 \<Rightarrow> AccountMeta result \<Rightarrow> bytes \<Rightarrow> bool" where
  "denotes W x b \<longleftrightarrow> (\<forall>y. x = Inr y \<longrightarrow> publicKey W (meta_address y) = Inr b)"

lemma denotes_meta: "web3_ok W \<Longrightarrow> publicKey W v = Inr b \<Longrightarrow> denotes W (meta W v w s) b"
  by (auto simp: denotes_def intro: meta_key)

lemma denotes_pda:
  assumes "web3_ok W" "derivations_agree W R prog" "publicKey W programId = Inr prog"
    "mapR (\<lambda>s. s) seeds = Inr ss"
  shows "denotes W (bindR (pda W seeds programId) (\<lambda>a. meta W a w s)) (fst (rt_find R ss))"
  using pda_key [OF assms] by (auto simp: denotes_def result_simps intro: meta_key [OF assms(1)])

lemma denoted_keys:
  assumes "list_all2 (denotes W) ms bs" and "mapR (\<lambda>k. k) ms = Inr xs"
  shows "mapR (\<lambda>x. publicKey W (meta_address x)) xs = Inr bs"
  using assms
  by (induction arbitrary: xs rule: list_all2_induct) (auto simp: result_simps denotes_def)

lemma instruction_parts:
  assumes "instruction W n p ks d = Inr ix"
  shows "mapR (\<lambda>k. k) ks = Inr (ix_keys ix)" and "d = Inr (ix_data ix)"
  using assms unfolding instruction_eq_Inr by (elim exE conjE; simp only: ChainPayInstruction.simps)+

text \<open>The keys of the emitted instruction, decoded, are the handler's accounts in its order.\<close>

lemma build_execute_keys:
  assumes W: "web3_ok W" and agree: "derivations_agree W R prog" and prog: "publicKey W programId = Inr prog"
    and k: "m_address M = to_base58 W k" "length k = 32"
    and src: "m_sourceTokenAccount M = to_base58 W srck" "length srck = 32"
    and mint: "m_allowedMint M = to_base58 W mk" "length mk = 32" "publicKey W (q_mint r) = Inr mk"
    and parties: "publicKey W agent = Inr ak" "publicKey W (q_recipient r) = Inr rk"
    and tp: "q_tokenProgram r = Some tp" "publicKey W (tokenProgramAddress tp) = Inr tk"
    and build: "buildExecutePaymentInstruction W r agent M programId = Inr ix"
  shows "ix_data ix = DISC_executePayment @ ser_PaymentParams (payment_params r)" and "request_wf r"
    and "mapR (\<lambda>x. publicKey W (meta_address x)) (ix_keys ix) = Inr
     [fst (rt_find R [str_bytes ''config'']), fst (rt_find R [str_bytes ''asset'', mk]), k,
      fst (rt_find R (receipt_seeds k (q_invoiceHash r))), ak, mk, srck, rk, tk, default_key]"
proof -
  have "instruction W ''execute_payment'' programId
       [bindR (deriveConfigAddress W programId) (\<lambda>a. meta W a False False),
        bindR (deriveAssetAddress W (m_allowedMint M) programId) (\<lambda>a. meta W a False False),
        meta W (m_address M) True False,
        bindR (deriveReceiptAddress W (m_address M) (q_invoiceHash r) programId) (\<lambda>a. meta W a True False),
        meta W agent True True, meta W (q_mint r) False False, meta W (m_sourceTokenAccount M) True False,
        meta W (q_recipient r) True False, meta W (tokenProgramAddress tp) False False,
        meta W SYSTEM_PROGRAM_ID False False]
       (encodePayment (q_invoiceHash r) (q_paymentId r) (q_signatureReference r) (q_amount r)) = Inr ix"
    using build unfolding buildExecutePaymentInstruction_def bindR_eq_Inr by (simp add: tp)
  note keys = instruction_parts(1) [OF this] and data = instruction_parts(2) [OF this]
  from data show "ix_data ix = DISC_executePayment @ ser_PaymentParams (payment_params r)" and wf: "request_wf r"
    by (simp_all add: encodePayment_ser)
  have hash: "bytes32 (q_invoiceHash r) n = Inr (q_invoiceHash r)" for n
    using wf by (simp add: request_wf_def bytes32_eq_Inr)
  have system: "publicKey W SYSTEM_PROGRAM_ID = Inr default_key"
    using publicKey_base58 [OF W, of default_key] base58_default [OF W] by (simp add: default_key_def)
  show "mapR (\<lambda>x. publicKey W (meta_address x)) (ix_keys ix) = Inr
     [fst (rt_find R [str_bytes ''config'']), fst (rt_find R [str_bytes ''asset'', mk]), k,
      fst (rt_find R (receipt_seeds k (q_invoiceHash r))), ak, mk, srck, rk, tk, default_key]"
    by (rule denoted_keys [OF _ keys])
       (simp add: deriveConfigAddress_def deriveAssetAddress_def deriveReceiptAddress_def receipt_seeds_def
          denotes_meta denotes_pda [OF W agree prog] W k src mint parties tp hash system)
qed

section \<open>A preflighted payment settles\<close>

lemma source_constraints_ok:
  assumes W: "web3_ok W" and dep: "deployed W R c k m tk rk ctx" and ok: "source_ok W r m k ctx"
    and wf: "mandate_wf m" "request_wf r"
    and acc: "ex_source_token_account e = pm_source_token_account m" "ex_mandate e = k" "ex_token_program e = tk"
  shows "\<exists>src. ch_tokens c (pm_source_token_account m) = Some src \<and>
     source_constraints e m (payment_params r) src = Inr ()"
proof -
  from dep obtain src where src: "ch_tokens c (pm_source_token_account m) = Some src"
    "tk_mint src = pm_allowed_mint m" "tk_program src = tk"
    "ctx = \<lparr>sourceBalance = uint (tk_amount src), sourceOwner = to_base58 W (tk_owner src),
       delegate = map_option (to_base58 W) (tk_delegate src),
       delegatedAmount = uint (tk_delegated_amount src)\<rparr>"
    "length (tk_owner src) = 32" "\<forall>d. tk_delegate src = Some d \<longrightarrow> length d = 32"
    unfolding deployed_def by (elim conjE exE) blast
  from ok src W have "tk_owner src = pm_owner m" "tk_delegate src = Some k"
    "q_amount r \<le> uint (tk_delegated_amount src)"
    by (auto simp: source_ok_def split: option.splits)
  moreover have "uint (word_of_int (q_amount r) :: u64) = q_amount r"
    using wf(2) by (simp add: request_wf_def)
  ultimately show ?thesis
    using src acc by (auto simp: source_constraints_def payment_params_def word_le_def)
qed

lemma execute_accounts_ok:
  assumes W: "web3_ok W" and dep: "deployed W R c k m tk rk ctx" and ok: "source_ok W r m k ctx"
    and wf: "mandate_wf m" "request_wf r" and open_to: "recipient_open m rk"
    and fresh: "map_of (ch_receipts c) (fst (rt_find R (receipt_seeds k (q_invoiceHash r)))) = None"
    and e: "e = \<lparr>ex_config = fst (rt_find R [str_bytes ''config'']),
       ex_asset_registry = fst (rt_find R [str_bytes ''asset'', pm_allowed_mint m]), ex_mandate = k,
       ex_receipt = fst (rt_find R (receipt_seeds k (q_invoiceHash r))),
       ex_agent = pm_approved_agent m, ex_allowed_mint = pm_allowed_mint m,
       ex_source_token_account = pm_source_token_account m,
       ex_recipient_token_account = rk, ex_token_program = tk\<rparr>"
  shows "\<exists>bump mi. ch_mints c (pm_allowed_mint m) = Some mi \<and> mint_program mi = tk \<and>
     execute_payment_accounts R e (payment_params r) c = Inr (m, bump, mint_decimals mi)"
proof -
  obtain src where "ch_tokens c (pm_source_token_account m) = Some src"
    "source_constraints e m (payment_params r) src = Inr ()"
    using source_constraints_ok [OF W dep ok wf, of e] e by auto
  moreover from dep obtain g where "config_account R (ex_config e) c = Inr g"
    using e by (auto simp: deployed_def is_ok_iff)
  moreover from dep open_to obtain acc where "ch_tokens c rk = Some acc" "recipient_constraints e m acc = Inr ()"
    using e by (auto simp: deployed_def recipient_open_def recipient_constraints_def)
  moreover obtain addr bump where "rt_find R (receipt_seeds k (q_invoiceHash r)) = (addr, bump)" by fastforce
  moreover from dep obtain mi where "ch_mints c (pm_allowed_mint m) = Some mi" "mint_program mi = tk"
    "ch_mandates c k = Some m"
    "asset_registry R (ex_asset_registry e) (pm_allowed_mint m) tk c = Inr ()"
    using e by (auto simp: deployed_def)
  ultimately show ?thesis
    using e fresh by (simp add: execute_payment_accounts_def payment_params_def)
qed

text \<open>What the checks on the source account say of it: its delegate, and a balance that covers the amount.\<close>

lemma preflighted_source:
  assumes W: "web3_ok W" and dep: "deployed W R c k m tk rk ctx" and ok: "source_ok W r m k ctx"
    and src: "ch_tokens c (pm_source_token_account m) = Some src"
  shows "tk_delegate src = Some k \<and> q_amount r \<le> uint (tk_amount src) \<and> q_amount r \<le> uint (tk_delegated_amount src)"
proof -
  have ctx: "ctx = \<lparr>sourceBalance = uint (tk_amount src), sourceOwner = to_base58 W (tk_owner src),
       delegate = map_option (to_base58 W) (tk_delegate src), delegatedAmount = uint (tk_delegated_amount src)\<rparr>"
    and len: "\<forall>d. tk_delegate src = Some d \<longrightarrow> length d = 32"
    using dep src unfolding deployed_def by (elim conjE exE; simp)+
  from ok ctx len W show ?thesis by (auto simp: source_ok_def split: option.splits)
qed

lemma moved_amounts:
  assumes wf: "request_wf r" and le: "q_amount r \<le> uint (a :: u64)" and room: "uint (b :: u64) + q_amount r < 2 ^ 64"
  shows "uint (a - word_of_int (q_amount r)) = uint a - q_amount r"
    and "uint (b + word_of_int (q_amount r)) = uint b + q_amount r"
proof -
  have amount: "uint (word_of_int (q_amount r) :: u64) = q_amount r"
    using wf by (simp add: request_wf_def)
  then show "uint (a - word_of_int (q_amount r)) = uint a - q_amount r"
    using le uint_sub_lem [of "word_of_int (q_amount r)" a] by simp
  from amount show "uint (b + word_of_int (q_amount r)) = uint b + q_amount r"
    using room uint_add_lem [of b "word_of_int (q_amount r)"] by simp
qed

lemma preflighted_transfer:
  assumes W: "web3_ok W" and dep: "deployed W R c k m tk rk ctx" and ok: "source_ok W r m k ctx"
    and wf: "request_wf r"
    and doc: "transfer_checked_documented R c (pm_source_token_account m) (pm_allowed_mint m) rk"
    and src: "ch_tokens c (pm_source_token_account m) = Some src" and dst: "ch_tokens c rk = Some dst"
    and room: "uint (tk_amount dst) + q_amount r < 2 ^ 64"
    and mint: "ch_mints c (pm_allowed_mint m) = Some mi" "mint_program mi = tk"
  obtains T' src' dst' where
    "rt_transfer_checked R (ch_tokens c) (pm_source_token_account m) (pm_allowed_mint m) rk k
       (word_of_int (q_amount r)) (mint_decimals mi) = Some T'"
    "T' (pm_source_token_account m) = Some src'" "T' rk = Some dst'"
    "pm_source_token_account m \<noteq> rk \<Longrightarrow> tk_amount src' = tk_amount src - word_of_int (q_amount r) \<and>
       tk_amount dst' = tk_amount dst + word_of_int (q_amount r)"
proof -
  have amount: "uint (word_of_int (q_amount r) :: u64) = q_amount r"
    using wf by (simp add: request_wf_def)
  have parts: "tk_mint src = pm_allowed_mint m" "tk_program src = tk" "tk_mint dst = pm_allowed_mint m" "tk_program dst = tk"
    using dep src dst unfolding deployed_def by (elim conjE exE; simp)+
  note preflighted_source [OF W dep ok src]
  with src dst mint parts amount room
  have "\<exists>T' s' t'. rt_transfer_checked R (ch_tokens c) (pm_source_token_account m) (pm_allowed_mint m) rk k
       (word_of_int (q_amount r)) (mint_decimals mi) = Some T' \<and>
     T' (pm_source_token_account m) = Some s' \<and> T' rk = Some t' \<and>
     (pm_source_token_account m \<noteq> rk \<longrightarrow> tk_amount s' = tk_amount src - word_of_int (q_amount r) \<and>
        tk_amount t' = tk_amount dst + word_of_int (q_amount r))"
    by (intro doc [unfolded transfer_checked_documented_def, rule_format]) (simp add: word_le_def)
  then show thesis using that by blast
qed

lemma execute_payment_succeeds:
  assumes acc: "execute_payment_accounts R e p c = Inr (m, bump, decimals)"
    and pay: "payment_allowed m p slot"
    and signer: "rt_create R (signer_seeds R (ex_mandate e) m) (pm_bump m) = Some (ex_mandate e)"
    and transfer: "rt_transfer_checked R (ch_tokens c) (ex_source_token_account e) (ex_allowed_mint e)
        (ex_recipient_token_account e) (ex_mandate e) (pp_amount p) decimals = Some T'"
  shows "\<exists>c'. execute_payment R slot e p c = Inr c' \<and> ch_tokens c' = T' \<and>
     ch_mandates c' (ex_mandate e) = Some (charge (pm_amount_spent m + pp_amount p) (pm_payment_count m + 1) slot m) \<and>
     map_of (ch_receipts c') (ex_receipt e) \<noteq> None"
proof -
  from pay unat_u64_less [of "pm_total_limit m"]
  have "checked_add (pm_amount_spent m) (pp_amount p) = Some (pm_amount_spent m + pp_amount p)"
    "checked_add (pm_payment_count m) 1 = Some (pm_payment_count m + 1)"
    by (auto simp: checked_add_def payment_allowed_def)
  with assms show ?thesis
    by (auto simp: execute_payment_def validate_payment_iff [THEN iffD2] Let_def map_of_eq_None_iff)
qed

text \<open>
  C1. End to end: take a mandate account on chain, decode it, run preflight with the fields of its
  source token account, and build the payment instruction. If preflight says valid, the program's
  entry point accepts that instruction: it finds every account it expects at the place it expects,
  its policy passes, and it settles. The amount leaves the source account and arrives at the
  recipient, the mandate is charged with it, and the receipt is recorded at the derived address.
  This holds for a new invoice (no receipt yet at its address), a recipient that an old mandate's
  fixed-recipient slot does not exclude (preflight does not look at that slot), a payment count
  below the u64 limit, and a recipient balance with room for the amount, when the configuration,
  asset, mint and token accounts around the mandate are deployed and \<open>TransferChecked\<close> behaves as
  documented on them.
\<close>

theorem preflighted_payment_settles:
  assumes W: "web3_ok W" and agree: "derivations_agree W R prog" and prog: "publicKey W programId = Inr prog"
    and wf: "mandate_wf m" "length k = 32"
    and dep: "deployed W R c k m tk rk ctx" and open_to: "recipient_open m rk"
    and tp: "q_tokenProgram r = Some tp" "publicKey W (tokenProgramAddress tp) = Inr tk"
    and rk: "publicKey W (q_recipient r) = Inr rk"
    and count: "unat (pm_payment_count m) + 1 < 2 ^ 64"
    and fresh: "map_of (ch_receipts c) (fst (rt_find R (receipt_seeds k (q_invoiceHash r)))) = None"
    and doc: "transfer_checked_documented R c (pm_source_token_account m) (pm_allowed_mint m) rk"
    and src: "ch_tokens c (pm_source_token_account m) = Some src" and dst: "ch_tokens c rk = Some dst"
    and room: "uint (tk_amount dst) + q_amount r < 2 ^ 64"
    and decode: "decodeMandate W (ser_PaymentMandate m) (to_base58 W k) (Some (uint slot)) (Some tp) = Inr M"
    and pre: "preflightPayment W r M (uint slot) (Some agent) False (Some ctx) = Inr pf" and valid: "pf_valid pf"
    and build: "buildExecutePaymentInstruction W r agent M programId = Inr ix"
  shows "\<exists>c' src' dst'. dispatch_execute W R slot ix c = Some (Inr c') \<and>
     ch_tokens c' (pm_source_token_account m) = Some src' \<and> ch_tokens c' rk = Some dst' \<and>
     (pm_source_token_account m \<noteq> rk \<longrightarrow>
        uint (tk_amount src') = uint (tk_amount src) - q_amount r \<and>
        uint (tk_amount dst') = uint (tk_amount dst) + q_amount r) \<and>
     ch_mandates c' k = Some (charge (pm_amount_spent m + word_of_int (q_amount r)) (pm_payment_count m + 1) slot m) \<and>
     map_of (ch_receipts c') (fst (rt_find R (receipt_seeds k (q_invoiceHash r)))) \<noteq> None"
proof -
  have M: "M = mandate_view W m (to_base58 W k) (Some (uint slot)) (Some tp)"
    using decodeMandate_ser [OF W wf(1) address_base58 [OF W wf(2)], of "[]"] decode by simp
  from preflightPayment_valid [OF W wf, of r "Some (uint slot)" "Some tp" "uint slot" "Some agent" False "Some ctx"] pre valid M
  have policy: "policy_ok r M (uint slot)" and source: "source_ok W r m k ctx"
    and agent: "publicKey W agent = Inr (pm_approved_agent m)" and mint: "publicKey W (q_mint r) = Inr (pm_allowed_mint m)"
    by (auto simp: parties_ok_def)
  have lens: "length (pm_source_token_account m) = 32" "length (pm_allowed_mint m) = 32"
    using wf by (simp_all add: mandate_wf_def)
  have view: "m_address M = to_base58 W k" "m_sourceTokenAccount M = to_base58 W (pm_source_token_account m)"
    "m_allowedMint M = to_base58 W (pm_allowed_mint m)"
    using M by (simp_all add: mandate_view_def Let_def)
  note built = build_execute_keys [OF W agree prog view(1) wf(2) view(2) lens(1) view(3) lens(2) mint agent rk tp build]
  let ?e = "\<lparr>ex_config = fst (rt_find R [str_bytes ''config'']),
       ex_asset_registry = fst (rt_find R [str_bytes ''asset'', pm_allowed_mint m]), ex_mandate = k,
       ex_receipt = fst (rt_find R (receipt_seeds k (q_invoiceHash r))),
       ex_agent = pm_approved_agent m, ex_allowed_mint = pm_allowed_mint m,
       ex_source_token_account = pm_source_token_account m,
       ex_recipient_token_account = rk, ex_token_program = tk\<rparr>"
  obtain bump mi where mi: "ch_mints c (pm_allowed_mint m) = Some mi" "mint_program mi = tk"
    and acc: "execute_payment_accounts R ?e (payment_params r) c = Inr (m, bump, mint_decimals mi)"
    using execute_accounts_ok [OF W dep source wf(1) built(2) open_to fresh refl] by auto
  obtain T' src' dst' where T': "rt_transfer_checked R (ch_tokens c) (pm_source_token_account m) (pm_allowed_mint m) rk k
       (word_of_int (q_amount r)) (mint_decimals mi) = Some T'"
    "T' (pm_source_token_account m) = Some src'" "T' rk = Some dst'"
    and moved: "pm_source_token_account m \<noteq> rk \<Longrightarrow> tk_amount src' = tk_amount src - word_of_int (q_amount r) \<and>
       tk_amount dst' = tk_amount dst + word_of_int (q_amount r)"
    using preflighted_transfer [OF W dep source built(2) doc src dst room mi] by blast
  have amounts: "pm_source_token_account m \<noteq> rk \<Longrightarrow> uint (tk_amount src') = uint (tk_amount src) - q_amount r \<and>
       uint (tk_amount dst') = uint (tk_amount dst) + q_amount r"
    using moved moved_amounts [OF built(2) _ room, of "tk_amount src"] preflighted_source [OF W dep source src]
    by simp
  have pay: "payment_allowed m (payment_params r) slot"
    using policy policy_ok_view [OF built(2) count] M by (simp add: validate_payment_iff)
  have signer: "rt_create R (signer_seeds R (ex_mandate ?e) m) (pm_bump m) = Some (ex_mandate ?e)"
    using dep by (simp add: deployed_def)
  obtain c' where c': "execute_payment R slot ?e (payment_params r) c = Inr c'" and tokens: "ch_tokens c' = T'"
    and charged: "ch_mandates c' k = Some (charge (pm_amount_spent m + word_of_int (q_amount r)) (pm_payment_count m + 1) slot m)"
    and rec: "map_of (ch_receipts c') (ex_receipt ?e) \<noteq> None"
    using execute_payment_succeeds [OF acc pay signer, of T'] T'(1) by (auto simp: payment_params_def)
  have "parse_PaymentParams (ser_PaymentParams (payment_params r)) = Some (payment_params r)"
    using built(2) by (intro parse_ser_PaymentParams) (simp_all add: request_wf_def payment_params_def)
  then have "dispatch_execute W R slot ix c = Some (execute_payment R slot ?e (payment_params r) c)"
    unfolding dispatch_execute_def built(1) built(3) by (simp add: DISC_executePayment_def)
  with c' rec tokens charged T'(2,3) amounts show ?thesis by auto
qed

section \<open>A concrete chain\<close>

definition sample_token :: "bytes \<Rightarrow> u64 \<Rightarrow> pubkey option \<Rightarrow> TokenAccount" where
  "sample_token owner amount delegatee = \<lparr>tk_program = sample_key SPL_TOKEN_PROGRAM_ID, tk_mint = replicate 32 4,
     tk_owner = owner, tk_amount = amount, tk_delegate = delegatee, tk_delegated_amount = amount\<rparr>"

definition sample_chain :: chain where
  "sample_chain = \<lparr>
     ch_config = Some (sample_pda [str_bytes ''config''],
       \<lparr>cfg_authority = replicate 32 1, cfg_supported_mints = [replicate 32 4, default_key, default_key], cfg_bump = 255\<rparr>),
     ch_assets = [sample_pda [str_bytes ''asset'', replicate 32 4] \<mapsto>
       \<lparr>sa_authority = replicate 32 1, sa_mint = replicate 32 4, sa_token_program = sample_key SPL_TOKEN_PROGRAM_ID,
        sa_enabled = True, sa_bump = 255\<rparr>],
     ch_mandates = [sample_mandate_key \<mapsto> sample_mandate], ch_receipts = [],
     ch_tokens = [replicate 32 3 \<mapsto> sample_token (replicate 32 1) 700 (Some sample_mandate_key),
                  replicate 32 6 \<mapsto> sample_token (replicate 32 5) 0 None],
     ch_mints = [replicate 32 4 \<mapsto> \<lparr>mint_program = sample_key SPL_TOKEN_PROGRAM_ID, mint_decimals = 6\<rparr>]\<rparr>"

definition sample_context :: PaymentPreflightContext where
  "sample_context = \<lparr>sourceBalance = 700, sourceOwner = to_base58 sample_web3 (replicate 32 1),
     delegate = Some (to_base58 sample_web3 sample_mandate_key), delegatedAmount = 700\<rparr>"

lemma sample_deployed:
  "deployed sample_web3 sample_runtime sample_chain sample_mandate_key sample_mandate
     (sample_key SPL_TOKEN_PROGRAM_ID) (replicate 32 6) sample_context"
  by (simp add: deployed_def sample_chain_def sample_runtime_def config_account_def asset_registry_def
      sample_mandate_def sample_token_def sample_context_def signer_seeds_def sample_mandate_key_def
      is_mandate_nonce_def Let_def)

lemma sample_transfer_documented:
  "transfer_checked_documented sample_runtime sample_chain (replicate 32 3) (replicate 32 4) (replicate 32 6)"
  by (simp add: transfer_checked_documented_def sample_runtime_def sample_chain_def sample_transfer_def
      sample_token_def)

lemma sample_preflight_source:
  "\<exists>pf. preflightPayment sample_web3 (sample_request 5 40) sample_view 500
      (Some (to_base58 sample_web3 (replicate 32 2))) False (Some sample_context) = Inr pf \<and> pf_valid pf"
  by (simp add: preflightPayment_def sourceAccountChecks_def sample_context_def sample_eval)

lemma sample_build:
  "\<exists>ix. buildExecutePaymentInstruction sample_web3 (sample_request 5 40) (to_base58 sample_web3 (replicate 32 2))
      sample_view DEFAULT_PROGRAM_ID = Inr ix"
  by (simp add: buildExecutePaymentInstruction_def instruction_def deriveConfigAddress_def
      deriveAssetAddress_def deriveReceiptAddress_def pda_def meta_def address_def bytes32_def
      encodePayment_def concatR_def writeU64_def sample_defs mandate_view_def Let_def)

theorem preflighted_payment_settles_witness:
  "\<exists>ix c' dst'. buildExecutePaymentInstruction sample_web3 (sample_request 5 40) (to_base58 sample_web3 (replicate 32 2))
      sample_view DEFAULT_PROGRAM_ID = Inr ix \<and>
     dispatch_execute sample_web3 sample_runtime 500 ix sample_chain = Some (Inr c') \<and>
     ch_tokens c' (replicate 32 6) = Some dst' \<and> uint (tk_amount dst') = 40"
proof -
  have agree: "derivations_agree sample_web3 sample_runtime (sample_key DEFAULT_PROGRAM_ID)"
    by (simp add: derivations_agree_def sample_runtime_def)
  have wf: "mandate_wf sample_mandate" by (simp add: sample_mandate_def mandate_wf_def)
  have open_to: "recipient_open sample_mandate (replicate 32 6)"
    by (simp add: recipient_open_def sample_mandate_def default_key_def)
  have req: "q_tokenProgram (sample_request 5 40) = Some SplToken"
    "publicKey sample_web3 (tokenProgramAddress SplToken) = Inr (sample_key SPL_TOKEN_PROGRAM_ID)"
    "publicKey sample_web3 (q_recipient (sample_request 5 40)) = Inr (replicate 32 6)"
    by (simp_all add: sample_request_def)
  have count: "unat (pm_payment_count sample_mandate) + 1 < 2 ^ 64" by (simp add: sample_mandate_def)
  have fresh: "map_of (ch_receipts sample_chain) a = None" for a by (simp add: sample_chain_def)
  have doc: "transfer_checked_documented sample_runtime sample_chain (pm_source_token_account sample_mandate)
      (pm_allowed_mint sample_mandate) (replicate 32 6)"
    using sample_transfer_documented by (simp add: sample_mandate_def)
  have tokens: "ch_tokens sample_chain (pm_source_token_account sample_mandate)
      = Some (sample_token (replicate 32 1) 700 (Some sample_mandate_key))"
    "ch_tokens sample_chain (replicate 32 6) = Some (sample_token (replicate 32 5) 0 None)"
    by (simp_all add: sample_chain_def sample_mandate_def)
  have room: "uint (tk_amount (sample_token (replicate 32 5) 0 None)) + q_amount (sample_request 5 40) < 2 ^ 64"
    by (simp add: sample_token_def sample_request_def)
  have decode: "decodeMandate sample_web3 (ser_PaymentMandate sample_mandate)
      (to_base58 sample_web3 sample_mandate_key) (Some (uint (500 :: u64))) (Some SplToken) = Inr sample_view"
    using decodeMandate_ser [OF sample_web3_ok wf address_base58 [OF sample_web3_ok], of sample_mandate_key "[]"]
    by (simp add: sample_view_def)
  obtain pf where pf: "preflightPayment sample_web3 (sample_request 5 40) sample_view (uint (500 :: u64))
      (Some (to_base58 sample_web3 (replicate 32 2))) False (Some sample_context) = Inr pf" "pf_valid pf"
    using sample_preflight_source by auto
  obtain ix where ix: "buildExecutePaymentInstruction sample_web3 (sample_request 5 40)
      (to_base58 sample_web3 (replicate 32 2)) sample_view DEFAULT_PROGRAM_ID = Inr ix"
    using sample_build by blast
  have apart: "pm_source_token_account sample_mandate \<noteq> replicate 32 6" by (simp add: sample_mandate_def)
  have "uint (tk_amount (sample_token (replicate 32 5) 0 None)) + q_amount (sample_request 5 40) = 40"
    by (simp add: sample_token_def sample_request_def)
  with preflighted_payment_settles [OF sample_web3_ok agree _ wf length_sample_mandate_key sample_deployed open_to
      req count fresh doc tokens room decode pf ix] ix apart show ?thesis by fastforce
qed

section \<open>Where preflight is weaker than the program\<close>

text \<open>
  Preflight never looks at an old mandate's fixed recipient, while the program pays that recipient only.
\<close>

lemma preflight_ignores_fixed_recipient:
  "preflightPayment W r (M\<lparr>m_legacyAllowedRecipient := x\<rparr>) slot agent dup ctx = preflightPayment W r M slot agent dup ctx"
proof -
  have "sourceAccountChecks W r (M\<lparr>m_legacyAllowedRecipient := x\<rparr>) s = sourceAccountChecks W r M s" for s
    by (cases "delegate s") (simp_all add: sourceAccountChecks_def Let_def)
  then show ?thesis by (cases ctx; cases agent) (simp_all add: preflightPayment_def Let_def)
qed

lemma fixed_recipient_refused:
  assumes "ch_mandates c (ex_mandate e) = Some m" and "\<not> recipient_open m (ex_recipient_token_account e)"
  shows "execute_payment R slot e p c \<noteq> Inr c'"
proof -
  have "recipient_constraints e m rcp = Inl InvalidRecipient" for rcp
    using assms(2) by (simp add: recipient_constraints_def recipient_open_def require_def)
  then have "execute_payment_accounts R e p c \<noteq> Inr x" for x
    using assms(1) by (auto simp: execute_payment_accounts_def result_simps Let_def split: prod.splits)
  then show ?thesis by (auto simp: execute_payment_def result_simps)
qed

text \<open>
  A batch may name one invoice twice: each entry alone is new, and no batch check compares invoices. The
  program settles the first and refuses the second, so the atomic batch fails.
\<close>

lemma batch_repeats_invoice:
  "\<exists>bp. preflightPaymentBatch sample_web3 [sample_entry 5 40, sample_entry 5 60] 500 = Inr bp \<and> bp_valid bp"
  by (simp add: preflightPaymentBatch_def prepare_entry_def preflightPayment_def
      batchChecksForMandateGroup_def sample_eval)

lemma repeated_invoice_refused:
  assumes "ex_mandate e1 = ex_mandate e2" and "pp_invoice_hash p1 = pp_invoice_hash p2"
    and first: "execute_payment R slot e1 p1 c = Inr c'"
  shows "execute_payment R slot e2 p2 c' \<noteq> Inr c''"
proof
  assume second: "execute_payment R slot e2 p2 c' = Inr c''"
  obtain a b where ab: "rt_find R (receipt_seeds (ex_mandate e1) (pp_invoice_hash p1)) = (a, b)" by fastforce
  have "map_of (ch_receipts c') a \<noteq> None"
    using first ab
    by (auto simp: execute_payment_def execute_payment_accounts_def result_simps Let_def map_add_def
        split: prod.splits option.splits)
  moreover have "map_of (ch_receipts c') a = None"
    using second ab assms(1,2) by (auto simp: execute_payment_def execute_payment_accounts_def result_simps Let_def split: prod.splits)
  ultimately show False by simp
qed

end
