(* ===== verification/Text.thy ===== *)
theory Text
  imports JsText
begin

text \<open>
  JavaScript strings with all of Unicode, as the sources that sign and hash text use them. A string
  is the list of its code points (\<open>Array.from(s)\<close>); a lone surrogate is its own element. Modelled:
  \<open>trim\<close>, \<open>length\<close> in UTF-16 units, \<open>TextEncoder.encode\<close>, the string and object cases of
  \<open>JSON.stringify\<close>, and base64 (\<open>atob\<close>, \<open>btoa\<close>). The lemmas show that escaping and UTF-8 lose
  nothing, so that signed or hashed bytes determine the text.
\<close>

type_synonym jstext = "nat list"

definition jstr :: "string \<Rightarrow> jstext" where
  "jstr s = map of_char s"

definition text_ok :: "jstext \<Rightarrow> bool" where
  "text_ok s \<longleftrightarrow> (\<forall>c \<in> set s. c < 0x110000)"

definition is_surrogate :: "nat \<Rightarrow> bool" where
  "is_surrogate c \<longleftrightarrow> 0xd800 \<le> c \<and> c \<le> 0xdfff"

text \<open>\<open>s.length\<close>: UTF-16 code units.\<close>

definition units :: "jstext \<Rightarrow> nat" where
  "units s = sum_list (map (\<lambda>c. if c \<ge> 0x10000 then 2 else 1) s)"

section \<open>Trimming and character classes\<close>

definition js_space :: "nat \<Rightarrow> bool" where
  "js_space c \<longleftrightarrow> 9 \<le> c \<and> c \<le> 13 \<or> c = 32 \<or> c = 160 \<or> c = 0x1680 \<or> 0x2000 \<le> c \<and> c \<le> 0x200a \<or>
     c = 0x2028 \<or> c = 0x2029 \<or> c = 0x202f \<or> c = 0x205f \<or> c = 0x3000 \<or> c = 0xfeff"

definition js_trim :: "jstext \<Rightarrow> jstext" where
  "js_trim s = rev (dropWhile js_space (rev (dropWhile js_space s)))"

text \<open>\<open>Array.prototype.join\<close>\<close>

fun join_text :: "jstext \<Rightarrow> jstext list \<Rightarrow> jstext" where
  "join_text sep [] = []"
| "join_text sep [x] = x"
| "join_text sep (x # y # ys) = x @ sep @ join_text sep (y # ys)"

lemma js_trim_empty_iff: "js_trim s = [] \<longleftrightarrow> (\<forall>c \<in> set s. js_space c)"
proof -
  have "js_trim s = [] \<longleftrightarrow> dropWhile js_space (rev (dropWhile js_space s)) = []"
    by (simp add: js_trim_def)
  also have "\<dots> \<longleftrightarrow> (\<forall>c \<in> set (dropWhile js_space s). js_space c)" by simp
  also have "\<dots> \<longleftrightarrow> (\<forall>c \<in> set s. js_space c)"
    by (metis dropWhile_eq_Nil_conv hd_dropWhile hd_in_set set_dropWhileD)
  finally show ?thesis .
qed

definition cp_digit :: "nat \<Rightarrow> bool" where
  "cp_digit c \<longleftrightarrow> 48 \<le> c \<and> c \<le> 57"

text \<open>\<open>/^\\d+$/\<close>, \<open>BigInt\<close> of such a string, and \<open>/^\\d+(\\.\\d+)?$/\<close>.\<close>

definition digits_text :: "jstext \<Rightarrow> bool" where
  "digits_text s \<longleftrightarrow> s \<noteq> [] \<and> list_all cp_digit s"

definition text_int :: "jstext \<Rightarrow> int" where
  "text_int s = foldl (\<lambda>a c. 10 * a + (int c - 48)) 0 s"

definition decimal_text :: "jstext \<Rightarrow> bool" where
  "decimal_text s =
     (let whole = takeWhile (\<lambda>c. c \<noteq> 46) s; rest = dropWhile (\<lambda>c. c \<noteq> 46) s in
      digits_text whole \<and> (rest = [] \<or> digits_text (tl rest)))"

section \<open>UTF-8\<close>

definition utf8_cp :: "nat \<Rightarrow> bytes" where
  "utf8_cp c = map word_of_nat
     (if c < 0x80 then [c]
      else if c < 0x800 then [0xc0 + c div 64, 0x80 + c mod 64]
      else if is_surrogate c then [0xef, 0xbf, 0xbd]
      else if c < 0x10000 then [0xe0 + c div 4096, 0x80 + c div 64 mod 64, 0x80 + c mod 64]
      else [0xf0 + c div 262144, 0x80 + c div 4096 mod 64, 0x80 + c div 64 mod 64, 0x80 + c mod 64])"

definition utf8 :: "jstext \<Rightarrow> bytes" where
  "utf8 s = concat (map utf8_cp s)"

definition scalar :: "nat \<Rightarrow> bool" where
  "scalar c \<longleftrightarrow> c < 0x110000 \<and> \<not> is_surrogate c"

text \<open>What the bytes of one code point say of it.\<close>

definition utf8_head :: "nat \<Rightarrow> nat" where
  "utf8_head c = (if c < 0x80 then c else if c < 0x800 then 0xc0 + c div 64
     else if c < 0x10000 then 0xe0 + c div 4096 else 0xf0 + c div 262144)"

lemma byte_of_nat_eq: "a < 256 \<Longrightarrow> b < 256 \<Longrightarrow> (word_of_nat a :: byte) = word_of_nat b \<longleftrightarrow> a = b"
  by (auto simp: word_of_nat_eq_iff take_bit_nat_eq_self)

lemma utf8_head_bounds:
  assumes "c < 0x110000"
  shows "utf8_head c < 256"
    and "utf8_head c < 128 \<longleftrightarrow> c < 0x80"
    and "utf8_head c < 0xe0 \<longleftrightarrow> c < 0x800"
    and "utf8_head c < 0xf0 \<longleftrightarrow> c < 0x10000"
  using assms by (auto simp: utf8_head_def)

lemma div_mod_join: "(c :: nat) div 64 = d div 64 \<Longrightarrow> c mod 64 = d mod 64 \<Longrightarrow> c = d"
  by (metis div_mult_mod_eq)

lemma div64_split:
  "(c :: nat) div 4096 = d div 4096 \<Longrightarrow> c div 64 mod 64 = d div 64 mod 64 \<Longrightarrow> c div 64 = d div 64"
  "(c :: nat) div 262144 = d div 262144 \<Longrightarrow> c div 4096 mod 64 = d div 4096 mod 64 \<Longrightarrow> c div 4096 = d div 4096"
  using div_mod_join [of "c div 64" "d div 64"] div_mod_join [of "c div 4096" "d div 4096"]
  by (simp_all add: div_mult2_eq [symmetric])

lemma utf8_cp_append_inject:
  assumes c: "scalar c" and d: "scalar d" and eq: "utf8_cp c @ xs = utf8_cp d @ ys"
  shows "c = d \<and> xs = ys"
proof -
  have bounds: "c < 0x110000" "d < 0x110000" "\<not> is_surrogate c" "\<not> is_surrogate d"
    using c d by (simp_all add: scalar_def)
  have hd_c: "\<exists>t. utf8_cp c = word_of_nat (utf8_head c) # t" and hd_d: "\<exists>t. utf8_cp d = word_of_nat (utf8_head d) # t"
    using bounds by (simp_all add: utf8_cp_def utf8_head_def)
  with eq have "(word_of_nat (utf8_head c) :: byte) = word_of_nat (utf8_head d)" by auto
  then have heads: "utf8_head c = utf8_head d"
    using utf8_head_bounds(1) bounds byte_of_nat_eq by simp
  have ranges: "c < 0x80 \<longleftrightarrow> d < 0x80" "c < 0x800 \<longleftrightarrow> d < 0x800" "c < 0x10000 \<longleftrightarrow> d < 0x10000"
    using heads utf8_head_bounds [OF bounds(1)] utf8_head_bounds [OF bounds(2)] by metis+
  note parts = byte_of_nat_eq div_mod_join div64_split
  consider "c < 0x80" | "0x80 \<le> c" "c < 0x800" | "0x800 \<le> c" "c < 0x10000" | "0x10000 \<le> c" by linarith
  then show ?thesis
  proof cases
    case 1
    with eq ranges heads show ?thesis by (simp add: utf8_cp_def utf8_head_def)
  next
    case 2
    with eq ranges heads bounds show ?thesis
      by (auto simp: utf8_cp_def utf8_head_def byte_of_nat_eq intro: div_mod_join)
  next
    case 3
    with eq ranges heads bounds have "c div 4096 = d div 4096" "c div 64 mod 64 = d div 64 mod 64" "c mod 64 = d mod 64" "xs = ys"
      by (auto simp: utf8_cp_def utf8_head_def byte_of_nat_eq)
    then show ?thesis using div64_split(1) div_mod_join by blast
  next
    case 4
    with eq ranges heads bounds have "c div 262144 = d div 262144" "c div 4096 mod 64 = d div 4096 mod 64"
      "c div 64 mod 64 = d div 64 mod 64" "c mod 64 = d mod 64" "xs = ys"
      by (auto simp: utf8_cp_def utf8_head_def byte_of_nat_eq)
    then show ?thesis using div64_split div_mod_join by metis
  qed
qed

lemma utf8_cp_not_Nil: "utf8_cp c \<noteq> []"
  by (simp add: utf8_cp_def)

lemma utf8_inject:
  assumes "list_all scalar s" and "list_all scalar t" and "utf8 s = utf8 t"
  shows "s = t"
  using assms
proof (induction s arbitrary: t)
  case Nil
  then show ?case by (cases t) (simp_all add: utf8_def utf8_cp_not_Nil)
next
  case (Cons c s)
  from Cons.prems(3) have "t \<noteq> []" by (auto simp: utf8_def utf8_cp_not_Nil)
  then obtain d t' where t: "t = d # t'" by (cases t) simp_all
  have eq: "utf8_cp c @ utf8 s = utf8_cp d @ utf8 t'" using Cons.prems(3) t by (simp add: utf8_def)
  have "scalar c" "scalar d" using Cons.prems(1,2) t by simp_all
  from utf8_cp_append_inject [OF this eq] Cons t show ?case by simp
qed

section \<open>JSON\<close>

text \<open>
  \<open>JSON.stringify\<close> on a code point inside a string: quotes, backslash and the short escapes, other
  control characters and lone surrogates as four lower-case hexadecimal digits, the rest as is.
\<close>

definition hex4 :: "nat \<Rightarrow> jstext" where
  "hex4 c = jstr [digit_char (c div 4096 mod 16), digit_char (c div 256 mod 16),
     digit_char (c div 16 mod 16), digit_char (c mod 16)]"

definition json_char :: "nat \<Rightarrow> jstext" where
  "json_char c =
     (if c = 34 then [92, 34] else if c = 92 then [92, 92]
      else if c = 8 then [92, 98] else if c = 12 then [92, 102]
      else if c = 10 then [92, 110] else if c = 13 then [92, 114] else if c = 9 then [92, 116]
      else if c < 32 \<or> is_surrogate c then [92, 117] @ hex4 c
      else [c])"

definition json_str :: "jstext \<Rightarrow> jstext" where
  "json_str s = [34] @ concat (map json_char s) @ [34]"

text \<open>JSON values, members in insertion order, and how \<open>JSON.stringify\<close> prints them.\<close>

datatype json = JNull | JBool bool | JNum jsnum | JStr jstext | JArr "json list" | JObj "(jstext \<times> json) list"

text \<open>\<open>===\<close> of values read from the request: two objects are never the same.\<close>

definition strictly_equal :: "json option \<Rightarrow> json option \<Rightarrow> bool" where
  "strictly_equal a b \<longleftrightarrow> a = b \<and> (case a of Some (JObj _) \<Rightarrow> False | Some (JArr _) \<Rightarrow> False | _ \<Rightarrow> True)"

definition json_num :: "jsnum \<Rightarrow> jstext" where
  "json_num n = (case n of NInt v \<Rightarrow> jstr (int_dec v) | NonInt t \<Rightarrow> jstr t)"

fun print_json :: "json \<Rightarrow> jstext"
  and print_items :: "json list \<Rightarrow> jstext"
  and print_members :: "(jstext \<times> json) list \<Rightarrow> jstext" where
  "print_json JNull = jstr ''null''"
| "print_json (JBool b) = jstr (if b then ''true'' else ''false'')"
| "print_json (JNum n) = json_num n"
| "print_json (JStr s) = json_str s"
| "print_json (JArr xs) = [91] @ print_items xs"
| "print_json (JObj ms) = [123] @ print_members ms"
| "print_items [] = [93]"
| "print_items [x] = print_json x @ [93]"
| "print_items (x # y # xs) = print_json x @ [44] @ print_items (y # xs)"
| "print_members [] = [125]"
| "print_members [(k, v)] = json_str k @ [58] @ print_json v @ [125]"
| "print_members ((k, v) # m # ms) = json_str k @ [58] @ print_json v @ [44] @ print_members (m # ms)"

lemma digit_char_inject:
  assumes "a < 16" and "b < 16"
  shows "digit_char a = digit_char b \<longleftrightarrow> a = b"
proof -
  have "digit_val (digit_char a) = a" "digit_val (digit_char b) = b" using assms by simp_all
  then show ?thesis by metis
qed

lemma of_char_digit: "d < 16 \<Longrightarrow> (of_char (digit_char d) :: nat) = (if d < 10 then 48 + d else 87 + d)"
  by (simp add: digit_char_def)

lemma hex_digits_sum:
  assumes "x < (65536 :: nat)"
  shows "x = x div 4096 mod 16 * 4096 + x div 256 mod 16 * 256 + x div 16 mod 16 * 16 + x mod 16"
proof -
  have "x div 4096 < 16" using assms by (simp add: less_mult_imp_div_less)
  then have "x div 4096 mod 16 = x div 4096" by simp
  moreover have "x div 256 = x div 4096 * 16 + x div 256 mod 16"
    using div_mult_mod_eq [of "x div 256" 16] by (simp add: div_mult2_eq [symmetric])
  moreover have "x div 16 = x div 256 * 16 + x div 16 mod 16"
    using div_mult_mod_eq [of "x div 16" 16] by (simp add: div_mult2_eq [symmetric])
  moreover have "x = x div 16 * 16 + x mod 16" by simp
  ultimately show ?thesis by linarith
qed

lemma hex4_inject:
  assumes "c < 65536" and "d < 65536" and "hex4 c = hex4 d"
  shows "c = d"
proof -
  have "c div 4096 mod 16 = d div 4096 mod 16" "c div 256 mod 16 = d div 256 mod 16"
    "c div 16 mod 16 = d div 16 mod 16" "c mod 16 = d mod 16"
    using assms(3) by (simp_all add: hex4_def jstr_def digit_char_inject)
  then show ?thesis using hex_digits_sum [OF assms(1)] hex_digits_sum [OF assms(2)] by simp
qed

text \<open>Escaping is a prefix code whose words never start with the closing quote.\<close>

definition json_kind :: "nat \<Rightarrow> nat" where
  "json_kind c = (if c = 34 then 34 else if c = 92 then 92 else if c = 8 then 98 else if c = 12 then 102
     else if c = 10 then 110 else if c = 13 then 114 else if c = 9 then 116
     else if c < 32 \<or> is_surrogate c then 117 else 0)"

lemma json_char_cases:
  "json_char c = (if json_kind c = 0 then [c]
     else if json_kind c = 117 then [92, 117] @ hex4 c else [92, json_kind c])"
  by (simp add: json_char_def json_kind_def)

lemma json_kind_inject:
  "json_kind c = json_kind d \<Longrightarrow> json_kind c \<noteq> 0 \<Longrightarrow> json_kind c \<noteq> 117 \<Longrightarrow> c = d"
  by (simp add: json_kind_def split: if_splits)

lemma json_kind_plain: "json_kind c = 0 \<Longrightarrow> c \<noteq> 92 \<and> c \<noteq> 34"
  by (simp add: json_kind_def split: if_splits)

lemma json_kind_117: "json_kind c = 117 \<Longrightarrow> c < 65536"
  by (auto simp: json_kind_def is_surrogate_def split: if_splits)

lemma length_hex4 [simp]: "length (hex4 c) = 4"
  by (simp add: hex4_def jstr_def)

lemma json_char_append_inject:
  assumes "json_char c @ xs = json_char d @ ys"
  shows "c = d \<and> xs = ys"
proof (cases "json_kind c = 0 \<or> json_kind d = 0")
  case True
  with assms json_kind_plain [of c] json_kind_plain [of d] show ?thesis
    by (auto simp: json_char_cases split: if_splits)
next
  case False
  with assms have kind: "json_kind c = json_kind d"
    by (auto simp: json_char_cases split: if_splits)
  show ?thesis
  proof (cases "json_kind c = 117")
    case True
    with assms kind have "hex4 c = hex4 d" "xs = ys" by (auto simp: json_char_cases)
    with True kind json_kind_117 hex4_inject show ?thesis by metis
  next
    case no: False
    have "c = d" by (rule json_kind_inject [OF kind]) (use False no in simp_all)
    with assms show ?thesis by simp
  qed
qed

lemma json_char_head: "json_char c \<noteq> []" "hd (json_char c) \<noteq> 34"
  using json_kind_plain [of c] by (auto simp: json_char_cases)

lemma json_body_inject:
  assumes "concat (map json_char s) @ [34] @ xs = concat (map json_char t) @ [34] @ ys"
  shows "s = t \<and> xs = ys"
  using assms
proof (induction s arbitrary: t)
  case Nil
  show ?case
  proof (cases t)
    case (Cons d t')
    with Nil have "34 # xs = json_char d @ concat (map json_char t') @ [34] @ ys" by simp
    with json_char_head [of d] show ?thesis by (cases "json_char d") auto
  qed (use Nil in simp)
next
  case (Cons c s)
  show ?case
  proof (cases t)
    case Nil
    with Cons.prems have "34 # ys = json_char c @ concat (map json_char s) @ [34] @ xs" by simp
    with json_char_head [of c] show ?thesis by (cases "json_char c") auto
  next
    case (Cons d t')
    then have "json_char c @ (concat (map json_char s) @ [34] @ xs) = json_char d @ (concat (map json_char t') @ [34] @ ys)"
      using Cons.prems by simp
    from json_char_append_inject [OF this] Cons.IH Cons show ?thesis by blast
  qed
qed

lemma json_str_append_inject: "json_str s @ xs = json_str t @ ys \<Longrightarrow> s = t \<and> xs = ys"
  using json_body_inject [of s xs t ys] by (simp add: json_str_def)

text \<open>What \<open>JSON.stringify\<close> prints has no lone surrogates.\<close>

lemma scalar_small: "c < 128 \<Longrightarrow> scalar c"
  by (simp add: scalar_def is_surrogate_def)

lemma scalar_jstr: "list_all scalar (jstr s)"
proof -
  have "scalar (of_char c)" for c
  proof -
    have "(of_char c :: nat) < 256" by (metis of_char_mod_256 mod_less_divisor zero_less_numeral)
    then show ?thesis unfolding scalar_def is_surrogate_def by linarith
  qed
  then show ?thesis by (simp add: jstr_def list_all_iff)
qed

lemma scalar_json_char: "c < 0x110000 \<Longrightarrow> list_all scalar (json_char c)"
  using scalar_jstr by (auto simp: json_char_def hex4_def scalar_def is_surrogate_def)

lemma scalar_json_str: "text_ok s \<Longrightarrow> list_all scalar (json_str s)"
  using scalar_json_char by (auto simp: json_str_def text_ok_def list_all_iff scalar_small)

text \<open>
  Printing determines the value: two values with integer numbers whose texts agree up to what
  follows them are equal. A value is always followed by a comma, a closing bracket, or nothing.
\<close>

fun plain :: "json \<Rightarrow> bool"
  and plain_items :: "json list \<Rightarrow> bool"
  and plain_members :: "(jstext \<times> json) list \<Rightarrow> bool" where
  "plain (JNum (NonInt t)) = False"
| "plain (JArr xs) = plain_items xs"
| "plain (JObj ms) = plain_members ms"
| "plain (JStr s) = text_ok s"
| "plain JNull = True"
| "plain (JBool b) = True"
| "plain (JNum (NInt v)) = True"
| "plain_items [] = True"
| "plain_items (x # xs) = (plain x \<and> plain_items xs)"
| "plain_members [] = True"
| "plain_members ((k, v) # ms) = (text_ok k \<and> plain v \<and> plain_members ms)"

definition delimited :: "jstext \<Rightarrow> bool" where
  "delimited xs \<longleftrightarrow> xs = [] \<or> hd xs \<in> {44, 93, 125}"

definition num_char :: "nat \<Rightarrow> bool" where
  "num_char c \<longleftrightarrow> 48 \<le> c \<and> c \<le> 57 \<or> c = 45"

lemma num_chars: "\<forall>c \<in> set (jstr (int_dec v)). num_char c"
proof -
  have "num_char (of_char c)" if "is_digit c" for c
    using that by (simp add: is_digit_def num_char_def Let_def)
  moreover have "\<forall>c \<in> set (nat_dec n). is_digit c" for n
    using is_digits_nat_dec [of n] by (simp add: is_digits_def list_all_iff)
  ultimately show ?thesis by (auto simp: jstr_def int_dec_def num_char_def)
qed

lemma int_dec_not_Nil: "int_dec v \<noteq> []"
  by (simp add: int_dec_def)

lemma int_dec_inject: "int_dec v = int_dec w \<Longrightarrow> v = w"
proof -
  assume eq: "int_dec v = int_dec w"
  have minus: "nat_dec n \<noteq> CHR ''-'' # t" for n t
    using is_digits_nat_dec [of n] by (auto simp: is_digits_def is_digit_def)
  from eq show ?thesis
    using minus by (auto simp: int_dec_def nat_dec_inject eq_commute [of "CHR ''-'' # _"] split: if_splits)
qed

lemma jstr_inject: "jstr s = jstr t \<longleftrightarrow> s = t"
  unfolding jstr_def by (rule inj_map_eq_map) (rule inj_of_char)

lemma split_at_stop:
  assumes "\<forall>c \<in> set s. P c" and "\<forall>c \<in> set t. P c" and "xs = [] \<or> \<not> P (hd xs)" and "ys = [] \<or> \<not> P (hd ys)"
    and "s @ xs = t @ ys"
  shows "s = t \<and> xs = ys"
proof -
  have "takeWhile P (s @ xs) = s" "takeWhile P (t @ ys) = t"
    using assms(1-4) by (auto simp: takeWhile_eq_Nil_iff)
  with assms(5) show ?thesis by (metis append_eq_append_conv)
qed

lemma json_num_append_inject:
  assumes "jstr (int_dec v) @ xs = jstr (int_dec w) @ ys" and "delimited xs" and "delimited ys"
  shows "v = w \<and> xs = ys"
proof -
  have "xs = [] \<or> \<not> num_char (hd xs)" "ys = [] \<or> \<not> num_char (hd ys)"
    using assms(2,3) by (auto simp: delimited_def num_char_def)
  from split_at_stop [OF num_chars num_chars this assms(1)] show ?thesis
    by (auto simp: jstr_inject dest: int_dec_inject)
qed

text \<open>The first character tells which kind of value follows.\<close>

definition head_kind :: "nat \<Rightarrow> nat" where
  "head_kind c = (if num_char c then 1 else c)"

fun value_kind :: "json \<Rightarrow> nat" where
  "value_kind JNull = 110"
| "value_kind (JBool b) = (if b then 116 else 102)"
| "value_kind (JNum n) = 1"
| "value_kind (JStr s) = 34"
| "value_kind (JArr xs) = 91"
| "value_kind (JObj ms) = 123"

lemma print_json_head:
  assumes "plain j"
  shows "print_json j \<noteq> []" and "head_kind (hd (print_json j)) = value_kind j"
proof -
  have num: "jstr (int_dec v) \<noteq> []" "num_char (hd (jstr (int_dec v)))" for v
    using num_chars [of v] int_dec_not_Nil [of v] by (auto simp: jstr_def hd_map)
  show "print_json j \<noteq> []" "head_kind (hd (print_json j)) = value_kind j"
    using assms num by (cases j rule: value_kind.cases; auto simp: jstr_def json_str_def head_kind_def num_char_def json_num_def split: jsnum.splits)+
qed

lemma same_kind:
  assumes "plain j" and "plain k" and "print_json j @ xs = print_json k @ ys"
  shows "value_kind j = value_kind k"
proof -
  have "hd (print_json j @ xs) = hd (print_json k @ ys)" using assms(3) by simp
  with print_json_head [OF assms(1)] print_json_head [OF assms(2)] show ?thesis by simp
qed

lemma value_not_closing:
  assumes "plain j" and "print_json j @ xs = c # ys"
  shows "c \<noteq> 93" and "c \<noteq> 125" and "c \<noteq> 44"
proof -
  have "head_kind c = value_kind j"
    using print_json_head [OF assms(1)] assms(2) by (metis hd_append2 list.sel(1))
  moreover have "value_kind j \<in> {110, 116, 102, 1, 34, 91, 123}" by (cases j) auto
  ultimately show "c \<noteq> 93" "c \<noteq> 125" "c \<noteq> 44" by (auto simp: head_kind_def num_char_def split: if_splits)
qed

lemma delimited_simps [simp]: "delimited (93 # xs)" "delimited (125 # xs)" "delimited (44 # xs)" "delimited []"
  by (simp_all add: delimited_def)

lemma print_items_Cons:
  "print_items (x # xs) = print_json x @ (if xs = [] then [93] else 44 # print_items xs)"
  by (cases xs) simp_all

lemma print_members_Cons:
  "print_members ((k, v) # ms) =
     json_str k @ 58 # print_json v @ (if ms = [] then [125] else 44 # print_members ms)"
  by (cases ms) simp_all

lemma json_str_not_closing: "json_str s @ xs \<noteq> 125 # ys"
  by (simp add: json_str_def)

lemma print_inject:
  "plain j \<Longrightarrow> plain k \<Longrightarrow> delimited xs \<Longrightarrow> delimited ys \<Longrightarrow> print_json j @ xs = print_json k @ ys \<Longrightarrow> j = k \<and> xs = ys"
  "plain_items js \<Longrightarrow> plain_items ks \<Longrightarrow> print_items js @ xs = print_items ks @ ys \<Longrightarrow> js = ks \<and> xs = ys"
  "plain_members ms \<Longrightarrow> plain_members ns \<Longrightarrow> print_members ms @ xs = print_members ns @ ys \<Longrightarrow> ms = ns \<and> xs = ys"
proof (induction j and js and ms arbitrary: k xs ys and ks xs ys and ns xs ys rule: plain_plain_items_plain_members.induct)
  case (2 zs)
  have "value_kind k = 91" using same_kind [OF 2(2,3,6)] by simp
  then obtain zs' where k: "k = JArr zs'" by (cases k) (auto split: if_splits)
  from 2(2,3,6) have "print_items zs @ xs = print_items zs' @ ys" "plain_items zs" "plain_items zs'"
    unfolding k by simp_all
  from 2(1) [OF this(2,3,1)] k show ?case by simp
next
  case (3 zs)
  have "value_kind k = 123" using same_kind [OF 3(2,3,6)] by simp
  then obtain zs' where k: "k = JObj zs'" by (cases k) (auto split: if_splits)
  from 3(2,3,6) have "print_members zs @ xs = print_members zs' @ ys" "plain_members zs" "plain_members zs'"
    unfolding k by simp_all
  from 3(1) [OF this(2,3,1)] k show ?case by simp
next
  case (4 s)
  have "value_kind k = 34" using same_kind [OF 4(1,2,5)] by simp
  then obtain t where k: "k = JStr t" by (cases k) (auto split: if_splits)
  from 4(5) json_str_append_inject [of s xs t ys] k show ?case by simp
next
  case 5
  have "value_kind k = 110" using same_kind [OF 5(1,2,5)] by simp
  then have "k = JNull" by (cases k) (auto split: if_splits)
  with 5(5) show ?case by simp
next
  case (6 b)
  have "value_kind k = (if b then 116 else 102)" using same_kind [OF 6(1,2,5)] by simp
  then have "k = JBool b" by (cases k) (auto split: if_splits)
  with 6(5) show ?case by simp
next
  case (7 v)
  have "value_kind k = 1" using same_kind [OF 7(1,2,5)] by simp
  then obtain n where k: "k = JNum n" by (cases k) (auto split: if_splits)
  with 7(2) obtain w where n: "n = NInt w" by (cases n) auto
  from 7(3,4,5) k n json_num_append_inject [of v xs w ys] show ?case by (simp add: json_num_def)
next
  case 8
  show ?case
  proof (cases ks)
    case (Cons w ws)
    with 8(2,3) have "plain w" "print_json w @ ((if ws = [] then [93] else 44 # print_items ws) @ ys) = 93 # xs"
      by (simp_all add: print_items_Cons)
    from value_not_closing(1) [OF this] show ?thesis by simp
  qed (use 8 in simp)
next
  case (9 z zs)
  let ?r = "(if zs = [] then [93] else 44 # print_items zs) @ xs"
  show ?case
  proof (cases ks)
    case Nil
    with 9(3,5) have "plain z" "print_json z @ ?r = 93 # ys" by (simp_all add: print_items_Cons)
    from value_not_closing(1) [OF this] show ?thesis by simp
  next
    case (Cons w ws)
    let ?t = "(if ws = [] then [93] else 44 # print_items ws) @ ys"
    have p: "plain z" "plain w" "plain_items zs" "plain_items ws" using 9(3,4) Cons by simp_all
    have "print_json z @ ?r = print_json w @ ?t" using 9(5) Cons by (simp add: print_items_Cons)
    then have eq: "z = w" "?r = ?t" using 9(1) [OF p(1,2), of ?r ?t] by simp_all
    have "zs = ws \<and> xs = ys"
    proof (cases "zs = [] \<or> ws = []")
      case True
      with eq(2) show ?thesis by (auto split: if_splits)
    next
      case False
      with eq(2) have "print_items zs @ xs = print_items ws @ ys" by simp
      from 9(2) [OF p(3,4) this] show ?thesis .
    qed
    with eq Cons show ?thesis by simp
  qed
next
  case 10
  show ?case
  proof (cases ns)
    case (Cons n ns')
    obtain k v where "n = (k, v)" by fastforce
    with Cons 10(3) json_str_not_closing [of k] show ?thesis by (auto simp: print_members_Cons eq_commute [of "125 # xs"])
  qed (use 10 in simp)
next
  case (11 k v ms)
  let ?r = "(if ms = [] then [125] else 44 # print_members ms) @ xs"
  show ?case
  proof (cases ns)
    case Nil
    with 11(5) json_str_not_closing [of k] show ?thesis by (auto simp: print_members_Cons)
  next
    case (Cons n ns')
    obtain l w where n: "n = (l, w)" by fastforce
    let ?t = "(if ns' = [] then [125] else 44 # print_members ns') @ ys"
    have p: "plain v" "plain w" "plain_members ms" "plain_members ns'" using 11(3,4) Cons n by simp_all
    have "json_str k @ (58 # print_json v @ ?r) = json_str l @ (58 # print_json w @ ?t)"
      using 11(5) Cons n by (simp add: print_members_Cons)
    from json_str_append_inject [OF this] have kv: "k = l" "print_json v @ ?r = print_json w @ ?t" by simp_all
    have eq: "v = w" "?r = ?t" using 11(1) [OF p(1,2) _ _ kv(2)] by simp_all
    have "ms = ns' \<and> xs = ys"
    proof (cases "ms = [] \<or> ns' = []")
      case True
      with eq(2) show ?thesis by (auto split: if_splits)
    next
      case False
      with eq(2) have "print_members ms @ xs = print_members ns' @ ys" by simp
      from 11(2) [OF p(3,4) this] show ?thesis .
    qed
    with eq kv Cons n show ?thesis by simp
  qed
qed simp_all

lemma scalar_print:
  "plain j \<Longrightarrow> list_all scalar (print_json j)"
  "plain_items js \<Longrightarrow> list_all scalar (print_items js)"
  "plain_members ms \<Longrightarrow> list_all scalar (print_members ms)"
proof (induction j and js and ms rule: plain_plain_items_plain_members.induct)
  case (6 b)
  then show ?case using scalar_jstr by (cases b) simp_all
qed (auto simp: scalar_jstr scalar_json_str scalar_small json_num_def print_items_Cons print_members_Cons)

text \<open>The UTF-8 bytes of a printed value determine the value.\<close>

lemma utf8_print_inject:
  assumes "plain j" and "plain k" and "utf8 (print_json j) = utf8 (print_json k)"
  shows "j = k"
proof -
  have "print_json j = print_json k"
    by (rule utf8_inject) (use assms scalar_print(1) in auto)
  then show ?thesis using print_inject(1) [of j k "[]" "[]"] assms(1,2) by simp
qed

section \<open>Base64\<close>

definition b64_char :: "nat \<Rightarrow> nat" where
  "b64_char v = (if v < 26 then 65 + v else if v < 52 then 71 + v else if v < 62 then v - 4
     else if v = 62 then 43 else 47)"

definition b64_val :: "nat \<Rightarrow> nat option" where
  "b64_val c = (if 65 \<le> c \<and> c \<le> 90 then Some (c - 65) else if 97 \<le> c \<and> c \<le> 122 then Some (c - 71)
     else if 48 \<le> c \<and> c \<le> 57 then Some (c + 4) else if c = 43 then Some 62 else if c = 47 then Some 63
     else None)"

text \<open>\<open>btoa\<close> of the binary string of the bytes.\<close>

fun btoa :: "nat list \<Rightarrow> jstext" where
  "btoa [] = []"
| "btoa [a] = [b64_char (a div 4), b64_char (a mod 4 * 16), 61, 61]"
| "btoa [a, b] = [b64_char (a div 4), b64_char (a mod 4 * 16 + b div 16), b64_char (b mod 16 * 4), 61]"
| "btoa (a # b # c # rest) =
     [b64_char (a div 4), b64_char (a mod 4 * 16 + b div 16), b64_char (b mod 16 * 4 + c div 64), b64_char (c mod 64)]
     @ btoa rest"

fun b64_decode :: "nat list \<Rightarrow> nat list" where
  "b64_decode (w # x # y # z # rest) =
     [w * 4 + x div 16, x mod 16 * 16 + y div 4, y mod 4 * 64 + z] @ b64_decode rest"
| "b64_decode [w, x, y] = [w * 4 + x div 16, x mod 16 * 16 + y div 4]"
| "b64_decode [w, x] = [w * 4 + x div 16]"
| "b64_decode _ = []"

definition strip_padding :: "jstext \<Rightarrow> jstext" where
  "strip_padding s =
     (if length s mod 4 \<noteq> 0 then s
      else if 2 \<le> length s \<and> last s = 61 \<and> last (butlast s) = 61 then butlast (butlast s)
      else if s \<noteq> [] \<and> last s = 61 then butlast s else s)"

text \<open>\<open>atob\<close> (forgiving base64): white space is dropped, padding is optional.\<close>

definition atob :: "jstext \<Rightarrow> nat list result" where
  "atob s =
     (let t = strip_padding (filter (\<lambda>c. c \<notin> {9, 10, 12, 13, 32}) s) in
      if length t mod 4 = 1 \<or> (\<exists>c \<in> set t. b64_val c = None)
      then Inl ''The string to be decoded is not correctly encoded.''
      else Inr (b64_decode (map (\<lambda>c. the (b64_val c)) t)))"

lemma b64_val_char [simp]: "v < 64 \<Longrightarrow> b64_val (b64_char v) = Some v"
  by (auto simp: b64_val_def b64_char_def)

lemma b64_char_plain [simp]: "v < 64 \<Longrightarrow> b64_char v \<noteq> 61" "v < 64 \<Longrightarrow> b64_char v \<notin> {9, 10, 12, 13, 32}"
  by (auto simp: b64_char_def)

text \<open>The sextets behind the printed characters, without padding.\<close>

fun sextets :: "nat list \<Rightarrow> nat list" where
  "sextets [] = []"
| "sextets [a] = [a div 4, a mod 4 * 16]"
| "sextets [a, b] = [a div 4, a mod 4 * 16 + b div 16, b mod 16 * 4]"
| "sextets (a # b # c # rest) =
     [a div 4, a mod 4 * 16 + b div 16, b mod 16 * 4 + c div 64, c mod 64] @ sextets rest"

lemma sextets_less: "\<forall>b \<in> set bs. b < 256 \<Longrightarrow> \<forall>v \<in> set (sextets bs). v < 64"
  by (induction bs rule: sextets.induct) auto

lemma decode_sextets: "\<forall>b \<in> set bs. b < 256 \<Longrightarrow> b64_decode (sextets bs) = bs"
proof (induction bs rule: sextets.induct)
  case (4 a b c rest)
  then have "b div 16 < 16" "c div 64 < 4" by (simp_all add: div_less_iff_less_mult)
  with 4 show ?case by (simp add: mult.commute)
qed (auto simp: mult.commute)

lemma strip_padding_btoa: "\<forall>b \<in> set bs. b < 256 \<Longrightarrow> strip_padding (btoa bs) = map b64_char (sextets bs)"
proof -
  assume less: "\<forall>b \<in> set bs. b < 256"
  have len: "length (btoa xs) mod 4 = 0" for xs by (induction xs rule: btoa.induct) auto
  have shape: "(\<exists>s. s = map b64_char (sextets xs) \<and> (btoa xs = s \<and> (s = [] \<or> last s \<noteq> 61)
      \<or> btoa xs = s @ [61] \<and> last s \<noteq> 61 \<and> s \<noteq> [] \<or> btoa xs = s @ [61, 61]))"
    if "\<forall>b \<in> set xs. b < 256" for xs
    using that
  proof (induction xs rule: btoa.induct)
    case (4 a b c rest)
    then have "c mod 64 < 64" by simp
    with 4 show ?case by auto
  qed auto
  from shape [OF less] len [of bs] show ?thesis
    by (auto simp: strip_padding_def butlast_append)
qed

lemma btoa_chars: "\<forall>b \<in> set bs. b < 256 \<Longrightarrow> \<forall>c \<in> set (btoa bs). c = 61 \<or> b64_val c \<noteq> None"
  by (induction bs rule: btoa.induct) auto

lemma b64_val_not_space: "c = 61 \<or> b64_val c \<noteq> None \<Longrightarrow> c \<notin> {9, 10, 12, 13, 32}"
  by (auto simp: b64_val_def)

lemma atob_btoa: "\<forall>b \<in> set bs. b < 256 \<Longrightarrow> atob (btoa bs) = Inr bs"
proof -
  assume less: "\<forall>b \<in> set bs. b < 256"
  have keep: "filter (\<lambda>c. c \<notin> {9, 10, 12, 13, 32}) (btoa bs) = btoa bs"
    using btoa_chars [OF less] b64_val_not_space by (intro filter_True) blast
  have odd: "length (sextets bs) mod 4 \<noteq> 1" by (induction bs rule: sextets.induct) auto
  have vals: "map (\<lambda>c. the (b64_val c)) (map b64_char (sextets bs)) = sextets bs"
    unfolding map_map o_def by (rule map_idI) (use sextets_less [OF less] in simp)
  show ?thesis
    unfolding atob_def keep strip_padding_btoa [OF less] Let_def
    using sextets_less [OF less] odd decode_sextets [OF less] vals by simp
qed

end
