(* ===== verification/Receipt.thy ===== *)
theory Receipt
  imports Invariants Settlement
begin

text \<open>
  \<open>sdk/src/receipt.ts\<close>: reading a receipt account for public verification, the display of exact
  token amounts, and hexadecimal bytes. The properties: the public reader accepts exactly the
  settled accounts of the program that sit at their own derived address, every receipt the program
  issued is accepted, and the amount shown is the amount paid, digit for digit.
\<close>

section \<open>Data\<close>

record ReceiptAccountView =
  v_address :: address
  v_owner :: address
  v_data :: bytes

datatype ReceiptValidationCode =
  WrongOwner | WrongDiscriminator | Truncated | PdaMismatch | Unsettled | NotFound

datatype ReceiptReadResult =
    ReadSuccess (rr_receipt: Receipt) (rr_programId: address) (rr_derivedAddress: address) (rr_settled: bool)
  | ReadFailure ReceiptValidationCode string

record ReadReceiptOptions =
  o_programId :: "address option"
  o_requireSettled :: "bool option"
  o_transactionSignature :: "string option"

datatype DisplayKind = UiAmount | BaseUnits

record TokenAmountDisplay =
  t_baseUnits :: string
  t_decimals :: "int option"
  t_display :: string
  t_displayKind :: DisplayKind

datatype MintReason = UnsupportedOwner | MintTruncated | NotAMint | MintMissing

type_synonym MintDecimalsRead = "MintReason + int"

datatype CurrentMandateRead = Present Mandate | Absent | Unavailable string

record PublicReceiptProof =
  p_receipt :: ReceiptReadResult
  p_amount :: "TokenAmountDisplay option"
  p_currentMandate :: CurrentMandateRead

section \<open>Helpers\<close>

definition discriminatorsEqual :: "bytes \<Rightarrow> bytes \<Rightarrow> bool" where
  "discriminatorsEqual data expected = discriminator_loop data expected 0 (length expected)"

definition receiptAddress :: "web3 \<Rightarrow> address \<Rightarrow> bytes \<Rightarrow> address \<Rightarrow> address result" where
  "receiptAddress W mandate invoiceHash programId = deriveReceiptAddress W mandate invoiceHash programId"

definition bytesToHex :: "bytes \<Rightarrow> string" where
  "bytesToHex value = concat (map (\<lambda>b. pad_start 2 CHR ''0'' (radix_str 16 (unat b))) value)"

definition hexToBytes :: "string \<Rightarrow> string \<Rightarrow> bytes result" where
  "hexToBytes value name =
     (let normalized = (if starts_with value ''0x'' then drop 2 value else value) in
      if \<not> (normalized \<noteq> [] \<and> list_all is_hex_digit normalized) \<or> length normalized \<noteq> 64
      then Inl (name @ '' must be exactly 32 bytes encoded as hexadecimal'')
      else Inr (map (\<lambda>i. parse_hex_byte (slice normalized (i * 2) 2)) [0..<32]))"

definition MINT_LEN :: nat where "MINT_LEN = 82"
definition ACCOUNT_TYPE_OFFSET :: nat where "ACCOUNT_TYPE_OFFSET = 165"
definition ACCOUNT_TYPE_MINT :: byte where "ACCOUNT_TYPE_MINT = 1"

definition readVerifiedMintDecimals :: "web3 \<Rightarrow> (address \<times> bytes) option \<Rightarrow> MintDecimalsRead result" where
  "readVerifiedMintDecimals W account = (case account of
     None \<Rightarrow> Inr (Inl MintMissing)
   | Some (accountOwner, data) \<Rightarrow>
      bindR (address W accountOwner) (\<lambda>owner. Inr (
      if owner \<noteq> SPL_TOKEN_PROGRAM_ID \<and> owner \<noteq> TOKEN_2022_PROGRAM_ID then Inl UnsupportedOwner
      else if length data \<le> 44 then Inl MintTruncated
      else let isBaseMint = (length data = MINT_LEN);
               isExtendedMint = (length data > ACCOUNT_TYPE_OFFSET \<and> data ! ACCOUNT_TYPE_OFFSET = ACCOUNT_TYPE_MINT)
           in if \<not> isBaseMint \<and> \<not> isExtendedMint then Inl NotAMint
              else Inr (uint (data ! 44)))))"

definition formatExactTokenAmount :: "int \<Rightarrow> jsnum option \<Rightarrow> TokenAmountDisplay result" where
  "formatExactTokenAmount amount decimals =
     (if amount < 0 \<or> amount > 18446744073709551615
      then Inl ''amount must fit in an unsigned 64-bit integer''
      else let baseUnits = int_dec amount in
        case decimals of
          None \<Rightarrow> Inr \<lparr>t_baseUnits = baseUnits, t_decimals = None, t_display = baseUnits, t_displayKind = BaseUnits\<rparr>
        | Some d \<Rightarrow>
            if \<not> num_in 0 255 d
            then Inr \<lparr>t_baseUnits = baseUnits, t_decimals = None, t_display = baseUnits, t_displayKind = BaseUnits\<rparr>
            else if num_val d = 0
            then Inr \<lparr>t_baseUnits = baseUnits, t_decimals = Some 0, t_display = baseUnits, t_displayKind = UiAmount\<rparr>
            else let n = nat (num_val d);
                     padded = pad_start (n + 1) CHR ''0'' baseUnits;
                     whole = take (length padded - n) padded;
                     fraction = drop (length padded - n) padded
                 in Inr \<lparr>t_baseUnits = baseUnits, t_decimals = Some (num_val d),
                         t_display = whole @ ''.'' @ fraction, t_displayKind = UiAmount\<rparr>)"

definition amountDisplayFromMint :: "web3 \<Rightarrow> int \<Rightarrow> (address \<times> bytes) option \<Rightarrow> TokenAmountDisplay result" where
  "amountDisplayFromMint W amount mintAccount =
     bindR (readVerifiedMintDecimals W mintAccount) (\<lambda>mint.
     formatExactTokenAmount amount (case mint of Inr d \<Rightarrow> Some (NInt d) | Inl _ \<Rightarrow> None))"

section \<open>Readers\<close>

text \<open>The body of the \<open>try\<close>; a thrown error becomes \<open>Unavailable\<close> with its message.\<close>

definition read_mandate_try ::
  "web3 \<Rightarrow> ReceiptAccountView \<Rightarrow> address \<Rightarrow> int option \<Rightarrow> address option \<Rightarrow> CurrentMandateRead result" where
  "read_mandate_try W account programId currentSlot expectedAddress =
     bindR (address W (v_owner account)) (\<lambda>owner.
     if owner \<noteq> programId
     then Inr (Unavailable ''Mandate account is not owned by the ChainPay program'')
     else
     bindR (case expectedAddress of
              None \<Rightarrow> Inr False
            | Some e \<Rightarrow> bindR (address W (v_address account)) (\<lambda>a. bindR (address W e) (\<lambda>b. Inr (a \<noteq> b)))) (\<lambda>differs.
     if differs
     then Inr (Unavailable ''Mandate account address does not match the receipt mandate'')
     else
     bindR (decodeCurrentMandateFields W (v_data account) (v_address account) currentSlot) (\<lambda>m.
     Inr (Present m))))"

definition readCurrentMandateFields ::
  "web3 \<Rightarrow> ReceiptAccountView option \<Rightarrow> address option \<Rightarrow> int option \<Rightarrow> address option \<Rightarrow> CurrentMandateRead result" where
  "readCurrentMandateFields W account programId currentSlot expectedAddress = (case account of
     None \<Rightarrow> Inr Absent
   | Some acc \<Rightarrow>
      bindR (address W (case programId of Some p \<Rightarrow> p | None \<Rightarrow> DEFAULT_PROGRAM_ID)) (\<lambda>program. Inr
      (case read_mandate_try W acc program currentSlot expectedAddress of
         Inr r \<Rightarrow> r
       | Inl e \<Rightarrow> Unavailable e)))"

definition readPaymentReceiptAccount ::
  "web3 \<Rightarrow> ReceiptAccountView \<Rightarrow> ReadReceiptOptions \<Rightarrow> ReceiptReadResult result" where
  "readPaymentReceiptAccount W account options =
     bindR (address W (case o_programId options of Some p \<Rightarrow> p | None \<Rightarrow> DEFAULT_PROGRAM_ID)) (\<lambda>programId.
     case address W (v_address account) of
       Inl _ \<Rightarrow> Inr (ReadFailure NotFound ''Receipt address is not a valid Solana public key'')
     | Inr requestedAddress \<Rightarrow>
       if address W (v_owner account) \<noteq> Inr programId
       then Inr (ReadFailure WrongOwner ''Receipt account is not owned by the ChainPay program'')
       else if length (v_data account) < 8
       then Inr (ReadFailure Truncated ''PaymentReceipt account data is truncated'')
       else if \<not> discriminatorsEqual (v_data account) ACCT_paymentReceipt
       then Inr (ReadFailure WrongDiscriminator ''Invalid PaymentReceipt account discriminator'')
       else if length (v_data account) < RECEIPT_ACCOUNT_LENGTH
       then Inr (ReadFailure Truncated ''PaymentReceipt account data is truncated'')
       else
       bindR (decodePaymentReceipt W (v_data account) requestedAddress (o_transactionSignature options)) (\<lambda>receipt.
       bindR (deriveReceiptAddress W (r_mandate receipt) (r_invoiceHash receipt) programId) (\<lambda>derivedAddress.
       if derivedAddress \<noteq> requestedAddress
       then Inr (ReadFailure PdaMismatch
              ''Receipt address does not match PDA seeds [\"receipt\", mandate, invoice_hash]'')
       else
       let settled = (r_onChainStatus receipt = RECEIPT_STATUS_SETTLED) in
       if (case o_requireSettled options of Some b \<Rightarrow> b | None \<Rightarrow> False) \<and> \<not> settled
       then Inr (ReadFailure Unsettled ''Receipt is not settled'')
       else Inr (ReadSuccess receipt programId derivedAddress settled))))"

definition readPublicSettledReceipt ::
  "web3 \<Rightarrow> ReceiptAccountView \<Rightarrow> ReadReceiptOptions \<Rightarrow> ReceiptReadResult result" where
  "readPublicSettledReceipt W account options =
     readPaymentReceiptAccount W account (options\<lparr>o_requireSettled := Some True\<rparr>)"

definition requirePaymentReceiptAccount ::
  "web3 \<Rightarrow> ReceiptAccountView \<Rightarrow> ReadReceiptOptions \<Rightarrow> Receipt result" where
  "requirePaymentReceiptAccount W account options =
     bindR (readPaymentReceiptAccount W account options) (\<lambda>r. case r of
       ReadFailure _ reason \<Rightarrow> Inl reason
     | ReadSuccess receipt _ _ _ \<Rightarrow> Inr receipt)"

record ProofInput =
  i_receiptAccount :: ReceiptAccountView
  i_programId :: "address option"
  i_mintAccount :: "(address \<times> bytes) option"
  i_mandateAccount :: "ReceiptAccountView option"
  i_currentSlot :: "int option"
  i_transactionSignature :: "string option"

definition assemblePublicReceiptProof :: "web3 \<Rightarrow> ProofInput \<Rightarrow> PublicReceiptProof result" where
  "assemblePublicReceiptProof W input =
     bindR (readPublicSettledReceipt W (i_receiptAccount input)
              \<lparr>o_programId = i_programId input, o_requireSettled = None,
               o_transactionSignature = i_transactionSignature input\<rparr>) (\<lambda>receipt. case receipt of
       ReadFailure _ _ \<Rightarrow>
         bindR (readCurrentMandateFields W (i_mandateAccount input) (i_programId input) (i_currentSlot input) None) (\<lambda>cur.
         Inr \<lparr>p_receipt = receipt, p_amount = None, p_currentMandate = cur\<rparr>)
     | ReadSuccess r _ _ _ \<Rightarrow>
         bindR (amountDisplayFromMint W (r_amount r) (i_mintAccount input)) (\<lambda>amount.
         bindR (readCurrentMandateFields W (i_mandateAccount input) (i_programId input) (i_currentSlot input)
                  (Some (r_mandate r))) (\<lambda>cur.
         Inr \<lparr>p_receipt = receipt, p_amount = Some amount, p_currentMandate = cur\<rparr>)))"

section \<open>Lemmas\<close>

lemma bytesToHex_eq: "bytesToHex b = hex_str b"
  by (induction b) (simp_all add: bytesToHex_def hex_byte_def)

lemma discriminatorsEqual_iff:
  "length e \<le> length d \<Longrightarrow> discriminatorsEqual d e \<longleftrightarrow> take (length e) d = e"
  using discriminator_loop_iff [of 0 "length e" d e] by (simp add: discriminatorsEqual_def slice_def)

lemma read_success_facts:
  assumes W: "web3_ok W" and eq: "readPaymentReceiptAccount W acc opt = Inr (ReadSuccess r pid d s)"
  shows "address W (v_owner acc) = Inr pid" and "address W (v_address acc) = Inr d"
    and "282 \<le> length (v_data acc)" and "take 8 (v_data acc) = ACCT_paymentReceipt"
    and "decodePaymentReceipt W (v_data acc) d (o_transactionSignature opt) = Inr r"
    and "deriveReceiptAddress W (r_mandate r) (r_invoiceHash r) pid = Inr d"
    and "s \<longleftrightarrow> r_onChainStatus r = 1" and "o_requireSettled opt = Some True \<Longrightarrow> s"
    and "address W (case o_programId opt of Some p \<Rightarrow> p | None \<Rightarrow> DEFAULT_PROGRAM_ID) = Inr pid"
proof -
  from eq obtain a where a: "address W (v_address acc) = Inr a"
    by (cases "address W (v_address acc)") (auto simp: readPaymentReceiptAccount_def result_simps)
  with eq discriminatorsEqual_iff [of ACCT_paymentReceipt "v_data acc"]
  show "address W (v_owner acc) = Inr pid" "address W (v_address acc) = Inr d"
    "282 \<le> length (v_data acc)" "take 8 (v_data acc) = ACCT_paymentReceipt"
    "decodePaymentReceipt W (v_data acc) d (o_transactionSignature opt) = Inr r"
    "deriveReceiptAddress W (r_mandate r) (r_invoiceHash r) pid = Inr d"
    "s \<longleftrightarrow> r_onChainStatus r = 1" "o_requireSettled opt = Some True \<Longrightarrow> s"
    "address W (case o_programId opt of Some p \<Rightarrow> p | None \<Rightarrow> DEFAULT_PROGRAM_ID) = Inr pid"
    unfolding readPaymentReceiptAccount_def RECEIPT_ACCOUNT_LENGTH_def RECEIPT_STATUS_SETTLED_def
    by (auto simp: result_simps Let_def split: if_splits)
qed

lemma decoded_receipt_fields:
  assumes "decodePaymentReceipt W d addr sig = Inr r" and "282 \<le> length d"
  shows "r_status r = (if r_onChainStatus r = 1 then Confirmed else Failed)"
    and "r_amount r = le_val (slice d 200 8)" and "r_invoiceHash r = slice d 40 32"
    and "r_mandate r = to_base58 W (slice d 8 32)"
    and "r_recipientTokenAccount r = to_base58 W (slice d 168 32)"
    and "r_mint r = to_base58 W (slice d 104 32)" and "r_onChainStatus r = uint (d ! 280)"
  using assms
  by (auto simp: decodePaymentReceipt_def result_simps enc_simps paymentStatus_def RECEIPT_STATUS_SETTLED_def)

section \<open>Properties\<close>

text \<open>
  C19. The public receipt reader is sound: when \<open>readPublicSettledReceipt\<close> reports success, the account
  is owned by the program that was asked for (the ChainPay program when none was named), which is the
  program reported, carries the receipt discriminator and at least the 282 receipt bytes,
  sits at the address derived from the mandate and invoice hash inside it, and is settled; the
  mandate, amount, mint, recipient and invoice hash reported are the bytes of the account.
\<close>

theorem public_receipt_sound:
  assumes "web3_ok W" and "readPublicSettledReceipt W acc opt = Inr (ReadSuccess r pid d s)"
  shows "address W (case o_programId opt of Some p \<Rightarrow> p | None \<Rightarrow> DEFAULT_PROGRAM_ID) = Inr pid \<and>
     address W (v_owner acc) = Inr pid \<and> address W (v_address acc) = Inr d \<and>
     deriveReceiptAddress W (r_mandate r) (r_invoiceHash r) pid = Inr d \<and>
     s \<and> r_status r = Confirmed \<and> uint (v_data acc ! 280) = 1 \<and>
     282 \<le> length (v_data acc) \<and> take 8 (v_data acc) = ACCT_paymentReceipt \<and>
     r_amount r = le_val (slice (v_data acc) 200 8) \<and> r_invoiceHash r = slice (v_data acc) 40 32 \<and>
     r_mandate r = to_base58 W (slice (v_data acc) 8 32) \<and>
     r_mint r = to_base58 W (slice (v_data acc) 104 32) \<and>
     r_recipientTokenAccount r = to_base58 W (slice (v_data acc) 168 32)"
proof -
  note f = read_success_facts [OF assms(1) assms(2) [unfolded readPublicSettledReceipt_def]]
  from f(8) have s by simp
  with f decoded_receipt_fields [OF f(5,3)] show ?thesis by simp
qed

lemma issued_receipt_read:
  assumes W: "web3_ok W" and prog: "publicKey W programId = Inr prog" and agree: "derivations_agree W R prog"
    and wf: "receipt_wf pr" and inv: "receipt_inv R addr pr"
    and acc: "acc = \<lparr>v_address = to_base58 W addr, v_owner = programId, v_data = ser_PaymentReceipt pr @ extra\<rparr>"
    and opt: "o_programId opt = Some programId"
  shows "readPublicSettledReceipt W acc opt = Inr (ReadSuccess
     (receipt_view W pr (to_base58 W addr) (o_transactionSignature opt) (snapshot_view pr))
     (to_base58 W prog) (to_base58 W addr) True)"
proof -
  let ?p = "to_base58 W prog"
  have prog32: "length prog = 32" by (rule publicKey_length [OF W prog])
  have find: "find_pda W (receipt_seeds (pr_mandate pr) (pr_invoice_hash pr)) prog = Inr addr"
    using inv agree by (simp add: receipt_inv_def derivations_agree_def)
  with W have addr32: "length addr = 32" unfolding web3_ok_def by blast
  have lens: "length (pr_mandate pr) = 32" "length (pr_invoice_hash pr) = 32"
    using wf by (simp_all add: receipt_wf_def)
  have derive: "deriveReceiptAddress W (to_base58 W (pr_mandate pr)) (pr_invoice_hash pr) ?p = Inr (to_base58 W addr)"
    using find W prog32 lens
    by (simp add: deriveReceiptAddress_def pda_def receipt_seeds_def bytes32_def)
  have decode: "decodePaymentReceipt W (ser_PaymentReceipt pr @ extra) (to_base58 W addr) sig =
      Inr (receipt_view W pr (to_base58 W addr) sig (snapshot_view pr))" for sig
    by (rule decodePaymentReceipt_ser [OF wf]) (simp add: W addr32)
  have len: "length (ser_PaymentReceipt pr @ extra) = 371 + length extra"
    using length_ser_PaymentReceipt [OF wf] by simp
  have disc: "discriminatorsEqual (ser_PaymentReceipt pr @ extra) ACCT_paymentReceipt"
    using len by (subst discriminatorsEqual_iff) (simp_all add: ser_PaymentReceipt_def)
  have status: "pr_status pr = 1" using inv by (simp add: receipt_inv_def)
  have owner: "address W programId = Inr ?p" using prog by (simp add: address_def)
  show ?thesis
    unfolding readPublicSettledReceipt_def readPaymentReceiptAccount_def acc RECEIPT_ACCOUNT_LENGTH_def
      ReceiptAccountView.simps len
    using status
    by (simp add: opt owner W addr32 disc decode receipt_view_def derive RECEIPT_STATUS_SETTLED_def)
qed

text \<open>
  C20. The public receipt reader is complete for the program: in every reachable chain state, the
  account of every receipt the program issued, read at its address with its owner, is accepted as
  settled and decoded to the values the program recorded.
\<close>

theorem issued_receipts_verify:
  assumes "web3_ok W" and "publicKey W programId = Inr prog" and "derivations_agree W R prog"
    and reach: "chain_reachable R c" and mem: "(addr, pr) \<in> set (ch_receipts c)" and "receipt_wf pr"
  shows "readPublicSettledReceipt W
     \<lparr>v_address = to_base58 W addr, v_owner = programId, v_data = ser_PaymentReceipt pr\<rparr>
     \<lparr>o_programId = Some programId, o_requireSettled = None, o_transactionSignature = sig\<rparr> = Inr (ReadSuccess
       (receipt_view W pr (to_base58 W addr) sig (snapshot_view pr)) (to_base58 W prog) (to_base58 W addr) True)"
proof -
  have inv: "receipt_inv R addr pr"
    using reachable_inv [OF reach] mem by (auto simp: chain_inv_def)
  show ?thesis
    using issued_receipt_read [OF assms(1-3) assms(6) inv, of _ "[]"
        "\<lparr>o_programId = Some programId, o_requireSettled = None, o_transactionSignature = sig\<rparr>"] by simp
qed

theorem issued_receipts_verify_witness:
  "\<exists>c addr pr r. run = Inr c \<and> (addr, pr) \<in> set (ch_receipts c) \<and>
     readPublicSettledReceipt sample_web3
       \<lparr>v_address = to_base58 sample_web3 addr, v_owner = DEFAULT_PROGRAM_ID, v_data = ser_PaymentReceipt pr\<rparr>
       \<lparr>o_programId = Some DEFAULT_PROGRAM_ID, o_requireSettled = None, o_transactionSignature = None\<rparr>
     = Inr (ReadSuccess r (to_base58 sample_web3 (sample_key DEFAULT_PROGRAM_ID)) (to_base58 sample_web3 addr) True)"
proof -
  obtain c m r where c: "run = Inr c" "ch_receipts c = [(sample_pda (receipt_seeds run_mandate (replicate 32 8)), r)]"
    "r = snapshot_receipt run_accounts run_payment 200 255 m"
    "pm_allowed_mint m = replicate 32 4" "pm_source_token_account m = replicate 32 3"
    using run_settles by auto
  have prog: "publicKey sample_web3 DEFAULT_PROGRAM_ID = Inr (sample_key DEFAULT_PROGRAM_ID)" by simp
  have agree: "derivations_agree sample_web3 sample_runtime (sample_key DEFAULT_PROGRAM_ID)"
    by (simp add: derivations_agree_def sample_runtime_def)
  have mem: "(sample_pda (receipt_seeds run_mandate (replicate 32 8)), r) \<in> set (ch_receipts c)" using c by simp
  have wf: "receipt_wf r"
    using c by (simp add: receipt_wf_def snapshot_receipt_def run_accounts_def run_payment_def run_mandate_def)
  from issued_receipts_verify [OF sample_web3_ok prog agree run_reachable [OF c(1)] mem wf, of None] c(1) mem
  show ?thesis by blast
qed

theorem public_receipt_sound_witness:
  "\<exists>acc opt r pid d. readPublicSettledReceipt sample_web3 acc opt = Inr (ReadSuccess r pid d True) \<and> r_status r = Confirmed"
proof -
  let ?addr = "sample_pda (receipt_seeds (replicate 32 1) (replicate 32 2))"
  let ?opt = "\<lparr>o_programId = Some DEFAULT_PROGRAM_ID, o_requireSettled = None, o_transactionSignature = None\<rparr>"
  have agree: "derivations_agree sample_web3 sample_runtime (sample_key DEFAULT_PROGRAM_ID)"
    by (simp add: derivations_agree_def sample_runtime_def)
  have prog: "publicKey sample_web3 DEFAULT_PROGRAM_ID = Inr (sample_key DEFAULT_PROGRAM_ID)" by simp
  have wf: "receipt_wf example_receipt" by (simp add: receipt_wf_def example_receipt_def)
  have inv: "receipt_inv sample_runtime ?addr example_receipt"
    by (simp add: receipt_inv_def example_receipt_def sample_runtime_def)
  obtain r pid d where read: "readPublicSettledReceipt sample_web3 \<lparr>v_address = to_base58 sample_web3 ?addr,
      v_owner = DEFAULT_PROGRAM_ID, v_data = ser_PaymentReceipt example_receipt @ []\<rparr> ?opt = Inr (ReadSuccess r pid d True)"
    using issued_receipt_read [OF sample_web3_ok prog agree wf inv refl, where opt = ?opt and extra = "[]"] by auto
  from public_receipt_sound [OF sample_web3_ok read] read show ?thesis by blast
qed

section \<open>Exact amounts and hexadecimal bytes\<close>

lemma list_all_pad: "list_all is_digit s \<Longrightarrow> list_all is_digit (pad_start n CHR ''0'' s)"
  by (auto simp: pad_start_def is_digit_def list_all_iff Let_def)

lemma dec_val_pad [simp]: "dec_val (pad_start n CHR ''0'' s) = dec_val s"
  by (simp add: pad_start_def dec_val_def)

lemma dec_val_append: "dec_val (s @ t) = dec_val s * 10 ^ length t + dec_val t"
  by (simp add: dec_val_def radix_val_append)

text \<open>
  Amounts are shown exactly: for every unsigned 64-bit amount and every decimals value from 1 to
  255 the display is digits, a point, and exactly that many digits, whose value is the amount with
  no rounding; amounts outside the range are refused and unknown decimals give the base units.
\<close>

theorem amount_display_exact:
  assumes "u64_ok amount" and "0 < d" and "d \<le> 255"
  shows "\<exists>t whole frac. formatExactTokenAmount amount (Some (NInt d)) = Inr t \<and>
     t_display t = whole @ ''.'' @ frac \<and> is_digits whole \<and> is_digits frac \<and> int (length frac) = d \<and>
     dec_val whole * 10 ^ nat d + dec_val frac = amount \<and> dec_val (t_baseUnits t) = amount"
proof -
  define n where "n = nat d"
  define padded where "padded = pad_start (n + 1) CHR ''0'' (int_dec amount)"
  define whole where "whole = take (length padded - n) padded"
  define frac where "frac = drop (length padded - n) padded"
  have n: "0 < n" "int n = d" using assms by (simp_all add: n_def)
  have amount: "0 \<le> amount" "amount \<le> 18446744073709551615" using assms(1) by (simp_all add: u64_ok_def)
  have val: "dec_val (int_dec amount) = amount" using amount by (simp add: int_dec_def)
  have len: "n < length padded" by (simp add: padded_def)
  have "is_digits (int_dec amount)" using amount by (simp add: int_dec_def)
  then have "list_all is_digit padded" unfolding padded_def by (intro list_all_pad) (simp add: is_digits_def)
  then have digits: "is_digits whole" "is_digits frac"
    using len n by (auto simp: is_digits_def list_all_iff whole_def frac_def dest: in_set_takeD in_set_dropD)
  have frac: "length frac = n" using len by (simp add: frac_def)
  have "dec_val (whole @ frac) = amount" using val by (simp add: whole_def frac_def padded_def)
  then have sum: "dec_val whole * 10 ^ nat d + dec_val frac = amount"
    by (simp add: dec_val_append frac n_def)
  show ?thesis
  proof (intro exI conjI)
    show "formatExactTokenAmount amount (Some (NInt d)) = Inr \<lparr>t_baseUnits = int_dec amount, t_decimals = Some d,
      t_display = whole @ ''.'' @ frac, t_displayKind = UiAmount\<rparr>"
      using assms amount n
      by (simp add: formatExactTokenAmount_def Let_def whole_def frac_def padded_def n_def)
  qed (use digits frac n val sum in simp_all)
qed

theorem amount_display_exact_witness:
  "\<exists>t whole frac. formatExactTokenAmount 1234567 (Some (NInt 6)) = Inr t \<and>
     t_display t = whole @ ''.'' @ frac \<and> dec_val whole * 10 ^ 6 + dec_val frac = 1234567"
proof -
  have "u64_ok 1234567" "0 < (6 :: int)" "(6 :: int) \<le> 255" by (simp_all add: u64_ok_def)
  from amount_display_exact [OF this] show ?thesis unfolding nat_numeral by blast
qed

lemma list_all_lower_hex: "list_all is_lower_hex s \<Longrightarrow> list_all is_hex_digit s"
  by (auto simp: list_all_iff intro: lower_hex_is_hex)

lemma hex_not_0x: "list_all is_hex_digit s \<Longrightarrow> \<not> starts_with s ''0x''"
  by (cases s rule: list.exhaust; cases "tl s") (auto simp: is_hex_digit_def digit_val_def)

text \<open>
  Hexadecimal round trip: for every 32-byte value, printing with \<open>bytesToHex\<close> and reading back with
  \<open>hexToBytes\<close>, with or without the \<open>0x\<close> prefix, gives the same bytes; and whatever \<open>hexToBytes\<close>
  accepts is 32 bytes.
\<close>

theorem hex_roundtrip:
  assumes "length b = 32"
  shows "hexToBytes (bytesToHex b) name = Inr b \<and> hexToBytes (''0x'' @ bytesToHex b) name = Inr b \<and>
     (\<forall>s v. hexToBytes s name = Inr v \<longrightarrow> length v = 32)"
proof -
  let ?h = "hex_str b"
  have hex: "list_all is_hex_digit ?h" by (rule list_all_lower_hex [OF hex_str_lower])
  have ne: "?h \<noteq> []" using assms by (metis length_hex_str list.size(3) mult_is_0 zero_neq_numeral)
  have pairs: "map (\<lambda>i. parse_hex_byte (slice ?h (i * 2) 2)) [0..<32] = b"
    by (rule nth_equalityI) (simp_all add: assms hex_str_nth_pair mult.commute [of _ 2])
  show ?thesis
    using hex ne pairs hex_not_0x [OF hex] assms
    by (auto simp: hexToBytes_def bytesToHex_eq Let_def)
qed

theorem hex_roundtrip_witness:
  "hexToBytes (bytesToHex (replicate 32 255)) ''invoiceHash'' = Inr (replicate 32 255)"
  using hex_roundtrip [of "replicate 32 255" "''invoiceHash''"] by simp

end
