(* ===== verification/PaymentRequest.thy ===== *)
theory PaymentRequest
  imports Text Receipt
begin

text \<open>
  \<open>sdk/src/payment-request.ts\<close>: the merchant-signed payment request, its canonical bytes, its
  verification, and the check that a settled receipt paid it. WebCrypto's SHA-256 and Ed25519 are
  outside the repository: they are the record \<open>crypto\<close>, an argument \<open>C\<close>. The payload has the declared
  TypeScript types, so the \<open>typeof\<close> guards on its fields hold and are not repeated. The properties:
  what a valid verification guarantees, that the invoice hash binds every field of the request up
  to a SHA-256 collision, and what a matched purchase means.
\<close>

section \<open>Data\<close>

record crypto =
  cr_sha256 :: "bytes \<Rightarrow> bytes"
  cr_verify :: "bytes \<Rightarrow> bytes \<Rightarrow> bytes \<Rightarrow> bool"

record PaymentRequestLineItem =
  li_label :: jstext
  li_amount :: "jstext option"
  li_quantity :: "jstext option"

record PaymentRequestPayload =
  py_version :: jsnum
  py_cluster :: jstext
  py_merchant :: address
  py_invoice :: jstext
  py_mint :: address
  py_tokenProgram :: jstext
  py_recipient :: address
  py_amount :: jstext
  py_decimals :: jsnum
  py_nonce :: jstext
  py_expiresAtSlot :: "jstext option"
  py_resource :: "jstext option"
  py_description :: "jstext option"
  py_lineItems :: "PaymentRequestLineItem list option"

record SignedPaymentRequest =
  sr_payload :: PaymentRequestPayload
  sr_signature :: jstext

record PaymentRequestVerification =
  pv_valid :: bool
  pv_payload :: PaymentRequestPayload
  pv_invoiceHash :: bytes
  pv_reason :: "string option"

section \<open>Canonical form\<close>

definition orderedLineItem :: "PaymentRequestLineItem \<Rightarrow> PaymentRequestLineItem" where
  "orderedLineItem item = \<lparr>li_label = li_label item, li_amount = li_amount item, li_quantity = li_quantity item\<rparr>"

definition orderedPayload :: "web3 \<Rightarrow> PaymentRequestPayload \<Rightarrow> PaymentRequestPayload result" where
  "orderedPayload W payload =
     bindR (address W (py_merchant payload)) (\<lambda>merchant.
     bindR (address W (py_mint payload)) (\<lambda>mint.
     bindR (address W (py_recipient payload)) (\<lambda>recipient.
     Inr \<lparr>py_version = NInt 1, py_cluster = py_cluster payload, py_merchant = merchant,
          py_invoice = py_invoice payload, py_mint = mint, py_tokenProgram = py_tokenProgram payload,
          py_recipient = recipient, py_amount = py_amount payload, py_decimals = py_decimals payload,
          py_nonce = py_nonce payload, py_expiresAtSlot = py_expiresAtSlot payload,
          py_resource = py_resource payload, py_description = py_description payload,
          py_lineItems = map_option (map orderedLineItem) (py_lineItems payload)\<rparr>)))"

text \<open>An absent property is omitted from the object.\<close>

definition optional_member :: "string \<Rightarrow> json option \<Rightarrow> (jstext \<times> json) list" where
  "optional_member k v = (case v of None \<Rightarrow> [] | Some j \<Rightarrow> [(jstr k, j)])"

definition line_item_json :: "PaymentRequestLineItem \<Rightarrow> json" where
  "line_item_json item = JObj ([(jstr ''label'', JStr (li_label item))]
     @ optional_member ''amount'' (map_option JStr (li_amount item))
     @ optional_member ''quantity'' (map_option JStr (li_quantity item)))"

definition payload_members :: "PaymentRequestPayload \<Rightarrow> (jstext \<times> json) list" where
  "payload_members p =
     [(jstr ''version'', JNum (py_version p)),
      (jstr ''cluster'', JStr (py_cluster p)),
      (jstr ''merchant'', JStr (jstr (py_merchant p))),
      (jstr ''invoice'', JStr (py_invoice p)),
      (jstr ''mint'', JStr (jstr (py_mint p))),
      (jstr ''tokenProgram'', JStr (py_tokenProgram p)),
      (jstr ''recipient'', JStr (jstr (py_recipient p))),
      (jstr ''amount'', JStr (py_amount p)),
      (jstr ''decimals'', JNum (py_decimals p)),
      (jstr ''nonce'', JStr (py_nonce p))]
     @ optional_member ''expiresAtSlot'' (map_option JStr (py_expiresAtSlot p))
     @ optional_member ''resource'' (map_option JStr (py_resource p))
     @ optional_member ''description'' (map_option JStr (py_description p))
     @ optional_member ''lineItems'' (map_option (\<lambda>items. JArr (map line_item_json items)) (py_lineItems p))"

definition canonicalPaymentRequest :: "web3 \<Rightarrow> PaymentRequestPayload \<Rightarrow> jstext result" where
  "canonicalPaymentRequest W payload =
     bindR (orderedPayload W payload) (\<lambda>p. Inr (print_json (JObj (payload_members p))))"

section \<open>Purpose fields\<close>

definition codePoints :: "jstext \<Rightarrow> nat" where
  "codePoints value = length value"

definition has_control :: "jstext \<Rightarrow> bool" where
  "has_control value = list_ex (\<lambda>c. c \<le> 0x1f \<or> 0x7f \<le> c \<and> c \<le> 0x9f) value"

definition line_item_error :: "PaymentRequestLineItem \<Rightarrow> string option" where
  "line_item_error item =
     (if js_trim (li_label item) = [] \<or> codePoints (li_label item) > 120 \<or> has_control (li_label item)
      then Some ''Each line item label must be one line of 1 to 120 characters''
      else if (case li_amount item of None \<Rightarrow> False
               | Some a \<Rightarrow> \<not> digits_text a \<or> text_int a > 18446744073709551615)
      then Some ''Line item amount must be an unsigned integer string in base units''
      else if (case li_quantity item of None \<Rightarrow> False
               | Some q \<Rightarrow> units q > 32 \<or> \<not> decimal_text q)
      then Some ''Line item quantity must be an unsigned decimal string''
      else None)"

fun line_items_error :: "PaymentRequestLineItem list \<Rightarrow> string option" where
  "line_items_error [] = None"
| "line_items_error (item # items) =
     (case line_item_error item of Some e \<Rightarrow> Some e | None \<Rightarrow> line_items_error items)"

definition description_error :: "jstext \<Rightarrow> string option" where
  "description_error description =
     (if js_trim description = [] \<or> codePoints description > 280
      then Some ''Description must be 1 to 280 characters''
      else if has_control description then Some ''Description must be a single line of text''
      else None)"

definition paymentRequestPurposeError :: "PaymentRequestPayload \<Rightarrow> string option" where
  "paymentRequestPurposeError payload =
     (case (case py_description payload of None \<Rightarrow> None | Some d \<Rightarrow> description_error d) of
        Some e \<Rightarrow> Some e
      | None \<Rightarrow> (case py_lineItems payload of
          None \<Rightarrow> None
        | Some items \<Rightarrow>
            if items = [] \<or> length items > 20 then Some ''Line items must contain 1 to 20 items''
            else line_items_error items))"

section \<open>Verification\<close>

definition base64Bytes :: "jstext \<Rightarrow> bytes result" where
  "base64Bytes value =
     (let normalized = map (\<lambda>c. if c = 45 then 43 else if c = 95 then 47 else c) value in
      bindR (atob normalized) (\<lambda>b. Inr (map word_of_nat b)))"

definition validationError :: "PaymentRequestPayload \<Rightarrow> string \<Rightarrow> PaymentRequestVerification" where
  "validationError payload reason =
     \<lparr>pv_valid = False, pv_payload = payload, pv_invoiceHash = replicate 32 0, pv_reason = Some reason\<rparr>"

text \<open>The checks before the signature: the reason of the first that fails.\<close>

definition expiry_error :: "PaymentRequestPayload \<Rightarrow> int option \<Rightarrow> string option" where
  "expiry_error payload currentSlot = (case py_expiresAtSlot payload of
     None \<Rightarrow> None
   | Some e \<Rightarrow>
       if \<not> digits_text e then Some ''Expiry slot must be an unsigned integer''
       else (case currentSlot of
           Some slot \<Rightarrow> if text_int e \<le> slot then Some ''Payment request has expired'' else None
         | None \<Rightarrow> None))"

definition terms_error :: "PaymentRequestPayload \<Rightarrow> string option" where
  "terms_error payload =
     (if py_cluster payload \<noteq> jstr ''devnet'' \<and> py_cluster payload \<noteq> jstr ''mainnet-beta''
      then Some ''Unsupported Solana cluster''
      else if js_trim (py_invoice payload) = [] \<or> js_trim (py_nonce payload) = []
      then Some ''Payment request invoice and nonce are required''
      else if \<not> digits_text (py_amount payload) then Some ''Amount must be an unsigned integer string''
      else if text_int (py_amount payload) \<le> 0 \<or> text_int (py_amount payload) > 18446744073709551615
      then Some ''Amount must fit in u64 and be positive''
      else if \<not> num_in 0 255 (py_decimals payload) then Some ''Decimals must be between 0 and 255''
      else if py_tokenProgram payload \<noteq> jstr ''spl-token'' \<and> py_tokenProgram payload \<noteq> jstr ''token-2022''
      then Some ''Unsupported token program''
      else None)"

text \<open>The body of the \<open>try\<close> block on the ordered payload; \<open>Inl\<close> is a thrown error.\<close>

definition verify_try ::
  "crypto \<Rightarrow> web3 \<Rightarrow> PaymentRequestPayload \<Rightarrow> jstext \<Rightarrow> int option \<Rightarrow> PaymentRequestVerification result" where
  "verify_try C W payload sig currentSlot =
     (case terms_error payload of Some e \<Rightarrow> Inr (validationError payload e) | None \<Rightarrow>
      bindR (address W (py_merchant payload)) (\<lambda>_.
      bindR (address W (py_mint payload)) (\<lambda>_.
      bindR (address W (py_recipient payload)) (\<lambda>_.
      case paymentRequestPurposeError payload of Some e \<Rightarrow> Inr (validationError payload e) | None \<Rightarrow>
      (case expiry_error payload currentSlot of Some e \<Rightarrow> Inr (validationError payload e) | None \<Rightarrow>
      bindR (base64Bytes sig) (\<lambda>signature.
      if length signature \<noteq> 64 then Inr (validationError payload ''Ed25519 signature must be 64 bytes'') else
      bindR (publicKey W (py_merchant payload)) (\<lambda>merchant.
      bindR (canonicalPaymentRequest W payload) (\<lambda>canonical.
      let message = utf8 canonical in
      if \<not> cr_verify C merchant signature message
      then Inr (validationError payload ''Payment request signature is invalid'')
      else Inr \<lparr>pv_valid = True, pv_payload = payload, pv_invoiceHash = cr_sha256 C message, pv_reason = None\<rparr>))))))))"

definition verifyPaymentRequest ::
  "crypto \<Rightarrow> web3 \<Rightarrow> SignedPaymentRequest \<Rightarrow> int option \<Rightarrow> PaymentRequestVerification result" where
  "verifyPaymentRequest C W request currentSlot =
     (if py_version (sr_payload request) \<noteq> NInt 1
      then Inr (validationError (sr_payload request) ''Unsupported payment request version'')
      else bindR (orderedPayload W (sr_payload request)) (\<lambda>payload. Inr
        (case verify_try C W payload (sr_signature request) currentSlot of
           Inr v \<Rightarrow> v
         | Inl e \<Rightarrow> validationError payload e)))"

section \<open>A receipt against its request\<close>

datatype ReceiptPurchaseMismatch = MismatchAmount | MismatchMint | MismatchRecipient

fun mismatch_text :: "ReceiptPurchaseMismatch \<Rightarrow> string" where
  "mismatch_text MismatchAmount = ''amount''"
| "mismatch_text MismatchMint = ''mint''"
| "mismatch_text MismatchRecipient = ''recipient''"

fun join_comma :: "string list \<Rightarrow> string" where
  "join_comma [] = []"
| "join_comma [x] = x"
| "join_comma (x # y # xs) = x @ '', '' @ join_comma (y # xs)"

record ReceiptPurchaseVerification =
  rp_valid :: bool
  rp_matched :: bool
  rp_signatureValid :: bool
  rp_hashMatches :: bool
  rp_mismatches :: "ReceiptPurchaseMismatch list"
  rp_payload :: PaymentRequestPayload
  rp_invoiceHash :: bytes
  rp_reason :: "string option"

definition verifyReceiptPurchase ::
  "crypto \<Rightarrow> web3 \<Rightarrow> Receipt \<Rightarrow> SignedPaymentRequest \<Rightarrow> ReceiptPurchaseVerification result" where
  "verifyReceiptPurchase C W receipt signedRequest =
     bindR (verifyPaymentRequest C W signedRequest None) (\<lambda>verification.
     let payload = pv_payload verification in
     if \<not> pv_valid verification
     then Inr \<lparr>rp_valid = False, rp_matched = False, rp_signatureValid = False, rp_hashMatches = False,
       rp_mismatches = [], rp_payload = payload, rp_invoiceHash = pv_invoiceHash verification,
       rp_reason = pv_reason verification\<rparr>
     else if pv_invoiceHash verification \<noteq> r_invoiceHash receipt
     then Inr \<lparr>rp_valid = False, rp_matched = False, rp_signatureValid = True, rp_hashMatches = False,
       rp_mismatches = [], rp_payload = payload, rp_invoiceHash = pv_invoiceHash verification,
       rp_reason = Some ''This request is not the one this receipt paid: its hash differs from the receipt's invoice hash''\<rparr>
     else
     let mismatches =
           (if text_int (py_amount payload) \<noteq> r_amount receipt then [MismatchAmount] else [])
         @ (if py_mint payload \<noteq> r_mint receipt then [MismatchMint] else [])
         @ (if py_recipient payload \<noteq> r_recipientTokenAccount receipt then [MismatchRecipient] else [])
     in Inr \<lparr>rp_valid = True, rp_matched = (mismatches = []), rp_signatureValid = True, rp_hashMatches = True,
       rp_mismatches = mismatches, rp_payload = payload, rp_invoiceHash = pv_invoiceHash verification,
       rp_reason = (if mismatches = [] then None else
         Some (''The receipt paid a different '' @ join_comma (map mismatch_text mismatches) @ '' than the request named''))\<rparr>)"

section \<open>Lemmas\<close>

lemma orderedPayload_idem:
  assumes W: "web3_ok W" and eq: "orderedPayload W q = Inr p"
  shows "orderedPayload W p = Inr p"
proof -
  from eq have canonical: "address W (py_merchant p) = Inr (py_merchant p)" "address W (py_mint p) = Inr (py_mint p)"
    "address W (py_recipient p) = Inr (py_recipient p)"
    by (auto simp: orderedPayload_def result_simps intro: address_canonical [OF W])
  have items: "map orderedLineItem xs = xs" for xs
    by (induction xs) (simp_all add: orderedLineItem_def)
  from eq have "py_version p = NInt 1" by (auto simp: orderedPayload_def result_simps)
  moreover have "map_option (map orderedLineItem) z = z" for z by (cases z) (simp_all add: items)
  ultimately show ?thesis using canonical by (cases p) (simp add: orderedPayload_def)
qed

lemma orderedPayload_version: "orderedPayload W q = Inr p \<Longrightarrow> py_version p = NInt 1"
  by (auto simp: orderedPayload_def result_simps)

definition signed_bytes :: "PaymentRequestPayload \<Rightarrow> bytes" where
  "signed_bytes p = utf8 (print_json (JObj (payload_members p)))"

lemma verify_try_valid:
  assumes "web3_ok W" and "orderedPayload W q = Inr p" and "verify_try C W p sig slot = Inr v" and "pv_valid v"
  shows "terms_error p = None" "paymentRequestPurposeError p = None" "expiry_error p slot = None"
    and "\<exists>key signature. publicKey W (py_merchant p) = Inr key \<and> base64Bytes sig = Inr signature \<and>
      length signature = 64 \<and> cr_verify C key signature (signed_bytes p)"
    and "v = \<lparr>pv_valid = True, pv_payload = p, pv_invoiceHash = cr_sha256 C (signed_bytes p), pv_reason = None\<rparr>"
proof -
  have canonical: "canonicalPaymentRequest W p = Inr (print_json (JObj (payload_members p)))"
    using orderedPayload_idem [OF assms(1,2)] by (simp add: canonicalPaymentRequest_def)
  have t: "terms_error p = None"
    using assms(3,4) by (cases "terms_error p") (auto simp: verify_try_def validationError_def)
  have u: "paymentRequestPurposeError p = None"
    using assms(3,4) t
    by (cases "paymentRequestPurposeError p") (auto simp: verify_try_def validationError_def result_simps)
  have x: "expiry_error p slot = None"
    using assms(3,4) t u
    by (cases "expiry_error p slot") (auto simp: verify_try_def validationError_def result_simps)
  from assms(3,4) t u x show "\<exists>key signature. publicKey W (py_merchant p) = Inr key \<and> base64Bytes sig = Inr signature \<and>
      length signature = 64 \<and> cr_verify C key signature (signed_bytes p)"
    "v = \<lparr>pv_valid = True, pv_payload = p, pv_invoiceHash = cr_sha256 C (signed_bytes p), pv_reason = None\<rparr>"
    by (auto simp: verify_try_def validationError_def result_simps canonical signed_bytes_def Let_def split: if_splits)
  show "terms_error p = None" "paymentRequestPurposeError p = None" "expiry_error p slot = None"
    by (fact t u x)+
qed

lemma verify_valid:
  assumes "web3_ok W" and "verifyPaymentRequest C W request slot = Inr v" and "pv_valid v"
  obtains "orderedPayload W (sr_payload request) = Inr (pv_payload v)"
    "verify_try C W (pv_payload v) (sr_signature request) slot = Inr v"
    "py_version (sr_payload request) = NInt 1"
proof -
  from assms(2,3) obtain p where p: "orderedPayload W (sr_payload request) = Inr p"
    and v: "v = (case verify_try C W p (sr_signature request) slot of Inr v \<Rightarrow> v | Inl e \<Rightarrow> validationError p e)"
    and "py_version (sr_payload request) = NInt 1"
    by (auto simp: verifyPaymentRequest_def validationError_def result_simps split: if_splits)
  moreover from v assms(3) have "verify_try C W p (sr_signature request) slot = Inr v"
    by (cases "verify_try C W p (sr_signature request) slot") (simp_all add: validationError_def)
  moreover from verify_try_valid(5) [OF assms(1) p this assms(3)] have "pv_payload v = p" by (metis PaymentRequestVerification.select_convs(2))
  ultimately show thesis using that by simp
qed

text \<open>The members determine the payload.\<close>

lemma optional_member_simps [simp]:
  "optional_member k None = []" "optional_member k (Some j) = [(jstr k, j)]"
  by (simp_all add: optional_member_def)

lemma map_of_optional:
  "map_of (optional_member k v @ rest) key = (if jstr k = key then (case v of Some j \<Rightarrow> Some j | None \<Rightarrow> map_of rest key) else map_of rest key)"
  by (cases v) simp_all

lemma map_option_JStr [simp]: "map_option JStr a = map_option JStr b \<longleftrightarrow> a = b"
  by (cases a; cases b) auto

lemma line_item_json_inject: "line_item_json a = line_item_json b \<Longrightarrow> a = b"
proof -
  assume eq: "line_item_json a = line_item_json b"
  obtain x where x: "line_item_json a = JObj x" "line_item_json b = JObj x"
    using eq by (simp add: line_item_json_def)
  have fields: "map_of x (jstr ''label'') = Some (JStr (li_label i))"
    "map_of x (jstr ''amount'') = map_option JStr (li_amount i)"
    "map_of x (jstr ''quantity'') = map_option JStr (li_quantity i)" if "line_item_json i = JObj x" for i
    using that by (cases "li_amount i"; cases "li_quantity i"; auto simp: line_item_json_def jstr_inject)+
  from fields [OF x(1)] fields [OF x(2)]
  have "li_label a = li_label b" "map_option JStr (li_amount a) = map_option JStr (li_amount b)"
    "map_option JStr (li_quantity a) = map_option JStr (li_quantity b)" by auto
  then show ?thesis by (cases a; cases b) simp
qed

lemma line_items_inject:
  "map_option (\<lambda>items. JArr (map line_item_json items)) a = map_option (\<lambda>items. JArr (map line_item_json items)) b \<longleftrightarrow> a = b"
proof -
  have "inj line_item_json" by (rule injI) (rule line_item_json_inject)
  then show ?thesis by (cases a; cases b) auto
qed

lemma payload_member_lookup:
  assumes "payload_members p = x"
  shows "map_of x (jstr ''version'') = Some (JNum (py_version p))"
    and "map_of x (jstr ''cluster'') = Some (JStr (py_cluster p))"
    and "map_of x (jstr ''merchant'') = Some (JStr (jstr (py_merchant p)))"
    and "map_of x (jstr ''invoice'') = Some (JStr (py_invoice p))"
    and "map_of x (jstr ''mint'') = Some (JStr (jstr (py_mint p)))"
    and "map_of x (jstr ''tokenProgram'') = Some (JStr (py_tokenProgram p))"
    and "map_of x (jstr ''recipient'') = Some (JStr (jstr (py_recipient p)))"
    and "map_of x (jstr ''amount'') = Some (JStr (py_amount p))"
    and "map_of x (jstr ''decimals'') = Some (JNum (py_decimals p))"
    and "map_of x (jstr ''nonce'') = Some (JStr (py_nonce p))"
    and "map_of x (jstr ''expiresAtSlot'') = map_option JStr (py_expiresAtSlot p)"
    and "map_of x (jstr ''resource'') = map_option JStr (py_resource p)"
    and "map_of x (jstr ''description'') = map_option JStr (py_description p)"
    and "map_of x (jstr ''lineItems'') = map_option (\<lambda>items. JArr (map line_item_json items)) (py_lineItems p)"
  unfolding assms [symmetric] payload_members_def
  by (simp_all add: jstr_inject map_of_optional map_add_def optional_member_def split: option.splits)

lemma payload_members_inject: "payload_members p = payload_members q \<Longrightarrow> p = q"
proof -
  assume eq: "payload_members p = payload_members q"
  note l = payload_member_lookup [OF eq] and r = payload_member_lookup [OF refl [of "payload_members q"]]
  show ?thesis
    by (rule PaymentRequestPayload.equality)
       (use l r in \<open>simp_all add: jstr_inject line_items_inject\<close>)
qed

text \<open>Every string of a payload is a JavaScript string: its elements are code points.\<close>

definition item_text_ok :: "PaymentRequestLineItem \<Rightarrow> bool" where
  "item_text_ok i \<longleftrightarrow> text_ok (li_label i) \<and> pred_option text_ok (li_amount i) \<and> pred_option text_ok (li_quantity i)"

definition payload_text_ok :: "PaymentRequestPayload \<Rightarrow> bool" where
  "payload_text_ok p \<longleftrightarrow> text_ok (py_cluster p) \<and> text_ok (py_invoice p) \<and> text_ok (py_tokenProgram p) \<and>
     text_ok (py_amount p) \<and> text_ok (py_nonce p) \<and> pred_option text_ok (py_expiresAtSlot p) \<and>
     pred_option text_ok (py_resource p) \<and> pred_option text_ok (py_description p) \<and>
     pred_option (list_all item_text_ok) (py_lineItems p)"

lemma text_ok_jstr [simp]: "text_ok (jstr s)"
  using scalar_jstr [of s] by (auto simp: text_ok_def list_all_iff scalar_def)

lemma plain_members_append [simp]: "plain_members (a @ b) \<longleftrightarrow> plain_members a \<and> plain_members b"
  by (induction a) auto

lemma plain_optional [simp]: "plain_members (optional_member k v) \<longleftrightarrow> pred_option plain v"
  by (cases v) simp_all

lemma pred_option_map_JStr [simp]: "pred_option plain (map_option JStr v) \<longleftrightarrow> pred_option text_ok v"
  by (cases v) simp_all

lemma plain_line_item: "item_text_ok i \<Longrightarrow> plain (line_item_json i)"
  by (simp add: line_item_json_def item_text_ok_def)

lemma plain_line_items: "list_all item_text_ok items \<Longrightarrow> plain_items (map line_item_json items)"
  by (induction items) (simp_all add: plain_line_item)

lemma plain_payload:
  assumes "payload_text_ok p" and "py_version p = NInt 1" and "num_in 0 255 (py_decimals p)"
  shows "plain (JObj (payload_members p))"
proof -
  obtain d where "py_decimals p = NInt d" using assms(3) by (cases "py_decimals p") auto
  moreover have "pred_option plain (map_option (\<lambda>items. JArr (map line_item_json items)) (py_lineItems p))"
    using assms(1) by (cases "py_lineItems p") (simp_all add: payload_text_ok_def plain_line_items)
  ultimately show ?thesis
    using assms(1,2) by (simp add: payload_members_def payload_text_ok_def)
qed

lemma terms_ok_decimals: "terms_error p = None \<Longrightarrow> num_in 0 255 (py_decimals p)"
  by (simp add: terms_error_def split: if_splits)

lemma signed_bytes_inject:
  assumes "payload_text_ok p" "py_version p = NInt 1" "terms_error p = None"
    and "payload_text_ok q" "py_version q = NInt 1" "terms_error q = None"
    and "signed_bytes p = signed_bytes q"
  shows "p = q"
proof -
  have "plain (JObj (payload_members p))" "plain (JObj (payload_members q))"
    using assms(1-6) plain_payload terms_ok_decimals by blast+
  from utf8_print_inject [OF this] assms(7) have "payload_members p = payload_members q"
    by (simp add: signed_bytes_def)
  then show ?thesis by (rule payload_members_inject)
qed

section \<open>Properties\<close>

text \<open>
  C21. A payment request that verifies is one its merchant signed and that makes sense: the Ed25519
  signature is 64 bytes and valid under the merchant's key over the UTF-8 bytes of the canonical
  JSON of exactly the payload returned, the invoice hash is the SHA-256 of those bytes, the amount
  is a positive u64, the cluster and token program are known ones, the purpose fields are in
  bounds, and with a slot given the request has not expired.
\<close>

theorem verified_request_sound:
  assumes W: "web3_ok W" and eq: "verifyPaymentRequest C W request slot = Inr v" and valid: "pv_valid v"
  shows "orderedPayload W (sr_payload request) = Inr (pv_payload v) \<and>
     (\<exists>key signature. publicKey W (py_merchant (pv_payload v)) = Inr key \<and>
        base64Bytes (sr_signature request) = Inr signature \<and> length signature = 64 \<and>
        cr_verify C key signature (signed_bytes (pv_payload v))) \<and>
     pv_invoiceHash v = cr_sha256 C (signed_bytes (pv_payload v)) \<and>
     0 < text_int (py_amount (pv_payload v)) \<and> text_int (py_amount (pv_payload v)) < 2 ^ 64 \<and>
     py_cluster (pv_payload v) \<in> {jstr ''devnet'', jstr ''mainnet-beta''} \<and>
     py_tokenProgram (pv_payload v) \<in> {jstr ''spl-token'', jstr ''token-2022''} \<and>
     paymentRequestPurposeError (pv_payload v) = None \<and>
     (\<forall>e now. py_expiresAtSlot (pv_payload v) = Some e \<longrightarrow> slot = Some now \<longrightarrow> now < text_int e)"
proof (rule verify_valid [OF assms])
  assume p: "orderedPayload W (sr_payload request) = Inr (pv_payload v)"
    and t: "verify_try C W (pv_payload v) (sr_signature request) slot = Inr v"
  note f = verify_try_valid [OF W p t valid]
  have "pv_invoiceHash v = cr_sha256 C (signed_bytes (pv_payload v))"
    using f(5) by (metis PaymentRequestVerification.select_convs(3))
  with p f(1-4) show ?thesis
    by (auto simp: terms_error_def expiry_error_def split: if_splits)
qed

text \<open>
  The invoice hash binds the whole request: two verified requests with the same invoice hash have
  the same payload in every field, line items included, unless the bytes the two merchants signed are
  themselves two different strings with the same SHA-256 digest.
\<close>

theorem invoice_hash_binds_request:
  assumes W: "web3_ok W"
    and 1: "verifyPaymentRequest C W request1 slot1 = Inr v1" "pv_valid v1" "payload_text_ok (pv_payload v1)"
    and 2: "verifyPaymentRequest C W request2 slot2 = Inr v2" "pv_valid v2" "payload_text_ok (pv_payload v2)"
    and hash: "pv_invoiceHash v1 = pv_invoiceHash v2"
  shows "pv_payload v1 = pv_payload v2 \<or>
    signed_bytes (pv_payload v1) \<noteq> signed_bytes (pv_payload v2) \<and>
    cr_sha256 C (signed_bytes (pv_payload v1)) = cr_sha256 C (signed_bytes (pv_payload v2))"
proof -
  have facts: "terms_error (pv_payload v) = None \<and> py_version (pv_payload v) = NInt 1 \<and>
      pv_invoiceHash v = cr_sha256 C (signed_bytes (pv_payload v))"
    if "verifyPaymentRequest C W request slot = Inr v" "pv_valid v" for request slot v
  proof (rule verify_valid [OF W that])
    assume p: "orderedPayload W (sr_payload request) = Inr (pv_payload v)"
      and t: "verify_try C W (pv_payload v) (sr_signature request) slot = Inr v"
    note f = verify_try_valid [OF W p t that(2)]
    have "py_version (pv_payload v) = NInt 1" by (rule orderedPayload_version [OF p])
    with f(1,5) show ?thesis by (metis PaymentRequestVerification.select_convs(3))
  qed
  show ?thesis
  proof (cases "signed_bytes (pv_payload v1) = signed_bytes (pv_payload v2)")
    case True
    then show ?thesis using facts [OF 1(1,2)] facts [OF 2(1,2)] 1(3) 2(3) signed_bytes_inject by blast
  next
    case False
    then show ?thesis using facts [OF 1(1,2)] facts [OF 2(1,2)] hash by metis
  qed
qed

text \<open>
  A purchase is reported as matched exactly when the merchant's request verifies, hashes to the
  receipt's invoice hash, and names the amount, mint and recipient the receipt paid; expiry plays
  no part. Otherwise the mismatches list exactly the fields that differ.
\<close>

theorem matched_purchase_exact:
  assumes "verifyPaymentRequest C W request None = Inr v" and "verifyReceiptPurchase C W receipt request = Inr p"
  shows "(rp_matched p \<longleftrightarrow> pv_valid v \<and> pv_invoiceHash v = r_invoiceHash receipt \<and>
       text_int (py_amount (pv_payload v)) = r_amount receipt \<and> py_mint (pv_payload v) = r_mint receipt \<and>
       py_recipient (pv_payload v) = r_recipientTokenAccount receipt) \<and>
     (rp_valid p \<longleftrightarrow> pv_valid v \<and> pv_invoiceHash v = r_invoiceHash receipt) \<and>
     (rp_valid p \<longrightarrow>
       (MismatchAmount \<in> set (rp_mismatches p) \<longleftrightarrow> text_int (py_amount (pv_payload v)) \<noteq> r_amount receipt) \<and>
       (MismatchMint \<in> set (rp_mismatches p) \<longleftrightarrow> py_mint (pv_payload v) \<noteq> r_mint receipt) \<and>
       (MismatchRecipient \<in> set (rp_mismatches p) \<longleftrightarrow> py_recipient (pv_payload v) \<noteq> r_recipientTokenAccount receipt))"
  using assms by (auto simp: verifyReceiptPurchase_def Let_def split: if_splits)

section \<open>A concrete request\<close>

text \<open>A digest and a signature scheme that are easy to evaluate; the hash keeps 32 bytes.\<close>

definition sample_crypto :: crypto where
  "sample_crypto = \<lparr>cr_sha256 = (\<lambda>m. take 32 (m @ replicate 32 0)), cr_verify = (\<lambda>key sig msg. sig = replicate 64 0)\<rparr>"

definition sample_payload :: PaymentRequestPayload where
  "sample_payload = \<lparr>py_version = NInt 1, py_cluster = jstr ''devnet'',
     py_merchant = to_base58 sample_web3 (replicate 32 1), py_invoice = jstr ''inv-1'',
     py_mint = to_base58 sample_web3 (replicate 32 4), py_tokenProgram = jstr ''spl-token'',
     py_recipient = to_base58 sample_web3 (replicate 32 6), py_amount = jstr ''25'', py_decimals = NInt 6,
     py_nonce = jstr ''n1'', py_expiresAtSlot = Some (jstr ''900''), py_resource = None, py_description = None,
     py_lineItems = None\<rparr>"

definition sample_signed :: SignedPaymentRequest where
  "sample_signed = \<lparr>sr_payload = sample_payload, sr_signature = btoa (replicate 64 0)\<rparr>"

lemma sample_signature: "base64Bytes (btoa (replicate 64 0)) = Inr (replicate 64 0)"
proof -
  have plain: "map (\<lambda>c. if c = 45 then 43 else if c = 95 then 47 else c) (btoa bs) = btoa bs"
    if "\<forall>b \<in> set bs. b < 256" for bs
    using btoa_chars [OF that] by (intro map_idI) (auto simp: b64_val_def)
  show ?thesis
    unfolding base64Bytes_def Let_def using plain [of "replicate 64 0"] atob_btoa [of "replicate 64 0"] by simp
qed

lemma sample_ordered: "orderedPayload sample_web3 sample_payload = Inr sample_payload"
  by (simp add: orderedPayload_def sample_payload_def)

lemma sample_terms: "terms_error sample_payload = None" "expiry_error sample_payload (Some 500) = None"
  "expiry_error sample_payload None = None" "paymentRequestPurposeError sample_payload = None"
  by (simp_all add: terms_error_def expiry_error_def paymentRequestPurposeError_def sample_payload_def
      js_trim_def js_space_def jstr_def digits_text_def cp_digit_def text_int_def)

lemma sample_verifies:
  assumes "slot = Some 500 \<or> slot = None"
  shows "\<exists>v. verifyPaymentRequest sample_crypto sample_web3 sample_signed slot = Inr v \<and> pv_valid v \<and> pv_payload v = sample_payload"
proof -
  obtain key where key: "publicKey sample_web3 (py_merchant sample_payload) = Inr key"
    "address sample_web3 (py_merchant sample_payload) = Inr (py_merchant sample_payload)"
    "address sample_web3 (py_mint sample_payload) = Inr (py_mint sample_payload)"
    "address sample_web3 (py_recipient sample_payload) = Inr (py_recipient sample_payload)"
    by (simp add: sample_payload_def)
  have version: "py_version sample_payload = NInt 1" by (simp add: sample_payload_def)
  show ?thesis
    using assms key
    by (auto simp: verifyPaymentRequest_def sample_signed_def sample_ordered verify_try_def sample_terms
        sample_signature canonicalPaymentRequest_def sample_crypto_def version Let_def)
qed

theorem verified_request_sound_witness:
  "\<exists>v. verifyPaymentRequest sample_crypto sample_web3 sample_signed (Some 500) = Inr v \<and>
     pv_invoiceHash v = cr_sha256 sample_crypto (signed_bytes sample_payload)"
proof -
  obtain v where v: "verifyPaymentRequest sample_crypto sample_web3 sample_signed (Some 500) = Inr v" "pv_valid v"
    "pv_payload v = sample_payload" using sample_verifies by blast
  from verified_request_sound [OF sample_web3_ok v(1,2)] v show ?thesis by auto
qed

theorem invoice_hash_binds_request_witness:
  "\<exists>v1 v2. verifyPaymentRequest sample_crypto sample_web3 sample_signed (Some 500) = Inr v1 \<and>
     verifyPaymentRequest sample_crypto sample_web3 sample_signed None = Inr v2 \<and>
     pv_invoiceHash v1 = pv_invoiceHash v2 \<and>
     (pv_payload v1 = pv_payload v2 \<or> signed_bytes (pv_payload v1) \<noteq> signed_bytes (pv_payload v2))"
proof -
  have ok: "payload_text_ok sample_payload" by (simp add: payload_text_ok_def sample_payload_def)
  obtain v1 where v1: "verifyPaymentRequest sample_crypto sample_web3 sample_signed (Some 500) = Inr v1" "pv_valid v1"
    "payload_text_ok (pv_payload v1)" "pv_payload v1 = sample_payload" using sample_verifies ok by metis
  obtain v2 where v2: "verifyPaymentRequest sample_crypto sample_web3 sample_signed None = Inr v2" "pv_valid v2"
    "payload_text_ok (pv_payload v2)" "pv_payload v2 = sample_payload" using sample_verifies ok by metis
  have h: "pv_invoiceHash v1 = pv_invoiceHash v2"
    using v1 v2 verify_try_valid(5) verify_valid [OF sample_web3_ok v1(1,2)] verify_valid [OF sample_web3_ok v2(1,2)]
    by (metis sample_web3_ok)
  from invoice_hash_binds_request [OF sample_web3_ok v1(1-3) v2(1-3) h] v1 v2 h show ?thesis by blast
qed

theorem matched_purchase_exact_witness:
  "\<exists>v p receipt. verifyPaymentRequest sample_crypto sample_web3 sample_signed None = Inr v \<and>
     verifyReceiptPurchase sample_crypto sample_web3 receipt sample_signed = Inr p \<and> rp_matched p"
proof -
  obtain v where v: "verifyPaymentRequest sample_crypto sample_web3 sample_signed None = Inr v" "pv_valid v"
    "pv_payload v = sample_payload" using sample_verifies by blast
  define receipt where "receipt = (receipt_view sample_web3 example_receipt [] None None)\<lparr>r_invoiceHash := pv_invoiceHash v\<rparr>"
  have same: "text_int (py_amount sample_payload) = r_amount receipt" "py_mint sample_payload = r_mint receipt"
    "py_recipient sample_payload = r_recipientTokenAccount receipt" "pv_invoiceHash v = r_invoiceHash receipt"
    by (simp_all add: receipt_def receipt_view_def example_receipt_def sample_payload_def text_int_def jstr_def)
  obtain p where p: "verifyReceiptPurchase sample_crypto sample_web3 receipt sample_signed = Inr p"
    using v by (cases "verifyReceiptPurchase sample_crypto sample_web3 receipt sample_signed")
      (auto simp: verifyReceiptPurchase_def Let_def split: if_splits)
  from matched_purchase_exact [OF v(1) p] v p same show ?thesis by auto
qed

end
