(* ===== verification/Delivery.thy ===== *)
theory Delivery
  imports PaymentRequest
begin

text \<open>
  \<open>sdk/src/delivery.ts\<close>: the seller's signed statement that a response was served. The envelope is
  untrusted JSON, so it is a \<open>json\<close> value with its members in the order \<open>Object.keys\<close> lists them.
  \<open>Date.parse\<close> and \<open>toISOString\<close> are written out on the canonical ISO form the code accepts. The
  clock is the argument \<open>clock\<close> (milliseconds); signing keys are the record \<open>signer\<close>. The properties:
  what an accepted attestation guarantees, that a signed one is accepted, and that the signed bytes
  determine the payload.
\<close>

section \<open>Data and constants\<close>

definition DELIVERY_STATEMENT :: jstext where "DELIVERY_STATEMENT = jstr ''chainpay.response-served''"
definition DELIVERY_CLUSTER :: jstext where "DELIVERY_CLUSTER = jstr ''devnet''"

definition PAYLOAD_KEYS :: "jstext list" where
  "PAYLOAD_KEYS = map jstr [''version'', ''statement'', ''cluster'', ''programId'', ''receiptAddress'',
     ''seller'', ''contentHash'', ''servedAt'']"

definition ENVELOPE_KEYS :: "jstext list" where
  "ENVELOPE_KEYS = map jstr [''payload'', ''signature'']"

definition ED25519_PKCS8_PREFIX :: bytes where
  "ED25519_PKCS8_PREFIX = [0x30, 0x2e, 0x02, 0x01, 0x00, 0x30, 0x05, 0x06, 0x03, 0x2b, 0x65, 0x70, 0x04, 0x22, 0x04, 0x20]"

record DeliveryAttestationPayload =
  dp_programId :: address
  dp_receiptAddress :: address
  dp_seller :: address
  dp_contentHash :: jstext
  dp_servedAt :: jstext

record SignedDeliveryAttestation =
  da_payload :: DeliveryAttestationPayload
  da_signature :: jstext

record TrustedSellerMapping =
  tm_cluster :: jstext
  tm_programId :: address
  tm_sellers :: "address list"
  tm_recipientTokenAccount :: "address option"

record DeliveryVerification =
  dv_valid :: bool
  dv_payload :: "DeliveryAttestationPayload option"
  dv_reason :: "string option"
  dv_code :: "string option"

record VerifyDeliveryOptions =
  vo_trustedSellers :: "TrustedSellerMapping option"
  vo_receipt :: "(address \<times> address) option"
  vo_programId :: "address option"
  vo_now :: "int option"
  vo_maxFutureSkewMs :: "int option"

record signer =
  sg_sign :: "bytes \<Rightarrow> bytes \<Rightarrow> bytes"

section \<open>Helpers\<close>

definition unknownKeys :: "(jstext \<times> json) list \<Rightarrow> jstext list \<Rightarrow> jstext list" where
  "unknownKeys value allowed = filter (\<lambda>key. key \<notin> set allowed) (map fst value)"

definition dv_error :: "string \<Rightarrow> string \<Rightarrow> DeliveryAttestationPayload option \<Rightarrow> DeliveryVerification" where
  "dv_error reason code payload =
     \<lparr>dv_valid = False, dv_payload = payload, dv_reason = Some reason, dv_code = Some code\<rparr>"

text \<open>The text of a JSON string as an address argument: web3.js refuses code points above one byte.\<close>

definition text_string :: "jstext \<Rightarrow> string" where
  "text_string t = map (\<lambda>c. char_of (c mod 256)) t"

definition address_text :: "web3 \<Rightarrow> jstext \<Rightarrow> address result" where
  "address_text W t =
     (if list_ex (\<lambda>c. c \<ge> 256) t then Inl (''Invalid Solana address: '' @ text_string t)
      else address W (text_string t))"

definition lower_hex_text :: "jstext \<Rightarrow> bool" where
  "lower_hex_text t = list_all (\<lambda>c. 48 \<le> c \<and> c \<le> 57 \<or> 97 \<le> c \<and> c \<le> 102) t"

text \<open>\<open>/^\\d{4}-\\d{2}-\\d{2}T\\d{2}:\\d{2}:\\d{2}\\.\\d{3}Z$/\<close>: \<open>None\<close> is a digit, \<open>Some c\<close> that character.\<close>

definition iso_shape :: "nat option list" where
  "iso_shape = replicate 4 None @ [Some 45] @ replicate 2 None @ [Some 45] @ replicate 2 None @ [Some 84]
     @ replicate 2 None @ [Some 58] @ replicate 2 None @ [Some 58] @ replicate 2 None @ [Some 46]
     @ replicate 3 None @ [Some 90]"

definition matches_iso :: "jstext \<Rightarrow> bool" where
  "matches_iso t = list_all2 (\<lambda>c s. case s of None \<Rightarrow> cp_digit c | Some x \<Rightarrow> c = x) t iso_shape"

definition num_at :: "jstext \<Rightarrow> nat \<Rightarrow> nat \<Rightarrow> int" where
  "num_at t off n = text_int (slice t off n)"

definition leap_year :: "int \<Rightarrow> bool" where
  "leap_year y \<longleftrightarrow> y mod 4 = 0 \<and> (y mod 100 \<noteq> 0 \<or> y mod 400 = 0)"

definition days_in_month :: "int \<Rightarrow> int \<Rightarrow> int" where
  "days_in_month y m = (if m = 2 then (if leap_year y then 29 else 28) else if m \<in> {4, 6, 9, 11} then 30 else 31)"

text \<open>Days from 1970-01-01 to a civil date, and \<open>Date.parse\<close> in milliseconds.\<close>

definition days_from_civil :: "int \<Rightarrow> int \<Rightarrow> int \<Rightarrow> int" where
  "days_from_civil y m d =
     (let y' = (if m \<le> 2 then y - 1 else y); era = y' div 400; yoe = y' - era * 400;
          mp = (if m > 2 then m - 3 else m + 9); doy = (153 * mp + 2) div 5 + d - 1;
          doe = yoe * 365 + yoe div 4 - yoe div 100 + doy
      in era * 146097 + doe - 719468)"

definition date_parse :: "jstext \<Rightarrow> int" where
  "date_parse t = days_from_civil (num_at t 0 4) (num_at t 5 2) (num_at t 8 2) * 86400000
     + num_at t 11 2 * 3600000 + num_at t 14 2 * 60000 + num_at t 17 2 * 1000 + num_at t 20 3"

text \<open>
  \<open>isCanonicalUtcIso\<close>: a date that is not in the calendar, or hour 24, either does not parse or
  prints differently, so the round trip leaves exactly the calendar dates.
\<close>

definition isCanonicalUtcIso :: "jstext \<Rightarrow> bool" where
  "isCanonicalUtcIso t \<longleftrightarrow> matches_iso t \<and>
     1 \<le> num_at t 5 2 \<and> num_at t 5 2 \<le> 12 \<and>
     1 \<le> num_at t 8 2 \<and> num_at t 8 2 \<le> days_in_month (num_at t 0 4) (num_at t 5 2) \<and>
     num_at t 11 2 \<le> 23 \<and> num_at t 14 2 \<le> 59 \<and> num_at t 17 2 \<le> 59"

definition ed25519Seed :: "bytes \<Rightarrow> bytes result" where
  "ed25519Seed secretKey =
     (if length secretKey = 32 then Inr secretKey
      else if length secretKey = 64 then Inr (take 32 secretKey)
      else Inl ''Ed25519 secret key must be 32 or 64 bytes'')"

definition pkcs8FromSeed :: "bytes \<Rightarrow> bytes" where
  "pkcs8FromSeed seed = ED25519_PKCS8_PREFIX @ seed"

definition bytesToCanonicalBase64 :: "bytes \<Rightarrow> jstext" where
  "bytesToCanonicalBase64 b = btoa (map unat b)"

text \<open>\<open>/^[A-Za-z0-9+/]+={0,2}$/\<close>\<close>

definition canonical_base64 :: "jstext \<Rightarrow> bool" where
  "canonical_base64 t =
     (let body = takeWhile (\<lambda>c. c \<noteq> 61) t; pad = dropWhile (\<lambda>c. c \<noteq> 61) t in
      body \<noteq> [] \<and> list_all (\<lambda>c. b64_val c \<noteq> None) body \<and> length pad \<le> 2 \<and> list_all (\<lambda>c. c = 61) pad)"

definition canonicalBase64ToBytes :: "jstext \<Rightarrow> bytes result" where
  "canonicalBase64ToBytes value =
     (if \<not> canonical_base64 value \<or> length value mod 4 \<noteq> 0
      then Inl ''Delivery signature must be canonical base64''
      else bindR (atob value) (\<lambda>b. Inr (map word_of_nat b)))"

section \<open>Parsing\<close>

fun string_member :: "json option \<Rightarrow> jstext option" where
  "string_member (Some (JStr s)) = Some s"
| "string_member _ = None"

definition parse_members :: "web3 \<Rightarrow> (jstext \<times> json) list \<Rightarrow> DeliveryAttestationPayload result" where
  "parse_members W value =
     (let member = (\<lambda>k. map_of value (jstr k)) in
      bindR (require (member ''version'' = Some (JNum (NInt 1))) ''Unsupported delivery attestation version'') (\<lambda>_.
      bindR (case unknownKeys value PAYLOAD_KEYS of
               [] \<Rightarrow> Inr () | k # _ \<Rightarrow> Inl (''Unknown delivery attestation field: '' @ text_string k)) (\<lambda>_.
      bindR (require (member ''statement'' = Some (JStr DELIVERY_STATEMENT)) ''Unsupported delivery statement'') (\<lambda>_.
      bindR (require (member ''cluster'' = Some (JStr DELIVERY_CLUSTER)) ''Unsupported delivery cluster'') (\<lambda>_.
      bindR (case string_member (member ''contentHash'') of
               Some h \<Rightarrow> if length h = 64 \<and> lower_hex_text h then Inr h
                         else Inl ''contentHash must be 64-char lowercase SHA-256 hex''
             | None \<Rightarrow> Inl ''contentHash must be 64-char lowercase SHA-256 hex'') (\<lambda>contentHash.
      bindR (case string_member (member ''servedAt'') of
               Some t \<Rightarrow> if isCanonicalUtcIso t then Inr t
                         else Inl ''servedAt must be a canonical UTC ISO-8601 timestamp''
             | None \<Rightarrow> Inl ''servedAt must be a canonical UTC ISO-8601 timestamp'') (\<lambda>servedAt.
      bindR (case (string_member (member ''programId''), string_member (member ''receiptAddress''), string_member (member ''seller'')) of
               (Some p, Some r, Some s) \<Rightarrow> Inr (p, r, s)
             | _ \<Rightarrow> Inl ''programId, receiptAddress, and seller must be Solana addresses'') (\<lambda>(p, r, s).
      bindR (address_text W p) (\<lambda>programId.
      bindR (address_text W r) (\<lambda>receiptAddress.
      bindR (address_text W s) (\<lambda>seller.
      Inr \<lparr>dp_programId = programId, dp_receiptAddress = receiptAddress, dp_seller = seller,
           dp_contentHash = contentHash, dp_servedAt = servedAt\<rparr>)))))))))))"

fun parseDeliveryPayload :: "web3 \<Rightarrow> json option \<Rightarrow> DeliveryAttestationPayload result" where
  "parseDeliveryPayload W (Some (JObj value)) = parse_members W value"
| "parseDeliveryPayload W _ = Inl ''Delivery payload must be an object''"

fun parseDeliveryEnvelope :: "web3 \<Rightarrow> json \<Rightarrow> SignedDeliveryAttestation result" where
  "parseDeliveryEnvelope W (JObj value) =
     bindR (case unknownKeys value ENVELOPE_KEYS of
              [] \<Rightarrow> Inr () | k # _ \<Rightarrow> Inl (''Unknown delivery envelope field: '' @ text_string k)) (\<lambda>_.
     bindR (fetch (string_member (map_of value (jstr ''signature''))) ''Delivery signature is required'') (\<lambda>sig.
     bindR (parseDeliveryPayload W (map_of value (jstr ''payload''))) (\<lambda>payload.
     Inr \<lparr>da_payload = payload, da_signature = sig\<rparr>)))"
| "parseDeliveryEnvelope W _ = Inl ''Delivery attestation must be an object''"

section \<open>Canonical bytes, signing, verifying\<close>

definition delivery_json :: "DeliveryAttestationPayload \<Rightarrow> json" where
  "delivery_json p = JObj
     [(jstr ''version'', JNum (NInt 1)), (jstr ''statement'', JStr DELIVERY_STATEMENT),
      (jstr ''cluster'', JStr DELIVERY_CLUSTER), (jstr ''programId'', JStr (jstr (dp_programId p))),
      (jstr ''receiptAddress'', JStr (jstr (dp_receiptAddress p))), (jstr ''seller'', JStr (jstr (dp_seller p))),
      (jstr ''contentHash'', JStr (dp_contentHash p)), (jstr ''servedAt'', JStr (dp_servedAt p))]"

definition canonicalDeliveryPayload :: "web3 \<Rightarrow> DeliveryAttestationPayload \<Rightarrow> jstext result" where
  "canonicalDeliveryPayload W payload =
     bindR (parseDeliveryPayload W (Some (delivery_json payload))) (\<lambda>parsed. Inr (print_json (delivery_json parsed)))"

definition signDeliveryAttestation ::
  "signer \<Rightarrow> web3 \<Rightarrow> json \<Rightarrow> bytes \<Rightarrow> SignedDeliveryAttestation result" where
  "signDeliveryAttestation S W payload secretKey =
     bindR (parseDeliveryPayload W (Some payload)) (\<lambda>parsed.
     bindR (canonicalDeliveryPayload W parsed) (\<lambda>canonical.
     bindR (ed25519Seed secretKey) (\<lambda>seed.
     Inr \<lparr>da_payload = parsed,
          da_signature = bytesToCanonicalBase64 (sg_sign S (pkcs8FromSeed seed) (utf8 canonical))\<rparr>)))"

definition trustedSellerAllows ::
  "web3 \<Rightarrow> DeliveryAttestationPayload \<Rightarrow> TrustedSellerMapping \<Rightarrow> string option result" where
  "trustedSellerAllows W payload mapping =
     (if tm_cluster mapping \<noteq> DELIVERY_CLUSTER then Inr (Some ''Delivery cluster is not trusted'')
      else bindR (address W (tm_programId mapping)) (\<lambda>program.
      if program \<noteq> dp_programId payload then Inr (Some ''Delivery programId is not trusted'')
      else bindR (mapR (address W) (tm_sellers mapping)) (\<lambda>allowed.
      Inr (if dp_seller payload \<notin> set allowed then Some ''Unknown delivery seller'' else None))))"

text \<open>A truthy optional string.\<close>

definition truthy :: "string option \<Rightarrow> string option" where
  "truthy s = (case s of Some [] \<Rightarrow> None | _ \<Rightarrow> s)"

definition delivery_try ::
  "crypto \<Rightarrow> web3 \<Rightarrow> int \<Rightarrow> SignedDeliveryAttestation \<Rightarrow> VerifyDeliveryOptions \<Rightarrow> DeliveryVerification result" where
  "delivery_try C W clock parsed options =
     (let payload = da_payload parsed; fail = (\<lambda>reason code. Inr (dv_error reason code (Some payload))) in
      case vo_trustedSellers options of
        None \<Rightarrow> fail ''A trusted seller mapping is required to verify a delivery attestation.'' ''unknown_seller''
      | Some trusted \<Rightarrow>
      bindR (trustedSellerAllows W payload trusted) (\<lambda>trustError.
      case trustError of Some e \<Rightarrow> fail e ''unknown_seller'' | None \<Rightarrow>
      bindR (case (truthy (tm_recipientTokenAccount trusted), vo_receipt options) of
               (Some t, Some (_, recipient)) \<Rightarrow> bindR (address W t) (\<lambda>a. bindR (address W recipient) (\<lambda>b. Inr (a \<noteq> b)))
             | _ \<Rightarrow> Inr False) (\<lambda>recipientDiffers.
      if recipientDiffers then fail ''Trusted seller does not match receipt recipient'' ''recipient_mismatch'' else
      bindR (case truthy (vo_programId options) of
               Some p \<Rightarrow> bindR (address W p) (\<lambda>a. Inr (a \<noteq> dp_programId payload)) | None \<Rightarrow> Inr False) (\<lambda>programDiffers.
      if programDiffers then fail ''Delivery programId does not match expected program'' ''program_mismatch'' else
      bindR (case vo_receipt options of
               Some (addr, _) \<Rightarrow> bindR (address W addr) (\<lambda>a. Inr (a \<noteq> dp_receiptAddress payload)) | None \<Rightarrow> Inr False) (\<lambda>receiptDiffers.
      if receiptDiffers then fail ''Delivery receiptAddress does not match the receipt'' ''receipt_mismatch'' else
      let now = (case vo_now options of Some n \<Rightarrow> n | None \<Rightarrow> clock);
          skew = (case vo_maxFutureSkewMs options of Some n \<Rightarrow> n | None \<Rightarrow> 5 * 60000) in
      if date_parse (dp_servedAt payload) - now > skew
      then fail ''Delivery servedAt is unreasonably far in the future'' ''invalid_timestamp'' else
      bindR (canonicalBase64ToBytes (da_signature parsed)) (\<lambda>signature.
      if length signature \<noteq> 64 then fail ''Ed25519 signature must be 64 bytes'' ''invalid_signature'' else
      bindR (publicKey W (dp_seller payload)) (\<lambda>key.
      bindR (canonicalDeliveryPayload W payload) (\<lambda>canonical.
      if \<not> cr_verify C key signature (utf8 canonical) then fail ''Delivery signature is invalid'' ''invalid_signature''
      else Inr \<lparr>dv_valid = True, dv_payload = Some payload, dv_reason = None, dv_code = None\<rparr>))))))))"

definition verifyDeliveryAttestation ::
  "crypto \<Rightarrow> web3 \<Rightarrow> int \<Rightarrow> json \<Rightarrow> VerifyDeliveryOptions \<Rightarrow> DeliveryVerification" where
  "verifyDeliveryAttestation C W clock envelope options =
     (case parseDeliveryEnvelope W envelope of
        Inl e \<Rightarrow> dv_error e ''invalid_payload'' None
      | Inr parsed \<Rightarrow>
          (case delivery_try C W clock parsed options of
             Inr v \<Rightarrow> v
           | Inl e \<Rightarrow> dv_error e ''invalid_payload'' (Some (da_payload parsed))))"

definition defaultTrustedSellerMapping :: "web3 \<Rightarrow> address list \<Rightarrow> address \<Rightarrow> TrustedSellerMapping result" where
  "defaultTrustedSellerMapping W sellers programId =
     bindR (address W programId) (\<lambda>program. bindR (mapR (address W) sellers) (\<lambda>normalized.
     Inr \<lparr>tm_cluster = DELIVERY_CLUSTER, tm_programId = program, tm_sellers = normalized,
          tm_recipientTokenAccount = None\<rparr>))"

section \<open>Lemmas\<close>

lemma text_string_jstr [simp]: "text_string (jstr s) = s"
  by (induction s) (simp_all add: text_string_def jstr_def)

lemma jstr_bytes: "\<not> list_ex (\<lambda>c. c \<ge> 256) (jstr s)"
proof -
  have "(of_char c :: nat) < 256" for c by (metis of_char_mod_256 mod_less_divisor zero_less_numeral)
  then show ?thesis by (auto simp: jstr_def list_ex_iff not_le)
qed

lemma address_text_jstr [simp]: "address_text W (jstr s) = address W s"
  by (simp add: address_text_def jstr_bytes)

lemma address_text_canonical: "web3_ok W \<Longrightarrow> address_text W t = Inr a \<Longrightarrow> address W a = Inr a"
  by (auto simp: address_text_def intro: address_canonical split: if_splits)

text \<open>A parsed payload is canonical: printing it and parsing again changes nothing.\<close>

definition payload_canonical :: "web3 \<Rightarrow> DeliveryAttestationPayload \<Rightarrow> bool" where
  "payload_canonical W p \<longleftrightarrow> address W (dp_programId p) = Inr (dp_programId p) \<and>
     address W (dp_receiptAddress p) = Inr (dp_receiptAddress p) \<and> address W (dp_seller p) = Inr (dp_seller p) \<and>
     length (dp_contentHash p) = 64 \<and> lower_hex_text (dp_contentHash p) \<and> isCanonicalUtcIso (dp_servedAt p)"

lemma parse_members_canonical:
  assumes W: "web3_ok W" and eq: "parse_members W value = Inr p"
  shows "payload_canonical W p"
proof -
  from eq obtain pr rc sl where
    a: "address_text W pr = Inr (dp_programId p)" "address_text W rc = Inr (dp_receiptAddress p)"
      "address_text W sl = Inr (dp_seller p)"
    and h: "length (dp_contentHash p) = 64 \<and> lower_hex_text (dp_contentHash p)" "isCanonicalUtcIso (dp_servedAt p)"
    unfolding parse_members_def Let_def bindR_eq_Inr
    by (elim exE conjE) (auto simp: result_simps split: option.splits if_splits list.splits)
  with address_text_canonical [OF W] show ?thesis by (simp add: payload_canonical_def)
qed

lemma parse_payload_canonical:
  assumes "web3_ok W" and "parseDeliveryPayload W j = Inr p"
  shows "payload_canonical W p"
  using assms parse_members_canonical by (cases "(W, j)" rule: parseDeliveryPayload.cases) auto

lemma parse_delivery_json:
  assumes "payload_canonical W p"
  shows "parseDeliveryPayload W (Some (delivery_json p)) = Inr p"
proof -
  have "unknownKeys (case delivery_json p of JObj m \<Rightarrow> m) PAYLOAD_KEYS = []"
    by (simp add: unknownKeys_def delivery_json_def PAYLOAD_KEYS_def jstr_inject)
  with assms show ?thesis
    by (simp add: payload_canonical_def delivery_json_def parse_members_def jstr_inject)
qed

lemma canonical_delivery:
  assumes "payload_canonical W p"
  shows "canonicalDeliveryPayload W p = Inr (print_json (delivery_json p))"
  using parse_delivery_json [OF assms] by (simp add: canonicalDeliveryPayload_def)

lemma parseDeliveryEnvelope_canonical:
  assumes "web3_ok W" and "parseDeliveryEnvelope W j = Inr a"
  shows "payload_canonical W (da_payload a)"
  using assms parse_payload_canonical by (cases j) (auto simp: result_simps)

lemma trustedSellerAllows_None:
  assumes "trustedSellerAllows W p m = Inr None"
  shows "tm_cluster m = DELIVERY_CLUSTER" "address W (tm_programId m) = Inr (dp_programId p)"
    "\<exists>s \<in> set (tm_sellers m). address W s = Inr (dp_seller p)"
proof -
  from assms show "tm_cluster m = DELIVERY_CLUSTER" "address W (tm_programId m) = Inr (dp_programId p)"
    by (auto simp: trustedSellerAllows_def result_simps split: if_splits)
  from assms obtain allowed where "mapR (address W) (tm_sellers m) = Inr allowed" "dp_seller p \<in> set allowed"
    by (auto simp: trustedSellerAllows_def result_simps split: if_splits)
  then show "\<exists>s \<in> set (tm_sellers m). address W s = Inr (dp_seller p)"
    by (metis in_set_conv_nth mapR_eq_Inr)
qed

text \<open>What a valid outcome of the checked part says, in the order of the checks.\<close>

lemma delivery_try_valid:
  assumes "delivery_try C W clock a opts = Inr v" and "dv_valid v"
    and canonical: "canonicalDeliveryPayload W (da_payload a) = Inr text"
  obtains trusted key signature where "vo_trustedSellers opts = Some trusted"
    "trustedSellerAllows W (da_payload a) trusted = Inr None"
    "(case vo_receipt opts of Some (addr, _) \<Rightarrow> bindR (address W addr) (\<lambda>x. Inr (x \<noteq> dp_receiptAddress (da_payload a)))
      | None \<Rightarrow> Inr False) = Inr False"
    "\<not> date_parse (dp_servedAt (da_payload a)) - (case vo_now opts of Some n \<Rightarrow> n | None \<Rightarrow> clock)
       > (case vo_maxFutureSkewMs opts of Some n \<Rightarrow> n | None \<Rightarrow> 5 * 60000)"
    "canonicalBase64ToBytes (da_signature a) = Inr signature" "length signature = 64"
    "publicKey W (dp_seller (da_payload a)) = Inr key" "cr_verify C key signature (utf8 text)"
    "dv_payload v = Some (da_payload a)"
proof -
  obtain trusted where trusted: "vo_trustedSellers opts = Some trusted"
    using assms(1,2) by (cases "vo_trustedSellers opts") (auto simp: delivery_try_def dv_error_def)
  have allow: "trustedSellerAllows W (da_payload a) trusted = Inr None"
  proof (cases "trustedSellerAllows W (da_payload a) trusted")
    case (Inr t)
    then show ?thesis using assms(1,2) trusted by (cases t) (auto simp: delivery_try_def Let_def dv_error_def)
  qed (use assms(1) trusted in \<open>simp add: delivery_try_def Let_def\<close>)
  show thesis
    using assms(1,2) trusted allow canonical that [OF trusted allow]
    unfolding delivery_try_def Let_def
    by (auto simp: dv_error_def result_simps split: if_splits)
qed

text \<open>Canonical base64 and back.\<close>

lemma btoa_shape: "\<forall>b \<in> set bs. b < 256 \<Longrightarrow> \<exists>n \<le> 2. btoa bs = map b64_char (sextets bs) @ replicate n 61"
proof (induction bs rule: btoa.induct)
  case 1
  show ?case by (rule exI [of _ 0]) simp
next
  case (2 a)
  show ?case by (rule exI [of _ 2]) (simp add: numeral_2_eq_2)
next
  case (3 a b)
  show ?case by (rule exI [of _ 1]) simp
qed auto

lemma length_btoa: "length (btoa bs) mod 4 = 0"
  by (induction bs rule: btoa.induct) auto

lemma canonical_base64_btoa:
  assumes "bs \<noteq> []" and less: "\<forall>b \<in> set bs. b < 256"
  shows "canonical_base64 (btoa bs)"
proof -
  from btoa_shape [OF less] obtain n where n: "n \<le> 2" "btoa bs = map b64_char (sextets bs) @ replicate n 61" by blast
  have body: "\<forall>c \<in> set (map b64_char (sextets bs)). c \<noteq> 61 \<and> b64_val c \<noteq> None"
    using sextets_less [OF less] by auto
  then have split: "takeWhile (\<lambda>c. c \<noteq> 61) (btoa bs) = map b64_char (sextets bs)"
    "dropWhile (\<lambda>c. c \<noteq> 61) (btoa bs) = replicate n 61"
    using n(2) by (auto simp: takeWhile_append dropWhile_append)
  have "sextets bs \<noteq> []" using assms(1) by (cases bs rule: sextets.cases) auto
  then show ?thesis
    using body n(1) unfolding canonical_base64_def Let_def split by (auto simp: list_all_iff)
qed

lemma base64_roundtrip: "b \<noteq> [] \<Longrightarrow> canonicalBase64ToBytes (bytesToCanonicalBase64 b) = Inr b"
proof -
  assume b: "b \<noteq> []"
  have less: "\<forall>x \<in> set (map unat b). x < 256"
    using unsigned_less [where ?'a = nat and ?'b = 8] by auto
  from b canonical_base64_btoa [OF _ less] atob_btoa [OF less] length_btoa [of "map unat b"] show ?thesis
    by (simp add: canonicalBase64ToBytes_def bytesToCanonicalBase64_def o_def)
qed

text \<open>The envelope a signed attestation is posted as.\<close>

definition envelope_json :: "SignedDeliveryAttestation \<Rightarrow> json" where
  "envelope_json a = JObj [(jstr ''payload'', delivery_json (da_payload a)), (jstr ''signature'', JStr (da_signature a))]"

text \<open>Ed25519: what the private key signs is 64 bytes and verifies under the public key.\<close>

definition signer_ok :: "crypto \<Rightarrow> signer \<Rightarrow> bytes \<Rightarrow> bytes \<Rightarrow> bool" where
  "signer_ok C S pkcs8 key \<longleftrightarrow>
     (\<forall>m. length (sg_sign S pkcs8 m) = 64 \<and> cr_verify C key (sg_sign S pkcs8 m) m)"

lemma parse_envelope_json:
  assumes "payload_canonical W (da_payload a)"
  shows "parseDeliveryEnvelope W (envelope_json a) = Inr a"
  using parse_delivery_json [OF assms]
  by (simp add: envelope_json_def unknownKeys_def ENVELOPE_KEYS_def jstr_inject fetch_def)

lemma sign_delivery:
  assumes W: "web3_ok W" and eq: "signDeliveryAttestation S W payload secret = Inr a"
    and seed: "ed25519Seed secret = Inr seed"
  shows "payload_canonical W (da_payload a)"
    and "da_signature a = bytesToCanonicalBase64
           (sg_sign S (pkcs8FromSeed seed) (utf8 (print_json (delivery_json (da_payload a)))))"
proof -
  from eq obtain parsed where p: "parseDeliveryPayload W (Some payload) = Inr parsed" "da_payload a = parsed"
    by (cases "parseDeliveryPayload W (Some payload)") (auto simp: signDeliveryAttestation_def result_simps)
  then show c: "payload_canonical W (da_payload a)" using parse_payload_canonical [OF W] by simp
  show "da_signature a = bytesToCanonicalBase64
           (sg_sign S (pkcs8FromSeed seed) (utf8 (print_json (delivery_json (da_payload a)))))"
    using eq seed p canonical_delivery [OF c] by (auto simp: signDeliveryAttestation_def)
qed

lemma mapR_member: "mapR f xs = Inr ys \<Longrightarrow> x \<in> set xs \<Longrightarrow> \<exists>y \<in> set ys. f x = Inr y"
  by (induction xs arbitrary: ys) (auto simp: result_simps)

lemma mapR_canonical:
  assumes "web3_ok W" and "mapR (address W) xs = Inr ys"
  shows "mapR (address W) ys = Inr ys"
  using assms(2) by (induction xs arbitrary: ys) (auto simp: result_simps intro: address_canonical [OF assms(1)])

lemma default_mapping_allows:
  assumes W: "web3_ok W" and c: "payload_canonical W p"
    and m: "defaultTrustedSellerMapping W sellers (dp_programId p) = Inr m" and s: "dp_seller p \<in> set sellers"
  shows "trustedSellerAllows W p m = Inr None" and "tm_recipientTokenAccount m = None"
proof -
  from m obtain normalized where n: "mapR (address W) sellers = Inr normalized"
    and m': "m = \<lparr>tm_cluster = DELIVERY_CLUSTER, tm_programId = dp_programId p, tm_sellers = normalized, tm_recipientTokenAccount = None\<rparr>"
    using c by (auto simp: defaultTrustedSellerMapping_def payload_canonical_def result_simps)
  have "dp_seller p \<in> set normalized" using mapR_member [OF n s] c by (auto simp: payload_canonical_def)
  then show "trustedSellerAllows W p m = Inr None"
    using c mapR_canonical [OF W n] by (simp add: m' trustedSellerAllows_def payload_canonical_def)
  show "tm_recipientTokenAccount m = None" by (simp add: m')
qed

lemma delivery_json_inject: "delivery_json p = delivery_json q \<Longrightarrow> p = q"
  by (cases p; cases q) (simp add: delivery_json_def jstr_inject)

lemma matches_iso_small: "matches_iso t \<Longrightarrow> \<forall>c \<in> set t. c < 128"
proof -
  have *: "list_all2 (\<lambda>c s. case s of None \<Rightarrow> cp_digit c | Some x \<Rightarrow> c = x) u sh \<Longrightarrow>
      \<forall>x. Some x \<in> set sh \<longrightarrow> x < 128 \<Longrightarrow> \<forall>c \<in> set u. c < 128" for u sh
    by (induction rule: list_all2_induct) (auto simp: cp_digit_def split: option.splits)
  assume "matches_iso t"
  then show ?thesis unfolding matches_iso_def by (rule *) (auto simp: iso_shape_def)
qed

lemma canonical_plain:
  assumes "payload_canonical W p"
  shows "plain (delivery_json p)"
proof -
  have hash: "text_ok (dp_contentHash p)"
    using assms by (auto simp: payload_canonical_def lower_hex_text_def text_ok_def list_all_iff)
  have "\<forall>c \<in> set (dp_servedAt p). c < 128"
    using assms by (intro matches_iso_small) (simp add: payload_canonical_def isCanonicalUtcIso_def)
  then have "text_ok (dp_servedAt p)" by (fastforce simp: text_ok_def)
  with hash show ?thesis by (simp add: delivery_json_def DELIVERY_STATEMENT_def DELIVERY_CLUSTER_def)
qed

section \<open>Properties\<close>

text \<open>
  C31. An accepted delivery attestation comes from a trusted seller about this receipt: the envelope
  parses, a trusted mapping was given and lists the seller under the attested program, the expected
  program and the receipt's address agree when given, the time is not further in the future than
  the allowed skew, and the 64-byte signature verifies under the seller's key over the canonical
  bytes of the returned payload. Without a trusted mapping nothing is accepted.
\<close>

theorem accepted_delivery_sound:
  assumes W: "web3_ok W" and valid: "dv_valid (verifyDeliveryAttestation C W clock envelope opts)"
  shows "\<exists>a trusted key signature. parseDeliveryEnvelope W envelope = Inr a \<and>
     dv_payload (verifyDeliveryAttestation C W clock envelope opts) = Some (da_payload a) \<and>
     vo_trustedSellers opts = Some trusted \<and> address W (tm_programId trusted) = Inr (dp_programId (da_payload a)) \<and>
     (\<exists>s \<in> set (tm_sellers trusted). address W s = Inr (dp_seller (da_payload a))) \<and>
     (\<forall>addr rcp. vo_receipt opts = Some (addr, rcp) \<longrightarrow> address W addr = Inr (dp_receiptAddress (da_payload a))) \<and>
     date_parse (dp_servedAt (da_payload a)) \<le> (case vo_now opts of Some n \<Rightarrow> n | None \<Rightarrow> clock)
        + (case vo_maxFutureSkewMs opts of Some n \<Rightarrow> n | None \<Rightarrow> 300000) \<and>
     publicKey W (dp_seller (da_payload a)) = Inr key \<and>
     canonicalBase64ToBytes (da_signature a) = Inr signature \<and> length signature = 64 \<and>
     cr_verify C key signature (utf8 (print_json (delivery_json (da_payload a))))"
proof -
  from valid obtain a where a: "parseDeliveryEnvelope W envelope = Inr a"
    by (cases "parseDeliveryEnvelope W envelope") (auto simp: verifyDeliveryAttestation_def dv_error_def)
  from valid a obtain v where v: "delivery_try C W clock a opts = Inr v" "dv_valid v"
    "verifyDeliveryAttestation C W clock envelope opts = v"
    by (cases "delivery_try C W clock a opts") (auto simp: verifyDeliveryAttestation_def dv_error_def)
  obtain trusted key signature where t: "vo_trustedSellers opts = Some trusted"
    "trustedSellerAllows W (da_payload a) trusted = Inr None"
    and receipt: "(case vo_receipt opts of Some (addr, _) \<Rightarrow> bindR (address W addr) (\<lambda>x. Inr (x \<noteq> dp_receiptAddress (da_payload a)))
      | None \<Rightarrow> Inr False) = Inr False"
    and time: "\<not> date_parse (dp_servedAt (da_payload a)) - (case vo_now opts of Some n \<Rightarrow> n | None \<Rightarrow> clock)
       > (case vo_maxFutureSkewMs opts of Some n \<Rightarrow> n | None \<Rightarrow> 5 * 60000)"
    and sig: "canonicalBase64ToBytes (da_signature a) = Inr signature" "length signature = 64"
    "publicKey W (dp_seller (da_payload a)) = Inr key"
    "cr_verify C key signature (utf8 (print_json (delivery_json (da_payload a))))" "dv_payload v = Some (da_payload a)"
    by (rule delivery_try_valid [OF v(1,2) canonical_delivery [OF parseDeliveryEnvelope_canonical [OF W a]]])
  have "address W addr = Inr (dp_receiptAddress (da_payload a))" if "vo_receipt opts = Some (addr, rcp)" for addr rcp
    using receipt that by (auto simp: result_simps)
  moreover have "date_parse (dp_servedAt (da_payload a)) \<le> (case vo_now opts of Some n \<Rightarrow> n | None \<Rightarrow> clock)
        + (case vo_maxFutureSkewMs opts of Some n \<Rightarrow> n | None \<Rightarrow> 300000)"
    using time by (cases "vo_maxFutureSkewMs opts") auto
  ultimately show ?thesis using a v(3) t(1) trustedSellerAllows_None [OF t(2)] sig by blast
qed

text \<open>
  A seller's attestation is accepted: what \<open>signDeliveryAttestation\<close> returns, posted as JSON, passes
  \<open>verifyDeliveryAttestation\<close> for any reader who trusts this seller through
  \<open>defaultTrustedSellerMapping\<close>, asks about the same receipt and program, and whose clock puts the
  served time within the skew; the verdict carries the signed payload unchanged.
\<close>

theorem signed_delivery_accepted:
  assumes W: "web3_ok W" and signed: "signDeliveryAttestation S W payload secret = Inr a"
    and keys: "ed25519Seed secret = Inr seed" "publicKey W (dp_seller (da_payload a)) = Inr key"
      "signer_ok C S (pkcs8FromSeed seed) key"
    and trust: "defaultTrustedSellerMapping W sellers (dp_programId (da_payload a)) = Inr m"
      "dp_seller (da_payload a) \<in> set sellers"
    and time: "date_parse (dp_servedAt (da_payload a)) \<le> clock + 300000"
  shows "verifyDeliveryAttestation C W clock (envelope_json a)
       \<lparr>vo_trustedSellers = Some m, vo_receipt = Some (dp_receiptAddress (da_payload a), recipient),
        vo_programId = Some (dp_programId (da_payload a)), vo_now = None, vo_maxFutureSkewMs = None\<rparr>
     = \<lparr>dv_valid = True, dv_payload = Some (da_payload a), dv_reason = None, dv_code = None\<rparr>"
proof -
  note canonical = sign_delivery(1) [OF W signed keys(1)]
  let ?msg = "utf8 (print_json (delivery_json (da_payload a)))"
  let ?sig = "sg_sign S (pkcs8FromSeed seed) ?msg"
  have sig: "length ?sig = 64" "cr_verify C key ?sig ?msg" using keys(3) by (simp_all add: signer_ok_def)
  then have "?sig \<noteq> []" by (metis length_0_conv zero_neq_numeral)
  then have bytes: "canonicalBase64ToBytes (da_signature a) = Inr ?sig"
    using sign_delivery(2) [OF W signed keys(1)] base64_roundtrip by simp
  have addresses: "address W (dp_programId (da_payload a)) = Inr (dp_programId (da_payload a))"
    "address W (dp_receiptAddress (da_payload a)) = Inr (dp_receiptAddress (da_payload a))"
    using canonical by (simp_all add: payload_canonical_def)
  show ?thesis
    using default_mapping_allows [OF W canonical trust] bytes sig addresses keys(2) time
    by (cases "dp_programId (da_payload a)")
       (simp_all add: verifyDeliveryAttestation_def parse_envelope_json [OF canonical] delivery_try_def
        truthy_def canonical_delivery [OF canonical])
qed

text \<open>
  The signed bytes say everything: two payloads with the same canonical bytes are the same
  payload, so a signature over one receipt, seller, content hash or time cannot be replayed for another.
\<close>

theorem delivery_bytes_determine_payload:
  assumes "web3_ok W" and "parseDeliveryPayload W i = Inr p" and "parseDeliveryPayload W j = Inr q"
    and "canonicalDeliveryPayload W p = Inr s" and "canonicalDeliveryPayload W q = Inr t" and "utf8 s = utf8 t"
  shows "p = q"
proof -
  note c = parse_payload_canonical [OF assms(1,2)] parse_payload_canonical [OF assms(1,3)]
  have "utf8 (print_json (delivery_json p)) = utf8 (print_json (delivery_json q))"
    using assms(4-6) canonical_delivery [OF c(1)] canonical_delivery [OF c(2)] by simp
  from utf8_print_inject [OF canonical_plain [OF c(1)] canonical_plain [OF c(2)] this]
  show ?thesis by (rule delivery_json_inject)
qed

section \<open>Examples\<close>

definition sample_delivery :: DeliveryAttestationPayload where
  "sample_delivery = \<lparr>dp_programId = to_base58 sample_web3 (replicate 32 9),
     dp_receiptAddress = to_base58 sample_web3 (replicate 32 8), dp_seller = to_base58 sample_web3 (replicate 32 7),
     dp_contentHash = replicate 64 97, dp_servedAt = jstr ''2026-09-15T04:16:00.000Z''\<rparr>"

definition sample_signer :: signer where
  "sample_signer = \<lparr>sg_sign = (\<lambda>key msg. replicate 64 0)\<rparr>"

definition sample_attestation :: SignedDeliveryAttestation where
  "sample_attestation = \<lparr>da_payload = sample_delivery, da_signature = bytesToCanonicalBase64 (replicate 64 0)\<rparr>"

definition sample_trust :: TrustedSellerMapping where
  "sample_trust = \<lparr>tm_cluster = DELIVERY_CLUSTER, tm_programId = dp_programId sample_delivery,
     tm_sellers = [dp_seller sample_delivery], tm_recipientTokenAccount = None\<rparr>"

definition sample_options :: VerifyDeliveryOptions where
  "sample_options = \<lparr>vo_trustedSellers = Some sample_trust, vo_receipt = Some (dp_receiptAddress sample_delivery, ''x''),
     vo_programId = Some (dp_programId sample_delivery), vo_now = None, vo_maxFutureSkewMs = None\<rparr>"

lemma sample_iso: "isCanonicalUtcIso (jstr ''2026-09-15T04:16:00.000Z'')"
  "date_parse (jstr ''2026-09-15T04:16:00.000Z'') = 1789445760000"
  by code_simp+

lemma sample_delivery_canonical: "payload_canonical sample_web3 sample_delivery"
  by (simp add: payload_canonical_def sample_delivery_def sample_iso lower_hex_text_def list_all_iff)

lemma sample_signing:
  "signDeliveryAttestation sample_signer sample_web3 (delivery_json sample_delivery) (replicate 32 7) = Inr sample_attestation"
  by (simp add: signDeliveryAttestation_def parse_delivery_json [OF sample_delivery_canonical]
      canonical_delivery [OF sample_delivery_canonical] ed25519Seed_def sample_attestation_def sample_signer_def)

lemma sample_trust_default:
  "defaultTrustedSellerMapping sample_web3 [dp_seller sample_delivery] (dp_programId sample_delivery) = Inr sample_trust"
  using sample_delivery_canonical
  by (simp add: defaultTrustedSellerMapping_def payload_canonical_def sample_trust_def)

lemma sample_signer_ok: "signer_ok sample_crypto sample_signer pkcs8 key"
  by (simp add: signer_ok_def sample_crypto_def sample_signer_def)

lemma sample_accepted:
  "verifyDeliveryAttestation sample_crypto sample_web3 1789445760000 (envelope_json sample_attestation) sample_options
   = \<lparr>dv_valid = True, dv_payload = Some sample_delivery, dv_reason = None, dv_code = None\<rparr>"
proof -
  have key: "publicKey sample_web3 (dp_seller sample_delivery) = Inr (replicate 32 7)"
    by (simp add: sample_delivery_def)
  have addresses: "address sample_web3 (dp_programId sample_delivery) = Inr (dp_programId sample_delivery)"
    "address sample_web3 (dp_receiptAddress sample_delivery) = Inr (dp_receiptAddress sample_delivery)"
    using sample_delivery_canonical by (simp_all add: payload_canonical_def)
  have allowed: "trustedSellerAllows sample_web3 sample_delivery sample_trust = Inr None"
    using default_mapping_allows(1) [OF sample_web3_ok sample_delivery_canonical sample_trust_default] by simp
  have payload: "da_payload sample_attestation = sample_delivery" by (simp add: sample_attestation_def)
  show ?thesis
    using key addresses allowed sample_iso(2) base64_roundtrip [of "replicate 64 0"] canonical_delivery [OF sample_delivery_canonical]
      parse_envelope_json [of sample_web3 sample_attestation] sample_delivery_canonical
    by (cases "dp_programId sample_delivery")
       (simp_all add: verifyDeliveryAttestation_def payload delivery_try_def sample_options_def truthy_def
        sample_trust_def sample_attestation_def sample_crypto_def, simp_all add: sample_delivery_def)
qed

theorem accepted_delivery_sound_witness:
  "\<exists>key signature. publicKey sample_web3 (dp_seller sample_delivery) = Inr key \<and> length signature = 64 \<and>
     cr_verify sample_crypto key signature (utf8 (print_json (delivery_json sample_delivery)))"
proof -
  have "dv_valid (verifyDeliveryAttestation sample_crypto sample_web3 1789445760000 (envelope_json sample_attestation) sample_options)"
    by (simp add: sample_accepted)
  from accepted_delivery_sound [OF sample_web3_ok this] show ?thesis by (auto simp: sample_accepted)
qed

theorem signed_delivery_accepted_witness:
  "dv_valid (verifyDeliveryAttestation sample_crypto sample_web3 1789445760000 (envelope_json sample_attestation)
     \<lparr>vo_trustedSellers = Some sample_trust, vo_receipt = Some (dp_receiptAddress (da_payload sample_attestation), ''x''),
      vo_programId = Some (dp_programId (da_payload sample_attestation)), vo_now = None, vo_maxFutureSkewMs = None\<rparr>)"
proof -
  have a: "da_payload sample_attestation = sample_delivery" by (simp add: sample_attestation_def)
  have trust: "defaultTrustedSellerMapping sample_web3 [dp_seller sample_delivery] (dp_programId (da_payload sample_attestation)) = Inr sample_trust"
    using sample_trust_default a by simp
  show ?thesis
    by (subst signed_delivery_accepted [OF sample_web3_ok sample_signing _ _ sample_signer_ok trust,
          where seed = "replicate 32 7" and key = "replicate 32 7"])
       (use a sample_iso(2) in \<open>simp_all add: ed25519Seed_def, simp_all add: sample_delivery_def\<close>)
qed

theorem delivery_bytes_determine_payload_witness:
  "\<exists>s t. canonicalDeliveryPayload sample_web3 sample_delivery = Inr s \<and>
     canonicalDeliveryPayload sample_web3 (sample_delivery\<lparr>dp_contentHash := replicate 64 98\<rparr>) = Inr t \<and> utf8 s \<noteq> utf8 t"
proof -
  let ?other = "sample_delivery\<lparr>dp_contentHash := replicate 64 98\<rparr>"
  have other: "payload_canonical sample_web3 ?other"
    using sample_delivery_canonical by (simp add: payload_canonical_def lower_hex_text_def list_all_iff)
  have "dp_contentHash sample_delivery \<noteq> dp_contentHash ?other" by (simp add: sample_delivery_def)
  then have "sample_delivery \<noteq> ?other" by metis
  with delivery_bytes_determine_payload [OF sample_web3_ok parse_delivery_json [OF sample_delivery_canonical]
      parse_delivery_json [OF other] canonical_delivery [OF sample_delivery_canonical] canonical_delivery [OF other]]
    canonical_delivery [OF sample_delivery_canonical] canonical_delivery [OF other]
  show ?thesis by blast
qed

end
