(* ===== verification/CardLayout.thy ===== *)
theory CardLayout
  imports Text Receipt
begin

text \<open>
  \<open>sdk/src/cards/layout.ts\<close>: the Borsh writer and reader of the card program's layouts. A writer call
  is the bytes it pushes, or its error; \<open>toBytes\<close> joins the pushed parts. The reader is a record with
  the data and the offset, and every read returns the value and the moved reader. The locale
  \<open>field_codec\<close> is the contract between the two sides: what a write produced, the read takes back.
\<close>

section \<open>BorshWriter\<close>

definition w_u8 :: "jsnum \<Rightarrow> string \<Rightarrow> bytes result" where
  "w_u8 value name = (if \<not> num_in 0 0xff value then Inl (name @ '' must fit in u8'') else Inr (le_bytes 1 (num_val value)))"

definition w_u16 :: "jsnum \<Rightarrow> string \<Rightarrow> bytes result" where
  "w_u16 value name = (if \<not> num_in 0 0xffff value then Inl (name @ '' must fit in u16'') else Inr (le_bytes 2 (num_val value)))"

definition w_u32 :: "jsnum \<Rightarrow> string \<Rightarrow> bytes result" where
  "w_u32 value name =
     (if \<not> num_in 0 0xffffffff value then Inl (name @ '' must fit in u32'') else Inr (le_bytes 4 (num_val value)))"

definition w_u64 :: "int \<Rightarrow> string \<Rightarrow> bytes result" where
  "w_u64 value name =
     (if value < 0 \<or> value > 18446744073709551615 then Inl (name @ '' must fit in u64'') else Inr (le_bytes 8 value))"

definition w_i64 :: "int \<Rightarrow> string \<Rightarrow> bytes result" where
  "w_i64 value name =
     (if value < - 9223372036854775808 \<or> value > 9223372036854775807 then Inl (name @ '' must fit in i64'')
      else Inr (le_bytes 8 value))"

definition w_bool :: "bool \<Rightarrow> bytes result" where
  "w_bool value = Inr [if value then 1 else 0]"

definition w_fixed :: "bytes \<Rightarrow> nat \<Rightarrow> string \<Rightarrow> bytes result" where
  "w_fixed value len name =
     (if length value \<noteq> len then Inl (name @ '' must be exactly '' @ int_dec (int len) @ '' bytes'') else Inr value)"

definition w_pubkey :: "web3 \<Rightarrow> address \<Rightarrow> bytes result" where
  "w_pubkey W value = publicKey W value"

definition toBytes :: "bytes result list \<Rightarrow> bytes result" where
  "toBytes parts = concatR parts"

section \<open>BorshReader\<close>

record BorshReader =
  rd_data :: bytes
  rd_offset :: nat

type_synonym 'a read = "BorshReader \<Rightarrow> ('a \<times> BorshReader) result"

definition bind_read :: "'a read \<Rightarrow> ('a \<Rightarrow> 'b read) \<Rightarrow> 'b read" where
  "bind_read m f r = bindR (m r) (\<lambda>(x, r'). f x r')"

definition ret_read :: "'a \<Rightarrow> 'a read" where
  "ret_read x r = Inr (x, r)"

definition fail_unless :: "bool \<Rightarrow> string \<Rightarrow> unit read" where
  "fail_unless c msg r = bindR (require c msg) (\<lambda>_. Inr ((), r))"

definition need :: "nat \<Rightarrow> string \<Rightarrow> BorshReader \<Rightarrow> unit result" where
  "need len name r =
     (if rd_offset r + len > length (rd_data r) then Inl (''Data ended while reading '' @ name) else Inr ())"

definition take_read :: "nat \<Rightarrow> (bytes \<Rightarrow> 'a) \<Rightarrow> string \<Rightarrow> 'a read" where
  "take_read n f name r = bindR (need n name r)
     (\<lambda>_. Inr (f (slice (rd_data r) (rd_offset r) n), r\<lparr>rd_offset := rd_offset r + n\<rparr>))"

definition r_u8 :: "string \<Rightarrow> jsnum read" where
  "r_u8 = take_read 1 (\<lambda>b. NInt (le_val b))"

definition r_u16 :: "string \<Rightarrow> jsnum read" where
  "r_u16 = take_read 2 (\<lambda>b. NInt (le_val b))"

definition r_u32 :: "string \<Rightarrow> jsnum read" where
  "r_u32 = take_read 4 (\<lambda>b. NInt (le_val b))"

definition r_u64 :: "string \<Rightarrow> int read" where
  "r_u64 = take_read 8 le_val"

definition r_i64 :: "string \<Rightarrow> int read" where
  "r_i64 = take_read 8 le_sval"

definition r_bool :: "string \<Rightarrow> bool read" where
  "r_bool name = bind_read (r_u8 name) (\<lambda>value.
     bind_read (fail_unless (num_val value \<le> 1) (name @ '' is not a valid bool'')) (\<lambda>_. ret_read (value = NInt 1)))"

definition r_fixed :: "nat \<Rightarrow> string \<Rightarrow> bytes read" where
  "r_fixed len = take_read len (\<lambda>b. b)"

definition r_pubkey :: "web3 \<Rightarrow> string \<Rightarrow> address read" where
  "r_pubkey W name = bind_read (r_fixed 32 name) (\<lambda>b. ret_read (to_base58 W b))"

definition remaining :: "BorshReader \<Rightarrow> int" where
  "remaining r = int (length (rd_data r)) - int (rd_offset r)"

text \<open>\<open>Array.from({ length: n }, (_, i) => read(`name[i]`))\<close>\<close>

fun r_each :: "(nat \<Rightarrow> 'a read) \<Rightarrow> nat list \<Rightarrow> 'a list read" where
  "r_each f [] = ret_read []"
| "r_each f (i # is) = bind_read (f i) (\<lambda>x. bind_read (r_each f is) (\<lambda>xs. ret_read (x # xs)))"

definition indexed :: "string \<Rightarrow> nat \<Rightarrow> string" where
  "indexed name i = name @ ''['' @ int_dec (int i) @ '']''"

definition r_array :: "(string \<Rightarrow> 'a read) \<Rightarrow> nat \<Rightarrow> string \<Rightarrow> 'a list read" where
  "r_array f n name = r_each (\<lambda>i. f (indexed name i)) [0..<n]"

section \<open>What a read takes\<close>

text \<open>A reader standing between what it has read and what follows.\<close>

definition at :: "bytes \<Rightarrow> bytes \<Rightarrow> BorshReader" where
  "at pre rest = \<lparr>rd_data = pre @ rest, rd_offset = length pre\<rparr>"

definition reads :: "'a read \<Rightarrow> bytes \<Rightarrow> 'a \<Rightarrow> bool" where
  "reads m bs v \<longleftrightarrow> (\<forall>pre rest. m (at pre (bs @ rest)) = Inr (v, at (pre @ bs) rest))"

named_theorems reads_intros \<open>what each read takes\<close>

lemma readsD: "reads m bs v \<Longrightarrow> m (at pre (bs @ rest)) = Inr (v, at (pre @ bs) rest)"
  by (simp add: reads_def)

lemma reads_bind [reads_intros]:
  assumes "reads m bs x" and "reads (f x) cs y"
  shows "reads (bind_read m f) (bs @ cs) y"
  unfolding reads_def
proof (intro allI)
  fix pre rest
  show "bind_read m f (at pre ((bs @ cs) @ rest)) = Inr (y, at (pre @ bs @ cs) rest)"
    using readsD [OF assms(1), of pre "cs @ rest"] readsD [OF assms(2), of "pre @ bs" rest]
    by (simp add: bind_read_def)
qed

lemma reads_ret [reads_intros]: "reads (ret_read v) [] v"
  by (simp add: reads_def ret_read_def)

lemma reads_bind_last:
  assumes "reads m bs x" and "f x = ret_read y"
  shows "reads (bind_read m f) bs y"
  using reads_bind [OF assms(1), of f "[]" y] assms(2) by (simp add: reads_ret)

lemma reads_unless [reads_intros]: "c \<Longrightarrow> reads (f ()) bs v \<Longrightarrow> reads (bind_read (fail_unless c msg) f) bs v"
  by (simp add: reads_def bind_read_def fail_unless_def)

lemma reads_take: "length bs = n \<Longrightarrow> reads (take_read n f name) bs (f bs)"
  by (simp add: reads_def take_read_def need_def at_def)

lemma toBytes_eq_Inr_Cons:
  "toBytes (m # ps) = Inr bs \<longleftrightarrow> (\<exists>p rest. m = Inr p \<and> toBytes ps = Inr rest \<and> bs = p @ rest)"
  by (simp add: toBytes_def concatR_eq_Inr_Cons)

lemma toBytes_Nil [simp]: "toBytes [] = Inr []"
  by (simp add: toBytes_def)

lemma toBytes_append:
  "toBytes (ps @ qs) = Inr bs \<longleftrightarrow> (\<exists>b c. toBytes ps = Inr b \<and> toBytes qs = Inr c \<and> bs = b @ c)"
  by (induction ps arbitrary: bs) (fastforce simp: toBytes_eq_Inr_Cons)+

lemma toBytes_length:
  assumes "toBytes (map p is) = Inr bs" and "\<And>i b. i \<in> set is \<Longrightarrow> p i = Inr b \<Longrightarrow> length b = w"
  shows "length bs = w * length is"
  using assms
proof (induction "is" arbitrary: bs)
  case (Cons i "is")
  from Cons.prems(1) obtain b c where b: "p i = Inr b" "toBytes (map p is) = Inr c" "bs = b @ c"
    by (auto simp: toBytes_eq_Inr_Cons)
  have "length c = w * length is" by (rule Cons.IH) (use b(2) Cons.prems(2) in auto)
  with b Cons.prems(2) [OF _ b(1)] show ?case by simp
qed simp

lemma reads_each:
  assumes "toBytes (map p is) = Inr bs" and "\<And>i b. p i = Inr b \<Longrightarrow> reads (f i) b (v i)"
  shows "reads (r_each f is) bs (map v is)"
  using assms(1)
proof (induction "is" arbitrary: bs)
  case Nil
  then show ?case by (simp add: reads_ret)
next
  case (Cons i "is")
  then obtain b c where b: "p i = Inr b" "toBytes (map p is) = Inr c" "bs = b @ c"
    by (auto simp: toBytes_eq_Inr_Cons)
  show ?case
    unfolding r_each.simps list.map b(3)
    by (rule reads_bind [OF assms(2) [OF b(1)] reads_bind_last [OF Cons.IH [OF b(2)] refl]])
qed

text \<open>A conversion of what was read that may fail.\<close>

definition lift_read :: "'a result \<Rightarrow> 'a read" where
  "lift_read x r = bindR x (\<lambda>v. Inr (v, r))"

lemma reads_lift: "x = Inr v \<Longrightarrow> reads (lift_read x) [] v"
  by (simp add: reads_def lift_read_def)

lemma reads_convert:
  assumes "reads m bs x" and "f x = lift_read (Inr y)"
  shows "reads (bind_read m f) bs y"
  using reads_bind [OF assms(1), of f "[]" y] assms(2) by (simp add: reads_lift)

section \<open>The contract of a field\<close>

locale field_codec =
  fixes put :: "'a \<Rightarrow> string \<Rightarrow> bytes result"
    and get :: "string \<Rightarrow> 'a read"
    and width :: nat
  assumes write_length: "put v name = Inr bs \<Longrightarrow> length bs = width"
    and read_write: "put v name = Inr bs \<Longrightarrow> reads (get name') bs v"
begin

text \<open>An array of fields, written one after the other, is read back whole.\<close>

lemma read_array:
  assumes "toBytes (map (\<lambda>i. put (v i) (nm i)) [0..<n]) = Inr bs"
  shows "reads (r_array get n name) bs (map v [0..<n])"
  unfolding r_array_def using assms read_write by (rule reads_each)

lemma array_length: "toBytes (map (\<lambda>i. put (v i) (nm i)) [0..<n]) = Inr bs \<Longrightarrow> length bs = width * n"
  using toBytes_length [of "\<lambda>i. put (v i) (nm i)" "[0..<n]" bs width] write_length by simp

end

interpretation f_u8: field_codec w_u8 r_u8 1
proof unfold_locales
  fix v name bs name'
  assume "w_u8 v name = Inr bs"
  then obtain n where n: "v = NInt n" "u8_ok n" "bs = le_bytes 1 n"
    by (cases v) (auto simp: w_u8_def u8_ok_def split: if_splits)
  then show "length bs = 1" by simp
  show "reads (r_u8 name') bs v"
    using n reads_take [of bs 1 "\<lambda>b. NInt (le_val b)" name'] u8.dec_enc [OF n(2)] by (simp add: r_u8_def)
qed

interpretation f_u16: field_codec w_u16 r_u16 2
proof unfold_locales
  fix v name bs name'
  assume "w_u16 v name = Inr bs"
  then obtain n where n: "v = NInt n" "u16_ok n" "bs = le_bytes 2 n"
    by (cases v) (auto simp: w_u16_def u16_ok_def split: if_splits)
  then show "length bs = 2" by simp
  show "reads (r_u16 name') bs v"
    using n reads_take [of bs 2 "\<lambda>b. NInt (le_val b)" name'] u16.dec_enc [OF n(2)] by (simp add: r_u16_def)
qed

interpretation f_u32: field_codec w_u32 r_u32 4
proof unfold_locales
  fix v name bs name'
  assume "w_u32 v name = Inr bs"
  then obtain n where n: "v = NInt n" "u32_ok n" "bs = le_bytes 4 n"
    by (cases v) (auto simp: w_u32_def u32_ok_def split: if_splits)
  then show "length bs = 4" by simp
  show "reads (r_u32 name') bs v"
    using n reads_take [of bs 4 "\<lambda>b. NInt (le_val b)" name'] u32.dec_enc [OF n(2)] by (simp add: r_u32_def)
qed

interpretation f_u64: field_codec w_u64 r_u64 8
proof unfold_locales
  fix v name bs name'
  assume "w_u64 v name = Inr bs"
  then have n: "u64_ok v" "bs = le_bytes 8 v" by (auto simp: w_u64_def u64_ok_def split: if_splits)
  then show "length bs = 8" by simp
  show "reads (r_u64 name') bs v"
    using n reads_take [of bs 8 le_val name'] u64.dec_enc [OF n(1)] by (simp add: r_u64_def)
qed

interpretation f_i64: field_codec w_i64 r_i64 8
proof unfold_locales
  fix v name bs name'
  assume "w_i64 v name = Inr bs"
  then have n: "i64_ok v" "bs = le_bytes 8 v" by (auto simp: w_i64_def i64_ok_def split: if_splits)
  then show "length bs = 8" by simp
  show "reads (r_i64 name') bs v"
    using n reads_take [of bs 8 le_sval name'] i64.dec_enc [OF n(1)] by (simp add: r_i64_def)
qed

interpretation f_bool: field_codec "\<lambda>v name. w_bool v" r_bool 1
proof unfold_locales
  fix v name bs name'
  assume "w_bool v = Inr bs"
  then have bs: "bs = [if v then 1 else 0]" by (simp add: w_bool_def)
  then show "length bs = 1" by simp
  have "reads (r_u8 name') bs (NInt (if v then 1 else 0))"
    using reads_take [of bs 1 "\<lambda>b. NInt (le_val b)" name'] bs by (simp add: r_u8_def split: if_splits)
  then show "reads (r_bool name') bs v"
    unfolding r_bool_def by (rule reads_bind [where cs = "[]", simplified]) (simp add: reads_def bind_read_def fail_unless_def ret_read_def)
qed

interpretation f_fixed: field_codec "\<lambda>v name. w_fixed v n name" "r_fixed n" n for n
  by unfold_locales
    (auto simp: w_fixed_def r_fixed_def split: if_splits intro: reads_take [of _ _ "\<lambda>b. b"])

text \<open>Public keys: the text read back is the canonical one.\<close>

lemma pubkey_length: "web3_ok W \<Longrightarrow> w_pubkey W v = Inr bs \<Longrightarrow> length bs = 32"
  by (simp add: w_pubkey_def publicKey_length)

lemma reads_pubkey:
  assumes "web3_ok W" and "w_pubkey W v = Inr bs" and "address W v = Inr v"
  shows "reads (r_pubkey W name) bs v"
proof -
  have "reads (r_fixed 32 name) bs bs"
    using pubkey_length [OF assms(1,2)] reads_take [of bs 32 "\<lambda>b. b"] by (simp add: r_fixed_def)
  then show ?thesis
    unfolding r_pubkey_def
    by (rule reads_bind_last) (use assms(2,3) in \<open>auto simp: w_pubkey_def address_eq_Inr\<close>)
qed

lemmas field_length =
  f_u8.write_length f_u16.write_length f_u32.write_length f_u64.write_length f_i64.write_length
  f_bool.write_length f_fixed.write_length pubkey_length

lemmas field_reads =
  f_u8.read_write f_u16.read_write f_u32.read_write f_u64.read_write f_i64.read_write
  f_bool.read_write f_fixed.read_write reads_pubkey

end
