(* ===== verification/CardAccounts.thy ===== *)
theory CardAccounts
  imports CardLayout
begin

text \<open>
  \<open>sdk/src/cards/accounts.ts\<close> and the account part of \<open>constants.ts\<close>: encoders and decoders of the six
  card program accounts. A TypeScript number is a \<open>jsnum\<close>, a bigint an \<open>int\<close>, a currency the Latin-1
  text \<open>String.fromCharCode\<close> gives. The properties are round trips: what an encoder wrote, followed by any
  bytes, is decoded to the same account, with the program's appended tails read when they are there.
\<close>

section \<open>Constants\<close>

definition MAX_MERCHANTS :: nat where "MAX_MERCHANTS = 8"
definition MAX_MCCS :: nat where "MAX_MCCS = 16"
definition MAX_MEMBERS :: nat where "MAX_MEMBERS = 6"

definition CARD_cardBinding :: bytes where "CARD_cardBinding = [86, 71, 81, 106, 155, 166, 1, 72]"
definition CARD_cardPolicy :: bytes where "CARD_cardPolicy = [196, 159, 33, 83, 231, 156, 65, 71]"
definition CARD_cardPeriod :: bytes where "CARD_cardPeriod = [112, 201, 91, 227, 87, 121, 62, 2]"
definition CARD_reservation :: bytes where "CARD_reservation = [188, 235, 0, 111, 208, 253, 247, 212]"
definition CARD_checkoutIntent :: bytes where "CARD_checkoutIntent = [39, 73, 4, 146, 212, 151, 108, 241]"
definition CARD_cardCommitment :: bytes where "CARD_cardCommitment = [43, 146, 163, 253, 221, 147, 4, 9]"

lemmas CARD_disc_defs = CARD_cardBinding_def CARD_cardPolicy_def CARD_cardPeriod_def CARD_reservation_def
  CARD_checkoutIntent_def CARD_cardCommitment_def

section \<open>Enumerations and helpers\<close>

datatype CardBindingStatus = BindingActive | BindingClosing | BindingClosed
datatype CardFreezeReason = FreezeNone | FreezeOwner | FreezeAuthorizerSafety | FreezeRecovery | FreezeExpiry
datatype CardRecoveryState = RecoveryNormal | RecoveryFrozen | RestoredPendingReconcile
datatype IntentState = IntentOpen | IntentConsumed | IntentExpired | IntentCancelled
datatype DisputeState = DisputeNone | DisputeOpen | DisputeWon | DisputeLost | DisputeWithdrawn

definition BINDING_STATUS :: "CardBindingStatus list" where
  "BINDING_STATUS = [BindingActive, BindingClosing, BindingClosed]"
definition FREEZE_REASONS :: "CardFreezeReason list" where
  "FREEZE_REASONS = [FreezeNone, FreezeOwner, FreezeAuthorizerSafety, FreezeRecovery, FreezeExpiry]"
definition RECOVERY_STATES :: "CardRecoveryState list" where
  "RECOVERY_STATES = [RecoveryNormal, RecoveryFrozen, RestoredPendingReconcile]"
definition INTENT_STATES :: "IntentState list" where
  "INTENT_STATES = [IntentOpen, IntentConsumed, IntentExpired, IntentCancelled]"
definition DISPUTE_STATES :: "DisputeState list" where
  "DISPUTE_STATES = [DisputeNone, DisputeOpen, DisputeWon, DisputeLost, DisputeWithdrawn]"

text \<open>On-chain reservation states: bytes 1 to 5, anything else has no name.\<close>

datatype ReservationStateName = Reserved | PartiallyCaptured | Captured | Reversed | Expired

definition RESERVATION_STATES :: "(int \<times> ReservationStateName) list" where
  "RESERVATION_STATES = [(1, Reserved), (2, PartiallyCaptured), (3, Captured), (4, Reversed), (5, Expired)]"

fun reservationStateName :: "jsnum \<Rightarrow> ReservationStateName option" where
  "reservationStateName (NInt state) = map_of RESERVATION_STATES state"
| "reservationStateName (NonInt t) = None"

definition enumValue :: "'a list \<Rightarrow> jsnum \<Rightarrow> string \<Rightarrow> 'a result" where
  "enumValue values raw name =
     (if 0 \<le> num_val raw \<and> num_val raw < int (length values) then Inr (values ! nat (num_val raw))
      else Inl (''Unknown '' @ name @ '' value '' @ int_dec (num_val raw)))"

text \<open>
  \<open>values.indexOf(value)\<close>. Each list above holds every value of its type, so the error is never
  raised (\<open>enum_lists_complete\<close> below); its text stops at the name.
\<close>

fun indexOf :: "'a list \<Rightarrow> 'a \<Rightarrow> int" where
  "indexOf [] v = -1"
| "indexOf (x # xs) v = (if x = v then 0 else let i = indexOf xs v in if i < 0 then -1 else i + 1)"

definition enumIndex :: "'a list \<Rightarrow> 'a \<Rightarrow> string \<Rightarrow> jsnum result" where
  "enumIndex values value name =
     (let index = indexOf values value in
      if index < 0 then Inl (''Unknown '' @ name) else Inr (NInt index))"

definition currencyFromBytes :: "bytes \<Rightarrow> string" where
  "currencyFromBytes b = (if list_all (\<lambda>byte. byte = 0) b then '''' else map (\<lambda>byte. char_of (unat byte)) b)"

definition currencyBytes :: "string \<Rightarrow> bytes result" where
  "currencyBytes currency =
     (if currency = '''' then Inr (replicate 3 0)
      else if \<not> (length currency = 3 \<and> list_all (\<lambda>c. 65 \<le> (of_char c :: nat) \<and> (of_char c :: nat) \<le> 90) currency)
      then Inl ''currency must be a 3-letter uppercase code''
      else Inr (str_bytes currency))"

definition header :: "bytes \<Rightarrow> bytes \<Rightarrow> string \<Rightarrow> nat \<Rightarrow> BorshReader result" where
  "header data discriminator name minLength =
     bindR (assertDiscriminator data discriminator name) (\<lambda>_.
     if length data < minLength then Inl (name @ '' account data is truncated'')
     else Inr \<lparr>rd_data = data, rd_offset = 8\<rparr>)"

definition with_header :: "bytes \<Rightarrow> bytes \<Rightarrow> string \<Rightarrow> nat \<Rightarrow> 'a read \<Rightarrow> 'a result" where
  "with_header data discriminator name minLength body =
     bindR (header data discriminator name minLength) (\<lambda>r. bindR (body r) (\<lambda>(v, r'). Inr v))"

definition r_enum :: "'a list \<Rightarrow> string \<Rightarrow> string \<Rightarrow> 'a read" where
  "r_enum values field name = bind_read (r_u8 field) (\<lambda>raw. lift_read (enumValue values raw name))"

definition r_currency :: "string read" where
  "r_currency = bind_read (r_fixed 3 ''currency'') (\<lambda>b. ret_read (currencyFromBytes b))"

definition w_enum :: "'a list \<Rightarrow> 'a \<Rightarrow> string \<Rightarrow> bytes result" where
  "w_enum values value name = bindR (enumIndex values value name) (\<lambda>i. w_u8 i ''u8'')"

definition w_currency :: "string \<Rightarrow> bytes result" where
  "w_currency currency = bindR (currencyBytes currency) (\<lambda>b. w_fixed b 3 ''currency'')"

text \<open>\<open>xs[i] ?? d\<close>\<close>

definition nth_or :: "'a \<Rightarrow> 'a list \<Rightarrow> nat \<Rightarrow> 'a" where
  "nth_or d xs i = (if i < length xs then xs ! i else d)"

section \<open>CardBinding\<close>

record CardBinding =
  cb_version :: jsnum
  cb_owner :: address
  cb_cardId :: bytes
  cb_issuer :: jsnum
  cb_issuerCardRefHash :: bytes
  cb_policy :: address
  cb_period :: address
  cb_commitment :: address
  cb_status :: CardBindingStatus
  cb_createdAt :: int
  cb_bump :: jsnum

definition CARD_BINDING_LENGTH :: nat where
  "CARD_BINDING_LENGTH = 8 + 1 + 32 + 32 + 1 + 32 + 32 * 3 + 1 + 8 + 1"

definition binding_body :: "web3 \<Rightarrow> CardBinding read" where
  "binding_body W =
     bind_read (r_u8 ''version'') (\<lambda>version.
     bind_read (r_pubkey W ''owner'') (\<lambda>owner.
     bind_read (r_fixed 32 ''cardId'') (\<lambda>cardId.
     bind_read (r_u8 ''issuer'') (\<lambda>issuer.
     bind_read (r_fixed 32 ''issuerCardRefHash'') (\<lambda>issuerCardRefHash.
     bind_read (r_pubkey W ''policy'') (\<lambda>policy.
     bind_read (r_pubkey W ''period'') (\<lambda>period.
     bind_read (r_pubkey W ''commitment'') (\<lambda>commitment.
     bind_read (r_enum BINDING_STATUS ''status'' ''binding status'') (\<lambda>status.
     bind_read (r_i64 ''createdAt'') (\<lambda>createdAt.
     bind_read (r_u8 ''bump'') (\<lambda>bump.
     ret_read \<lparr>cb_version = version, cb_owner = owner, cb_cardId = cardId, cb_issuer = issuer,
       cb_issuerCardRefHash = issuerCardRefHash, cb_policy = policy, cb_period = period,
       cb_commitment = commitment, cb_status = status, cb_createdAt = createdAt, cb_bump = bump\<rparr>)))))))))))"

definition decodeCardBinding :: "web3 \<Rightarrow> bytes \<Rightarrow> CardBinding result" where
  "decodeCardBinding W data = with_header data CARD_cardBinding ''CardBinding'' CARD_BINDING_LENGTH (binding_body W)"

definition encodeCardBinding :: "web3 \<Rightarrow> CardBinding \<Rightarrow> bytes result" where
  "encodeCardBinding W value = toBytes
     [Inr CARD_cardBinding,
      w_u8 (cb_version value) ''version'',
      w_pubkey W (cb_owner value),
      w_fixed (cb_cardId value) 32 ''cardId'',
      w_u8 (cb_issuer value) ''issuer'',
      w_fixed (cb_issuerCardRefHash value) 32 ''issuerCardRefHash'',
      w_pubkey W (cb_policy value),
      w_pubkey W (cb_period value),
      w_pubkey W (cb_commitment value),
      w_enum BINDING_STATUS (cb_status value) ''binding status'',
      w_i64 (cb_createdAt value) ''createdAt'',
      w_u8 (cb_bump value) ''bump'']"

section \<open>CardPolicy\<close>

record CardPolicyMember =
  mb_pubkey :: address
  mb_flags :: jsnum

record CardPolicyTail =
  tl_reconDigest :: bytes
  tl_repaymentDigests :: "bytes list"

record CardPolicy =
  cp_binding :: address
  cp_owner :: address
  cp_authorizer :: address
  cp_policyVersion :: jsnum
  cp_budgetCents :: int
  cp_maxPurchaseCents :: int
  cp_maxPurchasesPerPeriod :: jsnum
  cp_periodSeconds :: jsnum
  cp_currency :: string
  cp_merchantIdHashes :: "bytes list"
  cp_mccs :: "jsnum list"
  cp_expiresAt :: int
  cp_recurringAllowed :: bool
  cp_feeBps :: jsnum
  cp_frozen :: bool
  cp_freezeReason :: CardFreezeReason
  cp_recoveryState :: CardRecoveryState
  cp_statementOutstandingCents :: int
  cp_exceptionsOpen :: jsnum
  cp_members :: "CardPolicyMember list"
  cp_ledgerHead :: bytes
  cp_ledgerSeq :: int
  cp_commitSeq :: int
  cp_bump :: jsnum
  cp_tail :: "CardPolicyTail option"

definition REPAYMENT_RING :: nat where "REPAYMENT_RING = 8"
definition CAPTURE_RING :: nat where "CAPTURE_RING = 8"

definition CARD_POLICY_LENGTH :: nat where
  "CARD_POLICY_LENGTH =
     8 + 32 * 3 + 4 + 8 + 8 + 2 + 4 + 3 + 1 + 32 * MAX_MERCHANTS + 1 + 2 * MAX_MCCS + 8 + 1 + 2 + 1 + 1 + 1 + 8 + 2 + 1
     + 32 * MAX_MEMBERS + MAX_MEMBERS + 32 + 8 + 8 + 1"

definition policyTail :: "CardPolicyTail option read" where
  "policyTail r =
     (if remaining r < 32 + 32 * int REPAYMENT_RING + 1 then Inr (None, r) else
      bind_read (r_fixed 32 ''reconDigest'') (\<lambda>reconDigest.
      bind_read (r_array (r_fixed 32) REPAYMENT_RING ''repaymentDigests'') (\<lambda>ring.
      bind_read (r_u8 ''repaymentCount'') (\<lambda>n.
      let count = min (nat (num_val n)) REPAYMENT_RING in
      ret_read (Some \<lparr>tl_reconDigest = reconDigest, tl_repaymentDigests = take count ring\<rparr>)))) r)"

definition policy_body :: "web3 \<Rightarrow> CardPolicy read" where
  "policy_body W =
     bind_read (r_pubkey W ''binding'') (\<lambda>binding.
     bind_read (r_pubkey W ''owner'') (\<lambda>owner.
     bind_read (r_pubkey W ''authorizer'') (\<lambda>authorizer.
     bind_read (r_u32 ''policyVersion'') (\<lambda>policyVersion.
     bind_read (r_u64 ''budgetCents'') (\<lambda>budgetCents.
     bind_read (r_u64 ''maxPurchaseCents'') (\<lambda>maxPurchaseCents.
     bind_read (r_u16 ''maxPurchasesPerPeriod'') (\<lambda>maxPurchasesPerPeriod.
     bind_read (r_u32 ''periodSeconds'') (\<lambda>periodSeconds.
     bind_read r_currency (\<lambda>currency.
     bind_read (r_u8 ''merchantCount'') (\<lambda>merchantCount.
     bind_read (fail_unless (num_val merchantCount \<le> int MAX_MERCHANTS) ''CardPolicy merchant_count exceeds capacity'') (\<lambda>_.
     bind_read (r_array (r_fixed 32) MAX_MERCHANTS ''merchantIdHashes'') (\<lambda>allMerchants.
     bind_read (r_u8 ''mccCount'') (\<lambda>mccCount.
     bind_read (fail_unless (num_val mccCount \<le> int MAX_MCCS) ''CardPolicy mcc_count exceeds capacity'') (\<lambda>_.
     bind_read (r_array r_u16 MAX_MCCS ''mccs'') (\<lambda>allMccs.
     bind_read (r_i64 ''expiresAt'') (\<lambda>expiresAt.
     bind_read (r_bool ''recurringAllowed'') (\<lambda>recurringAllowed.
     bind_read (r_u16 ''feeBps'') (\<lambda>feeBps.
     bind_read (r_bool ''frozen'') (\<lambda>frozen.
     bind_read (r_enum FREEZE_REASONS ''freezeReason'' ''freeze reason'') (\<lambda>freezeReason.
     bind_read (r_enum RECOVERY_STATES ''recoveryState'' ''recovery state'') (\<lambda>recoveryState.
     bind_read (r_u64 ''statementOutstandingCents'') (\<lambda>statementOutstandingCents.
     bind_read (r_u16 ''exceptionsOpen'') (\<lambda>exceptionsOpen.
     bind_read (r_u8 ''memberCount'') (\<lambda>memberCount.
     bind_read (fail_unless (num_val memberCount \<le> int MAX_MEMBERS) ''CardPolicy member_count exceeds capacity'') (\<lambda>_.
     bind_read (r_array (r_pubkey W) MAX_MEMBERS ''members'') (\<lambda>allMembers.
     bind_read (r_array r_u8 MAX_MEMBERS ''memberFlags'') (\<lambda>allFlags.
     bind_read (r_fixed 32 ''ledgerHead'') (\<lambda>ledgerHead.
     bind_read (r_u64 ''ledgerSeq'') (\<lambda>ledgerSeq.
     bind_read (r_u64 ''commitSeq'') (\<lambda>commitSeq.
     bind_read (r_u8 ''bump'') (\<lambda>bump.
     bind_read policyTail (\<lambda>tail.
     ret_read \<lparr>cp_binding = binding, cp_owner = owner, cp_authorizer = authorizer, cp_policyVersion = policyVersion,
       cp_budgetCents = budgetCents, cp_maxPurchaseCents = maxPurchaseCents,
       cp_maxPurchasesPerPeriod = maxPurchasesPerPeriod, cp_periodSeconds = periodSeconds, cp_currency = currency,
       cp_merchantIdHashes = take (nat (num_val merchantCount)) allMerchants,
       cp_mccs = take (nat (num_val mccCount)) allMccs, cp_expiresAt = expiresAt,
       cp_recurringAllowed = recurringAllowed, cp_feeBps = feeBps, cp_frozen = frozen,
       cp_freezeReason = freezeReason, cp_recoveryState = recoveryState,
       cp_statementOutstandingCents = statementOutstandingCents, cp_exceptionsOpen = exceptionsOpen,
       cp_members = map (\<lambda>(pubkey, flags). \<lparr>mb_pubkey = pubkey, mb_flags = flags\<rparr>)
         (take (nat (num_val memberCount)) (zip allMembers allFlags)),
       cp_ledgerHead = ledgerHead, cp_ledgerSeq = ledgerSeq, cp_commitSeq = commitSeq, cp_bump = bump,
       cp_tail = tail\<rparr>))))))))))))))))))))))))))))))))"

definition decodeCardPolicy :: "web3 \<Rightarrow> bytes \<Rightarrow> CardPolicy result" where
  "decodeCardPolicy W data = with_header data CARD_cardPolicy ''CardPolicy'' CARD_POLICY_LENGTH (policy_body W)"

definition publicKeyBytes :: "web3 \<Rightarrow> address \<Rightarrow> bytes result" where
  "publicKeyBytes W value = toBytes [w_pubkey W value]"

definition member_key :: "web3 \<Rightarrow> CardPolicyMember list \<Rightarrow> nat \<Rightarrow> bytes result" where
  "member_key W members i =
     bindR (if i < length members then publicKeyBytes W (mb_pubkey (members ! i)) else Inr (replicate 32 0))
       (\<lambda>b. w_fixed b 32 (indexed ''members'' i))"

definition policy_parts :: "web3 \<Rightarrow> CardPolicy \<Rightarrow> bytes result list" where
  "policy_parts W value =
     [Inr CARD_cardPolicy,
      w_pubkey W (cp_binding value),
      w_pubkey W (cp_owner value),
      w_pubkey W (cp_authorizer value),
      w_u32 (cp_policyVersion value) ''policyVersion'',
      w_u64 (cp_budgetCents value) ''budgetCents'',
      w_u64 (cp_maxPurchaseCents value) ''maxPurchaseCents'',
      w_u16 (cp_maxPurchasesPerPeriod value) ''maxPurchasesPerPeriod'',
      w_u32 (cp_periodSeconds value) ''periodSeconds'',
      w_currency (cp_currency value),
      w_u8 (NInt (int (length (cp_merchantIdHashes value)))) ''u8'']
     @ map (\<lambda>i. w_fixed (nth_or (replicate 32 0) (cp_merchantIdHashes value) i) 32 (indexed ''merchantIdHashes'' i)) [0..<MAX_MERCHANTS]
     @ [w_u8 (NInt (int (length (cp_mccs value)))) ''u8'']
     @ map (\<lambda>i. w_u16 (nth_or (NInt 0) (cp_mccs value) i) (indexed ''mccs'' i)) [0..<MAX_MCCS]
     @ [w_i64 (cp_expiresAt value) ''expiresAt'',
        w_bool (cp_recurringAllowed value),
        w_u16 (cp_feeBps value) ''feeBps'',
        w_bool (cp_frozen value),
        w_enum FREEZE_REASONS (cp_freezeReason value) ''freeze reason'',
        w_enum RECOVERY_STATES (cp_recoveryState value) ''recovery state'',
        w_u64 (cp_statementOutstandingCents value) ''statementOutstandingCents'',
        w_u16 (cp_exceptionsOpen value) ''exceptionsOpen'',
        w_u8 (NInt (int (length (cp_members value)))) ''u8'']
     @ map (member_key W (cp_members value)) [0..<MAX_MEMBERS]
     @ map (\<lambda>i. w_u8 (nth_or (NInt 0) (map mb_flags (cp_members value)) i) (indexed ''memberFlags'' i)) [0..<MAX_MEMBERS]
     @ [w_fixed (cp_ledgerHead value) 32 ''ledgerHead'',
        w_u64 (cp_ledgerSeq value) ''ledgerSeq'',
        w_u64 (cp_commitSeq value) ''commitSeq'',
        w_u8 (cp_bump value) ''bump'']"

definition encodeCardPolicy :: "web3 \<Rightarrow> CardPolicy \<Rightarrow> bytes result" where
  "encodeCardPolicy W value =
     bindR (require (length (cp_merchantIdHashes value) \<le> MAX_MERCHANTS) ''At most 8 merchants'') (\<lambda>_.
     bindR (require (length (cp_mccs value) \<le> MAX_MCCS) ''At most 16 MCCs'') (\<lambda>_.
     bindR (require (length (cp_members value) \<le> MAX_MEMBERS) ''At most 6 members'') (\<lambda>_.
     toBytes (policy_parts W value))))"

section \<open>CardPeriod\<close>

record CardPeriod =
  pd_policy :: address
  pd_periodIndex :: jsnum
  pd_periodStart :: int
  pd_periodEnd :: int
  pd_capturedCents :: int
  pd_reservedCents :: int
  pd_refundedCents :: int
  pd_purchasesCount :: jsnum
  pd_exceptionCents :: int
  pd_bump :: jsnum

definition CARD_PERIOD_LENGTH :: nat where
  "CARD_PERIOD_LENGTH = 8 + 32 + 4 + 8 + 8 + 8 + 8 + 8 + 2 + 8 + 1"

definition period_body :: "web3 \<Rightarrow> CardPeriod read" where
  "period_body W =
     bind_read (r_pubkey W ''policy'') (\<lambda>policy.
     bind_read (r_u32 ''periodIndex'') (\<lambda>periodIndex.
     bind_read (r_i64 ''periodStart'') (\<lambda>periodStart.
     bind_read (r_i64 ''periodEnd'') (\<lambda>periodEnd.
     bind_read (r_u64 ''capturedCents'') (\<lambda>capturedCents.
     bind_read (r_u64 ''reservedCents'') (\<lambda>reservedCents.
     bind_read (r_u64 ''refundedCents'') (\<lambda>refundedCents.
     bind_read (r_u16 ''purchasesCount'') (\<lambda>purchasesCount.
     bind_read (r_u64 ''exceptionCents'') (\<lambda>exceptionCents.
     bind_read (r_u8 ''bump'') (\<lambda>bump.
     ret_read \<lparr>pd_policy = policy, pd_periodIndex = periodIndex, pd_periodStart = periodStart,
       pd_periodEnd = periodEnd, pd_capturedCents = capturedCents, pd_reservedCents = reservedCents,
       pd_refundedCents = refundedCents, pd_purchasesCount = purchasesCount,
       pd_exceptionCents = exceptionCents, pd_bump = bump\<rparr>))))))))))"

definition decodeCardPeriod :: "web3 \<Rightarrow> bytes \<Rightarrow> CardPeriod result" where
  "decodeCardPeriod W data = with_header data CARD_cardPeriod ''CardPeriod'' CARD_PERIOD_LENGTH (period_body W)"

definition encodeCardPeriod :: "web3 \<Rightarrow> CardPeriod \<Rightarrow> bytes result" where
  "encodeCardPeriod W value = toBytes
     [Inr CARD_cardPeriod,
      w_pubkey W (pd_policy value),
      w_u32 (pd_periodIndex value) ''periodIndex'',
      w_i64 (pd_periodStart value) ''periodStart'',
      w_i64 (pd_periodEnd value) ''periodEnd'',
      w_u64 (pd_capturedCents value) ''capturedCents'',
      w_u64 (pd_reservedCents value) ''reservedCents'',
      w_u64 (pd_refundedCents value) ''refundedCents'',
      w_u16 (pd_purchasesCount value) ''purchasesCount'',
      w_u64 (pd_exceptionCents value) ''exceptionCents'',
      w_u8 (pd_bump value) ''bump'']"

section \<open>Reservation\<close>

record Reservation =
  rs_policy :: address
  rs_authIdHash :: bytes
  rs_intent :: address
  rs_periodIndex :: jsnum
  rs_amountReservedCents :: int
  rs_capturedCents :: int
  rs_reversedCents :: int
  rs_refundedCents :: int
  rs_state :: jsnum
  rs_disputeState :: DisputeState
  rs_flags :: jsnum
  rs_createdAt :: int
  rs_holdExpiresAt :: int
  rs_bump :: jsnum
  rs_captureIdHashes :: "bytes list option"
  rs_maxAmountCents :: "int option"

definition RESERVATION_LENGTH :: nat where
  "RESERVATION_LENGTH = 8 + 32 + 32 + 32 + 4 + 8 * 4 + 1 + 1 + 1 + 8 + 8 + 1"

definition captureTail :: "(bytes list option \<times> int option) read" where
  "captureTail r =
     (if remaining r < 1 + 32 * int CAPTURE_RING then Inr ((None, None), r) else
      bind_read (r_u8 ''captureCount'') (\<lambda>n.
      let count = min (nat (num_val n)) CAPTURE_RING in
      bind_read (r_array (r_fixed 32) CAPTURE_RING ''captureIds'') (\<lambda>ring.
      (\<lambda>r. if remaining r < 8 then Inr ((Some (take count ring), None), r) else
         bind_read (r_u64 ''maxAmountCents'') (\<lambda>m. ret_read (Some (take count ring), Some m)) r))) r)"

definition reservation_body :: "web3 \<Rightarrow> Reservation read" where
  "reservation_body W =
     bind_read (r_pubkey W ''policy'') (\<lambda>policy.
     bind_read (r_fixed 32 ''authIdHash'') (\<lambda>authIdHash.
     bind_read (r_pubkey W ''intent'') (\<lambda>intent.
     bind_read (r_u32 ''periodIndex'') (\<lambda>periodIndex.
     bind_read (r_u64 ''amountReservedCents'') (\<lambda>amountReservedCents.
     bind_read (r_u64 ''capturedCents'') (\<lambda>capturedCents.
     bind_read (r_u64 ''reversedCents'') (\<lambda>reversedCents.
     bind_read (r_u64 ''refundedCents'') (\<lambda>refundedCents.
     bind_read (r_u8 ''state'') (\<lambda>state.
     bind_read (r_enum DISPUTE_STATES ''disputeState'' ''dispute state'') (\<lambda>disputeState.
     bind_read (r_u8 ''flags'') (\<lambda>flags.
     bind_read (r_i64 ''createdAt'') (\<lambda>createdAt.
     bind_read (r_i64 ''holdExpiresAt'') (\<lambda>holdExpiresAt.
     bind_read (r_u8 ''bump'') (\<lambda>bump.
     bind_read captureTail (\<lambda>(captureIdHashes, maxAmountCents).
     ret_read \<lparr>rs_policy = policy, rs_authIdHash = authIdHash, rs_intent = intent, rs_periodIndex = periodIndex,
       rs_amountReservedCents = amountReservedCents, rs_capturedCents = capturedCents,
       rs_reversedCents = reversedCents, rs_refundedCents = refundedCents, rs_state = state,
       rs_disputeState = disputeState, rs_flags = flags, rs_createdAt = createdAt,
       rs_holdExpiresAt = holdExpiresAt, rs_bump = bump, rs_captureIdHashes = captureIdHashes,
       rs_maxAmountCents = maxAmountCents\<rparr>)))))))))))))))"

definition decodeReservation :: "web3 \<Rightarrow> bytes \<Rightarrow> Reservation result" where
  "decodeReservation W data = with_header data CARD_reservation ''Reservation'' RESERVATION_LENGTH (reservation_body W)"

definition encodeReservation :: "web3 \<Rightarrow> Reservation \<Rightarrow> bytes result" where
  "encodeReservation W value = toBytes
     [Inr CARD_reservation,
      w_pubkey W (rs_policy value),
      w_fixed (rs_authIdHash value) 32 ''authIdHash'',
      w_pubkey W (rs_intent value),
      w_u32 (rs_periodIndex value) ''periodIndex'',
      w_u64 (rs_amountReservedCents value) ''amountReservedCents'',
      w_u64 (rs_capturedCents value) ''capturedCents'',
      w_u64 (rs_reversedCents value) ''reversedCents'',
      w_u64 (rs_refundedCents value) ''refundedCents'',
      w_u8 (rs_state value) ''state'',
      w_enum DISPUTE_STATES (rs_disputeState value) ''dispute state'',
      w_u8 (rs_flags value) ''flags'',
      w_i64 (rs_createdAt value) ''createdAt'',
      w_i64 (rs_holdExpiresAt value) ''holdExpiresAt'',
      w_u8 (rs_bump value) ''bump'']"

section \<open>CheckoutIntent\<close>

record CheckoutIntent =
  ci_policy :: address
  ci_intentId :: bytes
  ci_agent :: address
  ci_merchantIdHash :: bytes
  ci_mcc :: jsnum
  ci_maxAmountCents :: int
  ci_currency :: string
  ci_policyVersion :: jsnum
  ci_expiresAt :: int
  ci_state :: IntentState
  ci_reservation :: address
  ci_bump :: jsnum

definition CHECKOUT_INTENT_LENGTH :: nat where
  "CHECKOUT_INTENT_LENGTH = 8 + 32 + 16 + 32 + 32 + 2 + 8 + 3 + 4 + 8 + 1 + 32 + 1"

definition intent_body :: "web3 \<Rightarrow> CheckoutIntent read" where
  "intent_body W =
     bind_read (r_pubkey W ''policy'') (\<lambda>policy.
     bind_read (r_fixed 16 ''intentId'') (\<lambda>intentId.
     bind_read (r_pubkey W ''agent'') (\<lambda>agent.
     bind_read (r_fixed 32 ''merchantIdHash'') (\<lambda>merchantIdHash.
     bind_read (r_u16 ''mcc'') (\<lambda>mcc.
     bind_read (r_u64 ''maxAmountCents'') (\<lambda>maxAmountCents.
     bind_read r_currency (\<lambda>currency.
     bind_read (r_u32 ''policyVersion'') (\<lambda>policyVersion.
     bind_read (r_i64 ''expiresAt'') (\<lambda>expiresAt.
     bind_read (r_enum INTENT_STATES ''state'' ''intent state'') (\<lambda>state.
     bind_read (r_pubkey W ''reservation'') (\<lambda>reservation.
     bind_read (r_u8 ''bump'') (\<lambda>bump.
     ret_read \<lparr>ci_policy = policy, ci_intentId = intentId, ci_agent = agent, ci_merchantIdHash = merchantIdHash,
       ci_mcc = mcc, ci_maxAmountCents = maxAmountCents, ci_currency = currency,
       ci_policyVersion = policyVersion, ci_expiresAt = expiresAt, ci_state = state,
       ci_reservation = reservation, ci_bump = bump\<rparr>))))))))))))"

definition decodeCheckoutIntent :: "web3 \<Rightarrow> bytes \<Rightarrow> CheckoutIntent result" where
  "decodeCheckoutIntent W data =
     with_header data CARD_checkoutIntent ''CheckoutIntent'' CHECKOUT_INTENT_LENGTH (intent_body W)"

definition encodeCheckoutIntent :: "web3 \<Rightarrow> CheckoutIntent \<Rightarrow> bytes result" where
  "encodeCheckoutIntent W value = toBytes
     [Inr CARD_checkoutIntent,
      w_pubkey W (ci_policy value),
      w_fixed (ci_intentId value) 16 ''intentId'',
      w_pubkey W (ci_agent value),
      w_fixed (ci_merchantIdHash value) 32 ''merchantIdHash'',
      w_u16 (ci_mcc value) ''mcc'',
      w_u64 (ci_maxAmountCents value) ''maxAmountCents'',
      w_currency (ci_currency value),
      w_u32 (ci_policyVersion value) ''policyVersion'',
      w_i64 (ci_expiresAt value) ''expiresAt'',
      w_enum INTENT_STATES (ci_state value) ''intent state'',
      w_pubkey W (ci_reservation value),
      w_u8 (ci_bump value) ''bump'']"

section \<open>CardCommitment\<close>

record CardCommitment =
  cc_binding :: address
  cc_seq :: int
  cc_root :: bytes
  cc_policyVersion :: jsnum
  cc_periodIndex :: jsnum
  cc_writtenSlot :: int
  cc_bump :: jsnum

definition CARD_COMMITMENT_LENGTH :: nat where
  "CARD_COMMITMENT_LENGTH = 8 + 32 + 8 + 32 + 4 + 4 + 8 + 1"

definition commitment_body :: "web3 \<Rightarrow> CardCommitment read" where
  "commitment_body W =
     bind_read (r_pubkey W ''binding'') (\<lambda>binding.
     bind_read (r_u64 ''seq'') (\<lambda>seq.
     bind_read (r_fixed 32 ''root'') (\<lambda>root.
     bind_read (r_u32 ''policyVersion'') (\<lambda>policyVersion.
     bind_read (r_u32 ''periodIndex'') (\<lambda>periodIndex.
     bind_read (r_u64 ''writtenSlot'') (\<lambda>writtenSlot.
     bind_read (r_u8 ''bump'') (\<lambda>bump.
     ret_read \<lparr>cc_binding = binding, cc_seq = seq, cc_root = root, cc_policyVersion = policyVersion,
       cc_periodIndex = periodIndex, cc_writtenSlot = writtenSlot, cc_bump = bump\<rparr>)))))))"

definition decodeCardCommitment :: "web3 \<Rightarrow> bytes \<Rightarrow> CardCommitment result" where
  "decodeCardCommitment W data =
     with_header data CARD_cardCommitment ''CardCommitment'' CARD_COMMITMENT_LENGTH (commitment_body W)"

definition encodeCardCommitment :: "web3 \<Rightarrow> CardCommitment \<Rightarrow> bytes result" where
  "encodeCardCommitment W value = toBytes
     [Inr CARD_cardCommitment,
      w_pubkey W (cc_binding value),
      w_u64 (cc_seq value) ''seq'',
      w_fixed (cc_root value) 32 ''root'',
      w_u32 (cc_policyVersion value) ''policyVersion'',
      w_u32 (cc_periodIndex value) ''periodIndex'',
      w_u64 (cc_writtenSlot value) ''writtenSlot'',
      w_u8 (cc_bump value) ''bump'']"

section \<open>Reading back what was written\<close>

lemma enum_lists_complete:
  "v \<in> set BINDING_STATUS" "f \<in> set FREEZE_REASONS" "r \<in> set RECOVERY_STATES" "i \<in> set INTENT_STATES"
  "d \<in> set DISPUTE_STATES"
proof -
  show "v \<in> set BINDING_STATUS" by (cases v) (simp_all add: BINDING_STATUS_def)
  show "f \<in> set FREEZE_REASONS" by (cases f) (simp_all add: FREEZE_REASONS_def)
  show "r \<in> set RECOVERY_STATES" by (cases r) (simp_all add: RECOVERY_STATES_def)
  show "i \<in> set INTENT_STATES" by (cases i) (simp_all add: INTENT_STATES_def)
  show "d \<in> set DISPUTE_STATES" by (cases d) (simp_all add: DISPUTE_STATES_def)
qed

lemma indexOf_range: "indexOf xs v < int (length xs)" "indexOf xs v \<ge> -1"
  by (induction xs) (auto simp: Let_def)

lemma indexOf_nth: "indexOf xs v \<ge> 0 \<Longrightarrow> xs ! nat (indexOf xs v) = v"
  by (induction xs) (auto simp: Let_def nat_add_distrib split: if_splits)

lemma enumIndex_value: "enumIndex xs v n = Inr i \<Longrightarrow> enumValue xs i n' = Inr v"
  using indexOf_range(1) [of xs v] indexOf_nth [of xs v]
  by (auto simp: enumIndex_def enumValue_def Let_def split: if_splits)

lemma reads_enum [reads_intros]:
  assumes "w_enum xs v n = Inr bs"
  shows "reads (r_enum xs field n') bs v"
proof -
  from assms obtain i where i: "enumIndex xs v n = Inr i" "w_u8 i ''u8'' = Inr bs"
    by (auto simp: w_enum_def result_simps)
  show ?thesis
    unfolding r_enum_def
    by (rule reads_convert [OF f_u8.read_write [OF i(2)]]) (simp add: enumIndex_value [OF i(1)])
qed

lemma enum_length: "w_enum xs v n = Inr bs \<Longrightarrow> length bs = 1"
  by (auto simp: w_enum_def result_simps dest: f_u8.write_length)

lemma chars_str_bytes: "map (\<lambda>b. char_of (unat b)) (str_bytes s) = s"
proof -
  have "unat (word_of_nat (of_char c) :: byte) = of_char c" for c :: char
    by (simp add: unat_of_nat)
  then show ?thesis by (induction s) (simp_all add: str_bytes_def)
qed

lemma currency_roundtrip:
  assumes b: "currencyBytes c = Inr b"
  shows "currencyFromBytes b = c"
proof (cases c)
  case Nil
  with b show ?thesis by (auto simp: currencyBytes_def currencyFromBytes_def list_all_iff)
next
  case (Cons a r)
  with b have up: "65 \<le> (of_char a :: nat)" "(of_char a :: nat) \<le> 90" and bytes: "b = str_bytes c"
    by (auto simp: currencyBytes_def split: if_splits)
  then have "\<not> list_all (\<lambda>byte. byte = 0) b"
    using Cons byte_of_nat_eq [of "of_char a" 0] by (auto simp: str_bytes_def)
  then show ?thesis using chars_str_bytes bytes by (simp add: currencyFromBytes_def)
qed

lemma reads_currency [reads_intros]:
  assumes "w_currency c = Inr bs"
  shows "reads r_currency bs c"
proof -
  from assms have b: "currencyBytes c = Inr bs" "w_fixed bs 3 ''currency'' = Inr bs"
    by (auto simp: w_currency_def result_simps w_fixed_def split: if_splits)
  show ?thesis
    unfolding r_currency_def
    by (rule reads_bind_last [OF f_fixed.read_write [OF b(2)]]) (simp add: currency_roundtrip [OF b(1)])
qed

lemma currency_length: "w_currency c = Inr bs \<Longrightarrow> length bs = 3"
  by (auto simp: w_currency_def result_simps dest: f_fixed.write_length)

text \<open>A read whose value may depend on what follows.\<close>

definition reads_with :: "'a read \<Rightarrow> bytes \<Rightarrow> bytes \<Rightarrow> 'a \<Rightarrow> bool" where
  "reads_with m bs rest v \<longleftrightarrow> (\<forall>pre. \<exists>r. m (at pre (bs @ rest)) = Inr (v, r))"

lemma reads_with_bind:
  assumes "reads m bs x" and "reads_with (f x) cs rest y"
  shows "reads_with (bind_read m f) (bs @ cs) rest y"
  unfolding reads_with_def
proof
  fix pre
  show "\<exists>r. bind_read m f (at pre ((bs @ cs) @ rest)) = Inr (y, r)"
    using readsD [OF assms(1), of pre "cs @ rest"] assms(2) by (auto simp: bind_read_def reads_with_def)
qed

lemma reads_with_last:
  assumes "reads m bs x" and "f x = ret_read y"
  shows "reads_with (bind_read m f) bs rest y"
  using readsD [OF reads_bind_last [where f = f, OF assms]] by (simp add: reads_with_def)

lemma reads_with_unless:
  "c \<Longrightarrow> reads_with (f ()) bs rest v \<Longrightarrow> reads_with (bind_read (fail_unless c msg) f) bs rest v"
  by (simp add: reads_with_def bind_read_def fail_unless_def)

lemma with_header_reads:
  assumes "reads_with body bs rest v" and "length disc = 8" and "minLength \<le> 8 + length bs + length rest"
  shows "with_header (disc @ bs @ rest) disc name minLength body = Inr v"
proof -
  have ok: "assertDiscriminator (disc @ bs @ rest) disc name = Inr ()"
    by (simp add: assertDiscriminator_iff)
  obtain r where "body (at disc (bs @ rest)) = Inr (v, r)" using assms(1) by (auto simp: reads_with_def)
  then show ?thesis using assms(2,3) by (simp add: with_header_def header_def ok at_def)
qed

lemmas card_lengths = field_length enum_length currency_length
lemmas card_reads = field_reads reads_enum reads_currency

text \<open>
  Reading against a list of writes: \<open>takes m ps rest v\<close> says that the bytes of the writes \<open>ps\<close>, when
  all of them succeed and \<open>rest\<close> follows, are read as \<open>v\<close>.
\<close>

definition takes :: "'a read \<Rightarrow> bytes result list \<Rightarrow> bytes \<Rightarrow> 'a \<Rightarrow> bool" where
  "takes m ps rest v \<longleftrightarrow> (\<forall>bs. toBytes ps = Inr bs \<longrightarrow> reads_with m bs rest v)"

lemma takes_bind:
  assumes "\<And>b. p = Inr b \<Longrightarrow> reads m b x" and "takes (f x) ps rest y"
  shows "takes (bind_read m f) (p # ps) rest y"
  using assms by (auto simp: takes_def toBytes_eq_Inr_Cons intro: reads_with_bind)

lemma takes_array:
  assumes "\<And>b. toBytes qs = Inr b \<Longrightarrow> reads m b x" and "takes (f x) ps rest y"
  shows "takes (bind_read m f) (qs @ ps) rest y"
  using assms by (auto simp: takes_def toBytes_append intro: reads_with_bind)

lemma takes_unless: "c \<Longrightarrow> takes (f ()) ps rest v \<Longrightarrow> takes (bind_read (fail_unless c msg) f) ps rest v"
  by (auto simp: takes_def intro: reads_with_unless)

lemma takes_ret: "x = v \<Longrightarrow> takes (ret_read x) [] rest v"
  by (simp add: takes_def reads_with_def ret_read_def)

lemma takes_tail:
  assumes "\<And>pre. \<exists>r. m (at pre rest) = Inr (t, r)" and "f t = ret_read v"
  shows "takes (bind_read m f) [] rest v"
  unfolding takes_def reads_with_def
proof (intro allI impI)
  fix bs pre
  assume "toBytes [] = Inr bs"
  then have "bs = []" by simp
  obtain r where "m (at pre rest) = Inr (t, r)" using assms(1) by blast
  then show "\<exists>r. bind_read m f (at pre (bs @ rest)) = Inr (v, r)"
    using assms(2) \<open>bs = []\<close> by (simp add: bind_read_def ret_read_def)
qed

lemma decode_takes:
  assumes enc: "toBytes (Inr disc # ps) = Inr bs" and t: "takes body ps rest v" and "length disc = 8"
    and len: "\<And>cs. toBytes ps = Inr cs \<Longrightarrow> minLength \<le> 8 + length cs"
  shows "with_header (bs @ rest) disc name minLength body = Inr v"
proof -
  from enc obtain cs where cs: "toBytes ps = Inr cs" "bs = disc @ cs" by (auto simp: toBytes_eq_Inr_Cons)
  with t len [OF cs(1)] with_header_reads [of body cs rest v disc minLength name] assms(3) show ?thesis
    by (simp add: takes_def)
qed

text \<open>The round trips, one rule application per field.\<close>

lemma binding_roundtrip:
  assumes W: "web3_ok W"
    and canonical: "address W (cb_owner v) = Inr (cb_owner v)" "address W (cb_policy v) = Inr (cb_policy v)"
      "address W (cb_period v) = Inr (cb_period v)" "address W (cb_commitment v) = Inr (cb_commitment v)"
    and enc: "encodeCardBinding W v = Inr bs"
  shows "decodeCardBinding W (bs @ rest) = Inr v"
  unfolding decodeCardBinding_def
proof (rule decode_takes [OF enc [unfolded encodeCardBinding_def]], goal_cases)
  case 1
  show ?case
    unfolding binding_body_def
    by (rule takes_bind takes_ret card_reads W canonical | assumption | (cases v, simp))+
qed (auto simp: CARD_cardBinding_def CARD_BINDING_LENGTH_def toBytes_eq_Inr_Cons dest!: card_lengths pubkey_length [OF W])

lemma period_roundtrip:
  assumes W: "web3_ok W" and canonical: "address W (pd_policy v) = Inr (pd_policy v)"
    and enc: "encodeCardPeriod W v = Inr bs"
  shows "decodeCardPeriod W (bs @ rest) = Inr v"
  unfolding decodeCardPeriod_def
proof (rule decode_takes [OF enc [unfolded encodeCardPeriod_def]], goal_cases)
  case 1
  show ?case
    unfolding period_body_def
    by (rule takes_bind takes_ret card_reads W canonical | assumption | (cases v, simp))+
qed (auto simp: CARD_cardPeriod_def CARD_PERIOD_LENGTH_def toBytes_eq_Inr_Cons dest!: card_lengths pubkey_length [OF W])

lemma intent_roundtrip:
  assumes W: "web3_ok W"
    and canonical: "address W (ci_policy v) = Inr (ci_policy v)" "address W (ci_agent v) = Inr (ci_agent v)"
      "address W (ci_reservation v) = Inr (ci_reservation v)"
    and enc: "encodeCheckoutIntent W v = Inr bs"
  shows "decodeCheckoutIntent W (bs @ rest) = Inr v"
  unfolding decodeCheckoutIntent_def
proof (rule decode_takes [OF enc [unfolded encodeCheckoutIntent_def]], goal_cases)
  case 1
  show ?case
    unfolding intent_body_def
    by (rule takes_bind takes_ret card_reads W canonical | assumption | (cases v, simp))+
qed (auto simp: CARD_checkoutIntent_def CHECKOUT_INTENT_LENGTH_def toBytes_eq_Inr_Cons dest!: card_lengths pubkey_length [OF W])

lemma commitment_roundtrip:
  assumes W: "web3_ok W" and canonical: "address W (cc_binding v) = Inr (cc_binding v)"
    and enc: "encodeCardCommitment W v = Inr bs"
  shows "decodeCardCommitment W (bs @ rest) = Inr v"
  unfolding decodeCardCommitment_def
proof (rule decode_takes [OF enc [unfolded encodeCardCommitment_def]], goal_cases)
  case 1
  show ?case
    unfolding commitment_body_def
    by (rule takes_bind takes_ret card_reads W canonical | assumption | (cases v, simp))+
qed (auto simp: CARD_cardCommitment_def CARD_COMMITMENT_LENGTH_def toBytes_eq_Inr_Cons dest!: card_lengths pubkey_length [OF W])

text \<open>The appended tails: absent when too short, else a ring of digests and its count.\<close>

lemma remaining_at [simp]: "remaining (at pre rest) = int (length rest)"
  by (simp add: remaining_def at_def)

lemma map_nth_comp: "length xs = n \<Longrightarrow> map (\<lambda>i. f (xs ! i)) [0..<n] = map f xs"
  by (rule nth_equalityI) auto

lemma ring_reads:
  assumes "\<forall>d \<in> set ring. length d = 32" and "length ring = n"
  shows "reads (r_array (r_fixed 32) n name) (concat ring) ring"
proof -
  have "toBytes (map (\<lambda>d. w_fixed d 32 nm) ds) = Inr (concat ds)" if "\<forall>d \<in> set ds. length d = 32" for ds nm
    using that by (induction ds) (simp_all add: toBytes_eq_Inr_Cons w_fixed_def)
  from this [OF assms(1), of name] have "toBytes (map (\<lambda>i. w_fixed (ring ! i) 32 name) [0..<n]) = Inr (concat ring)"
    using map_nth_comp [OF assms(2), of "\<lambda>d. w_fixed d 32 name"] by simp
  from f_fixed.read_array [OF this] show ?thesis using map_nth [of ring] assms(2) by simp
qed

lemma ring_length: "\<forall>d \<in> set ring. length d = 32 \<Longrightarrow> length (concat ring) = 32 * length ring"
  by (induction ring) simp_all

lemma captureTail_none: "length rest < 257 \<Longrightarrow> captureTail (at pre rest) = Inr ((None, None), at pre rest)"
  by (simp add: captureTail_def CAPTURE_RING_def)

lemma captureTail_ring:
  assumes "\<forall>d \<in> set ring. length d = 32" and "length ring = CAPTURE_RING"
  shows "\<exists>r. captureTail (at pre (n # concat ring @ extra)) =
     Inr ((Some (take (min (unat n) CAPTURE_RING) ring), if length extra < 8 then None else Some (le_val (take 8 extra))), r)"
proof -
  have len: "length (concat ring) = 32 * CAPTURE_RING"
    using ring_length [OF assms(1)] assms(2) by simp
  have count: "reads (r_u8 ''captureCount'') [n] (NInt (uint n))"
    using reads_take [of "[n]" 1 "\<lambda>b. NInt (le_val b)"] by (simp add: r_u8_def)
  note ring = ring_reads [OF assms, of "''captureIds''"]
  have last: "8 \<le> length extra \<Longrightarrow> reads (r_u64 ''maxAmountCents'') (take 8 extra) (le_val (take 8 extra))"
    using reads_take [of "take 8 extra" 8 le_val] by (simp add: r_u64_def)
  have nat_n: "nat (uint n) = unat n" by simp
  show ?thesis
    using readsD [OF count, of pre "concat ring @ extra"] readsD [OF ring, of "pre @ [n]" extra]
      readsD [OF last, of "pre @ n # concat ring" "drop 8 extra"] len
    by (simp add: captureTail_def bind_read_def ret_read_def Let_def nat_n)
qed

lemma policyTail_none: "length rest < 289 \<Longrightarrow> policyTail (at pre rest) = Inr (None, at pre rest)"
  by (simp add: policyTail_def REPAYMENT_RING_def)

lemma policyTail_ring:
  assumes "\<forall>d \<in> set ring. length d = 32" and "length ring = REPAYMENT_RING" and "length recon = 32"
  shows "\<exists>r. policyTail (at pre (recon @ concat ring @ n # extra)) =
     Inr (Some \<lparr>tl_reconDigest = recon, tl_repaymentDigests = take (min (unat n) REPAYMENT_RING) ring\<rparr>, r)"
proof -
  have len: "length (concat ring) = 32 * REPAYMENT_RING"
    using ring_length [OF assms(1)] assms(2) by simp
  have recon: "reads (r_fixed 32 ''reconDigest'') recon recon"
    using reads_take [of recon 32 "\<lambda>b. b"] assms(3) by (simp add: r_fixed_def)
  have count: "reads (r_u8 ''repaymentCount'') [n] (NInt (uint n))"
    using reads_take [of "[n]" 1 "\<lambda>b. NInt (le_val b)"] by (simp add: r_u8_def)
  note ring = ring_reads [OF assms(1,2), of "''repaymentDigests''"]
  have nat_n: "nat (uint n) = unat n" by simp
  show ?thesis
    using readsD [OF recon, of pre "concat ring @ n # extra"] readsD [OF ring, of "pre @ recon" "n # extra"]
      readsD [OF count, of "pre @ recon @ concat ring" extra] len assms(3)
    by (simp add: policyTail_def bind_read_def ret_read_def Let_def nat_n)
qed

lemma reservation_roundtrip:
  assumes W: "web3_ok W"
    and canonical: "address W (rs_policy v) = Inr (rs_policy v)" "address W (rs_intent v) = Inr (rs_intent v)"
    and enc: "encodeReservation W v = Inr bs"
    and tail: "\<And>pre. \<exists>r. captureTail (at pre rest) = Inr (t, r)"
  shows "decodeReservation W (bs @ rest) = Inr (v\<lparr>rs_captureIdHashes := fst t, rs_maxAmountCents := snd t\<rparr>)"
  unfolding decodeReservation_def
proof (rule decode_takes [OF enc [unfolded encodeReservation_def]], goal_cases)
  case 1
  show ?case
    unfolding reservation_body_def
    by (rule takes_bind card_reads W canonical takes_tail [where m = captureTail and t = t, OF tail] | assumption | (cases v, simp split: prod.split))+
qed (auto simp: CARD_reservation_def RESERVATION_LENGTH_def toBytes_eq_Inr_Cons dest!: card_lengths pubkey_length [OF W])

lemma nth_or_list: "length xs \<le> n \<Longrightarrow> map (nth_or d xs) [0..<n] = xs @ replicate (n - length xs) d"
  by (rule nth_equalityI) (auto simp: nth_or_def nth_append)

lemma members_read:
  assumes W: "web3_ok W" and canonical: "\<forall>m \<in> set ms. address W (mb_pubkey m) = Inr (mb_pubkey m)"
    and bytes: "toBytes (map (member_key W ms) [0..<n]) = Inr bs"
  shows "reads (r_array (r_pubkey W) n name) bs (map (nth_or SYSTEM_PROGRAM_ID (map mb_pubkey ms)) [0..<n])"
    and "length bs = 32 * n"
proof -
  have key: "length b = 32 \<and> to_base58 W b = nth_or SYSTEM_PROGRAM_ID (map mb_pubkey ms) i"
    if "member_key W ms i = Inr b" for i b
  proof (cases "i < length ms")
    case True
    with that have "publicKey W (mb_pubkey (ms ! i)) = Inr b"
      by (auto simp: member_key_def publicKeyBytes_def w_pubkey_def toBytes_eq_Inr_Cons result_simps w_fixed_def split: if_splits)
    with True canonical [rule_format, of "ms ! i"] publicKey_length [OF W this] show ?thesis
      by (auto simp: nth_or_def address_eq_Inr)
  next
    case False
    with that base58_default [OF W] show ?thesis by (auto simp: member_key_def nth_or_def w_fixed_def split: if_splits)
  qed
  show "reads (r_array (r_pubkey W) n name) bs (map (nth_or SYSTEM_PROGRAM_ID (map mb_pubkey ms)) [0..<n])"
    unfolding r_array_def using bytes
  proof (rule reads_each)
    fix i b
    assume "member_key W ms i = Inr b"
    then have b: "length b = 32" "to_base58 W b = nth_or SYSTEM_PROGRAM_ID (map mb_pubkey ms) i" using key by auto
    show "reads (r_pubkey W (indexed name i)) b (nth_or SYSTEM_PROGRAM_ID (map mb_pubkey ms) i)"
      unfolding r_pubkey_def r_fixed_def
      by (rule reads_bind_last [OF reads_take [OF b(1)]]) (simp add: b(2))
  qed
  show "length bs = 32 * n" using toBytes_length [OF bytes, of 32] key by auto
qed

lemma take_zip_members:
  assumes "length ms \<le> n"
  shows "map (\<lambda>(k, f). \<lparr>mb_pubkey = k, mb_flags = f\<rparr>) (take (length ms)
     (zip (map (nth_or d (map mb_pubkey ms)) [0..<n]) (map (nth_or e (map mb_flags ms)) [0..<n]))) = ms"
  by (rule nth_equalityI) (use assms in \<open>auto simp: nth_or_def\<close>)

lemma take_nth_or: "length xs \<le> n \<Longrightarrow> take (length xs) (map (nth_or d xs) [0..<n]) = xs"
  by (simp add: nth_or_list)

lemma count_reads:
  assumes "w_u8 (NInt (int k)) nm = Inr b"
  shows "reads (r_u8 field) b (NInt (int k))"
  using f_u8.read_write [OF assms] .

text \<open>The addresses of a policy are in canonical base58, as web3.js prints them.\<close>

definition policy_addresses :: "web3 \<Rightarrow> CardPolicy \<Rightarrow> bool" where
  "policy_addresses W v \<longleftrightarrow>
     (\<forall>a \<in> {cp_binding v, cp_owner v, cp_authorizer v} \<union> mb_pubkey ` set (cp_members v). address W a = Inr a)"

lemma policy_length:
  assumes W: "web3_ok W" and enc: "toBytes (tl (policy_parts W v)) = Inr cs"
    and canonical: "policy_addresses W v"
  shows "length cs = CARD_POLICY_LENGTH - 8"
proof -
  have members: "\<forall>m \<in> set (cp_members v). address W (mb_pubkey m) = Inr (mb_pubkey m)"
    using canonical by (simp add: policy_addresses_def)
  show ?thesis
    using enc
    by (auto simp: policy_parts_def toBytes_eq_Inr_Cons toBytes_append CARD_POLICY_LENGTH_def
        MAX_MERCHANTS_def MAX_MCCS_def MAX_MEMBERS_def
        dest!: card_lengths pubkey_length [OF W] f_fixed.array_length f_u16.array_length f_u8.array_length
          members_read(2) [OF W members])
qed

lemma policy_roundtrip:
  assumes W: "web3_ok W" and canonical: "policy_addresses W v"
    and enc: "encodeCardPolicy W v = Inr bs"
    and tail: "\<And>pre. \<exists>r. policyTail (at pre rest) = Inr (t, r)"
  shows "decodeCardPolicy W (bs @ rest) = Inr (v\<lparr>cp_tail := t\<rparr>)"
proof -
  have members: "\<forall>m \<in> set (cp_members v). address W (mb_pubkey m) = Inr (mb_pubkey m)"
    and keys: "address W (cp_binding v) = Inr (cp_binding v)" "address W (cp_owner v) = Inr (cp_owner v)"
      "address W (cp_authorizer v) = Inr (cp_authorizer v)"
    using canonical by (simp_all add: policy_addresses_def)
  have enc': "toBytes (Inr CARD_cardPolicy # tl (policy_parts W v)) = Inr bs"
    and small: "length (cp_merchantIdHashes v) \<le> MAX_MERCHANTS" "length (cp_mccs v) \<le> MAX_MCCS"
      "length (cp_members v) \<le> MAX_MEMBERS"
    using enc by (auto simp: encodeCardPolicy_def policy_parts_def result_simps)
  have "takes (policy_body W) (tl (policy_parts W v)) rest (v\<lparr>cp_tail := t\<rparr>)"
    unfolding policy_body_def policy_parts_def list.sel append_Cons append_Nil
    by (rule takes_bind takes_unless takes_array card_reads W keys members_read(1) [OF W members]
        f_fixed.read_array f_u16.read_array f_u8.read_array takes_tail [where m = policyTail and t = t, OF tail]
        | assumption
        | (cases v, use small in \<open>simp add: take_nth_or take_zip_members\<close>))+
  from decode_takes [OF enc' this] policy_length [OF W _ canonical] show ?thesis
    by (simp add: decodeCardPolicy_def CARD_cardPolicy_def)
qed

lemma with_header_disc: "with_header data disc name n body = Inr v \<Longrightarrow> take (length disc) data = disc"
  by (auto simp: with_header_def header_def result_simps assertDiscriminator_iff)

section \<open>Properties\<close>

text \<open>
  A card policy survives storage: what \<open>encodeCardPolicy\<close> wrote is decoded to the same policy, and
  when the program has appended its tail (reconciliation digest, ring of repayment digests, count, and
  whatever later versions add) the decoder returns the same policy with exactly the used digests.
\<close>

theorem card_policy_roundtrip:
  assumes W: "web3_ok W" and canonical: "policy_addresses W v" and enc: "encodeCardPolicy W v = Inr bs"
    and ring: "\<forall>d \<in> set ring. length d = 32" "length ring = REPAYMENT_RING" "length recon = 32"
  shows "decodeCardPolicy W bs = Inr (v\<lparr>cp_tail := None\<rparr>) \<and>
     decodeCardPolicy W (bs @ recon @ concat ring @ n # extra) = Inr (v\<lparr>cp_tail :=
       Some \<lparr>tl_reconDigest = recon, tl_repaymentDigests = take (min (unat n) REPAYMENT_RING) ring\<rparr>\<rparr>)"
proof
  have none: "\<exists>r. policyTail (at pre []) = Inr (None, r)" for pre using policyTail_none [of "[]"] by simp
  show "decodeCardPolicy W bs = Inr (v\<lparr>cp_tail := None\<rparr>)"
    using policy_roundtrip [OF W canonical enc none] by simp
  show "decodeCardPolicy W (bs @ recon @ concat ring @ n # extra) = Inr (v\<lparr>cp_tail :=
       Some \<lparr>tl_reconDigest = recon, tl_repaymentDigests = take (min (unat n) REPAYMENT_RING) ring\<rparr>\<rparr>)"
    by (rule policy_roundtrip [OF W canonical enc policyTail_ring [OF ring]])
qed

text \<open>
  A reservation survives storage, on accounts of every age: without the appended bytes both
  optional fields are absent; with the capture ring the used capture ids are returned; with eight more
  bytes the hold's maximum is returned too.
\<close>

theorem reservation_versions_roundtrip:
  assumes W: "web3_ok W"
    and canonical: "address W (rs_policy v) = Inr (rs_policy v)" "address W (rs_intent v) = Inr (rs_intent v)"
    and enc: "encodeReservation W v = Inr bs"
    and ring: "\<forall>d \<in> set ring. length d = 32" "length ring = CAPTURE_RING"
  shows "decodeReservation W bs = Inr (v\<lparr>rs_captureIdHashes := None, rs_maxAmountCents := None\<rparr>) \<and>
     decodeReservation W (bs @ n # concat ring) = Inr (v\<lparr>rs_captureIdHashes := Some (take (min (unat n) CAPTURE_RING) ring),
       rs_maxAmountCents := None\<rparr>) \<and>
     (u64_ok amount \<longrightarrow> decodeReservation W (bs @ n # concat ring @ le_bytes 8 amount @ extra) =
       Inr (v\<lparr>rs_captureIdHashes := Some (take (min (unat n) CAPTURE_RING) ring), rs_maxAmountCents := Some amount\<rparr>))"
proof (intro conjI impI)
  have none: "\<exists>r. captureTail (at pre []) = Inr ((None, None), r)" for pre using captureTail_none [of "[]"] by simp
  show "decodeReservation W bs = Inr (v\<lparr>rs_captureIdHashes := None, rs_maxAmountCents := None\<rparr>)"
    using reservation_roundtrip [OF W canonical enc none] by simp
  show "decodeReservation W (bs @ n # concat ring) = Inr (v\<lparr>rs_captureIdHashes := Some (take (min (unat n) CAPTURE_RING) ring),
       rs_maxAmountCents := None\<rparr>)"
    using reservation_roundtrip [OF W canonical enc captureTail_ring [OF ring, of _ n "[]"]] by simp
  assume "u64_ok amount"
  then show "decodeReservation W (bs @ n # concat ring @ le_bytes 8 amount @ extra) =
       Inr (v\<lparr>rs_captureIdHashes := Some (take (min (unat n) CAPTURE_RING) ring), rs_maxAmountCents := Some amount\<rparr>)"
    using reservation_roundtrip [OF W canonical enc captureTail_ring [OF ring, of _ n "le_bytes 8 amount @ extra"]]
      u64.dec_enc [of amount] by simp
qed

text \<open>
  The other card accounts survive storage too, with any bytes appended by a later program version:
  bindings, periods, checkout intents and commitments are decoded to the value that was encoded.
\<close>

theorem card_accounts_roundtrip:
  assumes W: "web3_ok W"
    and canonical: "\<forall>a \<in> {cb_owner b, cb_policy b, cb_period b, cb_commitment b, pd_policy p, ci_policy i,
      ci_agent i, ci_reservation i, cc_binding c}. address W a = Inr a"
  shows "(\<forall>bs. encodeCardBinding W b = Inr bs \<longrightarrow> decodeCardBinding W (bs @ extra) = Inr b) \<and>
     (\<forall>bs. encodeCardPeriod W p = Inr bs \<longrightarrow> decodeCardPeriod W (bs @ extra) = Inr p) \<and>
     (\<forall>bs. encodeCheckoutIntent W i = Inr bs \<longrightarrow> decodeCheckoutIntent W (bs @ extra) = Inr i) \<and>
     (\<forall>bs. encodeCardCommitment W c = Inr bs \<longrightarrow> decodeCardCommitment W (bs @ extra) = Inr c)"
  using canonical binding_roundtrip [OF W] period_roundtrip [OF W] intent_roundtrip [OF W] commitment_roundtrip [OF W]
  by simp

text \<open>
  No account is read as another kind: bytes accepted by one of the six decoders are refused by
  every other one.
\<close>

theorem card_decoders_disjoint:
  "card {k \<in> {0 :: nat, 1, 2, 3, 4, 5}.
     [is_ok (decodeCardBinding W data), is_ok (decodeCardPolicy W data), is_ok (decodeCardPeriod W data),
      is_ok (decodeReservation W data), is_ok (decodeCheckoutIntent W data), is_ok (decodeCardCommitment W data)] ! k} \<le> 1"
    (is "card ?S \<le> 1")
proof -
  define disc where "disc = [CARD_cardBinding, CARD_cardPolicy, CARD_cardPeriod, CARD_reservation,
    CARD_checkoutIntent, CARD_cardCommitment]"
  have lengths: "length CARD_cardBinding = 8" "length CARD_cardPolicy = 8" "length CARD_cardPeriod = 8"
    "length CARD_reservation = 8" "length CARD_checkoutIntent = 8" "length CARD_cardCommitment = 8"
    by (simp_all add: CARD_disc_defs)
  have sel: "take 8 data = disc ! k \<and> k < length disc" if "k \<in> ?S" for k
    using that lengths
    by (auto simp: disc_def is_ok_iff decodeCardBinding_def decodeCardPolicy_def decodeCardPeriod_def
        decodeReservation_def decodeCheckoutIntent_def decodeCardCommitment_def dest!: with_header_disc)
  have distinct: "distinct disc" by (simp add: disc_def CARD_disc_defs)
  define S where "S = ?S"
  have "j = k" if "j \<in> S" "k \<in> S" for j k
    using sel [of j] sel [of k] that distinct nth_eq_iff_index_eq [of disc j k] unfolding S_def by argo
  moreover have "finite S" by (simp add: S_def)
  ultimately have "card S \<le> 1" by (simp add: card_le_Suc0_iff_eq)
  then show ?thesis by (simp only: S_def)
qed

section \<open>Examples\<close>

definition sample_address :: "byte \<Rightarrow> address" where
  "sample_address b = to_base58 sample_web3 (replicate 32 b)"

lemma sample_address_ok [simp]: "address sample_web3 (sample_address b) = Inr (sample_address b)"
  "publicKey sample_web3 (sample_address b) = Inr (replicate 32 b)"
  by (simp_all add: sample_address_def)

definition sample_policy :: CardPolicy where
  "sample_policy = \<lparr>cp_binding = sample_address 1, cp_owner = sample_address 2, cp_authorizer = sample_address 3,
     cp_policyVersion = NInt 4, cp_budgetCents = 50000, cp_maxPurchaseCents = 20000,
     cp_maxPurchasesPerPeriod = NInt 10, cp_periodSeconds = NInt 86400, cp_currency = ''USD'',
     cp_merchantIdHashes = [replicate 32 9], cp_mccs = [NInt 5411, NInt 5812], cp_expiresAt = 0,
     cp_recurringAllowed = False, cp_feeBps = NInt 50, cp_frozen = False, cp_freezeReason = FreezeNone,
     cp_recoveryState = RecoveryNormal, cp_statementOutstandingCents = 1005, cp_exceptionsOpen = NInt 0,
     cp_members = [\<lparr>mb_pubkey = sample_address 2, mb_flags = NInt 3\<rparr>], cp_ledgerHead = replicate 32 7,
     cp_ledgerSeq = 12, cp_commitSeq = 3, cp_bump = NInt 254, cp_tail = None\<rparr>"

definition sample_period :: CardPeriod where
  "sample_period = \<lparr>pd_policy = sample_address 4, pd_periodIndex = NInt 2, pd_periodStart = 1789000000,
     pd_periodEnd = 1789086400, pd_capturedCents = 1000, pd_reservedCents = 500, pd_refundedCents = 0,
     pd_purchasesCount = NInt 1, pd_exceptionCents = 0, pd_bump = NInt 253\<rparr>"

definition sample_reservation :: Reservation where
  "sample_reservation = \<lparr>rs_policy = sample_address 4, rs_authIdHash = replicate 32 8, rs_intent = sample_address 5,
     rs_periodIndex = NInt 2, rs_amountReservedCents = 500, rs_capturedCents = 0, rs_reversedCents = 0,
     rs_refundedCents = 0, rs_state = NInt 1, rs_disputeState = DisputeNone, rs_flags = NInt 0,
     rs_createdAt = 1789000100, rs_holdExpiresAt = 1789600000, rs_bump = NInt 252, rs_captureIdHashes = None,
     rs_maxAmountCents = None\<rparr>"

definition sample_binding :: CardBinding where
  "sample_binding = \<lparr>cb_version = NInt 1, cb_owner = sample_address 2, cb_cardId = replicate 32 6, cb_issuer = NInt 2,
     cb_issuerCardRefHash = replicate 32 5, cb_policy = sample_address 4, cb_period = sample_address 6,
     cb_commitment = sample_address 7, cb_status = BindingActive, cb_createdAt = 1789000000, cb_bump = NInt 255\<rparr>"

definition sample_intent :: CheckoutIntent where
  "sample_intent = \<lparr>ci_policy = sample_address 4, ci_intentId = replicate 16 1, ci_agent = sample_address 8,
     ci_merchantIdHash = replicate 32 9, ci_mcc = NInt 5411, ci_maxAmountCents = 600, ci_currency = ''USD'',
     ci_policyVersion = NInt 4, ci_expiresAt = 1789000600, ci_state = IntentOpen,
     ci_reservation = sample_address 0, ci_bump = NInt 251\<rparr>"

definition sample_commitment :: CardCommitment where
  "sample_commitment = \<lparr>cc_binding = sample_address 1, cc_seq = 3, cc_root = replicate 32 11,
     cc_policyVersion = NInt 4, cc_periodIndex = NInt 2, cc_writtenSlot = 77, cc_bump = NInt 250\<rparr>"

lemmas writer_defs = toBytes_def concatR_def w_u8_def w_u16_def w_u32_def w_u64_def w_i64_def w_bool_def w_fixed_def
  w_pubkey_def w_enum_def w_currency_def enumIndex_def currencyBytes_def

lemma sample_policy_encodes: "\<exists>bs. encodeCardPolicy sample_web3 sample_policy = Inr bs"
  by (simp add: encodeCardPolicy_def policy_parts_def writer_defs sample_policy_def MAX_MERCHANTS_def MAX_MCCS_def
      MAX_MEMBERS_def upt_rec nth_or_def member_key_def publicKeyBytes_def FREEZE_REASONS_def RECOVERY_STATES_def)

theorem card_policy_roundtrip_witness:
  "\<exists>bs. encodeCardPolicy sample_web3 sample_policy = Inr bs \<and>
     decodeCardPolicy sample_web3 (bs @ replicate 32 1 @ concat (replicate 8 (replicate 32 2)) @ 1 # [99]) =
       Inr (sample_policy\<lparr>cp_tail := Some \<lparr>tl_reconDigest = replicate 32 1, tl_repaymentDigests = [replicate 32 2]\<rparr>\<rparr>)"
proof -
  obtain bs where bs: "encodeCardPolicy sample_web3 sample_policy = Inr bs" using sample_policy_encodes by blast
  have addresses: "policy_addresses sample_web3 sample_policy" by (simp add: policy_addresses_def sample_policy_def)
  from card_policy_roundtrip [OF sample_web3_ok addresses bs, of "replicate 8 (replicate 32 2)" "replicate 32 1" 1 "[99]"] bs
  show ?thesis by (simp add: REPAYMENT_RING_def numeral_eq_Suc)
qed

theorem reservation_versions_roundtrip_witness:
  "\<exists>bs. encodeReservation sample_web3 sample_reservation = Inr bs \<and>
     decodeReservation sample_web3 (bs @ 1 # concat (replicate 8 (replicate 32 2)) @ le_bytes 8 600 @ []) =
       Inr (sample_reservation\<lparr>rs_captureIdHashes := Some [replicate 32 2], rs_maxAmountCents := Some 600\<rparr>)"
proof -
  obtain bs where bs: "encodeReservation sample_web3 sample_reservation = Inr bs"
    by (simp add: encodeReservation_def writer_defs sample_reservation_def DISPUTE_STATES_def)
  have keys: "address sample_web3 (rs_policy sample_reservation) = Inr (rs_policy sample_reservation)"
    "address sample_web3 (rs_intent sample_reservation) = Inr (rs_intent sample_reservation)"
    by (simp_all add: sample_reservation_def)
  from reservation_versions_roundtrip [OF sample_web3_ok keys bs, of "replicate 8 (replicate 32 2)" 1 600 "[]"] bs
  show ?thesis by (simp add: CAPTURE_RING_def numeral_eq_Suc u64_ok_def)
qed

theorem card_accounts_roundtrip_witness:
  "\<exists>b p i c. encodeCardBinding sample_web3 sample_binding = Inr b \<and> decodeCardBinding sample_web3 (b @ [1]) = Inr sample_binding \<and>
     encodeCardPeriod sample_web3 sample_period = Inr p \<and> decodeCardPeriod sample_web3 (p @ [1]) = Inr sample_period \<and>
     encodeCheckoutIntent sample_web3 sample_intent = Inr i \<and> decodeCheckoutIntent sample_web3 (i @ [1]) = Inr sample_intent \<and>
     encodeCardCommitment sample_web3 sample_commitment = Inr c \<and> decodeCardCommitment sample_web3 (c @ [1]) = Inr sample_commitment"
proof -
  obtain b where b: "encodeCardBinding sample_web3 sample_binding = Inr b"
    by (simp add: encodeCardBinding_def writer_defs sample_binding_def BINDING_STATUS_def)
  obtain p where p: "encodeCardPeriod sample_web3 sample_period = Inr p"
    by (simp add: encodeCardPeriod_def writer_defs sample_period_def)
  obtain i where i: "encodeCheckoutIntent sample_web3 sample_intent = Inr i"
    by (simp add: encodeCheckoutIntent_def writer_defs sample_intent_def INTENT_STATES_def)
  obtain c where c: "encodeCardCommitment sample_web3 sample_commitment = Inr c"
    by (simp add: encodeCardCommitment_def writer_defs sample_commitment_def)
  have "\<forall>a \<in> {cb_owner sample_binding, cb_policy sample_binding, cb_period sample_binding, cb_commitment sample_binding,
      pd_policy sample_period, ci_policy sample_intent, ci_agent sample_intent, ci_reservation sample_intent,
      cc_binding sample_commitment}. address sample_web3 a = Inr a"
    by (simp add: sample_binding_def sample_period_def sample_intent_def sample_commitment_def)
  from card_accounts_roundtrip [OF sample_web3_ok this, of "[1]"] b p i c show ?thesis by blast
qed

end
