(* ===== verification/CardPda.thy ===== *)
theory CardPda
  imports CardAccounts PaymentRequest
begin

text \<open>
  \<open>sdk/src/cards/constants.ts\<close> (addresses, limits, error names), \<open>sdk/src/cards/pda.ts\<close> and the
  token hashes of \<open>sdk/src/cards/hash.ts\<close>. Addresses are derived through the web3.js interface \<open>W\<close>, SHA-256 is
  \<open>cr_sha256\<close> of the record \<open>crypto\<close>.
\<close>

section \<open>Constants\<close>

definition CARD_POLICY_PROGRAM_ID :: address where
  "CARD_POLICY_PROGRAM_ID = ''H3aetJdQXG8EeJSCHZrpQa8iKHBw8e1p9fSPjTUsB93n''"

definition DEVNET_TEE_VALIDATOR :: address where
  "DEVNET_TEE_VALIDATOR = ''MTEWGuqxUpYZGFJQcp8tLN7x5v9BSeoFHYWQQ3n3xzo''"

definition TEE_VALIDATOR_ALLOWLIST :: "address list" where
  "TEE_VALIDATOR_ALLOWLIST = [DEVNET_TEE_VALIDATOR]"

definition DELEGATION_PROGRAM_ID :: address where
  "DELEGATION_PROGRAM_ID = ''DELeGGvXpWV2fqJUhqcF5ZSYMS4JTLjteaAMARRSaeSh''"
definition MAGIC_PROGRAM_ID :: address where
  "MAGIC_PROGRAM_ID = ''Magic11111111111111111111111111111111111111''"
definition MAGIC_CONTEXT_ID :: address where
  "MAGIC_CONTEXT_ID = ''MagicContext1111111111111111111111111111111''"
definition PERMISSION_PROGRAM_ID :: address where
  "PERMISSION_PROGRAM_ID = ''ACLseoPoyC3cBqoUtkbjZ4aDrkurZW86v19pXz2XQnp1''"
definition EPHEMERAL_VAULT_ID :: address where
  "EPHEMERAL_VAULT_ID = ''MagicVau1t999999999999999999999999999999999''"

definition MAX_BUDGET_CENTS :: int where "MAX_BUDGET_CENTS = 1000000"
definition MIN_PERIOD_SECONDS :: int where "MIN_PERIOD_SECONDS = 86400"
definition MAX_FEE_BPS :: int where "MAX_FEE_BPS = 1000"

definition resolveCardPolicyProgramId :: "address option \<Rightarrow> address result" where
  "resolveCardPolicyProgramId programId =
     (let value = trim (case programId of Some p \<Rightarrow> p | None \<Rightarrow> CARD_POLICY_PROGRAM_ID) in
      if value = [] then Inl ''card_policy program ID is not configured yet. Pass programId explicitly until the program is deployed.''
      else Inr value)"

text \<open>The error codes, in the order of the program's enum from 6000.\<close>

definition CARD_POLICY_ERRORS :: "string list" where
  "CARD_POLICY_ERRORS =
     [''Unauthorized'', ''ValidatorNotAllowed'', ''PolicyNotSet'', ''InvalidPolicy'', ''CardFrozen'', ''RecoveryFrozen'',
      ''PolicyExpired'', ''IntentInvalid'', ''IntentExpired'', ''IntentStale'', ''MerchantMismatch'', ''MerchantNotAllowed'',
      ''MccNotAllowed'', ''CurrencyMismatch'', ''AmountExceedsIntent'', ''AmountExceedsMax'', ''BudgetExceeded'',
      ''VelocityExceeded'', ''RecurringNotAllowed'', ''DuplicateAuthorization'', ''DuplicateCapture'', ''ReservationClosed'',
      ''PeriodNotEnded'', ''DisclosureBlocked'', ''MemberLimit'', ''ExceptionsOpen'', ''NotInRecovery'', ''StaleCommitment'',
      ''OpenReservations'', ''OutstandingBalance'', ''MathOverflow'', ''AuthorizerChangeRequiresFreeze'', ''DuplicateRepayment'',
      ''MemberNotFound'', ''PermissionNotInitialized'', ''InvalidAmount'', ''NoOpenExceptions'', ''ReconDigestMismatch'',
      ''RepaymentExceedsOutstanding'', ''InvalidAccount'', ''PrefundTooLow'', ''NotWiped'', ''InvalidEventId'',
      ''DuplicateEvent'', ''EphemeralAccountsOpen'', ''ReservationNotFinal'', ''CoSignerRequired'', ''RefundExceedsCapture'',
      ''CaptureLimit'', ''BudgetBelowCommitted'', ''InvalidRepaymentReceipt'', ''RepaymentRecipientMismatch'',
      ''RepaymentExceedsReceipt'', ''InvalidRepaymentMandate'']"

definition cardPolicyErrorName :: "int \<Rightarrow> string option" where
  "cardPolicyErrorName code =
     (if 6000 \<le> code \<and> code < 6000 + int (length CARD_POLICY_ERRORS)
      then Some (CARD_POLICY_ERRORS ! nat (code - 6000)) else None)"

section \<open>Derived addresses\<close>

definition card_pda :: "web3 \<Rightarrow> bytes result list \<Rightarrow> address option \<Rightarrow> address result" where
  "card_pda W seeds programId =
     bindR (mapR (\<lambda>s. s) seeds) (\<lambda>ss. bindR (resolveCardPolicyProgramId programId) (\<lambda>p. pda W (map Inr ss) p))"

definition deriveCardBindingAddress :: "web3 \<Rightarrow> address \<Rightarrow> bytes \<Rightarrow> address option \<Rightarrow> address result" where
  "deriveCardBindingAddress W owner cardId programId =
     card_pda W [Inr (str_bytes ''card_binding''), publicKey W owner, bytes32 cardId ''cardId''] programId"

definition deriveCardPolicyAddress :: "web3 \<Rightarrow> address \<Rightarrow> address option \<Rightarrow> address result" where
  "deriveCardPolicyAddress W binding programId =
     card_pda W [Inr (str_bytes ''card_policy''), publicKey W binding] programId"

definition deriveCardPeriodAddress :: "web3 \<Rightarrow> address \<Rightarrow> address option \<Rightarrow> address result" where
  "deriveCardPeriodAddress W binding programId =
     card_pda W [Inr (str_bytes ''card_period''), publicKey W binding] programId"

definition deriveReservationAddress :: "web3 \<Rightarrow> address \<Rightarrow> bytes \<Rightarrow> address option \<Rightarrow> address result" where
  "deriveReservationAddress W policy authIdHash programId =
     card_pda W [Inr (str_bytes ''res''), publicKey W policy, bytes32 authIdHash ''authIdHash''] programId"

definition deriveAuthGuardAddress :: "web3 \<Rightarrow> address \<Rightarrow> address option \<Rightarrow> address result" where
  "deriveAuthGuardAddress W policy programId =
     card_pda W [Inr (str_bytes ''auth_guard''), publicKey W policy] programId"

definition deriveCheckoutIntentAddress :: "web3 \<Rightarrow> address \<Rightarrow> bytes \<Rightarrow> address option \<Rightarrow> address result" where
  "deriveCheckoutIntentAddress W policy intentId programId =
     (if length intentId \<noteq> 16 then Inl ''intentId must be exactly 16 bytes''
      else card_pda W [Inr (str_bytes ''intent''), publicKey W policy, Inr intentId] programId)"

definition deriveCardCommitmentAddress :: "web3 \<Rightarrow> address \<Rightarrow> address option \<Rightarrow> address result" where
  "deriveCardCommitmentAddress W binding programId =
     card_pda W [Inr (str_bytes ''card_commit''), publicKey W binding] programId"

definition deriveRepayAgentAddress :: "web3 \<Rightarrow> address \<Rightarrow> address option \<Rightarrow> address result" where
  "deriveRepayAgentAddress W binding programId =
     card_pda W [Inr (str_bytes ''repay_agent''), publicKey W binding] programId"

definition derivePermissionAddress :: "web3 \<Rightarrow> address \<Rightarrow> address result" where
  "derivePermissionAddress W account =
     pda W [Inr (str_bytes ''permission:''), publicKey W account] PERMISSION_PROGRAM_ID"

definition deriveCardEscrowAddress :: "web3 \<Rightarrow> address \<Rightarrow> jsnum \<Rightarrow> address result" where
  "deriveCardEscrowAddress W escrowAuthority index =
     (if \<not> num_in 0 255 index then Inl ''escrow index must be 0..255''
      else pda W [Inr (str_bytes ''balance''), publicKey W escrowAuthority, Inr [word_of_int (num_val index)]]
             DELEGATION_PROGRAM_ID)"

definition deriveDelegationBufferAddress :: "web3 \<Rightarrow> address \<Rightarrow> address option \<Rightarrow> address result" where
  "deriveDelegationBufferAddress W account programId =
     card_pda W [Inr (str_bytes ''buffer''), publicKey W account] programId"

definition deriveDelegationRecordAddress :: "web3 \<Rightarrow> address \<Rightarrow> address result" where
  "deriveDelegationRecordAddress W account =
     pda W [Inr (str_bytes ''delegation''), publicKey W account] DELEGATION_PROGRAM_ID"

definition deriveDelegationMetadataAddress :: "web3 \<Rightarrow> address \<Rightarrow> address result" where
  "deriveDelegationMetadataAddress W account =
     pda W [Inr (str_bytes ''delegation-metadata''), publicKey W account] DELEGATION_PROGRAM_ID"

definition deriveMagicFeeVaultAddress :: "web3 \<Rightarrow> address \<Rightarrow> address result" where
  "deriveMagicFeeVaultAddress W validator =
     pda W [Inr (str_bytes ''magic-fee-vault''), publicKey W validator] DELEGATION_PROGRAM_ID"

record CardAccountSet =
  ac_binding :: address
  ac_policy :: address
  ac_period :: address
  ac_commitment :: address
  ac_escrow :: address
  ac_policyPermission :: address
  ac_periodPermission :: address

definition deriveCardAccounts :: "web3 \<Rightarrow> address \<Rightarrow> bytes \<Rightarrow> address option \<Rightarrow> CardAccountSet result" where
  "deriveCardAccounts W owner cardId programId =
     bindR (deriveCardBindingAddress W owner cardId programId) (\<lambda>binding.
     bindR (deriveCardPolicyAddress W binding programId) (\<lambda>policy.
     bindR (deriveCardPeriodAddress W binding programId) (\<lambda>period.
     bindR (deriveCardCommitmentAddress W binding programId) (\<lambda>commitment.
     bindR (deriveCardEscrowAddress W policy (NInt 255)) (\<lambda>escrow.
     bindR (derivePermissionAddress W policy) (\<lambda>policyPermission.
     bindR (derivePermissionAddress W period) (\<lambda>periodPermission.
     Inr \<lparr>ac_binding = binding, ac_policy = policy, ac_period = period, ac_commitment = commitment,
          ac_escrow = escrow, ac_policyPermission = policyPermission, ac_periodPermission = periodPermission\<rparr>)))))))"

text \<open>\<open>toLowerCase\<close>, on the letters that can pass the hexadecimal test.\<close>

definition ascii_lower :: "char \<Rightarrow> char" where
  "ascii_lower c = (let n = (of_char c :: nat) in if 65 \<le> n \<and> n \<le> 90 then char_of (n + 32) else c)"

definition cardIdFromHex :: "string \<Rightarrow> bytes result" where
  "cardIdFromHex value =
     (let lower = map ascii_lower (trim value); hex = (if starts_with lower ''0x'' then drop 2 lower else lower) in
      if \<not> (length hex = 64 \<and> list_all is_lower_hex hex) then Inl ''cardId must be 32 bytes of hex''
      else Inr (map (\<lambda>i. parse_hex_byte (slice hex (i * 2) 2)) [0..<32]))"

definition cardIdToHex :: "bytes \<Rightarrow> string result" where
  "cardIdToHex cardId = bindR (bytes32 cardId ''cardId'') (\<lambda>b. Inr (concat (map hex_byte b)))"

section \<open>Domain-separated hashes\<close>

definition authIdHash :: "crypto \<Rightarrow> jsnum \<Rightarrow> jstext \<Rightarrow> bytes result" where
  "authIdHash C issuer issuerTransactionToken =
     (if \<not> num_in 0 255 issuer then Inl ''issuer must fit in u8''
      else if issuerTransactionToken = [] then Inl ''issuer transaction token is required''
      else Inr (cr_sha256 C (concat_bytes [str_bytes ''chainpay-auth-id:v1\<newline>'', [word_of_int (num_val issuer)], utf8 issuerTransactionToken])))"

definition issuerCardRefHash :: "crypto \<Rightarrow> jstext \<Rightarrow> bytes \<Rightarrow> bytes result" where
  "issuerCardRefHash C issuerCardToken refSalt =
     (if length refSalt \<noteq> 32 then Inl ''refSalt must be exactly 32 bytes''
      else if issuerCardToken = [] then Inl ''issuer card token is required''
      else Inr (cr_sha256 C (concat_bytes [str_bytes ''chainpay-card-ref:v1\<newline>'', utf8 issuerCardToken, refSalt])))"

text \<open>\<open>/^cpcap_v1_[A-Za-z0-9_-]{43}$/\<close>\<close>

definition isCheckoutCapability :: "json \<Rightarrow> bool" where
  "isCheckoutCapability value = (case value of
     JStr s \<Rightarrow> length s = 52 \<and> take 9 s = jstr ''cpcap_v1_'' \<and>
       list_all (\<lambda>c. 65 \<le> c \<and> c \<le> 90 \<or> 97 \<le> c \<and> c \<le> 122 \<or> 48 \<le> c \<and> c \<le> 57 \<or> c = 95 \<or> c = 45) (drop 9 s)
   | _ \<Rightarrow> False)"

section \<open>Facts\<close>

lemma ascii_lower_hex: "is_lower_hex c \<Longrightarrow> ascii_lower c = c \<and> \<not> is_space c"
  by (auto simp: is_lower_hex_def ascii_lower_def is_space_def Let_def)

lemma trim_hex: "list_all is_lower_hex s \<Longrightarrow> trim s = s"
proof -
  have front: "list_all is_lower_hex t \<Longrightarrow> dropWhile is_space t = t" for t
    using ascii_lower_hex by (cases t) auto
  assume "list_all is_lower_hex s"
  then show ?thesis using front [of s] front [of "rev s"] by (simp add: trim_def list_all_iff)
qed

text \<open>A card id survives its hexadecimal form.\<close>

lemma card_id_roundtrip:
  assumes "length b = 32"
  shows "\<exists>s. cardIdToHex b = Inr s \<and> cardIdFromHex s = Inr b"
proof -
  have eq: "concat (map hex_byte b) = hex_str b" by (induction b) simp_all
  have lower: "list_all is_lower_hex (hex_str b)" by (rule hex_str_lower)
  have same: "map ascii_lower (hex_str b) = hex_str b"
    using lower ascii_lower_hex by (intro map_idI) (auto simp: list_all_iff)
  have no_prefix: "\<not> starts_with (hex_str b) ''0x''"
    using lower by (cases "hex_str b" rule: list.exhaust) (auto simp: starts_with_iff is_lower_hex_def Let_def)
  have "map (\<lambda>i. parse_hex_byte (slice (hex_str b) (i * 2) 2)) [0..<32] = b"
    using assms by (intro nth_equalityI) (auto simp: hex_str_nth_pair mult.commute [of _ 2])
  then show ?thesis
    using assms lower same no_prefix trim_hex [OF lower] eq
    by (simp add: cardIdToHex_def bytes32_def cardIdFromHex_def Let_def)
qed

text \<open>Domain prefixes and fixed widths make the hashed bytes unambiguous.\<close>

definition auth_input :: "jsnum \<Rightarrow> jstext \<Rightarrow> bytes" where
  "auth_input issuer token = str_bytes ''chainpay-auth-id:v1\<newline>'' @ [word_of_int (num_val issuer)] @ utf8 token"

lemma auth_id_inject:
  assumes "authIdHash C i t = Inr h" and "authIdHash C j u = Inr h"
    and "list_all scalar t" and "list_all scalar u"
  shows "i = j \<and> t = u \<or>
    auth_input i t \<noteq> auth_input j u \<and> cr_sha256 C (auth_input i t) = cr_sha256 C (auth_input j u)"
proof -
  obtain m n where mn: "i = NInt m" "j = NInt n" "0 \<le> m" "m \<le> 255" "0 \<le> n" "n \<le> 255"
    using assms(1,2) by (cases i; cases j) (auto simp: authIdHash_def split: if_splits)
  have h: "cr_sha256 C (auth_input i t) = cr_sha256 C (auth_input j u)"
    using assms(1,2) mn by (auto simp: authIdHash_def auth_input_def split: if_splits)
  show ?thesis
  proof (cases "auth_input i t = auth_input j u")
    case True
    then have byte: "(word_of_int m :: byte) = word_of_int n" and txt_eq: "utf8 t = utf8 u"
      using mn by (auto simp: auth_input_def)
    have "m = n" using byte mn u8.dec_enc [of m] u8.dec_enc [of n] by (simp add: u8_ok_def)
    with mn utf8_inject [OF assms(3,4) txt_eq] show ?thesis by simp
  next
    case False
    then show ?thesis using h by (intro disjI2 conjI)
  qed
qed

end
