(* ===== verification/CardInstructions.thy ===== *)
theory CardInstructions
  imports CardPda
begin

text \<open>
  \<open>sdk/src/cards/instructions.ts\<close>: the arguments of every card program instruction, their codecs, the
  client-side mirror of \<open>set_policy\<close>'s validation and the owner-signed builders. An instruction with its
  arguments is a value of the datatype \<open>CardInstruction\<close>. The program's own validation of a policy
  (\<open>programs/card_policy/src/policy.rs\<close>) is modelled beside the mirror.
\<close>

section \<open>Arguments\<close>

record PolicyArgs =
  pa_budgetCents :: int
  pa_maxPurchaseCents :: int
  pa_maxPurchasesPerPeriod :: jsnum
  pa_periodSeconds :: jsnum
  pa_currency :: string
  pa_merchantIdHashes :: "bytes list"
  pa_mccs :: "jsnum list"
  pa_expiresAt :: int
  pa_recurringAllowed :: bool
  pa_feeBps :: jsnum
  pa_authorizer :: address

record RestoreArgs =
  ra_policy :: PolicyArgs
  ra_periodIndex :: jsnum
  ra_capturedCents :: int
  ra_reservedCents :: int
  ra_refundedCents :: int
  ra_purchasesCount :: jsnum
  ra_exceptionCents :: int
  ra_statementOutstandingCents :: int
  ra_ledgerHead :: bytes
  ra_ledgerSeq :: int
  ra_reconDigest :: bytes

datatype PermissionOp = AddReader address | RemoveReader address

datatype CardInstruction =
    InitCard bytes jsnum bytes int
  | DelegateCard address
  | InitPermission address
  | UpdatePermission PermissionOp
  | SyncPermission
  | SetPolicy PolicyArgs
  | OpenCheckoutIntent bytes address bytes jsnum int string int
  | CancelCheckoutIntent
  | CloseCheckoutIntent
  | Authorize bytes bytes int string bytes jsnum bool bool
  | AdjustReservation int
  | Capture int bytes
  | ReverseHold int jsnum bytes
  | RefundHold int bytes
  | RecordDispute jsnum bytes
  | RecordException jsnum int bytes
  | ResolveException bytes jsnum
  | RollPeriod
  | Freeze jsnum
  | Unfreeze
  | RecoveryFreeze jsnum
  | Restore RestoreArgs
  | ConfirmReconciled bytes
  | Checkpoint bytes int
  | WriteCommitment bytes int jsnum jsnum
  | WipeCard
  | CloseCard
  | RecordRepayment bytes int
  | CloseReservation
  | RepayStatement bytes int
  | RecordPrivateRepayment bytes int

fun instruction_name :: "CardInstruction \<Rightarrow> string" where
  "instruction_name (InitCard _ _ _ _) = ''initCard''"
| "instruction_name (DelegateCard _) = ''delegateCard''"
| "instruction_name (InitPermission _) = ''initPermission''"
| "instruction_name (UpdatePermission _) = ''updatePermission''"
| "instruction_name SyncPermission = ''syncPermission''"
| "instruction_name (SetPolicy _) = ''setPolicy''"
| "instruction_name (OpenCheckoutIntent _ _ _ _ _ _ _) = ''openCheckoutIntent''"
| "instruction_name CancelCheckoutIntent = ''cancelCheckoutIntent''"
| "instruction_name CloseCheckoutIntent = ''closeCheckoutIntent''"
| "instruction_name (Authorize _ _ _ _ _ _ _ _) = ''authorize''"
| "instruction_name (AdjustReservation _) = ''adjustReservation''"
| "instruction_name (Capture _ _) = ''capture''"
| "instruction_name (ReverseHold _ _ _) = ''reverse''"
| "instruction_name (RefundHold _ _) = ''refund''"
| "instruction_name (RecordDispute _ _) = ''recordDispute''"
| "instruction_name (RecordException _ _ _) = ''recordException''"
| "instruction_name (ResolveException _ _) = ''resolveException''"
| "instruction_name RollPeriod = ''rollPeriod''"
| "instruction_name (Freeze _) = ''freeze''"
| "instruction_name Unfreeze = ''unfreeze''"
| "instruction_name (RecoveryFreeze _) = ''recoveryFreeze''"
| "instruction_name (Restore _) = ''restore''"
| "instruction_name (ConfirmReconciled _) = ''confirmReconciled''"
| "instruction_name (Checkpoint _ _) = ''checkpoint''"
| "instruction_name (WriteCommitment _ _ _ _) = ''writeCommitment''"
| "instruction_name WipeCard = ''wipeCard''"
| "instruction_name CloseCard = ''closeCard''"
| "instruction_name (RecordRepayment _ _) = ''recordRepayment''"
| "instruction_name CloseReservation = ''closeReservation''"
| "instruction_name (RepayStatement _ _) = ''repayStatement''"
| "instruction_name (RecordPrivateRepayment _ _) = ''recordPrivateRepayment''"

definition CARD_POLICY_DISCRIMINATORS :: "(string \<times> bytes) list" where
  "CARD_POLICY_DISCRIMINATORS =
     [(''initCard'', [163, 228, 150, 17, 250, 36, 156, 20]),
      (''delegateCard'', [143, 76, 125, 25, 4, 123, 254, 155]),
      (''initPermission'', [66, 14, 153, 250, 187, 36, 179, 236]),
      (''updatePermission'', [1, 120, 111, 126, 237, 61, 41, 61]),
      (''syncPermission'', [164, 186, 105, 85, 229, 147, 214, 246]),
      (''setPolicy'', [40, 133, 12, 157, 235, 202, 2, 132]),
      (''openCheckoutIntent'', [139, 180, 113, 38, 119, 108, 36, 224]),
      (''cancelCheckoutIntent'', [175, 152, 6, 182, 211, 206, 160, 167]),
      (''closeCheckoutIntent'', [36, 161, 214, 238, 244, 192, 71, 234]),
      (''authorize'', [173, 193, 102, 210, 219, 137, 113, 120]),
      (''adjustReservation'', [137, 209, 64, 94, 107, 194, 101, 43]),
      (''capture'', [110, 65, 245, 241, 195, 248, 233, 142]),
      (''reverse'', [137, 149, 242, 82, 88, 95, 221, 145]),
      (''refund'', [2, 96, 183, 251, 63, 208, 46, 46]),
      (''recordDispute'', [190, 94, 198, 130, 215, 36, 43, 143]),
      (''recordException'', [221, 204, 254, 53, 116, 13, 197, 105]),
      (''resolveException'', [131, 144, 179, 147, 199, 157, 77, 127]),
      (''rollPeriod'', [30, 184, 166, 42, 251, 204, 47, 107]),
      (''freeze'', [255, 91, 207, 84, 251, 194, 254, 63]),
      (''unfreeze'', [133, 160, 68, 253, 80, 232, 218, 247]),
      (''recoveryFreeze'', [113, 1, 136, 29, 212, 19, 213, 56]),
      (''restore'', [77, 37, 122, 128, 139, 35, 6, 58]),
      (''confirmReconciled'', [116, 7, 34, 18, 87, 241, 4, 233]),
      (''checkpoint'', [213, 200, 19, 204, 240, 143, 184, 252]),
      (''writeCommitment'', [159, 54, 242, 213, 46, 162, 174, 75]),
      (''wipeCard'', [210, 120, 235, 58, 105, 132, 206, 76]),
      (''closeCard'', [142, 206, 170, 182, 227, 204, 185, 115]),
      (''recordRepayment'', [193, 155, 76, 246, 27, 189, 147, 102]),
      (''closeReservation'', [171, 96, 8, 85, 100, 252, 173, 204]),
      (''repayStatement'', [56, 158, 212, 137, 146, 226, 174, 82]),
      (''recordPrivateRepayment'', [91, 51, 18, 9, 7, 33, 77, 147])]"

section \<open>Codecs\<close>

definition policy_fields :: "web3 \<Rightarrow> PolicyArgs \<Rightarrow> bytes result list" where
  "policy_fields W p =
     [w_u64 (pa_budgetCents p) ''budgetCents'',
      w_u64 (pa_maxPurchaseCents p) ''maxPurchaseCents'',
      w_u16 (pa_maxPurchasesPerPeriod p) ''maxPurchasesPerPeriod'',
      w_u32 (pa_periodSeconds p) ''periodSeconds'',
      w_currency (pa_currency p),
      w_u32 (NInt (int (length (pa_merchantIdHashes p)))) ''u32'']
     @ map (\<lambda>i. w_fixed (pa_merchantIdHashes p ! i) 32 (indexed ''merchantIdHashes'' i)) [0..<length (pa_merchantIdHashes p)]
     @ [w_u32 (NInt (int (length (pa_mccs p)))) ''u32'']
     @ map (\<lambda>i. w_u16 (pa_mccs p ! i) (indexed ''mccs'' i)) [0..<length (pa_mccs p)]
     @ [w_i64 (pa_expiresAt p) ''expiresAt'', w_bool (pa_recurringAllowed p), w_u16 (pa_feeBps p) ''feeBps'',
        w_pubkey W (pa_authorizer p)]"

definition writePolicy :: "web3 \<Rightarrow> PolicyArgs \<Rightarrow> bytes result" where
  "writePolicy W p =
     bindR (require (length (pa_merchantIdHashes p) \<le> MAX_MERCHANTS) ''At most 8 merchants'') (\<lambda>_.
     bindR (require (length (pa_mccs p) \<le> MAX_MCCS) ''At most 16 MCCs'') (\<lambda>_.
     toBytes (policy_fields W p)))"

definition readVecLength :: "nat \<Rightarrow> string \<Rightarrow> nat read" where
  "readVecLength limit name =
     bind_read (r_u32 (name @ ''.length'')) (\<lambda>len.
     bind_read (fail_unless (num_val len \<le> int limit) (name @ '' exceeds '' @ int_dec (int limit) @ '' entries'')) (\<lambda>_.
     ret_read (nat (num_val len))))"

text \<open>\<open>String.fromCharCode(...r.fixed(3, "currency"))\<close>\<close>

definition r_code :: "string read" where
  "r_code = bind_read (r_fixed 3 ''currency'') (\<lambda>b. ret_read (map (\<lambda>byte. char_of (unat byte)) b))"

definition readPolicy :: "web3 \<Rightarrow> PolicyArgs read" where
  "readPolicy W =
     bind_read (r_u64 ''budgetCents'') (\<lambda>budgetCents.
     bind_read (r_u64 ''maxPurchaseCents'') (\<lambda>maxPurchaseCents.
     bind_read (r_u16 ''maxPurchasesPerPeriod'') (\<lambda>maxPurchasesPerPeriod.
     bind_read (r_u32 ''periodSeconds'') (\<lambda>periodSeconds.
     bind_read r_code (\<lambda>currency.
     bind_read (readVecLength MAX_MERCHANTS ''merchantIdHashes'') (\<lambda>n.
     bind_read (r_array (r_fixed 32) n ''merchantIdHashes'') (\<lambda>merchantIdHashes.
     bind_read (readVecLength MAX_MCCS ''mccs'') (\<lambda>m.
     bind_read (r_array r_u16 m ''mccs'') (\<lambda>mccs.
     bind_read (r_i64 ''expiresAt'') (\<lambda>expiresAt.
     bind_read (r_bool ''recurringAllowed'') (\<lambda>recurringAllowed.
     bind_read (r_u16 ''feeBps'') (\<lambda>feeBps.
     bind_read (r_pubkey W ''authorizer'') (\<lambda>authorizer.
     ret_read \<lparr>pa_budgetCents = budgetCents, pa_maxPurchaseCents = maxPurchaseCents,
       pa_maxPurchasesPerPeriod = maxPurchasesPerPeriod, pa_periodSeconds = periodSeconds,
       pa_currency = currency, pa_merchantIdHashes = merchantIdHashes, pa_mccs = mccs, pa_expiresAt = expiresAt,
       pa_recurringAllowed = recurringAllowed, pa_feeBps = feeBps, pa_authorizer = authorizer\<rparr>)))))))))))))"

fun codec_encode :: "web3 \<Rightarrow> CardInstruction \<Rightarrow> bytes result list" where
  "codec_encode W (InitCard cardId issuer refHash prefund) =
     [w_fixed cardId 32 ''cardId'', w_u8 issuer ''issuer'', w_fixed refHash 32 ''issuerCardRefHash'', w_u64 prefund ''prefundLamports'']"
| "codec_encode W (DelegateCard validator) = [w_pubkey W validator]"
| "codec_encode W (InitPermission authorizer) = [w_pubkey W authorizer]"
| "codec_encode W (UpdatePermission (AddReader pubkey)) = [w_u8 (NInt 0) ''u8'', w_pubkey W pubkey]"
| "codec_encode W (UpdatePermission (RemoveReader pubkey)) = [w_u8 (NInt 1) ''u8'', w_pubkey W pubkey]"
| "codec_encode W SyncPermission = []"
| "codec_encode W (SetPolicy policy) = [writePolicy W policy]"
| "codec_encode W (OpenCheckoutIntent intentId agent merchantIdHash mcc maxAmountCents currency expiresAt) =
     [w_fixed intentId 16 ''intentId'', w_pubkey W agent, w_fixed merchantIdHash 32 ''merchantIdHash'', w_u16 mcc ''mcc'',
      w_u64 maxAmountCents ''maxAmountCents'', w_currency currency, w_i64 expiresAt ''expiresAt'']"
| "codec_encode W CancelCheckoutIntent = []"
| "codec_encode W CloseCheckoutIntent = []"
| "codec_encode W (Authorize authId intentId amountCents currency merchantIdHash mcc merchantInitiated singleMessage) =
     [w_fixed authId 32 ''authIdHash'', w_fixed intentId 16 ''intentId'', w_u64 amountCents ''amountCents'', w_currency currency,
      w_fixed merchantIdHash 32 ''merchantIdHash'', w_u16 mcc ''mcc'', w_bool merchantInitiated, w_bool singleMessage]"
| "codec_encode W (AdjustReservation newAmountCents) = [w_u64 newAmountCents ''newAmountCents'']"
| "codec_encode W (Capture amountCents captureIdHash) = [w_u64 amountCents ''amountCents'', w_fixed captureIdHash 32 ''captureIdHash'']"
| "codec_encode W (ReverseHold amountCents reason eventIdHash) =
     [w_u64 amountCents ''amountCents'', w_u8 reason ''reason'', w_fixed eventIdHash 32 ''eventIdHash'']"
| "codec_encode W (RefundHold amountCents eventIdHash) = [w_u64 amountCents ''amountCents'', w_fixed eventIdHash 32 ''eventIdHash'']"
| "codec_encode W (RecordDispute state eventIdHash) = [w_u8 state ''state'', w_fixed eventIdHash 32 ''eventIdHash'']"
| "codec_encode W (RecordException kind amountCents eventIdHash) =
     [w_u8 kind ''kind'', w_u64 amountCents ''amountCents'', w_fixed eventIdHash 32 ''eventIdHash'']"
| "codec_encode W (ResolveException eventIdHash resolution) = [w_fixed eventIdHash 32 ''eventIdHash'', w_u8 resolution ''resolution'']"
| "codec_encode W RollPeriod = []"
| "codec_encode W (Freeze reason) = [w_u8 reason ''reason'']"
| "codec_encode W Unfreeze = []"
| "codec_encode W (RecoveryFreeze reason) = [w_u8 reason ''reason'']"
| "codec_encode W (Restore s) =
     [writePolicy W (ra_policy s), w_u32 (ra_periodIndex s) ''periodIndex'', w_u64 (ra_capturedCents s) ''capturedCents'',
      w_u64 (ra_reservedCents s) ''reservedCents'', w_u64 (ra_refundedCents s) ''refundedCents'',
      w_u16 (ra_purchasesCount s) ''purchasesCount'', w_u64 (ra_exceptionCents s) ''exceptionCents'',
      w_u64 (ra_statementOutstandingCents s) ''statementOutstandingCents'', w_fixed (ra_ledgerHead s) 32 ''ledgerHead'',
      w_u64 (ra_ledgerSeq s) ''ledgerSeq'', w_fixed (ra_reconDigest s) 32 ''reconDigest'']"
| "codec_encode W (ConfirmReconciled reconDigest) = [w_fixed reconDigest 32 ''reconDigest'']"
| "codec_encode W (Checkpoint masterSalt seq) = [w_fixed masterSalt 32 ''masterSalt'', w_u64 seq ''seq'']"
| "codec_encode W (WriteCommitment root seq policyVersion periodIndex) =
     [w_fixed root 32 ''root'', w_u64 seq ''seq'', w_u32 policyVersion ''policyVersion'', w_u32 periodIndex ''periodIndex'']"
| "codec_encode W WipeCard = []"
| "codec_encode W CloseCard = []"
| "codec_encode W (RecordRepayment statementDigest amountCents) =
     [w_fixed statementDigest 32 ''statementDigest'', w_u64 amountCents ''amountCents'']"
| "codec_encode W CloseReservation = []"
| "codec_encode W (RepayStatement statementDigest amount) =
     [w_fixed statementDigest 32 ''statementDigest'', w_u64 amount ''amount'']"
| "codec_encode W (RecordPrivateRepayment statementDigest amountCents) =
     [w_fixed statementDigest 32 ''statementDigest'', w_u64 amountCents ''amountCents'']"

fun permission_op :: "int \<Rightarrow> address \<Rightarrow> PermissionOp" where
  "permission_op tag pubkey = (if tag = 0 then AddReader pubkey else RemoveReader pubkey)"

definition codec_decoders :: "web3 \<Rightarrow> (string \<times> CardInstruction read) list" where
  "codec_decoders W =
     [(''initCard'',
        bind_read (r_fixed 32 ''cardId'') (\<lambda>cardId. bind_read (r_u8 ''issuer'') (\<lambda>issuer.
        bind_read (r_fixed 32 ''issuerCardRefHash'') (\<lambda>refHash. bind_read (r_u64 ''prefundLamports'') (\<lambda>prefund.
        ret_read (InitCard cardId issuer refHash prefund)))))),
      (''delegateCard'', bind_read (r_pubkey W ''validator'') (\<lambda>validator. ret_read (DelegateCard validator))),
      (''initPermission'', bind_read (r_pubkey W ''authorizer'') (\<lambda>authorizer. ret_read (InitPermission authorizer))),
      (''updatePermission'',
        bind_read (r_u8 ''op'') (\<lambda>tag.
        bind_read (fail_unless (num_val tag \<le> 1) (''Unknown permission op '' @ int_dec (num_val tag))) (\<lambda>_.
        bind_read (r_pubkey W ''op.pubkey'') (\<lambda>pubkey.
        ret_read (UpdatePermission (permission_op (num_val tag) pubkey)))))),
      (''syncPermission'', ret_read SyncPermission),
      (''setPolicy'', bind_read (readPolicy W) (\<lambda>policy. ret_read (SetPolicy policy))),
      (''openCheckoutIntent'',
        bind_read (r_fixed 16 ''intentId'') (\<lambda>intentId. bind_read (r_pubkey W ''agent'') (\<lambda>agent.
        bind_read (r_fixed 32 ''merchantIdHash'') (\<lambda>merchantIdHash. bind_read (r_u16 ''mcc'') (\<lambda>mcc.
        bind_read (r_u64 ''maxAmountCents'') (\<lambda>maxAmountCents. bind_read r_code (\<lambda>currency.
        bind_read (r_i64 ''expiresAt'') (\<lambda>expiresAt.
        ret_read (OpenCheckoutIntent intentId agent merchantIdHash mcc maxAmountCents currency expiresAt))))))))),
      (''cancelCheckoutIntent'', ret_read CancelCheckoutIntent),
      (''closeCheckoutIntent'', ret_read CloseCheckoutIntent),
      (''authorize'',
        bind_read (r_fixed 32 ''authIdHash'') (\<lambda>authId. bind_read (r_fixed 16 ''intentId'') (\<lambda>intentId.
        bind_read (r_u64 ''amountCents'') (\<lambda>amountCents. bind_read r_code (\<lambda>currency.
        bind_read (r_fixed 32 ''merchantIdHash'') (\<lambda>merchantIdHash. bind_read (r_u16 ''mcc'') (\<lambda>mcc.
        bind_read (r_bool ''merchantInitiated'') (\<lambda>merchantInitiated.
        bind_read (r_bool ''singleMessage'') (\<lambda>singleMessage.
        ret_read (Authorize authId intentId amountCents currency merchantIdHash mcc merchantInitiated singleMessage)))))))))),
      (''adjustReservation'', bind_read (r_u64 ''newAmountCents'') (\<lambda>n. ret_read (AdjustReservation n))),
      (''capture'',
        bind_read (r_u64 ''amountCents'') (\<lambda>amountCents. bind_read (r_fixed 32 ''captureIdHash'') (\<lambda>captureIdHash.
        ret_read (Capture amountCents captureIdHash)))),
      (''reverse'',
        bind_read (r_u64 ''amountCents'') (\<lambda>amountCents. bind_read (r_u8 ''reason'') (\<lambda>reason.
        bind_read (r_fixed 32 ''eventIdHash'') (\<lambda>eventIdHash. ret_read (ReverseHold amountCents reason eventIdHash))))),
      (''refund'',
        bind_read (r_u64 ''amountCents'') (\<lambda>amountCents. bind_read (r_fixed 32 ''eventIdHash'') (\<lambda>eventIdHash.
        ret_read (RefundHold amountCents eventIdHash)))),
      (''recordDispute'',
        bind_read (r_u8 ''state'') (\<lambda>state. bind_read (r_fixed 32 ''eventIdHash'') (\<lambda>eventIdHash.
        ret_read (RecordDispute state eventIdHash)))),
      (''recordException'',
        bind_read (r_u8 ''kind'') (\<lambda>kind. bind_read (r_u64 ''amountCents'') (\<lambda>amountCents.
        bind_read (r_fixed 32 ''eventIdHash'') (\<lambda>eventIdHash. ret_read (RecordException kind amountCents eventIdHash))))),
      (''resolveException'',
        bind_read (r_fixed 32 ''eventIdHash'') (\<lambda>eventIdHash. bind_read (r_u8 ''resolution'') (\<lambda>resolution.
        ret_read (ResolveException eventIdHash resolution)))),
      (''rollPeriod'', ret_read RollPeriod),
      (''freeze'', bind_read (r_u8 ''reason'') (\<lambda>reason. ret_read (Freeze reason))),
      (''unfreeze'', ret_read Unfreeze),
      (''recoveryFreeze'', bind_read (r_u8 ''reason'') (\<lambda>reason. ret_read (RecoveryFreeze reason))),
      (''restore'',
        bind_read (readPolicy W) (\<lambda>policy. bind_read (r_u32 ''periodIndex'') (\<lambda>periodIndex.
        bind_read (r_u64 ''capturedCents'') (\<lambda>capturedCents. bind_read (r_u64 ''reservedCents'') (\<lambda>reservedCents.
        bind_read (r_u64 ''refundedCents'') (\<lambda>refundedCents. bind_read (r_u16 ''purchasesCount'') (\<lambda>purchasesCount.
        bind_read (r_u64 ''exceptionCents'') (\<lambda>exceptionCents.
        bind_read (r_u64 ''statementOutstandingCents'') (\<lambda>outstanding.
        bind_read (r_fixed 32 ''ledgerHead'') (\<lambda>ledgerHead. bind_read (r_u64 ''ledgerSeq'') (\<lambda>ledgerSeq.
        bind_read (r_fixed 32 ''reconDigest'') (\<lambda>reconDigest.
        ret_read (Restore \<lparr>ra_policy = policy, ra_periodIndex = periodIndex, ra_capturedCents = capturedCents,
          ra_reservedCents = reservedCents, ra_refundedCents = refundedCents, ra_purchasesCount = purchasesCount,
          ra_exceptionCents = exceptionCents, ra_statementOutstandingCents = outstanding, ra_ledgerHead = ledgerHead,
          ra_ledgerSeq = ledgerSeq, ra_reconDigest = reconDigest\<rparr>))))))))))))),
      (''confirmReconciled'', bind_read (r_fixed 32 ''reconDigest'') (\<lambda>d. ret_read (ConfirmReconciled d))),
      (''checkpoint'',
        bind_read (r_fixed 32 ''masterSalt'') (\<lambda>masterSalt. bind_read (r_u64 ''seq'') (\<lambda>seq.
        ret_read (Checkpoint masterSalt seq)))),
      (''writeCommitment'',
        bind_read (r_fixed 32 ''root'') (\<lambda>root. bind_read (r_u64 ''seq'') (\<lambda>seq.
        bind_read (r_u32 ''policyVersion'') (\<lambda>policyVersion. bind_read (r_u32 ''periodIndex'') (\<lambda>periodIndex.
        ret_read (WriteCommitment root seq policyVersion periodIndex)))))),
      (''wipeCard'', ret_read WipeCard),
      (''closeCard'', ret_read CloseCard),
      (''closeReservation'', ret_read CloseReservation),
      (''recordRepayment'',
        bind_read (r_fixed 32 ''statementDigest'') (\<lambda>statementDigest. bind_read (r_u64 ''amountCents'') (\<lambda>amountCents.
        ret_read (RecordRepayment statementDigest amountCents)))),
      (''repayStatement'',
        bind_read (r_fixed 32 ''statementDigest'') (\<lambda>statementDigest. bind_read (r_u64 ''amount'') (\<lambda>amount.
        ret_read (RepayStatement statementDigest amount)))),
      (''recordPrivateRepayment'',
        bind_read (r_fixed 32 ''statementDigest'') (\<lambda>statementDigest. bind_read (r_u64 ''amountCents'') (\<lambda>amountCents.
        ret_read (RecordPrivateRepayment statementDigest amountCents))))]"

text \<open>The tables have an entry for every name; a name without one is a \<open>TypeError\<close>.\<close>

definition codec_decode :: "web3 \<Rightarrow> string \<Rightarrow> CardInstruction read" where
  "codec_decode W name = (case map_of (codec_decoders W) name of
     Some d \<Rightarrow> d | None \<Rightarrow> (\<lambda>r. Inl ''TypeError''))"

definition encodeCardInstructionData :: "web3 \<Rightarrow> CardInstruction \<Rightarrow> bytes result" where
  "encodeCardInstructionData W ix =
     toBytes (fetch (map_of CARD_POLICY_DISCRIMINATORS (instruction_name ix)) ''TypeError'' # codec_encode W ix)"

fun decode_loop :: "web3 \<Rightarrow> bytes \<Rightarrow> (string \<times> bytes) list \<Rightarrow> CardInstruction result" where
  "decode_loop W data [] = Inl ''Unknown card_policy instruction discriminator''"
| "decode_loop W data ((name, disc) # rest) =
     (if list_all (\<lambda>(i, byte). data ! i = byte) (enumerate 0 disc)
      then bindR (codec_decode W name \<lparr>rd_data = data, rd_offset = 8\<rparr>) (\<lambda>(args, r).
        if remaining r \<noteq> 0 then Inl (name @ '' has '' @ int_dec (remaining r) @ '' unexpected trailing bytes'')
        else Inr args)
      else decode_loop W data rest)"

definition decodeCardInstructionData :: "web3 \<Rightarrow> bytes \<Rightarrow> CardInstruction result" where
  "decodeCardInstructionData W data =
     (if length data < 8 then Inl ''Instruction data is truncated'' else decode_loop W data CARD_POLICY_DISCRIMINATORS)"

end
