(* ===== verification/CardBuilders.thy ===== *)
theory CardBuilders
  imports CardInstructions
begin

text \<open>
  The client-side mirror of the card program's policy check (\<open>policyArgsProblems\<close>), the check itself
  (\<open>programs/card_policy/src/policy.rs\<close>) and the owner-signed instruction builders of
  \<open>sdk/src/cards/instructions.ts\<close>.
\<close>

section \<open>The mirror\<close>

text \<open>
  \<open>x < k\<close> for a number \<open>x\<close>; \<open>frac_less\<close> is the comparison on the numbers that are not integers.
\<close>

fun num_less :: "(string \<Rightarrow> int \<Rightarrow> bool) \<Rightarrow> jsnum \<Rightarrow> int \<Rightarrow> bool" where
  "num_less frac_less (NInt v) k = (v < k)"
| "num_less frac_less (NonInt t) k = frac_less t k"

text \<open>\<open>parts.join(sep)\<close> and \<open>Array.from(hash).join(",")\<close>\<close>

fun join_with :: "string \<Rightarrow> string list \<Rightarrow> string" where
  "join_with sep [] = []"
| "join_with sep [x] = x"
| "join_with sep (x # y # xs) = x @ sep @ join_with sep (y # xs)"

definition hash_text :: "bytes \<Rightarrow> string" where
  "hash_text hash = join_with '','' (map (\<lambda>b. nat_dec (unat b)) hash)"

definition problem :: "bool \<Rightarrow> string \<Rightarrow> string list" where
  "problem c message = (if c then [message] else [])"

definition policyArgsProblems :: "(string \<Rightarrow> int \<Rightarrow> bool) \<Rightarrow> PolicyArgs \<Rightarrow> string list" where
  "policyArgsProblems frac_less p =
     problem (pa_maxPurchaseCents p \<le> 0) ''Max purchase must be more than $0.''
     @ problem (pa_maxPurchaseCents p > pa_budgetCents p) ''Max purchase can't be more than the budget.''
     @ problem (pa_budgetCents p > MAX_BUDGET_CENTS) ''Budget can't be more than $10,000 in the sandbox.''
     @ problem (num_less frac_less (pa_periodSeconds p) MIN_PERIOD_SECONDS) ''A period must be at least one day.''
     @ problem (pa_currency p \<noteq> ''USD'') ''Cards only spend USD.''
     @ problem (\<not> num_in 0 MAX_FEE_BPS (pa_feeBps p)) ''Fee can't be more than 10%.''
     @ problem (length (pa_merchantIdHashes p) = 0 \<and> length (pa_mccs p) = 0) ''Pick at least one shop or merchant category.''
     @ problem (length (pa_merchantIdHashes p) > MAX_MERCHANTS) ''At most 8 shops.''
     @ problem (length (pa_mccs p) > MAX_MCCS) ''At most 16 merchant categories.''
     @ problem (card (set (map hash_text (pa_merchantIdHashes p))) \<noteq> length (pa_merchantIdHashes p)) ''A shop is listed twice.''
     @ problem (card (set (pa_mccs p)) \<noteq> length (pa_mccs p)) ''A merchant category is listed twice.''"

section \<open>The program's check\<close>

record ProgramPolicyArgs =
  pp_budget_cents :: "64 word"
  pp_max_purchase_cents :: "64 word"
  pp_max_purchases_per_period :: "16 word"
  pp_period_seconds :: "32 word"
  pp_currency :: bytes
  pp_merchant_id_hashes :: "bytes list"
  pp_mccs :: "16 word list"
  pp_expires_at :: "64 word"
  pp_recurring_allowed :: bool
  pp_fee_bps :: "16 word"
  pp_authorizer :: bytes

datatype CardPolicyError = InvalidPolicy

fun has_duplicates :: "'a list \<Rightarrow> bool" where
  "has_duplicates items = list_ex (\<lambda>i. items ! i \<in> set (take i items)) [0..<length items]"

definition validate_policy_args :: "ProgramPolicyArgs \<Rightarrow> bytes \<Rightarrow> int \<Rightarrow> CardPolicyError + unit" where
  "validate_policy_args args owner now =
     bindR (require (pp_max_purchase_cents args > 0) InvalidPolicy) (\<lambda>_.
     bindR (require (pp_max_purchase_cents args \<le> pp_budget_cents args) InvalidPolicy) (\<lambda>_.
     bindR (require (pp_budget_cents args \<le> 1000000) InvalidPolicy) (\<lambda>_.
     bindR (require (pp_period_seconds args \<ge> 86400) InvalidPolicy) (\<lambda>_.
     bindR (require (pp_currency args = str_bytes ''USD'') InvalidPolicy) (\<lambda>_.
     bindR (require (pp_fee_bps args \<le> 1000) InvalidPolicy) (\<lambda>_.
     bindR (require (length (pp_merchant_id_hashes args) \<le> 8 \<and> length (pp_mccs args) \<le> 16) InvalidPolicy) (\<lambda>_.
     bindR (require (pp_merchant_id_hashes args \<noteq> [] \<or> pp_mccs args \<noteq> []) InvalidPolicy) (\<lambda>_.
     bindR (require (\<not> has_duplicates (pp_merchant_id_hashes args) \<and> \<not> has_duplicates (pp_mccs args)) InvalidPolicy) (\<lambda>_.
     bindR (require (replicate 32 0 \<notin> set (pp_merchant_id_hashes args) \<and> 0 \<notin> set (pp_mccs args)) InvalidPolicy) (\<lambda>_.
     bindR (require (pp_expires_at args = 0 \<or> sint (pp_expires_at args) > now) InvalidPolicy) (\<lambda>_.
     bindR (require (pp_authorizer args \<noteq> replicate 32 0 \<and> pp_authorizer args \<noteq> owner) InvalidPolicy) (\<lambda>_.
     Inr ()))))))))))))"

text \<open>The arguments the program's deserializer makes of the bytes \<open>writePolicy\<close> pushes.\<close>

definition program_args :: "PolicyArgs \<Rightarrow> bytes \<Rightarrow> ProgramPolicyArgs" where
  "program_args p authorizer =
     \<lparr>pp_budget_cents = word_of_int (pa_budgetCents p), pp_max_purchase_cents = word_of_int (pa_maxPurchaseCents p),
      pp_max_purchases_per_period = word_of_int (num_val (pa_maxPurchasesPerPeriod p)),
      pp_period_seconds = word_of_int (num_val (pa_periodSeconds p)),
      pp_currency = (if pa_currency p = '''' then replicate 3 0 else str_bytes (pa_currency p)),
      pp_merchant_id_hashes = pa_merchantIdHashes p, pp_mccs = map (\<lambda>m. word_of_int (num_val m)) (pa_mccs p),
      pp_expires_at = word_of_int (pa_expiresAt p), pp_recurring_allowed = pa_recurringAllowed p,
      pp_fee_bps = word_of_int (num_val (pa_feeBps p)), pp_authorizer = authorizer\<rparr>"

section \<open>Owner-signed builders\<close>

text \<open>The account list is evaluated before the call, then the program id and the data inside it.\<close>

definition build :: "web3 \<Rightarrow> string \<Rightarrow> address option \<Rightarrow> AccountMeta result list \<Rightarrow> CardInstruction \<Rightarrow> ChainPayInstruction result" where
  "build W snake programId keys ix =
     bindR (mapR (\<lambda>k. k) keys) (\<lambda>ks. bindR (resolveCardPolicyProgramId programId) (\<lambda>p.
     instruction W snake p (map Inr ks) (encodeCardInstructionData W ix)))"

definition ownerEventKeys :: "web3 \<Rightarrow> address \<Rightarrow> CardAccountSet \<Rightarrow> AccountMeta result list" where
  "ownerEventKeys W owner a = [meta W owner False True, meta W (ac_policy a) True False, meta W (ac_period a) True False]"

definition buildInitCardInstruction ::
  "web3 \<Rightarrow> address \<Rightarrow> bytes \<Rightarrow> jsnum \<Rightarrow> bytes \<Rightarrow> int \<Rightarrow> address option \<Rightarrow> ChainPayInstruction result" where
  "buildInitCardInstruction W owner cardId issuer refHash prefundLamports programId =
     bindR (deriveCardAccounts W owner cardId programId) (\<lambda>a.
     build W ''init_card'' programId
       [meta W owner True True, meta W (ac_binding a) True False, meta W (ac_policy a) True False, meta W (ac_period a) True False,
        meta W (ac_commitment a) True False, meta W SYSTEM_PROGRAM_ID False False]
       (InitCard cardId issuer refHash prefundLamports))"

definition delegated :: "web3 \<Rightarrow> address \<Rightarrow> address \<Rightarrow> AccountMeta result list" where
  "delegated W programId account =
     [bindR (deriveDelegationBufferAddress W account (Some programId)) (\<lambda>x. meta W x True False),
      bindR (deriveDelegationRecordAddress W account) (\<lambda>x. meta W x True False),
      bindR (deriveDelegationMetadataAddress W account) (\<lambda>x. meta W x True False),
      meta W account True False]"

definition buildDelegateCardInstruction ::
  "web3 \<Rightarrow> address \<Rightarrow> bytes \<Rightarrow> address \<Rightarrow> address option \<Rightarrow> ChainPayInstruction result" where
  "buildDelegateCardInstruction W owner cardId validator programId =
     bindR (require (validator \<in> set TEE_VALIDATOR_ALLOWLIST) ''Validator is not an allowed TEE validator'') (\<lambda>_.
     bindR (resolveCardPolicyProgramId programId) (\<lambda>pid.
     bindR (deriveCardAccounts W owner cardId (Some pid)) (\<lambda>a.
     build W ''delegate_card'' (Some pid)
       ([meta W owner True True, meta W (ac_binding a) False False]
        @ delegated W pid (ac_policy a) @ delegated W pid (ac_period a)
        @ [meta W pid False False, meta W DELEGATION_PROGRAM_ID False False, meta W SYSTEM_PROGRAM_ID False False])
       (DelegateCard validator))))"

definition permissionKeys :: "web3 \<Rightarrow> address \<Rightarrow> bytes \<Rightarrow> address option \<Rightarrow> AccountMeta list result" where
  "permissionKeys W owner cardId programId =
     bindR (deriveCardAccounts W owner cardId programId) (\<lambda>a.
     mapR (\<lambda>k. k) [meta W owner False True, meta W (ac_policy a) True False, meta W (ac_period a) True False,
       meta W (ac_policyPermission a) True False, meta W (ac_periodPermission a) True False,
       meta W EPHEMERAL_VAULT_ID True False, meta W MAGIC_PROGRAM_ID False False, meta W PERMISSION_PROGRAM_ID False False])"

definition buildInitPermissionInstruction ::
  "web3 \<Rightarrow> address \<Rightarrow> bytes \<Rightarrow> address \<Rightarrow> address option \<Rightarrow> ChainPayInstruction result" where
  "buildInitPermissionInstruction W owner cardId authorizer programId =
     bindR (permissionKeys W owner cardId programId) (\<lambda>ks.
     build W ''init_permission'' programId (map Inr ks) (InitPermission authorizer))"

definition ephemeralPairs :: "web3 \<Rightarrow> address list option \<Rightarrow> AccountMeta result list" where
  "ephemeralPairs W accounts =
     concat (map (\<lambda>account. [meta W account True False, bindR (derivePermissionAddress W account) (\<lambda>x. meta W x True False)])
       (case accounts of Some xs \<Rightarrow> xs | None \<Rightarrow> []))"

definition buildUpdatePermissionInstruction ::
  "web3 \<Rightarrow> address \<Rightarrow> bytes \<Rightarrow> PermissionOp \<Rightarrow> address list option \<Rightarrow> address option \<Rightarrow> ChainPayInstruction result" where
  "buildUpdatePermissionInstruction W owner cardId op ephemeralAccounts programId =
     bindR (permissionKeys W owner cardId programId) (\<lambda>ks.
     build W ''update_permission'' programId (map Inr ks @ ephemeralPairs W ephemeralAccounts) (UpdatePermission op))"

definition buildSetPolicyInstruction ::
  "web3 \<Rightarrow> (string \<Rightarrow> int \<Rightarrow> bool) \<Rightarrow> address \<Rightarrow> bytes \<Rightarrow> PolicyArgs \<Rightarrow> address option \<Rightarrow> address option \<Rightarrow> ChainPayInstruction result" where
  "buildSetPolicyInstruction W frac_less owner cardId policy coSigner programId =
     (let problems = policyArgsProblems frac_less policy
        @ problem (pa_authorizer policy = owner) ''The authorizer can't be the owner.''
        @ problem (coSigner = Some owner) ''The co-signer must be ChainPay's authorizer, not the owner.'' in
      bindR (require (problems = []) (join_with '' '' problems)) (\<lambda>_.
      bindR (permissionKeys W owner cardId programId) (\<lambda>ks.
      build W ''set_policy'' programId
        (map Inr ks @ (case coSigner of Some s \<Rightarrow> [meta W s False True] | None \<Rightarrow> [])) (SetPolicy policy))))"

definition buildFreezeInstruction ::
  "web3 \<Rightarrow> address \<Rightarrow> bytes \<Rightarrow> address option \<Rightarrow> jsnum option \<Rightarrow> address option \<Rightarrow> ChainPayInstruction result" where
  "buildFreezeInstruction W owner cardId signer reason programId =
     bindR (deriveCardAccounts W owner cardId programId) (\<lambda>a.
     build W ''freeze'' programId
       [meta W (case signer of Some s \<Rightarrow> s | None \<Rightarrow> owner) False True, meta W (ac_policy a) True False, meta W (ac_period a) False False]
       (Freeze (case reason of Some r \<Rightarrow> r | None \<Rightarrow> NInt 1)))"

definition buildUnfreezeInstruction :: "web3 \<Rightarrow> address \<Rightarrow> bytes \<Rightarrow> address option \<Rightarrow> ChainPayInstruction result" where
  "buildUnfreezeInstruction W owner cardId programId =
     bindR (deriveCardAccounts W owner cardId programId) (\<lambda>a. build W ''unfreeze'' programId (ownerEventKeys W owner a) Unfreeze)"

definition buildResolveExceptionInstruction ::
  "web3 \<Rightarrow> address \<Rightarrow> bytes \<Rightarrow> bytes \<Rightarrow> jsnum \<Rightarrow> address option \<Rightarrow> ChainPayInstruction result" where
  "buildResolveExceptionInstruction W owner cardId eventIdHash resolution programId =
     bindR (deriveCardAccounts W owner cardId programId) (\<lambda>a.
     build W ''resolve_exception'' programId (ownerEventKeys W owner a) (ResolveException eventIdHash resolution))"

definition buildCancelCheckoutIntentInstruction ::
  "web3 \<Rightarrow> address \<Rightarrow> bytes \<Rightarrow> bytes \<Rightarrow> address option \<Rightarrow> address option \<Rightarrow> ChainPayInstruction result" where
  "buildCancelCheckoutIntentInstruction W owner cardId intentId signer programId =
     bindR (deriveCardAccounts W owner cardId programId) (\<lambda>a.
     build W ''cancel_checkout_intent'' programId
       [meta W (case signer of Some s \<Rightarrow> s | None \<Rightarrow> owner) False True, meta W (ac_policy a) False False,
        bindR (deriveCheckoutIntentAddress W (ac_policy a) intentId programId) (\<lambda>x. meta W x True False)]
       CancelCheckoutIntent)"

definition buildRestoreInstruction ::
  "web3 \<Rightarrow> address \<Rightarrow> bytes \<Rightarrow> address \<Rightarrow> RestoreArgs \<Rightarrow> address option \<Rightarrow> ChainPayInstruction result" where
  "buildRestoreInstruction W owner cardId authorizer restore programId =
     bindR (require (authorizer \<noteq> owner) ''The authorizer can't be the owner'') (\<lambda>_.
     bindR (deriveCardAccounts W owner cardId programId) (\<lambda>a.
     build W ''restore'' programId
       [meta W owner False True, meta W authorizer False True, meta W (ac_policy a) True False, meta W (ac_period a) True False]
       (Restore restore)))"

definition buildCloseCheckoutIntentInstruction ::
  "web3 \<Rightarrow> address \<Rightarrow> bytes \<Rightarrow> bytes \<Rightarrow> address option \<Rightarrow> address option \<Rightarrow> ChainPayInstruction result" where
  "buildCloseCheckoutIntentInstruction W owner cardId intentId signer programId =
     bindR (deriveCardAccounts W owner cardId programId) (\<lambda>a.
     bindR (deriveCheckoutIntentAddress W (ac_policy a) intentId programId) (\<lambda>intent.
     build W ''close_checkout_intent'' programId
       [meta W (case signer of Some s \<Rightarrow> s | None \<Rightarrow> owner) False True, meta W (ac_policy a) True False, meta W intent True False,
        bindR (derivePermissionAddress W intent) (\<lambda>x. meta W x True False), meta W EPHEMERAL_VAULT_ID True False,
        meta W MAGIC_PROGRAM_ID False False, meta W PERMISSION_PROGRAM_ID False False]
       CloseCheckoutIntent))"

record RepayStatementInput =
  rp_owner :: address
  rp_cardId :: bytes
  rp_mandate :: address
  rp_mint :: address
  rp_sourceTokenAccount :: address
  rp_recipientTokenAccount :: address
  rp_statementDigest :: bytes
  rp_amount :: int
  rp_tokenProgram :: "address option"
  rp_chainpayProgramId :: "address option"

definition buildRepayStatementInstruction ::
  "web3 \<Rightarrow> RepayStatementInput \<Rightarrow> address option \<Rightarrow> (ChainPayInstruction \<times> address \<times> address) result" where
  "buildRepayStatementInstruction W input programId =
     bindR (require (rp_amount input > 0) ''Repayment amount must be positive'') (\<lambda>_.
     bindR (resolveCardPolicyProgramId programId) (\<lambda>pid.
     let chainpay = (case rp_chainpayProgramId input of Some p \<Rightarrow> p | None \<Rightarrow> DEFAULT_PROGRAM_ID) in
     bindR (deriveCardAccounts W (rp_owner input) (rp_cardId input) (Some pid)) (\<lambda>a.
     bindR (deriveRepayAgentAddress W (ac_binding a) (Some pid)) (\<lambda>repayAgent.
     bindR (deriveReceiptAddress W (rp_mandate input) (rp_statementDigest input) chainpay) (\<lambda>receipt.
     bindR (build W ''repay_statement'' (Some pid)
       [meta W (rp_owner input) True True, meta W (ac_binding a) False False, meta W repayAgent True False,
        bindR (deriveConfigAddress W chainpay) (\<lambda>x. meta W x False False),
        bindR (deriveAssetAddress W (rp_mint input) chainpay) (\<lambda>x. meta W x False False),
        meta W (rp_mandate input) True False, meta W receipt True False, meta W (rp_mint input) False False,
        meta W (rp_sourceTokenAccount input) True False, meta W (rp_recipientTokenAccount input) True False,
        meta W (case rp_tokenProgram input of Some t \<Rightarrow> t | None \<Rightarrow> SPL_TOKEN_PROGRAM_ID) False False,
        meta W SYSTEM_PROGRAM_ID False False, meta W chainpay False False]
       (RepayStatement (rp_statementDigest input) (rp_amount input))) (\<lambda>ix.
     Inr (ix, receipt, repayAgent)))))))"

definition buildConfirmReconciledInstruction ::
  "web3 \<Rightarrow> address \<Rightarrow> bytes \<Rightarrow> bytes \<Rightarrow> address option \<Rightarrow> ChainPayInstruction result" where
  "buildConfirmReconciledInstruction W owner cardId reconDigest programId =
     bindR (deriveCardAccounts W owner cardId programId) (\<lambda>a.
     build W ''confirm_reconciled'' programId (ownerEventKeys W owner a) (ConfirmReconciled reconDigest))"

definition buildCloseReservationInstruction ::
  "web3 \<Rightarrow> address \<Rightarrow> bytes \<Rightarrow> bytes \<Rightarrow> address option \<Rightarrow> address option \<Rightarrow> ChainPayInstruction result" where
  "buildCloseReservationInstruction W owner cardId authId signer programId =
     bindR (deriveCardAccounts W owner cardId programId) (\<lambda>a.
     bindR (deriveReservationAddress W (ac_policy a) authId programId) (\<lambda>reservation.
     bindR (deriveAuthGuardAddress W (ac_policy a) programId) (\<lambda>guard.
     build W ''close_reservation'' programId
       [meta W (case signer of Some s \<Rightarrow> s | None \<Rightarrow> owner) False True, meta W (ac_policy a) True False, meta W (ac_period a) False False,
        meta W reservation True False, bindR (derivePermissionAddress W reservation) (\<lambda>x. meta W x True False),
        meta W guard True False, bindR (derivePermissionAddress W guard) (\<lambda>x. meta W x True False),
        meta W EPHEMERAL_VAULT_ID True False, meta W MAGIC_PROGRAM_ID False False, meta W PERMISSION_PROGRAM_ID False False]
       CloseReservation)))"

definition buildWipeCardInstruction ::
  "web3 \<Rightarrow> address \<Rightarrow> bytes \<Rightarrow> address list option \<Rightarrow> address option \<Rightarrow> ChainPayInstruction result" where
  "buildWipeCardInstruction W owner cardId ephemeralAccounts programId =
     bindR (deriveCardAccounts W owner cardId programId) (\<lambda>a.
     bindR (mapR (\<lambda>k. k) (ephemeralPairs W ephemeralAccounts)) (\<lambda>remaining.
     build W ''wipe_card'' programId
       ([meta W owner True True, meta W (ac_policy a) True False, meta W (ac_period a) True False,
         meta W (ac_policyPermission a) True False, meta W (ac_periodPermission a) True False,
         meta W EPHEMERAL_VAULT_ID True False, meta W MAGIC_CONTEXT_ID True False, meta W MAGIC_PROGRAM_ID False False,
         meta W PERMISSION_PROGRAM_ID False False] @ map Inr remaining)
       WipeCard))"

definition buildCloseCardInstruction :: "web3 \<Rightarrow> address \<Rightarrow> bytes \<Rightarrow> address option \<Rightarrow> ChainPayInstruction result" where
  "buildCloseCardInstruction W owner cardId programId =
     bindR (deriveCardAccounts W owner cardId programId) (\<lambda>a.
     build W ''close_card'' programId
       [meta W owner True True, meta W (ac_binding a) True False, meta W (ac_policy a) True False, meta W (ac_period a) True False]
       CloseCard)"

definition buildWriteCommitmentInstruction ::
  "web3 \<Rightarrow> address \<Rightarrow> bytes \<Rightarrow> bytes \<Rightarrow> int \<Rightarrow> jsnum \<Rightarrow> jsnum \<Rightarrow> address option \<Rightarrow> ChainPayInstruction result" where
  "buildWriteCommitmentInstruction W owner cardId root seq policyVersion periodIndex programId =
     bindR (resolveCardPolicyProgramId programId) (\<lambda>pid.
     bindR (deriveCardAccounts W owner cardId (Some pid)) (\<lambda>a.
     build W ''write_commitment'' (Some pid)
       [meta W (ac_commitment a) True False, meta W (ac_binding a) False False, meta W pid False False,
        meta W (ac_policy a) False False, meta W (ac_escrow a) False True]
       (WriteCommitment root seq policyVersion periodIndex)))"

section \<open>Mirror and program agree\<close>

lemma problem_Nil [simp]: "problem c m = [] \<longleftrightarrow> \<not> c"
  by (simp add: problem_def)

lemma has_duplicates_iff: "has_duplicates xs \<longleftrightarrow> \<not> distinct xs"
  unfolding has_duplicates.simps list_ex_iff set_upt
proof (induction xs rule: rev_induct)
  case (snoc x xs)
  have "(\<exists>i \<in> {0..<length (xs @ [x])}. (xs @ [x]) ! i \<in> set (take i (xs @ [x]))) \<longleftrightarrow>
        (\<exists>i \<in> {0..<length xs}. xs ! i \<in> set (take i xs)) \<or> x \<in> set xs"
    by (auto simp: atLeast0_lessThan_Suc nth_append)
  with snoc show ?case by auto
qed simp

lemma span_digits:
  assumes "is_digits s" and "is_digits t" and "s @ CHR '','' # xs = t @ CHR '','' # ys"
  shows "s = t \<and> xs = ys"
proof -
  have "takeWhile is_digit (u @ CHR '','' # zs) = u" if "is_digits u" for u zs
    using that by (simp add: is_digits_def takeWhile_tail list_all_iff is_digit_def)
  from this [OF assms(1), of xs] this [OF assms(2), of ys] assms(3) have "s = t" by simp
  with assms(3) show ?thesis by simp
qed

lemma hash_text_inject: "length g = length h \<Longrightarrow> hash_text g = hash_text h \<Longrightarrow> g = h"
proof (induction g h rule: list_induct2)
  case (Cons a g b h)
  show ?case
  proof (cases g)
    case Nil
    with Cons show ?thesis by (auto simp: hash_text_def nat_dec_inject dest: unsigned_word_eqI)
  next
    case (Cons c g')
    then obtain d h' where h: "h = d # h'" using Cons.hyps by (cases h) auto
    have "nat_dec (unat a) @ CHR '','' # hash_text g = nat_dec (unat b) @ CHR '','' # hash_text h"
      using Cons.prems Cons h by (simp add: hash_text_def)
    from span_digits [OF _ _ this] Cons.IH show ?thesis by (auto simp: nat_dec_inject dest: unsigned_word_eqI)
  qed
qed simp

lemma hashes_distinct:
  assumes "\<forall>h \<in> set hs. length h = n"
  shows "card (set (map hash_text hs)) = length hs \<longleftrightarrow> distinct hs"
proof -
  have "inj_on hash_text (set hs)" by (rule inj_onI) (use assms hash_text_inject in auto)
  then have "card (set (map hash_text hs)) = card (set hs)" by (simp add: card_image)
  then show ?thesis using distinct_card card_distinct by metis
qed

lemma toBytes_each: "toBytes (map f is) = Inr b \<Longrightarrow> i \<in> set is \<Longrightarrow> \<exists>c. f i = Inr c"
  by (induction "is" arbitrary: b) (auto simp: toBytes_eq_Inr_Cons)

text \<open>What a successful write says of the value.\<close>

lemma write_bounds:
  "w_u64 v nm = Inr b \<Longrightarrow> u64_ok v" "w_i64 v nm = Inr b \<Longrightarrow> i64_ok v" "w_fixed h n nm = Inr b \<Longrightarrow> length h = n"
  "w_u16 x nm = Inr b \<Longrightarrow> \<exists>k. x = NInt k \<and> u16_ok k" "w_u32 x nm = Inr b \<Longrightarrow> \<exists>k. x = NInt k \<and> u32_ok k"
  by (auto simp: w_u64_def w_i64_def w_fixed_def u64_ok_def i64_ok_def split: if_splits)
    (cases x; auto simp: w_u16_def w_u32_def u16_ok_def u32_ok_def split: if_splits)+

text \<open>A policy that \<open>writePolicy\<close> encodes has every field in its width.\<close>

lemma written_policy:
  assumes "writePolicy W p = Inr bs"
  shows "u64_ok (pa_budgetCents p)" "u64_ok (pa_maxPurchaseCents p)" "i64_ok (pa_expiresAt p)"
    "\<exists>n. pa_periodSeconds p = NInt n \<and> u32_ok n" "\<exists>n. pa_feeBps p = NInt n \<and> u16_ok n"
    "\<forall>h \<in> set (pa_merchantIdHashes p). length h = 32" "\<forall>m \<in> set (pa_mccs p). \<exists>n. m = NInt n \<and> u16_ok n"
    "length (pa_merchantIdHashes p) \<le> MAX_MERCHANTS" "length (pa_mccs p) \<le> MAX_MCCS"
proof -
  have enc: "toBytes (policy_fields W p) = Inr bs"
    and small: "length (pa_merchantIdHashes p) \<le> MAX_MERCHANTS" "length (pa_mccs p) \<le> MAX_MCCS"
    using assms by (simp_all add: writePolicy_def result_simps)
  note parts = enc [unfolded policy_fields_def append_Cons append_Nil toBytes_eq_Inr_Cons toBytes_append]
  from parts show "u64_ok (pa_budgetCents p)" "u64_ok (pa_maxPurchaseCents p)" "i64_ok (pa_expiresAt p)"
    "\<exists>n. pa_periodSeconds p = NInt n \<and> u32_ok n" "\<exists>n. pa_feeBps p = NInt n \<and> u16_ok n"
    by (blast dest: write_bounds)+
  from parts obtain b c where
    "toBytes (map (\<lambda>i. w_fixed (pa_merchantIdHashes p ! i) 32 (indexed ''merchantIdHashes'' i)) [0..<length (pa_merchantIdHashes p)]) = Inr b"
    "toBytes (map (\<lambda>i. w_u16 (pa_mccs p ! i) (indexed ''mccs'' i)) [0..<length (pa_mccs p)]) = Inr c"
    by blast
  note each = toBytes_each [OF this(1)] toBytes_each [OF this(2)]
  show "\<forall>h \<in> set (pa_merchantIdHashes p). length h = 32"
    using each(1) write_bounds(3) by (fastforce simp: in_set_conv_nth)
  show "\<forall>m \<in> set (pa_mccs p). \<exists>n. m = NInt n \<and> u16_ok n"
    using each(2) write_bounds(4) by (fastforce simp: in_set_conv_nth)
  show "length (pa_merchantIdHashes p) \<le> MAX_MERCHANTS" "length (pa_mccs p) \<le> MAX_MCCS" by (rule small)+
qed

lemma uint_ok:
  "u64_ok v \<Longrightarrow> uint (word_of_int v :: 64 word) = v" "u32_ok v \<Longrightarrow> uint (word_of_int v :: 32 word) = v"
  "u16_ok v \<Longrightarrow> uint (word_of_int v :: 16 word) = v"
  by (simp_all add: uint_word_of_int u64_ok_def u32_ok_def u16_ok_def)

lemma sint_ok: "i64_ok v \<Longrightarrow> sint (word_of_int v :: 64 word) = v"
  by (simp add: sint_sbintrunc' i64_ok_def signed_take_bit_int_eq_self)

lemma expiry_zero: "i64_ok v \<Longrightarrow> (word_of_int v :: 64 word) = 0 \<longleftrightarrow> v = 0"
  using sint_ok [of v] by (metis sint_0 word_of_int_0)

lemma mcc_words:
  assumes "\<forall>m \<in> set ms. \<exists>n. m = NInt n \<and> u16_ok n"
  shows "distinct (map (\<lambda>m. word_of_int (num_val m) :: 16 word) ms) \<longleftrightarrow> distinct ms"
    and "(0 :: 16 word) \<in> set (map (\<lambda>m. word_of_int (num_val m)) ms) \<longleftrightarrow> NInt 0 \<in> set ms"
proof -
  have eq: "(word_of_int (num_val a) :: 16 word) = word_of_int (num_val b) \<longleftrightarrow> a = b"
    if "\<exists>n. a = NInt n \<and> u16_ok n" "\<exists>n. b = NInt n \<and> u16_ok n" for a b
  proof -
    from that(1) obtain m where m: "a = NInt m" "u16_ok m" by (elim exE conjE)
    from that(2) obtain n where n: "b = NInt n" "u16_ok n" by (elim exE conjE)
    have "uint (word_of_int m :: 16 word) = uint (word_of_int n :: 16 word) \<Longrightarrow> m = n"
      unfolding uint_ok(3) [OF m(2)] uint_ok(3) [OF n(2)] .
    with m(1) n(1) show ?thesis by (simp only: num_val.simps jsnum.inject) (rule iffI, simp, simp)
  qed
  have "inj_on (\<lambda>m. word_of_int (num_val m) :: 16 word) (set ms)"
  proof (rule inj_onI)
    fix x y
    assume "x \<in> set ms" and "y \<in> set ms" and "(word_of_int (num_val x) :: 16 word) = word_of_int (num_val y)"
    with eq [OF bspec [OF assms] bspec [OF assms]] show "x = y" by blast
  qed
  then show "distinct (map (\<lambda>m. word_of_int (num_val m) :: 16 word) ms) \<longleftrightarrow> distinct ms"
    by (simp add: distinct_map)
  have "(0 :: 16 word) = word_of_int (num_val m) \<longleftrightarrow> m = NInt 0" if "m \<in> set ms" for m
    using eq [of "NInt 0" m] assms that by (auto simp: u16_ok_def)
  then show "(0 :: 16 word) \<in> set (map (\<lambda>m. word_of_int (num_val m)) ms) \<longleftrightarrow> NInt 0 \<in> set ms"
    by (auto simp: image_iff)
qed

lemma usd_bytes: "(if c = '''' then replicate 3 0 else str_bytes c) = str_bytes ''USD'' \<longleftrightarrow> c = ''USD''"
proof (cases "c = ''''")
  case False
  then show ?thesis by (metis chars_str_bytes)
qed (simp add: str_bytes_def numeral_3_eq_3)

lemma require_chain: "bindR (require c e) (\<lambda>_. m) = Inr v \<longleftrightarrow> c \<and> m = Inr v"
  by (simp add: require_def)

lemma validate_iff:
  "validate_policy_args args owner now = Inr () \<longleftrightarrow>
     pp_max_purchase_cents args > 0 \<and> pp_max_purchase_cents args \<le> pp_budget_cents args \<and>
     pp_budget_cents args \<le> 1000000 \<and> pp_period_seconds args \<ge> 86400 \<and> pp_currency args = str_bytes ''USD'' \<and>
     pp_fee_bps args \<le> 1000 \<and> length (pp_merchant_id_hashes args) \<le> 8 \<and> length (pp_mccs args) \<le> 16 \<and>
     (pp_merchant_id_hashes args \<noteq> [] \<or> pp_mccs args \<noteq> []) \<and> distinct (pp_merchant_id_hashes args) \<and>
     distinct (pp_mccs args) \<and> replicate 32 0 \<notin> set (pp_merchant_id_hashes args) \<and> 0 \<notin> set (pp_mccs args) \<and>
     (pp_expires_at args = 0 \<or> sint (pp_expires_at args) > now) \<and> pp_authorizer args \<noteq> replicate 32 0 \<and>
     pp_authorizer args \<noteq> owner"
  unfolding validate_policy_args_def require_chain has_duplicates_iff by simp

lemma written_policy_valid:
  assumes "writePolicy W p = Inr bs"
  shows "validate_policy_args (program_args p authorizer) owner now = Inr () \<longleftrightarrow>
    policyArgsProblems frac_less p = [] \<and>
    replicate 32 0 \<notin> set (pa_merchantIdHashes p) \<and> NInt 0 \<notin> set (pa_mccs p) \<and>
    (pa_expiresAt p = 0 \<or> pa_expiresAt p > now) \<and> authorizer \<noteq> replicate 32 0 \<and> authorizer \<noteq> owner"
proof -
  note w = written_policy [OF assms]
  obtain t f where t: "pa_periodSeconds p = NInt t" "u32_ok t" and f: "pa_feeBps p = NInt f" "u16_ok f"
    using w(4,5) by blast
  note words = uint_ok(1) [OF w(1)] uint_ok(1) [OF w(2)] uint_ok(2) [OF t(2)] uint_ok(3) [OF f(2)]
  have budget: "(0 < pp_max_purchase_cents (program_args p authorizer)) = (0 < pa_maxPurchaseCents p)"
    "(pp_max_purchase_cents (program_args p authorizer) \<le> pp_budget_cents (program_args p authorizer)) =
       (pa_maxPurchaseCents p \<le> pa_budgetCents p)"
    "(pp_budget_cents (program_args p authorizer) \<le> 1000000) = (pa_budgetCents p \<le> 1000000)"
    "(pp_period_seconds (program_args p authorizer) \<ge> 86400) = (t \<ge> 86400)"
    "(pp_fee_bps (program_args p authorizer) \<le> 1000) = (f \<le> 1000)"
    using words t f by (simp_all add: program_args_def word_less_def word_le_def)
  have "0 \<le> f" using f(2) by (simp add: u16_ok_def)
  have mccs: "card (set (pa_mccs p)) = length (pa_mccs p) \<longleftrightarrow> distinct (pa_mccs p)"
    using distinct_card card_distinct by metis
  have fields: "pp_currency (program_args p authorizer) = str_bytes ''USD'' \<longleftrightarrow> pa_currency p = ''USD''"
    "pp_merchant_id_hashes (program_args p authorizer) = pa_merchantIdHashes p"
    "distinct (pp_mccs (program_args p authorizer)) \<longleftrightarrow> distinct (pa_mccs p)"
    "0 \<in> set (pp_mccs (program_args p authorizer)) \<longleftrightarrow> NInt 0 \<in> set (pa_mccs p)"
    "length (pp_mccs (program_args p authorizer)) = length (pa_mccs p)"
    "pp_mccs (program_args p authorizer) = [] \<longleftrightarrow> pa_mccs p = []"
    "pp_expires_at (program_args p authorizer) = 0 \<longleftrightarrow> pa_expiresAt p = 0"
    "sint (pp_expires_at (program_args p authorizer)) = pa_expiresAt p"
    "pp_authorizer (program_args p authorizer) = authorizer"
    using mcc_words [OF w(7)] sint_ok [OF w(3)] expiry_zero [OF w(3)] usd_bytes by (simp_all add: program_args_def)
  have fee: "num_in 0 MAX_FEE_BPS (pa_feeBps p) \<longleftrightarrow> f \<le> 1000"
    and period: "num_less frac_less (pa_periodSeconds p) MIN_PERIOD_SECONDS \<longleftrightarrow> \<not> 86400 \<le> t"
    using t f \<open>0 \<le> f\<close> by (auto simp: MAX_FEE_BPS_def MIN_PERIOD_SECONDS_def)
  show ?thesis
    unfolding validate_iff budget fields policyArgsProblems_def append_is_Nil_conv problem_Nil fee period
      hashes_distinct [OF w(6)] mccs not_not not_less length_0_conv
    using w(8,9) by (simp add: MAX_BUDGET_CENTS_def MAX_MERCHANTS_def MAX_MCCS_def not_le)
qed

text \<open>
  C34. The client's mirror of \<open>set_policy\<close>'s validation agrees with the program. For a policy that can be encoded,
  the program accepts the decoded arguments exactly when \<open>policyArgsProblems\<close> lists no problem and
  the four conditions the mirror leaves to the program hold: no all-zero merchant hash, no merchant category 0, no
  expiry in the past, and an authorizer that is neither the default key nor the owner.
\<close>

theorem policy_mirror_agrees:
  assumes "writePolicy W p = Inr bs"
  shows "validate_policy_args (program_args p authorizer) owner now = Inr () \<longleftrightarrow>
    policyArgsProblems frac_less p = [] \<and>
    replicate 32 0 \<notin> set (pa_merchantIdHashes p) \<and> NInt 0 \<notin> set (pa_mccs p) \<and>
    (pa_expiresAt p = 0 \<or> pa_expiresAt p > now) \<and> authorizer \<noteq> replicate 32 0 \<and> authorizer \<noteq> owner"
  using assms by (rule written_policy_valid)

definition sample_args :: PolicyArgs where
  "sample_args =
     \<lparr>pa_budgetCents = 50000, pa_maxPurchaseCents = 20000, pa_maxPurchasesPerPeriod = NInt 5, pa_periodSeconds = NInt 604800,
      pa_currency = ''USD'', pa_merchantIdHashes = [replicate 32 7], pa_mccs = [NInt 5734], pa_expiresAt = 0,
      pa_recurringAllowed = False, pa_feeBps = NInt 250, pa_authorizer = sample_address 9\<rparr>"

lemma sample_args_written: "\<exists>bs. writePolicy sample_web3 sample_args = Inr bs"
  by (simp add: sample_args_def writePolicy_def policy_fields_def writer_defs MAX_MERCHANTS_def MAX_MCCS_def)

theorem policy_mirror_agrees_witness:
  "validate_policy_args (program_args sample_args (replicate 32 9)) (replicate 32 1) 0 = Inr () \<and>
   policyArgsProblems (\<lambda>_ _. False) sample_args = []"
proof -
  obtain bs where bs: "writePolicy sample_web3 sample_args = Inr bs" using sample_args_written by blast
  have "validate_policy_args (program_args sample_args (replicate 32 9)) (replicate 32 1) 0 = Inr ()"
    unfolding policy_mirror_agrees [OF bs, where frac_less = "\<lambda>_ _. False"]
    by (simp add: sample_args_def policyArgsProblems_def problem_def MAX_BUDGET_CENTS_def MIN_PERIOD_SECONDS_def
        MAX_FEE_BPS_def MAX_MERCHANTS_def MAX_MCCS_def)
  with policy_mirror_agrees [OF bs] show ?thesis by blast
qed

text \<open>The gap: a policy the mirror finds no problem with and the program refuses.\<close>

lemma mirror_misses_mcc_zero:
  "policyArgsProblems frac_less (sample_args\<lparr>pa_mccs := [NInt 0]\<rparr>) = []"
  "validate_policy_args (program_args (sample_args\<lparr>pa_mccs := [NInt 0]\<rparr>) k) owner now \<noteq> Inr ()"
  unfolding validate_iff
  by (simp_all add: sample_args_def program_args_def policyArgsProblems_def problem_def MAX_BUDGET_CENTS_def
      MIN_PERIOD_SECONDS_def MAX_FEE_BPS_def MAX_MERCHANTS_def MAX_MCCS_def)

end
