(* ===== verification/CardCodec.thy ===== *)
theory CardCodec
  imports CardBuilders
begin

text \<open>
  The contract of \<open>sdk/src/cards/instructions.ts\<close>'s codecs: what \<open>encodeCardInstructionData\<close> wrote,
  \<open>decodeCardInstructionData\<close> takes back to the last byte.
\<close>

section \<open>Reading a list of writes exactly\<close>

definition takes_all :: "'a read \<Rightarrow> bytes result list \<Rightarrow> 'a \<Rightarrow> bool" where
  "takes_all m ps v \<longleftrightarrow> (\<forall>bs. toBytes ps = Inr bs \<longrightarrow> reads m bs v)"

lemma all_bind:
  assumes "\<And>b. p = Inr b \<Longrightarrow> reads m b x" and "takes_all (f x) ps y"
  shows "takes_all (bind_read m f) (p # ps) y"
  using assms by (auto simp: takes_all_def toBytes_eq_Inr_Cons intro: reads_bind)

lemma all_array:
  assumes "\<And>b. toBytes qs = Inr b \<Longrightarrow> reads m b x" and "takes_all (f x) ps y"
  shows "takes_all (bind_read m f) (qs @ ps) y"
  using assms by (auto simp: takes_all_def toBytes_append intro: reads_bind)

lemma all_unless: "c \<Longrightarrow> takes_all (f ()) ps v \<Longrightarrow> takes_all (bind_read (fail_unless c msg) f) ps v"
  by (auto simp: takes_all_def intro: reads_unless)

lemma all_ret: "x = v \<Longrightarrow> takes_all (ret_read x) [] v"
  by (simp add: takes_all_def reads_ret)

text \<open>Decoding keeps a currency's three bytes as they are, so an empty code comes back as three NULs.\<close>

definition code_text :: "string \<Rightarrow> string" where
  "code_text c = (if c = '''' then replicate 3 (char_of (0::nat)) else c)"

lemma reads_code:
  assumes "w_currency c = Inr bs"
  shows "reads r_code bs (code_text c)"
proof -
  from assms have b: "currencyBytes c = Inr bs" "w_fixed bs 3 ''currency'' = Inr bs"
    by (auto simp: w_currency_def result_simps w_fixed_def split: if_splits)
  have "map (\<lambda>byte. char_of (unat byte)) bs = code_text c"
    using b(1) by (auto simp: currencyBytes_def code_text_def chars_str_bytes split: if_splits)
  then show ?thesis
    unfolding r_code_def by (intro reads_bind_last [OF f_fixed.read_write [OF b(2)]]) simp
qed

lemma reads_vec_length:
  assumes "w_u32 (NInt (int n)) nm = Inr b" and "n \<le> limit"
  shows "reads (readVecLength limit name) b n"
  unfolding readVecLength_def
  by (rule reads_bind [where cs = "[]", simplified, OF f_u32.read_write [OF assms(1)]], rule reads_unless)
    (use assms(2) reads_ret in simp_all)

lemma reads_policy:
  assumes W: "web3_ok W" and key: "address W (pa_authorizer p) = Inr (pa_authorizer p)"
    and enc: "writePolicy W p = Inr bs"
  shows "reads (readPolicy W) bs (p\<lparr>pa_currency := code_text (pa_currency p)\<rparr>)"
proof -
  have small: "length (pa_merchantIdHashes p) \<le> MAX_MERCHANTS" "length (pa_mccs p) \<le> MAX_MCCS"
    and bytes: "toBytes (policy_fields W p) = Inr bs"
    using enc by (auto simp: writePolicy_def result_simps)
  have "takes_all (readPolicy W) (policy_fields W p) (p\<lparr>pa_currency := code_text (pa_currency p)\<rparr>)"
    unfolding readPolicy_def policy_fields_def append_Cons append_Nil
    by (rule all_bind all_array reads_code field_reads W key reads_vec_length small f_fixed.read_array f_u16.read_array all_ret
        | assumption | (cases p, simp add: map_nth))+
  then show ?thesis using bytes by (simp add: takes_all_def)
qed

section \<open>Every instruction\<close>

definition code_policy :: "PolicyArgs \<Rightarrow> PolicyArgs" where
  "code_policy p = p\<lparr>pa_currency := code_text (pa_currency p)\<rparr>"

definition as_decoded :: "CardInstruction \<Rightarrow> CardInstruction" where
  "as_decoded ix = (case ix of
     SetPolicy p \<Rightarrow> SetPolicy (code_policy p)
   | OpenCheckoutIntent i a h m x c e \<Rightarrow> OpenCheckoutIntent i a h m x (code_text c) e
   | Authorize a i x c h m mi s \<Rightarrow> Authorize a i x (code_text c) h m mi s
   | Restore s \<Rightarrow> Restore (s\<lparr>ra_policy := code_policy (ra_policy s)\<rparr>)
   | _ \<Rightarrow> ix)"

definition instruction_addresses :: "CardInstruction \<Rightarrow> address list" where
  "instruction_addresses ix = (case ix of
     DelegateCard v \<Rightarrow> [v]
   | InitPermission a \<Rightarrow> [a]
   | UpdatePermission (AddReader a) \<Rightarrow> [a]
   | UpdatePermission (RemoveReader a) \<Rightarrow> [a]
   | SetPolicy p \<Rightarrow> [pa_authorizer p]
   | OpenCheckoutIntent i a h m x c e \<Rightarrow> [a]
   | Restore s \<Rightarrow> [pa_authorizer (ra_policy s)]
   | _ \<Rightarrow> [])"

definition canonical :: "web3 \<Rightarrow> CardInstruction \<Rightarrow> bool" where
  "canonical W ix \<longleftrightarrow> list_all (\<lambda>a. address W a = Inr a) (instruction_addresses ix)"

lemma policy_reads:
  "web3_ok W \<Longrightarrow> address W (pa_authorizer p) = Inr (pa_authorizer p) \<Longrightarrow> writePolicy W p = Inr bs \<Longrightarrow>
   reads (readPolicy W) bs (code_policy p)"
  unfolding code_policy_def by (rule reads_policy)


lemmas codec_defs = codec_decode_def codec_decoders_def as_decoded_def canonical_def instruction_addresses_def

lemma permission_reads:
  assumes W: "web3_ok W" and ok: "canonical W (UpdatePermission op)"
  shows "takes_all (codec_decode W ''updatePermission'') (codec_encode W (UpdatePermission op)) (UpdatePermission op)"
proof (cases op)
  case (AddReader a)
  with ok have "address W a = Inr a" by (simp add: codec_defs)
  then show ?thesis
    unfolding AddReader codec_encode.simps
    by (simp add: codec_defs)
      ((rule all_bind all_unless all_ret f_u8.read_write reads_pubkey W | assumption | simp)+)
next
  case (RemoveReader a)
  with ok have "address W a = Inr a" by (simp add: codec_defs)
  then show ?thesis
    unfolding RemoveReader codec_encode.simps
    by (simp add: codec_defs)
      ((rule all_bind all_unless all_ret f_u8.read_write reads_pubkey W | assumption | simp)+)
qed

lemma restore_eq:
  "Restore \<lparr>ra_policy = p, ra_periodIndex = ra_periodIndex s, ra_capturedCents = ra_capturedCents s,
     ra_reservedCents = ra_reservedCents s, ra_refundedCents = ra_refundedCents s, ra_purchasesCount = ra_purchasesCount s,
     ra_exceptionCents = ra_exceptionCents s, ra_statementOutstandingCents = ra_statementOutstandingCents s,
     ra_ledgerHead = ra_ledgerHead s, ra_ledgerSeq = ra_ledgerSeq s, ra_reconDigest = ra_reconDigest s\<rparr> =
   Restore (s\<lparr>ra_policy := p\<rparr>)"
  by (cases s) simp

lemma codec_reads:
  assumes W: "web3_ok W" and ok: "canonical W ix"
  shows "takes_all (codec_decode W (instruction_name ix)) (codec_encode W ix) (as_decoded ix)"
proof (cases "\<exists>op. ix = UpdatePermission op")
  case True
  then show ?thesis using permission_reads [OF W] ok by (auto simp: as_decoded_def)
next
  case False
  with ok show ?thesis
    by (cases ix; simp add: codec_defs)
      (rule all_bind all_ret field_reads reads_code policy_reads W restore_eq refl | assumption)+
qed

text \<open>The loop stops at the only discriminator that matches.\<close>

lemma every_byte: "length d \<le> length data \<Longrightarrow>
  list_all (\<lambda>(i, byte). data ! i = byte) (enumerate 0 d) \<longleftrightarrow> take (length d) data = d"
  by (auto simp: list_all_length nth_enumerate_eq list_eq_iff_nth_eq)

lemma decode_loop_hit:
  assumes "distinct (map snd ds)" and "(name, d) \<in> set ds" and "\<forall>e \<in> set (map snd ds). length e = 8"
    and "codec_decode W name (at d rest) = Inr (v, at pre extra)"
  shows "decode_loop W (d @ rest) ds =
    (if extra = [] then Inr v else Inl (name @ '' has '' @ int_dec (int (length extra)) @ '' unexpected trailing bytes''))"
  using assms(1-3)
proof (induction ds)
  case (Cons e ds)
  obtain n c where e: "e = (n, c)" by force
  have len: "length c = 8" "length d = 8" using Cons.prems e by auto
  have match: "list_all (\<lambda>(i, byte). (d @ rest) ! i = byte) (enumerate 0 c) \<longleftrightarrow> d = c"
    using every_byte [of c "d @ rest"] len by simp
  show ?case
  proof (cases "d = c")
    case True
    then have "n = name" using Cons.prems(1,2) e by (force simp: image_iff)
    then show ?thesis
      using True match e len assms(4) by (simp add: at_def remaining_def)
  next
    case False
    then show ?thesis using match e Cons by auto
  qed
qed simp

lemma discriminators_distinct: "distinct (map snd CARD_POLICY_DISCRIMINATORS)"
  and discriminators_length: "\<forall>e \<in> set (map snd CARD_POLICY_DISCRIMINATORS). length e = 8"
  by (simp_all add: CARD_POLICY_DISCRIMINATORS_def)

lemma discriminator_exists: "\<exists>d. map_of CARD_POLICY_DISCRIMINATORS (instruction_name ix) = Some d"
  by (cases ix) (simp_all add: CARD_POLICY_DISCRIMINATORS_def)

lemma instruction_reads:
  assumes W: "web3_ok W" and ok: "canonical W ix" and enc: "encodeCardInstructionData W ix = Inr bs"
  shows "decodeCardInstructionData W (bs @ extra) =
    (if extra = [] then Inr (as_decoded ix)
     else Inl (instruction_name ix @ '' has '' @ int_dec (int (length extra)) @ '' unexpected trailing bytes''))"
proof -
  obtain d where d: "map_of CARD_POLICY_DISCRIMINATORS (instruction_name ix) = Some d"
    using discriminator_exists by blast
  then obtain body where body: "toBytes (codec_encode W ix) = Inr body" "bs = d @ body"
    using enc by (auto simp: encodeCardInstructionData_def toBytes_eq_Inr_Cons fetch_def)
  have mem: "(instruction_name ix, d) \<in> set CARD_POLICY_DISCRIMINATORS" using d by (rule map_of_SomeD)
  then have "length d = 8" using discriminators_length by force
  moreover have "codec_decode W (instruction_name ix) (at d (body @ extra)) = Inr (as_decoded ix, at (d @ body) extra)"
    using codec_reads [OF W ok] body(1) by (auto simp: takes_all_def intro: readsD)
  ultimately show ?thesis
    using decode_loop_hit [OF discriminators_distinct mem discriminators_length]
    by (simp add: decodeCardInstructionData_def body(2))
qed

section \<open>Properties\<close>

lemma mapR_Inr [simp]: "mapR (\<lambda>k. k) (map Inr ks) = Inr ks"
  by (induction ks) simp_all

lemma build_eq_Inr:
  "build W snake pid keys ix = Inr r \<longleftrightarrow> (\<exists>ks p q d. mapR (\<lambda>k. k) keys = Inr ks \<and> resolveCardPolicyProgramId pid = Inr p \<and>
     encodeCardInstructionData W ix = Inr d \<and> address W p = Inr q \<and>
     r = \<lparr>ix_name = snake, ix_programId = q, ix_keys = ks, ix_data = d\<rparr>)"
  by (auto simp: build_def result_simps instruction_eq_Inr)

lemma mapR_append:
  "mapR f (xs @ ys) = Inr zs \<longleftrightarrow> (\<exists>as bs. mapR f xs = Inr as \<and> mapR f ys = Inr bs \<and> zs = as @ bs)"
  by (induction xs arbitrary: zs) (fastforce simp: result_simps)+

text \<open>The accounts that must sign an instruction.\<close>

definition signers :: "ChainPayInstruction \<Rightarrow> address list" where
  "signers ix = map meta_address (filter isSigner (ix_keys ix))"

lemma permissionKeys_signers:
  assumes "permissionKeys W owner cardId pid = Inr ks" and "address W owner = Inr owner"
  shows "map meta_address (filter isSigner ks) = [owner]"
  using assms by (auto simp: permissionKeys_def result_simps meta_eq_Inr)

text \<open>The currency an instruction carries, and what of it survives.\<close>

definition instruction_currency :: "CardInstruction \<Rightarrow> string option" where
  "instruction_currency ix = (case ix of
     SetPolicy p \<Rightarrow> Some (pa_currency p)
   | OpenCheckoutIntent i a h m x c e \<Rightarrow> Some c
   | Authorize a i x c h m mi s \<Rightarrow> Some c
   | Restore s \<Rightarrow> Some (pa_currency (ra_policy s))
   | _ \<Rightarrow> None)"

lemma as_decoded_same: "instruction_currency ix \<noteq> Some [] \<Longrightarrow> as_decoded ix = ix"
  by (cases ix) (simp_all add: instruction_currency_def as_decoded_def code_policy_def code_text_def)

text \<open>
  C33. Every card instruction survives its wire format: the data \<open>encodeCardInstructionData\<close> produces for any of the
  31 instructions whose addresses are canonical decodes to the same instruction with the same arguments, when it carries no
  currency or a currency that is not empty; an empty currency code comes back as three NUL characters and
  everything else unchanged. Any data with bytes after the arguments is refused, with the number of extra bytes.
\<close>

theorem card_instruction_roundtrip:
  assumes "web3_ok W" and "canonical W ix" and "encodeCardInstructionData W ix = Inr bs"
  shows "(instruction_currency ix \<noteq> Some [] \<longrightarrow> decodeCardInstructionData W bs = Inr ix) \<and>
    decodeCardInstructionData W bs = Inr (as_decoded ix) \<and>
    (\<forall>b extra. decodeCardInstructionData W (bs @ b # extra) =
       Inl (instruction_name ix @ '' has '' @ int_dec (int (Suc (length extra))) @ '' unexpected trailing bytes''))"
  using instruction_reads [OF assms, of "[]"] instruction_reads [OF assms, of "_ # _"] as_decoded_same [of ix] by simp

text \<open>
  A \<open>set_policy\<close> instruction the SDK agrees to build asks for the signature of the owner, and of the co-signer where
  one is given, who is then not the owner; its data decodes to exactly the policy it was built from; and the program's own
  check accepts that policy once the conditions the SDK leaves to the program hold.
\<close>

theorem set_policy_instruction:
  assumes W: "web3_ok W"
    and addresses: "address W owner = Inr owner" "address W (pa_authorizer policy) = Inr (pa_authorizer policy)"
      "\<And>s. coSigner = Some s \<Longrightarrow> address W s = Inr s"
    and built: "buildSetPolicyInstruction W frac_less owner cardId policy coSigner programId = Inr ix"
  shows "signers ix = owner # (case coSigner of Some s \<Rightarrow> [s] | None \<Rightarrow> []) \<and> coSigner \<noteq> Some owner \<and>
    decodeCardInstructionData W (ix_data ix) = Inr (SetPolicy policy) \<and>
    (validate_policy_args (program_args policy authorizer) ownerKey now = Inr () \<longleftrightarrow>
      replicate 32 0 \<notin> set (pa_merchantIdHashes policy) \<and> NInt 0 \<notin> set (pa_mccs policy) \<and>
      (pa_expiresAt policy = 0 \<or> pa_expiresAt policy > now) \<and> authorizer \<noteq> replicate 32 0 \<and> authorizer \<noteq> ownerKey)"
proof (intro conjI)
  from built have ok: "policyArgsProblems frac_less policy = []" and co: "coSigner \<noteq> Some owner"
    by (auto simp: buildSetPolicyInstruction_def Let_def result_simps)
  from built obtain ks where ks: "permissionKeys W owner cardId programId = Inr ks"
    and b: "build W ''set_policy'' programId
        (map Inr ks @ (case coSigner of Some s \<Rightarrow> [meta W s False True] | None \<Rightarrow> [])) (SetPolicy policy) = Inr ix"
    by (auto simp: buildSetPolicyInstruction_def Let_def result_simps)
  show "coSigner \<noteq> Some owner" by (rule co)
  show "signers ix = owner # (case coSigner of Some s \<Rightarrow> [s] | None \<Rightarrow> [])"
    using b permissionKeys_signers [OF ks addresses(1)] addresses(3)
    by (auto simp: build_eq_Inr mapR_append signers_def meta_eq_Inr result_simps split: option.splits)
  from b have enc: "encodeCardInstructionData W (SetPolicy policy) = Inr (ix_data ix)" by (auto simp: build_eq_Inr)
  have "pa_currency policy = ''USD''" using ok by (simp add: policyArgsProblems_def)
  then have same: "as_decoded (SetPolicy policy) = SetPolicy policy"
    by (simp add: as_decoded_def code_policy_def code_text_def)
  show "decodeCardInstructionData W (ix_data ix) = Inr (SetPolicy policy)"
    using instruction_reads [OF W _ enc, of "[]"] same addresses(2) by (simp add: codec_defs)
  obtain bs where "writePolicy W policy = Inr bs"
    using enc by (auto simp: encodeCardInstructionData_def toBytes_eq_Inr_Cons)
  with ok written_policy_valid [OF this, of authorizer ownerKey now frac_less]
  show "validate_policy_args (program_args policy authorizer) ownerKey now = Inr () \<longleftrightarrow>
      replicate 32 0 \<notin> set (pa_merchantIdHashes policy) \<and> NInt 0 \<notin> set (pa_mccs policy) \<and>
      (pa_expiresAt policy = 0 \<or> pa_expiresAt policy > now) \<and> authorizer \<noteq> replicate 32 0 \<and> authorizer \<noteq> ownerKey"
    by simp
qed

text \<open>The empty currency the account decoders know does not survive an instruction.\<close>

lemma empty_currency_changes:
  assumes "web3_ok W" and "address W a = Inr a"
    and "encodeCardInstructionData W (OpenCheckoutIntent i a h m x '''' e) = Inr bs"
  shows "decodeCardInstructionData W bs = Inr (OpenCheckoutIntent i a h m x (replicate 3 (char_of (0::nat))) e)"
  using instruction_reads [OF assms(1) _ assms(3), of "[]"] assms(2) by (simp add: codec_defs code_text_def)

section \<open>Examples\<close>

lemma sample_args_ok: "policyArgsProblems (\<lambda>_ _. False) sample_args = []"
  by (simp add: sample_args_def policyArgsProblems_def problem_def MAX_BUDGET_CENTS_def MIN_PERIOD_SECONDS_def
      MAX_FEE_BPS_def MAX_MERCHANTS_def MAX_MCCS_def)

lemma sample_resolve: "resolveCardPolicyProgramId None = Inr CARD_POLICY_PROGRAM_ID"
  by (simp add: resolveCardPolicyProgramId_def CARD_POLICY_PROGRAM_ID_def trim_def is_space_def Let_def)

definition sample_parses :: "address \<Rightarrow> bool" where
  "sample_parses a \<longleftrightarrow> (\<exists>k. publicKey sample_web3 a = Inr k)"

lemma sample_long_key: "33 \<le> length s \<Longrightarrow> sample_parses s"
  by (auto simp: sample_parses_def publicKey_def sample_web3_def sample_parse_def)

lemma sample_ids_parse [simp]:
  "sample_parses CARD_POLICY_PROGRAM_ID" "sample_parses EPHEMERAL_VAULT_ID" "sample_parses MAGIC_PROGRAM_ID"
  "sample_parses PERMISSION_PROGRAM_ID" "sample_parses DELEGATION_PROGRAM_ID" "sample_parses (sample_address b)"
  by (rule sample_long_key; simp add: CARD_POLICY_PROGRAM_ID_def EPHEMERAL_VAULT_ID_def MAGIC_PROGRAM_ID_def
      PERMISSION_PROGRAM_ID_def DELEGATION_PROGRAM_ID_def)+ (simp add: sample_parses_def)

lemma sample_pda_total:
  assumes "mapR (\<lambda>s. s) seeds = Inr ss" and "sample_parses p"
  shows "\<exists>a. pda sample_web3 seeds p = Inr a \<and> sample_parses a"
proof -
  have "publicKey sample_web3 (to_base58 sample_web3 (sample_pda ss)) = Inr (sample_pda ss)" by simp
  with assms show ?thesis by (auto simp: pda_def sample_parses_def)
qed

lemma sample_card_pda:
  assumes "mapR (\<lambda>s. s) seeds = Inr ss"
  shows "\<exists>a. card_pda sample_web3 seeds None = Inr a \<and> sample_parses a"
  using sample_pda_total [of "map Inr ss" ss] assms by (simp add: card_pda_def sample_resolve)

lemma sample_accounts:
  assumes "sample_parses owner" and "length cardId = 32"
  shows "\<exists>a. deriveCardAccounts sample_web3 owner cardId None = Inr a \<and> sample_parses (ac_policy a) \<and> sample_parses (ac_period a) \<and>
    sample_parses (ac_policyPermission a) \<and> sample_parses (ac_periodPermission a)"
proof -
  have card: "\<exists>a. card_pda sample_web3 (Inr s # publicKey sample_web3 k # t) None = Inr a \<and> sample_parses a"
    if "sample_parses k" and "t = [] \<or> t = [Inr cardId]" for s k t
    using sample_card_pda [of "Inr s # publicKey sample_web3 k # t"] that by (auto simp: sample_parses_def)
  have other: "\<exists>a. pda sample_web3 (Inr s # publicKey sample_web3 k # map Inr t) p = Inr a \<and> sample_parses a"
    if "sample_parses k" and "sample_parses p" for s k t p
    using sample_pda_total [of "Inr s # publicKey sample_web3 k # map Inr t" _ p] that by (auto simp: sample_parses_def)
  obtain b where b: "deriveCardBindingAddress sample_web3 owner cardId None = Inr b" "sample_parses b"
    using card [OF assms(1), of "[Inr cardId]"] assms(2) by (auto simp: deriveCardBindingAddress_def bytes32_def)
  obtain p where p: "deriveCardPolicyAddress sample_web3 b None = Inr p" "sample_parses p"
    using card [OF b(2), of "[]"] by (auto simp: deriveCardPolicyAddress_def)
  obtain q where q: "deriveCardPeriodAddress sample_web3 b None = Inr q" "sample_parses q"
    using card [OF b(2), of "[]"] by (auto simp: deriveCardPeriodAddress_def)
  obtain c where c: "deriveCardCommitmentAddress sample_web3 b None = Inr c"
    using card [OF b(2), of "[]"] by (auto simp: deriveCardCommitmentAddress_def)
  obtain e where e: "deriveCardEscrowAddress sample_web3 p (NInt 255) = Inr e"
    using other [OF p(2), of DELEGATION_PROGRAM_ID _ "[[word_of_int 255]]"] by (auto simp: deriveCardEscrowAddress_def)
  obtain pp where pp: "derivePermissionAddress sample_web3 p = Inr pp" "sample_parses pp"
    using other [OF p(2), of PERMISSION_PROGRAM_ID _ "[]"] by (auto simp: derivePermissionAddress_def)
  obtain qp where qp: "derivePermissionAddress sample_web3 q = Inr qp" "sample_parses qp"
    using other [OF q(2), of PERMISSION_PROGRAM_ID _ "[]"] by (auto simp: derivePermissionAddress_def)
  show ?thesis by (simp add: deriveCardAccounts_def b p q c e pp qp)
qed

lemma mapR_ok: "list_all is_ok ms \<Longrightarrow> \<exists>xs. mapR (\<lambda>k. k) ms = Inr xs"
proof (induction ms)
  case (Cons m ms)
  then show ?case by (cases m) auto
qed simp

lemma sample_meta: "sample_parses a \<Longrightarrow> is_ok (meta sample_web3 a w s)"
  by (auto simp: sample_parses_def meta_def address_def)

lemma sample_address_inject: "sample_address a = sample_address b \<longleftrightarrow> a = b"
proof
  assume "sample_address a = sample_address b"
  then have "publicKey sample_web3 (sample_address a) = publicKey sample_web3 (sample_address b)" by (rule arg_cong)
  then show "a = b" by simp
qed simp

lemma sample_set_policy_data: "\<exists>d. encodeCardInstructionData sample_web3 (SetPolicy sample_args) = Inr d"
  using sample_args_written discriminator_exists [of "SetPolicy sample_args"]
  by (auto simp: encodeCardInstructionData_def fetch_def toBytes_def concatR_def)

lemma sample_set_policy:
  "\<exists>ix. buildSetPolicyInstruction sample_web3 (\<lambda>_ _. False) (sample_address 1) (replicate 32 5) sample_args
     (Some (sample_address 2)) None = Inr ix"
proof -
  obtain a where a: "deriveCardAccounts sample_web3 (sample_address 1) (replicate 32 5) None = Inr a" "sample_parses (ac_policy a)"
    "sample_parses (ac_period a)" "sample_parses (ac_policyPermission a)" "sample_parses (ac_periodPermission a)"
    using sample_accounts [of "sample_address 1" "replicate 32 5"] by auto
  have "\<exists>ks. permissionKeys sample_web3 (sample_address 1) (replicate 32 5) None = Inr ks"
    unfolding permissionKeys_def a(1) bindR_Inr
    by (rule mapR_ok) (simp only: list.pred_inject sample_meta a sample_ids_parse simp_thms)
  then obtain ks where ks: "permissionKeys sample_web3 (sample_address 1) (replicate 32 5) None = Inr ks" by blast
  have differ: "sample_address 9 \<noteq> sample_address 1" "sample_address 2 \<noteq> sample_address 1"
    by (simp_all add: sample_address_inject)
  obtain d where d: "encodeCardInstructionData sample_web3 (SetPolicy sample_args) = Inr d"
    using sample_args_written discriminator_exists [of "SetPolicy sample_args"]
    by (auto simp: encodeCardInstructionData_def fetch_def toBytes_def concatR_def)
  obtain q where q: "address sample_web3 CARD_POLICY_PROGRAM_ID = Inr q"
    using sample_ids_parse(1) by (auto simp: sample_parses_def address_def)
  have keys: "mapR (\<lambda>k. k) (map Inr ks @ [meta sample_web3 (sample_address 2) False True]) =
      Inr (ks @ [\<lparr>meta_address = sample_address 2, isSigner = True, isWritable = False\<rparr>])"
    by (simp add: mapR_append meta_def)
  show ?thesis
    using sample_args_ok differ
    by (simp add: buildSetPolicyInstruction_def ks problem_def sample_args_def [symmetric] build_eq_Inr keys sample_resolve d q)
      (simp add: sample_args_def)
qed

theorem card_instruction_roundtrip_witness:
  "(\<exists>bs. encodeCardInstructionData sample_web3 (SetPolicy sample_args) = Inr bs \<and>
      decodeCardInstructionData sample_web3 bs = Inr (SetPolicy sample_args)) \<and>
   (\<exists>bs. encodeCardInstructionData sample_web3 (Capture 1250 (replicate 32 3)) = Inr bs \<and>
      decodeCardInstructionData sample_web3 (bs @ [0]) = Inl ''capture has 1 unexpected trailing bytes'')"
proof (intro conjI)
  obtain d where d: "encodeCardInstructionData sample_web3 (SetPolicy sample_args) = Inr d" using sample_set_policy_data by blast
  have same: "as_decoded (SetPolicy sample_args) = SetPolicy sample_args" "canonical sample_web3 (SetPolicy sample_args)"
    by (simp_all add: codec_defs code_policy_def code_text_def sample_args_def)
  from card_instruction_roundtrip [OF sample_web3_ok same(2) d] same(1) d
  show "\<exists>bs. encodeCardInstructionData sample_web3 (SetPolicy sample_args) = Inr bs \<and>
      decodeCardInstructionData sample_web3 bs = Inr (SetPolicy sample_args)" by auto
next
  obtain d where d: "encodeCardInstructionData sample_web3 (Capture 1250 (replicate 32 3)) = Inr d"
    using discriminator_exists [of "Capture 1250 (replicate 32 3)"]
    by (auto simp: encodeCardInstructionData_def fetch_def writer_defs)
  have one: "int_dec 1 = ''1''" by code_simp
  have "canonical sample_web3 (Capture 1250 (replicate 32 3))" by (simp add: codec_defs)
  from card_instruction_roundtrip [OF sample_web3_ok this d] have
    "decodeCardInstructionData sample_web3 (d @ [0]) = Inl (''capture'' @ '' has '' @ int_dec 1 @ '' unexpected trailing bytes'')"
    by simp
  with d one show "\<exists>bs. encodeCardInstructionData sample_web3 (Capture 1250 (replicate 32 3)) = Inr bs \<and>
      decodeCardInstructionData sample_web3 (bs @ [0]) = Inl ''capture has 1 unexpected trailing bytes''" by auto
qed

theorem set_policy_instruction_witness:
  "\<exists>ix. buildSetPolicyInstruction sample_web3 (\<lambda>_ _. False) (sample_address 1) (replicate 32 5) sample_args
      (Some (sample_address 2)) None = Inr ix \<and> signers ix = [sample_address 1, sample_address 2] \<and>
    decodeCardInstructionData sample_web3 (ix_data ix) = Inr (SetPolicy sample_args)"
proof -
  obtain ix where ix: "buildSetPolicyInstruction sample_web3 (\<lambda>_ _. False) (sample_address 1) (replicate 32 5) sample_args
      (Some (sample_address 2)) None = Inr ix" using sample_set_policy by blast
  have key: "address sample_web3 (pa_authorizer sample_args) = Inr (pa_authorizer sample_args)" by (simp add: sample_args_def)
  have co: "\<And>s. Some (sample_address 2) = Some s \<Longrightarrow> address sample_web3 s = Inr s" by auto
  from set_policy_instruction [OF sample_web3_ok sample_address_ok(1) key co ix] ix show ?thesis by auto
qed

end
