(* ===== verification/CardMath.thy ===== *)
theory CardMath
  imports JsText
begin

text \<open>
  \<open>sdk/src/cards/math.ts\<close>: card money in whole US cents. A bigint is an \<open>int\<close>; a fee rate is a
  JavaScript number. The properties are the limits the file states: floor fees of a period never pass
  the fee of its budget, split refunds never return more than was charged, and amounts are shown and
  sent without loss.
\<close>

section \<open>Wire amounts\<close>

text \<open>An argument of type \<open>unknown\<close>, by what \<open>typeof\<close> tells of it.\<close>

datatype unknown = BigIntVal int | StringVal string | OtherVal

text \<open>\<open>/^(0|[1-9][0-9]{0,15})$/\<close>\<close>

definition cents_pattern :: "string \<Rightarrow> bool" where
  "cents_pattern s \<longleftrightarrow> s = ''0'' \<or> is_digits s \<and> hd s \<noteq> CHR ''0'' \<and> length s \<le> 16"

fun parseCents :: "unknown \<Rightarrow> string \<Rightarrow> int result" where
  "parseCents (BigIntVal value) name = (if value < 0 then Inl (name @ '' can't be negative'') else Inr value)"
| "parseCents (StringVal value) name =
     (if \<not> cents_pattern value
      then Inl (name @ '' must be a whole number of cents written as a string, like \"2000\"'')
      else Inr (dec_val value))"
| "parseCents OtherVal name = Inl (name @ '' must be a whole number of cents written as a string, like \"2000\"'')"

definition parseSignedCents :: "unknown \<Rightarrow> string \<Rightarrow> int result" where
  "parseSignedCents value name = (case value of
     StringVal s \<Rightarrow> if starts_with s ''-'' \<and> s \<noteq> ''-0''
                    then bindR (parseCents (StringVal (tl s)) name) (\<lambda>v. Inr (- v)) else parseCents value name
   | _ \<Rightarrow> parseCents value name)"

definition centsToString :: "int \<Rightarrow> string result" where
  "centsToString value = (if value < 0 then Inl ''cents can't be negative on the wire'' else Inr (int_dec value))"

section \<open>Fees and limits\<close>

definition assertBps :: "jsnum \<Rightarrow> unit result" where
  "assertBps feeBps = require (num_in 0 1000 feeBps) ''feeBps must be a whole number from 0 to 1000''"

definition feeCents :: "int \<Rightarrow> jsnum \<Rightarrow> int result" where
  "feeCents amountCents feeBps =
     bindR (assertBps feeBps) (\<lambda>_.
     if amountCents < 0 then Inl ''amount can't be negative''
     else Inr ((amountCents * num_val feeBps) div 10000))"

definition refundableCents :: "int \<Rightarrow> int \<Rightarrow> int \<Rightarrow> int option" where
  "refundableCents capturedCents refundedCents amountCents =
     (if refundedCents + amountCents \<le> capturedCents then Some amountCents else None)"

definition maxObligationCents :: "int \<Rightarrow> jsnum \<Rightarrow> int result" where
  "maxObligationCents budgetCents feeBps = bindR (feeCents budgetCents feeBps) (\<lambda>fee. Inr (budgetCents + fee))"

definition availableCents :: "int \<Rightarrow> int \<Rightarrow> int \<Rightarrow> int" where
  "availableCents budgetCents capturedCents reservedCents =
     (let used = capturedCents + reservedCents in if used \<ge> budgetCents then 0 else budgetCents - used)"

definition outstandingAfterCapture :: "int \<Rightarrow> int \<Rightarrow> jsnum \<Rightarrow> int result" where
  "outstandingAfterCapture outstandingCents capturedCents feeBps =
     bindR (feeCents capturedCents feeBps) (\<lambda>fee. Inr (outstandingCents + capturedCents + fee))"

definition outstandingAfterRefund :: "int \<Rightarrow> int \<Rightarrow> jsnum \<Rightarrow> int result" where
  "outstandingAfterRefund outstandingCents refundCents feeBps =
     bindR (feeCents refundCents feeBps) (\<lambda>fee.
     let credit = refundCents + fee in
     Inr (if credit \<ge> outstandingCents then 0 else outstandingCents - credit))"

section \<open>Statements\<close>

datatype StatementLineKind = Purchase | Refund | AdjustmentDebit | AdjustmentCredit

record StatementLineInput =
  sl_kind :: StatementLineKind
  sl_amountCents :: int

record StatementTotals =
  st_purchasesCents :: int
  st_refundsCents :: int
  st_feeCents :: int
  st_totalCents :: int

fun statement_loop :: "jsnum \<Rightarrow> StatementLineInput list \<Rightarrow> int \<Rightarrow> int \<Rightarrow> int \<Rightarrow> (int \<times> int \<times> int) result" where
  "statement_loop feeBps [] purchasesCents refundsCents fees = Inr (purchasesCents, refundsCents, fees)"
| "statement_loop feeBps (line # lines) purchasesCents refundsCents fees =
     (if sl_amountCents line < 0
      then Inl ''statement line amounts are unsigned; use the line kind for direction''
      else bindR (feeCents (sl_amountCents line) feeBps) (\<lambda>fee.
        if sl_kind line = Purchase \<or> sl_kind line = AdjustmentDebit
        then statement_loop feeBps lines (purchasesCents + sl_amountCents line) refundsCents (fees + fee)
        else statement_loop feeBps lines purchasesCents (refundsCents + sl_amountCents line) (fees - fee)))"

definition statementTotals :: "StatementLineInput list \<Rightarrow> jsnum \<Rightarrow> StatementTotals result" where
  "statementTotals lines feeBps =
     bindR (statement_loop feeBps lines 0 0 0) (\<lambda>(purchasesCents, refundsCents, fees).
     Inr \<lparr>st_purchasesCents = purchasesCents, st_refundsCents = refundsCents, st_feeCents = fees,
          st_totalCents = purchasesCents - refundsCents + fees\<rparr>)"

section \<open>Display\<close>

text \<open>
  \<open>digits.replace(/\\B(?=(\\d{3})+(?!\\d))/g, ",")\<close>: a comma before every digit, but the first, that has a
  positive multiple of three digits from itself to the end.
\<close>

fun group_digits :: "string \<Rightarrow> string" where
  "group_digits [] = []"
| "group_digits [d] = [d]"
| "group_digits (d # e # ds) = d # (if length (e # ds) mod 3 = 0 then [CHR '',''] else []) @ group_digits (e # ds)"

datatype cents_value = CentsBig int | CentsText string

definition formatUsdCents :: "cents_value \<Rightarrow> string result" where
  "formatUsdCents value =
     bindR (case value of CentsBig v \<Rightarrow> Inr v | CentsText s \<Rightarrow> parseSignedCents (StringVal s) ''amountCents'') (\<lambda>cents.
     let negative = (cents < 0); abs = (if negative then - cents else cents);
         dollars = group_digits (int_dec (abs div 100));
         rest = pad_start 2 CHR ''0'' (int_dec (abs mod 100))
     in Inr ((if negative then ''-'' else []) @ ''$'' @ dollars @ ''.'' @ rest))"

text \<open>\<open>s.replace(/0+$/, "")\<close>\<close>

definition strip_zeros :: "string \<Rightarrow> string" where
  "strip_zeros s = rev (dropWhile (\<lambda>c. c = CHR ''0'') (rev s))"

definition formatFeeBps :: "jsnum \<Rightarrow> string result" where
  "formatFeeBps feeBps =
     bindR (assertBps feeBps) (\<lambda>_.
     let whole = num_val feeBps div 100;
         frac = strip_zeros (pad_start 2 CHR ''0'' (int_dec (num_val feeBps mod 100)))
     in Inr (if frac \<noteq> [] then int_dec whole @ ''.'' @ frac @ ''%'' else int_dec whole @ ''%''))"

definition centsToTokenBaseUnits :: "int \<Rightarrow> jsnum \<Rightarrow> int result" where
  "centsToTokenBaseUnits cents decimals = (case decimals of
     NInt d \<Rightarrow> if d < 2 then Inl ''token must have at least 2 decimals'' else Inr (cents * 10 ^ nat (d - 2))
   | NonInt _ \<Rightarrow> Inl ''token must have at least 2 decimals'')"

record PolicyReviewSummary =
  sm_budgetCents :: string
  sm_maxPurchaseCents :: string
  sm_feeBps :: jsnum
  sm_feeCentsAtFullBudget :: string
  sm_maxObligationCents :: string
  sm_displayBudget :: string
  sm_displayMaxPurchase :: string
  sm_displayFee :: string
  sm_displayMaxObligation :: string

definition policyReviewSummary :: "int \<Rightarrow> int \<Rightarrow> jsnum \<Rightarrow> PolicyReviewSummary result" where
  "policyReviewSummary budgetCents maxPurchaseCents feeBps =
     bindR (maxObligationCents budgetCents feeBps) (\<lambda>obligation.
     bindR (centsToString budgetCents) (\<lambda>budget.
     bindR (centsToString maxPurchaseCents) (\<lambda>maxPurchase.
     bindR (centsToString (obligation - budgetCents)) (\<lambda>fee.
     bindR (centsToString obligation) (\<lambda>total.
     bindR (formatUsdCents (CentsBig budgetCents)) (\<lambda>shownBudget.
     bindR (formatUsdCents (CentsBig maxPurchaseCents)) (\<lambda>shownMax.
     bindR (formatFeeBps feeBps) (\<lambda>shownFee.
     bindR (formatUsdCents (CentsBig obligation)) (\<lambda>shownTotal.
     Inr \<lparr>sm_budgetCents = budget, sm_maxPurchaseCents = maxPurchase, sm_feeBps = feeBps,
       sm_feeCentsAtFullBudget = fee, sm_maxObligationCents = total, sm_displayBudget = shownBudget,
       sm_displayMaxPurchase = shownMax, sm_displayFee = shownFee, sm_displayMaxObligation = shownTotal\<rparr>)))))))))"

section \<open>Floor fees\<close>

text \<open>The fee as a number, and when the code computes it.\<close>

definition fee_of :: "int \<Rightarrow> int \<Rightarrow> int" where
  "fee_of bps x = (x * bps) div 10000"

lemma feeCents_eq_Inr:
  "feeCents x feeBps = Inr f \<longleftrightarrow> (\<exists>bps. feeBps = NInt bps \<and> 0 \<le> bps \<and> bps \<le> 1000 \<and> 0 \<le> x \<and> f = fee_of bps x)"
  by (cases feeBps) (auto simp: feeCents_def assertBps_def result_simps fee_of_def)

lemma feeCents_ok: "0 \<le> bps \<Longrightarrow> bps \<le> 1000 \<Longrightarrow> 0 \<le> x \<Longrightarrow> feeCents x (NInt bps) = Inr (fee_of bps x)"
  by (simp add: feeCents_eq_Inr)

lemma fee_nonneg: "0 \<le> bps \<Longrightarrow> 0 \<le> x \<Longrightarrow> 0 \<le> fee_of bps x"
  by (simp add: fee_of_def pos_imp_zdiv_nonneg_iff)

lemma fee_zero [simp]: "fee_of bps 0 = 0"
  by (simp add: fee_of_def)

lemma fee_mono: "0 \<le> bps \<Longrightarrow> x \<le> y \<Longrightarrow> fee_of bps x \<le> fee_of bps y"
  by (simp add: fee_of_def mult_right_mono zdiv_mono1)

text \<open>Rounding down is superadditive, so the fees of parts never pass the fee of the whole.\<close>

lemma fee_superadditive: "fee_of bps x + fee_of bps y \<le> fee_of bps (x + y)"
proof -
  have "0 \<le> (x * bps mod 10000 + y * bps mod 10000) div 10000"
    by (simp add: pos_imp_zdiv_nonneg_iff)
  then show ?thesis by (simp add: fee_of_def distrib_right div_add1_eq [of "x * bps" "y * bps"])
qed

lemma fees_of_parts: "sum_list (map (fee_of bps) xs) \<le> fee_of bps (sum_list xs)"
proof (induction xs)
  case (Cons x xs)
  then show ?case using fee_superadditive [of bps x "sum_list xs"] by simp
qed simp

section \<open>Statement sums\<close>

definition debits :: "StatementLineInput list \<Rightarrow> int list" where
  "debits lines = map sl_amountCents (filter (\<lambda>l. sl_kind l = Purchase \<or> sl_kind l = AdjustmentDebit) lines)"

definition credits :: "StatementLineInput list \<Rightarrow> int list" where
  "credits lines = map sl_amountCents (filter (\<lambda>l. \<not> (sl_kind l = Purchase \<or> sl_kind l = AdjustmentDebit)) lines)"

lemma statement_loop_sums:
  "statement_loop (NInt bps) lines p r f = Inr x \<Longrightarrow>
     x = (p + sum_list (debits lines), r + sum_list (credits lines),
          f + sum_list (map (fee_of bps) (debits lines)) - sum_list (map (fee_of bps) (credits lines))) \<and>
     (\<forall>l \<in> set lines. 0 \<le> sl_amountCents l)"
proof (induction lines arbitrary: p r f)
  case (Cons a lines)
  then show ?case
    by (auto simp: debits_def credits_def result_simps feeCents_eq_Inr split: if_splits dest!: Cons.IH)
qed (auto simp: debits_def credits_def)

lemma sum_fees_nonneg: "0 \<le> bps \<Longrightarrow> \<forall>x \<in> set xs. 0 \<le> x \<Longrightarrow> 0 \<le> sum_list (map (fee_of bps) xs)"
  by (induction xs) (auto intro!: add_nonneg_nonneg fee_nonneg)

lemma sum_nonneg_list: "\<forall>x \<in> set xs. 0 \<le> x \<Longrightarrow> 0 \<le> sum_list (xs :: int list)"
  by (induction xs) auto

text \<open>Refunds of one hold, in the order they arrive: what does not fit goes to review.\<close>

fun refund_run :: "int \<Rightarrow> int \<Rightarrow> int list \<Rightarrow> int list" where
  "refund_run captured refunded [] = []"
| "refund_run captured refunded (a # as) = (case refundableCents captured refunded a of
     Some x \<Rightarrow> x # refund_run captured (refunded + x) as
   | None \<Rightarrow> refund_run captured refunded as)"

lemma refund_run_bound: "refunded \<le> captured \<Longrightarrow> refunded + sum_list (refund_run captured refunded as) \<le> captured"
proof (induction "as" arbitrary: refunded)
  case (Cons a "as")
  show ?case
    using Cons.IH [of refunded] Cons.IH [of "refunded + a"] Cons.prems by (auto simp: refundableCents_def add.assoc)
qed simp

lemma refund_run_nonneg: "\<forall>a \<in> set as. 0 \<le> a \<Longrightarrow> \<forall>x \<in> set (refund_run captured refunded as). 0 \<le> x"
  by (induction "as" arbitrary: refunded) (auto simp: refundableCents_def)

fun refund_all :: "jsnum \<Rightarrow> int \<Rightarrow> int list \<Rightarrow> int result" where
  "refund_all feeBps outstanding [] = Inr outstanding"
| "refund_all feeBps outstanding (r # rs) =
     bindR (outstandingAfterRefund outstanding r feeBps) (\<lambda>left. refund_all feeBps left rs)"

lemma refund_all_exact:
  assumes bps: "0 \<le> bps" "bps \<le> 1000" and "\<forall>r \<in> set rs. 0 \<le> r"
    and "sum_list rs + sum_list (map (fee_of bps) rs) \<le> outstanding"
  shows "refund_all (NInt bps) outstanding rs = Inr (outstanding - (sum_list rs + sum_list (map (fee_of bps) rs)))"
  using assms(3,4)
proof (induction rs arbitrary: outstanding)
  case (Cons r rs)
  have rest: "0 \<le> sum_list rs" "0 \<le> sum_list (map (fee_of bps) rs)"
    using Cons.prems(1) sum_nonneg_list [of rs] sum_fees_nonneg [OF bps(1), of rs] by auto
  have step: "outstandingAfterRefund outstanding r (NInt bps) = Inr (outstanding - (r + fee_of bps r))"
    using Cons.prems rest feeCents_ok [OF bps, of r] by (simp add: outstandingAfterRefund_def Let_def)
  show ?case
    using Cons.IH [of "outstanding - (r + fee_of bps r)"] Cons.prems by (simp add: step algebra_simps)
qed simp

section \<open>Decimal text\<close>

lemma nat_dec_snoc: "0 < n \<Longrightarrow> d < 10 \<Longrightarrow> nat_dec (10 * n + d) = nat_dec n @ [digit_char d]"
  by (subst radix_str.simps) simp

lemma digit_char_of_digit: "is_digit c \<Longrightarrow> digit_char (digit_val c) = c"
  by (rule digit_char_val) (auto simp: is_digit_def is_lower_hex_def Let_def)

lemma digit_val_pos: "is_digit c \<Longrightarrow> c \<noteq> CHR ''0'' \<Longrightarrow> 0 < digit_val c"
  using digit_char_of_digit [of c] digit_char_0 by (cases "digit_val c") auto

lemma nat_dec_of_digits:
  "is_digits s \<Longrightarrow> hd s \<noteq> CHR ''0'' \<Longrightarrow> nat_dec (radix_val 10 s) = s \<and> 0 < radix_val 10 s"
proof (induction s rule: rev_induct)
  case (snoc c s)
  then have c: "is_digit c" by (simp add: is_digits_def)
  show ?case
  proof (cases "s = []")
    case True
    have "radix_str 10 (digit_val c) = [digit_char (digit_val c)]"
      using digit_val_is_digit [OF c] by (subst radix_str.simps) simp
    with True snoc.prems(2) digit_val_pos [OF c] digit_char_of_digit [OF c] show ?thesis by (simp add: radix_val_def)
  next
    case False
    with snoc.prems have "is_digits s" "hd s \<noteq> CHR ''0''" by (auto simp: is_digits_def)
    with snoc.IH have "nat_dec (radix_val 10 s) = s" "0 < radix_val 10 s" by auto
    then show ?thesis
      using nat_dec_snoc [of "radix_val 10 s" "digit_val c"] digit_val_is_digit [OF c] digit_char_of_digit [OF c] by simp
  qed
qed (simp add: is_digits_def)

lemma length_nat_dec: "0 < k \<Longrightarrow> length (nat_dec n) \<le> k \<longleftrightarrow> n < 10 ^ k"
proof (induction k arbitrary: n)
  case (Suc k)
  show ?case
  proof (cases "n < 10")
    case True
    moreover have "(10 :: nat) \<le> 10 ^ Suc k" by simp
    ultimately have "n < 10 ^ Suc k" by linarith
    with True show ?thesis by (subst radix_str.simps) simp
  next
    case False
    then have split: "nat_dec n = nat_dec (n div 10) @ [digit_char (n mod 10)]" by (subst radix_str.simps) simp
    show ?thesis
    proof (cases k)
      case 0
      with False show ?thesis by (simp add: split)
    next
      case (Suc j)
      with Suc.IH [of "n div 10"] show ?thesis by (simp add: split div_less_iff_less_mult mult.commute)
    qed
  qed
qed simp

lemma nat_dec_hd: "0 < n \<Longrightarrow> hd (nat_dec n) \<noteq> CHR ''0''"
proof (induction n rule: less_induct)
  case (less n)
  show ?case
  proof (cases "n < 10")
    case True
    have "nat_dec n = [digit_char n]" using True by (subst radix_str.simps) simp
    moreover have "digit_val (digit_char n) \<noteq> digit_val CHR ''0''" using True less.prems by simp
    then have "digit_char n \<noteq> CHR ''0''" by metis
    ultimately show ?thesis by simp
  next
    case False
    then have "nat_dec n = nat_dec (n div 10) @ [digit_char (n mod 10)]" by (subst radix_str.simps) simp
    with less.IH [of "n div 10"] False show ?thesis by simp
  qed
qed

lemma cents_pattern_iff: "cents_pattern s \<longleftrightarrow> (\<exists>n < 10 ^ 16. s = nat_dec n)"
proof
  assume "cents_pattern s"
  then consider "s = ''0''" | "is_digits s" "hd s \<noteq> CHR ''0''" "length s \<le> 16" by (auto simp: cents_pattern_def)
  then show "\<exists>n < 10 ^ 16. s = nat_dec n"
  proof cases
    case 1
    have "nat_dec 0 = ''0''" by (subst radix_str.simps) (simp add: digit_char_0)
    with 1 show ?thesis by (intro exI [of _ 0]) simp
  next
    case 2
    then have "nat_dec (radix_val 10 s) = s" using nat_dec_of_digits by blast
    moreover from this 2(3) have "radix_val 10 s < 10 ^ 16" using length_nat_dec [of 16 "radix_val 10 s"] by simp
    ultimately show ?thesis by metis
  qed
next
  assume "\<exists>n < 10 ^ 16. s = nat_dec n"
  then obtain n where n: "n < 10 ^ 16" "s = nat_dec n" by blast
  show "cents_pattern s"
  proof (cases "n = 0")
    case True
    have "nat_dec 0 = ''0''" by (subst radix_str.simps) (simp add: digit_char_0)
    with True n show ?thesis by (simp add: cents_pattern_def)
  next
    case False
    with n length_nat_dec [of 16 n] nat_dec_hd [of n] show ?thesis by (simp add: cents_pattern_def)
  qed
qed

text \<open>Grouping only inserts commas.\<close>

lemma group_digits_filter: "list_all is_digit s \<Longrightarrow> filter is_digit (group_digits s) = s"
  by (induction s rule: group_digits.induct) (auto simp: is_digit_def)

lemma filter_digits: "list_all is_digit s \<Longrightarrow> filter is_digit s = s"
  by (simp add: list_all_iff)

lemma digits_nat_dec: "list_all is_digit (nat_dec n)"
  using is_digits_nat_dec [of n] by (simp add: is_digits_def)

section \<open>Properties\<close>

text \<open>
  C32. A statement adds up and stays within what the owner agreed to: its totals are the sums of the
  debit lines, the credit lines and the per-line floor fees, and when the debits fit the period budget
  the total never passes \<open>maxObligationCents\<close> of that budget.
\<close>

theorem statement_within_obligation:
  assumes totals: "statementTotals lines feeBps = Inr t" and bps: "assertBps feeBps = Inr ()"
    and budget: "sum_list (debits lines) \<le> budget"
  shows "\<exists>bps m. feeBps = NInt bps \<and> maxObligationCents budget feeBps = Inr m \<and> st_totalCents t \<le> m \<and>
     st_purchasesCents t = sum_list (debits lines) \<and> st_refundsCents t = sum_list (credits lines) \<and>
     st_feeCents t = sum_list (map (fee_of bps) (debits lines)) - sum_list (map (fee_of bps) (credits lines)) \<and>
     st_totalCents t = st_purchasesCents t - st_refundsCents t + st_feeCents t"
proof -
  from bps obtain b where b: "feeBps = NInt b" "0 \<le> b" "b \<le> 1000" by (cases feeBps) (auto simp: assertBps_def)
  from totals b(1) obtain x where x: "statement_loop (NInt b) lines 0 0 0 = Inr x"
    and t: "t = (case x of (p, r, f) \<Rightarrow> \<lparr>st_purchasesCents = p, st_refundsCents = r, st_feeCents = f, st_totalCents = p - r + f\<rparr>)"
    by (auto simp: statementTotals_def result_simps)
  note sums = statement_loop_sums [OF x]
  have nonneg: "\<forall>y \<in> set (debits lines). 0 \<le> y" "\<forall>y \<in> set (credits lines). 0 \<le> y"
    using sums by (auto simp: debits_def credits_def)
  have "0 \<le> budget" using sum_nonneg_list [OF nonneg(1)] budget by linarith
  then have m: "maxObligationCents budget feeBps = Inr (budget + fee_of b budget)"
    using feeCents_ok [OF b(2,3)] b(1) by (simp add: maxObligationCents_def)
  have "sum_list (map (fee_of b) (debits lines)) \<le> fee_of b budget"
    using fees_of_parts [of b "debits lines"] fee_mono [OF b(2) budget] by linarith
  moreover have "0 \<le> sum_list (credits lines)" "0 \<le> sum_list (map (fee_of b) (credits lines))"
    using sum_nonneg_list [OF nonneg(2)] sum_fees_nonneg [OF b(2) nonneg(2)] by auto
  ultimately show ?thesis using sums t b(1) m budget by simp
qed

text \<open>
  Refunds give back a purchase and nothing else: whatever refunds arrive after a capture, those
  that fit are worth at most the captured amount, their fee credits at most its fee, and applying them
  leaves exactly the rest of the charge on top of what was owed before, so the clamp at zero never hides
  a loss.
\<close>

theorem refunds_return_only_the_charge:
  assumes bps: "assertBps feeBps = Inr ()" and amounts: "0 \<le> captured" "0 \<le> owed" "\<forall>a \<in> set refunds. 0 \<le> a"
  shows "\<exists>bps after final. feeBps = NInt bps \<and> outstandingAfterCapture owed captured feeBps = Inr after \<and>
     refund_all feeBps after (refund_run captured 0 refunds) = Inr final \<and>
     sum_list (refund_run captured 0 refunds) \<le> captured \<and>
     sum_list (map (fee_of bps) (refund_run captured 0 refunds)) \<le> fee_of bps captured \<and>
     final = owed + (captured - sum_list (refund_run captured 0 refunds))
       + (fee_of bps captured - sum_list (map (fee_of bps) (refund_run captured 0 refunds))) \<and> owed \<le> final"
proof -
  from bps obtain b where b: "feeBps = NInt b" "0 \<le> b" "b \<le> 1000" by (cases feeBps) (auto simp: assertBps_def)
  let ?rs = "refund_run captured 0 refunds"
  have sum: "sum_list ?rs \<le> captured" using refund_run_bound [of 0 captured refunds] amounts(1) by simp
  have fees: "sum_list (map (fee_of b) ?rs) \<le> fee_of b captured"
    using fees_of_parts [of b ?rs] fee_mono [OF b(2) sum] by linarith
  have after: "outstandingAfterCapture owed captured feeBps = Inr (owed + captured + fee_of b captured)"
    using feeCents_ok [OF b(2,3) amounts(1)] b(1) by (simp add: outstandingAfterCapture_def)
  have "refund_all (NInt b) (owed + captured + fee_of b captured) ?rs =
      Inr (owed + captured + fee_of b captured - (sum_list ?rs + sum_list (map (fee_of b) ?rs)))"
    by (rule refund_all_exact [OF b(2,3) refund_run_nonneg [OF amounts(3)]]) (use sum fees amounts(2) in linarith)
  with b(1) after sum fees show ?thesis by auto
qed

text \<open>
  Wire amounts are canonical: \<open>parseCents\<close> accepts a string exactly when it is the decimal text
  of an amount below 10^16 as \<open>centsToString\<close> prints it, and returns that amount.
\<close>

theorem cents_wire_exact:
  "parseCents (StringVal s) name = Inr v \<longleftrightarrow> 0 \<le> v \<and> v < 10 ^ 16 \<and> centsToString v = Inr s"
proof
  assume "parseCents (StringVal s) name = Inr v"
  then have "cents_pattern s" and v: "v = dec_val s" by (auto split: if_splits)
  then obtain n where n: "n < 10 ^ 16" "s = nat_dec n" by (auto simp: cents_pattern_iff)
  then have "int n < 10 ^ 16" using of_nat_less_iff [of n "10 ^ 16", where 'a = int] by simp
  with n v show "0 \<le> v \<and> v < 10 ^ 16 \<and> centsToString v = Inr s" by (simp add: centsToString_def int_dec_def)
next
  assume v: "0 \<le> v \<and> v < 10 ^ 16 \<and> centsToString v = Inr s"
  then have s: "s = nat_dec (nat v)" by (auto simp: centsToString_def int_dec_def split: if_splits)
  have "nat v < 10 ^ 16" using v by (simp add: nat_less_iff)
  then have "cents_pattern s" using s by (auto simp: cents_pattern_iff)
  then show "parseCents (StringVal s) name = Inr v" using s v by simp
qed

text \<open>
  Dollars are shown exactly: the text has a minus sign only for a credit, exactly two digits
  after the point, and its digits read together are the number of cents; nothing is rounded.
\<close>

theorem usd_display_exact:
  "\<exists>s rest. formatUsdCents (CentsBig v) = Inr s \<and> (starts_with s ''-'' \<longleftrightarrow> v < 0) \<and>
     dec_val (filter is_digit s) = \<bar>v\<bar> \<and> s = take (length s - 3) s @ ''.'' @ rest \<and> length rest = 2 \<and> list_all is_digit rest"
proof -
  define d where "d = nat (\<bar>v\<bar> div 100)"
  define c where "c = nat (\<bar>v\<bar> mod 100)"
  define rest where "rest = pad_start 2 CHR ''0'' (nat_dec c)"
  define s where "s = (if v < 0 then ''-'' else []) @ ''$'' @ group_digits (nat_dec d) @ ''.'' @ rest"
  have cents_part: "\<not> x mod 100 < 0" for x :: int by (simp add: not_less)
  have shown: "formatUsdCents (CentsBig v) = Inr s"
    by (simp add: cents_part formatUsdCents_def Let_def s_def rest_def d_def c_def int_dec_def nat_div_distrib nat_mod_distrib
        pos_imp_zdiv_neg_iff abs_if not_less)
  have c: "c < 100" by (simp add: c_def nat_less_iff)
  have len: "length rest = 2" using length_nat_dec [of 2 c] c by (simp add: rest_def)
  have digits: "list_all is_digit rest"
    using digits_nat_dec [of c] by (auto simp: rest_def pad_start_def is_digit_def list_all_iff)
  have val: "radix_val 10 rest = c" by (simp add: rest_def pad_start_def)
  have "filter is_digit s = nat_dec d @ rest"
    using digits digits_nat_dec by (auto simp: s_def group_digits_filter filter_digits) (simp_all add: is_digit_def)
  then have "radix_val 10 (filter is_digit s) = d * 100 + c" by (simp add: radix_val_append len val)
  moreover have "int (d * 100 + c) = \<bar>v\<bar>" by (simp add: d_def c_def pos_imp_zdiv_nonneg_iff)
  ultimately have "dec_val (filter is_digit s) = \<bar>v\<bar>" by (simp add: dec_val_def)
  moreover have "s = take (length s - 3) s @ ''.'' @ rest" using len by (simp add: s_def)
  moreover have "starts_with s ''-'' \<longleftrightarrow> v < 0" by (simp add: s_def)
  ultimately show ?thesis using shown len digits by blast
qed

section \<open>Examples\<close>

definition sample_lines :: "StatementLineInput list" where
  "sample_lines = [\<lparr>sl_kind = Purchase, sl_amountCents = 20000\<rparr>, \<lparr>sl_kind = Refund, sl_amountCents = 1000\<rparr>,
     \<lparr>sl_kind = AdjustmentDebit, sl_amountCents = 30000\<rparr>]"

theorem statement_within_obligation_witness:
  "\<exists>t m. statementTotals sample_lines (NInt 50) = Inr t \<and> maxObligationCents 50000 (NInt 50) = Inr m \<and> st_totalCents t \<le> m"
proof -
  obtain t where t: "statementTotals sample_lines (NInt 50) = Inr t"
    by (simp add: statementTotals_def sample_lines_def feeCents_def assertBps_def)
  from statement_within_obligation [OF t, of 50000] t show ?thesis
    by (auto simp: assertBps_def sample_lines_def debits_def)
qed

theorem refunds_return_only_the_charge_witness:
  "\<exists>after final. outstandingAfterCapture 100 1999 (NInt 50) = Inr after \<and>
     refund_all (NInt 50) after (refund_run 1999 0 [1000, 5000, 999]) = Inr final \<and> 100 \<le> final"
  using refunds_return_only_the_charge [of "NInt 50" 1999 100 "[1000, 5000, 999]"] by (auto simp: assertBps_def)

end
