(* ===== verification/CardCommitment.thy ===== *)
theory CardCommitment
  imports CardAccounts CardMath Delivery
begin

text \<open>
  \<open>sdk/src/cards/commitment.ts\<close>: the salted commitment leaves of a card, their Merkle tree, the
  disclosure bundles and their verification. Strings are Latin-1 texts, a leaf index is a natural
  number below \<open>2^31\<close> (the bitwise operations of the code are then division and remainder by 2), and a
  value that \<open>BigInt\<close> or \<open>DataView\<close> refuses is the error \<open>RangeError\<close>. The constructor \<open>new PublicKey\<close> is the
  same parser \<open>publicKey\<close> wraps; only the text of its error differs. The URL fragment's text layer
  (\<open>JSON.parse\<close> and \<open>TextDecoder\<close>) is not modelled; the strict parse of the parsed value is.
\<close>

section \<open>Bytes\<close>

definition COMMITMENT_LEAF_COUNT :: nat where "COMMITMENT_LEAF_COUNT = 16"

definition LEAF_DOMAIN :: string where "LEAF_DOMAIN = ''chainpay-card-leaf:v1\<newline>''"

definition sha256 :: "crypto \<Rightarrow> bytes list \<Rightarrow> bytes" where
  "sha256 C parts = cr_sha256 C (concat_bytes parts)"

definition lowerHexToBytes :: "string \<Rightarrow> bytes result" where
  "lowerHexToBytes value =
     (if length value mod 2 \<noteq> 0 \<or> \<not> list_all is_lower_hex value then Inl ''Expected lowercase hex''
      else Inr (map (\<lambda>i. parse_hex_byte (slice value (2 * i) 2)) [0..<length value div 2]))"

text \<open>\<open>le\<close>: the low bytes of the value; the view's setters reduce it modulo the width.\<close>

definition le_field :: "int \<Rightarrow> nat \<Rightarrow> bytes" where
  "le_field value n = le_bytes n value"

definition big_int :: "jsnum \<Rightarrow> int result" where
  "big_int x = (case x of NInt v \<Rightarrow> Inr v | NonInt t \<Rightarrow> Inl ''RangeError'')"

fun compareBytes :: "bytes \<Rightarrow> bytes \<Rightarrow> int" where
  "compareBytes (x # xs) (y # ys) = (if x \<noteq> y then uint x - uint y else compareBytes xs ys)"
| "compareBytes xs ys = int (length xs) - int (length ys)"

text \<open>\<open>sort(compare)\<close>: the stable sort.\<close>

fun insert_by :: "('a \<Rightarrow> 'a \<Rightarrow> int) \<Rightarrow> 'a \<Rightarrow> 'a list \<Rightarrow> 'a list" where
  "insert_by cmp x [] = [x]"
| "insert_by cmp x (y # ys) = (if cmp x y \<le> 0 then x # y # ys else y # insert_by cmp x ys)"

fun sort_by :: "('a \<Rightarrow> 'a \<Rightarrow> int) \<Rightarrow> 'a list \<Rightarrow> 'a list" where
  "sort_by cmp [] = []"
| "sort_by cmp (x # xs) = insert_by cmp x (sort_by cmp xs)"

fun RECOVERY_BYTE :: "CardRecoveryState \<Rightarrow> byte" where
  "RECOVERY_BYTE RecoveryNormal = 0"
| "RECOVERY_BYTE RecoveryFrozen = 1"
| "RECOVERY_BYTE RestoredPendingReconcile = 2"

section \<open>Leaves\<close>

definition flag :: "bool \<Rightarrow> byte" where "flag b = (if b then 1 else 0)"

definition commitmentLeafValues :: "crypto \<Rightarrow> web3 \<Rightarrow> CardPolicy \<Rightarrow> CardPeriod \<Rightarrow> bytes list result" where
  "commitmentLeafValues C W policy period =
     (let merchants = sort_by compareBytes (cp_merchantIdHashes policy) in
      bindR (publicKey W (cp_binding policy)) (\<lambda>binding.
      bindR (big_int (cp_policyVersion policy)) (\<lambda>version.
      bindR (big_int (cp_maxPurchasesPerPeriod policy)) (\<lambda>maxPurchases.
      bindR (mapR big_int (cp_mccs policy)) (\<lambda>mccs.
      bindR (big_int (cp_feeBps policy)) (\<lambda>fee.
      bindR (big_int (pd_periodIndex period)) (\<lambda>index.
      bindR (big_int (pd_purchasesCount period)) (\<lambda>purchases.
      Inr [binding,
           le_field version 4,
           le_field (cp_budgetCents policy) 8,
           le_field (cp_maxPurchaseCents policy) 8,
           le_field maxPurchases 2,
           sha256 C merchants,
           sha256 C [concat (map (\<lambda>mcc. le_field mcc 2) (sort_by (-) mccs))],
           le_field (cp_expiresAt policy) 8 @ [flag (cp_recurringAllowed policy)] @ le_field fee 2,
           le_field index 4 @ le_field (pd_periodStart period) 8 @ le_field (pd_periodEnd period) 8,
           le_field (pd_capturedCents period) 8,
           le_field (pd_reservedCents period) 8,
           le_field (pd_refundedCents period) 8,
           le_field purchases 2,
           le_field (cp_statementOutstandingCents policy) 8,
           [flag (cp_frozen policy), RECOVERY_BYTE (cp_recoveryState policy)],
           cp_ledgerHead policy @ le_field (cp_ledgerSeq policy) 8]))))))))"

definition leafSalt :: "crypto \<Rightarrow> bytes \<Rightarrow> nat \<Rightarrow> bytes result" where
  "leafSalt C masterSalt index =
     bindR (require (length masterSalt = 32) ''master salt must be 32 bytes'') (\<lambda>_.
     Inr (sha256 C [masterSalt, [word_of_nat index]]))"

definition leaf_input :: "nat \<Rightarrow> bytes \<Rightarrow> bytes \<Rightarrow> bytes list" where
  "leaf_input index salt value = [str_bytes LEAF_DOMAIN, [word_of_nat index], salt, value]"

definition leafHash :: "crypto \<Rightarrow> nat \<Rightarrow> bytes \<Rightarrow> bytes \<Rightarrow> bytes" where
  "leafHash C index salt value = sha256 C (leaf_input index salt value)"

definition nodeHash :: "crypto \<Rightarrow> bytes \<Rightarrow> bytes \<Rightarrow> bytes" where
  "nodeHash C left right = sha256 C [[1], left, right]"

text \<open>The inner loop of \<open>levels\<close>. It only meets levels of even length: 16, 8, 4 and 2.\<close>

fun next_level :: "crypto \<Rightarrow> bytes list \<Rightarrow> bytes list" where
  "next_level C (l # r # rest) = nodeHash C l r # next_level C rest"
| "next_level C _ = []"

lemma length_next_level [simp]: "length (next_level C xs) = length xs div 2"
  by (induction C xs rule: next_level.induct) auto

function level_loop :: "crypto \<Rightarrow> bytes list \<Rightarrow> bytes list list" where
  "level_loop C level = (if length level > 1 then level # level_loop C (next_level C level) else [level])"
  by auto
termination by (relation "measure (\<lambda>(C, level). length level)") auto

declare level_loop.simps [simp del]

definition levels :: "crypto \<Rightarrow> bytes list \<Rightarrow> bytes list list result" where
  "levels C leaves =
     bindR (require (length leaves = COMMITMENT_LEAF_COUNT) ''a commitment has exactly 16 leaves'') (\<lambda>_.
     Inr (level_loop C leaves))"

definition leaf_salts :: "crypto \<Rightarrow> bytes \<Rightarrow> nat \<Rightarrow> bytes list result" where
  "leaf_salts C masterSalt n = mapR (leafSalt C masterSalt) [0..<n]"

definition leaf_hashes :: "crypto \<Rightarrow> bytes list \<Rightarrow> bytes list \<Rightarrow> bytes list" where
  "leaf_hashes C salts vals = map (\<lambda>i. leafHash C i (salts ! i) (vals ! i)) [0..<length vals]"

definition commitmentRoot :: "crypto \<Rightarrow> web3 \<Rightarrow> CardPolicy \<Rightarrow> CardPeriod \<Rightarrow> bytes \<Rightarrow> bytes result" where
  "commitmentRoot C W policy period masterSalt =
     bindR (commitmentLeafValues C W policy period) (\<lambda>vals.
     bindR (leaf_salts C masterSalt (length vals)) (\<lambda>salts.
     bindR (levels C (leaf_hashes C salts vals)) (\<lambda>tree.
     Inr (last tree ! 0))))"

section \<open>Disclosure\<close>

record DisclosedLeaf =
  dl_i :: nat
  dl_value :: string
  dl_leafSalt :: string
  dl_proof :: "string list"

record DisclosureBundle =
  db_binding :: address
  db_commitmentSeq :: string
  db_leaves :: "DisclosedLeaf list"

text \<open>\<open>idx ^ 1\<close>\<close>

definition sibling :: "nat \<Rightarrow> nat" where
  "sibling idx = (if even idx then idx + 1 else idx - 1)"

fun proof_path :: "bytes list list \<Rightarrow> nat \<Rightarrow> bytes list" where
  "proof_path (level # upper # tree) idx = level ! sibling idx # proof_path (upper # tree) (idx div 2)"
| "proof_path _ idx = []"

text \<open>\<open>[...new Set(xs)]\<close>: first occurrences, in order.\<close>

fun js_unique :: "'a list \<Rightarrow> 'a list" where
  "js_unique [] = []"
| "js_unique (x # xs) = x # js_unique (filter (\<lambda>y. y \<noteq> x) xs)"

definition disclosed_leaf :: "bytes list \<Rightarrow> bytes list \<Rightarrow> bytes list list \<Rightarrow> nat \<Rightarrow> DisclosedLeaf" where
  "disclosed_leaf vals salts tree i =
     \<lparr>dl_i = i, dl_value = bytesToHex (vals ! i), dl_leafSalt = bytesToHex (salts ! i),
      dl_proof = map bytesToHex (proof_path tree i)\<rparr>"

definition buildDisclosureBundle ::
  "crypto \<Rightarrow> web3 \<Rightarrow> CardPolicy \<Rightarrow> CardPeriod \<Rightarrow> bytes \<Rightarrow> int \<Rightarrow> jsnum list \<Rightarrow> DisclosureBundle result" where
  "buildDisclosureBundle C W policy period masterSalt commitmentSeq indices =
     (let unique = js_unique indices in
      bindR (require (unique \<noteq> []) ''Pick at least one field to share'') (\<lambda>_.
      bindR (require (list_all (num_in 0 15) unique) ''Unknown field'') (\<lambda>_.
      bindR (commitmentLeafValues C W policy period) (\<lambda>vals.
      bindR (leaf_salts C masterSalt (length vals)) (\<lambda>salts.
      bindR (levels C (leaf_hashes C salts vals)) (\<lambda>tree.
      bindR (address W (cp_binding policy)) (\<lambda>binding.
      Inr \<lparr>db_binding = binding, db_commitmentSeq = int_dec commitmentSeq,
           db_leaves = map (disclosed_leaf vals salts tree)
             (map (\<lambda>v. nat (num_val v)) (sort_by (\<lambda>a b. num_val a - num_val b) unique))\<rparr>)))))))"

section \<open>The strict parse of a shared record\<close>

text \<open>\<open>decodeDisclosureFragment\<close>, from the value \<open>JSON.parse\<close> returned.\<close>

definition seq_text :: "jstext \<Rightarrow> bool" where
  "seq_text s \<longleftrightarrow> s = jstr ''0'' \<or>
     (s \<noteq> [] \<and> 49 \<le> hd s \<and> hd s \<le> 57 \<and> length s \<le> 20 \<and> list_all (\<lambda>c. 48 \<le> c \<and> c \<le> 57) s)"

fun hex_member :: "json option \<Rightarrow> (string \<times> bytes) result" where
  "hex_member (Some (JStr s)) =
     (if list_ex (\<lambda>c. c \<ge> 256) s then Inl ''Expected lowercase hex''
      else bindR (lowerHexToBytes (text_string s)) (\<lambda>b. Inr (text_string s, b)))"
| "hex_member _ = Inl ''Expected lowercase hex''"

fun read_node :: "json \<Rightarrow> string result" where
  "read_node (JStr s) = bindR (hex_member (Some (JStr s))) (\<lambda>(t, b).
     bindR (require (length b = 32) ''A field's proof has the wrong shape'') (\<lambda>_. Inr t))"
| "read_node _ = Inl ''A field's proof has the wrong shape''"

fun read_proof :: "json option \<Rightarrow> string list result" where
  "read_proof (Some (JArr nodes)) =
     bindR (require (length nodes = 4) ''A field's proof has the wrong shape'') (\<lambda>_. mapR read_node nodes)"
| "read_proof _ = Inl ''A field's proof has the wrong shape''"

fun read_leaf :: "nat set \<Rightarrow> json \<Rightarrow> DisclosedLeaf result" where
  "read_leaf seen (JObj leaf) =
     (case map_of leaf (jstr ''i'') of
        Some (JNum (NInt i)) \<Rightarrow>
          if i < 0 \<or> i \<ge> int COMMITMENT_LEAF_COUNT \<or> nat i \<in> seen then Inl ''The card record has an unknown field''
          else
            bindR (hex_member (map_of leaf (jstr ''value''))) (\<lambda>(value, _).
            bindR (hex_member (map_of leaf (jstr ''leafSalt''))) (\<lambda>(salt, bytes).
            bindR (require (length bytes = 32) ''A field's salt has the wrong length'') (\<lambda>_.
            bindR (read_proof (map_of leaf (jstr ''proof''))) (\<lambda>proof.
            Inr \<lparr>dl_i = nat i, dl_value = value, dl_leafSalt = salt, dl_proof = proof\<rparr>))))
      | _ \<Rightarrow> Inl ''The card record has an unknown field'')"
| "read_leaf seen _ = Inl ''The card record has an unknown field''"

fun read_leaves :: "nat set \<Rightarrow> json list \<Rightarrow> DisclosedLeaf list result" where
  "read_leaves seen [] = Inr []"
| "read_leaves seen (l # ls) =
     bindR (read_leaf seen l) (\<lambda>leaf. bindR (read_leaves (insert (dl_i leaf) seen) ls) (\<lambda>rest. Inr (leaf # rest)))"

fun readDisclosureBundle :: "web3 \<Rightarrow> json \<Rightarrow> DisclosureBundle result" where
  "readDisclosureBundle W JNull = Inl ''TypeError''"
| "readDisclosureBundle W (JObj raw) =
     bindR (require (map_of raw (jstr ''v'') = Some (JNum (NInt 1))) ''Unsupported card record version'') (\<lambda>_.
     bindR (fetch (string_member (map_of raw (jstr ''binding''))) ''The card record has no card link'') (\<lambda>binding.
     bindR (address_text W binding) (\<lambda>_.
     bindR (fetch (string_member (map_of raw (jstr ''commitmentSeq''))) ''The card record has no commitment number'') (\<lambda>seq.
     bindR (require (seq_text seq) ''The card record has no commitment number'') (\<lambda>_.
     bindR (case map_of raw (jstr ''leaves'') of
              Some (JArr ls) \<Rightarrow> if length ls = 0 \<or> length ls > COMMITMENT_LEAF_COUNT then Inl ''The card record has no fields'' else Inr ls
            | _ \<Rightarrow> Inl ''The card record has no fields'') (\<lambda>ls.
     bindR (read_leaves {} ls) (\<lambda>leaves.
     Inr \<lparr>db_binding = text_string binding, db_commitmentSeq = text_string seq, db_leaves = leaves\<rparr>)))))))"
| "readDisclosureBundle W _ = Inl ''Unsupported card record version''"

section \<open>Display\<close>

record CommitmentFieldView =
  fv_i :: nat
  fv_label :: string
  fv_value :: string
  fv_detail :: "string option"

definition COMMITMENT_FIELD_LABELS :: "string list" where
  "COMMITMENT_FIELD_LABELS =
     [''Card'', ''Rules version'', ''Budget per period'', ''Max per purchase'', ''Purchases allowed per period'',
      ''Shop list fingerprint'', ''Category list fingerprint'', ''End date and fee'', ''Period'', ''Charged this period'',
      ''Held right now'', ''Refunded this period'', ''Purchases this period'', ''Owed on the statement'', ''Frozen'',
      ''Activity log position'']"

definition EXPECTED_LENGTH :: "nat list" where
  "EXPECTED_LENGTH = [32, 4, 8, 8, 2, 32, 32, 11, 20, 8, 8, 8, 2, 8, 2, 40]"

definition readLe :: "bytes \<Rightarrow> nat \<Rightarrow> nat \<Rightarrow> int" where
  "readLe bytes offset width = le_val (slice bytes offset width)"

definition readLeSigned :: "bytes \<Rightarrow> nat \<Rightarrow> int" where
  "readLeSigned bytes offset = le_sval (slice bytes offset 8)"

text \<open>
  The civil date of a day number (counted from 1970-01-01), and the first ten characters of
  \<open>toISOString\<close>: a year outside 0 to 9999 is printed with a sign and six digits.
\<close>

definition civil_from_days :: "int \<Rightarrow> int \<times> int \<times> int" where
  "civil_from_days days =
     (let z = days + 719468; era = z div 146097; doe = z - era * 146097;
          yoe = (doe - doe div 1460 + doe div 36524 - doe div 146096) div 365;
          doy = doe - (365 * yoe + yoe div 4 - yoe div 100); mp = (5 * doy + 2) div 153;
          d = doy - (153 * mp + 2) div 5 + 1; m = (if mp < 10 then mp + 3 else mp - 9);
          y = yoe + era * 400 + (if m \<le> 2 then 1 else 0)
      in (y, m, d))"

definition padded :: "nat \<Rightarrow> int \<Rightarrow> string" where
  "padded n v = pad_start n CHR ''0'' (int_dec v)"

definition iso_day :: "int \<Rightarrow> string" where
  "iso_day days =
     (case civil_from_days days of (y, m, d) \<Rightarrow>
        take 10 ((if 0 \<le> y \<and> y \<le> 9999 then padded 4 y else (if y < 0 then ''-'' else ''+'') @ padded 6 \<bar>y\<bar>)
          @ ''-'' @ padded 2 m @ ''-'' @ padded 2 d))"

text \<open>The bound is \<open>8.64e15\<close> milliseconds; the products below it are exact numbers.\<close>

definition dateFromSeconds :: "int \<Rightarrow> string" where
  "dateFromSeconds seconds =
     (if \<bar>seconds\<bar> \<le> 8640000000000 then iso_day (seconds div 86400) else ''unix '' @ int_dec seconds)"

definition describeCommitmentLeaf :: "web3 \<Rightarrow> nat \<Rightarrow> bytes \<Rightarrow> CommitmentFieldView result" where
  "describeCommitmentLeaf W i value =
     (let label = (if i < length COMMITMENT_FIELD_LABELS then COMMITMENT_FIELD_LABELS ! i else ''Field '' @ int_dec (int i));
          view = (\<lambda>v d. \<lparr>fv_i = i, fv_label = label, fv_value = v, fv_detail = d\<rparr>) in
      if i \<ge> length EXPECTED_LENGTH \<or> length value \<noteq> EXPECTED_LENGTH ! i then Inr (view ''Unreadable value'' None)
      else if i = 0 then Inr (view (to_base58 W value) None)
      else if i = 1 then Inr (view (''Version '' @ int_dec (readLe value 0 4)) None)
      else if i \<in> {2, 3, 9, 10, 11, 13} then bindR (formatUsdCents (CentsBig (readLe value 0 8))) (\<lambda>c. Inr (view c None))
      else if i = 4 then
        Inr (view (if readLe value 0 2 = 0 then ''No count limit'' else int_dec (readLe value 0 2)) None)
      else if i = 12 then Inr (view (int_dec (readLe value 0 2)) None)
      else if i \<in> {5, 6} then Inr (view (take 16 (bytesToHex value)) (Some (bytesToHex value)))
      else if i = 7 then
        (let end = readLeSigned value 0; fee = readLe value 9 2 in
         bindR (if fee \<le> 1000 then formatFeeBps (NInt fee) else Inr (int_dec fee @ '' bps'')) (\<lambda>f.
         Inr (view ((if end = 0 then ''No end date'' else ''Ends '' @ dateFromSeconds end) @ '' '' @ [char_of (183::nat)] @ '' fee '' @ f)
           (Some (if value ! 8 \<noteq> 0 then ''Repeat charges allowed'' else ''No repeat charges'')))))
      else if i = 8 then
        Inr (view (''Period '' @ int_dec (readLe value 0 4))
          (Some (dateFromSeconds (readLeSigned value 4) @ '' to '' @ dateFromSeconds (readLeSigned value 12))))
      else if i = 14 then
        Inr (view (if value ! 0 \<noteq> 0 then ''Frozen'' else ''Not frozen'')
          (Some (if value ! 1 = 0 then ''Normal'' else if value ! 1 = 1 then ''Frozen for recovery''
                 else if value ! 1 = 2 then ''Restored, waiting for confirmation'' else ''Unknown recovery state'')))
      else Inr (view (''Event '' @ int_dec (readLe value 32 8)) (Some (bytesToHex (take 32 value)))))"

section \<open>Verification\<close>

record DisclosureLeafCheck =
  lc_i :: nat
  lc_ok :: bool
  lc_field :: CommitmentFieldView

datatype DisclosureCheck =
    Verified string string string "DisclosureLeafCheck list"
  | Mismatch string string string "DisclosureLeafCheck list"
  | Superseded string string "DisclosureLeafCheck list"
  | WrongCard "DisclosureLeafCheck list"

fun root_loop :: "crypto \<Rightarrow> nat \<Rightarrow> bytes \<Rightarrow> string list \<Rightarrow> bytes result" where
  "root_loop C idx acc [] = Inr acc"
| "root_loop C idx acc (s # rest) =
     bindR (lowerHexToBytes s) (\<lambda>node.
     root_loop C (idx div 2) (if idx mod 2 = 0 then nodeHash C acc node else nodeHash C node acc) rest)"

definition recomputeDisclosedRoot :: "crypto \<Rightarrow> DisclosedLeaf \<Rightarrow> bytes result" where
  "recomputeDisclosedRoot C leaf =
     bindR (lowerHexToBytes (dl_leafSalt leaf)) (\<lambda>salt.
     bindR (lowerHexToBytes (dl_value leaf)) (\<lambda>value.
     root_loop C (dl_i leaf) (leafHash C (dl_i leaf) salt value) (dl_proof leaf)))"

definition describe_leaf :: "web3 \<Rightarrow> DisclosedLeaf \<Rightarrow> DisclosureLeafCheck result" where
  "describe_leaf W leaf =
     bindR (lowerHexToBytes (dl_value leaf)) (\<lambda>v.
     bindR (describeCommitmentLeaf W (dl_i leaf) v) (\<lambda>f. Inr \<lparr>lc_i = dl_i leaf, lc_ok = False, lc_field = f\<rparr>))"

definition verifyDisclosureBundle :: "crypto \<Rightarrow> web3 \<Rightarrow> DisclosureBundle \<Rightarrow> CardCommitment \<Rightarrow> DisclosureCheck result" where
  "verifyDisclosureBundle C W bundle commitment =
     bindR (mapR (describe_leaf W) (db_leaves bundle)) (\<lambda>described.
     bindR (address W (cc_binding commitment)) (\<lambda>chain.
     bindR (address W (db_binding bundle)) (\<lambda>shared.
     if chain \<noteq> shared then Inr (WrongCard described)
     else
       bindR (publicKey W (db_binding bundle)) (\<lambda>key.
       if (case find (\<lambda>leaf. dl_i leaf = 0) (db_leaves bundle) of
             Some bindingLeaf \<Rightarrow> dl_value bindingLeaf \<noteq> bytesToHex key | None \<Rightarrow> False)
       then Inr (WrongCard described)
       else if int_dec (cc_seq commitment) \<noteq> db_commitmentSeq bundle
         then Inr (Superseded (db_commitmentSeq bundle) (int_dec (cc_seq commitment)) described)
         else
           let root = bytesToHex (cc_root commitment) in
           bindR (mapR (\<lambda>(leaf, d). bindR (recomputeDisclosedRoot C leaf) (\<lambda>r. Inr (d\<lparr>lc_ok := bytesToHex r = root\<rparr>)))
             (zip (db_leaves bundle) described)) (\<lambda>leaves.
           Inr ((if list_all lc_ok leaves then Verified else Mismatch)
             (int_dec (cc_seq commitment)) root (int_dec (cc_writtenSlot commitment)) leaves))))))"

section \<open>The tree\<close>

lemma lowerHex_bytes [simp]: "lowerHexToBytes (bytesToHex b) = Inr b"
proof -
  have "map (\<lambda>i. parse_hex_byte (slice (hex_str b) (2 * i) 2)) [0..<length b] = b"
    by (rule nth_equalityI) (simp_all add: hex_str_nth_pair)
  then show ?thesis using hex_str_lower [of b] by (simp add: bytesToHex_eq lowerHexToBytes_def)
qed

lemma bytesToHex_inject [simp]: "bytesToHex a = bytesToHex b \<longleftrightarrow> a = b"
  by (simp add: bytesToHex_eq hex_str_inject)

text \<open>Climbing from a leaf with the sibling hashes, on bytes.\<close>

definition join_nodes :: "nat \<Rightarrow> bytes \<Rightarrow> bytes \<Rightarrow> bytes list" where
  "join_nodes idx acc node = (if idx mod 2 = 0 then [[1], acc, node] else [[1], node, acc])"

fun climb :: "crypto \<Rightarrow> nat \<Rightarrow> bytes \<Rightarrow> bytes list \<Rightarrow> bytes" where
  "climb C idx acc [] = acc"
| "climb C idx acc (node # rest) = climb C (idx div 2) (sha256 C (join_nodes idx acc node)) rest"

lemma root_loop_climb: "mapR lowerHexToBytes proof = Inr nodes \<Longrightarrow> root_loop C idx acc proof = Inr (climb C idx acc nodes)"
proof (induction C idx acc "proof" arbitrary: nodes rule: root_loop.induct)
  case (2 C idx acc s rest)
  then obtain node more_nodes where n: "lowerHexToBytes s = Inr node" "mapR lowerHexToBytes rest = Inr more_nodes" "nodes = node # more_nodes"
    by (auto simp: result_simps)
  have "(if idx mod 2 = 0 then nodeHash C acc node else nodeHash C node acc) = sha256 C (join_nodes idx acc node)"
    by (simp add: join_nodes_def nodeHash_def)
  with 2(1) [OF n(2)] n show ?case by simp
qed simp

lemma next_level_nth: "2 * j + 1 < length xs \<Longrightarrow> next_level C xs ! j = nodeHash C (xs ! (2 * j)) (xs ! (2 * j + 1))"
proof (induction C xs arbitrary: j rule: next_level.induct)
  case (1 C l r rest)
  then show ?case by (cases j) auto
qed auto

lemma level_loop_split: "\<exists>upper. level_loop C level = level # upper"
  by (subst level_loop.simps) simp

lemma climb_reaches_root:
  assumes "length level = 2 ^ k" and "i < 2 ^ k"
  shows "climb C i (level ! i) (proof_path (level_loop C level) i) = last (level_loop C level) ! 0 \<and>
    length (proof_path (level_loop C level) i) = k"
  using assms
proof (induction k arbitrary: level i)
  case 0
  then show ?case by (subst (1 2 3) level_loop.simps) simp
next
  case (Suc k)
  let ?up = "next_level C level"
  have len: "length ?up = 2 ^ k" "i div 2 < 2 ^ k" using Suc.prems by auto
  obtain upper where upper: "level_loop C ?up = ?up # upper" using level_loop_split by blast
  have "1 < length level" unfolding Suc.prems(1) power_Suc using zero_less_power [of "2 :: nat" k] by linarith
  then have loop: "level_loop C level = level # level_loop C ?up"
    by (subst level_loop.simps) simp
  have join: "sha256 C (join_nodes i (level ! i) (level ! sibling i)) = ?up ! (i div 2)"
  proof (cases "even i")
    case True
    then obtain j where "i = 2 * j" by blast
    moreover have "2 * j + 1 < length level"
    proof -
      have "j < 2 ^ k" using Suc.prems(2) \<open>i = 2 * j\<close> by simp
      then show ?thesis unfolding Suc.prems(1) power_Suc by linarith
    qed
    ultimately show ?thesis
      by (simp add: next_level_nth join_nodes_def sibling_def nodeHash_def)
  next
    case False
    then obtain j where "i = 2 * j + 1" by (blast elim: oddE)
    with Suc.prems show ?thesis
      by (simp add: next_level_nth join_nodes_def sibling_def nodeHash_def)
  qed
  show ?case using Suc.IH [OF len] join by (simp add: loop upper)
qed

lemma next_level_size: "(\<And>x. length (cr_sha256 C x) = 32) \<Longrightarrow> \<forall>n \<in> set (next_level C level). length n = 32"
  by (induction C level rule: next_level.induct) (auto simp: nodeHash_def sha256_def)

lemma path_nodes_size:
  assumes size: "\<And>x. length (cr_sha256 C x) = 32"
    and "length level = 2 ^ k" and "i < 2 ^ k" and "\<forall>n \<in> set level. length n = 32"
  shows "\<forall>n \<in> set (proof_path (level_loop C level) i). length n = 32"
  using assms(2-)
proof (induction k arbitrary: level i)
  case 0
  then show ?case by (subst level_loop.simps) simp
next
  case (Suc k)
  let ?up = "next_level C level"
  obtain upper where upper: "level_loop C ?up = ?up # upper" using level_loop_split by blast
  have "1 < length level" unfolding Suc.prems(1) power_Suc using zero_less_power [of "2 :: nat" k] by linarith
  then have loop: "level_loop C level = level # level_loop C ?up" by (subst level_loop.simps) simp
  have "sibling i < length level" using Suc.prems(1,2) by (auto simp: sibling_def elim!: evenE)
  then have "length (level ! sibling i) = 32" using Suc.prems(3) by simp
  moreover have "\<forall>n \<in> set (proof_path (level_loop C ?up) (i div 2)). length n = 32"
    by (rule Suc.IH) (use Suc.prems next_level_size [OF size] in auto)
  ultimately show ?case by (simp add: loop upper)
qed

lemma mapR_hex [simp]: "mapR lowerHexToBytes (map bytesToHex ns) = Inr ns"
  by (induction ns) simp_all

lemma length_leaf_values: "commitmentLeafValues C W policy period = Inr vals \<Longrightarrow> length vals = 16"
  by (auto simp: commitmentLeafValues_def Let_def result_simps)

lemma leaf_values_binding:
  "commitmentLeafValues C W policy period = Inr vals \<Longrightarrow> publicKey W (cp_binding policy) = Inr (vals ! 0)"
  by (auto simp: commitmentLeafValues_def Let_def result_simps)

lemma leaf_salts_eq:
  "leaf_salts C masterSalt n = Inr salts \<Longrightarrow> length salts = n \<and>
    (\<forall>i < n. salts ! i = sha256 C [masterSalt, [word_of_nat i]])"
  by (auto simp: leaf_salts_def mapR_eq_Inr leafSalt_def result_simps list_all2_conv_all_nth)

text \<open>The data behind a commitment: values, salts and the tree over their hashes.\<close>

definition committed :: "crypto \<Rightarrow> web3 \<Rightarrow> CardPolicy \<Rightarrow> CardPeriod \<Rightarrow> bytes \<Rightarrow> bytes list \<Rightarrow> bytes list \<Rightarrow> bytes list list \<Rightarrow> bool" where
  "committed C W policy period masterSalt vals salts tree \<longleftrightarrow>
     commitmentLeafValues C W policy period = Inr vals \<and> leaf_salts C masterSalt (length vals) = Inr salts \<and>
     levels C (leaf_hashes C salts vals) = Inr tree"

lemma committed_unique:
  assumes "committed C W policy period masterSalt vals salts tree" and "committed C W policy period masterSalt vals' salts' tree'"
  shows "vals' = vals \<and> salts' = salts \<and> tree' = tree"
  using assms by (auto simp: committed_def)

lemma commitmentRoot_iff:
  "commitmentRoot C W policy period masterSalt = Inr root \<longleftrightarrow>
     (\<exists>vals salts tree. committed C W policy period masterSalt vals salts tree \<and> root = last tree ! 0)"
  by (auto simp: commitmentRoot_def committed_def result_simps)

lemma committed_recompute:
  assumes "committed C W policy period masterSalt vals salts tree" and "i < 16"
  shows "recomputeDisclosedRoot C (disclosed_leaf vals salts tree i) = Inr (last tree ! 0)"
    and "length (proof_path tree i) = 4"
proof -
  have len: "length vals = 16" using assms(1) length_leaf_values by (auto simp: committed_def)
  have tree: "tree = level_loop C (leaf_hashes C salts vals)"
    using assms(1) by (auto simp: committed_def levels_def result_simps)
  have leaf: "leaf_hashes C salts vals ! i = leafHash C i (salts ! i) (vals ! i)"
    using len assms(2) by (simp add: leaf_hashes_def)
  have "length (leaf_hashes C salts vals) = 2 ^ 4" "i < 2 ^ 4" using len assms(2) by (simp_all add: leaf_hashes_def)
  note climb = climb_reaches_root [OF this, of C, folded tree, unfolded leaf]
  show "length (proof_path tree i) = 4" using climb by blast
  show "recomputeDisclosedRoot C (disclosed_leaf vals salts tree i) = Inr (last tree ! 0)"
    using climb by (simp add: recomputeDisclosedRoot_def disclosed_leaf_def root_loop_climb)
qed

section \<open>Binding\<close>

text \<open>Everything that is hashed while a disclosed leaf is checked, from the leaf up.\<close>

fun climb_inputs :: "crypto \<Rightarrow> nat \<Rightarrow> bytes \<Rightarrow> bytes list \<Rightarrow> bytes list" where
  "climb_inputs C idx acc [] = []"
| "climb_inputs C idx acc (node # rest) =
     concat (join_nodes idx acc node) # climb_inputs C (idx div 2) (sha256 C (join_nodes idx acc node)) rest"

definition hash_inputs :: "crypto \<Rightarrow> DisclosedLeaf \<Rightarrow> bytes list" where
  "hash_inputs C leaf =
     (case (lowerHexToBytes (dl_leafSalt leaf), lowerHexToBytes (dl_value leaf), mapR lowerHexToBytes (dl_proof leaf)) of
        (Inr salt, Inr value, Inr nodes) \<Rightarrow>
          concat (leaf_input (dl_i leaf) salt value) # climb_inputs C (dl_i leaf) (leafHash C (dl_i leaf) salt value) nodes
      | _ \<Rightarrow> [])"

definition collides :: "crypto \<Rightarrow> bytes list \<Rightarrow> bytes list \<Rightarrow> bool" where
  "collides C xs ys \<longleftrightarrow>
     (\<exists>k < length xs. k < length ys \<and> xs ! k \<noteq> ys ! k \<and> cr_sha256 C (xs ! k) = cr_sha256 C (ys ! k))"

lemma collides_Cons:
  "collides C (x # xs) (y # ys) \<longleftrightarrow> x \<noteq> y \<and> cr_sha256 C x = cr_sha256 C y \<or> collides C xs ys"
  by (simp add: collides_def Ex_less_Suc2 conj_disj_distribL)

lemma join_nodes_inject:
  assumes "concat (join_nodes idx a n) = concat (join_nodes idx b m)" and "length a = 32" "length b = 32" "length n = 32" "length m = 32"
  shows "a = b"
  using assms by (auto simp: join_nodes_def split: if_splits)

lemma climb_binding:
  assumes size: "\<And>x. length (cr_sha256 C x) = 32" and "length ns = length ms"
    and "\<forall>n \<in> set ns. length n = 32" "\<forall>n \<in> set ms. length n = 32" and "length a = 32" "length b = 32"
    and "climb C idx a ns = climb C idx b ms"
  shows "a = b \<or> collides C (climb_inputs C idx a ns) (climb_inputs C idx b ms)"
  using assms(2-)
proof (induction ns ms arbitrary: a b idx rule: list_induct2)
  case (Cons n ns m ms)
  let ?x = "join_nodes idx a n" and ?y = "join_nodes idx b m"
  have "sha256 C ?x = sha256 C ?y \<or>
      collides C (climb_inputs C (idx div 2) (sha256 C ?x) ns) (climb_inputs C (idx div 2) (sha256 C ?y) ms)"
    by (rule Cons.IH) (use Cons.prems in \<open>simp_all add: sha256_def size\<close>)
  moreover have "a = b" if "concat ?x = concat ?y"
    by (rule join_nodes_inject [OF that]) (use Cons.prems in simp_all)
  ultimately show ?case by (auto simp: collides_Cons sha256_def)
qed (simp add: collides_def)

text \<open>What the strict parse guarantees of a leaf.\<close>

definition leaf_shape :: "DisclosedLeaf \<Rightarrow> bool" where
  "leaf_shape leaf \<longleftrightarrow> dl_i leaf < 16 \<and> (\<exists>v. lowerHexToBytes (dl_value leaf) = Inr v) \<and>
     (\<exists>s. lowerHexToBytes (dl_leafSalt leaf) = Inr s \<and> length s = 32) \<and>
     (\<exists>ns. mapR lowerHexToBytes (dl_proof leaf) = Inr ns \<and> length ns = 4 \<and> (\<forall>n \<in> set ns. length n = 32))"

lemma hex_member_eq: "hex_member j = Inr (t, b) \<Longrightarrow> lowerHexToBytes t = Inr b"
  by (cases j rule: hex_member.cases) (auto simp: result_simps split: if_splits)

lemma read_proof_shape:
  assumes "read_proof j = Inr ps"
  shows "\<exists>ns. mapR lowerHexToBytes ps = Inr ns \<and> length ns = 4 \<and> (\<forall>n \<in> set ns. length n = 32)"
proof -
  from assms obtain nodes where nodes: "length nodes = 4" "mapR read_node nodes = Inr ps"
    by (cases j rule: read_proof.cases) (auto simp: result_simps)
  have node: "\<exists>b. lowerHexToBytes t = Inr b \<and> length b = 32" if "read_node n = Inr t" for n t
    using that by (cases n) (auto simp del: hex_member.simps simp: result_simps dest: hex_member_eq)
  have "\<exists>ns. mapR lowerHexToBytes ps = Inr ns \<and> length ns = length nodes \<and> (\<forall>n \<in> set ns. length n = 32)"
    using nodes(2)
  proof (induction nodes arbitrary: ps)
    case (Cons n nodes)
    from Cons.prems obtain t ts where t: "read_node n = Inr t" "mapR read_node nodes = Inr ts" "ps = t # ts"
      by (auto simp: bindR_eq_Inr)
    from node [OF t(1)] Cons.IH [OF t(2)] t(3) show ?case by auto
  qed simp
  with nodes(1) show ?thesis by simp
qed

lemma read_leaf_shape: "read_leaf seen j = Inr leaf \<Longrightarrow> leaf_shape leaf"
  by (cases j) (auto simp: leaf_shape_def COMMITMENT_LEAF_COUNT_def result_simps
      dest!: hex_member_eq read_proof_shape split: option.splits json.splits jsnum.splits if_splits)

lemma read_leaves_shape: "read_leaves seen js = Inr leaves \<Longrightarrow> \<forall>leaf \<in> set leaves. leaf_shape leaf"
  by (induction seen js arbitrary: leaves rule: read_leaves.induct) (auto simp: result_simps dest: read_leaf_shape)

lemma bundle_shape: "readDisclosureBundle W raw = Inr bundle \<Longrightarrow> \<forall>leaf \<in> set (db_leaves bundle). leaf_shape leaf"
  by (cases raw) (auto simp: result_simps dest!: read_leaves_shape)

lemma leaf_binding:
  assumes size: "\<And>x. length (cr_sha256 C x) = 32"
    and a: "leaf_shape a" and b: "leaf_shape b" and "dl_i a = dl_i b"
    and "recomputeDisclosedRoot C a = Inr r" "recomputeDisclosedRoot C b = Inr r"
  shows "lowerHexToBytes (dl_value a) = lowerHexToBytes (dl_value b) \<or> collides C (hash_inputs C a) (hash_inputs C b)"
proof -
  obtain v s ns where av: "lowerHexToBytes (dl_value a) = Inr v" "lowerHexToBytes (dl_leafSalt a) = Inr s" "length s = 32"
    "mapR lowerHexToBytes (dl_proof a) = Inr ns" "length ns = 4" "\<forall>n \<in> set ns. length n = 32"
    using a by (auto simp: leaf_shape_def)
  obtain w t ms where bv: "lowerHexToBytes (dl_value b) = Inr w" "lowerHexToBytes (dl_leafSalt b) = Inr t" "length t = 32"
    "mapR lowerHexToBytes (dl_proof b) = Inr ms" "length ms = 4" "\<forall>n \<in> set ms. length n = 32"
    using b by (auto simp: leaf_shape_def)
  let ?i = "dl_i b"
  have "climb C ?i (leafHash C ?i s v) ns = climb C ?i (leafHash C ?i t w) ms"
    using assms(4-6) av bv by (simp add: recomputeDisclosedRoot_def root_loop_climb)
  then have "leafHash C ?i s v = leafHash C ?i t w \<or>
      collides C (climb_inputs C ?i (leafHash C ?i s v) ns) (climb_inputs C ?i (leafHash C ?i t w) ms)"
    by (intro climb_binding [OF size]) (use av bv in \<open>simp_all add: leafHash_def sha256_def size\<close>)
  moreover have "v = w" if "concat (leaf_input ?i s v) = concat (leaf_input ?i t w)"
    using that av(3) bv(3) by (simp add: leaf_input_def)
  ultimately have "v = w \<or> collides C (hash_inputs C a) (hash_inputs C b)"
    using assms(4) av bv by (auto simp: hash_inputs_def collides_Cons leafHash_def sha256_def)
  with av(1) bv(1) show ?thesis by simp
qed

lemma own_leaf_shape:
  assumes size: "\<And>x. length (cr_sha256 C x) = 32"
    and com: "committed C W policy period masterSalt vals salts tree" and i: "i < 16"
  shows "leaf_shape (disclosed_leaf vals salts tree i)"
proof -
  have len: "length vals = 16" using com length_leaf_values by (auto simp: committed_def)
  have tree: "tree = level_loop C (leaf_hashes C salts vals)"
    using com by (auto simp: committed_def levels_def result_simps)
  have salt: "length (salts ! i) = 32"
    using com leaf_salts_eq i len by (auto simp: committed_def sha256_def size)
  have "\<forall>n \<in> set (proof_path tree i). length n = 32"
    unfolding tree by (rule path_nodes_size [OF size, of _ 4]) (use len i in \<open>auto simp: leaf_hashes_def leafHash_def sha256_def size\<close>)
  then show ?thesis
    using i salt committed_recompute(2) [OF com i] by (simp add: leaf_shape_def disclosed_leaf_def)
qed

section \<open>Properties\<close>

lemma verified_leaves:
  assumes "verifyDisclosureBundle C W bundle commitment = Inr (Verified s r w checks)" and "leaf \<in> set (db_leaves bundle)"
  shows "recomputeDisclosedRoot C leaf = Inr (cc_root commitment)"
proof -
  from assms(1) obtain described where d: "mapR (describe_leaf W) (db_leaves bundle) = Inr described"
    and c: "mapR (\<lambda>(leaf, d). bindR (recomputeDisclosedRoot C leaf) (\<lambda>r. Inr (d\<lparr>lc_ok := bytesToHex r = bytesToHex (cc_root commitment)\<rparr>)))
             (zip (db_leaves bundle) described) = Inr checks" and ok: "list_all lc_ok checks"
    by (auto simp: verifyDisclosureBundle_def Let_def bindR_eq_Inr split: if_splits)
  have "length described = length (db_leaves bundle)" using d by (simp add: mapR_eq_Inr list_all2_lengthD)
  with assms(2) obtain x where "(leaf, x) \<in> set (zip (db_leaves bundle) described)"
    by (metis in_set_impl_in_set_zip1)
  from mapR_member [OF c this] ok obtain y where
    "bindR (recomputeDisclosedRoot C leaf) (\<lambda>r. Inr (x\<lparr>lc_ok := bytesToHex r = bytesToHex (cc_root commitment)\<rparr>)) = Inr y" "lc_ok y"
    by (auto simp: list_all_iff)
  then show ?thesis by (auto simp: bindR_eq_Inr)
qed

text \<open>
  C35. A disclosure is binding. When a shared record that passed the strict parse is reported as verified against a
  card's on-chain commitment, whose root is the one of the card's policy and period under its master salt, every value it
  shows is the committed value of that field of the card, or
  the record together with the card's own committed data (its values, the salts derived from its master salt, and the tree over
  their hashes) exhibits two different inputs, met at the same step of the
  two recomputations, with the same SHA-256 hash.
\<close>

theorem disclosure_is_binding:
  assumes size: "\<And>x. length (cr_sha256 C x) = 32"
    and parsed: "readDisclosureBundle W raw = Inr bundle"
    and verified: "verifyDisclosureBundle C W bundle commitment = Inr (Verified s r w checks)"
    and root: "commitmentRoot C W policy period masterSalt = Inr (cc_root commitment)"
    and com: "committed C W policy period masterSalt vals salts tree"
  shows "\<forall>leaf \<in> set (db_leaves bundle). dl_i leaf < 16 \<and>
       (lowerHexToBytes (dl_value leaf) = Inr (vals ! dl_i leaf) \<or>
        collides C (hash_inputs C leaf) (hash_inputs C (disclosed_leaf vals salts tree (dl_i leaf))))"
proof
  fix leaf
  assume leaf: "leaf \<in> set (db_leaves bundle)"
  have top: "cc_root commitment = last tree ! 0"
    using root com by (auto simp: commitmentRoot_iff dest: committed_unique)
  have shape: "leaf_shape leaf" using bundle_shape [OF parsed] leaf by blast
  then have i: "dl_i leaf < 16" by (simp add: leaf_shape_def)
  have "recomputeDisclosedRoot C leaf = Inr (last tree ! 0)" using verified_leaves [OF verified leaf] top by simp
  from leaf_binding [OF size shape own_leaf_shape [OF size com i] _ this committed_recompute(1) [OF com i]] i
  show "dl_i leaf < 16 \<and> (lowerHexToBytes (dl_value leaf) = Inr (vals ! dl_i leaf) \<or>
      collides C (hash_inputs C leaf) (hash_inputs C (disclosed_leaf vals salts tree (dl_i leaf))))"
    by (auto simp: disclosed_leaf_def)
qed

lemma describe_total: "\<exists>f. describeCommitmentLeaf W i v = Inr f"
proof -
  have fee: "0 \<le> readLe v 9 2" by (simp add: readLe_def le_val_bounds)
  then have "\<exists>s. formatFeeBps (NInt (readLe v 9 2)) = Inr s" if "readLe v 9 2 \<le> 1000"
    using that by (simp add: formatFeeBps_def assertBps_def Let_def)
  moreover have "\<exists>s. formatUsdCents (CentsBig x) = Inr s" for x by (simp add: formatUsdCents_def Let_def)
  ultimately show ?thesis by (auto simp: describeCommitmentLeaf_def Let_def bindR_eq_Inr)
qed

lemma set_js_unique [simp]: "set (js_unique xs) = set xs"
  by (induction xs rule: js_unique.induct) auto

lemma set_sort_by [simp]: "set (sort_by cmp xs) = set xs"
proof -
  have "set (insert_by cmp x ys) = insert x (set ys)" for x ys by (induction ys) auto
  then show ?thesis by (induction xs) auto
qed

definition own_check :: "web3 \<Rightarrow> bytes list \<Rightarrow> bool \<Rightarrow> nat \<Rightarrow> DisclosureLeafCheck" where
  "own_check W vals ok i = \<lparr>lc_i = i, lc_ok = ok, lc_field = projr (describeCommitmentLeaf W i (vals ! i))\<rparr>"

lemma own_leaf_described: "describe_leaf W (disclosed_leaf vals salts tree i) = Inr (own_check W vals False i)"
  using describe_total [of W i "vals ! i"] by (auto simp: describe_leaf_def disclosed_leaf_def own_check_def)

lemma own_leaves_checked:
  assumes com: "committed C W policy period masterSalt vals salts tree" and "\<forall>i \<in> set is. i < 16"
  shows "mapR (\<lambda>(leaf, d). bindR (recomputeDisclosedRoot C leaf) (\<lambda>r. Inr (d\<lparr>lc_ok := bytesToHex r = bytesToHex (last tree ! 0)\<rparr>)))
      (zip (map (disclosed_leaf vals salts tree) is) (map (own_check W vals False) is)) = Inr (map (own_check W vals True) is)"
  using assms(2) by (induction "is") (auto simp: committed_recompute(1) [OF com] own_check_def)

lemma own_leaves_verify:
  assumes W: "web3_ok W" and com: "committed C W policy period masterSalt vals salts tree" and small: "\<forall>i \<in> set is. i < 16"
    and card: "address W (cc_binding commitment) = Inr a" "address W (cp_binding policy) = Inr a"
    and root: "cc_root commitment = last tree ! 0"
  shows "verifyDisclosureBundle C W \<lparr>db_binding = a, db_commitmentSeq = int_dec (cc_seq commitment),
        db_leaves = map (disclosed_leaf vals salts tree) is\<rparr> commitment =
      Inr (Verified (int_dec (cc_seq commitment)) (bytesToHex (cc_root commitment)) (int_dec (cc_writtenSlot commitment))
        (map (own_check W vals True) is))"
proof -
  obtain key where key: "publicKey W (cp_binding policy) = Inr key" "a = to_base58 W key" "length key = 32"
    using card(2) publicKey_length [OF W] by (auto simp: address_eq_Inr)
  have "mapR (describe_leaf W) (map (disclosed_leaf vals salts tree) is) = Inr (map (own_check W vals False) is)"
    by (induction "is") (simp_all add: own_leaf_described)
  moreover have "dl_value l = bytesToHex key"
    if "find (\<lambda>leaf. dl_i leaf = 0) (map (disclosed_leaf vals salts tree) is) = Some l" for l
    using that leaf_values_binding [of C W policy period vals] com key(1)
    by (auto simp: find_Some_iff disclosed_leaf_def committed_def)
  ultimately show ?thesis
    using own_leaves_checked [OF com small] W key card(1) root
    by (auto simp: verifyDisclosureBundle_def Let_def own_check_def list_all_iff split: option.split)
qed

text \<open>The object \<open>encodeDisclosureFragment\<close> prints.\<close>

definition leaf_json :: "DisclosedLeaf \<Rightarrow> json" where
  "leaf_json leaf = JObj [(jstr ''i'', JNum (NInt (int (dl_i leaf)))), (jstr ''value'', JStr (jstr (dl_value leaf))),
     (jstr ''leafSalt'', JStr (jstr (dl_leafSalt leaf))), (jstr ''proof'', JArr (map (\<lambda>n. JStr (jstr n)) (dl_proof leaf)))]"

definition bundle_json :: "DisclosureBundle \<Rightarrow> json" where
  "bundle_json b = JObj [(jstr ''v'', JNum (NInt 1)), (jstr ''binding'', JStr (jstr (db_binding b))),
     (jstr ''commitmentSeq'', JStr (jstr (db_commitmentSeq b))), (jstr ''leaves'', JArr (map leaf_json (db_leaves b)))]"

lemma jstr_latin [simp]: "\<not> list_ex (\<lambda>c. 256 \<le> c) (jstr s)"
  by (auto simp: jstr_def list_ex_iff not_le)

lemma hex_member_text: "lowerHexToBytes t = Inr b \<Longrightarrow> hex_member (Some (JStr (jstr t))) = Inr (t, b)"
  by simp

lemma read_proof_json:
  assumes "mapR lowerHexToBytes ps = Inr ns" and "length ns = 4" and "\<forall>n \<in> set ns. length n = 32"
  shows "read_proof (Some (JArr (map (\<lambda>n. JStr (jstr n)) ps))) = Inr ps"
proof -
  have "mapR read_node (map (\<lambda>n. JStr (jstr n)) ps) = Inr ps \<and> length ps = length ns"
    using assms(1,3) by (induction ps arbitrary: ns) (auto simp: bindR_eq_Inr)
  with assms(2) show ?thesis by simp
qed

lemma read_leaf_json:
  assumes "leaf_shape leaf" and "dl_i leaf \<notin> seen"
  shows "read_leaf seen (leaf_json leaf) = Inr leaf"
proof -
  from assms(1) obtain v s ns where l: "dl_i leaf < 16" "lowerHexToBytes (dl_value leaf) = Inr v"
    "lowerHexToBytes (dl_leafSalt leaf) = Inr s" "length s = 32"
    and p: "mapR lowerHexToBytes (dl_proof leaf) = Inr ns" "length ns = 4" "\<forall>n \<in> set ns. length n = 32"
    by (auto simp: leaf_shape_def)
  show ?thesis
    using l assms(2) read_proof_json [OF p]
    by (simp add: leaf_json_def COMMITMENT_LEAF_COUNT_def jstr_def del: hex_member.simps read_proof.simps
        add: hex_member_text [unfolded jstr_def])
qed

lemma read_leaves_json:
  assumes "\<forall>leaf \<in> set ls. leaf_shape leaf \<and> dl_i leaf \<notin> seen" and "distinct (map dl_i ls)"
  shows "read_leaves seen (map leaf_json ls) = Inr ls"
  using assms
proof (induction ls arbitrary: seen)
  case (Cons l ls)
  have "read_leaves (insert (dl_i l) seen) (map leaf_json ls) = Inr ls"
    by (rule Cons.IH) (use Cons.prems in \<open>auto simp: image_iff\<close>)
  with Cons.prems show ?case by (simp add: read_leaf_json)
qed simp

lemma seq_text_int:
  assumes "0 \<le> n" and "n < 10 ^ 20"
  shows "seq_text (jstr (int_dec n))"
proof (cases "n = 0")
  case True
  then show ?thesis by (simp add: seq_text_def int_dec_def radix_str.simps digit_char_0)
next
  case False
  let ?s = "nat_dec (nat n)"
  have "length ?s \<le> 20" using assms by (simp add: length_nat_dec nat_less_iff)
  moreover have "list_all (\<lambda>c. 48 \<le> (of_char c :: nat) \<and> (of_char c :: nat) \<le> 57) ?s"
    using digits_nat_dec [of "nat n"] by (auto simp: list_all_iff is_digit_def Let_def)
  moreover have "?s \<noteq> []" using is_digits_nat_dec [of "nat n"] by (auto simp: is_digits_def)
  moreover have "(of_char (hd ?s) :: nat) \<noteq> 48"
    using False assms nat_dec_hd [of "nat n"] of_char_eq_iff [of "hd ?s" "CHR ''0''", where 'a = nat] by simp
  ultimately show ?thesis
    using assms False by (cases ?s) (auto simp: seq_text_def int_dec_def jstr_def list_all_iff)
qed

lemma distinct_sort_by [simp]: "distinct (sort_by cmp xs) \<longleftrightarrow> distinct xs"
proof -
  have "distinct (insert_by cmp x ys) \<longleftrightarrow> x \<notin> set ys \<and> distinct ys" for x ys
  proof (induction ys)
    case (Cons y ys)
    have "set (insert_by cmp x ys) = insert x (set ys)" for ys by (induction ys) auto
    with Cons show ?case by auto
  qed simp
  then show ?thesis by (induction xs) auto
qed

lemma distinct_js_unique [simp]: "distinct (js_unique xs)"
  by (induction xs rule: js_unique.induct) auto

lemma distinct_indices:
  assumes "distinct xs" and "list_all (num_in 0 15) xs"
  shows "distinct (map (\<lambda>v. nat (num_val v)) xs)"
proof -
  have "x = y" if "num_in 0 15 x" "num_in 0 15 y" "nat (num_val x) = nat (num_val y)" for x y
    using that by (cases x; cases y) auto
  then show ?thesis using assms by (auto simp: distinct_map inj_on_def list_all_iff)
qed

lemma bundle_json_parses:
  assumes "\<forall>l \<in> set (db_leaves b). leaf_shape l" and "distinct (map dl_i (db_leaves b))" and "db_leaves b \<noteq> []"
    and "address W (db_binding b) = Inr a" and "db_commitmentSeq b = int_dec n" "0 \<le> n" "n < 10 ^ 20"
  shows "readDisclosureBundle W (bundle_json b) = Inr b"
proof -
  have "dl_i ` set (db_leaves b) \<subseteq> {..<16}" using assms(1) by (auto simp: leaf_shape_def)
  then have "card (dl_i ` set (db_leaves b)) \<le> card {..<16 :: nat}" by (intro card_mono) auto
  then have "length (db_leaves b) \<le> 16" using distinct_card [OF assms(2)] by simp
  moreover have "read_leaves {} (map leaf_json (db_leaves b)) = Inr (db_leaves b)"
    using assms(1,2) by (intro read_leaves_json) auto
  moreover have keys: "jstr ''v'' \<noteq> jstr ''binding''" "jstr ''v'' \<noteq> jstr ''commitmentSeq''" "jstr ''v'' \<noteq> jstr ''leaves''"
    "jstr ''binding'' \<noteq> jstr ''commitmentSeq''" "jstr ''binding'' \<noteq> jstr ''leaves''" "jstr ''commitmentSeq'' \<noteq> jstr ''leaves''"
    by (simp_all add: jstr_def)
  ultimately show ?thesis
    using assms(3-) seq_text_int [of n] keys
    by (simp add: bundle_json_def address_text_def COMMITMENT_LEAF_COUNT_def fetch_def)
qed

lemma built_record_verifies:
  assumes W: "web3_ok W" and size: "\<And>x. length (cr_sha256 C x) = 32" and u64: "0 \<le> seq" "seq < 2 ^ 64"
    and built: "buildDisclosureBundle C W policy period masterSalt seq picks = Inr bundle"
    and root: "commitmentRoot C W policy period masterSalt = Inr (cc_root commitment)"
    and card: "address W (cc_binding commitment) = address W (cp_binding policy)" and seq: "cc_seq commitment = seq"
  shows "dl_i ` set (db_leaves bundle) = (\<lambda>v. nat (num_val v)) ` set picks \<and>
    readDisclosureBundle W (bundle_json bundle) = Inr bundle \<and>
    (\<exists>checks. verifyDisclosureBundle C W bundle commitment =
        Inr (Verified (int_dec seq) (bytesToHex (cc_root commitment)) (int_dec (cc_writtenSlot commitment)) checks) \<and>
      map lc_i checks = map dl_i (db_leaves bundle) \<and> list_all lc_ok checks)"
proof -
  let ?is = "map (\<lambda>v. nat (num_val v)) (sort_by (\<lambda>a b. num_val a - num_val b) (js_unique picks))"
  from built obtain vals salts tree a where com: "committed C W policy period masterSalt vals salts tree"
    and a: "address W (cp_binding policy) = Inr a" and range: "list_all (num_in 0 15) (js_unique picks)" and some: "js_unique picks \<noteq> []"
    and bun: "bundle = \<lparr>db_binding = a, db_commitmentSeq = int_dec seq, db_leaves = map (disclosed_leaf vals salts tree) ?is\<rparr>"
    by (auto simp: buildDisclosureBundle_def Let_def bindR_eq_Inr committed_def)
  have top: "cc_root commitment = last tree ! 0"
    using root com by (auto simp: commitmentRoot_iff committed_def)
  have "nat (num_val v) < 16" if "num_in 0 15 v" for v using that by (cases v) auto
  then have small: "\<forall>i \<in> set ?is. i < 16" using range by (auto simp: list_all_iff)
  note verify = own_leaves_verify [OF W com small card [unfolded a] a top]
  have "\<forall>l \<in> set (db_leaves bundle). leaf_shape l" using own_leaf_shape [OF size com] small by (auto simp: bun)
  moreover have "distinct (map dl_i (db_leaves bundle))"
    using distinct_indices [of "sort_by (\<lambda>a b. num_val a - num_val b) (js_unique picks)"] range
    by (simp add: bun disclosed_leaf_def comp_def list_all_iff)
  moreover have "db_leaves bundle \<noteq> []" using some by (auto simp: bun dest: arg_cong [where f = set])
  ultimately have "readDisclosureBundle W (bundle_json bundle) = Inr bundle"
    using address_canonical [OF W a] u64 by (intro bundle_json_parses [of _ _ a seq]) (simp_all add: bun)
  have "dl_i ` set (db_leaves bundle) = (\<lambda>v. nat (num_val v)) ` set picks"
    by (auto simp: bun disclosed_leaf_def image_iff)
  with verify seq \<open>readDisclosureBundle W (bundle_json bundle) = Inr bundle\<close> show ?thesis
    by (auto simp: bun own_check_def disclosed_leaf_def list_all_iff)
qed

text \<open>
  C36. What an owner shares verifies. A bundle built from a card's policy, period and checkpoint salt discloses exactly
  the fields the owner picked, its printed object passes the strict parse unchanged, and checked against that card's
  commitment account with the same sequence number and the root of the same data, it is reported as verified, every
  field of it.
\<close>

theorem shared_record_verifies:
  assumes W: "web3_ok W" and size: "\<And>x. length (cr_sha256 C x) = 32" and u64: "0 \<le> seq" "seq < 2 ^ 64"
    and built: "buildDisclosureBundle C W policy period masterSalt seq picks = Inr bundle"
    and root: "commitmentRoot C W policy period masterSalt = Inr (cc_root commitment)"
    and card: "address W (cc_binding commitment) = address W (cp_binding policy)" and seq: "cc_seq commitment = seq"
  shows "dl_i ` set (db_leaves bundle) = (\<lambda>v. nat (num_val v)) ` set picks \<and>
    readDisclosureBundle W (bundle_json bundle) = Inr bundle \<and>
    (\<exists>checks. verifyDisclosureBundle C W bundle commitment =
        Inr (Verified (int_dec seq) (bytesToHex (cc_root commitment)) (int_dec (cc_writtenSlot commitment)) checks) \<and>
      map lc_i checks = map dl_i (db_leaves bundle) \<and> list_all lc_ok checks)"
  using assms by (rule built_record_verifies)

section \<open>Examples\<close>

definition sample_chain_record :: "bytes \<Rightarrow> CardCommitment" where
  "sample_chain_record root = sample_commitment\<lparr>cc_binding := cp_binding sample_policy, cc_seq := 7, cc_root := root\<rparr>"

lemma sample_hash_size: "length (cr_sha256 sample_crypto x) = 32"
  by (simp add: sample_crypto_def)

lemma sample_leaf_values: "\<exists>vals. commitmentLeafValues sample_crypto sample_web3 sample_policy sample_period = Inr vals"
  by (simp add: commitmentLeafValues_def Let_def sample_policy_def sample_period_def big_int_def)

lemma sample_committed: "\<exists>vals salts tree. committed sample_crypto sample_web3 sample_policy sample_period (replicate 32 4) vals salts tree"
proof -
  obtain vals where v: "commitmentLeafValues sample_crypto sample_web3 sample_policy sample_period = Inr vals"
    using sample_leaf_values by blast
  have "leaf_salts sample_crypto (replicate 32 4) n = Inr (map (\<lambda>i. sha256 sample_crypto [replicate 32 4, [word_of_nat i]]) [0..<n])" for n
    unfolding leaf_salts_def by (rule mapR_total) (simp add: leafSalt_def)
  with v length_leaf_values [OF v] show ?thesis
    by (simp add: committed_def levels_def leaf_hashes_def COMMITMENT_LEAF_COUNT_def)
qed

lemma sample_bundle:
  "\<exists>b root. buildDisclosureBundle sample_crypto sample_web3 sample_policy sample_period (replicate 32 4) 7 [NInt 2, NInt 0, NInt 2] = Inr b \<and>
     commitmentRoot sample_crypto sample_web3 sample_policy sample_period (replicate 32 4) = Inr (cc_root (sample_chain_record root))"
proof -
  obtain vals salts tree where com: "committed sample_crypto sample_web3 sample_policy sample_period (replicate 32 4) vals salts tree"
    using sample_committed by blast
  then have "commitmentRoot sample_crypto sample_web3 sample_policy sample_period (replicate 32 4) = Inr (last tree ! 0)"
    by (auto simp: commitmentRoot_iff)
  moreover have "address sample_web3 (cp_binding sample_policy) = Inr (cp_binding sample_policy)" by (simp add: sample_policy_def)
  ultimately show ?thesis
    using com by (simp add: buildDisclosureBundle_def committed_def sample_chain_record_def)
qed

lemma sample_card: "address sample_web3 (cc_binding (sample_chain_record root)) = address sample_web3 (cp_binding sample_policy)"
  "cc_seq (sample_chain_record root) = 7"
  by (simp_all add: sample_chain_record_def)

theorem shared_record_verifies_witness:
  "\<exists>b root s r w checks. buildDisclosureBundle sample_crypto sample_web3 sample_policy sample_period (replicate 32 4) 7
       [NInt 2, NInt 0, NInt 2] = Inr b \<and> dl_i ` set (db_leaves b) = {0, 2} \<and>
     readDisclosureBundle sample_web3 (bundle_json b) = Inr b \<and>
     verifyDisclosureBundle sample_crypto sample_web3 b (sample_chain_record root) = Inr (Verified s r w checks)"
proof -
  obtain b root where b: "buildDisclosureBundle sample_crypto sample_web3 sample_policy sample_period (replicate 32 4) 7 [NInt 2, NInt 0, NInt 2] = Inr b"
    and r: "commitmentRoot sample_crypto sample_web3 sample_policy sample_period (replicate 32 4) = Inr (cc_root (sample_chain_record root))"
    using sample_bundle by blast
  from shared_record_verifies [OF sample_web3_ok sample_hash_size _ _ b r sample_card] b
  show ?thesis by (intro exI [of _ b] exI [of _ root]) (auto simp: insert_commute)
qed

theorem disclosure_is_binding_witness:
  "\<exists>b vals salts tree. committed sample_crypto sample_web3 sample_policy sample_period (replicate 32 4) vals salts tree \<and>
     buildDisclosureBundle sample_crypto sample_web3 sample_policy sample_period (replicate 32 4) 7 [NInt 2, NInt 0, NInt 2] = Inr b \<and>
     list_all (\<lambda>leaf. lowerHexToBytes (dl_value leaf) = Inr (vals ! dl_i leaf) \<or>
        collides sample_crypto (hash_inputs sample_crypto leaf)
          (hash_inputs sample_crypto (disclosed_leaf vals salts tree (dl_i leaf)))) (db_leaves b)"
proof -
  obtain b root where b: "buildDisclosureBundle sample_crypto sample_web3 sample_policy sample_period (replicate 32 4) 7 [NInt 2, NInt 0, NInt 2] = Inr b"
    and r: "commitmentRoot sample_crypto sample_web3 sample_policy sample_period (replicate 32 4) = Inr (cc_root (sample_chain_record root))"
    using sample_bundle by blast
  have parsed: "readDisclosureBundle sample_web3 (bundle_json b) = Inr b"
    and ver: "\<exists>s x w checks. verifyDisclosureBundle sample_crypto sample_web3 b (sample_chain_record root) = Inr (Verified s x w checks)"
    using built_record_verifies [OF sample_web3_ok sample_hash_size _ _ b r sample_card] by auto
  then obtain s x w checks where v: "verifyDisclosureBundle sample_crypto sample_web3 b (sample_chain_record root) = Inr (Verified s x w checks)"
    by blast
  obtain vals salts tree where com: "committed sample_crypto sample_web3 sample_policy sample_period (replicate 32 4) vals salts tree"
    using sample_committed by blast
  from disclosure_is_binding [OF sample_hash_size parsed v r com] b com show ?thesis
    unfolding list_all_iff by blast
qed

end
