(* ===== verification/CardRedact.thy ===== *)
theory CardRedact
  imports Text
begin

text \<open>
  \<open>sdk/src/cards/redact.ts\<close>: the removal of card data from everything that leaves a ChainPay process. A
  text is its list of code points; the patterns only look at ASCII characters. The two regular
  expressions differ in the separators they allow and are one matcher with that set as its argument.
  The main facts are that a redacted text has no match left and that redaction of a value leaves neither a forbidden
  key nor a card number.
\<close>

section \<open>Forbidden keys\<close>

definition CARD_DATA_REDACTION :: jstext where
  "CARD_DATA_REDACTION = jstr ''[redacted]''"

text \<open>The alternatives of \<open>FORBIDDEN_KEY\<close>, with the optional parts written out.\<close>

definition with_optional :: "string \<Rightarrow> string list \<Rightarrow> string list" where
  "with_optional a bs = concat (map (\<lambda>b. [a @ b, a @ ''_'' @ b]) bs)"

definition FORBIDDEN_KEY :: "string list" where
  "FORBIDDEN_KEY =
     [''pan''] @ with_optional ''card'' [''number''] @ [''cardnum'']
     @ concat (map (\<lambda>a. with_optional a [''number'']) (with_optional ''primary'' [''account'']))
     @ [''cvv'', ''cvv2'', ''cvc'', ''cvc2'', ''csc''] @ with_optional ''security'' [''code'']
     @ concat (map (\<lambda>e. e # with_optional e [''date'', ''month'', ''year'']) [''exp'', ''expiry'', ''expiration''])
     @ [''pin''] @ with_optional ''embed'' [''url'', ''session''] @ with_optional ''track'' [''data'']
     @ with_optional ''tee'' [''token''] @ with_optional ''auth'' [''token''] @ with_optional ''access'' [''token'']"

text \<open>The flag \<open>i\<close> folds the case of ASCII letters only: no other character folds into one.\<close>

definition fold_case :: "nat \<Rightarrow> nat" where
  "fold_case c = (if 65 \<le> c \<and> c \<le> 90 then c + 32 else c)"

definition isForbiddenCardKey :: "jstext \<Rightarrow> bool" where
  "isForbiddenCardKey key \<longleftrightarrow> map fold_case key \<in> set (map jstr FORBIDDEN_KEY)"

section \<open>Card number runs\<close>

text \<open>\<open>[0-9A-Za-z_-]\<close>\<close>

definition id_char :: "nat \<Rightarrow> bool" where
  "id_char c \<longleftrightarrow> 48 \<le> c \<and> c \<le> 57 \<or> 65 \<le> c \<and> c \<le> 90 \<or> 97 \<le> c \<and> c \<le> 122 \<or> c = 95 \<or> c = 45"

text \<open>The separators of \<open>CARD_NUMBER_RUN\<close> and of \<open>CARD_NUMBER_RUN_INPUT\<close>.\<close>

definition output_sep :: "nat \<Rightarrow> bool" where "output_sep c \<longleftrightarrow> c = 32 \<or> c = 45"
definition input_sep :: "nat \<Rightarrow> bool" where "input_sep c \<longleftrightarrow> c = 32 \<or> c = 46 \<or> c = 47 \<or> c = 45"

text \<open>
  \<open>(?:[sep]?\\d)\<close> repeated \<open>n\<close> times: the number of characters taken, if it matches. Each
  repetition has one way to match, since a separator is not a digit.
\<close>

fun reps :: "(nat \<Rightarrow> bool) \<Rightarrow> nat \<Rightarrow> jstext \<Rightarrow> nat option" where
  "reps sep 0 t = Some 0"
| "reps sep (Suc n) (c # cs) =
     (if cp_digit c then map_option Suc (reps sep n cs)
      else if sep c then (case cs of d # ds \<Rightarrow> if cp_digit d then map_option (\<lambda>k. k + 2) (reps sep n ds) else None | [] \<Rightarrow> None)
      else None)"
| "reps sep (Suc n) [] = None"

definition stands_alone :: "jstext \<Rightarrow> bool" where
  "stands_alone rest \<longleftrightarrow> (case rest of c # _ \<Rightarrow> \<not> id_char c | [] \<Rightarrow> True)"

text \<open>
  The match at one position, after the character \<open>prev\<close>: the first digit, then as many repetitions as possible,
  18 down to 12, that leave the run standing alone.
\<close>

definition run_ends :: "(nat \<Rightarrow> bool) \<Rightarrow> jstext \<Rightarrow> nat list" where
  "run_ends sep cs = List.map_filter (\<lambda>n. reps sep n cs) [18, 17, 16, 15, 14, 13, 12]"

definition match_at :: "(nat \<Rightarrow> bool) \<Rightarrow> nat option \<Rightarrow> jstext \<Rightarrow> nat option" where
  "match_at sep prev t =
     (if (case prev of Some p \<Rightarrow> id_char p | None \<Rightarrow> False) then None
      else case t of
        c # cs \<Rightarrow> if cp_digit c then map_option Suc (find (\<lambda>e. stands_alone (drop e cs)) (run_ends sep cs)) else None
      | [] \<Rightarrow> None)"

lemma reps_le: "reps sep n t = Some e \<Longrightarrow> e \<le> length t"
  by (induction sep n t arbitrary: e rule: reps.induct) (auto split: if_splits list.splits)

lemma set_map_filter_Some: "set (List.map_filter f xs) = {y. \<exists>x \<in> set xs. f x = Some y}"
  by (induction xs) (auto split: option.splits)

lemma set_run_ends: "set (run_ends sep cs) = {e. \<exists>n. 12 \<le> n \<and> n \<le> 18 \<and> reps sep n cs = Some e}"
proof -
  have "set [18, 17, 16, 15, 14, 13, 12] = {12..18 :: nat}" by auto
  then show ?thesis unfolding run_ends_def set_map_filter_Some by auto
qed

lemma find_SomeD: "find P xs = Some x \<Longrightarrow> x \<in> set xs \<and> P x"
  by (auto simp: find_Some_iff)

lemma match_at_Some:
  assumes "match_at sep prev (c # cs) = Some m"
  shows "\<not> (case prev of Some p \<Rightarrow> id_char p | None \<Rightarrow> False)" "cp_digit c"
    "\<exists>n e. 12 \<le> n \<and> n \<le> 18 \<and> m = Suc e \<and> reps sep n cs = Some e \<and> stands_alone (drop e cs)"
proof -
  show "\<not> (case prev of Some p \<Rightarrow> id_char p | None \<Rightarrow> False)" "cp_digit c"
    using assms by (auto simp: match_at_def split: if_splits)
  then obtain e where e: "m = Suc e" "find (\<lambda>e. stands_alone (drop e cs)) (run_ends sep cs) = Some e"
    using assms by (auto simp: match_at_def split: if_splits)
  from find_SomeD [OF e(2)] e(1)
  show "\<exists>n e. 12 \<le> n \<and> n \<le> 18 \<and> m = Suc e \<and> reps sep n cs = Some e \<and> stands_alone (drop e cs)"
    unfolding set_run_ends by blast
qed

lemma match_at_bounds: "match_at sep prev t = Some n \<Longrightarrow> 0 < n \<and> n \<le> length t"
proof (cases t)
  case (Cons c cs)
  assume "match_at sep prev t = Some n"
  from match_at_Some(3) [OF this [unfolded Cons]] Cons show ?thesis by (auto dest: reps_le)
qed (simp add: match_at_def split: if_splits)

text \<open>The global flag: matches from left to right, without overlap.\<close>

function find_runs :: "(nat \<Rightarrow> bool) \<Rightarrow> nat option \<Rightarrow> jstext \<Rightarrow> jstext list" where
  "find_runs sep prev t = (case t of [] \<Rightarrow> [] | c # cs \<Rightarrow>
     (case match_at sep prev t of
        Some n \<Rightarrow> take n t # find_runs sep (Some (t ! (n - 1))) (drop n t)
      | None \<Rightarrow> find_runs sep (Some c) cs))"
  by auto
termination by (relation "measure (\<lambda>(sep, prev, t). length t)") (auto dest: match_at_bounds)

function replace_runs :: "(nat \<Rightarrow> bool) \<Rightarrow> nat option \<Rightarrow> jstext \<Rightarrow> jstext" where
  "replace_runs sep prev t = (case t of [] \<Rightarrow> [] | c # cs \<Rightarrow>
     (case match_at sep prev t of
        Some n \<Rightarrow> CARD_DATA_REDACTION @ replace_runs sep (Some (t ! (n - 1))) (drop n t)
      | None \<Rightarrow> c # replace_runs sep (Some c) cs))"
  by auto
termination by (relation "measure (\<lambda>(sep, prev, t). length t)") (auto dest: match_at_bounds)

declare find_runs.simps [simp del] replace_runs.simps [simp del]

definition findCardNumberLike :: "jstext \<Rightarrow> jstext list" where
  "findCardNumberLike t = find_runs output_sep None t"

definition findCardNumberLikeInInput :: "jstext \<Rightarrow> jstext list" where
  "findCardNumberLikeInInput t = find_runs input_sep None t"

definition redactCardNumbersInInput :: "jstext \<Rightarrow> jstext" where
  "redactCardNumbersInInput t = replace_runs input_sep None t"

definition redactCardNumbers :: "jstext \<Rightarrow> jstext" where
  "redactCardNumbers t = replace_runs output_sep None t"

fun luhn_loop :: "jstext \<Rightarrow> bool \<Rightarrow> int \<Rightarrow> int" where
  "luhn_loop [] double acc = acc"
| "luhn_loop (c # cs) double acc =
     (let digit = int c - 48; digit = (if double then (if digit * 2 > 9 then digit * 2 - 9 else digit * 2) else digit)
      in luhn_loop cs (\<not> double) (acc + digit))"

definition luhnValid :: "jstext \<Rightarrow> bool" where
  "luhnValid digits =
     (let clean = filter (\<lambda>c. c \<noteq> 32 \<and> c \<noteq> 45) digits in
      clean \<noteq> [] \<and> list_all cp_digit clean \<and> luhn_loop (rev clean) False 0 mod 10 = 0)"

section \<open>Whole values\<close>

text \<open>What the walk meets: \<open>VNull\<close>, \<open>VUndefined\<close> and \<open>VBool\<close> are returned as they are.\<close>

datatype jsval = VStr jstext | VNum jsnum | VBig int | VArr "jsval list" | VBytes bytes
  | VObj "(jstext \<times> jsval) list" | VNull | VUndefined | VBool bool

definition num_text :: "jsnum \<Rightarrow> jstext" where
  "num_text n = (case n of NInt v \<Rightarrow> jstr (int_dec v) | NonInt t \<Rightarrow> jstr t)"

definition check_depth :: "nat \<Rightarrow> 'a result \<Rightarrow> 'a result" where
  "check_depth depth m = bindR (require (depth \<le> 32) ''Value is nested too deeply to check for card data'') (\<lambda>_. m)"

text \<open>
  \<open>walk\<close>, with the counter \<open>redactions\<close> passed along. Assigning \<open>out["__proto__"]\<close> sets the prototype of the
  copy and leaves no entry.
\<close>

fun walk :: "nat \<Rightarrow> jsval \<Rightarrow> nat \<Rightarrow> (jsval \<times> nat) result"
  and walk_items :: "nat \<Rightarrow> jsval list \<Rightarrow> nat \<Rightarrow> (jsval list \<times> nat) result"
  and walk_entries :: "nat \<Rightarrow> (jstext \<times> jsval) list \<Rightarrow> nat \<Rightarrow> ((jstext \<times> jsval) list \<times> nat) result" where
  "walk depth (VStr s) n = check_depth depth
     (let next = redactCardNumbers s in Inr (VStr next, if next \<noteq> s then n + 1 else n))"
| "walk depth (VNum x) n = check_depth depth
     (if findCardNumberLike (num_text x) \<noteq> [] then Inr (VStr CARD_DATA_REDACTION, n + 1) else Inr (VNum x, n))"
| "walk depth (VBig v) n = check_depth depth
     (if findCardNumberLike (jstr (int_dec v)) \<noteq> [] then Inr (VStr CARD_DATA_REDACTION, n + 1) else Inr (VBig v, n))"
| "walk depth (VArr items) n = check_depth depth (bindR (walk_items (depth + 1) items n) (\<lambda>(xs, k). Inr (VArr xs, k)))"
| "walk depth (VBytes b) n = check_depth depth (Inr (VBytes b, n))"
| "walk depth (VObj entries) n = check_depth depth (bindR (walk_entries (depth + 1) entries n) (\<lambda>(xs, k). Inr (VObj xs, k)))"
| "walk depth VNull n = check_depth depth (Inr (VNull, n))"
| "walk depth VUndefined n = check_depth depth (Inr (VUndefined, n))"
| "walk depth (VBool b) n = check_depth depth (Inr (VBool b, n))"
| "walk_items depth [] n = Inr ([], n)"
| "walk_items depth (v # vs) n =
     bindR (walk depth v n) (\<lambda>(x, k). bindR (walk_items depth vs k) (\<lambda>(xs, m). Inr (x # xs, m)))"
| "walk_entries depth [] n = Inr ([], n)"
| "walk_entries depth ((key, v) # es) n =
     (if isForbiddenCardKey key then walk_entries depth es (n + 1)
      else bindR (walk depth v n) (\<lambda>(x, k). bindR (walk_entries depth es k) (\<lambda>(xs, m).
        Inr (if key = jstr ''__proto__'' then xs else (key, x) # xs, m))))"

definition redactCardData :: "jsval \<Rightarrow> (jsval \<times> nat) result" where
  "redactCardData v = walk 0 v 0"

definition assertNoCardData :: "jsval \<Rightarrow> string \<Rightarrow> unit result" where
  "assertNoCardData v place = bindR (redactCardData v) (\<lambda>(_, redactions).
     if redactions > 0 then Inl (''Card data is never allowed in '' @ place) else Inr ())"

section \<open>No run is left\<close>

text \<open>A separator is neither a digit nor a character of the replacement's first position.\<close>

definition sep_ok :: "(nat \<Rightarrow> bool) \<Rightarrow> bool" where
  "sep_ok sep \<longleftrightarrow> \<not> sep 91 \<and> (\<forall>c. sep c \<longrightarrow> \<not> cp_digit c)"

lemma seps_ok: "sep_ok output_sep" "sep_ok input_sep"
  by (auto simp: sep_ok_def output_sep_def input_sep_def cp_digit_def)

text \<open>A repetition only looks at the characters it takes, and ends with a digit.\<close>

lemma reps_prefix: "reps sep n t = Some e \<Longrightarrow> reps sep n (take e t @ u) = Some e"
proof (induction sep n t arbitrary: e rule: reps.induct)
  case (2 sep n c cs)
  show ?case
  proof (cases "cp_digit c")
    case True
    then show ?thesis using 2 by auto
  next
    case False
    with 2(3) obtain d ds k where s: "sep c" "cs = d # ds" "cp_digit d" "reps sep n ds = Some k" "e = k + 2"
      by (auto split: if_splits list.splits)
    then show ?thesis using 2(2) [OF False s(1) s(2) s(3) s(4)] False by simp
  qed
qed simp_all

lemma reps_last: "reps sep n t = Some e \<Longrightarrow> 0 < e \<Longrightarrow> cp_digit (t ! (e - 1))"
proof (induction sep n t arbitrary: e rule: reps.induct)
  case (2 sep n c cs)
  show ?case
  proof (cases "cp_digit c")
    case True
    with 2(3) obtain k where k: "reps sep n cs = Some k" "e = Suc k" by auto
    then show ?thesis using 2(1) [OF True k(1)] True by (cases k) auto
  next
    case False
    with 2(3) obtain d ds k where s: "sep c" "cs = d # ds" "cp_digit d" "reps sep n ds = Some k" "e = k + 2"
      by (auto split: if_splits list.splits)
    then show ?thesis using 2(2) [OF False s(1) s(2) s(3) s(4)] by (cases k) auto
  qed
qed simp_all

lemma match_at_None: "match_at sep prev (c # cs) = None \<longleftrightarrow>
    (case prev of Some p \<Rightarrow> id_char p | None \<Rightarrow> False) \<or> \<not> cp_digit c \<or>
    (\<forall>n e. 12 \<le> n \<longrightarrow> n \<le> 18 \<longrightarrow> reps sep n cs = Some e \<longrightarrow> \<not> stands_alone (drop e cs))"
  by (auto simp: match_at_def find_None_iff set_run_ends)

lemma stands_alone_iff: "stands_alone xs \<longleftrightarrow> xs = [] \<or> \<not> id_char (xs ! 0)"
  by (cases xs) (simp_all add: stands_alone_def)

lemma reps_chars: "reps sep n t = Some e \<Longrightarrow> j < e \<Longrightarrow> cp_digit (t ! j) \<or> sep (t ! j)"
proof (induction sep n t arbitrary: e j rule: reps.induct)
  case (2 sep n c cs)
  show ?case
  proof (cases "cp_digit c")
    case True
    with 2(3) obtain k where k: "reps sep n cs = Some k" "e = Suc k" by auto
    then show ?thesis using 2(1) [OF True k(1)] True 2(4) by (cases j) auto
  next
    case False
    with 2(3) obtain d ds k where s: "sep c" "cs = d # ds" "cp_digit d" "reps sep n ds = Some k" "e = k + 2"
      by (auto split: if_splits list.splits)
    show ?thesis
    proof (cases j)
      case (Suc i)
      then show ?thesis using 2(2) [OF False s(1) s(2) s(3) s(4)] s 2(4) by (cases i) auto
    qed (use s in simp)
  qed
qed simp_all

lemma reps_ge: "reps sep n t = Some e \<Longrightarrow> n \<le> e"
  by (induction sep n t arbitrary: e rule: reps.induct) (fastforce split: if_splits list.splits)+

text \<open>The first replacement in a text, if there is one.\<close>

lemma first_replacement:
  "replace_runs sep prev t = t \<or>
   (\<exists>m rest. m < length t \<and> replace_runs sep prev t = take m t @ 91 # rest \<and>
      match_at sep (if m = 0 then prev else Some (t ! (m - 1))) (drop m t) \<noteq> None)"
proof (induction sep prev t rule: replace_runs.induct)
  case (1 sep prev t)
  show ?case
  proof (cases t)
    case (Cons c cs)
    show ?thesis
    proof (cases "match_at sep prev t")
      case None
      then have r: "replace_runs sep prev t = c # replace_runs sep (Some c) cs"
        using Cons by (subst replace_runs.simps) simp
      from 1(1) [OF Cons None] show ?thesis
      proof (elim disjE exE conjE)
        fix m rest
        assume m: "m < length cs" "replace_runs sep (Some c) cs = take m cs @ 91 # rest"
          "match_at sep (if m = 0 then Some c else Some (cs ! (m - 1))) (drop m cs) \<noteq> None"
        then show ?thesis
          using Cons r by (intro disjI2 exI [of _ "Suc m"] exI [of _ rest]) (auto simp: nth_Cons' split: if_splits)
      qed (use r Cons in simp)
    next
      case (Some n)
      then have "replace_runs sep prev t = 91 # tl CARD_DATA_REDACTION @ replace_runs sep (Some (t ! (n - 1))) (drop n t)"
        using Cons by (subst replace_runs.simps) (simp add: CARD_DATA_REDACTION_def jstr_def)
      with Some Cons show ?thesis by auto
    qed
  qed (simp add: replace_runs.simps)
qed

lemma no_new_match:
  assumes ok: "sep_ok sep" and none: "match_at sep prev (c # cs) = None"
  shows "match_at sep prev (c # replace_runs sep (Some c) cs) = None"
proof -
  let ?r = "replace_runs sep (Some c) cs"
  have "\<not> stands_alone (drop e ?r)"
    if digit: "cp_digit c" and front: "\<not> (case prev of Some p \<Rightarrow> id_char p | None \<Rightarrow> False)"
      and n: "12 \<le> n" "n \<le> 18" and e: "reps sep n ?r = Some e" for n e
  proof -
    have orig: "\<not> stands_alone (drop k cs)" if "reps sep n cs = Some k" for k
      using none that digit front n by (auto simp: match_at_None)
    from first_replacement [of sep "Some c" cs] consider "?r = cs"
      | m rest where "m < length cs" "?r = take m cs @ 91 # rest"
          "match_at sep (if m = 0 then Some c else Some (cs ! (m - 1))) (drop m cs) \<noteq> None" by auto
    then show ?thesis
    proof cases
      case 1
      then show ?thesis using orig e by simp
    next
      case (2 m rest)
      obtain d ds where d: "drop m cs = d # ds" using 2(1) by (metis Cons_nth_drop_Suc)
      then obtain k where "match_at sep (if m = 0 then Some c else Some (cs ! (m - 1))) (d # ds) = Some k" using 2(3) by auto
      from match_at_Some(1) [OF this] have prev_ok: "\<not> id_char (if m = 0 then c else cs ! (m - 1))" by (simp split: if_splits)
      have em: "e \<le> m"
      proof (rule ccontr)
        assume "\<not> e \<le> m"
        then have "cp_digit (?r ! m) \<or> sep (?r ! m)" using reps_chars [OF e, of m] by simp
        then show False using 2(1,2) ok by (simp add: sep_ok_def nth_append cp_digit_def)
      qed
      then have same: "take e ?r = take e cs" using 2(1,2) by (simp add: min_absorb1)
      have here: "reps sep n cs = Some e" using reps_prefix [OF e, of "drop e cs"] same by simp
      have "e \<noteq> m"
      proof
        assume "e = m"
        then have "cp_digit (cs ! (m - 1))" "m \<noteq> 0" using reps_last [OF here] reps_ge [OF here] n by auto
        then show False using prev_ok by (simp add: id_char_def cp_digit_def)
      qed
      then have "drop e ?r ! 0 = drop e cs ! 0" "drop e ?r \<noteq> []" "drop e cs \<noteq> []"
        using em 2(1,2) by (auto simp: nth_append)
      then show ?thesis using orig [OF here] by (simp add: stands_alone_iff)
    qed
  qed
  then show ?thesis using none unfolding match_at_None by blast
qed

lemma find_runs_Nil [simp]: "find_runs sep prev [] = []"
  by (simp add: find_runs.simps)

lemma find_runs_skip: "match_at sep prev (c # cs) = None \<Longrightarrow> find_runs sep prev (c # cs) = find_runs sep (Some c) cs"
  by (subst find_runs.simps) simp

lemma match_at_no_digit: "\<not> cp_digit c \<Longrightarrow> match_at sep prev (c # cs) = None"
  by (simp add: match_at_def)

text \<open>The replacement holds no run.\<close>

lemma find_runs_replacement: "find_runs sep prev (CARD_DATA_REDACTION @ t) = find_runs sep (Some 93) t"
  by (simp add: CARD_DATA_REDACTION_def jstr_def find_runs_skip match_at_no_digit cp_digit_def)

lemma replaced_clean:
  "sep_ok sep \<Longrightarrow> prev' = prev \<or> stands_alone t \<Longrightarrow> find_runs sep prev' (replace_runs sep prev t) = []"
proof (induction sep prev t arbitrary: prev' rule: replace_runs.induct)
  case (1 sep prev t)
  show ?case
  proof (cases t)
    case (Cons c cs)
    show ?thesis
    proof (cases "match_at sep prev t")
      case None
      then have r: "replace_runs sep prev t = c # replace_runs sep (Some c) cs"
        using Cons by (subst replace_runs.simps) simp
      have "match_at sep prev' (c # replace_runs sep (Some c) cs) = None"
      proof (cases "prev' = prev")
        case True
        then show ?thesis using no_new_match [OF 1(3) None [unfolded Cons]] by simp
      next
        case False
        then have "\<not> id_char c" using 1(4) Cons by (simp add: stands_alone_def)
        then show ?thesis by (intro match_at_no_digit) (auto simp: id_char_def cp_digit_def)
      qed
      then show ?thesis using r 1(1) [OF Cons None 1(3), of "Some c"] by (simp add: find_runs_skip)
    next
      case (Some n)
      then have "replace_runs sep prev t = CARD_DATA_REDACTION @ replace_runs sep (Some (t ! (n - 1))) (drop n t)"
        using Cons by (subst replace_runs.simps) simp
      moreover have "stands_alone (drop n t)" using match_at_Some(3) [OF Some [unfolded Cons]] Cons by auto
      ultimately show ?thesis using 1(2) [OF Cons Some 1(3)] by (simp add: find_runs_replacement)
    qed
  qed (simp add: replace_runs.simps)
qed

lemma replace_id_iff: "replace_runs sep prev t = t \<longleftrightarrow> find_runs sep prev t = []"
proof (induction sep prev t rule: replace_runs.induct)
  case (1 sep prev t)
  show ?case
  proof (cases t)
    case (Cons c cs)
    show ?thesis
    proof (cases "match_at sep prev t")
      case None
      then show ?thesis using 1(1) [OF Cons None] Cons by (subst replace_runs.simps, subst find_runs.simps) simp
    next
      case (Some n)
      have "c \<noteq> 91" using match_at_Some(2) [OF Some [unfolded Cons]] by (auto simp: cp_digit_def)
      then show ?thesis using Some Cons
        by (subst replace_runs.simps, subst find_runs.simps) (simp add: CARD_DATA_REDACTION_def jstr_def)
    qed
  qed (simp add: replace_runs.simps)
qed

section \<open>Properties\<close>

text \<open>
  Redaction leaves nothing behind: a text whose card-number runs were replaced, by the output pattern or
  by the looser input pattern, has no run of that pattern left, wherever the replacements fell; and redaction changes a
  text exactly when the scan finds a run in it.
\<close>

theorem redacted_text_clean:
  "findCardNumberLike (redactCardNumbers t) = [] \<and> findCardNumberLikeInInput (redactCardNumbersInInput t) = [] \<and>
   (redactCardNumbers t = t \<longleftrightarrow> findCardNumberLike t = []) \<and>
   (redactCardNumbersInInput t = t \<longleftrightarrow> findCardNumberLikeInInput t = [])"
  unfolding findCardNumberLike_def redactCardNumbers_def findCardNumberLikeInInput_def redactCardNumbersInInput_def
  using seps_ok by (simp add: replaced_clean replace_id_iff)

text \<open>A value without card data: no forbidden key, no run in a string or in the text of a number.\<close>

fun card_free :: "jsval \<Rightarrow> bool"
  and card_free_items :: "jsval list \<Rightarrow> bool"
  and card_free_entries :: "(jstext \<times> jsval) list \<Rightarrow> bool" where
  "card_free (VStr s) = (findCardNumberLike s = [])"
| "card_free (VNum x) = (findCardNumberLike (num_text x) = [])"
| "card_free (VBig v) = (findCardNumberLike (jstr (int_dec v)) = [])"
| "card_free (VArr items) = card_free_items items"
| "card_free (VBytes b) = True"
| "card_free (VObj entries) = card_free_entries entries"
| "card_free VNull = True"
| "card_free VUndefined = True"
| "card_free (VBool b) = True"
| "card_free_items [] = True"
| "card_free_items (v # vs) = (card_free v \<and> card_free_items vs)"
| "card_free_entries [] = True"
| "card_free_entries ((key, v) # es) = (\<not> isForbiddenCardKey key \<and> card_free v \<and> card_free_entries es)"

lemma replacement_clean: "findCardNumberLike CARD_DATA_REDACTION = []"
  using find_runs_replacement [of output_sep None "[]"] by (simp add: findCardNumberLike_def)

lemma redact_text: "findCardNumberLike (redactCardNumbers t) = []" "redactCardNumbers t = t \<longleftrightarrow> findCardNumberLike t = []"
  using seps_ok by (simp_all add: findCardNumberLike_def redactCardNumbers_def replaced_clean replace_id_iff)

lemma check_depth_Inr: "check_depth d m = Inr x \<longleftrightarrow> d \<le> 32 \<and> m = Inr x"
  by (auto simp: check_depth_def result_simps)

lemma walk_clean:
  "walk d v n = Inr (v', k) \<Longrightarrow> card_free v' \<and> n \<le> k \<and> (k = n \<longleftrightarrow> card_free v)"
  "walk_items d vs n = Inr (vs', k) \<Longrightarrow> card_free_items vs' \<and> n \<le> k \<and> (k = n \<longleftrightarrow> card_free_items vs)"
  "walk_entries d es n = Inr (es', k) \<Longrightarrow> card_free_entries es' \<and> n \<le> k \<and> (k = n \<longleftrightarrow> card_free_entries es)"
proof (induction d v n and d vs n and d es n arbitrary: v' k and vs' k and es' k rule: walk_walk_items_walk_entries.induct)
  case (13 depth key v es n)
  then show ?case
  proof (cases "isForbiddenCardKey key")
    case True
    then show ?thesis using 13(1) [OF True] 13(4) by fastforce
  next
    case False
    then obtain x j xs where x: "walk depth v n = Inr (x, j)" "walk_entries depth es j = Inr (xs, k)"
      "es' = (if key = jstr ''__proto__'' then xs else (key, x) # xs)"
      using 13(4) by (auto simp: bindR_eq_Inr)
    show ?thesis using 13(2) [OF False x(1)] 13(3) [OF False x(2)] x(3) False by auto
  qed
qed (fastforce simp: check_depth_Inr bindR_eq_Inr redact_text replacement_clean Let_def split: if_splits)+

text \<open>No entry named \<open>__proto__\<close>, which a copy cannot keep.\<close>

fun own_keys :: "jsval \<Rightarrow> bool"
  and own_keys_items :: "jsval list \<Rightarrow> bool"
  and own_keys_entries :: "(jstext \<times> jsval) list \<Rightarrow> bool" where
  "own_keys (VArr items) = own_keys_items items"
| "own_keys (VObj entries) = own_keys_entries entries"
| "own_keys (VStr s) = True"
| "own_keys (VNum x) = True"
| "own_keys (VBig v) = True"
| "own_keys (VBytes b) = True"
| "own_keys VNull = True"
| "own_keys VUndefined = True"
| "own_keys (VBool b) = True"
| "own_keys_items [] = True"
| "own_keys_items (v # vs) = (own_keys v \<and> own_keys_items vs)"
| "own_keys_entries [] = True"
| "own_keys_entries ((key, v) # es) = (key \<noteq> jstr ''__proto__'' \<and> own_keys v \<and> own_keys_entries es)"

lemma walk_same:
  "walk d v n = Inr (v', k) \<Longrightarrow> card_free v \<Longrightarrow> own_keys v \<Longrightarrow> v' = v"
  "walk_items d vs n = Inr (vs', k) \<Longrightarrow> card_free_items vs \<Longrightarrow> own_keys_items vs \<Longrightarrow> vs' = vs"
  "walk_entries d es n = Inr (es', k) \<Longrightarrow> card_free_entries es \<Longrightarrow> own_keys_entries es \<Longrightarrow> es' = es"
  by (induction d v n and d vs n and d es n arbitrary: v' k and vs' k and es' k rule: walk_walk_items_walk_entries.induct)
    (fastforce simp: check_depth_Inr bindR_eq_Inr redact_text Let_def split: if_splits)+

text \<open>
  C37. A redacted value carries no card data: whatever \<open>redactCardData\<close> returns has no forbidden key at any depth and no
  card-number run in any string or number; the count is zero exactly for the values that had none, and such
  a value is returned unchanged. \<open>assertNoCardData\<close> accepts exactly the values without card data among
  those it can walk.
\<close>

theorem redacted_value_clean:
  assumes "redactCardData v = Inr (v', redactions)"
  shows "card_free v' \<and> (redactions = 0 \<longleftrightarrow> card_free v) \<and> (card_free v \<and> own_keys v \<longrightarrow> v' = v) \<and>
    (assertNoCardData v place = Inr () \<longleftrightarrow> card_free v)"
  using walk_clean(1) [OF assms [unfolded redactCardData_def]] walk_same(1) [OF assms [unfolded redactCardData_def]] assms
  by (auto simp: assertNoCardData_def)

definition sample_leak :: jsval where
  "sample_leak = VObj [(jstr ''note'', VStr (jstr ''4111 1111 1111 1111 ok'')), (jstr ''Cvv'', VNull)]"

lemma sample_keys: "isForbiddenCardKey (jstr ''Cvv'')" "\<not> isForbiddenCardKey (jstr ''note'')" "jstr ''note'' \<noteq> jstr ''__proto__''"
  by code_simp+

lemma sample_run: "redactCardNumbers (jstr ''4111 1111 1111 1111 ok'') = jstr ''[redacted] ok''"
  by code_simp

theorem redacted_value_clean_witness:
  "redactCardData sample_leak = Inr (VObj [(jstr ''note'', VStr (jstr ''[redacted] ok''))], 2) \<and> \<not> card_free sample_leak"
proof -
  have "jstr ''[redacted] ok'' \<noteq> jstr ''4111 1111 1111 1111 ok''" by (simp add: jstr_def)
  then have r: "redactCardData sample_leak = Inr (VObj [(jstr ''note'', VStr (jstr ''[redacted] ok''))], 2)"
    by (simp add: redactCardData_def sample_leak_def check_depth_def sample_keys sample_run)
  from redacted_value_clean [OF r] r show ?thesis by simp
qed

end
