(* ===== verification/CardDraft.thy ===== *)
theory CardDraft
  imports CardMath CardRedact CardPda
begin

text \<open>
  \<open>sdk/src/cards/draft.ts\<close> (what an agent may propose), \<open>sdk/src/cards/merchants.ts\<close> (the sandbox shop
  registry) and \<open>sdk/src/cards/evidence.ts\<close> (decline reasons and receipt kinds). \<open>Date.parse\<close> accepts
  formats that are up to the engine, so it and \<open>toISOString\<close> are the record \<open>dates\<close>; the base64url and JSON text of
  the link's fragment is not modelled, so the intake starts from the decoded draft and the claimed digest.
\<close>

section \<open>The shop registry\<close>

datatype MerchantFixture = ApprovedShop | UnapprovedShop

record CardSandboxMerchant =
  cm_ref :: jstext
  cm_displayName :: jstext
  cm_acceptorId :: jstext
  cm_descriptor :: jstext
  cm_sells :: jstext
  cm_mcc :: int
  cm_fixture :: MerchantFixture

definition CARD_SANDBOX_MERCHANTS :: "CardSandboxMerchant list" where
  "CARD_SANDBOX_MERCHANTS =
     [\<lparr>cm_ref = jstr ''demo-approved'', cm_displayName = jstr ''ChainPay demo shop'', cm_acceptorId = jstr ''DEMO-DATAAPI'',
       cm_descriptor = jstr ''DATA API CREDITS'', cm_sells = jstr ''Data API credits'', cm_mcc = 5734, cm_fixture = ApprovedShop\<rparr>,
      \<lparr>cm_ref = jstr ''demo-unapproved'', cm_displayName = jstr ''Unlisted test shop'', cm_acceptorId = jstr ''DEMO-OTHERSHOP'',
       cm_descriptor = jstr ''UNAPPROVED SHOP'', cm_sells = jstr ''Anything else'', cm_mcc = 5999, cm_fixture = UnapprovedShop\<rparr>]"

definition MAX_ACCEPTOR_ID_LENGTH :: nat where "MAX_ACCEPTOR_ID_LENGTH = 15"

definition CARD_MCC_NAMES :: "(int \<times> string) list" where
  "CARD_MCC_NAMES = [(4816, ''Online services''), (5045, ''Computers and electronics''), (5734, ''Software''),
     (5817, ''Digital goods''), (5942, ''Books''), (5999, ''Other retail''), (7372, ''Data and computer services''),
     (4121, ''Rides'')]"

definition cardMerchantByRef :: "jstext \<Rightarrow> CardSandboxMerchant option" where
  "cardMerchantByRef ref = find (\<lambda>merchant. cm_ref merchant = ref) CARD_SANDBOX_MERCHANTS"

definition mccLabel :: "int \<Rightarrow> string" where
  "mccLabel mcc = (case map_of CARD_MCC_NAMES mcc of
     Some name \<Rightarrow> name @ '' ('' @ pad_start 4 CHR ''0'' (int_dec mcc) @ '')''
   | None \<Rightarrow> ''Category '' @ pad_start 4 CHR ''0'' (int_dec mcc))"

section \<open>Drafts\<close>

record dates =
  date_of :: "jstext \<Rightarrow> int option"
  iso_of :: "int \<Rightarrow> jstext"

record CardDraft =
  cd_label :: jstext
  cd_budgetCents :: string
  cd_maxPurchaseCents :: string
  cd_merchants :: "jstext list"
  cd_mccs :: "jsnum list"
  cd_periodDays :: jsnum
  cd_expiresAt :: "jstext option"
  cd_feeBps :: jsnum

record CardDraftInput =
  di_label :: jsval
  di_budgetCents :: jsval
  di_maxPurchaseCents :: jsval
  di_merchants :: jsval
  di_mccs :: jsval
  di_periodDays :: jsval
  di_expiresAt :: jsval
  di_feeBps :: jsval

definition DEFAULT_CARD_FEE_BPS :: int where "DEFAULT_CARD_FEE_BPS = 50"
definition MAX_PERIOD_DAYS :: int where "MAX_PERIOD_DAYS = 365"

text \<open>\<open>/^[A-Za-z0-9_.:-]{1,64}$/\<close>\<close>

definition merchant_ref :: "jstext \<Rightarrow> bool" where
  "merchant_ref s \<longleftrightarrow> 1 \<le> length s \<and> length s \<le> 64 \<and> list_all (\<lambda>c. id_char c \<or> c = 46 \<or> c = 58) s"

text \<open>A value as an argument of \<open>parseCents\<close>; a text outside Latin-1 fails its pattern like any other value.\<close>

definition cents_argument :: "jsval \<Rightarrow> unknown" where
  "cents_argument v = (case v of
     VBig n \<Rightarrow> BigIntVal n
   | VStr s \<Rightarrow> if list_ex (\<lambda>c. c \<ge> 256) s then OtherVal else StringVal (map char_of s)
   | _ \<Rightarrow> OtherVal)"

fun string_items :: "jsval list \<Rightarrow> jstext list option" where
  "string_items [] = Some []"
| "string_items (VStr s # vs) = map_option ((#) s) (string_items vs)"
| "string_items (_ # vs) = None"

fun number_items :: "jsval list \<Rightarrow> jsnum list option" where
  "number_items [] = Some []"
| "number_items (VNum n # vs) = map_option ((#) n) (number_items vs)"
| "number_items (_ # vs) = None"

text \<open>\<open>x === undefined ? [] : x\<close>, then the list test with every element's test.\<close>

definition read_merchants :: "jsval \<Rightarrow> jstext list result" where
  "read_merchants v = (case v of
     VUndefined \<Rightarrow> Inr []
   | VArr vs \<Rightarrow> (case string_items vs of
        Some refs \<Rightarrow> if list_all merchant_ref refs then Inr refs else Inl ''merchants must be a list of merchant references''
      | None \<Rightarrow> Inl ''merchants must be a list of merchant references'')
   | _ \<Rightarrow> Inl ''merchants must be a list of merchant references'')"

definition read_mccs :: "jsval \<Rightarrow> jsnum list result" where
  "read_mccs v = (case v of
     VUndefined \<Rightarrow> Inr []
   | VArr vs \<Rightarrow> (case number_items vs of
        Some mccs \<Rightarrow> if list_all (num_in 0 9999) mccs then Inr mccs else Inl ''mccs must be a list of 4-digit merchant category codes''
      | None \<Rightarrow> Inl ''mccs must be a list of 4-digit merchant category codes'')
   | _ \<Rightarrow> Inl ''mccs must be a list of 4-digit merchant category codes'')"

definition unknown_shops :: "jstext list \<Rightarrow> string" where
  "unknown_shops refs =
     map char_of (join_text (jstr '', '') (map (\<lambda>ref. 34 # redactCardNumbersInInput ref @ [34]) refs))
     @ '' '' @ (if length refs = 1 then ''isn't a shop'' else ''aren't shops'') @ '' ChainPay can check out at''"

definition read_expiry :: "dates \<Rightarrow> int \<Rightarrow> jsval \<Rightarrow> jstext option result" where
  "read_expiry D now v = (case v of
     VUndefined \<Rightarrow> Inr None
   | VNull \<Rightarrow> Inr None
   | VStr s \<Rightarrow> (case date_of D s of
        None \<Rightarrow> Inl ''expiresAt must be an ISO date''
      | Some ms \<Rightarrow> if ms \<le> now then Inl ''expiresAt must be in the future'' else Inr (Some (iso_of D ms)))
   | _ \<Rightarrow> Inl ''expiresAt must be an ISO date'')"

definition read_label :: "jsval \<Rightarrow> jstext result" where
  "read_label v = (case v of
     VStr s \<Rightarrow> if js_trim s = [] \<or> units (js_trim s) > 40 then Inl ''label must be 1-40 characters'' else Inr (js_trim s)
   | _ \<Rightarrow> Inl ''label must be 1-40 characters'')"

definition read_number :: "int \<Rightarrow> int \<Rightarrow> string \<Rightarrow> jsval \<Rightarrow> jsnum result" where
  "read_number lo hi msg v = (case v of VNum n \<Rightarrow> if num_in lo hi n then Inr n else Inl msg | _ \<Rightarrow> Inl msg)"

definition normalizeCardDraft :: "dates \<Rightarrow> CardDraftInput \<Rightarrow> int \<Rightarrow> CardDraft result" where
  "normalizeCardDraft D input now =
     bindR (read_label (di_label input)) (\<lambda>label.
     bindR (parseCents (cents_argument (di_budgetCents input)) ''budgetCents'') (\<lambda>budget.
     bindR (parseCents (cents_argument (di_maxPurchaseCents input)) ''maxPurchaseCents'') (\<lambda>maxPurchase.
     bindR (require (budget > 0) ''Budget must be more than $0'') (\<lambda>_.
     bindR (require (budget \<le> MAX_BUDGET_CENTS) ''Budget can't be more than $10,000 in the sandbox'') (\<lambda>_.
     bindR (require (maxPurchase > 0 \<and> maxPurchase \<le> budget) ''Max purchase must be more than $0 and no more than the budget'') (\<lambda>_.
     bindR (read_merchants (di_merchants input)) (\<lambda>merchants.
     bindR (read_mccs (di_mccs input)) (\<lambda>mccs.
     bindR (require (merchants \<noteq> [] \<or> mccs \<noteq> []) ''Pick at least one shop or merchant category'') (\<lambda>_.
     let unknown = filter (\<lambda>ref. cardMerchantByRef ref = None) merchants in
     bindR (require (unknown = []) (unknown_shops unknown)) (\<lambda>_.
     bindR (require (length merchants \<le> MAX_MERCHANTS) ''At most 8 shops'') (\<lambda>_.
     bindR (require (length mccs \<le> MAX_MCCS) ''At most 16 merchant categories'') (\<lambda>_.
     bindR (require (distinct merchants) ''A shop is listed twice'') (\<lambda>_.
     bindR (require (distinct mccs) ''A merchant category is listed twice'') (\<lambda>_.
     bindR (read_number 1 MAX_PERIOD_DAYS ''periodDays must be a whole number from 1 to 365'' (di_periodDays input)) (\<lambda>periodDays.
     bindR (read_number 0 MAX_FEE_BPS ''feeBps must be a whole number from 0 to 1000''
       (if di_feeBps input = VUndefined then VNum (NInt DEFAULT_CARD_FEE_BPS) else di_feeBps input)) (\<lambda>feeBps.
     bindR (read_expiry D now (di_expiresAt input)) (\<lambda>expiresAt.
     bindR (centsToString budget) (\<lambda>budgetText.
     bindR (centsToString maxPurchase) (\<lambda>maxText.
     Inr \<lparr>cd_label = label, cd_budgetCents = budgetText, cd_maxPurchaseCents = maxText, cd_merchants = merchants,
          cd_mccs = mccs, cd_periodDays = periodDays, cd_expiresAt = expiresAt, cd_feeBps = feeBps\<rparr>)))))))))))))))))))"

definition draft_json :: "CardDraft \<Rightarrow> json" where
  "draft_json draft = JArr [JNum (NInt 1), JStr (cd_label draft), JStr (jstr (cd_budgetCents draft)), JStr (jstr (cd_maxPurchaseCents draft)),
     JArr (map JStr (cd_merchants draft)), JArr (map JNum (cd_mccs draft)), JNum (cd_periodDays draft),
     (case cd_expiresAt draft of None \<Rightarrow> JNull | Some t \<Rightarrow> JStr t), JNum (cd_feeBps draft)]"

definition canonical_draft :: "CardDraft \<Rightarrow> jstext" where
  "canonical_draft draft = print_json (draft_json draft)"

definition draft_bytes :: "CardDraft \<Rightarrow> bytes" where
  "draft_bytes draft = utf8 (jstr ''chainpay-card-draft:v1\<newline>'' @ canonical_draft draft)"

definition cardDraftDigest :: "crypto \<Rightarrow> CardDraft \<Rightarrow> string" where
  "cardDraftDigest C draft = bytesToHex (cr_sha256 C (draft_bytes draft))"

definition cardDraftMaxObligationCents :: "CardDraft \<Rightarrow> string result" where
  "cardDraftMaxObligationCents draft =
     bindR (maxObligationCents (dec_val (cd_budgetCents draft)) (cd_feeBps draft)) centsToString"

datatype CardDraftIntake =
    DraftMatched CardDraft string
  | DraftMismatch string string
  | DraftMissingDigest string
  | DraftInvalid string

text \<open>\<open>verifyCardDraftFragment\<close>, from the decoded draft and the digest the link claims.\<close>

definition draftIntake :: "crypto \<Rightarrow> CardDraft result \<Rightarrow> string option \<Rightarrow> CardDraftIntake" where
  "draftIntake C decoded claimed = (case decoded of
     Inl e \<Rightarrow> DraftInvalid e
   | Inr draft \<Rightarrow>
       let digest = cardDraftDigest C draft in
       (case claimed of
          None \<Rightarrow> DraftMissingDigest digest
        | Some c \<Rightarrow> if c \<noteq> digest then DraftMismatch digest c else DraftMatched draft digest))"


section \<open>What a draft promises\<close>

text \<open>
  The members of a draft, read back from the JSON of the review link, as the input of \<open>normalizeCardDraft\<close>; and
  what the engine's dates promise: the ISO text of a parsed time parses to that time.
\<close>

definition draft_input :: "CardDraft \<Rightarrow> CardDraftInput" where
  "draft_input d = \<lparr>di_label = VStr (cd_label d), di_budgetCents = VStr (jstr (cd_budgetCents d)),
     di_maxPurchaseCents = VStr (jstr (cd_maxPurchaseCents d)), di_merchants = VArr (map VStr (cd_merchants d)),
     di_mccs = VArr (map VNum (cd_mccs d)), di_periodDays = VNum (cd_periodDays d),
     di_expiresAt = (case cd_expiresAt d of None \<Rightarrow> VNull | Some t \<Rightarrow> VStr t), di_feeBps = VNum (cd_feeBps d)\<rparr>"

definition dates_ok :: "dates \<Rightarrow> bool" where
  "dates_ok D \<longleftrightarrow> (\<forall>s ms. date_of D s = Some ms \<longrightarrow> date_of D (iso_of D ms) = Some ms \<and> text_ok (iso_of D ms))"

definition not_expired :: "dates \<Rightarrow> int \<Rightarrow> CardDraft \<Rightarrow> bool" where
  "not_expired D now d \<longleftrightarrow>
     (case cd_expiresAt d of None \<Rightarrow> True | Some t \<Rightarrow> (case date_of D t of None \<Rightarrow> False | Some ms \<Rightarrow> now < ms))"

text \<open>The end date of a draft: none was asked for, or it is the date asked for in ISO form, which lies after \<open>now\<close>.\<close>

definition expiry_limit :: "dates \<Rightarrow> int \<Rightarrow> jsval \<Rightarrow> jstext option \<Rightarrow> bool" where
  "expiry_limit D now asked expiresAt = (case expiresAt of
     None \<Rightarrow> asked \<in> {VUndefined, VNull}
   | Some t \<Rightarrow> \<exists>s ms. asked = VStr s \<and> date_of D s = Some ms \<and> now < ms \<and> t = iso_of D ms)"

text \<open>The limits of a draft that do not depend on the time; the two amounts are the numbers their texts spell.\<close>

definition draft_limits :: "CardDraft \<Rightarrow> int \<Rightarrow> int \<Rightarrow> bool" where
  "draft_limits d budget maxPurchase \<longleftrightarrow>
     cd_label d \<noteq> [] \<and> js_trim (cd_label d) = cd_label d \<and> units (cd_label d) \<le> 40 \<and>
     cd_budgetCents d = int_dec budget \<and> 0 < budget \<and> budget \<le> MAX_BUDGET_CENTS \<and>
     cd_maxPurchaseCents d = int_dec maxPurchase \<and> 0 < maxPurchase \<and> maxPurchase \<le> budget \<and>
     (cd_merchants d \<noteq> [] \<or> cd_mccs d \<noteq> []) \<and>
     list_all (\<lambda>ref. merchant_ref ref \<and> cardMerchantByRef ref \<noteq> None) (cd_merchants d) \<and>
     length (cd_merchants d) \<le> MAX_MERCHANTS \<and> distinct (cd_merchants d) \<and>
     list_all (num_in 0 9999) (cd_mccs d) \<and> length (cd_mccs d) \<le> MAX_MCCS \<and> distinct (cd_mccs d) \<and>
     num_in 1 MAX_PERIOD_DAYS (cd_periodDays d) \<and> num_in 0 MAX_FEE_BPS (cd_feeBps d)"

text \<open>Stripping a class of characters from both ends, twice.\<close>

lemma strip_idem:
  fixes P :: "'a \<Rightarrow> bool"
  defines "strip \<equiv> \<lambda>s. rev (dropWhile P (rev (dropWhile P s)))"
  shows "strip (strip s) = strip s"
proof -
  define t where "t = dropWhile P s"
  define u where "u = rev (dropWhile P (rev t))"
  have u: "strip s = u" by (simp add: strip_def t_def u_def)
  show ?thesis
  proof (cases "u = []")
    case True
    then show ?thesis unfolding u by (simp add: strip_def)
  next
    case False
    have "t = u @ rev (takeWhile P (rev t))" unfolding u_def
      by (metis rev_append rev_rev_ident takeWhile_dropWhile_id)
    then have "hd u = hd t" "t \<noteq> []" using False by (metis hd_append2, auto)
    then have "\<not> P (hd u)" using hd_dropWhile [of P s] by (simp add: t_def)
    then have 1: "dropWhile P u = u" using False by (cases u) auto
    have "dropWhile P (rev u) = rev u" unfolding u_def by simp
    then show ?thesis unfolding u by (simp add: strip_def 1)
  qed
qed

lemma js_trim_idem [simp]: "js_trim (js_trim s) = js_trim s"
  unfolding js_trim_def by (rule strip_idem)

lemma trim_idem [simp]: "trim (trim s) = trim s"
  unfolding trim_def by (rule strip_idem)

lemma string_items_VStr [simp]: "string_items (map VStr xs) = Some xs"
  by (induction xs) simp_all

lemma number_items_VNum [simp]: "number_items (map VNum xs) = Some xs"
  by (induction xs) simp_all



lemma read_label_Inr: "read_label v = Inr l \<Longrightarrow> l \<noteq> [] \<and> js_trim l = l \<and> units l \<le> 40"
  by (auto simp: read_label_def split: jsval.splits if_splits)

lemma read_merchants_Inr: "read_merchants v = Inr refs \<Longrightarrow> list_all merchant_ref refs"
  by (auto simp: read_merchants_def split: jsval.splits option.splits if_splits)

lemma read_mccs_Inr: "read_mccs v = Inr mccs \<Longrightarrow> list_all (num_in 0 9999) mccs"
  by (auto simp: read_mccs_def split: jsval.splits option.splits if_splits)

lemma read_number_Inr: "read_number lo hi msg v = Inr n \<Longrightarrow> num_in lo hi n"
  by (auto simp: read_number_def split: jsval.splits if_splits)

lemma read_expiry_Inr:
  assumes "dates_ok D" and "read_expiry D now v = Inr (Some t)"
  shows "text_ok t" and "\<exists>ms. date_of D t = Some ms \<and> iso_of D ms = t"
  using assms by (auto simp: read_expiry_def dates_ok_def split: jsval.splits option.splits if_splits)

lemma read_expiry_limit: "read_expiry D now v = Inr e \<Longrightarrow> expiry_limit D now v e"
  by (auto simp: read_expiry_def expiry_limit_def split: jsval.splits option.splits if_splits)

lemma expiry_limit_future: "dates_ok D \<Longrightarrow> expiry_limit D now v (cd_expiresAt d) \<Longrightarrow> not_expired D now d"
  by (fastforce simp: expiry_limit_def not_expired_def dates_ok_def split: option.splits)

lemma normalize_limits:
  assumes "normalizeCardDraft D input now = Inr d"
  shows "\<exists>budget maxPurchase. draft_limits d budget maxPurchase"
    and "read_expiry D now (di_expiresAt input) = Inr (cd_expiresAt d)"
proof -
  from assms obtain label budget maxPurchase merchants mccs periodDays feeBps expiresAt budgetText maxText where
    label: "read_label (di_label input) = Inr label" and
    amounts: "0 < budget" "budget \<le> MAX_BUDGET_CENTS" "0 < maxPurchase" "maxPurchase \<le> budget" and
    lists: "read_merchants (di_merchants input) = Inr merchants" "read_mccs (di_mccs input) = Inr mccs"
      "merchants \<noteq> [] \<or> mccs \<noteq> []" "filter (\<lambda>ref. cardMerchantByRef ref = None) merchants = []"
      "length merchants \<le> MAX_MERCHANTS" "length mccs \<le> MAX_MCCS" "distinct merchants" "distinct mccs" and
    numbers: "num_in 1 MAX_PERIOD_DAYS periodDays" "num_in 0 MAX_FEE_BPS feeBps" and
    expiry: "read_expiry D now (di_expiresAt input) = Inr expiresAt" and
    texts: "centsToString budget = Inr budgetText" "centsToString maxPurchase = Inr maxText" and
    d: "d = \<lparr>cd_label = label, cd_budgetCents = budgetText, cd_maxPurchaseCents = maxText, cd_merchants = merchants,
          cd_mccs = mccs, cd_periodDays = periodDays, cd_expiresAt = expiresAt, cd_feeBps = feeBps\<rparr>"
    unfolding normalizeCardDraft_def Let_def by (auto simp: result_simps dest!: read_number_Inr)
  show "read_expiry D now (di_expiresAt input) = Inr (cd_expiresAt d)" using expiry d by simp
  have "list_all (\<lambda>ref. merchant_ref ref \<and> cardMerchantByRef ref \<noteq> None) merchants"
    using lists(4) read_merchants_Inr [OF lists(1)] by (auto simp: filter_empty_conv list_all_iff)
  then have "draft_limits d budget maxPurchase"
    using read_label_Inr [OF label] amounts lists(3,5-) read_mccs_Inr [OF lists(2)] numbers texts
    by (auto simp: draft_limits_def d centsToString_def split: if_splits)
  then show "\<exists>budget maxPurchase. draft_limits d budget maxPurchase" by blast
qed



lemma cents_text_argument:
  assumes "0 \<le> v" "v < 10 ^ 16"
  shows "parseCents (cents_argument (VStr (jstr (int_dec v)))) name = Inr v"
proof -
  have "list_all (\<lambda>c. c < 256) (jstr s)" for s by (induction s) (simp_all add: jstr_def)
  then have "\<not> list_ex (\<lambda>c. c \<ge> 256) (jstr s)" for s by (auto simp: list_all_iff list_ex_iff) (meson not_le)
  moreover have "map char_of (jstr s) = s" for s by (induction s) (simp_all add: jstr_def)
  moreover have "int_dec v = nat_dec (nat v)" using assms by (simp add: int_dec_def)
  moreover have "nat v < 10 ^ 16" using assms by (simp add: nat_less_iff)
  ultimately show ?thesis using cents_pattern_iff assms by (auto simp: cents_argument_def)
qed

lemma normalize_again:
  assumes limits: "draft_limits d budget maxPurchase"
    and expiry: "read_expiry D now (di_expiresAt (draft_input d)) = Inr (cd_expiresAt d)"
  shows "normalizeCardDraft D (draft_input d) now = Inr d"
proof -
  have lists: "read_merchants (VArr (map VStr (cd_merchants d))) = Inr (cd_merchants d)"
    "read_mccs (VArr (map VNum (cd_mccs d))) = Inr (cd_mccs d)"
    "filter (\<lambda>ref. cardMerchantByRef ref = None) (cd_merchants d) = []"
    using limits by (auto simp: draft_limits_def read_merchants_def read_mccs_def list_all_iff filter_empty_conv)
  have amounts: "parseCents (cents_argument (VStr (jstr (cd_budgetCents d)))) name = Inr budget"
    "parseCents (cents_argument (VStr (jstr (cd_maxPurchaseCents d)))) name = Inr maxPurchase" for name
    using limits by (auto simp: draft_limits_def MAX_BUDGET_CENTS_def intro!: cents_text_argument)
  have texts: "centsToString budget = Inr (cd_budgetCents d)" "centsToString maxPurchase = Inr (cd_maxPurchaseCents d)"
    using limits by (auto simp: draft_limits_def centsToString_def)
  have rest: "read_label (VStr (cd_label d)) = Inr (cd_label d)"
    "read_number 1 MAX_PERIOD_DAYS msg (VNum (cd_periodDays d)) = Inr (cd_periodDays d)"
    "read_number 0 MAX_FEE_BPS msg (VNum (cd_feeBps d)) = Inr (cd_feeBps d)" for msg
    using limits by (auto simp: draft_limits_def read_label_def read_number_def)
  show ?thesis
    using limits expiry lists amounts texts rest
    by (simp add: normalizeCardDraft_def draft_limits_def draft_input_def)
qed

lemma max_obligation_of_draft:
  assumes "draft_limits d budget maxPurchase"
  shows "\<exists>bps. cd_feeBps d = NInt bps \<and> 0 \<le> bps \<and> bps \<le> 1000 \<and>
    cardDraftMaxObligationCents d = Inr (int_dec (budget + budget * bps div 10000))"
proof -
  from assms obtain bps where bps: "cd_feeBps d = NInt bps" "0 \<le> bps" "bps \<le> 1000"
    by (cases "cd_feeBps d") (auto simp: draft_limits_def MAX_FEE_BPS_def)
  have budget: "dec_val (cd_budgetCents d) = budget" "0 < budget" using assms by (auto simp: draft_limits_def int_dec_def)
  have "0 \<le> budget * bps div 10000" using budget(2) bps(2) by (simp add: pos_imp_zdiv_nonneg_iff)
  with bps budget show ?thesis
    by (auto simp: cardDraftMaxObligationCents_def maxObligationCents_def feeCents_def assertBps_def centsToString_def)
qed



lemma plain_items_text: "list_all text_ok xs \<Longrightarrow> plain_items (map JStr xs)"
  by (induction xs) simp_all

lemma plain_items_numbers: "list_all (num_in lo hi) xs \<Longrightarrow> plain_items (map JNum xs)"
proof (induction xs)
  case (Cons x xs)
  then show ?case by (cases x) simp_all
qed simp

lemma merchant_ref_text: "merchant_ref s \<Longrightarrow> text_ok s"
  by (auto simp: merchant_ref_def text_ok_def list_all_iff id_char_def cp_digit_def)

definition draft_text_ok :: "CardDraft \<Rightarrow> bool" where
  "draft_text_ok d \<longleftrightarrow> text_ok (cd_label d) \<and> pred_option text_ok (cd_expiresAt d)"

lemma plain_draft:
  assumes "draft_limits d budget maxPurchase" and "draft_text_ok d"
  shows "plain (draft_json d)"
proof -
  have "list_all text_ok (cd_merchants d)"
    using assms(1) by (auto simp: draft_limits_def list_all_iff merchant_ref_text)
  moreover have "\<exists>n. cd_periodDays d = NInt n" "\<exists>n. cd_feeBps d = NInt n"
    using assms(1) by (cases "cd_periodDays d"; cases "cd_feeBps d"; simp add: draft_limits_def)+
  moreover have "list_all (num_in 0 9999) (cd_mccs d)" using assms(1) by (simp add: draft_limits_def)
  ultimately show ?thesis using assms(2)
    by (auto simp: draft_json_def draft_text_ok_def plain_items_text split: option.splits
        intro: plain_items_numbers)
qed

lemma draft_bytes_inject:
  assumes "plain (draft_json d)" and "plain (draft_json e)" and eq: "draft_bytes d = draft_bytes e"
  shows "d = e"
proof -
  let ?p = "jstr ''chainpay-card-draft:v1\<newline>''"
  have "?p @ print_json (draft_json d) = ?p @ print_json (draft_json e)"
    by (rule utf8_inject) (use eq scalar_print(1) assms(1,2) scalar_jstr in \<open>simp_all add: draft_bytes_def canonical_draft_def\<close>)
  then have "draft_json d = draft_json e"
    using print_inject(1) [of "draft_json d" "draft_json e" "[]" "[]"] assms(1,2) by simp
  then show ?thesis
    by (cases d; cases e) (auto simp: draft_json_def jstr_inject inj_def split: option.splits)
qed



text \<open>
  C38. What a draft may ask for: a draft that \<open>normalizeCardDraft\<close> returns has a trimmed label of 1 to 40 units, a
  positive budget of at most the sandbox limit, a positive purchase limit within it, at least one shop or
  category, only registered shops, at most 8 distinct shops and 16 distinct 4-digit categories, a period of
  1 to 365 days and a fee of at most 10%; it has no end date, if none was asked for, or the date asked for in ISO form,
  which lies in the future, and so it is not expired where dates survive their ISO form; and its largest obligation is computed without error, as the budget
  plus the fee on it rounded down, never more than a tenth over the budget.
\<close>

theorem normalized_draft_within_limits:
  assumes "normalizeCardDraft D input now = Inr d"
  shows "\<exists>budget maxPurchase bps total. draft_limits d budget maxPurchase \<and> cd_feeBps d = NInt bps \<and>
    cardDraftMaxObligationCents d = Inr (int_dec total) \<and> total = budget + budget * bps div 10000 \<and>
    budget \<le> total \<and> 10 * total \<le> 11 * budget \<and>
    expiry_limit D now (di_expiresAt input) (cd_expiresAt d) \<and> (dates_ok D \<longrightarrow> not_expired D now d)"
proof -
  have expiry: "expiry_limit D now (di_expiresAt input) (cd_expiresAt d)"
    by (rule read_expiry_limit [OF normalize_limits(2) [OF assms]])
  from normalize_limits(1) [OF assms] obtain budget maxPurchase where l: "draft_limits d budget maxPurchase" by blast
  from max_obligation_of_draft [OF l] obtain bps where bps: "cd_feeBps d = NInt bps" "0 \<le> bps" "bps \<le> 1000"
    "cardDraftMaxObligationCents d = Inr (int_dec (budget + budget * bps div 10000))" by blast
  have "0 < budget" using l by (simp add: draft_limits_def)
  then have "0 \<le> budget * bps" "budget * bps \<le> budget * 1000" using bps by simp_all
  then have "0 \<le> budget * bps div 10000" "10 * (budget * bps div 10000) \<le> budget" by linarith+
  moreover define fee where "fee = budget * bps div 10000"
  ultimately have "budget \<le> budget + fee" "10 * (budget + fee) \<le> 11 * budget" by simp_all
  with l bps expiry expiry_limit_future [OF _ expiry] show ?thesis unfolding fee_def by blast
qed

text \<open>
  The owner reviews what the agent proposed: a draft that was normalized once comes back unchanged when
  the review link's JSON is normalized again, at any time before the draft expires, and together with the digest
  of the link the intake reports it as matched.
\<close>

theorem draft_link_roundtrip:
  assumes D: "dates_ok D" and d: "normalizeCardDraft D input now = Inr d" and later: "not_expired D later d"
  shows "normalizeCardDraft D (draft_input d) later = Inr d \<and>
    draftIntake C (normalizeCardDraft D (draft_input d) later) (Some (cardDraftDigest C d)) =
      DraftMatched d (cardDraftDigest C d)"
proof -
  from normalize_limits(1) [OF d] obtain budget maxPurchase where l: "draft_limits d budget maxPurchase" by blast
  have "read_expiry D later (di_expiresAt (draft_input d)) = Inr (cd_expiresAt d)"
  proof (cases "cd_expiresAt d")
    case (Some t)
    with normalize_limits(2) [OF d] read_expiry_Inr(2) [OF D] obtain ms where "date_of D t = Some ms" "iso_of D ms = t"
      by metis
    with Some later show ?thesis by (simp add: draft_input_def read_expiry_def not_expired_def)
  qed (simp add: draft_input_def read_expiry_def)
  from normalize_again [OF l this] have "normalizeCardDraft D (draft_input d) later = Inr d" .
  then show ?thesis by (simp add: draftIntake_def)
qed

text \<open>
  A matched draft is the one whose digest the link carries: when the intake reports a draft as matched
  against the digest of a proposed draft, every field of the two is the same, unless the bytes hashed for the two
  are themselves a SHA-256 collision. (Labels are texts of Unicode code points.)
\<close>

theorem matched_draft_is_proposed:
  assumes D: "dates_ok D" and labels: "text_ok (cd_label proposed)" "text_ok (cd_label d)"
    and proposed: "normalizeCardDraft D input now = Inr proposed"
    and matched: "draftIntake C (normalizeCardDraft D raw later) (Some (cardDraftDigest C proposed)) = DraftMatched d digest"
  shows "d = proposed \<or> draft_bytes d \<noteq> draft_bytes proposed \<and> cr_sha256 C (draft_bytes d) = cr_sha256 C (draft_bytes proposed)"
proof -
  from matched have d: "normalizeCardDraft D raw later = Inr d" and digest: "cardDraftDigest C proposed = cardDraftDigest C d"
    by (auto simp: draftIntake_def Let_def split: sum.splits if_splits)
  have p: "plain (draft_json x)" if "normalizeCardDraft D i n = Inr x" "text_ok (cd_label x)" for i n x
  proof -
    have "pred_option text_ok (cd_expiresAt x)"
      using normalize_limits(2) [OF that(1)] read_expiry_Inr(1) [OF D] by (cases "cd_expiresAt x") auto
    with normalize_limits(1) [OF that(1)] that(2) plain_draft show ?thesis by (auto simp: draft_text_ok_def)
  qed
  from digest have "cr_sha256 C (draft_bytes d) = cr_sha256 C (draft_bytes proposed)"
    by (simp add: cardDraftDigest_def bytesToHex_eq hex_str_inject)
  with draft_bytes_inject [OF p [OF d labels(2)] p [OF proposed labels(1)]] show ?thesis by blast
qed

section \<open>Examples\<close>

definition sample_dates :: dates where
  "sample_dates = \<lparr>date_of = (\<lambda>s. if s = jstr ''2026-12-31T00:00:00.000Z'' then Some 1798675200000 else None),
     iso_of = (\<lambda>ms. jstr ''2026-12-31T00:00:00.000Z'')\<rparr>"

definition sample_draft :: CardDraft where
  "sample_draft = \<lparr>cd_label = jstr ''Data'', cd_budgetCents = ''20000'', cd_maxPurchaseCents = ''2000'',
     cd_merchants = [jstr ''demo-approved''], cd_mccs = [NInt 5734], cd_periodDays = NInt 30,
     cd_expiresAt = Some (jstr ''2026-12-31T00:00:00.000Z''), cd_feeBps = NInt 50\<rparr>"

definition sample_input :: CardDraftInput where
  "sample_input = (draft_input sample_draft)\<lparr>di_label := VStr (jstr ''  Data ''), di_budgetCents := VBig 20000, di_feeBps := VUndefined\<rparr>"

lemma sample_dates_ok: "dates_ok sample_dates"
  by (auto simp: dates_ok_def sample_dates_def split: if_splits)

lemma sample_texts: "int_dec 20000 = ''20000''" "int_dec 2000 = ''2000''"
  by (simp_all add: int_dec_def radix_str.simps digit_char_def char_of_def bit_iff_odd)

lemma sample_label: "js_trim (jstr ''  Data '') = jstr ''Data''" "js_trim (jstr ''Data'') = jstr ''Data''" "units (jstr ''Data'') = 4" "jstr ''Data'' \<noteq> []"
  by (simp_all add: js_trim_def js_space_def jstr_def units_def)

lemma sample_shop: "merchant_ref (jstr ''demo-approved'')" "\<exists>m. cardMerchantByRef (jstr ''demo-approved'') = Some m"
  by (simp_all add: merchant_ref_def id_char_def cp_digit_def jstr_def cardMerchantByRef_def CARD_SANDBOX_MERCHANTS_def)

lemma sample_limits: "draft_limits sample_draft 20000 2000"
  by (simp add: draft_limits_def sample_draft_def sample_texts sample_label sample_shop MAX_BUDGET_CENTS_def MAX_MERCHANTS_def
      MAX_MCCS_def MAX_PERIOD_DAYS_def MAX_FEE_BPS_def)

lemma sample_expiry: "now < 1798675200000 \<Longrightarrow> read_expiry sample_dates now (di_expiresAt (draft_input sample_draft)) = Inr (cd_expiresAt sample_draft)"
  by (simp add: read_expiry_def sample_dates_def draft_input_def sample_draft_def)

lemma sample_normalizes: "normalizeCardDraft sample_dates sample_input 0 = Inr sample_draft"
proof -
  have "normalizeCardDraft sample_dates (draft_input sample_draft) 0 = Inr sample_draft"
    by (rule normalize_again [OF sample_limits sample_expiry]) simp
  moreover have "read_label (VStr (jstr ''  Data '')) = read_label (VStr (jstr ''Data''))"
    by (simp add: read_label_def sample_label)
  moreover have "parseCents (cents_argument (VBig 20000)) name = parseCents (cents_argument (VStr (jstr ''20000''))) name" for name
    using cents_text_argument [of 20000 name] by (simp add: cents_argument_def sample_texts)
  ultimately show ?thesis
    by (simp add: normalizeCardDraft_def sample_input_def draft_input_def sample_draft_def DEFAULT_CARD_FEE_BPS_def)
qed

theorem normalized_draft_within_limits_witness:
  "normalizeCardDraft sample_dates sample_input 0 = Inr sample_draft \<and>
   (\<exists>budget maxPurchase total. draft_limits sample_draft budget maxPurchase \<and>
     cardDraftMaxObligationCents sample_draft = Inr (int_dec total) \<and> 10 * total \<le> 11 * budget) \<and>
   not_expired sample_dates 0 sample_draft"
  using normalized_draft_within_limits [OF sample_normalizes] sample_normalizes sample_dates_ok by blast

theorem draft_link_roundtrip_witness:
  "normalizeCardDraft sample_dates sample_input 0 = Inr sample_draft \<and>
   draftIntake sample_crypto (normalizeCardDraft sample_dates (draft_input sample_draft) 5) (Some (cardDraftDigest sample_crypto sample_draft)) =
     DraftMatched sample_draft (cardDraftDigest sample_crypto sample_draft)"
proof -
  have "not_expired sample_dates 5 sample_draft" by (simp add: not_expired_def sample_dates_def sample_draft_def)
  from draft_link_roundtrip [OF sample_dates_ok sample_normalizes this] sample_normalizes show ?thesis by blast
qed

theorem matched_draft_is_proposed_witness:
  "\<exists>raw d digest. draftIntake sample_crypto (normalizeCardDraft sample_dates raw 5) (Some (cardDraftDigest sample_crypto sample_draft)) =
     DraftMatched d digest \<and>
     (d = sample_draft \<or> draft_bytes d \<noteq> draft_bytes sample_draft)"
proof -
  have later: "normalizeCardDraft sample_dates (draft_input sample_draft) 5 = Inr sample_draft"
    by (rule normalize_again [OF sample_limits sample_expiry]) simp
  have t: "text_ok (cd_label sample_draft)" by (simp add: sample_draft_def)
  have m: "draftIntake sample_crypto (normalizeCardDraft sample_dates (draft_input sample_draft) 5)
      (Some (cardDraftDigest sample_crypto sample_draft)) = DraftMatched sample_draft (cardDraftDigest sample_crypto sample_draft)"
    by (simp add: draftIntake_def later)
  from matched_draft_is_proposed [OF sample_dates_ok t t sample_normalizes m] m show ?thesis by blast
qed


end
