(* ===== verification/Base58.thy ===== *)
theory Base58
  imports JsText
begin

text \<open>
  The base58 text of byte strings, from \<open>sdk/src/cards/private-repayment.ts\<close> (\<open>base58\<close>, \<open>base58Decode\<close>,
  \<open>isAddress\<close>), where the code prints and reads addresses without web3.js. Both directions go through one
  big integer: the loops that divide by the radix are \<open>to_digits\<close>, the loops that multiply by it are
  \<open>of_digits\<close>, and a run of leading zero bytes is written as a run of the digit \<open>1\<close>. The property is that
  reading inverts printing on every byte string.
\<close>

section \<open>Digits of a number in a radix\<close>

text \<open>\<open>while (n > 0n) { out = digit(n % r) + out; n /= r; }\<close>\<close>

function to_digits_loop :: "nat \<Rightarrow> nat \<Rightarrow> nat list \<Rightarrow> nat list" where
  "to_digits_loop r n out = (if n = 0 \<or> r < 2 then out else to_digits_loop r (n div r) (n mod r # out))"
  by pat_completeness auto
termination
  by (relation "measure (\<lambda>(r, n, out). n)") auto

declare to_digits_loop.simps [simp del]

definition to_digits :: "nat \<Rightarrow> nat \<Rightarrow> nat list" where
  "to_digits r n = to_digits_loop r n []"

text \<open>\<open>for (d of digits) n = n * r + d\<close>\<close>

definition of_digits :: "nat \<Rightarrow> nat list \<Rightarrow> nat" where
  "of_digits r ds = foldl (\<lambda>n d. n * r + d) 0 ds"

lemma of_digits_Nil [simp]: "of_digits r [] = 0"
  and of_digits_snoc [simp]: "of_digits r (ds @ [d]) = of_digits r ds * r + d"
  by (simp_all add: of_digits_def)

lemma of_digits_zeros: "of_digits r (replicate k 0 @ ds) = of_digits r ds"
proof (induction ds rule: rev_induct)
  case Nil
  show ?case by (induction k) (simp_all add: of_digits_def)
next
  case (snoc d ds)
  then show ?case by (simp flip: append_assoc)
qed

lemma to_digits_loop_append: "to_digits_loop r n out = to_digits_loop r n [] @ out"
proof (induction n arbitrary: out rule: less_induct)
  case (less n)
  show ?case
  proof (cases "n = 0 \<or> r < 2")
    case False
    then have "n div r < n" by simp
    with less [of "n div r" "[n mod r]"] less [of "n div r" "n mod r # out"] False show ?thesis
      by (subst (1 2) to_digits_loop.simps) simp
  qed (simp add: to_digits_loop.simps)
qed

lemma to_digits_0 [simp]: "to_digits r 0 = []"
  by (simp add: to_digits_def to_digits_loop.simps)

lemma to_digits_step: "0 < n \<Longrightarrow> 2 \<le> r \<Longrightarrow> to_digits r n = to_digits r (n div r) @ [n mod r]"
  unfolding to_digits_def by (subst to_digits_loop.simps) (subst to_digits_loop_append, simp)

lemma of_to_digits [simp]: "2 \<le> r \<Longrightarrow> of_digits r (to_digits r n) = n"
proof (induction n rule: less_induct)
  case (less n)
  then show ?case by (cases "n = 0") (simp_all add: to_digits_step)
qed

lemma to_digits_less: "2 \<le> r \<Longrightarrow> d \<in> set (to_digits r n) \<Longrightarrow> d < r"
proof (induction n rule: less_induct)
  case (less n)
  show ?case
  proof (cases "n = 0")
    case False
    with less.prems less.IH [of "n div r"] show ?thesis by (auto simp: to_digits_step)
  qed (use less in simp)
qed

lemma to_digits_hd: "2 \<le> r \<Longrightarrow> 0 < n \<Longrightarrow> to_digits r n \<noteq> [] \<and> hd (to_digits r n) \<noteq> 0"
proof (induction n rule: less_induct)
  case (less n)
  show ?case
  proof (cases "n < r")
    case True
    with less.prems show ?thesis by (simp add: to_digits_step)
  next
    case False
    with less.prems have "0 < n div r" "n div r < n" by (simp_all add: div_greater_zero_iff)
    with less.IH [of "n div r"] less.prems(1) have "to_digits r (n div r) \<noteq> [] \<and> hd (to_digits r (n div r)) \<noteq> 0" by blast
    with to_digits_step [OF less.prems(2,1)] show ?thesis by simp
  qed
qed

lemma to_of_digits:
  assumes "2 \<le> r" and "\<forall>d \<in> set ds. d < r" and "ds = [] \<or> hd ds \<noteq> 0"
  shows "to_digits r (of_digits r ds) = ds"
  using assms(2,3)
proof (induction ds rule: rev_induct)
  case (snoc d ds)
  show ?case
  proof (cases "ds = []")
    case True
    with snoc.prems have d: "0 < d" "d < r" by auto
    then have "to_digits r d = to_digits r (d div r) @ [d mod r]" using assms(1) by (intro to_digits_step) auto
    with d True show ?thesis by (simp add: of_digits_def)
  next
    case False
    with snoc.prems have hd: "hd ds \<noteq> 0" and less: "\<forall>x \<in> set ds. x < r" "d < r" by auto
    from snoc.IH [OF less(1)] hd have IH: "to_digits r (of_digits r ds) = ds" by simp
    then have "0 < of_digits r ds" using False by (cases "of_digits r ds") auto
    then have "0 < of_digits r (ds @ [d])" using assms(1) by simp
    with assms(1) less(2) IH show ?thesis by (simp add: to_digits_step)
  qed
qed simp

section \<open>The codec\<close>

definition BASE58 :: string where
  "BASE58 = ''123456789ABCDEFGHJKLMNPQRSTUVWXYZabcdefghijkmnopqrstuvwxyz''"

definition base58 :: "bytes \<Rightarrow> string" where
  "base58 bs = replicate (length (takeWhile (\<lambda>b. b = 0) bs)) CHR ''1''
     @ map (\<lambda>d. BASE58 ! d) (to_digits 58 (of_digits 256 (map unat bs)))"

text \<open>\<open>BASE58.indexOf(char)\<close>\<close>

fun index_of :: "char \<Rightarrow> string \<Rightarrow> nat option" where
  "index_of c [] = None"
| "index_of c (x # xs) = (if x = c then Some 0 else map_option Suc (index_of c xs))"

fun b58_read :: "string \<Rightarrow> nat list option" where
  "b58_read [] = Some []"
| "b58_read (c # cs) = (case index_of c BASE58 of None \<Rightarrow> None | Some d \<Rightarrow> map_option ((#) d) (b58_read cs))"

definition base58Decode :: "string \<Rightarrow> bytes option" where
  "base58Decode s = (case b58_read s of
     None \<Rightarrow> None
   | Some ds \<Rightarrow> Some (replicate (length (takeWhile (\<lambda>c. c = CHR ''1'') s)) 0 @ map word_of_nat (to_digits 256 (of_digits 58 ds))))"

definition isAddress :: "string \<Rightarrow> bool" where
  "isAddress s \<longleftrightarrow> (case base58Decode s of Some b \<Rightarrow> length b = 32 | None \<Rightarrow> False)"

lemma index_of_nth: "distinct xs \<Longrightarrow> i < length xs \<Longrightarrow> index_of (xs ! i) xs = Some i"
proof (induction xs arbitrary: i)
  case (Cons x xs)
  then show ?case by (cases i) auto
qed simp

lemma BASE58_facts: "distinct BASE58" "length BASE58 = 58" "BASE58 ! 0 = CHR ''1''"
  by (simp_all add: BASE58_def)

lemma b58_digit: "d < 58 \<Longrightarrow> index_of (BASE58 ! d) BASE58 = Some d"
  using index_of_nth BASE58_facts by metis

lemma b58_read_map: "\<forall>d \<in> set ds. d < 58 \<Longrightarrow> b58_read (map (\<lambda>d. BASE58 ! d) ds) = Some ds"
  by (induction ds) (simp_all add: b58_digit)

lemma b58_one: "d < 58 \<Longrightarrow> BASE58 ! d = CHR ''1'' \<longleftrightarrow> d = 0"
  using b58_digit [of d] b58_digit [of 0] BASE58_facts(3) by (metis option.inject zero_less_numeral)

lemma split_zeros:
  obtains k rest where "bs = replicate k (0 :: byte) @ rest" "rest = [] \<or> hd rest \<noteq> 0" "length (takeWhile (\<lambda>b. b = 0) bs) = k"
proof
  show "bs = replicate (length (takeWhile (\<lambda>b. b = 0) bs)) 0 @ dropWhile (\<lambda>b. b = 0) bs"
    by (metis (mono_tags, lifting) replicate_length_same set_takeWhileD takeWhile_dropWhile_id)
  show "dropWhile (\<lambda>b. b = 0) bs = [] \<or> hd (dropWhile (\<lambda>b. b = 0) bs) \<noteq> 0"
    using hd_dropWhile by blast
qed simp

lemma base58Decode_base58: "base58Decode (base58 bs) = Some bs"
proof -
  obtain k rest where bs: "bs = replicate k 0 @ rest" and rest: "rest = [] \<or> hd rest \<noteq> 0"
    and k: "length (takeWhile (\<lambda>b. b = 0) bs) = k" by (rule split_zeros)
  define n where "n = of_digits 256 (map unat rest)"
  have n: "of_digits 256 (map unat bs) = n" unfolding bs n_def by (simp add: of_digits_zeros)
  have "unat (w :: byte) < 256" for w using unsigned_less [of w, where ?'a = nat] by simp
  then have small: "\<forall>d \<in> set (map unat rest). d < 256" by simp
  have rest_again: "map word_of_nat (to_digits 256 n) = rest"
  proof -
    have "map unat rest = [] \<or> hd (map unat rest) \<noteq> 0" using rest by (cases rest) (auto simp: unat_eq_0)
    then have "to_digits 256 n = map unat rest" unfolding n_def using small by (intro to_of_digits) auto
    then show ?thesis by (simp add: o_def)
  qed
  have digits: "\<forall>d \<in> set (to_digits 58 n). d < 58" by (auto intro: to_digits_less)
  have s: "base58 bs = map (\<lambda>d. BASE58 ! d) (replicate k 0 @ to_digits 58 n)"
    unfolding base58_def k n by (simp add: BASE58_facts(3))
  have ds: "b58_read (base58 bs) = Some (replicate k 0 @ to_digits 58 n)"
    unfolding s by (rule b58_read_map) (use digits in auto)
  have "takeWhile (\<lambda>c. c = CHR ''1'') (map (\<lambda>d. BASE58 ! d) (to_digits 58 n)) = []"
  proof (cases "n = 0")
    case False
    then have "to_digits 58 n \<noteq> []" "hd (to_digits 58 n) \<noteq> 0" using to_digits_hd [of 58 n] by auto
    then show ?thesis using digits b58_one by (cases "to_digits 58 n") auto
  qed simp
  then have "length (takeWhile (\<lambda>c. c = CHR ''1'') (base58 bs)) = k"
    unfolding s by (simp add: takeWhile_append BASE58_facts)
  then show ?thesis
    unfolding base58Decode_def ds using rest_again bs by (simp add: of_digits_zeros)
qed
text \<open>
  Reading a base58 text gives back the bytes it was printed from, for every byte string: leading
  zeros are kept and no two byte strings share a text. In particular the text of a 32-byte key is an address.
\<close>

theorem base58_roundtrip:
  "base58Decode (base58 bs) = Some bs \<and> (isAddress (base58 bs) \<longleftrightarrow> length bs = 32)"
  by (simp add: base58Decode_base58 isAddress_def)

end
