(* ===== verification/Repayment.thy ===== *)
theory Repayment
  imports Base58 Text CardMath Sample
begin

text \<open>
  \<open>sdk/src/cards/private-repayment.ts\<close>: paying a card statement privately through MagicBlock. The code asks a
  service to build the transactions the owner signs, so everything it signs is first decoded and compared with what
  the statement says. The HTTP calls, the wallet and the clock are the record \<open>pay_env\<close>: its functions answer
  the successive calls. A thrown \<open>PrivateRepaymentError\<close> is kept apart from any other exception, because the code
  catches them differently. web3.js is the parameter \<open>W\<close>, its test for points of the curve the parameter
  \<open>onCurve\<close>. Loops that wait for the network are partial functions: that they end is a property.
\<close>

unbundle bit_operations_syntax

section \<open>Errors and constants\<close>

datatype pay_error = PrivateRepaymentError int string string bool | OtherError string

type_synonym 'a pay = "pay_error + 'a"

definition plain_error :: "'a result \<Rightarrow> 'a pay" where
  "plain_error m = (case m of Inl e \<Rightarrow> Inl (OtherError e) | Inr x \<Rightarrow> Inr x)"

definition PRIVATE_REPAYMENT_METHOD :: string where
  "PRIVATE_REPAYMENT_METHOD = ''magicblock_private_payments''"
definition PRIVATE_REPAYMENT_DEVNET_USDC :: string where
  "PRIVATE_REPAYMENT_DEVNET_USDC = ''4zMMC9srt5Ri5X14GAgXhaHii3GnPAEERYPJgZJDncDU''"
definition EPHEMERAL_SPL_PROGRAM :: string where
  "EPHEMERAL_SPL_PROGRAM = ''SPLxh1LVZzEkX99H6rqYizhytLWPZVV296zyYDPagv2''"
definition SYSTEM_PROGRAM :: string where
  "SYSTEM_PROGRAM = ''11111111111111111111111111111111''"
definition COMPUTE_BUDGET_PROGRAM :: string where
  "COMPUTE_BUDGET_PROGRAM = ''ComputeBudget111111111111111111111111111111''"
definition SPL_TOKEN_PROGRAM :: string where
  "SPL_TOKEN_PROGRAM = ''TokenkegQfeZyiNwAJbNbGKPFXCWuBvf9Ss623VQ5DA''"
definition ASSOCIATED_TOKEN_PROGRAM :: string where
  "ASSOCIATED_TOKEN_PROGRAM = ''ATokenGPvbdGVxr1b2hvZbsiqW5xWH25efTNsLJA8knL''"
definition DELEGATION_PROGRAM :: string where
  "DELEGATION_PROGRAM = ''DELeGGvXpWV2fqJUhqcF5ZSYMS4JTLjteaAMARRSaeSh''"
definition PERMISSION_PROGRAM :: string where
  "PERMISSION_PROGRAM = ''ACLseoPoyC3cBqoUtkbjZ4aDrkurZW86v19pXz2XQnp1''"
definition MAGIC_PROGRAM :: string where
  "MAGIC_PROGRAM = ''Magic11111111111111111111111111111111111111''"
definition MAX_LAMPORTS :: int where "MAX_LAMPORTS = 50000000"

definition DEPOSIT_TAGS :: "byte list" where "DEPOSIT_TAGS = [0, 1, 2, 4, 6, 7, 11, 13, 24, 34]"
definition TRANSFER_TAGS :: "byte list" where "TRANSFER_TAGS = [0, 16, 17]"

section \<open>The attempt\<close>

record TransferRoute =
  tr_visibility :: string
  tr_fromBalance :: string
  tr_toBalance :: string
  tr_split :: jsnum
  tr_exactOut :: bool
  tr_minDelayMs :: string
  tr_maxDelayMs :: string
  tr_memo :: "string option"

record PrivateRepaymentAttempt =
  pa_state :: string
  pa_method :: string
  pa_cluster :: string
  pa_apiCluster :: string
  pa_mint :: string
  pa_amountCents :: "string option"
  pa_amountBaseUnits :: string
  pa_recipientWallet :: string
  pa_clientRefId :: string
  pa_transfer :: "TransferRoute option"

text \<open>\<open>/^[1-9][0-9]{0,n}$/\<close>\<close>

definition positive_digits :: "nat \<Rightarrow> string \<Rightarrow> bool" where
  "positive_digits n s \<longleftrightarrow> is_digits s \<and> hd s \<noteq> CHR ''0'' \<and> length s \<le> n + 1"

fun join_comma :: "string list \<Rightarrow> string" where
  "join_comma [] = []"
| "join_comma [x] = x"
| "join_comma (x # y # xs) = x @ '', '' @ join_comma (y # xs)"

definition when_true :: "bool \<Rightarrow> string \<Rightarrow> string list" where
  "when_true c s = (if c then [s] else [])"

definition attempt_problems :: "PrivateRepaymentAttempt \<Rightarrow> string list" where
  "attempt_problems attempt =
     when_true (pa_method attempt \<noteq> PRIVATE_REPAYMENT_METHOD) ''method''
     @ when_true (pa_cluster attempt \<noteq> ''devnet'' \<or> pa_apiCluster attempt \<noteq> ''devnet-private'') ''network''
     @ when_true (pa_mint attempt \<noteq> PRIVATE_REPAYMENT_DEVNET_USDC) ''mint (Devnet USDC only)''
     @ when_true (pa_state attempt \<noteq> ''awaiting_settlement'') ''attempt state''
     @ when_true (case pa_transfer attempt of None \<Rightarrow> True | Some t \<Rightarrow>
          tr_visibility t \<noteq> ''private'' \<or> tr_fromBalance t \<noteq> ''ephemeral'' \<or> tr_toBalance t \<noteq> ''base''
          \<or> tr_split t \<noteq> NInt 1 \<or> \<not> tr_exactOut t \<or> tr_memo t \<noteq> None) ''transfer route''
     @ when_true (\<not> positive_digits 11 (pa_clientRefId attempt)) ''reference''
     @ when_true (let cents = (case pa_amountCents attempt of Some c \<Rightarrow> c | None \<Rightarrow> []) in
          \<not> positive_digits 18 (pa_amountBaseUnits attempt) \<or> \<not> positive_digits 14 cents
          \<or> dec_val (pa_amountBaseUnits attempt) \<noteq> dec_val cents * 10000) ''amount''
     @ when_true (\<not> isAddress (pa_recipientWallet attempt)) ''recipient''"

definition assertPayableAttempt :: "PrivateRepaymentAttempt \<Rightarrow> unit pay" where
  "assertPayableAttempt attempt =
     (let problems = attempt_problems attempt in
      if problems \<noteq> []
      then Inl (PrivateRepaymentError 400 ''attempt_not_payable''
             (''This attempt can't be paid privately: '' @ join_comma problems) False)
      else Inr ())"

definition formatCents :: "string \<Rightarrow> string" where
  "formatCents cents =
     (if \<not> (cents = ''0'' \<or> is_digits cents \<and> hd cents \<noteq> CHR ''0'') then cents @ '' cents''
      else let padded = pad_start 3 CHR ''0'' cents in
        ''$'' @ take (length padded - 2) padded @ ''.'' @ drop (length padded - 2) padded)"

section \<open>Decoding a built transaction\<close>

record DecodedInstruction =
  dx_programId :: string
  dx_accounts :: "string list"
  dx_data :: bytes

record DecodedTransaction =
  dt_signers :: "string list"
  dt_instructions :: "DecodedInstruction list"

definition nth_opt :: "'a list \<Rightarrow> nat \<Rightarrow> 'a option" where
  "nth_opt xs i = (if i < length xs then Some (xs ! i) else None)"

text \<open>The cursor \<open>at\<close> over \<open>bytes\<close> is the list of bytes not read yet.\<close>

type_synonym 'a cursor = "bytes \<Rightarrow> ('a \<times> bytes) result"

definition next_byte :: "byte cursor" where
  "next_byte bs = (case bs of [] \<Rightarrow> Inl ''truncated'' | b # rest \<Rightarrow> Inr (b, rest))"

definition take_bytes :: "nat \<Rightarrow> bytes cursor" where
  "take_bytes n bs = (if n > length bs then Inl ''truncated'' else Inr (take n bs, drop n bs))"

text \<open>The loop over \<open>shift = 0, 7, 14\<close>.\<close>

fun compact_loop :: "nat list \<Rightarrow> nat \<Rightarrow> nat cursor" where
  "compact_loop [] value bs = Inl ''bad length''"
| "compact_loop (shift # shifts) value bs =
     bindR (next_byte bs) (\<lambda>(b, rest).
       let value' = value OR push_bit shift (unat b AND 0x7f) in
       if b AND 0x80 = 0 then Inr (value', rest) else compact_loop shifts value' rest)"

definition compact :: "nat cursor" where
  "compact = compact_loop [0, 7, 14] 0"

text \<open>\<open>Array.from({ length: n }, read)\<close>\<close>

fun read_times :: "nat \<Rightarrow> 'a cursor \<Rightarrow> 'a list cursor" where
  "read_times 0 f bs = Inr ([], bs)"
| "read_times (Suc n) f bs = bindR (f bs) (\<lambda>(x, rest). bindR (read_times n f rest) (\<lambda>(xs, rest'). Inr (x # xs, rest')))"

definition read_key :: "string cursor" where
  "read_key bs = bindR (take_bytes 32 bs) (\<lambda>(k, rest). Inr (base58 k, rest))"

definition read_index :: "string list \<Rightarrow> string option cursor" where
  "read_index keys bs = bindR (next_byte bs) (\<lambda>(i, rest). Inr (nth_opt keys (unat i), rest))"

definition read_instruction :: "string list \<Rightarrow> DecodedInstruction cursor" where
  "read_instruction keys bs =
     bindR (read_index keys bs) (\<lambda>(program, r1).
     bindR (compact r1) (\<lambda>(n, r2).
     bindR (read_times n (read_index keys) r2) (\<lambda>(accounts, r3).
     bindR (compact r3) (\<lambda>(m, r4).
     bindR (take_bytes m r4) (\<lambda>(data, r5).
     if program = None \<or> program = Some [] \<or> None \<in> set accounts then Inl ''account index out of range''
     else Inr (\<lparr>dx_programId = the program, dx_accounts = map the accounts, dx_data = data\<rparr>, r5))))))"

definition fromBase64 :: "jstext \<Rightarrow> bytes result" where
  "fromBase64 s = bindR (atob s) (\<lambda>ns. Inr (map word_of_nat ns))"

definition decodeBuiltTransaction :: "jstext \<Rightarrow> DecodedTransaction result" where
  "decodeBuiltTransaction base64 =
     bindR (fromBase64 base64) (\<lambda>bytes.
     bindR (compact bytes) (\<lambda>(signatures, r1).
     bindR (take_bytes (signatures * 64) r1) (\<lambda>(_, r2).
     let versioned = (r2 \<noteq> [] \<and> hd r2 AND 0x80 \<noteq> 0) in
     bindR (if versioned then bindR (next_byte r2) (\<lambda>(b, rest). if b \<noteq> 0x80 then Inl ''unsupported version'' else Inr rest)
            else Inr r2) (\<lambda>r3.
     bindR (next_byte r3) (\<lambda>(required, r4).
     bindR (next_byte r4) (\<lambda>(_, r5).
     bindR (next_byte r5) (\<lambda>(_, r6).
     bindR (compact r6) (\<lambda>(n, r7).
     bindR (read_times n read_key r7) (\<lambda>(keys, r8).
     bindR (take_bytes 32 r8) (\<lambda>(_, r9).
     bindR (compact r9) (\<lambda>(k, r10).
     bindR (read_times k (read_instruction keys) r10) (\<lambda>(instructions, r11).
     bindR (if versioned then bindR (compact r11) (\<lambda>(tables, rest).
              if tables \<noteq> 0 then Inl ''address lookup tables can't be checked'' else Inr rest)
            else Inr r11) (\<lambda>r12.
     if r12 \<noteq> [] then Inl ''trailing bytes''
     else Inr \<lparr>dt_signers = take (unat required) keys, dt_instructions = instructions\<rparr>)))))))))))))"

definition u64_at :: "bytes \<Rightarrow> nat \<Rightarrow> int pay" where
  "u64_at data at = (if length data < at + 8 then Inl (OtherError ''truncated'') else Inr (le_val (slice data at 8)))"


text \<open>\<open>BigInt(text)\<close>: surrounding white space, a sign before decimal digits, or one of the radix prefixes; no digits at all read as zero.\<close>

definition radix_digits :: "nat \<Rightarrow> string \<Rightarrow> int option" where
  "radix_digits r s = (if s \<noteq> [] \<and> list_all (\<lambda>c. digit_val c < r) s then Some (int (radix_val r s)) else None)"

definition to_bigint :: "string \<Rightarrow> int option" where
  "to_bigint text =
     (let s = trim text; p = take 2 s; rest = drop 2 s in
      if s = [] then Some 0
      else if p = ''0x'' \<or> p = ''0X'' then radix_digits 16 rest
      else if p = ''0o'' \<or> p = ''0O'' then radix_digits 8 rest
      else if p = ''0b'' \<or> p = ''0B'' then radix_digits 2 rest
      else if hd s = CHR ''-'' then map_option uminus (radix_digits 10 (tl s))
      else if hd s = CHR ''+'' then radix_digits 10 (tl s)
      else radix_digits 10 s)"

definition bigint_or_throw :: "string \<Rightarrow> int pay" where
  "bigint_or_throw s = (case to_bigint s of Some v \<Rightarrow> Inr v | None \<Rightarrow> Inl (OtherError ''Cannot convert to a BigInt''))"

section \<open>Checking a built transaction\<close>

datatype tx_kind = Deposit | Transfer

definition kind_text :: "tx_kind \<Rightarrow> string" where
  "kind_text kind = (case kind of Deposit \<Rightarrow> ''deposit'' | Transfer \<Rightarrow> ''transfer'')"

record Expected =
  ex_kind :: tx_kind
  ex_owner :: string
  ex_mint :: string
  ex_amountBaseUnits :: int
  ex_recipientWallet :: "string option"
  ex_clientRefId :: "string option"
  ex_minDelayMs :: "string option"
  ex_maxDelayMs :: "string option"

definition refuse :: "tx_kind \<Rightarrow> string \<Rightarrow> 'a pay" where
  "refuse kind why = Inl (PrivateRepaymentError 502 ''unexpected_transaction''
     (''MagicBlock's '' @ kind_text kind @ '' transaction '' @ why @ ''; nothing was signed'') False)"

definition allowed_programs :: "string list" where
  "allowed_programs = [SYSTEM_PROGRAM, COMPUTE_BUDGET_PROGRAM, ASSOCIATED_TOKEN_PROGRAM, EPHEMERAL_SPL_PROGRAM,
     DELEGATION_PROGRAM, PERMISSION_PROGRAM, MAGIC_PROGRAM]"

definition amount_tags :: "byte list" where
  "amount_tags = [2, 16, 24, 34]"

definition system_transfer :: "DecodedInstruction \<Rightarrow> bool" where
  "system_transfer ix \<longleftrightarrow> dx_programId ix = SYSTEM_PROGRAM \<and> length (dx_data ix) \<ge> 12 \<and> take 4 (dx_data ix) = [2, 0, 0, 0]"

fun scan_loop :: "tx_kind \<Rightarrow> DecodedInstruction list \<Rightarrow> int \<Rightarrow> DecodedInstruction list \<Rightarrow> (int \<times> DecodedInstruction list) pay" where
  "scan_loop kind [] lamports moves = Inr (lamports, moves)"
| "scan_loop kind (ix # ixs) lamports moves =
     (if dx_programId ix \<notin> set allowed_programs then refuse kind ''calls a program ChainPay doesn't expect''
      else let lamports' = (if system_transfer ix then lamports + le_val (slice (dx_data ix) 4 8) else lamports) in
        if dx_programId ix \<noteq> EPHEMERAL_SPL_PROGRAM then scan_loop kind ixs lamports' moves
        else if dx_data ix = [] \<or> hd (dx_data ix) \<notin> set (case kind of Deposit \<Rightarrow> DEPOSIT_TAGS | Transfer \<Rightarrow> TRANSFER_TAGS)
        then refuse kind ''includes a token instruction ChainPay doesn't expect''
        else scan_loop kind ixs lamports' (if hd (dx_data ix) \<in> set amount_tags then moves @ [ix] else moves))"

definition associatedTokenAccount :: "web3 \<Rightarrow> (bytes \<Rightarrow> bool) \<Rightarrow> string \<Rightarrow> string \<Rightarrow> bool \<Rightarrow> string pay" where
  "associatedTokenAccount W onCurve owner mint allowOffCurve =
     plain_error (bindR (publicKey W owner) (\<lambda>ownerKey.
       if \<not> allowOffCurve \<and> \<not> onCurve ownerKey then Inl ''owner is off curve''
       else bindR (publicKey W SPL_TOKEN_PROGRAM) (\<lambda>token.
         bindR (publicKey W mint) (\<lambda>mintKey.
         bindR (publicKey W ASSOCIATED_TOKEN_PROGRAM) (\<lambda>program.
         bindR (find_pda W [ownerKey, token, mintKey] program) (\<lambda>a. Inr (to_base58 W a)))))))"

definition vault_address :: "web3 \<Rightarrow> string \<Rightarrow> string pay" where
  "vault_address W mint =
     plain_error (bindR (publicKey W mint) (\<lambda>mintKey. bindR (publicKey W EPHEMERAL_SPL_PROGRAM) (\<lambda>program.
       bindR (find_pda W [mintKey] program) (\<lambda>a. Inr (to_base58 W a)))))"

definition checkShuttleDepositWithMerge :: "web3 \<Rightarrow> (bytes \<Rightarrow> bool) \<Rightarrow> DecodedInstruction \<Rightarrow> Expected \<Rightarrow> unit pay" where
  "checkShuttleDepositWithMerge W onCurve move expect =
     (let kind = ex_kind expect; a = dx_accounts move; data = dx_data move in
      if length data \<noteq> 13 \<and> length data \<noteq> 45 then refuse kind ''has an unexpected deposit layout''
      else if length a \<noteq> 19 then refuse kind ''has an unexpected deposit layout''
      else if a ! 0 \<noteq> ex_owner expect \<or> a ! 5 \<noteq> ex_owner expect then refuse kind ''deposits for a different owner''
      else if a ! 14 \<noteq> ex_mint expect \<or> a ! 15 \<noteq> SPL_TOKEN_PROGRAM then refuse kind ''deposits from the wrong account or mint''
      else if a ! 6 \<noteq> EPHEMERAL_SPL_PROGRAM \<or> a ! 10 \<noteq> DELEGATION_PROGRAM \<or> a ! 11 \<noteq> ASSOCIATED_TOKEN_PROGRAM \<or> a ! 12 \<noteq> SYSTEM_PROGRAM
      then refuse kind ''has an unexpected deposit layout''
      else bindR (associatedTokenAccount W onCurve (ex_owner expect) (ex_mint expect) False) (\<lambda>ownerAta.
        if a ! 17 \<noteq> ownerAta then refuse kind ''deposits from the wrong account or mint''
        else if a ! 13 \<noteq> ownerAta then refuse kind ''deposits into someone else's balance''
        else bindR (vault_address W (ex_mint expect)) (\<lambda>vault.
          bindR (if a ! 16 \<noteq> vault then Inr True
                 else bindR (associatedTokenAccount W onCurve vault (ex_mint expect) True) (\<lambda>t. Inr (a ! 18 \<noteq> t))) (\<lambda>wrong.
          if wrong then refuse kind ''deposits into a vault ChainPay doesn't expect''
          else bindR (u64_at data 5) (\<lambda>amount.
            if amount \<noteq> ex_amountBaseUnits expect then refuse kind ''deposits a different amount'' else Inr ())))))"

text \<open>A byte of the data as an operand of \<open>|\<close> and \<open><<\<close>: zero past the end, 32 bits wide.\<close>

definition data_at :: "bytes \<Rightarrow> nat \<Rightarrow> 32 word" where
  "data_at data i = (if i < length data then ucast (data ! i) else 0)"

definition split_of :: "bytes \<Rightarrow> int" where
  "split_of data = sint (data_at data 28 OR push_bit 8 (data_at data 29) OR push_bit 16 (data_at data 30) OR push_bit 24 (data_at data 31))"

definition check_delay :: "tx_kind \<Rightarrow> bytes \<Rightarrow> nat \<Rightarrow> string option \<Rightarrow> unit pay" where
  "check_delay kind data at delay = (case delay of None \<Rightarrow> Inr () | Some text \<Rightarrow>
     bindR (u64_at data at) (\<lambda>v. bindR (bigint_or_throw text) (\<lambda>w.
       if v \<noteq> w then refuse kind ''uses a different delay'' else Inr ())))"

definition checkQueuedTransfer :: "DecodedInstruction \<Rightarrow> Expected \<Rightarrow> unit pay" where
  "checkQueuedTransfer move expect =
     (let kind = ex_kind expect; a = nth_opt (dx_accounts move); data = dx_data move in
      if kind \<noteq> Transfer then refuse kind ''is not a deposit''
      else if a 2 \<noteq> Some (ex_mint expect) \<or> a 5 \<noteq> ex_recipientWallet expect \<or> a 6 \<noteq> Some (ex_owner expect)
      then refuse kind ''pays a different recipient or mint''
      else bindR (u64_at data 1) (\<lambda>amount.
        if amount \<noteq> ex_amountBaseUnits expect then refuse kind ''pays a different amount''
        else if split_of data \<noteq> 1 then refuse kind ''splits the payment''
        else bindR (check_delay kind data 12 (ex_minDelayMs expect)) (\<lambda>_.
          bindR (check_delay kind data 20 (ex_maxDelayMs expect)) (\<lambda>_.
          if length data \<noteq> 40 \<and> length data \<noteq> 41 then refuse kind ''carries no statement reference''
          else bindR (u64_at data (length data - 8)) (\<lambda>ref.
            if Some (int_dec ref) \<noteq> ex_clientRefId expect then refuse kind ''carries a different statement reference''
            else Inr ())))))"

definition check_move :: "web3 \<Rightarrow> (bytes \<Rightarrow> bool) \<Rightarrow> DecodedInstruction \<Rightarrow> Expected \<Rightarrow> unit pay" where
  "check_move W onCurve move expect =
     (let kind = ex_kind expect; a = nth_opt (dx_accounts move); data = dx_data move in
      if hd data = 2 then
        if length data \<noteq> 9 \<or> a 2 \<noteq> Some (ex_mint expect) \<or> a 5 \<noteq> Some (ex_owner expect)
        then refuse kind ''deposits from the wrong account or mint''
        else bindR (u64_at data 1) (\<lambda>amount.
          if amount \<noteq> ex_amountBaseUnits expect then refuse kind ''deposits a different amount'' else Inr ())
      else if hd data = 24 then
        if kind \<noteq> Deposit then refuse kind ''is not a transfer''
        else checkShuttleDepositWithMerge W onCurve move expect
      else if hd data = 34 then
        if a 0 \<noteq> Some (ex_owner expect) \<or> a 5 \<noteq> Some (ex_owner expect) \<or> a 13 \<noteq> Some (ex_mint expect)
        then refuse kind ''deposits from the wrong account or mint''
        else bindR (u64_at data 5) (\<lambda>amount.
          if amount \<noteq> ex_amountBaseUnits expect then refuse kind ''deposits a different amount'' else Inr ())
      else checkQueuedTransfer move expect)"

text \<open>The \<open>catch\<close> of the last step: our own error passes, any other exception reads as a refusal.\<close>

definition catch_unreadable :: "tx_kind \<Rightarrow> 'a pay \<Rightarrow> 'a pay" where
  "catch_unreadable kind m = (case m of Inl (OtherError e) \<Rightarrow> refuse kind ''could not be read'' | _ \<Rightarrow> m)"

definition verifyBuiltTransaction :: "web3 \<Rightarrow> (bytes \<Rightarrow> bool) \<Rightarrow> jstext \<Rightarrow> Expected \<Rightarrow> unit pay" where
  "verifyBuiltTransaction W onCurve transactionBase64 expect =
     (let kind = ex_kind expect in
      case decodeBuiltTransaction transactionBase64 of
        Inl e \<Rightarrow> refuse kind ''could not be read''
      | Inr tx \<Rightarrow>
          if length (dt_signers tx) \<noteq> 1 \<or> hd (dt_signers tx) \<noteq> ex_owner expect
          then refuse kind ''asks for a signer other than your wallet''
          else bindR (scan_loop kind (dt_instructions tx) 0 []) (\<lambda>(lamports, moves).
            if lamports > MAX_LAMPORTS then refuse kind ''moves more SOL than rent needs''
            else if length moves \<noteq> 1 then refuse kind ''doesn't move exactly one amount''
            else catch_unreadable kind (check_move W onCurve (hd moves) expect)))"



section \<open>Paying\<close>

record Built =
  bt_kind :: string
  bt_transactionBase64 :: jstext
  bt_sendToBase :: bool
  bt_requiredSigners :: "string list"
  bt_feeTokens :: "string option"

definition checkBuilt :: "Built \<Rightarrow> string \<Rightarrow> tx_kind \<Rightarrow> unit pay" where
  "checkBuilt built owner kind =
     (if bt_kind built \<noteq> kind_text kind \<or> length (bt_requiredSigners built) \<noteq> 1 \<or> hd (bt_requiredSigners built) \<noteq> owner
      then Inl (PrivateRepaymentError 502 ''unexpected_transaction''
             (''MagicBlock returned an unexpected '' @ kind_text kind @ '' transaction; nothing was signed'') False)
      else Inr ())"

text \<open>
  The outside world. \<open>pe_balance k\<close> answers the k-th balance request, \<open>pe_now k\<close> the k-th reading of the clock in the
  loop that waits for the deposit (reading 0 sets the deadline). The requests to build a transaction carry the amount.
\<close>

record pay_env =
  pe_owner :: string
  pe_login :: "unit pay"
  pe_balance :: "nat \<Rightarrow> int pay"
  pe_build :: "tx_kind \<Rightarrow> int \<Rightarrow> Built pay"
  pe_sign :: "tx_kind \<Rightarrow> jstext \<Rightarrow> jstext pay"
  pe_sendBase :: "(tx_kind \<Rightarrow> jstext \<Rightarrow> Built \<Rightarrow> string pay) option"
  pe_sendViaApi :: "tx_kind \<Rightarrow> Built \<Rightarrow> jstext \<Rightarrow> string pay"
  pe_now :: "nat \<Rightarrow> int"
  pe_waitMs :: "int option"

datatype PayOutcome = Sent | Unknown

text \<open>What the outside sees: the steps reported, what the wallet is asked to sign and what is sent.\<close>

datatype PayEvent =
    LoginStep
  | BalanceStep int
  | DepositStep int "string option"
  | TransferStep "string option" PayOutcome
  | AskSign tx_kind int jstext
  | SendSigned tx_kind jstext

record PayResult =
  py_depositSignature :: "string option"
  py_transferSignature :: "string option"
  py_outcome :: PayOutcome

text \<open>Code with events that may also wait for ever (\<open>None\<close>).\<close>

type_synonym 'a run = "(PayEvent list \<times> 'a pay) option"

definition bind_run :: "'a run \<Rightarrow> ('a \<Rightarrow> 'b run) \<Rightarrow> 'b run" where
  "bind_run m f = (case m of
     None \<Rightarrow> None
   | Some (es, Inl e) \<Rightarrow> Some (es, Inl e)
   | Some (es, Inr x) \<Rightarrow> map_option (\<lambda>(fs, r). (es @ fs, r)) (f x))"

definition emit :: "PayEvent \<Rightarrow> unit run" where
  "emit e = Some ([e], Inr ())"

definition quiet :: "'a pay \<Rightarrow> 'a run" where
  "quiet r = Some ([], r)"

definition ask_sign :: "pay_env \<Rightarrow> tx_kind \<Rightarrow> int \<Rightarrow> Built \<Rightarrow> jstext run" where
  "ask_sign env kind amount built =
     bind_run (emit (AskSign kind amount (bt_transactionBase64 built))) (\<lambda>_.
     quiet (pe_sign env kind (bt_transactionBase64 built)))"

definition send_signed :: "pay_env \<Rightarrow> tx_kind \<Rightarrow> Built \<Rightarrow> jstext \<Rightarrow> string run" where
  "send_signed env kind built signedTx =
     bind_run (emit (SendSigned kind signedTx)) (\<lambda>_.
     quiet (case pe_sendBase env of
       Some send \<Rightarrow> if bt_sendToBase built then send kind signedTx built else pe_sendViaApi env kind built signedTx
     | None \<Rightarrow> pe_sendViaApi env kind built signedTx))"

definition deposit_pending :: pay_error where
  "deposit_pending = PrivateRepaymentError 504 ''deposit_pending''
     ''Your deposit hasn't reached your private balance yet. Nothing was paid; try again in a minute.'' True"

partial_function (option) wait_deposit :: "pay_env \<Rightarrow> int \<Rightarrow> int \<Rightarrow> nat \<Rightarrow> int \<Rightarrow> (unit pay) option" where
  "wait_deposit env amount deadline k balance =
     (if balance \<ge> amount then Some (Inr ())
      else if pe_now env (Suc k) > deadline then Some (Inl deposit_pending)
      else case pe_balance env (Suc k) of
        Inl e \<Rightarrow> Some (Inl e)
      | Inr b \<Rightarrow> wait_deposit env amount deadline (Suc k) b)"

declare wait_deposit.simps [code]

definition deposit_stage :: "web3 \<Rightarrow> (bytes \<Rightarrow> bool) \<Rightarrow> pay_env \<Rightarrow> PrivateRepaymentAttempt \<Rightarrow> int \<Rightarrow> int \<Rightarrow> string option run" where
  "deposit_stage W onCurve env attempt amount balance =
     (if balance \<ge> amount then quiet (Inr None)
      else let shortfall = amount - balance in
        bind_run (quiet (pe_build env Deposit shortfall)) (\<lambda>built.
        bind_run (quiet (checkBuilt built (pe_owner env) Deposit)) (\<lambda>_.
        bind_run (quiet (verifyBuiltTransaction W onCurve (bt_transactionBase64 built)
          \<lparr>ex_kind = Deposit, ex_owner = pe_owner env, ex_mint = pa_mint attempt, ex_amountBaseUnits = shortfall,
           ex_recipientWallet = None, ex_clientRefId = None, ex_minDelayMs = None, ex_maxDelayMs = None\<rparr>)) (\<lambda>_.
        bind_run (emit (DepositStep shortfall None)) (\<lambda>_.
        bind_run (ask_sign env Deposit shortfall built) (\<lambda>signedTx.
        bind_run (send_signed env Deposit built signedTx) (\<lambda>sig.
        bind_run (emit (DepositStep shortfall (Some sig))) (\<lambda>_.
        let deadline = pe_now env 0 + (case pe_waitMs env of Some ms \<Rightarrow> ms | None \<Rightarrow> 60000) in
        bind_run (map_option (\<lambda>r. ([], r)) (wait_deposit env amount deadline 0 balance)) (\<lambda>_.
        quiet (Inr (Some sig)))))))))))"

definition transfer_expected :: "pay_env \<Rightarrow> PrivateRepaymentAttempt \<Rightarrow> TransferRoute \<Rightarrow> int \<Rightarrow> Expected" where
  "transfer_expected env attempt t amount =
     \<lparr>ex_kind = Transfer, ex_owner = pe_owner env, ex_mint = pa_mint attempt, ex_amountBaseUnits = amount,
      ex_recipientWallet = Some (pa_recipientWallet attempt), ex_clientRefId = Some (pa_clientRefId attempt),
      ex_minDelayMs = Some (tr_minDelayMs t), ex_maxDelayMs = Some (tr_maxDelayMs t)\<rparr>"

text \<open>The last \<open>try\<close>: once signed, a failed send is reported as unknown, never as an error.\<close>

definition finish_transfer :: "pay_env \<Rightarrow> Built \<Rightarrow> jstext \<Rightarrow> string option \<Rightarrow> PayResult run" where
  "finish_transfer env built signedTx depositSignature =
     (case send_signed env Transfer built signedTx of
        None \<Rightarrow> None
      | Some (es, Inr sig) \<Rightarrow> Some (es @ [TransferStep (Some sig) Sent],
          Inr \<lparr>py_depositSignature = depositSignature, py_transferSignature = Some sig, py_outcome = Sent\<rparr>)
      | Some (es, Inl e) \<Rightarrow> Some (es @ [TransferStep None Unknown],
          Inr \<lparr>py_depositSignature = depositSignature, py_transferSignature = None, py_outcome = Unknown\<rparr>))"

definition transfer_stage :: "web3 \<Rightarrow> (bytes \<Rightarrow> bool) \<Rightarrow> pay_env \<Rightarrow> PrivateRepaymentAttempt \<Rightarrow> TransferRoute \<Rightarrow> int
    \<Rightarrow> string option \<Rightarrow> PayResult run" where
  "transfer_stage W onCurve env attempt t amount depositSignature =
     bind_run (quiet (pe_build env Transfer amount)) (\<lambda>built.
     bind_run (quiet (checkBuilt built (pe_owner env) Transfer)) (\<lambda>_.
     bind_run (quiet (verifyBuiltTransaction W onCurve (bt_transactionBase64 built) (transfer_expected env attempt t amount))) (\<lambda>_.
     bind_run (quiet (case bt_feeTokens built of
         Some tokens \<Rightarrow> if tokens \<noteq> ''0'' then Inl (PrivateRepaymentError 502 ''unexpected_fee''
           ''MagicBlock quoted a token fee for this transfer; nothing was signed'' False) else Inr ()
       | None \<Rightarrow> Inr ())) (\<lambda>_.
     bind_run (ask_sign env Transfer amount built) (\<lambda>signedTx.
     finish_transfer env built signedTx depositSignature)))))"

definition payStatementPrivately :: "web3 \<Rightarrow> (bytes \<Rightarrow> bool) \<Rightarrow> pay_env \<Rightarrow> PrivateRepaymentAttempt \<Rightarrow> PayResult run" where
  "payStatementPrivately W onCurve env attempt =
     bind_run (quiet (assertPayableAttempt attempt)) (\<lambda>_.
     let amount = dec_val (pa_amountBaseUnits attempt) in
     bind_run (emit LoginStep) (\<lambda>_.
     bind_run (quiet (pe_login env)) (\<lambda>_.
     bind_run (quiet (pe_balance env 0)) (\<lambda>balance.
     bind_run (emit (BalanceStep balance)) (\<lambda>_.
     bind_run (deposit_stage W onCurve env attempt amount balance) (\<lambda>depositSignature.
     (case pa_transfer attempt of
        None \<Rightarrow> quiet (Inl (OtherError ''transfer is undefined''))
      | Some t \<Rightarrow> transfer_stage W onCurve env attempt t amount depositSignature)))))))"

section \<open>Waiting for the settlement\<close>

fun settlement_pending :: "pay_error \<Rightarrow> bool" where
  "settlement_pending (PrivateRepaymentError status code message retryable) = (code = ''settlement_pending'')"
| "settlement_pending (OtherError e) = False"

text \<open>\<open>submit k\<close> is the answer to the k-th request, \<open>now k\<close> the clock: reading 0 sets the deadline, reading \<open>k + 1\<close> follows request \<open>k\<close>.\<close>

partial_function (option) wait_loop :: "(nat \<Rightarrow> 'a pay) \<Rightarrow> (nat \<Rightarrow> int) \<Rightarrow> int \<Rightarrow> int \<Rightarrow> nat \<Rightarrow> ('a pay) option" where
  "wait_loop submit now deadline intervalMs k = (case submit k of
     Inr r \<Rightarrow> Some (Inr r)
   | Inl e \<Rightarrow> if \<not> settlement_pending e \<or> now (Suc k) + intervalMs > deadline then Some (Inl e)
             else wait_loop submit now deadline intervalMs (Suc k))"

declare wait_loop.simps [code]

definition waitForPrivateRepayment :: "(nat \<Rightarrow> 'a pay) \<Rightarrow> (nat \<Rightarrow> int) \<Rightarrow> int \<Rightarrow> int \<Rightarrow> ('a pay) option" where
  "waitForPrivateRepayment submit now timeoutMs intervalMs = wait_loop submit now (now 0 + timeoutMs) intervalMs 0"



section \<open>What a checked transaction does\<close>

lemma catch_unreadable_Inr [simp]: "catch_unreadable kind m = Inr x \<longleftrightarrow> m = Inr x"
  by (auto simp: catch_unreadable_def refuse_def split: sum.splits pay_error.splits)

lemma refuse_Inr [simp]: "refuse kind why \<noteq> Inr x" "Inr x \<noteq> refuse kind why"
  by (simp_all add: refuse_def)

lemma u64_at_Inr [simp]: "u64_at data at = Inr v \<longleftrightarrow> at + 8 \<le> length data \<and> v = le_val (slice data at 8)"
  by (auto simp: u64_at_def)

text \<open>The instructions that move an amount, the lamports of a plain SOL transfer, and the amount that is moved.\<close>

definition moves_amount :: "DecodedInstruction \<Rightarrow> bool" where
  "moves_amount ix \<longleftrightarrow> dx_programId ix = EPHEMERAL_SPL_PROGRAM \<and> dx_data ix \<noteq> [] \<and> hd (dx_data ix) \<in> set amount_tags"

definition transferred_lamports :: "DecodedInstruction \<Rightarrow> int" where
  "transferred_lamports ix = (if system_transfer ix then le_val (slice (dx_data ix) 4 8) else 0)"

definition moved_amount :: "DecodedInstruction \<Rightarrow> int" where
  "moved_amount ix = le_val (slice (dx_data ix) (if hd (dx_data ix) \<in> {2, 16} then 1 else 5) 8)"

definition tag_allowed :: "tx_kind \<Rightarrow> DecodedInstruction \<Rightarrow> bool" where
  "tag_allowed kind ix \<longleftrightarrow> dx_data ix \<noteq> [] \<and> hd (dx_data ix) \<in> set (case kind of Deposit \<Rightarrow> DEPOSIT_TAGS | Transfer \<Rightarrow> TRANSFER_TAGS)"

lemma scan_loop_Inr:
  "scan_loop kind ixs lamports moves = Inr (l, ms) \<longleftrightarrow>
     list_all (\<lambda>ix. dx_programId ix \<in> set allowed_programs) ixs \<and>
     list_all (\<lambda>ix. dx_programId ix = EPHEMERAL_SPL_PROGRAM \<longrightarrow> tag_allowed kind ix) ixs \<and>
     l = lamports + sum_list (map transferred_lamports ixs) \<and> ms = moves @ filter moves_amount ixs"
proof (induction ixs arbitrary: lamports moves)
  case (Cons ix ixs)
  then show ?case by (auto simp: Let_def transferred_lamports_def moves_amount_def tag_allowed_def)
qed auto

text \<open>
  The transaction of a statement payment: it pays the expected amount of the mint from the owner to the
  recipient in one piece, with the reference. The deposits: they take the amount from the owner.
\<close>

definition pays_exactly :: "Expected \<Rightarrow> DecodedInstruction \<Rightarrow> bool" where
  "pays_exactly expect ix \<longleftrightarrow>
     hd (dx_data ix) = 16 \<and> nth_opt (dx_accounts ix) 2 = Some (ex_mint expect) \<and>
     nth_opt (dx_accounts ix) 5 = ex_recipientWallet expect \<and> nth_opt (dx_accounts ix) 6 = Some (ex_owner expect) \<and>
     moved_amount ix = ex_amountBaseUnits expect \<and> split_of (dx_data ix) = 1 \<and>
     ex_clientRefId expect = Some (int_dec (le_val (slice (dx_data ix) (length (dx_data ix) - 8) 8)))"

definition deposits_exactly :: "web3 \<Rightarrow> (bytes \<Rightarrow> bool) \<Rightarrow> Expected \<Rightarrow> DecodedInstruction \<Rightarrow> bool" where
  "deposits_exactly W onCurve expect ix \<longleftrightarrow>
     moved_amount ix = ex_amountBaseUnits expect \<and> nth_opt (dx_accounts ix) 5 = Some (ex_owner expect) \<and>
     (hd (dx_data ix) = 2 \<and> nth_opt (dx_accounts ix) 2 = Some (ex_mint expect) \<or>
      hd (dx_data ix) = 34 \<and> nth_opt (dx_accounts ix) 13 = Some (ex_mint expect) \<or>
      hd (dx_data ix) = 24 \<and> nth_opt (dx_accounts ix) 14 = Some (ex_mint expect) \<and>
        (\<exists>ata. associatedTokenAccount W onCurve (ex_owner expect) (ex_mint expect) False = Inr ata \<and>
          nth_opt (dx_accounts ix) 17 = Some ata \<and> nth_opt (dx_accounts ix) 13 = Some ata))"

lemma shuttle_Inr:
  assumes "checkShuttleDepositWithMerge W onCurve ix expect = Inr ()" and "hd (dx_data ix) = 24"
  shows "deposits_exactly W onCurve expect ix"
  using assms
  by (auto simp: checkShuttleDepositWithMerge_def Let_def result_simps deposits_exactly_def moved_amount_def nth_opt_def
      split: if_splits)

lemma queued_Inr:
  assumes "checkQueuedTransfer ix expect = Inr ()" and "hd (dx_data ix) = 16"
  shows "pays_exactly expect ix"
  using assms
  by (auto simp: checkQueuedTransfer_def Let_def result_simps pays_exactly_def moved_amount_def split: if_splits)

lemma move_Inr:
  assumes "check_move W onCurve ix expect = Inr ()" and "moves_amount ix" and "tag_allowed (ex_kind expect) ix"
  shows "case ex_kind expect of Transfer \<Rightarrow> pays_exactly expect ix | Deposit \<Rightarrow> deposits_exactly W onCurve expect ix"
proof (cases "ex_kind expect")
  case Transfer
  with assms have "hd (dx_data ix) = 16"
    by (auto simp: moves_amount_def tag_allowed_def amount_tags_def TRANSFER_TAGS_def)
  with assms(1) have "checkQueuedTransfer ix expect = Inr ()" by (simp add: check_move_def Let_def)
  with queued_Inr \<open>hd (dx_data ix) = 16\<close> Transfer show ?thesis by simp
next
  case Deposit
  with assms consider "hd (dx_data ix) = 2" | "hd (dx_data ix) = 24" | "hd (dx_data ix) = 34"
    by (auto simp: moves_amount_def tag_allowed_def amount_tags_def DEPOSIT_TAGS_def)
  then have "deposits_exactly W onCurve expect ix"
  proof cases
    case 2
    with assms(1) Deposit show ?thesis by (intro shuttle_Inr) (simp_all add: check_move_def Let_def)
  qed (use assms(1) Deposit in \<open>auto simp: check_move_def Let_def result_simps deposits_exactly_def moved_amount_def split: if_splits\<close>)
  with Deposit show ?thesis by simp
qed



lemma verified_shape:
  assumes "verifyBuiltTransaction W onCurve tx64 expect = Inr ()"
  obtains tx move where "decodeBuiltTransaction tx64 = Inr tx" "dt_signers tx = [ex_owner expect]"
    "list_all (\<lambda>ix. dx_programId ix \<in> set allowed_programs) (dt_instructions tx)"
    "sum_list (map transferred_lamports (dt_instructions tx)) \<le> MAX_LAMPORTS"
    "filter moves_amount (dt_instructions tx) = [move]"
    "case ex_kind expect of Transfer \<Rightarrow> pays_exactly expect move | Deposit \<Rightarrow> deposits_exactly W onCurve expect move"
proof -
  from assms obtain tx where tx: "decodeBuiltTransaction tx64 = Inr tx"
    by (auto simp: verifyBuiltTransaction_def Let_def split: sum.splits)
  from assms tx have signers: "length (dt_signers tx) = 1" "hd (dt_signers tx) = ex_owner expect"
    by (auto simp: verifyBuiltTransaction_def Let_def split: if_splits)
  from assms tx signers obtain l ms where scan: "scan_loop (ex_kind expect) (dt_instructions tx) 0 [] = Inr (l, ms)"
    and l: "l \<le> MAX_LAMPORTS" and ms: "length ms = 1" and move: "check_move W onCurve (hd ms) expect = Inr ()"
    by (auto simp: verifyBuiltTransaction_def Let_def result_simps split: if_splits)
  note scanned = scan [unfolded scan_loop_Inr]
  from ms obtain m where m: "ms = [m]" by (cases ms) auto
  with scanned have f: "filter moves_amount (dt_instructions tx) = [m]" by simp
  then have "m \<in> set (filter moves_amount (dt_instructions tx))" by simp
  then have "m \<in> set (dt_instructions tx)" "moves_amount m" by simp_all
  with scanned have "tag_allowed (ex_kind expect) m" by (auto simp: list_all_iff moves_amount_def)
  with move m \<open>moves_amount m\<close> move_Inr [of W onCurve m expect] scanned l tx f signers show ?thesis
    by (intro that [of tx m]) (auto simp: length_Suc_conv)
qed

text \<open>
  C7. What the wallet is asked to sign is what the statement says: a transaction that passes
  \<open>verifyBuiltTransaction\<close> has the owner as its only signer, calls none but the expected programs (never SPL Token),
  transfers at most \<open>MAX_LAMPORTS\<close>, and contains exactly one instruction that moves an amount. For a transfer that
  instruction pays exactly the expected amount of the mint to the expected recipient, in one piece and with the
  statement's reference; for a deposit it moves exactly the expected amount of the mint for the owner, and a merge
  credits no account but the owner's own.
\<close>

theorem verified_transaction_exact:
  assumes "verifyBuiltTransaction W onCurve tx64 expect = Inr ()"
  shows "\<exists>tx move. decodeBuiltTransaction tx64 = Inr tx \<and> dt_signers tx = [ex_owner expect] \<and>
    list_all (\<lambda>ix. dx_programId ix \<in> set allowed_programs \<and> dx_programId ix \<noteq> SPL_TOKEN_PROGRAM) (dt_instructions tx) \<and>
    sum_list (map transferred_lamports (dt_instructions tx)) \<le> MAX_LAMPORTS \<and>
    filter moves_amount (dt_instructions tx) = [move] \<and>
    (case ex_kind expect of Transfer \<Rightarrow> pays_exactly expect move | Deposit \<Rightarrow> deposits_exactly W onCurve expect move)"
proof -
  have "SPL_TOKEN_PROGRAM \<notin> set allowed_programs"
    by (simp add: allowed_programs_def SPL_TOKEN_PROGRAM_def SYSTEM_PROGRAM_def COMPUTE_BUDGET_PROGRAM_def
        ASSOCIATED_TOKEN_PROGRAM_def EPHEMERAL_SPL_PROGRAM_def DELEGATION_PROGRAM_def PERMISSION_PROGRAM_def MAGIC_PROGRAM_def)
  then show ?thesis using verified_shape [OF assms] by (auto simp: list_all_iff) metis
qed

text \<open>
  The limit on SOL only counts plain transfers: \<open>CreateAccountWithSeed\<close> (tag 3), which the owner alone can sign when the
  owner is the base key, moves the owner's lamports into an account of any program and is not counted.
\<close>

lemma seeded_accounts_not_counted:
  "scan_loop kind [\<lparr>dx_programId = SYSTEM_PROGRAM, dx_accounts = accounts, dx_data = [3, 0, 0, 0] @ rest\<rparr>] 0 [] = Inr (0, [])"
  by (simp add: scan_loop_Inr allowed_programs_def transferred_lamports_def system_transfer_def moves_amount_def
      SYSTEM_PROGRAM_def EPHEMERAL_SPL_PROGRAM_def)

section \<open>Waiting ends\<close>

lemma clock_advances:
  fixes now :: "nat \<Rightarrow> int"
  assumes "now 0 \<le> now 1" and "\<And>k. now (Suc k) + step \<le> now (Suc (Suc k))"
  shows "now 0 + int k * step \<le> now (Suc k)"
proof (induction k)
  case (Suc k)
  with assms(2) [of k] show ?case by (simp add: algebra_simps)
qed (use assms(1) in simp)

lemma wait_loop_ends:
  assumes "k \<le> K" and "now (Suc K) + intervalMs > deadline"
  shows "\<exists>n. k \<le> n \<and> n \<le> K \<and> wait_loop submit now deadline intervalMs k = Some (submit n) \<and>
    (\<forall>i. k \<le> i \<and> i < n \<longrightarrow> (\<exists>e. submit i = Inl e \<and> settlement_pending e)) \<and>
    (\<forall>e. submit n = Inl e \<longrightarrow> \<not> settlement_pending e \<or> now (Suc n) + intervalMs > deadline)"
  using assms(1)
proof (induction "K - k" arbitrary: k)
  case 0
  then have "k = K" by simp
  with assms(2) show ?case
    by (intro exI [of _ K]) (subst wait_loop.simps, auto split: sum.splits)
next
  case (Suc d)
  show ?case
  proof (cases "\<exists>e. submit k = Inl e \<and> settlement_pending e \<and> \<not> now (Suc k) + intervalMs > deadline")
    case True
    then obtain e where e: "submit k = Inl e" "settlement_pending e" "\<not> now (Suc k) + intervalMs > deadline" by blast
    from Suc.hyps(2) have "d = K - Suc k" "Suc k \<le> K" by simp_all
    from Suc.hyps(1) [OF this] obtain n where n: "Suc k \<le> n" "n \<le> K"
      "wait_loop submit now deadline intervalMs (Suc k) = Some (submit n)"
      "\<forall>i. Suc k \<le> i \<and> i < n \<longrightarrow> (\<exists>e. submit i = Inl e \<and> settlement_pending e)"
      "\<forall>e. submit n = Inl e \<longrightarrow> \<not> settlement_pending e \<or> now (Suc n) + intervalMs > deadline" by blast
    have "wait_loop submit now deadline intervalMs k = Some (submit n)"
      using e n(3) by (subst wait_loop.simps) simp
    moreover have "\<forall>i. k \<le> i \<and> i < n \<longrightarrow> (\<exists>e. submit i = Inl e \<and> settlement_pending e)"
      using n(4) e by (metis le_neq_implies_less Suc_leI)
    ultimately show ?thesis using n by (intro exI [of _ n]) auto
  next
    case False
    then have "wait_loop submit now deadline intervalMs k = Some (submit k)"
      by (subst wait_loop.simps) (auto split: sum.splits)
    with False Suc.prems show ?thesis by (intro exI [of _ k]) auto
  qed
qed

text \<open>
  C40. Waiting for the settlement ends: when the clock advances by at least the interval between two requests
  (the code sleeps that long), \<open>waitForPrivateRepayment\<close> returns after at most \<open>timeoutMs div intervalMs + 1\<close>
  requests. It returns the answer of the last one; every earlier answer was \<open>settlement_pending\<close>, and it
  gives up on a pending settlement only when another request would come after the deadline.
\<close>

theorem settlement_wait_ends:
  assumes "0 < intervalMs" and "0 \<le> timeoutMs"
    and "now 0 \<le> now 1" and "\<And>k. now (Suc k) + intervalMs \<le> now (Suc (Suc k))"
  shows "\<exists>n \<le> nat (timeoutMs div intervalMs). waitForPrivateRepayment submit now timeoutMs intervalMs = Some (submit n) \<and>
    (\<forall>i < n. \<exists>e. submit i = Inl e \<and> settlement_pending e) \<and>
    (\<forall>e. submit n = Inl e \<longrightarrow> \<not> settlement_pending e \<or> now (Suc n) + intervalMs > now 0 + timeoutMs)"
proof -
  let ?K = "nat (timeoutMs div intervalMs)"
  have K: "int ?K = timeoutMs div intervalMs" using assms(1,2) by (simp add: pos_imp_zdiv_nonneg_iff)
  have "timeoutMs = int ?K * intervalMs + timeoutMs mod intervalMs" unfolding K by simp
  then have "timeoutMs < int ?K * intervalMs + intervalMs" using pos_mod_bound [OF assms(1), of timeoutMs] by linarith
  then have "now (Suc ?K) + intervalMs > now 0 + timeoutMs"
    using clock_advances [where now = now and step = intervalMs and k = ?K, OF assms(3,4)] by linarith
  from wait_loop_ends [where k = 0 and K = ?K and now = now and submit = submit, OF _ this]
  show ?thesis by (auto simp: waitForPrivateRepayment_def)
qed



lemma wait_deposit_ends:
  assumes "k \<le> K" and "pe_now env (Suc K) > deadline"
  shows "wait_deposit env amount deadline k balance \<noteq> None"
  using assms(1)
proof (induction "K - k" arbitrary: k balance)
  case 0
  then have "k = K" by simp
  with assms(2) show ?case by (subst wait_deposit.simps) simp
next
  case (Suc d)
  from Suc.hyps(2) have "d = K - Suc k" "Suc k \<le> K" by simp_all
  from Suc.hyps(1) [OF this] show ?case by (subst wait_deposit.simps) (auto split: sum.splits)
qed

lemma wait_deposit_Inr:
  assumes "wait_deposit env amount deadline k balance = Some r" and "r = Inr ()"
  shows "balance \<ge> amount \<or> (\<exists>j b. pe_balance env (Suc j) = Inr b \<and> b \<ge> amount)"
proof -
  have "r = Inr () \<longrightarrow> balance \<ge> amount \<or> (\<exists>j b. pe_balance env (Suc j) = Inr b \<and> b \<ge> amount)"
  proof (rule wait_deposit.raw_induct [OF _ assms(1)])
    fix loop and env :: pay_env and amount :: int and deadline k balance and r :: "unit pay"
    assume IH: "\<And>env amount deadline k balance r. loop env amount deadline k balance = Some r \<Longrightarrow>
        r = Inr () \<longrightarrow> balance \<ge> amount \<or> (\<exists>j b. pe_balance env (Suc j) = Inr b \<and> b \<ge> amount)"
      and eq: "(if balance \<ge> amount then Some (Inr ())
        else if pe_now env (Suc k) > deadline then Some (Inl deposit_pending)
        else case pe_balance env (Suc k) of Inl e \<Rightarrow> Some (Inl e) | Inr b \<Rightarrow> loop env amount deadline (Suc k) b) = Some r"
    show "r = Inr () \<longrightarrow> balance \<ge> amount \<or> (\<exists>j b. pe_balance env (Suc j) = Inr b \<and> b \<ge> amount)"
    proof (cases "pe_balance env (Suc k)")
      case (Inr b)
      with eq IH [of env amount deadline "Suc k" b r] show ?thesis by (auto split: if_splits)
    qed (use eq in \<open>auto split: if_splits\<close>)
  qed
  with assms(2) show ?thesis by blast
qed

section \<open>Runs\<close>

lemma bind_run_Some:
  "bind_run m f = Some (es, r) \<longleftrightarrow>
     (\<exists>e. m = Some (es, Inl e) \<and> r = Inl e) \<or>
     (\<exists>es1 x es2. m = Some (es1, Inr x) \<and> f x = Some (es2, r) \<and> es = es1 @ es2)"
  by (auto simp: bind_run_def split: option.splits sum.splits prod.splits)

lemma quiet_Some [simp]: "quiet p = Some (es, r) \<longleftrightarrow> es = [] \<and> r = p"
  and emit_Some [simp]: "emit e = Some (es, q) \<longleftrightarrow> es = [e] \<and> q = Inr ()"
  by (auto simp: quiet_def emit_def)

definition deposit_expected :: "pay_env \<Rightarrow> PrivateRepaymentAttempt \<Rightarrow> int \<Rightarrow> Expected" where
  "deposit_expected env attempt shortfall =
     \<lparr>ex_kind = Deposit, ex_owner = pe_owner env, ex_mint = pa_mint attempt, ex_amountBaseUnits = shortfall,
      ex_recipientWallet = None, ex_clientRefId = None, ex_minDelayMs = None, ex_maxDelayMs = None\<rparr>"

text \<open>The transfers a run signs and the transfers it sends.\<close>

definition signed_transfers :: "PayEvent list \<Rightarrow> nat" where
  "signed_transfers es = length (filter (\<lambda>ev. case ev of AskSign Transfer _ _ \<Rightarrow> True | _ \<Rightarrow> False) es)"

definition sent_transfers :: "PayEvent list \<Rightarrow> nat" where
  "sent_transfers es = length (filter (\<lambda>ev. case ev of SendSigned Transfer _ \<Rightarrow> True | _ \<Rightarrow> False) es)"

lemma transfers_append [simp]:
  "signed_transfers (xs @ ys) = signed_transfers xs + signed_transfers ys"
  "sent_transfers (xs @ ys) = sent_transfers xs + sent_transfers ys"
  by (simp_all add: signed_transfers_def sent_transfers_def)

lemma transfers_simps [simp]:
  "signed_transfers [] = 0" "sent_transfers [] = 0"
  "signed_transfers (AskSign kind amount tx # es) = (case kind of Transfer \<Rightarrow> Suc (signed_transfers es) | Deposit \<Rightarrow> signed_transfers es)"
  "signed_transfers (SendSigned kind tx # es) = signed_transfers es"
  "signed_transfers (LoginStep # es) = signed_transfers es"
  "signed_transfers (BalanceStep b # es) = signed_transfers es"
  "signed_transfers (DepositStep a s # es) = signed_transfers es"
  "signed_transfers (TransferStep s p # es) = signed_transfers es"
  "sent_transfers (SendSigned kind tx # es) = (case kind of Transfer \<Rightarrow> Suc (sent_transfers es) | Deposit \<Rightarrow> sent_transfers es)"
  "sent_transfers (AskSign kind amount tx # es) = sent_transfers es"
  "sent_transfers (LoginStep # es) = sent_transfers es"
  "sent_transfers (BalanceStep b # es) = sent_transfers es"
  "sent_transfers (DepositStep a s # es) = sent_transfers es"
  "sent_transfers (TransferStep s p # es) = sent_transfers es"
  by (simp_all add: signed_transfers_def sent_transfers_def split: tx_kind.splits)

lemmas run_simps = bind_run_Some ask_sign_def send_signed_def

lemma deposit_stage_events:
  assumes "deposit_stage W onCurve env attempt amount balance = Some (es, r)"
  shows "signed_transfers es = 0 \<and> sent_transfers es = 0 \<and>
    (\<forall>kind a tx. AskSign kind a tx \<in> set es \<longrightarrow> kind = Deposit \<and> a = amount - balance \<and> 0 < a \<and>
       verifyBuiltTransaction W onCurve tx (deposit_expected env attempt a) = Inr ()) \<and>
    (\<forall>b. BalanceStep b \<notin> set es)"
  using assms unfolding deposit_stage_def Let_def
  by (auto simp: run_simps deposit_expected_def split: if_splits)

lemma deposit_stage_funded:
  assumes "deposit_stage W onCurve env attempt amount balance = Some (es, Inr s)"
  shows "balance \<ge> amount \<or> (\<exists>j b. pe_balance env (Suc j) = Inr b \<and> b \<ge> amount)"
  using assms unfolding deposit_stage_def Let_def
  by (auto simp: run_simps split: if_splits dest!: wait_deposit_Inr)

lemma bind_run_quiet [simp]: "bind_run (quiet p) f = (case p of Inl e \<Rightarrow> Some ([], Inl e) | Inr x \<Rightarrow> f x)"
proof (cases p)
  case (Inr x)
  then show ?thesis by (cases "f x") (auto simp: bind_run_def quiet_def)
qed (simp add: bind_run_def quiet_def)

lemma finish_transfer_Some:
  assumes "finish_transfer env built signedTx s = Some (es, r)"
  shows "\<exists>ev res. es = [SendSigned Transfer signedTx, ev] \<and> r = Inr res \<and> (\<exists>x p. ev = TransferStep x p)"
  using assms unfolding finish_transfer_def send_signed_def
  by (auto simp: bind_run_def emit_def quiet_def split: sum.splits)

lemma transfer_stage_cases:
  assumes "transfer_stage W onCurve env attempt t amount s = Some (es, r)"
  obtains e where "es = []" "r = Inl e"
  | built :: Built where "verifyBuiltTransaction W onCurve (bt_transactionBase64 built) (transfer_expected env attempt t amount) = Inr ()"
      "es = [AskSign Transfer amount (bt_transactionBase64 built)] \<and> (\<exists>e. r = Inl e) \<or>
       (\<exists>signedTx ev res. es = [AskSign Transfer amount (bt_transactionBase64 built), SendSigned Transfer signedTx, ev] \<and>
          r = Inr res \<and> (\<exists>x p. ev = TransferStep x p))"
proof (cases "pe_build env Transfer amount")
  case (Inr built)
  show ?thesis
  proof (cases "checkBuilt built (pe_owner env) Transfer = Inr () \<and>
      verifyBuiltTransaction W onCurve (bt_transactionBase64 built) (transfer_expected env attempt t amount) = Inr () \<and>
      (bt_feeTokens built = None \<or> bt_feeTokens built = Some ''0'')")
    case True
    then have "bind_run (ask_sign env Transfer amount built) (\<lambda>signedTx. finish_transfer env built signedTx s) = Some (es, r)"
      using assms Inr unfolding transfer_stage_def by auto
    then show ?thesis
      using True that(2) [of built]
      by (auto simp: bind_run_Some ask_sign_def dest!: finish_transfer_Some split: sum.splits)
  next
    case False
    then have "es = [] \<and> (\<exists>e. r = Inl e)"
      using assms Inr unfolding transfer_stage_def by (auto split: sum.splits option.splits if_splits)
    then show ?thesis using that(1) by blast
  qed
qed (use assms that(1) in \<open>auto simp: transfer_stage_def\<close>)

lemma transfer_stage_events:
  assumes "transfer_stage W onCurve env attempt t amount s = Some (es, r)"
  shows "signed_transfers es \<le> 1 \<and> sent_transfers es = (case r of Inl e \<Rightarrow> 0 | Inr res \<Rightarrow> 1) \<and>
    (\<forall>kind a tx. AskSign kind a tx \<in> set es \<longrightarrow> kind = Transfer \<and> a = amount \<and>
       verifyBuiltTransaction W onCurve tx (transfer_expected env attempt t amount) = Inr ()) \<and>
    (\<forall>b. BalanceStep b \<notin> set es)"
proof (rule transfer_stage_cases [OF assms])
  fix e
  assume "es = []" "r = Inl e"
  then show ?thesis by simp
next
  fix built :: Built
  assume v: "verifyBuiltTransaction W onCurve (bt_transactionBase64 built) (transfer_expected env attempt t amount) = Inr ()"
    and tail: "es = [AskSign Transfer amount (bt_transactionBase64 built)] \<and> (\<exists>e. r = Inl e) \<or>
      (\<exists>signedTx ev res. es = [AskSign Transfer amount (bt_transactionBase64 built), SendSigned Transfer signedTx, ev] \<and>
         r = Inr res \<and> (\<exists>x p. ev = TransferStep x p))"
  from tail show ?thesis using v by auto
qed


lemma when_true_Nil [simp]: "when_true c s = [] \<longleftrightarrow> \<not> c"
  by (simp add: when_true_def)

lemma payable_facts:
  assumes "assertPayableAttempt attempt = Inr ()"
  obtains t cents where "pa_transfer attempt = Some t" "pa_amountCents attempt = Some cents"
    "dec_val (pa_amountBaseUnits attempt) = dec_val cents * 10000" "0 < dec_val cents"
    "pa_mint attempt = PRIVATE_REPAYMENT_DEVNET_USDC" "isAddress (pa_recipientWallet attempt)"
proof -
  from assms have p: "attempt_problems attempt = []" by (simp add: assertPayableAttempt_def Let_def split: if_splits)
  then obtain t where t: "pa_transfer attempt = Some t" by (cases "pa_transfer attempt") (auto simp: attempt_problems_def)
  from p obtain cents where c: "pa_amountCents attempt = Some cents" "positive_digits 14 cents"
    by (cases "pa_amountCents attempt") (auto simp: attempt_problems_def Let_def positive_digits_def is_digits_def)
  then have "0 < radix_val 10 cents" using nat_dec_of_digits [of cents] by (simp add: positive_digits_def)
  then have "0 < dec_val cents" by (simp add: dec_val_def)
  with p t c show ?thesis by (intro that [of t cents]) (auto simp: attempt_problems_def Let_def)
qed

lemma bind_run_emit [simp]: "bind_run (emit ev) f = map_option (\<lambda>(es, r). (ev # es, r)) (f ())"
  by (simp add: bind_run_def emit_def)

lemma pay_cases:
  assumes run: "payStatementPrivately W onCurve env attempt = Some (es, r)"
  obtains (stopped) e where "r = Inl e" "signed_transfers es = 0" "sent_transfers es = 0" "\<And>kind a tx. AskSign kind a tx \<notin> set es"
  | (deposit) balance ds e where "assertPayableAttempt attempt = Inr ()" "pe_balance env 0 = Inr balance"
      "deposit_stage W onCurve env attempt (dec_val (pa_amountBaseUnits attempt)) balance = Some (ds, Inl e)"
      "es = [LoginStep, BalanceStep balance] @ ds" "r = Inl e"
  | (transfer) balance t ds s ts where "assertPayableAttempt attempt = Inr ()" "pa_transfer attempt = Some t" "pe_balance env 0 = Inr balance"
      "deposit_stage W onCurve env attempt (dec_val (pa_amountBaseUnits attempt)) balance = Some (ds, Inr s)"
      "transfer_stage W onCurve env attempt t (dec_val (pa_amountBaseUnits attempt)) s = Some (ts, r)"
      "es = [LoginStep, BalanceStep balance] @ ds @ ts"
proof (cases "assertPayableAttempt attempt")
  case (Inl e)
  with run have "r = Inl e" "es = []" by (auto simp: payStatementPrivately_def)
  then show ?thesis using stopped by simp
next
  case (Inr u)
  then have ok: "assertPayableAttempt attempt = Inr ()" by simp
  from payable_facts [OF ok] obtain t where t: "pa_transfer attempt = Some t" by blast
  show ?thesis
  proof (cases "pe_login env")
    case (Inl e)
    with run ok have "r = Inl e" "es = [LoginStep]" by (auto simp: payStatementPrivately_def Let_def)
    then show ?thesis using stopped by simp
  next
    case login: (Inr v)
    show ?thesis
    proof (cases "pe_balance env 0")
      case (Inl e)
      with run ok login have "r = Inl e" "es = [LoginStep]" by (auto simp: payStatementPrivately_def Let_def)
      then show ?thesis using stopped by simp
    next
      case (Inr balance)
      let ?amount = "dec_val (pa_amountBaseUnits attempt)"
      from run ok login Inr t obtain es' where es': "es = LoginStep # BalanceStep balance # es'"
        and rest: "bind_run (deposit_stage W onCurve env attempt ?amount balance)
          (transfer_stage W onCurve env attempt t ?amount) = Some (es', r)"
        by (auto simp: payStatementPrivately_def Let_def)
      from rest [unfolded bind_run_Some] show ?thesis
        using deposit [OF ok Inr] transfer [OF ok t Inr] es' by auto
    qed
  qed
qed

text \<open>A request to the wallet that the attempt and the balance justify.\<close>

definition justified :: "web3 \<Rightarrow> (bytes \<Rightarrow> bool) \<Rightarrow> pay_env \<Rightarrow> PrivateRepaymentAttempt \<Rightarrow> tx_kind \<Rightarrow> int \<Rightarrow> jstext \<Rightarrow> bool" where
  "justified W onCurve env attempt kind a tx \<longleftrightarrow>
     (\<exists>t cents. pa_transfer attempt = Some t \<and> pa_amountCents attempt = Some cents \<and> 0 < a \<and>
       (case kind of
          Transfer \<Rightarrow> a = dec_val cents * 10000 \<and>
            verifyBuiltTransaction W onCurve tx (transfer_expected env attempt t a) = Inr () \<and>
            (\<exists>j b. pe_balance env j = Inr b \<and> b \<ge> a)
        | Deposit \<Rightarrow> verifyBuiltTransaction W onCurve tx (deposit_expected env attempt a) = Inr () \<and>
            pe_balance env 0 = Inr (dec_val cents * 10000 - a)))"

lemma deposit_justified:
  assumes ok: "assertPayableAttempt attempt = Inr ()" and bal: "pe_balance env 0 = Inr balance"
    and run: "deposit_stage W onCurve env attempt (dec_val (pa_amountBaseUnits attempt)) balance = Some (es, r)"
    and ask: "AskSign kind a tx \<in> set es"
  shows "justified W onCurve env attempt kind a tx"
proof -
  from deposit_stage_events [OF run] ask have e: "kind = Deposit" "a = dec_val (pa_amountBaseUnits attempt) - balance" "0 < a"
    "verifyBuiltTransaction W onCurve tx (deposit_expected env attempt a) = Inr ()" by blast+
  from payable_facts [OF ok] obtain t cents where "pa_transfer attempt = Some t" "pa_amountCents attempt = Some cents"
    "dec_val (pa_amountBaseUnits attempt) = dec_val cents * 10000" by metis
  with e bal show ?thesis by (auto simp: justified_def)
qed

lemma transfer_justified:
  assumes ok: "assertPayableAttempt attempt = Inr ()" and t: "pa_transfer attempt = Some t"
    and funded: "\<exists>j b. pe_balance env j = Inr b \<and> b \<ge> dec_val (pa_amountBaseUnits attempt)"
    and run: "transfer_stage W onCurve env attempt t (dec_val (pa_amountBaseUnits attempt)) s = Some (es, r)"
    and ask: "AskSign kind a tx \<in> set es"
  shows "justified W onCurve env attempt kind a tx"
proof -
  from transfer_stage_events [OF run] ask have e: "kind = Transfer" "a = dec_val (pa_amountBaseUnits attempt)"
    "verifyBuiltTransaction W onCurve tx (transfer_expected env attempt t a) = Inr ()" by blast+
  from payable_facts [OF ok] obtain cents where "pa_amountCents attempt = Some cents"
    "dec_val (pa_amountBaseUnits attempt) = dec_val cents * 10000" "0 < dec_val cents" by metis
  with e t funded show ?thesis by (auto simp: justified_def)
qed

text \<open>
  C8. Private payments are safe, however the service answers: the wallet is asked to sign at most one transfer and
  only transactions that passed the check. The transfer is checked for exactly the statement's cents (times 10 000
  base units) to the attempt's recipient, and only once a private balance of that amount was read; a deposit is
  checked for exactly what the balance lacked. When the payment ends with an error no transfer was sent, and when it
  ends with a result, known or unknown, exactly one was.
\<close>

theorem private_payment_safe:
  assumes run: "payStatementPrivately W onCurve env attempt = Some (es, r)"
  shows "signed_transfers es \<le> 1 \<and> sent_transfers es = (case r of Inl e \<Rightarrow> 0 | Inr res \<Rightarrow> 1) \<and>
    (\<forall>kind a tx. AskSign kind a tx \<in> set es \<longrightarrow> justified W onCurve env attempt kind a tx)"
  using run
proof (cases rule: pay_cases)
  case (deposit balance ds e)
  from deposit_stage_events [OF deposit(3)] deposit(4,5) deposit_justified [OF deposit(1-3)] show ?thesis by auto
next
  case (transfer balance t ds s ts)
  have funded: "\<exists>j b. pe_balance env j = Inr b \<and> b \<ge> dec_val (pa_amountBaseUnits attempt)"
    using deposit_stage_funded [OF transfer(4)] transfer(3) by metis
  have "justified W onCurve env attempt kind a tx" if "AskSign kind a tx \<in> set es" for kind a tx
    using that transfer(6) deposit_justified [OF transfer(1,3,4)] transfer_justified [OF transfer(1,2) funded transfer(5)] by auto
  moreover have "signed_transfers es \<le> 1 \<and> sent_transfers es = (case r of Inl e \<Rightarrow> 0 | Inr res \<Rightarrow> 1)"
    using deposit_stage_events [OF transfer(4)] transfer_stage_events [OF transfer(5)] transfer(6) by simp
  ultimately show ?thesis by blast
qed auto

lemma bind_run_returns: "m \<noteq> None \<Longrightarrow> (\<And>x. f x \<noteq> None) \<Longrightarrow> bind_run m f \<noteq> None"
  unfolding bind_run_def by (simp del: not_None_eq split: option.split sum.split prod.split)

lemma steps_return: "quiet p \<noteq> None" "emit ev \<noteq> None"
  by (simp_all add: quiet_def emit_def)

lemma deposit_stage_returns:
  assumes "\<And>deadline. deadline = pe_now env 0 + (case pe_waitMs env of Some ms \<Rightarrow> ms | None \<Rightarrow> 60000) \<Longrightarrow>
    wait_deposit env amount deadline 0 balance \<noteq> None"
  shows "deposit_stage W onCurve env attempt amount balance \<noteq> None"
proof (cases "balance \<ge> amount")
  case False
  then show ?thesis using assms unfolding deposit_stage_def Let_def ask_sign_def send_signed_def
    by (simp only: if_False) (intro bind_run_returns steps_return, simp)
qed (simp add: deposit_stage_def steps_return)

lemma transfer_stage_returns: "transfer_stage W onCurve env attempt t amount s \<noteq> None"
proof -
  have "finish_transfer env built signedTx s \<noteq> None" for built signedTx
    unfolding finish_transfer_def send_signed_def
    by (auto simp: quiet_def split: sum.splits)
  then show ?thesis
    unfolding transfer_stage_def ask_sign_def by (intro bind_run_returns steps_return) 
qed

text \<open>
  C39. A private payment always ends: when the clock advances by the two seconds the code sleeps between two balance
  requests, \<open>payStatementPrivately\<close> returns, whatever the service answers and even if the deposit never arrives.
\<close>

theorem private_payment_ends:
  assumes "pe_now env 0 \<le> pe_now env 1" and "\<And>k. pe_now env (Suc k) + 2000 \<le> pe_now env (Suc (Suc k))"
  shows "\<exists>es r. payStatementPrivately W onCurve env attempt = Some (es, r)"
proof -
  define wait where "wait = (case pe_waitMs env of Some ms \<Rightarrow> ms | None \<Rightarrow> 60000)"
  let ?K = "nat (wait + 1)"
  have "pe_now env 0 + int ?K * 2000 \<le> pe_now env (Suc ?K)"
    by (rule clock_advances [where now = "pe_now env"]) (use assms in auto)
  then have late: "pe_now env (Suc ?K) > pe_now env 0 + wait" by linarith
  have "deposit_stage W onCurve env attempt amount balance \<noteq> None" for amount balance
    by (rule deposit_stage_returns) (use wait_deposit_ends [OF _ late, of 0] in \<open>simp add: wait_def\<close>)
  then have "payStatementPrivately W onCurve env attempt \<noteq> None"
    unfolding payStatementPrivately_def Let_def
    by (intro bind_run_returns steps_return) (simp_all add: transfer_stage_returns steps_return del: not_None_eq split: option.split)
  then show ?thesis by auto
qed


section \<open>Examples\<close>

definition usdc_key :: bytes where
  "usdc_key = [59, 68, 44, 179, 145, 33, 87, 241, 58, 147, 61, 1, 52, 40, 45, 3, 43, 95, 254, 205, 1, 162, 219, 241,
     183, 121, 6, 8, 223, 0, 46, 167]"

definition espl_key :: bytes where
  "espl_key = [6, 128, 200, 234, 115, 202, 172, 225, 29, 240, 193, 184, 192, 229, 47, 173, 17, 234, 44, 108, 0, 194,
     128, 125, 224, 239, 6, 229, 135, 199, 95, 71]"

definition small_key :: "byte \<Rightarrow> bytes" where
  "small_key k = replicate 31 0 @ [k]"

text \<open>A transfer of 50 000 base units (5 cents) from key 1 to key 2 with reference 7, as wire bytes.\<close>

definition sample_data :: bytes where
  "sample_data = [16, 80, 195, 0, 0, 0, 0, 0, 0, 0, 0, 0] @ [0, 0, 0, 0, 0, 0, 0, 0, 0, 0, 0, 0, 0, 0, 0, 0]
     @ [1, 0, 0, 0] @ [7, 0, 0, 0, 0, 0, 0, 0]"

definition sample_wire :: bytes where
  "sample_wire = 1 # replicate 64 0 @ [1, 0, 0] @ [4] @ small_key 1 @ small_key 2 @ usdc_key @ espl_key
     @ replicate 32 0 @ [1, 3, 7, 0, 0, 2, 0, 0, 1, 0, 40] @ sample_data"

definition sample_tx64 :: jstext where
  "sample_tx64 = btoa (map unat sample_wire)"

lemma base58_eqI:
  assumes "of_digits 256 (map unat b) = of_digits 58 ds" and "list_all (\<lambda>d. d < 58) ds" and "ds \<noteq> [] \<and> hd ds \<noteq> 0" and "takeWhile (\<lambda>x. x = 0) b = []"
  shows "base58 b = map (\<lambda>d. BASE58 ! d) ds"
  using assms to_of_digits [of 58 ds] by (simp add: base58_def list_all_iff)

lemma usdc_text: "base58 usdc_key = PRIVATE_REPAYMENT_DEVNET_USDC"
proof -
  have "base58 usdc_key = map (\<lambda>d. BASE58 ! d) [3, 57, 20, 20, 11, 8, 50, 49, 51, 4, 24, 41, 4, 30, 0, 3, 15, 9, 39, 30, 40, 33, 16, 41, 41, 2, 15, 45, 22, 9, 13, 13, 24, 31, 22, 17, 39, 32, 17, 12, 45, 35, 12, 27]"
    by (rule base58_eqI) (simp_all add: usdc_key_def of_digits_def)
  then show ?thesis by (simp add: BASE58_def PRIVATE_REPAYMENT_DEVNET_USDC_def)
qed

lemma espl_text: "base58 espl_key = EPHEMERAL_SPL_PROGRAM"
proof -
  have "base58 espl_key = map (\<lambda>d. BASE58 ! d) [25, 22, 19, 55, 40, 0, 19, 28, 32, 57, 13, 43, 30, 8, 8, 16, 5, 49, 48, 31, 41, 57, 40, 56, 51, 19, 29, 22, 32, 28, 28, 1, 8, 5, 57, 56, 31, 12, 22, 33, 39, 53, 1]"
    by (rule base58_eqI) (simp_all add: espl_key_def of_digits_def)
  then show ?thesis by (simp add: BASE58_def EPHEMERAL_SPL_PROGRAM_def)
qed


lemma take_bytes_append: "length xs = n \<Longrightarrow> take_bytes n (xs @ ys) = Inr (xs, ys)"
  by (simp add: take_bytes_def)

lemma read_key_append: "length k = 32 \<Longrightarrow> read_key (k @ ys) = Inr (base58 k, ys)"
  by (simp add: read_key_def take_bytes_append)

lemma length_keys [simp]: "length usdc_key = 32" "length espl_key = 32" "length (small_key k) = 32" "length sample_data = 40"
  by (simp_all add: usdc_key_def espl_key_def small_key_def sample_data_def)

abbreviation sample_keys :: "string list" where
  "sample_keys \<equiv> [base58 (small_key 1), base58 (small_key 2), PRIVATE_REPAYMENT_DEVNET_USDC, EPHEMERAL_SPL_PROGRAM]"

definition sample_move :: DecodedInstruction where
  "sample_move = \<lparr>dx_programId = EPHEMERAL_SPL_PROGRAM,
     dx_accounts = map ((!) sample_keys) [0, 0, 2, 0, 0, 1, 0], dx_data = sample_data\<rparr>"

lemma sample_bytes: "fromBase64 sample_tx64 = Inr sample_wire"
proof -
  have "unat (w :: byte) < 256" for w using unsigned_less [of w, where ?'a = nat] by simp
  then have "atob (btoa (map unat sample_wire)) = Inr (map unat sample_wire)" by (intro atob_btoa) auto
  then show ?thesis by (simp add: fromBase64_def sample_tx64_def o_def)
qed

lemma read_keys_sample:
  "read_times 4 read_key (small_key 1 @ small_key 2 @ usdc_key @ espl_key @ rest) = Inr (sample_keys, rest)"
  by (simp add: numeral_eq_Suc read_key_append usdc_text espl_text)

lemma read_instruction_sample:
  "read_instruction sample_keys ([3, 7, 0, 0, 2, 0, 0, 1, 0, 40] @ sample_data) = Inr (sample_move, [])"
proof -
  have "compact (40 # sample_data) = Inr (40, sample_data)" "compact (7 # rest) = Inr (7, rest)" for rest
    by (simp_all add: compact_def next_byte_def)
  moreover have "take_bytes 40 sample_data = Inr (sample_data, [])" by (simp add: take_bytes_def)
  moreover have idx: "read_index sample_keys (0 # rest) = Inr (Some (base58 (small_key 1)), rest)"
    "read_index sample_keys (1 # rest) = Inr (Some (base58 (small_key 2)), rest)"
    "read_index sample_keys (2 # rest) = Inr (Some PRIVATE_REPAYMENT_DEVNET_USDC, rest)" for rest
    by (simp_all add: read_index_def next_byte_def nth_opt_def)
  have "read_times 7 (read_index sample_keys) ([0, 0, 2, 0, 0, 1, 0] @ rest)
      = Inr (map Some (map ((!) sample_keys) [0, 0, 2, 0, 0, 1, 0]), rest)" for rest
    using idx by (simp add: eval_nat_numeral)
  moreover have "read_index sample_keys (3 # rest) = Inr (Some EPHEMERAL_SPL_PROGRAM, rest)" for rest
    by (simp add: read_index_def next_byte_def nth_opt_def)
  ultimately show ?thesis
    by (simp add: read_instruction_def sample_move_def EPHEMERAL_SPL_PROGRAM_def)
qed

lemma sample_decodes:
  "decodeBuiltTransaction sample_tx64 = Inr \<lparr>dt_signers = [base58 (small_key 1)], dt_instructions = [sample_move]\<rparr>"
proof -
  have c: "compact (1 # rest) = Inr (1, rest)" "compact (4 # rest) = Inr (4, rest)" for rest
    by (simp_all add: compact_def next_byte_def)
  have s: "take_bytes 64 (replicate 64 0 @ rest) = Inr (replicate 64 0, rest)"
    "take_bytes 32 (replicate 32 0 @ rest) = Inr (replicate 32 0, rest)" for rest
    by (simp_all add: take_bytes_append)
  have r: "read_times 1 (read_instruction sample_keys) ([3, 7, 0, 0, 2, 0, 0, 1, 0, 40] @ sample_data) = Inr ([sample_move], [])"
    using read_instruction_sample by simp
  show ?thesis
    unfolding decodeBuiltTransaction_def sample_bytes sample_wire_def
    using c s r read_keys_sample by (simp add: next_byte_def)
qed


text \<open>The attempt that this transaction pays, and a service that answers with it.\<close>

definition sample_route :: TransferRoute where
  "sample_route = \<lparr>tr_visibility = ''private'', tr_fromBalance = ''ephemeral'', tr_toBalance = ''base'', tr_split = NInt 1,
     tr_exactOut = True, tr_minDelayMs = ''0'', tr_maxDelayMs = ''0'', tr_memo = None\<rparr>"

definition sample_attempt :: PrivateRepaymentAttempt where
  "sample_attempt = \<lparr>pa_state = ''awaiting_settlement'', pa_method = PRIVATE_REPAYMENT_METHOD, pa_cluster = ''devnet'',
     pa_apiCluster = ''devnet-private'', pa_mint = PRIVATE_REPAYMENT_DEVNET_USDC, pa_amountCents = Some ''5'',
     pa_amountBaseUnits = ''50000'', pa_recipientWallet = base58 (small_key 2), pa_clientRefId = ''7'',
     pa_transfer = Some sample_route\<rparr>"

definition sample_env :: pay_env where
  "sample_env = \<lparr>pe_owner = base58 (small_key 1), pe_login = Inr (), pe_balance = (\<lambda>k. Inr 60000),
     pe_build = (\<lambda>kind amount. Inr \<lparr>bt_kind = ''transfer'', bt_transactionBase64 = sample_tx64, bt_sendToBase = False,
       bt_requiredSigners = [base58 (small_key 1)], bt_feeTokens = Some ''0''\<rparr>),
     pe_sign = (\<lambda>kind tx. Inr tx), pe_sendBase = None, pe_sendViaApi = (\<lambda>kind built tx. Inl (OtherError ''block height exceeded'')),
     pe_now = (\<lambda>k. int k * 2000), pe_waitMs = None\<rparr>"

lemma sample_verified:
  "verifyBuiltTransaction sample_web3 onCurve sample_tx64 (transfer_expected sample_env sample_attempt sample_route 50000) = Inr ()"
proof -
  let ?e = "transfer_expected sample_env sample_attempt sample_route 50000"
  have s: "split_of sample_data = 1"
    by (simp add: sample_data_def split_of_def data_at_def)
  have d: "hd sample_data = 16" "le_val (slice sample_data (Suc 0) 8) = 50000"
    "le_val (slice sample_data 12 8) = 0" "le_val (slice sample_data 20 8) = 0" "le_val (slice sample_data 32 8) = 7"
    by (simp_all add: sample_data_def slice_def)
  have t: "int_dec 7 = ''7''" "to_bigint ''0'' = Some 0"
    by (simp_all add: int_dec_def radix_str.simps digit_char_def char_of_def bit_iff_odd to_bigint_def trim_def is_space_def
        radix_digits_def radix_val_def Let_def)
  have "checkQueuedTransfer sample_move ?e = Inr ()"
    by (simp add: checkQueuedTransfer_def Let_def transfer_expected_def sample_move_def nth_opt_def sample_env_def
        sample_attempt_def sample_route_def u64_at_def d s t check_delay_def bigint_or_throw_def)
  moreover have n: "sample_data \<noteq> []" "EPHEMERAL_SPL_PROGRAM \<noteq> SYSTEM_PROGRAM"
    by (simp_all add: sample_data_def EPHEMERAL_SPL_PROGRAM_def SYSTEM_PROGRAM_def)
  have "scan_loop Transfer [sample_move] 0 [] = Inr (0, [sample_move])"
    using n by (simp add: scan_loop_Inr sample_move_def allowed_programs_def tag_allowed_def d TRANSFER_TAGS_def transferred_lamports_def
        system_transfer_def moves_amount_def amount_tags_def)
  moreover have "ex_kind ?e = Transfer" "ex_owner ?e = base58 (small_key 1)"
    by (simp_all add: transfer_expected_def sample_env_def)
  moreover have "check_move sample_web3 onCurve sample_move ?e = checkQueuedTransfer sample_move ?e"
    by (simp add: check_move_def sample_move_def d)
  ultimately show ?thesis
    by (simp add: verifyBuiltTransaction_def sample_decodes MAX_LAMPORTS_def del: scan_loop.simps)
qed


theorem verified_transaction_exact_witness:
  "verifyBuiltTransaction sample_web3 (\<lambda>_. True) sample_tx64 (transfer_expected sample_env sample_attempt sample_route 50000) = Inr () \<and>
   (\<exists>tx move. decodeBuiltTransaction sample_tx64 = Inr tx \<and> dt_signers tx = [base58 (small_key 1)] \<and>
     filter moves_amount (dt_instructions tx) = [move] \<and> moved_amount move = 50000)"
proof -
  have e: "ex_kind (transfer_expected sample_env sample_attempt sample_route 50000) = Transfer"
    "ex_owner (transfer_expected sample_env sample_attempt sample_route 50000) = base58 (small_key 1)"
    "ex_amountBaseUnits (transfer_expected sample_env sample_attempt sample_route 50000) = 50000"
    by (simp_all add: transfer_expected_def sample_env_def)
  from verified_transaction_exact [OF sample_verified, of "\<lambda>_. True"] show ?thesis
    unfolding e using sample_verified by (auto simp: pays_exactly_def e)
qed

lemma sample_payable: "assertPayableAttempt sample_attempt = Inr ()"
proof -
  have a: "isAddress (base58 (small_key 2))"
    using base58Decode_base58 [of "small_key 2"] by (simp add: isAddress_def)
  have d: "positive_digits 11 ''7''" "positive_digits 18 ''50000''" "positive_digits 14 ''5''" "dec_val ''50000'' = 50000" "dec_val ''5'' = 5"
    by (simp_all add: positive_digits_def is_digits_def is_digit_def dec_val_def radix_val_def digit_val_def)
  show ?thesis
    by (simp add: assertPayableAttempt_def attempt_problems_def sample_attempt_def sample_route_def when_true_def a d)
qed

lemma sample_payment_run:
  "payStatementPrivately sample_web3 onCurve sample_env sample_attempt =
     Some ([LoginStep, BalanceStep 60000, AskSign Transfer 50000 sample_tx64, SendSigned Transfer sample_tx64, TransferStep None Unknown],
       Inr \<lparr>py_depositSignature = None, py_transferSignature = None, py_outcome = Unknown\<rparr>)"
proof -
  have amount: "dec_val (pa_amountBaseUnits sample_attempt) = 50000"
    by (simp add: sample_attempt_def dec_val_def radix_val_def digit_val_def)
  have route: "pa_transfer sample_attempt = Some sample_route" by (simp add: sample_attempt_def)
  have env: "pe_balance sample_env k = Inr 60000" "pe_login sample_env = Inr ()" for k by (simp_all add: sample_env_def)
  have "deposit_stage sample_web3 onCurve sample_env sample_attempt 50000 60000 = quiet (Inr None)"
    by (simp add: deposit_stage_def)
  moreover have "transfer_stage sample_web3 onCurve sample_env sample_attempt sample_route 50000 None =
      Some ([AskSign Transfer 50000 sample_tx64, SendSigned Transfer sample_tx64, TransferStep None Unknown],
        Inr \<lparr>py_depositSignature = None, py_transferSignature = None, py_outcome = Unknown\<rparr>)"
    using sample_verified [of onCurve]
    by (simp add: transfer_stage_def finish_transfer_def send_signed_def ask_sign_def checkBuilt_def kind_text_def quiet_def bind_run_def
        sample_env_def emit_def)
  ultimately show ?thesis
    using sample_payable route env by (simp add: payStatementPrivately_def amount)
qed

theorem private_payment_safe_witness:
  "payStatementPrivately sample_web3 (\<lambda>_. True) sample_env sample_attempt \<noteq> None \<and>
   justified sample_web3 (\<lambda>_. True) sample_env sample_attempt Transfer 50000 sample_tx64"
  using private_payment_safe [OF sample_payment_run, of "\<lambda>_. True"] sample_payment_run [of "\<lambda>_. True"] by simp

theorem private_payment_ends_witness:
  "pe_now sample_env 0 \<le> pe_now sample_env 1 \<and>
   (\<exists>es r. payStatementPrivately sample_web3 (\<lambda>_. True) (sample_env\<lparr>pe_balance := \<lambda>k. Inr 0\<rparr>) sample_attempt = Some (es, r))"
proof -
  have "\<exists>es r. payStatementPrivately sample_web3 (\<lambda>_. True) (sample_env\<lparr>pe_balance := \<lambda>k. Inr 0\<rparr>) sample_attempt = Some (es, r)"
    by (rule private_payment_ends) (simp_all add: sample_env_def)
  then show ?thesis by (simp add: sample_env_def)
qed

theorem settlement_wait_ends_witness:
  "\<exists>n \<le> 22. waitForPrivateRepayment (\<lambda>k. Inl (PrivateRepaymentError 409 ''settlement_pending'' ''wait'' True) :: unit pay)
     (\<lambda>k. int k * 4000) 90000 4000 = Some (Inl (PrivateRepaymentError 409 ''settlement_pending'' ''wait'' True)) \<and>
     int (Suc n) * 4000 + 4000 > 90000"
  using settlement_wait_ends [of 4000 90000 "\<lambda>k. int k * 4000"
      "\<lambda>k. Inl (PrivateRepaymentError 409 ''settlement_pending'' ''wait'' True) :: unit pay"] by auto

end
