(* ===== verification/Guards.thy ===== *)
theory Guards
  imports CardCodec CardDraft Repayment "HOL-Library.Char_ord" "HOL-Library.List_Lexorder" "HOL-Library.Multiset"
begin

text \<open>
  \<open>frontend/src/dashboard/cards/signingGuards.ts\<close>: the checks the owner's browser runs on transactions that the
  server built, before the wallet is asked to sign. A guard decodes the one instruction, rebuilds it with the SDK's own
  builders and compares the two account by account and byte by byte. A \<open>Transaction\<close> of web3.js is a record; its
  keys are bytes and \<open>toBase58\<close> is the field \<open>to_base58\<close> of \<open>W\<close>. The category numbers of a set of rules are
  integers. The properties say what an accepted transaction can do.
\<close>

section \<open>Transactions\<close>

record TxKey =
  tk_pubkey :: bytes
  tk_isSigner :: bool
  tk_isWritable :: bool

record TransactionInstruction =
  ti_programId :: bytes
  ti_keys :: "TxKey list"
  ti_data :: bytes

record Transaction =
  tx_feePayer :: "bytes option"
  tx_instructions :: "TransactionInstruction list"
  tx_signatures :: "(bytes \<times> bytes option) list"

definition MAX_PREFUND_LAMPORTS :: int where "MAX_PREFUND_LAMPORTS = 5000000"
definition MAX_ESCROW_TOP_UP_LAMPORTS :: int where "MAX_ESCROW_TOP_UP_LAMPORTS = 20000000"
definition TOP_UP_DISCRIMINATOR :: int where "TOP_UP_DISCRIMINATOR = 9"
definition ESCROW_INDEX :: byte where "ESCROW_INDEX = 255"

definition SETUP_REFUSED :: string where
  "SETUP_REFUSED = ''ChainPay sent a card setup step that does something other than set up this card, so it wasn't signed.''"
definition RESTORE_MISMATCH :: string where
  "RESTORE_MISMATCH = ''The restore ChainPay prepared doesn't match the numbers you reviewed, so it wasn't signed.''"

definition same_key :: "web3 \<Rightarrow> address \<Rightarrow> TxKey \<Rightarrow> AccountMeta \<Rightarrow> bool" where
  "same_key W owner got key \<longleftrightarrow> to_base58 W (tk_pubkey got) = meta_address key \<and> tk_isSigner got = isSigner key \<and>
     (meta_address key = owner \<or> tk_isWritable got = isWritable key)"

definition sameInstruction :: "web3 \<Rightarrow> TransactionInstruction \<Rightarrow> ChainPayInstruction \<Rightarrow> address \<Rightarrow> bool" where
  "sameInstruction W actual want owner \<longleftrightarrow>
     to_base58 W (ti_programId actual) = ix_programId want \<and> length (ti_keys actual) = length (ix_keys want) \<and>
     list_all2 (same_key W owner) (ti_keys actual) (ix_keys want) \<and> ti_data actual = ix_data want"

definition onlyInstruction :: "web3 \<Rightarrow> Transaction \<Rightarrow> address \<Rightarrow> string \<Rightarrow> TransactionInstruction result" where
  "onlyInstruction W transaction owner refused =
     (if (case tx_feePayer transaction of None \<Rightarrow> True | Some p \<Rightarrow> to_base58 W p \<noteq> owner) then Inl refused
      else if length (tx_instructions transaction) \<noteq> 1 then Inl refused
      else if list_ex (\<lambda>(key, sig). to_base58 W key \<noteq> owner \<and> sig = None) (tx_signatures transaction) then Inl refused
      else Inr (hd (tx_instructions transaction)))"

section \<open>Card setup\<close>

record CardAccountsView =
  av_binding :: address
  av_policy :: address
  av_period :: address
  av_commitment :: address
  av_escrow :: address

record PreparedCard =
  pc_cardId :: string
  pc_accounts :: "CardAccountsView option"
  pc_teeValidator :: address
  pc_prefundLamports :: string

definition refuse_errors :: "string \<Rightarrow> 'a result \<Rightarrow> 'a result" where
  "refuse_errors msg m = (case m of Inl e \<Rightarrow> Inl msg | Inr x \<Rightarrow> Inr x)"

definition CARD_ISSUERS :: "jsnum list" where "CARD_ISSUERS = [NInt 1, NInt 2]"

text \<open>What steps 0 and 1 must be: the instruction this SDK builds from the decoded arguments.\<close>

definition wanted_setup :: "web3 \<Rightarrow> nat \<Rightarrow> address \<Rightarrow> bytes \<Rightarrow> PreparedCard \<Rightarrow> address \<Rightarrow> CardInstruction \<Rightarrow> ChainPayInstruction result" where
  "wanted_setup W step owner cardId prepared programId decoded =
     (if step = 0 then
        (case decoded of
           InitCard decodedId issuer refHash prefundLamports \<Rightarrow>
             if bytesToHex decodedId \<noteq> bytesToHex cardId \<or> issuer \<notin> set CARD_ISSUERS then Inl ''wrong''
             else if prefundLamports > MAX_PREFUND_LAMPORTS \<or> int_dec prefundLamports \<noteq> pc_prefundLamports prepared then Inl ''wrong''
             else buildInitCardInstruction W owner cardId issuer refHash prefundLamports (Some programId)
         | _ \<Rightarrow> Inl ''wrong'')
      else
        (case decoded of
           DelegateCard validator \<Rightarrow>
             if validator \<noteq> pc_teeValidator prepared then Inl ''wrong''
             else buildDelegateCardInstruction W owner cardId validator (Some programId)
         | _ \<Rightarrow> Inl ''wrong''))"

definition top_up_escrow :: "address \<Rightarrow> CardAccountSet \<Rightarrow> bytes \<Rightarrow> ChainPayInstruction" where
  "top_up_escrow owner accounts data =
     \<lparr>ix_name = ''top_up_escrow'', ix_programId = DELEGATION_PROGRAM_ID,
      ix_keys = [\<lparr>meta_address = owner, isSigner = True, isWritable = True\<rparr>,
        \<lparr>meta_address = ac_policy accounts, isSigner = False, isWritable = False\<rparr>,
        \<lparr>meta_address = ac_escrow accounts, isSigner = False, isWritable = True\<rparr>,
        \<lparr>meta_address = SYSTEM_PROGRAM_ID, isSigner = False, isWritable = False\<rparr>],
      ix_data = data\<rparr>"

definition served_accounts :: "CardAccountSet \<Rightarrow> CardAccountsView option \<Rightarrow> bool" where
  "served_accounts accounts served = (case served of None \<Rightarrow> False | Some s \<Rightarrow>
     av_binding s = ac_binding accounts \<and> av_policy s = ac_policy accounts \<and> av_period s = ac_period accounts \<and>
     av_commitment s = ac_commitment accounts \<and> av_escrow s = ac_escrow accounts)"

definition assertCardSetupTransaction ::
  "web3 \<Rightarrow> Transaction \<Rightarrow> nat \<Rightarrow> address \<Rightarrow> PreparedCard \<Rightarrow> address \<Rightarrow> unit result" where
  "assertCardSetupTransaction W transaction step owner prepared programId =
     bindR (onlyInstruction W transaction owner SETUP_REFUSED) (\<lambda>only.
     bindR (refuse_errors SETUP_REFUSED (cardIdFromHex (pc_cardId prepared))) (\<lambda>cardId.
     bindR (deriveCardAccounts W owner cardId (Some programId)) (\<lambda>accounts.
     bindR (require (served_accounts accounts (pc_accounts prepared)) SETUP_REFUSED) (\<lambda>_.
     if step = 0 \<or> step = 1 then
       bindR (refuse_errors SETUP_REFUSED (decodeCardInstructionData W (ti_data only))) (\<lambda>decoded.
       bindR (refuse_errors SETUP_REFUSED (wanted_setup W step owner cardId prepared programId decoded)) (\<lambda>want.
       require (sameInstruction W only want owner) SETUP_REFUSED))
     else if step = 2 then
       let data = ti_data only in
       bindR (require (to_base58 W (ti_programId only) = DELEGATION_PROGRAM_ID \<and> length data = 17) SETUP_REFUSED) (\<lambda>_.
       let lamports = le_val (slice data 8 8) in
       bindR (require (le_val (slice data 0 8) = TOP_UP_DISCRIMINATOR \<and> data ! 16 = ESCROW_INDEX \<and> lamports > 0
         \<and> lamports \<le> MAX_ESCROW_TOP_UP_LAMPORTS) SETUP_REFUSED) (\<lambda>_.
       require (sameInstruction W only (top_up_escrow owner accounts data) owner) SETUP_REFUSED))
     else Inl SETUP_REFUSED))))"

section \<open>Restore\<close>

record RecoveryNumber =
  rn_key :: string
  rn_cents :: "string option"
  rn_count :: "jsnum option"

record RecoveryRules =
  rr_maxPurchaseCents :: string
  rr_maxPurchasesPerPeriod :: jsnum
  rr_periodSeconds :: jsnum
  rr_currency :: string
  rr_merchantIdHashes :: "string list"
  rr_mccs :: "int list"
  rr_expiresAt :: string
  rr_recurringAllowed :: bool
  rr_feeBps :: jsnum
  rr_authorizer :: address
  rr_periodIndex :: "jsnum option"

record RecoveryReport =
  rp_digest :: string
  rp_snapshotLedgerSeq :: string
  rp_numbers :: "RecoveryNumber list"
  rp_rules :: "RecoveryRules option"

definition RECOVERY_NUMBER_KEYS :: "string list" where
  "RECOVERY_NUMBER_KEYS = [''budget'', ''captured'', ''reserved'', ''refunded'', ''purchases'', ''exceptions'', ''outstanding'']"

text \<open>\<open>String(n)\<close>\<close>

definition num_string :: "jsnum \<Rightarrow> string" where
  "num_string n = (case n of NInt v \<Rightarrow> int_dec v | NonInt t \<Rightarrow> t)"

text \<open>The \<open>Map\<close> of the rows: a later row with the same key replaces an earlier one.\<close>

definition shown_number :: "RecoveryReport \<Rightarrow> string \<Rightarrow> string option" where
  "shown_number report key = Option.bind
     (map_of (rev (map (\<lambda>row. (rn_key row, case rn_cents row of Some c \<Rightarrow> Some c | None \<Rightarrow> map_option num_string (rn_count row)))
       (rp_numbers report))) key) (\<lambda>v. v)"

definition signed_numbers :: "RestoreArgs \<Rightarrow> (string \<times> string) list" where
  "signed_numbers args =
     [(''budget'', int_dec (pa_budgetCents (ra_policy args))), (''captured'', int_dec (ra_capturedCents args)),
      (''reserved'', int_dec (ra_reservedCents args)), (''refunded'', int_dec (ra_refundedCents args)),
      (''purchases'', num_string (ra_purchasesCount args)), (''exceptions'', int_dec (ra_exceptionCents args)),
      (''outstanding'', int_dec (ra_statementOutstandingCents args))]"

definition assertRestoreMatchesReport :: "RestoreArgs \<Rightarrow> RecoveryReport \<Rightarrow> unit result" where
  "assertRestoreMatchesReport args report =
     require (list_all (\<lambda>key. shown_number report key = map_of (signed_numbers args) key) RECOVERY_NUMBER_KEYS) RESTORE_MISMATCH"

text \<open>The fields of \<open>CardPolicyView\<close> that the rules come from.\<close>

record CardPolicyView =
  vw_maxPurchaseCents :: string
  vw_maxPurchasesPerPeriod :: jsnum
  vw_periodSeconds :: jsnum
  vw_currency :: string
  vw_merchantIdHashes :: "string list"
  vw_mccs :: "int list"
  vw_expiresAt :: "string option"
  vw_recurringAllowed :: bool
  vw_feeBps :: jsnum
  vw_authorizer :: address

definition rules_expiry :: "dates \<Rightarrow> string option \<Rightarrow> string" where
  "rules_expiry D expiresAt = (case expiresAt of
     None \<Rightarrow> ''0''
   | Some t \<Rightarrow> if starts_with t ''unix:'' then drop 5 t
              else (case date_of D (jstr t) of Some ms \<Rightarrow> int_dec (ms div 1000) | None \<Rightarrow> ''NaN''))"

definition rulesFromPolicy :: "dates \<Rightarrow> CardPolicyView \<Rightarrow> jsnum option \<Rightarrow> RecoveryRules" where
  "rulesFromPolicy D policy periodIndex =
     \<lparr>rr_maxPurchaseCents = vw_maxPurchaseCents policy, rr_maxPurchasesPerPeriod = vw_maxPurchasesPerPeriod policy,
      rr_periodSeconds = vw_periodSeconds policy, rr_currency = vw_currency policy,
      rr_merchantIdHashes = vw_merchantIdHashes policy, rr_mccs = vw_mccs policy,
      rr_expiresAt = rules_expiry D (vw_expiresAt policy), rr_recurringAllowed = vw_recurringAllowed policy,
      rr_feeBps = vw_feeBps policy, rr_authorizer = vw_authorizer policy, rr_periodIndex = periodIndex\<rparr>"

definition sortedHex :: "string list \<Rightarrow> string" where
  "sortedHex values = join_with '','' (sort (map (map ascii_lower) values))"

definition sortedNumbers :: "int list \<Rightarrow> string" where
  "sortedNumbers values = join_with '','' (map int_dec (sort values))"

definition rulesDifferences :: "RecoveryRules \<Rightarrow> RecoveryRules \<Rightarrow> string list" where
  "rulesDifferences a b =
     problem (rr_maxPurchaseCents a \<noteq> rr_maxPurchaseCents b) ''max per purchase''
     @ problem (rr_maxPurchasesPerPeriod a \<noteq> rr_maxPurchasesPerPeriod b) ''purchases per period''
     @ problem (rr_periodSeconds a \<noteq> rr_periodSeconds b) ''period length''
     @ problem (rr_currency a \<noteq> rr_currency b) ''currency''
     @ problem (length (rr_merchantIdHashes a) \<noteq> length (rr_merchantIdHashes b)
         \<or> sortedHex (rr_merchantIdHashes a) \<noteq> sortedHex (rr_merchantIdHashes b)) ''shops''
     @ problem (length (rr_mccs a) \<noteq> length (rr_mccs b) \<or> sortedNumbers (rr_mccs a) \<noteq> sortedNumbers (rr_mccs b)) ''categories''
     @ problem (rr_expiresAt a \<noteq> rr_expiresAt b) ''end date''
     @ problem (rr_recurringAllowed a \<noteq> rr_recurringAllowed b) ''repeat charges''
     @ problem (rr_feeBps a \<noteq> rr_feeBps b) ''fee''
     @ problem (rr_authorizer a \<noteq> rr_authorizer b) ''ChainPay approver''"

record ReviewedRestore =
  rv_rules :: RecoveryRules
  rv_periodIndex :: jsnum

definition reviewedRestore :: "dates \<Rightarrow> RecoveryReport \<Rightarrow> CardPolicyView option \<Rightarrow> jsnum option \<Rightarrow> ReviewedRestore result" where
  "reviewedRestore D report policy period =
     (let mine = map_option (\<lambda>p. rulesFromPolicy D p period) policy; theirs = rp_rules report;
          differs = (case (mine, theirs) of (Some m, Some t) \<Rightarrow> rulesDifferences m t | _ \<Rightarrow> []) in
      if differs \<noteq> [] then Inl (''ChainPay's report shows different card rules than your private records ('' @ join_with '', '' differs @ ''), so nothing was signed.'')
      else case (if mine = None then theirs else mine) of
        None \<Rightarrow> Inl ''ChainPay's report doesn't show this card's rules and your private records can't be read, so the restore can't be checked. Nothing was signed.''
      | Some rules \<Rightarrow>
          (let fromReport = Option.bind theirs rr_periodIndex in
           case (if fromReport = None then Option.bind mine rr_periodIndex else fromReport) of
             None \<Rightarrow> Inl ''ChainPay's report doesn't say which period it restores, so nothing was signed.''
           | Some periodIndex \<Rightarrow> Inr \<lparr>rv_rules = rules, rv_periodIndex = periodIndex\<rparr>))"

definition signed_rules :: "RestoreArgs \<Rightarrow> RecoveryRules" where
  "signed_rules args =
     (let p = ra_policy args in
      \<lparr>rr_maxPurchaseCents = int_dec (pa_maxPurchaseCents p), rr_maxPurchasesPerPeriod = pa_maxPurchasesPerPeriod p,
       rr_periodSeconds = pa_periodSeconds p, rr_currency = pa_currency p,
       rr_merchantIdHashes = map bytesToHex (pa_merchantIdHashes p), rr_mccs = map num_val (pa_mccs p),
       rr_expiresAt = int_dec (pa_expiresAt p), rr_recurringAllowed = pa_recurringAllowed p, rr_feeBps = pa_feeBps p,
       rr_authorizer = pa_authorizer p, rr_periodIndex = None\<rparr>)"

definition assertCoSignedRestore ::
  "web3 \<Rightarrow> Transaction \<Rightarrow> address \<Rightarrow> bytes \<Rightarrow> address \<Rightarrow> RecoveryReport \<Rightarrow> ReviewedRestore \<Rightarrow> RestoreArgs result" where
  "assertCoSignedRestore W transaction owner cardId programId report reviewed =
     bindR (require (length (tx_instructions transaction) = 1) RESTORE_MISMATCH) (\<lambda>_.
     let only = hd (tx_instructions transaction) in
     bindR (publicKey W programId) (\<lambda>program.
     bindR (require (ti_programId only = program) RESTORE_MISMATCH) (\<lambda>_.
     bindR (require (case tx_feePayer transaction of None \<Rightarrow> False | Some p \<Rightarrow> to_base58 W p = owner) RESTORE_MISMATCH) (\<lambda>_.
     bindR (refuse_errors RESTORE_MISMATCH (decodeCardInstructionData W (ti_data only))) (\<lambda>decoded.
     case decoded of
       Restore args \<Rightarrow>
         bindR (require (bytesToHex (ra_reconDigest args) = rp_digest report) RESTORE_MISMATCH) (\<lambda>_.
         bindR (assertRestoreMatchesReport args report) (\<lambda>_.
         let rules = rv_rules reviewed;
             differs = rulesDifferences (signed_rules args) rules @ problem (ra_periodIndex args \<noteq> rv_periodIndex reviewed) ''period'' in
         bindR (require (differs = []) (''The restore ChainPay prepared changes '' @ join_with '', '' differs
           @ '', which you didn't review, so it wasn't signed.'')) (\<lambda>_.
         bindR (fetch (to_bigint (rp_snapshotLedgerSeq report)) RESTORE_MISMATCH) (\<lambda>snapshotSeq.
         bindR (require (ra_ledgerSeq args \<ge> snapshotSeq) RESTORE_MISMATCH) (\<lambda>_.
         bindR (fetch (map_option (\<lambda>k. to_base58 W (tk_pubkey k)) (nth_opt (ti_keys only) 1)) RESTORE_MISMATCH) (\<lambda>authorizer.
         bindR (require (authorizer \<noteq> [] \<and> authorizer \<noteq> owner \<and> authorizer = rr_authorizer rules
           \<and> pa_authorizer (ra_policy args) = rr_authorizer rules) RESTORE_MISMATCH) (\<lambda>_.
         bindR (buildRestoreInstruction W owner cardId authorizer args (Some programId)) (\<lambda>want.
         bindR (require (sameInstruction W only want owner) RESTORE_MISMATCH) (\<lambda>_.
         bindR (require (list_ex (\<lambda>(key, sig). to_base58 W key = authorizer \<and> sig \<noteq> None) (tx_signatures transaction))
           ''ChainPay's half of the restore isn't signed yet, so it wasn't signed.'') (\<lambda>_.
         Inr args))))))))))
     | _ \<Rightarrow> Inl RESTORE_MISMATCH)))))"


section \<open>What the matched instruction may touch\<close>

text \<open>
  The accounts of one card: its derived accounts, and the delegation accounts of its policy and period. An
  instruction is confined to a card when the owner is its only signer and it writes to nothing but the owner's own
  account and these.
\<close>

definition own_account :: "web3 \<Rightarrow> address \<Rightarrow> CardAccountSet \<Rightarrow> address \<Rightarrow> bool" where
  "own_account W programId a x \<longleftrightarrow>
     x \<in> {ac_binding a, ac_policy a, ac_period a, ac_commitment a, ac_escrow a} \<or>
     list_ex (\<lambda>account. deriveDelegationBufferAddress W account (Some programId) = Inr x \<or>
       deriveDelegationRecordAddress W account = Inr x \<or> deriveDelegationMetadataAddress W account = Inr x)
       [ac_policy a, ac_period a]"

text \<open>The accounts of an instruction, in order.\<close>

definition key_texts :: "web3 \<Rightarrow> TransactionInstruction \<Rightarrow> address list" where
  "key_texts W ix = map (\<lambda>k. to_base58 W (tk_pubkey k)) (ti_keys ix)"

text \<open>The four accounts by which one account of the card is delegated.\<close>

definition delegation_keys :: "web3 \<Rightarrow> address \<Rightarrow> address \<Rightarrow> address list \<Rightarrow> bool" where
  "delegation_keys W programId account keys \<longleftrightarrow>
     (\<exists>buffer rec metadata. deriveDelegationBufferAddress W account (Some programId) = Inr buffer \<and>
        deriveDelegationRecordAddress W account = Inr rec \<and> deriveDelegationMetadataAddress W account = Inr metadata \<and>
        keys = [buffer, rec, metadata, account])"

definition confined :: "web3 \<Rightarrow> address \<Rightarrow> address \<Rightarrow> CardAccountSet \<Rightarrow> TransactionInstruction \<Rightarrow> bool" where
  "confined W owner programId a ix \<longleftrightarrow>
     map (\<lambda>k. to_base58 W (tk_pubkey k)) (filter tk_isSigner (ti_keys ix)) = [owner] \<and>
     list_all (\<lambda>k. tk_isWritable k \<longrightarrow> to_base58 W (tk_pubkey k) = owner \<or> own_account W programId a (to_base58 W (tk_pubkey k))) (ti_keys ix)"

definition writes_only :: "(address \<Rightarrow> bool) \<Rightarrow> ChainPayInstruction \<Rightarrow> bool" where
  "writes_only P ix \<longleftrightarrow> list_all (\<lambda>m. isWritable m \<longrightarrow> P (meta_address m)) (ix_keys ix)"

lemma same_signers:
  assumes "list_all2 (same_key W owner) got want"
  shows "map (\<lambda>k. to_base58 W (tk_pubkey k)) (filter tk_isSigner got) = map meta_address (filter isSigner want)"
  using assms by (induction rule: list_all2_induct) (auto simp: same_key_def)

lemma same_writes:
  assumes "list_all2 (same_key W owner) got want" and "list_all (\<lambda>m. isWritable m \<longrightarrow> P (meta_address m)) want" and "P owner"
  shows "list_all (\<lambda>k. tk_isWritable k \<longrightarrow> P (to_base58 W (tk_pubkey k))) got"
  using assms(1,2) by (induction rule: list_all2_induct) (use assms(3) in \<open>auto simp: same_key_def\<close>)

lemma same_texts:
  assumes "sameInstruction W ix want owner"
  shows "key_texts W ix = map meta_address (ix_keys want)"
proof -
  have "map (\<lambda>k. to_base58 W (tk_pubkey k)) got = map meta_address metas" if "list_all2 (same_key W owner) got metas" for got metas
    using that by (induction rule: list_all2_induct) (auto simp: same_key_def)
  then show ?thesis using assms by (simp add: sameInstruction_def key_texts_def)
qed

lemma confinedI:
  assumes "sameInstruction W ix want owner" and "signers want = [owner]"
    and "writes_only (\<lambda>x. x = owner \<or> own_account W programId a x) want"
  shows "confined W owner programId a ix"
  using assms same_signers [of W owner "ti_keys ix" "ix_keys want"]
    same_writes [of W owner "ti_keys ix" "ix_keys want" "\<lambda>x. x = owner \<or> own_account W programId a x"]
  by (simp add: confined_def sameInstruction_def signers_def writes_only_def)

lemma card_pda_canonical: "web3_ok W \<Longrightarrow> card_pda W seeds pid = Inr a \<Longrightarrow> address W a = Inr a"
  by (auto simp: card_pda_def result_simps intro: pda_canonical)

lemma card_accounts_canonical:
  assumes "web3_ok W" and "deriveCardAccounts W owner cardId pid = Inr a"
  shows "address W (ac_binding a) = Inr (ac_binding a)" "address W (ac_policy a) = Inr (ac_policy a)"
    "address W (ac_period a) = Inr (ac_period a)" "address W (ac_commitment a) = Inr (ac_commitment a)"
    "address W (ac_escrow a) = Inr (ac_escrow a)"
  using assms
  by (auto simp: deriveCardAccounts_def result_simps deriveCardBindingAddress_def deriveCardPolicyAddress_def
      deriveCardPeriodAddress_def deriveCardCommitmentAddress_def deriveCardEscrowAddress_def split: if_splits
      intro: card_pda_canonical pda_canonical)

lemma delegation_canonical:
  assumes "web3_ok W"
  shows "deriveDelegationBufferAddress W account pid = Inr x \<Longrightarrow> address W x = Inr x"
    "deriveDelegationRecordAddress W account = Inr x \<Longrightarrow> address W x = Inr x"
    "deriveDelegationMetadataAddress W account = Inr x \<Longrightarrow> address W x = Inr x"
  using assms by (auto simp: deriveDelegationBufferAddress_def deriveDelegationRecordAddress_def
      deriveDelegationMetadataAddress_def intro: card_pda_canonical pda_canonical)

lemma system_canonical: "web3_ok W \<Longrightarrow> address W SYSTEM_PROGRAM_ID = Inr SYSTEM_PROGRAM_ID"
  using address_base58 [of W "replicate 32 0"] by (simp add: base58_default)

text \<open>An instruction that equals a built one calls the card's program with the built data.\<close>

lemma same_as_built:
  assumes "build W snake pid keys ix = Inr want" and "resolveCardPolicyProgramId pid = Inr q"
    and "sameInstruction W only want owner"
  shows "address W q = Inr (to_base58 W (ti_programId only))" and "encodeCardInstructionData W ix = Inr (ti_data only)"
    and "mapR (\<lambda>k. k) keys = Inr (ix_keys want)"
  using assms by (auto simp: build_eq_Inr sameInstruction_def)

lemma init_card_confined:
  assumes W: "web3_ok W" and owner: "address W owner = Inr owner"
    and a: "deriveCardAccounts W owner cardId (Some pid) = Inr a"
    and built: "buildInitCardInstruction W owner cardId issuer h lamports (Some pid) = Inr want"
  shows "signers want = [owner] \<and> writes_only (\<lambda>x. x = owner \<or> own_account W q a x) want"
  using built card_accounts_canonical [OF W a] owner
  by (auto simp: buildInitCardInstruction_def a build_eq_Inr result_simps meta_eq_Inr signers_def writes_only_def own_account_def)

lemma delegated_keys:
  assumes W: "web3_ok W" and "address W account = Inr account" and "mapR (\<lambda>k. k) (delegated W pid account) = Inr ks"
  shows "filter isSigner ks = [] \<and> list_all (\<lambda>m. meta_address m = account \<or>
    deriveDelegationBufferAddress W account (Some pid) = Inr (meta_address m) \<or>
    deriveDelegationRecordAddress W account = Inr (meta_address m) \<or>
    deriveDelegationMetadataAddress W account = Inr (meta_address m)) ks"
  using assms(2,3) delegation_canonical [OF W]
  by (auto simp: delegated_def result_simps meta_eq_Inr)

lemma delegate_card_confined:
  assumes W: "web3_ok W" and owner: "address W owner = Inr owner"
    and pid: "resolveCardPolicyProgramId (Some pid) = Inr q"
    and a: "deriveCardAccounts W owner cardId (Some q) = Inr a"
    and built: "buildDelegateCardInstruction W owner cardId validator (Some pid) = Inr want"
  shows "signers want = [owner] \<and> writes_only (\<lambda>x. x = owner \<or> own_account W q a x) want \<and> validator \<in> set TEE_VALIDATOR_ALLOWLIST"
proof -
  note c = card_accounts_canonical [OF W a]
  from built have "mapR (\<lambda>k. k) ([meta W owner True True, meta W (ac_binding a) False False]
      @ delegated W q (ac_policy a) @ delegated W q (ac_period a)
      @ [meta W q False False, meta W DELEGATION_PROGRAM_ID False False, meta W SYSTEM_PROGRAM_ID False False]) = Inr (ix_keys want)"
    and v: "validator \<in> set TEE_VALIDATOR_ALLOWLIST"
    by (auto simp: buildDelegateCardInstruction_def pid a build_eq_Inr result_simps simp del: mapR.simps)
  then obtain k1 k2 k3 k4 where
    k: "mapR (\<lambda>k. k) [meta W owner True True, meta W (ac_binding a) False False] = Inr k1"
      "mapR (\<lambda>k. k) (delegated W q (ac_policy a)) = Inr k2" "mapR (\<lambda>k. k) (delegated W q (ac_period a)) = Inr k3"
      "mapR (\<lambda>k. k) [meta W q False False, meta W DELEGATION_PROGRAM_ID False False, meta W SYSTEM_PROGRAM_ID False False] = Inr k4"
    and keys: "ix_keys want = k1 @ k2 @ k3 @ k4"
    unfolding mapR_append bindR_eq_Inr by metis
  have "map meta_address (filter isSigner k1) = [owner]" "list_all (\<lambda>m. isWritable m \<longrightarrow> meta_address m = owner) k1"
    "filter isSigner k4 = []" "list_all (\<lambda>m. \<not> isWritable m) k4"
    using k(1,4) owner c(1) by (auto simp: result_simps meta_eq_Inr)
  moreover note delegated_keys [OF W c(2) k(2)] delegated_keys [OF W c(3) k(3)]
  ultimately show ?thesis using v keys
    by (auto simp: signers_def writes_only_def own_account_def list_all_iff)
qed

lemma init_card_exact:
  assumes W: "web3_ok W" and owner: "address W owner = Inr owner"
    and q: "resolveCardPolicyProgramId (Some pid) = Inr q" and a: "deriveCardAccounts W owner cardId (Some pid) = Inr a"
    and built: "buildInitCardInstruction W owner cardId issuer h lamports (Some pid) = Inr want"
    and same: "sameInstruction W only want owner"
  shows "address W q = Inr (to_base58 W (ti_programId only)) \<and>
    encodeCardInstructionData W (InitCard cardId issuer h lamports) = Inr (ti_data only) \<and>
    key_texts W only = [owner, ac_binding a, ac_policy a, ac_period a, ac_commitment a, SYSTEM_PROGRAM_ID]"
proof -
  from built have "build W ''init_card'' (Some pid)
      [meta W owner True True, meta W (ac_binding a) True False, meta W (ac_policy a) True False, meta W (ac_period a) True False,
       meta W (ac_commitment a) True False, meta W SYSTEM_PROGRAM_ID False False] (InitCard cardId issuer h lamports) = Inr want"
    by (simp add: buildInitCardInstruction_def a)
  note b = same_as_built [OF this q same]
  from b(3) have "map meta_address (ix_keys want) =
      [owner, ac_binding a, ac_policy a, ac_period a, ac_commitment a, SYSTEM_PROGRAM_ID]"
    using card_accounts_canonical [OF W a] owner system_canonical [OF W]
    by (auto simp: result_simps meta_eq_Inr dest!: sym [of _ "ix_keys want"])
  with b(1,2) same_texts [OF same] show ?thesis by simp
qed

lemma delegated_texts:
  assumes W: "web3_ok W" and "address W account = Inr account" and "mapR (\<lambda>k. k) (delegated W pid account) = Inr ks"
  shows "delegation_keys W pid account (map meta_address ks)"
  using assms(2,3) delegation_canonical [OF W]
  by (fastforce simp: delegated_def delegation_keys_def result_simps meta_eq_Inr)

lemma delegate_card_exact:
  assumes W: "web3_ok W" and owner: "address W owner = Inr owner"
    and q: "resolveCardPolicyProgramId (Some pid) = Inr q" "resolveCardPolicyProgramId (Some q) = Inr q"
    and a: "deriveCardAccounts W owner cardId (Some q) = Inr a"
    and built: "buildDelegateCardInstruction W owner cardId validator (Some pid) = Inr want"
    and same: "sameInstruction W only want owner"
  shows "address W q = Inr (to_base58 W (ti_programId only)) \<and>
    encodeCardInstructionData W (DelegateCard validator) = Inr (ti_data only) \<and>
    (\<exists>policy_keys period_keys delegation. delegation_keys W q (ac_policy a) policy_keys \<and>
       delegation_keys W q (ac_period a) period_keys \<and> address W DELEGATION_PROGRAM_ID = Inr delegation \<and>
       key_texts W only = [owner, ac_binding a] @ policy_keys @ period_keys
         @ [to_base58 W (ti_programId only), delegation, SYSTEM_PROGRAM_ID])"
proof -
  note c = card_accounts_canonical [OF W a]
  from built have "build W ''delegate_card'' (Some q)
       ([meta W owner True True, meta W (ac_binding a) False False]
        @ delegated W q (ac_policy a) @ delegated W q (ac_period a)
        @ [meta W q False False, meta W DELEGATION_PROGRAM_ID False False, meta W SYSTEM_PROGRAM_ID False False])
       (DelegateCard validator) = Inr want"
    by (auto simp: buildDelegateCardInstruction_def q(1) a result_simps)
  note b = same_as_built [OF this q(2) same]
  from b(3) obtain k1 k2 k3 k4 where
    k: "mapR (\<lambda>k. k) [meta W owner True True, meta W (ac_binding a) False False] = Inr k1"
      "mapR (\<lambda>k. k) (delegated W q (ac_policy a)) = Inr k2" "mapR (\<lambda>k. k) (delegated W q (ac_period a)) = Inr k3"
      "mapR (\<lambda>k. k) [meta W q False False, meta W DELEGATION_PROGRAM_ID False False, meta W SYSTEM_PROGRAM_ID False False] = Inr k4"
    and keys: "ix_keys want = k1 @ k2 @ k3 @ k4"
    unfolding mapR_append bindR_eq_Inr by metis
  have "map meta_address k1 = [owner, ac_binding a]" using k(1) owner c(1) by (auto simp: result_simps meta_eq_Inr)
  moreover obtain delegation where "address W DELEGATION_PROGRAM_ID = Inr delegation"
    "map meta_address k4 = [to_base58 W (ti_programId only), delegation, SYSTEM_PROGRAM_ID]"
    using k(4) b(1) system_canonical [OF W] by (auto simp: result_simps meta_eq_Inr)
  moreover note delegated_texts [OF W c(2) k(2)] delegated_texts [OF W c(3) k(3)]
  ultimately show ?thesis using b(1,2) same_texts [OF same] keys by auto
qed

text \<open>The seventeen bytes of a top-up: discriminator, lamports, escrow index.\<close>

lemma top_up_bytes:
  assumes "length d = 17" and "le_val (slice d 0 8) = TOP_UP_DISCRIMINATOR" and "d ! 16 = ESCROW_INDEX"
  shows "d = le_bytes 8 TOP_UP_DISCRIMINATOR @ le_bytes 8 (le_val (slice d 8 8)) @ [ESCROW_INDEX]"
proof -
  have "d = slice d 0 8 @ slice d 8 8 @ [d ! 16]"
    using assms(1) by (auto simp: list_eq_iff_nth_eq slice_def nth_append less_Suc_eq numeral_eq_Suc)
  moreover have "le_bytes 8 (le_val (slice d 0 8)) = slice d 0 8" "le_bytes 8 (le_val (slice d 8 8)) = slice d 8 8"
    using assms(1) by (simp_all add: le_bytes_le_val slice_def)
  ultimately show ?thesis using assms(2,3) by simp
qed

lemma top_up_confined: "signers (top_up_escrow owner a data) = [owner] \<and>
    writes_only (\<lambda>x. x = owner \<or> own_account W q a x) (top_up_escrow owner a data)"
  by (simp add: top_up_escrow_def signers_def writes_only_def own_account_def)



lemma resolve_again: "resolveCardPolicyProgramId (Some p) = Inr q \<Longrightarrow> resolveCardPolicyProgramId (Some q) = Inr q"
  by (auto simp: resolveCardPolicyProgramId_def Let_def split: if_splits)

lemma same_program:
  assumes "resolveCardPolicyProgramId p = resolveCardPolicyProgramId q"
  shows "deriveCardAccounts W owner cardId p = deriveCardAccounts W owner cardId q"
proof -
  from assms have "card_pda W seeds p = card_pda W seeds q" for seeds by (simp add: card_pda_def)
  then show ?thesis
    by (simp add: deriveCardAccounts_def deriveCardBindingAddress_def deriveCardPolicyAddress_def deriveCardPeriodAddress_def
        deriveCardCommitmentAddress_def)
qed

lemma accounts_program:
  assumes "deriveCardAccounts W owner cardId (Some programId) = Inr a"
  obtains q where "resolveCardPolicyProgramId (Some programId) = Inr q"
  using assms by (auto simp: deriveCardAccounts_def deriveCardBindingAddress_def card_pda_def result_simps)

lemma only_Inr:
  assumes "onlyInstruction W tx owner refused = Inr only"
  shows "tx_instructions tx = [only]" and "\<exists>p. tx_feePayer tx = Some p \<and> to_base58 W p = owner"
    and "list_all (\<lambda>(key, sig). to_base58 W key = owner \<or> sig \<noteq> None) (tx_signatures tx)"
  using assms by (auto simp: onlyInstruction_def list_ex_iff list_all_iff length_Suc_conv split: if_splits option.splits)

lemma refuse_errors_Inr [simp]: "refuse_errors msg m = Inr x \<longleftrightarrow> m = Inr x"
  by (cases m) (simp_all add: refuse_errors_def)

lemma wanted_init:
  assumes "wanted_setup W 0 owner cardId prepared programId decoded = Inr want"
  obtains issuer h lamports where "decoded = InitCard cardId issuer h lamports" "issuer \<in> set CARD_ISSUERS"
    "lamports \<le> MAX_PREFUND_LAMPORTS" "int_dec lamports = pc_prefundLamports prepared"
    "buildInitCardInstruction W owner cardId issuer h lamports (Some programId) = Inr want"
  using assms by (cases decoded) (auto simp: wanted_setup_def bytesToHex_eq hex_str_inject split: if_splits)

lemma wanted_delegate:
  assumes "wanted_setup W (Suc 0) owner cardId prepared programId decoded = Inr want"
  obtains "decoded = DelegateCard (pc_teeValidator prepared)"
    "buildDelegateCardInstruction W owner cardId (pc_teeValidator prepared) (Some programId) = Inr want"
  using assms by (cases decoded) (auto simp: wanted_setup_def split: if_splits)

text \<open>What each step of the setup does: the program called, its accounts in order, and its data.\<close>

definition setup_effect ::
  "web3 \<Rightarrow> nat \<Rightarrow> address \<Rightarrow> bytes \<Rightarrow> PreparedCard \<Rightarrow> address \<Rightarrow> CardAccountSet \<Rightarrow> TransactionInstruction \<Rightarrow> bool" where
  "setup_effect W step owner cardId prepared q a only \<longleftrightarrow>
     step = 0 \<and> address W q = Inr (to_base58 W (ti_programId only)) \<and>
       key_texts W only = [owner, ac_binding a, ac_policy a, ac_period a, ac_commitment a, SYSTEM_PROGRAM_ID] \<and>
       (\<exists>issuer h lamports. encodeCardInstructionData W (InitCard cardId issuer h lamports) = Inr (ti_data only) \<and>
         decodeCardInstructionData W (ti_data only) = Inr (InitCard cardId issuer h lamports) \<and>
         issuer \<in> set CARD_ISSUERS \<and> lamports \<le> MAX_PREFUND_LAMPORTS \<and> int_dec lamports = pc_prefundLamports prepared) \<or>
     step = 1 \<and> address W q = Inr (to_base58 W (ti_programId only)) \<and>
       (\<exists>policy_keys period_keys delegation. delegation_keys W q (ac_policy a) policy_keys \<and>
         delegation_keys W q (ac_period a) period_keys \<and> address W DELEGATION_PROGRAM_ID = Inr delegation \<and>
         key_texts W only = [owner, ac_binding a] @ policy_keys @ period_keys
           @ [to_base58 W (ti_programId only), delegation, SYSTEM_PROGRAM_ID]) \<and>
       pc_teeValidator prepared \<in> set TEE_VALIDATOR_ALLOWLIST \<and>
       encodeCardInstructionData W (DelegateCard (pc_teeValidator prepared)) = Inr (ti_data only) \<and>
       decodeCardInstructionData W (ti_data only) = Inr (DelegateCard (pc_teeValidator prepared)) \<or>
     step = 2 \<and> to_base58 W (ti_programId only) = DELEGATION_PROGRAM_ID \<and>
       key_texts W only = [owner, ac_policy a, ac_escrow a, SYSTEM_PROGRAM_ID] \<and>
       (\<exists>lamports. 0 < lamports \<and> lamports \<le> MAX_ESCROW_TOP_UP_LAMPORTS \<and>
         ti_data only = le_bytes 8 TOP_UP_DISCRIMINATOR @ le_bytes 8 lamports @ [ESCROW_INDEX])"

lemma init_step:
  assumes W: "web3_ok W" and owner: "address W owner = Inr owner"
    and q: "resolveCardPolicyProgramId (Some programId) = Inr q"
    and a: "deriveCardAccounts W owner cardId (Some programId) = Inr a"
    and d: "decodeCardInstructionData W (ti_data only) = Inr decoded"
    and w: "wanted_setup W 0 owner cardId prepared programId decoded = Inr want" and s: "sameInstruction W only want owner"
  shows "confined W owner q a only \<and> setup_effect W 0 owner cardId prepared q a only"
proof -
  from w obtain issuer h lamports where i: "decoded = InitCard cardId issuer h lamports" "issuer \<in> set CARD_ISSUERS"
      "lamports \<le> MAX_PREFUND_LAMPORTS" "int_dec lamports = pc_prefundLamports prepared" and
    b: "buildInitCardInstruction W owner cardId issuer h lamports (Some programId) = Inr want" by (rule wanted_init)
  from confinedI [OF s] init_card_confined [OF W owner a b] have "confined W owner q a only" by blast
  with d i init_card_exact [OF W owner q a b s] show ?thesis by (simp add: setup_effect_def)
qed

lemma delegate_step:
  assumes W: "web3_ok W" and owner: "address W owner = Inr owner"
    and q: "resolveCardPolicyProgramId (Some programId) = Inr q" and a: "deriveCardAccounts W owner cardId (Some q) = Inr a"
    and d: "decodeCardInstructionData W (ti_data only) = Inr decoded"
    and w: "wanted_setup W (Suc 0) owner cardId prepared programId decoded = Inr want" and s: "sameInstruction W only want owner"
  shows "confined W owner q a only \<and> setup_effect W (Suc 0) owner cardId prepared q a only"
proof -
  from w obtain v: "decoded = DelegateCard (pc_teeValidator prepared)" and
    b: "buildDelegateCardInstruction W owner cardId (pc_teeValidator prepared) (Some programId) = Inr want"
    by (rule wanted_delegate)
  from confinedI [OF s] delegate_card_confined [OF W owner q a b] have
    "confined W owner q a only" "pc_teeValidator prepared \<in> set TEE_VALIDATOR_ALLOWLIST" by blast+
  with d v delegate_card_exact [OF W owner q resolve_again [OF q] a b s] show ?thesis by (simp add: setup_effect_def)
qed

lemma top_up_step:
  assumes s: "sameInstruction W only (top_up_escrow owner a (ti_data only)) owner"
    and d: "length (ti_data only) = 17" "le_val (slice (ti_data only) 0 8) = TOP_UP_DISCRIMINATOR" "ti_data only ! 16 = ESCROW_INDEX"
      "0 < le_val (slice (ti_data only) 8 8)" "le_val (slice (ti_data only) 8 8) \<le> MAX_ESCROW_TOP_UP_LAMPORTS"
  shows "confined W owner q a only \<and> setup_effect W 2 owner cardId prepared q a only"
proof -
  have "to_base58 W (ti_programId only) = DELEGATION_PROGRAM_ID"
    using s by (simp add: sameInstruction_def top_up_escrow_def)
  moreover have "key_texts W only = [owner, ac_policy a, ac_escrow a, SYSTEM_PROGRAM_ID]"
    using same_texts [OF s] by (simp add: top_up_escrow_def)
  ultimately have "setup_effect W 2 owner cardId prepared q a only"
    unfolding setup_effect_def using top_up_bytes [OF d(1-3)] d(4,5) by blast
  with confinedI [OF s] top_up_confined show ?thesis by blast
qed

text \<open>
  C9. The owner's wallet signs only the setup of this card: a transaction that passes
  \<open>assertCardSetupTransaction\<close> consists of one instruction, is paid by the owner and waits for no other signature. The
  owner is the only signer of the instruction, and it writes to the owner's account and accounts derived from this
  card alone. In step 0 it calls the card program with the encoding of \<open>init_card\<close> for this card id and a known
  issuer, with the prepared prefunding of at most 5 000 000 lamports; in step 1 it calls the card program with the
  encoding of \<open>delegate_card\<close> to the prepared validator, an allowed one; in step 2 it calls the delegation program with
  the seventeen bytes of a top-up of at most 20 000 000 lamports into the card's own escrow. In each step the accounts
  are listed in order; no other step passes.
\<close>

theorem setup_guard_sound:
  assumes W: "web3_ok W" and owner: "address W owner = Inr owner"
    and ok: "assertCardSetupTransaction W tx step owner prepared programId = Inr ()"
  shows "\<exists>only cardId accounts q. tx_instructions tx = [only] \<and>
    (\<exists>p. tx_feePayer tx = Some p \<and> to_base58 W p = owner) \<and>
    list_all (\<lambda>(key, sig). to_base58 W key = owner \<or> sig \<noteq> None) (tx_signatures tx) \<and>
    cardIdFromHex (pc_cardId prepared) = Inr cardId \<and> deriveCardAccounts W owner cardId (Some programId) = Inr accounts \<and>
    resolveCardPolicyProgramId (Some programId) = Inr q \<and> confined W owner q accounts only \<and>
    setup_effect W step owner cardId prepared q accounts only"
proof -
  from ok obtain only cardId a where
    only: "onlyInstruction W tx owner SETUP_REFUSED = Inr only" and
    card: "cardIdFromHex (pc_cardId prepared) = Inr cardId" and
    a: "deriveCardAccounts W owner cardId (Some programId) = Inr a"
    by (auto simp: assertCardSetupTransaction_def result_simps)
  note ok' = ok [unfolded assertCardSetupTransaction_def only card a, simplified]
  from a obtain q where q: "resolveCardPolicyProgramId (Some programId) = Inr q" by (rule accounts_program)
  have aq: "deriveCardAccounts W owner cardId (Some q) = Inr a"
    using same_program [of "Some q" "Some programId"] resolve_again [OF q] q a by simp
  consider (init) "step = 0" | (delegate) "step = 1" | (topup) "step = 2"
    using ok' by (auto simp: result_simps split: if_splits)
  then have "confined W owner q a only \<and> setup_effect W step owner cardId prepared q a only"
  proof cases
    case init
    with ok' show ?thesis by (auto simp: result_simps dest: init_step [OF W owner q a])
  next
    case delegate
    with ok' show ?thesis by (auto simp: result_simps dest: delegate_step [OF W owner q aq])
  next
    case topup
    with ok' have "confined W owner q a only \<and> setup_effect W 2 owner cardId prepared q a only"
      by (intro top_up_step) (auto simp: result_simps Let_def a)
    with topup show ?thesis by simp
  qed
  with only_Inr [OF only] card a q show ?thesis by blast
qed

section \<open>The reviewed restore\<close>

text \<open>
  The comma-joined sorted lists are equal only for equal lists: the joined text of \<open>n\<close> comma-free entries has
  \<open>n - 1\<close> commas, so no entry of a list of the same length with the same text has one either.
\<close>

abbreviation comma_free :: "string \<Rightarrow> bool" where
  "comma_free s \<equiv> CHR '','' \<notin> set s"

lemma count_commas: "count_list (join_with '','' xs) (CHR '','') = sum_list (map (\<lambda>x. count_list x (CHR '','')) xs) + (length xs - 1)"
  by (induction "'',''" xs rule: join_with.induct) simp_all

lemma join_comma_inject:
  "list_all comma_free xs \<Longrightarrow> list_all comma_free ys \<Longrightarrow> length xs = length ys \<Longrightarrow>
   join_with '','' xs = join_with '','' ys \<Longrightarrow> xs = ys"
proof (induction "'',''" xs arbitrary: ys rule: join_with.induct)
  case (2 x)
  then show ?case by (cases ys) auto
next
  case (3 x x' xs)
  then obtain y y' ys' where ys: "ys = y # y' # ys'" by (cases ys; cases "tl ys") auto
  have "x = y \<and> join_with '','' (x' # xs) = join_with '','' (y' # ys')"
    using 3(2,3,5) ys by (auto simp: append_eq_append_conv2 append_eq_Cons_conv Cons_eq_append_conv)
  moreover from this have "x' # xs = y' # ys'" using 3(1) [of "y' # ys'"] 3(2-4) ys by simp
  ultimately show ?case using ys by simp
qed simp

lemma join_comma_eq:
  assumes free: "list_all comma_free xs" and len: "length xs = length ys" and same: "join_with '','' xs = join_with '','' ys"
  shows "xs = ys"
proof -
  have "sum_list (map (\<lambda>x. count_list x (CHR '','')) xs) = 0" using free by (auto simp: list_all_iff count_list_0_iff)
  then have "sum_list (map (\<lambda>y. count_list y (CHR '','')) ys) = 0"
    using count_commas [of xs] count_commas [of ys] same len by simp
  then have "list_all comma_free ys" by (auto simp: list_all_iff count_list_0_iff)
  then show ?thesis using join_comma_inject free len same by blast
qed

lemma int_dec_comma_free: "comma_free (int_dec v)"
  using digits_nat_dec by (auto simp: int_dec_def list_all_iff is_digit_def) force+

lemma sortedNumbers_eq:
  assumes "length a = length b" and "sortedNumbers a = sortedNumbers b"
  shows "mset a = mset b"
proof -
  have "map int_dec (sort a) = map int_dec (sort b)"
    using join_comma_eq [of "map int_dec (sort a)" "map int_dec (sort b)"] assms int_dec_comma_free
    by (auto simp: sortedNumbers_def list_all_iff)
  then have "sort a = sort b" by (rule map_inj_on) (auto intro: inj_onI int_dec_inject)
  then show ?thesis by (metis mset_sort)
qed

lemma lower_hex_text:
  assumes "list_all is_lower_hex s"
  shows "map ascii_lower s = s" and "comma_free s"
proof -
  show "map ascii_lower s = s" using assms ascii_lower_hex by (induction s) auto
  show "comma_free s" using assms by (auto simp: list_all_iff is_lower_hex_def is_digit_def)
qed

lemma sortedHex_eq:
  assumes "length hs = length b" and "sortedHex (map bytesToHex hs) = sortedHex b"
  shows "mset (map (map ascii_lower) b) = mset (map bytesToHex hs)"
proof -
  have low: "map (map ascii_lower) (map bytesToHex hs) = map bytesToHex hs"
    using lower_hex_text(1) [OF hex_str_lower] by (simp add: bytesToHex_eq)
  have "list_all comma_free (sort (map bytesToHex hs))"
    using lower_hex_text(2) [OF hex_str_lower] by (auto simp: list_all_iff bytesToHex_eq)
  moreover have "join_with '','' (sort (map bytesToHex hs)) = join_with '','' (sort (map (map ascii_lower) b))"
    using assms(2) unfolding sortedHex_def low .
  ultimately have "sort (map bytesToHex hs) = sort (map (map ascii_lower) b)" using assms(1) by (intro join_comma_eq) simp_all
  then show ?thesis by (metis mset_sort)
qed

text \<open>The rules the owner reviewed are the rules the instruction writes.\<close>

definition rules_shown :: "RecoveryRules \<Rightarrow> PolicyArgs \<Rightarrow> bool" where
  "rules_shown rules p \<longleftrightarrow>
     rr_maxPurchaseCents rules = int_dec (pa_maxPurchaseCents p) \<and> rr_maxPurchasesPerPeriod rules = pa_maxPurchasesPerPeriod p \<and>
     rr_periodSeconds rules = pa_periodSeconds p \<and> rr_currency rules = pa_currency p \<and>
     mset (map (map ascii_lower) (rr_merchantIdHashes rules)) = mset (map bytesToHex (pa_merchantIdHashes p)) \<and>
     mset (rr_mccs rules) = mset (map num_val (pa_mccs p)) \<and> rr_expiresAt rules = int_dec (pa_expiresAt p) \<and>
     rr_recurringAllowed rules = pa_recurringAllowed p \<and> rr_feeBps rules = pa_feeBps p \<and> rr_authorizer rules = pa_authorizer p"

lemma no_differences:
  assumes "rulesDifferences (signed_rules args) rules = []"
  shows "rules_shown rules (ra_policy args)"
  using assms sortedHex_eq [of "pa_merchantIdHashes (ra_policy args)" "rr_merchantIdHashes rules"]
    sortedNumbers_eq [of "map num_val (pa_mccs (ra_policy args))" "rr_mccs rules"]
  by (auto simp: rulesDifferences_def rules_shown_def signed_rules_def Let_def simp del: mset_map)

lemma numbers_shown:
  assumes "assertRestoreMatchesReport args report = Inr ()"
  shows "list_all (\<lambda>(key, shown). shown_number report key = Some shown) (signed_numbers args)"
  using assms by (auto simp: assertRestoreMatchesReport_def RECOVERY_NUMBER_KEYS_def signed_numbers_def result_simps)

lemma restore_keys:
  assumes W: "web3_ok W" and owner: "address W owner = Inr owner" and auth: "address W authorizer = Inr authorizer"
    and a: "deriveCardAccounts W owner cardId pid = Inr a"
    and built: "buildRestoreInstruction W owner cardId authorizer args pid = Inr want"
  shows "signers want = [owner, authorizer] \<and> writes_only (\<lambda>x. x \<in> {owner, ac_policy a, ac_period a}) want"
  using built card_accounts_canonical [OF W a] owner auth
  by (auto simp: buildRestoreInstruction_def a build_eq_Inr result_simps meta_eq_Inr signers_def writes_only_def)


lemma restore_exact:
  assumes W: "web3_ok W" and owner: "address W owner = Inr owner" and auth: "address W authorizer = Inr authorizer"
    and a: "deriveCardAccounts W owner cardId (Some pid) = Inr a" and q: "resolveCardPolicyProgramId (Some pid) = Inr q"
    and built: "buildRestoreInstruction W owner cardId authorizer args (Some pid) = Inr want"
    and same: "sameInstruction W only want owner"
  shows "address W q = Inr (to_base58 W (ti_programId only)) \<and>
    encodeCardInstructionData W (Restore args) = Inr (ti_data only) \<and>
    key_texts W only = [owner, authorizer, ac_policy a, ac_period a]"
proof -
  from built have "build W ''restore'' (Some pid)
      [meta W owner False True, meta W authorizer False True, meta W (ac_policy a) True False, meta W (ac_period a) True False]
      (Restore args) = Inr want"
    by (auto simp: buildRestoreInstruction_def a result_simps)
  note b = same_as_built [OF this q same]
  from b(3) have "map meta_address (ix_keys want) = [owner, authorizer, ac_policy a, ac_period a]"
    using card_accounts_canonical [OF W a] owner auth
    by (auto simp: result_simps meta_eq_Inr dest!: sym [of _ "ix_keys want"])
  with b(1,2) same_texts [OF same] show ?thesis by simp
qed

lemma reviewed_rules:
  assumes "reviewedRestore D report policy period = Inr reviewed"
  shows "(case policy of Some p \<Rightarrow> rulesFromPolicy D p period | None \<Rightarrow> rv_rules reviewed) = rv_rules reviewed"
  using assms by (auto simp: reviewedRestore_def Let_def split: option.splits if_splits)

text \<open>
  The period is the one exception to "the report must agree with the owner's records": the report's period is taken
  without a comparison.
\<close>

lemma reported_period_wins:
  assumes "rp_rules report = Some theirs" and "rr_periodIndex theirs = Some i"
    and "rulesDifferences (rulesFromPolicy D p period) theirs = []"
  shows "reviewedRestore D report (Some p) period = Inr \<lparr>rv_rules = rulesFromPolicy D p period, rv_periodIndex = i\<rparr>"
  using assms by (simp add: reviewedRestore_def)

lemma restore_authorizer:
  assumes built: "buildRestoreInstruction W owner cardId authorizer args pid = Inr want"
    and same: "sameInstruction W ix want owner" and k: "nth_opt (ti_keys ix) 1 = Some k"
  shows "address W authorizer = Inr (to_base58 W (tk_pubkey k))"
proof -
  from built obtain m0 x ms where want: "ix_keys want = m0 # \<lparr>meta_address = x, isSigner = True, isWritable = False\<rparr> # ms"
    and x: "address W authorizer = Inr x"
    by (auto simp: buildRestoreInstruction_def build_eq_Inr result_simps meta_eq_Inr)
  from same want k have "to_base58 W (tk_pubkey k) = x"
    by (auto simp: sameInstruction_def list_all2_Cons2 nth_opt_def same_key_def split: if_splits)
  with x show ?thesis by simp
qed

text \<open>
  C10. The owner's wallet signs only the restore that was reviewed: a transaction that passes
  \<open>assertCoSignedRestore\<close> consists of one instruction and is paid by the owner. The instruction calls the card program, named both by the
  given program id and by the SDK's resolution of it, its data is the encoding of \<open>restore\<close> with the returned
  arguments and decodes to them, and its accounts are the owner, the authorizer, and the policy and period of this card. The digest is the report's, each of the seven numbers the report shows is the number signed, and the
  rules written are the rules of the owner's own records where these could be read, and the reviewed ones
  otherwise, shops and categories as multisets; the period is the reviewed one and the ledger
  has not moved back behind the snapshot. Only the owner and the reviewed authorizer sign, who is not the
  owner and has signed already, and besides the owner's account only the policy and the period of this card are written.
\<close>

theorem restore_guard_sound:
  assumes W: "web3_ok W" and owner: "address W owner = Inr owner"
    and rev: "reviewedRestore D report policy period = Inr reviewed"
    and ok: "assertCoSignedRestore W tx owner cardId programId report reviewed = Inr args"
  shows "\<exists>only accounts authorizer q. tx_instructions tx = [only] \<and>
    (\<exists>p. tx_feePayer tx = Some p \<and> to_base58 W p = owner) \<and>
    publicKey W programId = Inr (ti_programId only) \<and>
    resolveCardPolicyProgramId (Some programId) = Inr q \<and> address W q = Inr (to_base58 W (ti_programId only)) \<and>
    encodeCardInstructionData W (Restore args) = Inr (ti_data only) \<and>
    key_texts W only = [owner, authorizer, ac_policy accounts, ac_period accounts] \<and>
    decodeCardInstructionData W (ti_data only) = Inr (Restore args) \<and>
    bytesToHex (ra_reconDigest args) = rp_digest report \<and>
    list_all (\<lambda>(key, shown). shown_number report key = Some shown) (signed_numbers args) \<and>
    rules_shown (case policy of Some p \<Rightarrow> rulesFromPolicy D p period | None \<Rightarrow> rv_rules reviewed) (ra_policy args) \<and>
    ra_periodIndex args = rv_periodIndex reviewed \<and>
    (\<exists>n \<le> ra_ledgerSeq args. to_bigint (rp_snapshotLedgerSeq report) = Some n) \<and>
    deriveCardAccounts W owner cardId (Some programId) = Inr accounts \<and>
    authorizer = rr_authorizer (rv_rules reviewed) \<and> authorizer \<noteq> owner \<and>
    map (\<lambda>k. to_base58 W (tk_pubkey k)) (filter tk_isSigner (ti_keys only)) = [owner, authorizer] \<and>
    list_ex (\<lambda>(key, sig). to_base58 W key = authorizer \<and> sig \<noteq> None) (tx_signatures tx) \<and>
    list_all (\<lambda>k. tk_isWritable k \<longrightarrow> to_base58 W (tk_pubkey k) \<in> {owner, ac_policy accounts, ac_period accounts}) (ti_keys only)"
proof -
  define only where "only = hd (tx_instructions tx)"
  from ok have len: "length (tx_instructions tx) = 1"
    by (auto simp: assertCoSignedRestore_def result_simps)
  then have one: "tx_instructions tx = [only]" by (auto simp: only_def length_Suc_conv)
  note ok' = ok [unfolded assertCoSignedRestore_def one, simplified, unfolded Let_def]
  from ok' obtain decoded where d: "decodeCardInstructionData W (ti_data only) = Inr decoded" by (auto simp: result_simps)
  have dec: "decoded = Restore args"
    using ok' by (cases decoded) (auto simp: d result_simps)
  from ok' obtain want k where
    program: "publicKey W programId = Inr (ti_programId only)" and
    payer: "\<exists>p. tx_feePayer tx = Some p \<and> to_base58 W p = owner" and
    digest: "bytesToHex (ra_reconDigest args) = rp_digest report" and
    nums: "assertRestoreMatchesReport args report = Inr ()" and
    rules: "rulesDifferences (signed_rules args) (rv_rules reviewed) = []" "ra_periodIndex args = rv_periodIndex reviewed" and
    seq: "\<exists>n \<le> ra_ledgerSeq args. to_bigint (rp_snapshotLedgerSeq report) = Some n" and
    k: "nth_opt (ti_keys only) 1 = Some k" "to_base58 W (tk_pubkey k) = rr_authorizer (rv_rules reviewed)"
      "rr_authorizer (rv_rules reviewed) \<noteq> owner" and
    built: "buildRestoreInstruction W owner cardId (rr_authorizer (rv_rules reviewed)) args (Some programId) = Inr want" and
    same: "sameInstruction W only want owner" and
    sig: "list_ex (\<lambda>(key, sig). to_base58 W key = rr_authorizer (rv_rules reviewed) \<and> sig \<noteq> None) (tx_signatures tx)"
    by (auto simp: d dec result_simps fetch_def split: option.splits)
  from built obtain a where a: "deriveCardAccounts W owner cardId (Some programId) = Inr a"
    by (auto simp: buildRestoreInstruction_def result_simps)
  have shown: "rules_shown (case policy of Some p \<Rightarrow> rulesFromPolicy D p period | None \<Rightarrow> rv_rules reviewed) (ra_policy args)"
    by (subst reviewed_rules [OF rev]) (rule no_differences [OF rules(1)])
  have auth: "address W (rr_authorizer (rv_rules reviewed)) = Inr (rr_authorizer (rv_rules reviewed))"
    using restore_authorizer [OF built same k(1)] k(2) by simp
  from a obtain q where q: "resolveCardPolicyProgramId (Some programId) = Inr q" by (rule accounts_program)
  note exact = restore_exact [OF W owner auth a q built same]
  have s: "signers want = [owner, rr_authorizer (rv_rules reviewed)]"
    and w: "writes_only (\<lambda>x. x \<in> {owner, ac_policy a, ac_period a}) want"
    using restore_keys [OF W owner auth a built] by blast+
  from same have keys: "list_all2 (same_key W owner) (ti_keys only) (ix_keys want)" by (simp add: sameInstruction_def)
  have "map (\<lambda>k. to_base58 W (tk_pubkey k)) (filter tk_isSigner (ti_keys only)) = [owner, rr_authorizer (rv_rules reviewed)]"
    using same_signers [OF keys] s by (simp add: signers_def)
  moreover have "list_all (\<lambda>k. tk_isWritable k \<longrightarrow> to_base58 W (tk_pubkey k) \<in> {owner, ac_policy a, ac_period a}) (ti_keys only)"
    using same_writes [OF keys, of "\<lambda>x. x \<in> {owner, ac_policy a, ac_period a}"] w by (simp add: writes_only_def)
  ultimately show ?thesis
    using d numbers_shown [OF nums] shown
    by (intro exI [of _ only] exI [of _ a] exI [of _ "rr_authorizer (rv_rules reviewed)"] exI [of _ q] conjI)
      (simp_all only: one program q exact payer dec digest rules(2) seq a k(3) sig not_False_eq_True)
qed


section \<open>Examples\<close>

text \<open>A transaction that carries a built instruction.\<close>

lemma meta_on_wire: "meta W a w s = Inr m \<Longrightarrow> \<exists>k. to_base58 W k = meta_address m"
  by (auto simp: meta_eq_Inr address_def result_simps)

lemma metas_on_wire:
  assumes "mapR (\<lambda>k. k) keys = Inr ms" and "list_all (\<lambda>k. \<exists>a w s. k = meta W a w s) keys"
  shows "\<exists>ks. list_all2 (same_key W owner) ks ms"
  using assms
proof (induction keys arbitrary: ms)
  case (Cons key keys)
  then obtain m ms' where ms: "ms = m # ms'" "key = Inr m" "mapR (\<lambda>k. k) keys = Inr ms'" by (auto simp: result_simps)
  with Cons obtain ks where "list_all2 (same_key W owner) ks ms'" by auto
  moreover obtain k where "to_base58 W k = meta_address m" using Cons.prems(2) ms(2) meta_on_wire by auto metis
  then have "same_key W owner \<lparr>tk_pubkey = k, tk_isSigner = isSigner m, tk_isWritable = isWritable m\<rparr> m"
    by (simp add: same_key_def)
  ultimately show ?case using ms(1) by blast
qed simp

lemma built_on_wire:
  assumes "build W snake pid keys ix = Inr want" and "list_all (\<lambda>k. \<exists>a w s. k = meta W a w s) keys"
    and "resolveCardPolicyProgramId pid = Inr p" and "publicKey W p = Inr program"
  shows "\<exists>only. sameInstruction W only want owner \<and> ti_data only = ix_data want \<and> ti_programId only = program"
proof -
  from assms obtain ms d where ms: "mapR (\<lambda>k. k) keys = Inr ms"
    and want: "want = \<lparr>ix_name = snake, ix_programId = to_base58 W program, ix_keys = ms, ix_data = d\<rparr>"
    by (auto simp: build_eq_Inr address_def result_simps)
  from metas_on_wire [OF ms assms(2)] obtain ks where "list_all2 (same_key W owner) ks ms" by blast
  then have "sameInstruction W \<lparr>ti_programId = program, ti_keys = ks, ti_data = d\<rparr> want owner"
    by (simp add: sameInstruction_def want list_all2_lengthD)
  then show ?thesis using want by force
qed

lemma init_on_wire:
  assumes "buildInitCardInstruction W owner cardId issuer h lamports pid = Inr want"
    and "resolveCardPolicyProgramId pid = Inr p" and "publicKey W p = Inr program"
  shows "\<exists>only. sameInstruction W only want owner \<and> ti_data only = ix_data want \<and> ti_programId only = program"
proof -
  from assms(1) obtain a :: CardAccountSet where "build W ''init_card'' pid
      [meta W owner True True, meta W (ac_binding a) True False, meta W (ac_policy a) True False, meta W (ac_period a) True False,
       meta W (ac_commitment a) True False, meta W SYSTEM_PROGRAM_ID False False] (InitCard cardId issuer h lamports) = Inr want"
    by (auto simp: buildInitCardInstruction_def result_simps)
  from built_on_wire [OF this _ assms(2,3)] show ?thesis by (simp only: list.pred_inject simp_thms) blast
qed

lemma restore_on_wire:
  assumes "buildRestoreInstruction W owner cardId authorizer args pid = Inr want"
    and "resolveCardPolicyProgramId pid = Inr p" and "publicKey W p = Inr program"
  shows "\<exists>only. sameInstruction W only want owner \<and> ti_data only = ix_data want \<and> ti_programId only = program"
proof -
  from assms(1) obtain a :: CardAccountSet where "build W ''restore'' pid
      [meta W owner False True, meta W authorizer False True, meta W (ac_policy a) True False, meta W (ac_period a) True False]
      (Restore args) = Inr want"
    by (auto simp: buildRestoreInstruction_def result_simps)
  from built_on_wire [OF this _ assms(2,3)] show ?thesis by (simp only: list.pred_inject simp_thms) blast
qed

lemma sample_program: "resolveCardPolicyProgramId (Some CARD_POLICY_PROGRAM_ID) = Inr CARD_POLICY_PROGRAM_ID"
  using sample_resolve by (simp add: resolveCardPolicyProgramId_def)

lemma sample_program_accounts:
  "\<exists>a. deriveCardAccounts sample_web3 (sample_address b) (replicate 32 5) (Some CARD_POLICY_PROGRAM_ID) = Inr a"
  using sample_accounts [of "sample_address b" "replicate 32 5"] same_program [of "Some CARD_POLICY_PROGRAM_ID" None]
  by (simp add: sample_program sample_resolve) blast


lemma sample_system: "\<exists>b. address sample_web3 SYSTEM_PROGRAM_ID = Inr b"
  by (simp add: address_def known_ids_def)

lemma sample_init:
  "\<exists>want. buildInitCardInstruction sample_web3 (sample_address 1) (replicate 32 5) (NInt 1) (replicate 32 6) 3000000
     (Some CARD_POLICY_PROGRAM_ID) = Inr want \<and>
   decodeCardInstructionData sample_web3 (ix_data want) = Inr (InitCard (replicate 32 5) (NInt 1) (replicate 32 6) 3000000)"
proof -
  let ?ix = "InitCard (replicate 32 5) (NInt 1) (replicate 32 6) 3000000"
  obtain a where a: "deriveCardAccounts sample_web3 (sample_address 1) (replicate 32 5) (Some CARD_POLICY_PROGRAM_ID) = Inr a"
    using sample_program_accounts by blast
  obtain d where d: "encodeCardInstructionData sample_web3 ?ix = Inr d"
    using discriminator_exists [of ?ix] by (auto simp: encodeCardInstructionData_def fetch_def writer_defs)
  obtain q where q: "address sample_web3 CARD_POLICY_PROGRAM_ID = Inr q"
    using sample_ids_parse(1) by (auto simp: sample_parses_def address_def)
  obtain s where s: "address sample_web3 SYSTEM_PROGRAM_ID = Inr s" using sample_system by blast
  have "decodeCardInstructionData sample_web3 d = Inr ?ix"
    using instruction_reads [OF sample_web3_ok _ d, of "[]"] by (simp add: codec_defs)
  then show ?thesis
    using card_accounts_canonical [OF sample_web3_ok a] s
    by (auto simp: buildInitCardInstruction_def a build_eq_Inr sample_program d q meta_eq_Inr result_simps)
qed


theorem setup_guard_sound_witness:
  "\<exists>tx prepared only a. assertCardSetupTransaction sample_web3 tx 0 (sample_address 1) prepared CARD_POLICY_PROGRAM_ID = Inr () \<and>
     tx_instructions tx = [only] \<and> confined sample_web3 (sample_address 1) CARD_POLICY_PROGRAM_ID a only \<and>
     address sample_web3 CARD_POLICY_PROGRAM_ID = Inr (to_base58 sample_web3 (ti_programId only)) \<and> length (key_texts sample_web3 only) = 6 \<and>
     pc_prefundLamports prepared = int_dec 3000000"
proof -
  let ?o = "sample_address 1" and ?id = "replicate 32 5" and ?p = "CARD_POLICY_PROGRAM_ID"
  obtain a where a: "deriveCardAccounts sample_web3 ?o ?id (Some ?p) = Inr a" using sample_program_accounts by blast
  obtain want where want: "buildInitCardInstruction sample_web3 ?o ?id (NInt 1) (replicate 32 6) 3000000 (Some ?p) = Inr want"
    "decodeCardInstructionData sample_web3 (ix_data want) = Inr (InitCard ?id (NInt 1) (replicate 32 6) 3000000)"
    using sample_init by blast
  obtain program where program: "publicKey sample_web3 ?p = Inr program" using sample_ids_parse(1) by (auto simp: sample_parses_def)
  obtain only where only: "sameInstruction sample_web3 only want ?o" "ti_data only = ix_data want"
    using init_on_wire [OF want(1) sample_program program] by blast
  obtain payer where payer: "to_base58 sample_web3 payer = ?o"
    using sample_address_ok [of 1] by (auto simp: address_def result_simps)
  obtain cid where cid: "cardIdFromHex cid = Inr ?id" using card_id_roundtrip [of ?id] by auto
  let ?tx = "\<lparr>tx_feePayer = Some payer, tx_instructions = [only], tx_signatures = [(payer, None)]\<rparr>"
  let ?prepared = "\<lparr>pc_cardId = cid, pc_accounts = Some \<lparr>av_binding = ac_binding a, av_policy = ac_policy a, av_period = ac_period a,
    av_commitment = ac_commitment a, av_escrow = ac_escrow a\<rparr>, pc_teeValidator = '''', pc_prefundLamports = int_dec 3000000\<rparr>"
  have "wanted_setup sample_web3 0 ?o ?id ?prepared ?p (InitCard ?id (NInt 1) (replicate 32 6) 3000000) = Inr want"
    by (simp add: wanted_setup_def want(1) CARD_ISSUERS_def MAX_PREFUND_LAMPORTS_def)
  then have ok: "assertCardSetupTransaction sample_web3 ?tx 0 ?o ?prepared ?p = Inr ()"
    using only want(2) payer
    by (simp add: assertCardSetupTransaction_def onlyInstruction_def cid a served_accounts_def refuse_errors_def)
  from setup_guard_sound [OF sample_web3_ok sample_address_ok(1) ok] obtain b where
    "confined sample_web3 ?o ?p b only \<and> setup_effect sample_web3 0 ?o ?id ?prepared ?p b only"
    by (simp only: Transaction.simps list.inject simp_thms PreparedCard.simps cid sample_program sum.inject) blast
  then have "confined sample_web3 ?o ?p b only" "address sample_web3 ?p = Inr (to_base58 sample_web3 (ti_programId only))"
    "length (key_texts sample_web3 only) = 6"
    by (auto simp: setup_effect_def)
  moreover have "tx_instructions ?tx = [only]" "pc_prefundLamports ?prepared = int_dec 3000000" by simp_all
  ultimately show ?thesis using ok by blast
qed


definition sample_restore :: RestoreArgs where
  "sample_restore = \<lparr>ra_policy = sample_args, ra_periodIndex = NInt 3, ra_capturedCents = 12000, ra_reservedCents = 500,
     ra_refundedCents = 0, ra_purchasesCount = NInt 2, ra_exceptionCents = 0, ra_statementOutstandingCents = 700,
     ra_ledgerHead = replicate 32 4, ra_ledgerSeq = 12, ra_reconDigest = replicate 32 8\<rparr>"

definition sample_report :: RecoveryReport where
  "sample_report = \<lparr>rp_digest = bytesToHex (replicate 32 8), rp_snapshotLedgerSeq = ''11'',
     rp_numbers = map (\<lambda>(k, v). \<lparr>rn_key = k, rn_cents = Some v, rn_count = None\<rparr>) (signed_numbers sample_restore),
     rp_rules = Some ((signed_rules sample_restore)\<lparr>rr_periodIndex := Some (NInt 3)\<rparr>)\<rparr>"

definition sample_reviewed :: ReviewedRestore where
  "sample_reviewed = \<lparr>rv_rules = (signed_rules sample_restore)\<lparr>rr_periodIndex := Some (NInt 3)\<rparr>, rv_periodIndex = NInt 3\<rparr>"

definition sample_view :: CardPolicyView where
  "sample_view = \<lparr>vw_maxPurchaseCents = int_dec 20000, vw_maxPurchasesPerPeriod = NInt 5, vw_periodSeconds = NInt 604800,
     vw_currency = ''USD'', vw_merchantIdHashes = [bytesToHex (replicate 32 7)], vw_mccs = [5734], vw_expiresAt = None,
     vw_recurringAllowed = False, vw_feeBps = NInt 250, vw_authorizer = sample_address 9\<rparr>"

lemma sample_review: "reviewedRestore D sample_report (Some sample_view) (Some (NInt 3)) = Inr sample_reviewed"
proof -
  have "rulesFromPolicy D sample_view (Some (NInt 3)) = rv_rules sample_reviewed"
    by (simp add: rulesFromPolicy_def rules_expiry_def sample_view_def sample_reviewed_def signed_rules_def sample_restore_def
        sample_args_def) code_simp
  then show ?thesis
    by (simp add: reviewedRestore_def sample_report_def sample_reviewed_def rulesDifferences_def)
qed

lemma sample_restore_built:
  "\<exists>want. buildRestoreInstruction sample_web3 (sample_address 1) (replicate 32 5) (sample_address 9) sample_restore
     (Some CARD_POLICY_PROGRAM_ID) = Inr want \<and>
   decodeCardInstructionData sample_web3 (ix_data want) = Inr (Restore sample_restore) \<and>
   length (ix_keys want) = 4 \<and> meta_address (ix_keys want ! 1) = sample_address 9"
proof -
  let ?ix = "Restore sample_restore"
  obtain a where a: "deriveCardAccounts sample_web3 (sample_address 1) (replicate 32 5) (Some CARD_POLICY_PROGRAM_ID) = Inr a"
    using sample_program_accounts by blast
  obtain d where d: "encodeCardInstructionData sample_web3 ?ix = Inr d"
    using discriminator_exists [of ?ix] sample_args_written
    by (auto simp: encodeCardInstructionData_def fetch_def writer_defs sample_restore_def)
  obtain q where q: "address sample_web3 CARD_POLICY_PROGRAM_ID = Inr q"
    using sample_ids_parse(1) by (auto simp: sample_parses_def address_def)
  have "as_decoded ?ix = ?ix" "canonical sample_web3 ?ix"
    by (simp_all add: codec_defs code_policy_def code_text_def sample_args_def sample_restore_def)
  then have "decodeCardInstructionData sample_web3 d = Inr ?ix"
    using instruction_reads [OF sample_web3_ok _ d, of "[]"] by simp
  then show ?thesis
    using card_accounts_canonical [OF sample_web3_ok a]
    by (auto simp: buildRestoreInstruction_def a build_eq_Inr sample_program d q meta_eq_Inr result_simps sample_address_inject)
qed


lemma sample_reviewed_ok:
  "assertRestoreMatchesReport sample_restore sample_report = Inr ()"
  "rulesDifferences (signed_rules sample_restore) (rv_rules sample_reviewed) = []"
  "rv_periodIndex sample_reviewed = ra_periodIndex sample_restore" "rr_authorizer (rv_rules sample_reviewed) = sample_address 9"
  "pa_authorizer (ra_policy sample_restore) = sample_address 9"
  "bytesToHex (ra_reconDigest sample_restore) = rp_digest sample_report"
  "to_bigint (rp_snapshotLedgerSeq sample_report) = Some 11" "ra_ledgerSeq sample_restore = 12"
proof -
  show "assertRestoreMatchesReport sample_restore sample_report = Inr ()"
    by (simp add: assertRestoreMatchesReport_def sample_report_def shown_number_def signed_numbers_def RECOVERY_NUMBER_KEYS_def)
  show "to_bigint (rp_snapshotLedgerSeq sample_report) = Some 11"
    unfolding sample_report_def RecoveryReport.simps by code_simp
qed (simp_all add: sample_reviewed_def rulesDifferences_def sample_report_def sample_restore_def signed_rules_def sample_args_def)

theorem restore_guard_sound_witness:
  "\<exists>tx only. assertCoSignedRestore sample_web3 tx (sample_address 1) (replicate 32 5) CARD_POLICY_PROGRAM_ID sample_report
       sample_reviewed = Inr sample_restore \<and> tx_instructions tx = [only] \<and>
     publicKey sample_web3 CARD_POLICY_PROGRAM_ID = Inr (ti_programId only) \<and>
     map (\<lambda>k. to_base58 sample_web3 (tk_pubkey k)) (filter tk_isSigner (ti_keys only)) = [sample_address 1, sample_address 9]"
proof -
  let ?o = "sample_address 1" and ?id = "replicate 32 5" and ?p = "CARD_POLICY_PROGRAM_ID"
  obtain want where want: "buildRestoreInstruction sample_web3 ?o ?id (sample_address 9) sample_restore (Some ?p) = Inr want"
    "decodeCardInstructionData sample_web3 (ix_data want) = Inr (Restore sample_restore)"
    "length (ix_keys want) = 4" "meta_address (ix_keys want ! 1) = sample_address 9"
    using sample_restore_built by blast
  obtain program where program: "publicKey sample_web3 ?p = Inr program" using sample_ids_parse(1) by (auto simp: sample_parses_def)
  obtain only where only: "sameInstruction sample_web3 only want ?o" "ti_data only = ix_data want" "ti_programId only = program"
    using restore_on_wire [OF want(1) sample_program program] by blast
  obtain k where key: "nth_opt (ti_keys only) (Suc 0) = Some k" "to_base58 sample_web3 (tk_pubkey k) = sample_address 9"
    using only(1) want(3,4) by (auto simp: sameInstruction_def list_all2_conv_all_nth same_key_def nth_opt_def)
  have "publicKey sample_web3 [] \<noteq> publicKey sample_web3 (sample_address 9)"
    by (simp, simp add: publicKey_def sample_web3_def sample_parse_def known_ids_def SYSTEM_PROGRAM_ID_def SPL_TOKEN_PROGRAM_ID_def
        TOKEN_2022_PROGRAM_ID_def ASSOCIATED_TOKEN_PROGRAM_ID_def DEFAULT_PROGRAM_ID_def)
  then have "sample_address 9 \<noteq> []" by metis
  note key = key this
  let ?tx = "\<lparr>tx_feePayer = Some (replicate 32 1), tx_instructions = [only],
    tx_signatures = [(replicate 32 1, None), (replicate 32 9, Some (replicate 64 2))]\<rparr>"
  have ok: "assertCoSignedRestore sample_web3 ?tx ?o ?id ?p sample_report sample_reviewed = Inr sample_restore"
    using want(1,2) only key
    by (simp add: assertCoSignedRestore_def program sample_reviewed_ok refuse_errors_def fetch_def Let_def sample_address_inject
        sample_address_def [symmetric])
  from restore_guard_sound [OF sample_web3_ok sample_address_ok(1) sample_review ok]
  have "publicKey sample_web3 ?p = Inr (ti_programId only) \<and>
      map (\<lambda>k. to_base58 sample_web3 (tk_pubkey k)) (filter tk_isSigner (ti_keys only)) = [?o, sample_address 9]"
    by (simp only: Transaction.simps list.inject simp_thms sample_reviewed_ok) blast
  then show ?thesis using ok by (intro exI [of _ ?tx] exI [of _ only]) simp
qed

end
