(* ===== verification/Flows.thy ===== *)
theory Flows
  imports Text "HOL-Library.AList"
begin

text \<open>
  The live payment cards of the MCP server: \<open>mcp-server/src/payment-flows.ts\<close> (\<open>createFlow\<close>, \<open>assertFlowOwner\<close>,
  \<open>recordFlow\<close>), the flow operations of \<open>mcp-server/src/connections.ts\<close> in memory, and the ones of
  \<open>convex/storage.ts\<close> behind the service. A call of \<open>recordFlow\<close> reads a card, merges what it has seen and
  writes the card back if nobody has changed it since; up to three times. Calls of several tools interleave
  between these steps, so the model is a step relation over a store, the calls in progress and, as a ghost, the
  history of all stored revisions. The interface \<open>PaymentFlowStore\<close> is the locale \<open>flow_store\<close>; its laws are
  proved for both stores and the properties of the history follow from the laws alone. The clock is read once per
  step. A view is a map from its keys; a key whose value is \<open>undefined\<close> is absent.
\<close>

section \<open>Records and views\<close>

type_synonym view = "string \<rightharpoonup> json"

record PaymentFlowRecord =
  fl_flowId :: string
  fl_wallet :: string
  fl_paymentId :: string
  fl_view :: view
  fl_createdAt :: int
  fl_updatedAt :: int
  fl_expiresAt :: int

definition FLOW_TTL_MS :: int where "FLOW_TTL_MS = 24 * 60 * 60 * 1000"

text \<open>\<open>/^[A-Za-z0-9_-]{22}$/\<close>\<close>

definition isFlowId :: "string \<Rightarrow> bool" where
  "isFlowId value \<longleftrightarrow> length value = 22 \<and> list_all (\<lambda>c. let n = (of_char c :: nat) in
     65 \<le> n \<and> n \<le> 90 \<or> 97 \<le> n \<and> n \<le> 122 \<or> 48 \<le> n \<and> n \<le> 57 \<or> n = 95 \<or> n = 45) value"

definition publicView :: "view \<Rightarrow> view" where
  "publicView view = view(''mandate'' := None, ''recipient'' := None)"

definition str_val :: "string \<Rightarrow> json" where "str_val s = JStr (jstr s)"

definition settled :: "view \<Rightarrow> bool" where "settled view \<longleftrightarrow> view ''state'' = Some (str_val ''settled'')"

definition KEPT_KEYS :: "string list" where
  "KEPT_KEYS = [''amount'', ''symbol'', ''decimals'', ''merchant'', ''product'', ''recipientShort'', ''cluster'', ''signature'',
     ''txShort'', ''explorerUrl'', ''paymentId'', ''flowId'', ''flowUrl'']"

definition drop_after :: "json \<Rightarrow> json" where
  "drop_after limits = (case limits of JObj ms \<Rightarrow> JObj (filter (\<lambda>(k, v). k \<noteq> jstr ''after'') ms) | _ \<Rightarrow> limits)"

definition merged_view :: "view \<Rightarrow> view \<Rightarrow> view" where
  "merged_view existing view =
     (let kept = (if view ''version'' = Some (JNum (NInt 1)) then (\<lambda>k. if k \<in> set KEPT_KEYS then existing k else None) else existing);
          merged = kept ++ publicView view in
      if settled merged \<or> merged ''state'' = Some (str_val ''blocked'')
      then (case merged ''limits'' of Some limits \<Rightarrow> merged(''limits'' \<mapsto> drop_after limits) | None \<Rightarrow> merged) else merged)"

section \<open>The stores\<close>

type_synonym 'st put = "int \<Rightarrow> PaymentFlowRecord \<Rightarrow> int option \<Rightarrow> 'st \<Rightarrow> 'st \<times> unit result"
type_synonym 'st get = "int \<Rightarrow> string \<Rightarrow> 'st \<Rightarrow> PaymentFlowRecord option"

definition UPDATE_CONFLICT :: string where "UPDATE_CONFLICT = ''Payment flow update conflict''"

text \<open>\<open>Number.isSafeInteger\<close>\<close>

definition safe_integer :: "int \<Rightarrow> bool" where "safe_integer v \<longleftrightarrow> \<bar>v\<bar> \<le> 2 ^ 53 - 1"

text \<open>\<open>putFlow\<close> of the registry: its own check, then the store's.\<close>

definition putFlow :: "'st put \<Rightarrow> 'st put" where
  "putFlow store_put now record expected st =
     (if (case expected of None \<Rightarrow> False | Some e \<Rightarrow> \<not> safe_integer e \<or> fl_updatedAt record \<le> e) then (st, Inl UPDATE_CONFLICT)
      else store_put now record expected st)"

text \<open>In memory: a \<open>Map\<close> from flow ids, in insertion order.\<close>

type_synonym flow_map = "(string \<times> PaymentFlowRecord) list"

definition live_flows :: "int \<Rightarrow> flow_map \<Rightarrow> flow_map" where
  "live_flows now flows = filter (\<lambda>(id, flow). \<not> fl_expiresAt flow \<le> now) flows"

definition memory_put :: "flow_map put" where
  "memory_put now record expected flows =
     (let existing = map_of flows (fl_flowId record) in
      if (case existing of Some x \<Rightarrow> fl_wallet x \<noteq> fl_wallet record | None \<Rightarrow> False)
      then (flows, Inl ''Payment flow belongs to another wallet'')
      else if (case expected of
          None \<Rightarrow> existing \<noteq> None
        | Some e \<Rightarrow> (case existing of None \<Rightarrow> True | Some x \<Rightarrow>
            fl_updatedAt x \<noteq> e \<or> fl_expiresAt x \<le> now \<or> fl_expiresAt x \<noteq> fl_expiresAt record \<or>
            fl_createdAt x \<noteq> fl_createdAt record \<or> fl_paymentId x \<noteq> fl_paymentId record))
      then (flows, Inl UPDATE_CONFLICT)
      else let live = live_flows now flows in
        if length live \<ge> 10000 \<and> existing = None then (live, Inl ''Too many live payment flows'')
        else (AList.update (fl_flowId record) record live, Inr ()))"

definition memory_get :: "flow_map get" where
  "memory_get now flowId flows = (case map_of flows flowId of Some flow \<Rightarrow> if fl_expiresAt flow > now then Some flow else None | None \<Rightarrow> None)"

text \<open>
  Behind the service: the rows of the table \<open>payment_flows\<close>. \<open>too_large\<close> tells whether the JSON text of a record
  has more than 32 000 characters, \<open>maintenance\<close> whether writes are paused. A refusal reaches the client as the HTTP
  status of its code.
\<close>

record FlowRow =
  fr_flowId :: string
  fr_wallet :: string
  fr_record :: PaymentFlowRecord
  fr_expires :: int

type_synonym flow_table = "FlowRow list"

text \<open>\<open>safeNumber\<close> accepts these numbers.\<close>

definition safe_number :: "int \<Rightarrow> bool" where "safe_number v \<longleftrightarrow> 0 \<le> v \<and> safe_integer v"

definition rejected :: "int \<Rightarrow> string" where "rejected status = ''Storage request rejected ('' @ int_dec status @ '')''"

definition find_row :: "flow_table \<Rightarrow> string \<Rightarrow> FlowRow option" where
  "find_row table flowId = find (\<lambda>row. fr_flowId row = flowId) table"

definition convex_put :: "(PaymentFlowRecord \<Rightarrow> bool) \<Rightarrow> bool \<Rightarrow> flow_table put" where
  "convex_put too_large maintenance now value expected table =
     (let flowId = fl_flowId value; old = find_row table flowId;
          row = \<lparr>fr_flowId = flowId, fr_wallet = fl_wallet value, fr_record = value, fr_expires = fl_expiresAt value\<rparr> in
      if maintenance then (table, Inl (rejected 503))
      else if flowId = [] \<or> fl_wallet value = [] \<or> \<not> safe_number (fl_expiresAt value) \<or> too_large value
      then (table, Inl (rejected 400))
      else case (old, expected) of
        (Some prior, _) \<Rightarrow>
          if fr_wallet prior \<noteq> fl_wallet value then (table, Inl (rejected 403))
          else (case expected of
            None \<Rightarrow> (table, Inl (rejected 409))
          | Some e \<Rightarrow>
              let previous = fr_record prior in
              if \<not> safe_number e then (table, Inl (rejected 400))
              else if fr_expires prior \<le> now \<or> fr_expires prior \<noteq> fl_expiresAt value \<or> fl_paymentId previous \<noteq> fl_paymentId value
              then (table, Inl (rejected 409))
              else if \<not> safe_number (fl_updatedAt previous) then (table, Inl (rejected 400))
              else if fl_updatedAt previous \<noteq> e then (table, Inl (rejected 409))
              else if \<not> safe_number (fl_updatedAt value) then (table, Inl (rejected 400))
              else if fl_updatedAt value \<le> e then (table, Inl (rejected 409))
              else if \<not> safe_number (fl_createdAt previous) \<or> \<not> safe_number (fl_createdAt value) then (table, Inl (rejected 400))
              else if fl_createdAt previous \<noteq> fl_createdAt value then (table, Inl (rejected 409))
              else (map (\<lambda>r. if fr_flowId r = flowId then row else r) table, Inr ()))
      | (None, Some e) \<Rightarrow> (table, Inl (rejected (if safe_number e then 409 else 400)))
      | (None, None) \<Rightarrow> (table @ [row], Inr ()))"

definition convex_get :: "flow_table get" where
  "convex_get now flowId table = (case find_row table flowId of
     Some old \<Rightarrow> if fr_expires old > now then Some (fr_record old) else None | None \<Rightarrow> None)"

text \<open>\<open>convex/cleanup.ts\<close> deletes the 500 rows that expired first.\<close>

definition expired_rows :: "int \<Rightarrow> flow_table \<Rightarrow> flow_table" where
  "expired_rows now table = take 500 (sort_key fr_expires (filter (\<lambda>row. fr_expires row \<le> now) table))"

definition cleanup :: "int \<Rightarrow> flow_table \<Rightarrow> flow_table" where
  "cleanup now table = filter (\<lambda>row. fr_flowId row \<notin> set (map fr_flowId (expired_rows now table))) table"

section \<open>The tools' operations\<close>

definition new_flow :: "int \<Rightarrow> string \<Rightarrow> string \<Rightarrow> string \<Rightarrow> view \<Rightarrow> string \<Rightarrow> PaymentFlowRecord" where
  "new_flow now flowId url wallet view paymentId =
     \<lparr>fl_flowId = flowId, fl_wallet = wallet, fl_paymentId = paymentId,
      fl_view = publicView (view(''flowId'' \<mapsto> str_val flowId, ''flowUrl'' \<mapsto> str_val url)),
      fl_createdAt = now, fl_updatedAt = now, fl_expiresAt = now + FLOW_TTL_MS\<rparr>"

text \<open>\<open>flowId\<close> is the random id the code draws; there is no flow without a wallet.\<close>

definition createFlow :: "'st put \<Rightarrow> int \<Rightarrow> string \<Rightarrow> string \<Rightarrow> string option \<Rightarrow> view \<Rightarrow> string \<Rightarrow> 'st \<Rightarrow> 'st \<times> string option result" where
  "createFlow put now flowId url wallet view paymentId st =
     (case wallet of
        Some w \<Rightarrow> if w = [] then (st, Inr None) else
          (case put now (new_flow now flowId url w view paymentId) None st of
             (st', Inr _) \<Rightarrow> (st', Inr (Some flowId))
           | (st', Inl e) \<Rightarrow> (st', Inl e))
      | None \<Rightarrow> (st, Inr None))"

definition assertFlowOwner :: "'st get \<Rightarrow> int \<Rightarrow> string option \<Rightarrow> string \<Rightarrow> string \<Rightarrow> 'st \<Rightarrow> unit result" where
  "assertFlowOwner get now wallet flowId paymentId st =
     (case get now flowId st of
        None \<Rightarrow> Inr ()
      | Some flow \<Rightarrow>
          if Some (fl_wallet flow) \<noteq> wallet then Inl ''This payment card belongs to another wallet''
          else if fl_paymentId flow \<noteq> paymentId then Inl ''This payment card belongs to another payment''
          else Inr ())"

text \<open>A call of \<open>recordFlow\<close> in progress: before its n-th read, between read and write, or done.\<close>

datatype progress = Reading nat | Writing nat PaymentFlowRecord | Finished

record Call =
  cl_wallet :: string
  cl_flowId :: string
  cl_view :: view
  cl_paymentId :: string
  cl_at :: progress

definition read_flow :: "'st get \<Rightarrow> int \<Rightarrow> 'st \<Rightarrow> Call \<Rightarrow> Call" where
  "read_flow get now st call = (case cl_at call of
     Reading attempt \<Rightarrow> call\<lparr>cl_at := (case get now (cl_flowId call) st of
         None \<Rightarrow> Finished
       | Some existing \<Rightarrow>
           if fl_wallet existing \<noteq> cl_wallet call \<or> fl_paymentId existing \<noteq> cl_paymentId call then Finished
           else if settled (fl_view existing) then Finished else Writing attempt existing)\<rparr>
   | _ \<Rightarrow> call)"

definition revised :: "int \<Rightarrow> view \<Rightarrow> PaymentFlowRecord \<Rightarrow> PaymentFlowRecord" where
  "revised now view existing =
     existing\<lparr>fl_view := merged_view (fl_view existing) view, fl_updatedAt := max now (fl_updatedAt existing + 1)\<rparr>"

definition conflict_message :: "string \<Rightarrow> bool" where
  "conflict_message e \<longleftrightarrow> str_includes e UPDATE_CONFLICT \<or> str_includes e (rejected 409)"

definition after_write :: "nat \<Rightarrow> unit result \<Rightarrow> progress" where
  "after_write attempt outcome = (case outcome of
     Inr _ \<Rightarrow> Finished
   | Inl e \<Rightarrow> if attempt = 2 \<or> \<not> conflict_message e then Finished else Reading (Suc attempt))"

definition write_flow :: "'st put \<Rightarrow> int \<Rightarrow> 'st \<Rightarrow> Call \<Rightarrow> 'st \<times> Call \<times> PaymentFlowRecord list" where
  "write_flow put now st call = (case cl_at call of
     Writing attempt existing \<Rightarrow>
       (let next = revised now (cl_view call) existing; (st', outcome) = put now next (Some (fl_updatedAt existing)) st in
        (st', call\<lparr>cl_at := after_write attempt outcome\<rparr>, if outcome = Inr () then [next] else []))
   | _ \<Rightarrow> (st, call, []))"

text \<open>A call that nobody interleaves with.\<close>

fun recordFlow :: "'st put \<Rightarrow> 'st get \<Rightarrow> int \<Rightarrow> nat \<Rightarrow> Call \<Rightarrow> 'st \<Rightarrow> 'st \<times> Call" where
  "recordFlow put get now 0 call st = (st, call)"
| "recordFlow put get now (Suc n) call st =
     (case write_flow put now st (read_flow get now st call) of (st', call', _) \<Rightarrow> recordFlow put get now n call' st')"

section \<open>All tools together\<close>

record 'st cards =
  cs_now :: int
  cs_store :: 'st
  cs_calls :: "Call list"
  cs_log :: "PaymentFlowRecord list"

text \<open>
  The steps: time passes, a card is opened, a call begins, reads or writes, the answer to a successful write is lost (the
  client sees an error although the store has changed), or the store cleans up.
\<close>

inductive card_step :: "'st put \<Rightarrow> 'st get \<Rightarrow> (int \<Rightarrow> 'st \<Rightarrow> 'st) \<Rightarrow> 'st cards \<Rightarrow> 'st cards \<Rightarrow> bool"
  for put get clean where
  tick: "cs_now s \<le> t \<Longrightarrow> card_step put get clean s (s\<lparr>cs_now := t\<rparr>)"
| opened: "createFlow put (cs_now s) flowId url (Some w) view paymentId (cs_store s) = (st', Inr (Some flowId)) \<Longrightarrow>
    card_step put get clean s (s\<lparr>cs_store := st', cs_log := new_flow (cs_now s) flowId url w view paymentId # cs_log s\<rparr>)"
| refused: "createFlow put (cs_now s) flowId url wallet view paymentId (cs_store s) = (st', Inl e) \<Longrightarrow>
    card_step put get clean s (s\<lparr>cs_store := st'\<rparr>)"
| begin_call: "cl_at c = Reading 0 \<Longrightarrow> card_step put get clean s (s\<lparr>cs_calls := cs_calls s @ [c]\<rparr>)"
| do_read: "i < length (cs_calls s) \<Longrightarrow>
    card_step put get clean s (s\<lparr>cs_calls := (cs_calls s)[i := read_flow get (cs_now s) (cs_store s) (cs_calls s ! i)]\<rparr>)"
| do_write: "i < length (cs_calls s) \<Longrightarrow> write_flow put (cs_now s) (cs_store s) (cs_calls s ! i) = (st', c', written) \<Longrightarrow>
    card_step put get clean s (s\<lparr>cs_store := st', cs_log := written @ cs_log s, cs_calls := (cs_calls s)[i := c']\<rparr>)"
| lost: "i < length (cs_calls s) \<Longrightarrow> write_flow put (cs_now s) (cs_store s) (cs_calls s ! i) = (st', c', [r]) \<Longrightarrow>
    card_step put get clean s (s\<lparr>cs_store := st', cs_log := r # cs_log s, cs_calls := (cs_calls s)[i := c'\<lparr>cl_at := Finished\<rparr>]\<rparr>)"
| cleaned: "card_step put get clean s (s\<lparr>cs_store := clean (cs_now s) (cs_store s)\<rparr>)"

inductive card_reach :: "'st put \<Rightarrow> 'st get \<Rightarrow> (int \<Rightarrow> 'st \<Rightarrow> 'st) \<Rightarrow> 'st \<Rightarrow> 'st cards \<Rightarrow> bool"
  for put get clean empty where
  init: "card_reach put get clean empty \<lparr>cs_now = t, cs_store = empty, cs_calls = [], cs_log = []\<rparr>"
| step: "card_reach put get clean empty s \<Longrightarrow> card_step put get clean s s' \<Longrightarrow> card_reach put get clean empty s'"


section \<open>The contract of a store\<close>

definition same_card :: "PaymentFlowRecord \<Rightarrow> PaymentFlowRecord \<Rightarrow> bool" where
  "same_card x r \<longleftrightarrow> fl_flowId x = fl_flowId r \<and> fl_wallet x = fl_wallet r \<and> fl_paymentId x = fl_paymentId r \<and>
     fl_createdAt x = fl_createdAt r \<and> fl_expiresAt x = fl_expiresAt r"

text \<open>A card is untouched, or it had expired and is gone.\<close>

definition kept_or_expired :: "int \<Rightarrow> PaymentFlowRecord option \<Rightarrow> PaymentFlowRecord option \<Rightarrow> bool" where
  "kept_or_expired now before after \<longleftrightarrow> after = before \<or> (\<exists>x. before = Some x \<and> fl_expiresAt x \<le> now \<and> after = None)"

text \<open>
  What every store promises: a card is created only where there is none; it is updated only at the revision the
  caller has read, by its own wallet and for its own payment, and to a later revision; nothing else changes
  except that expired cards may disappear.
\<close>

locale flow_store =
  fixes ok :: "'st \<Rightarrow> bool" and peek :: "'st \<Rightarrow> string \<Rightarrow> PaymentFlowRecord option"
    and put :: "'st put" and get :: "'st get" and clean :: "int \<Rightarrow> 'st \<Rightarrow> 'st" and empty :: 'st
  assumes empty_ok: "ok empty" and empty_peek: "peek empty f = None"
    and put_ok: "ok st \<Longrightarrow> put now r e st = (st', res) \<Longrightarrow> ok st'" and clean_ok: "ok st \<Longrightarrow> ok (clean now st)"
    and peek_id: "ok st \<Longrightarrow> peek st f = Some x \<Longrightarrow> fl_flowId x = f"
    and get_peek: "ok st \<Longrightarrow> get now f st = (case peek st f of Some x \<Rightarrow> if fl_expiresAt x > now then Some x else None | None \<Rightarrow> None)"
    and put_created: "ok st \<Longrightarrow> put now r None st = (st', Inr ()) \<Longrightarrow> peek st (fl_flowId r) = None"
    and put_updated: "ok st \<Longrightarrow> put now r (Some u) st = (st', Inr ()) \<Longrightarrow>
      \<exists>x. peek st (fl_flowId r) = Some x \<and> fl_updatedAt x = u \<and> u < fl_updatedAt r \<and> same_card x r"
    and put_stored: "ok st \<Longrightarrow> put now r e st = (st', Inr ()) \<Longrightarrow> peek st' (fl_flowId r) = Some r"
    and put_others: "ok st \<Longrightarrow> put now r e st = (st', res) \<Longrightarrow> res \<noteq> Inr () \<or> f \<noteq> fl_flowId r \<Longrightarrow>
      kept_or_expired now (peek st f) (peek st' f)"
    and clean_keeps: "ok st \<Longrightarrow> kept_or_expired now (peek st f) (peek (clean now st) f)"

section \<open>The history of a card\<close>

definition same_flow :: "PaymentFlowRecord \<Rightarrow> PaymentFlowRecord \<Rightarrow> bool" where
  "same_flow r q \<longleftrightarrow> fl_flowId r = fl_flowId q \<and> fl_createdAt r = fl_createdAt q"

text \<open>A revision of a card that may come after another one.\<close>

definition follows :: "PaymentFlowRecord \<Rightarrow> PaymentFlowRecord \<Rightarrow> bool" where
  "follows newer older \<longleftrightarrow> fl_updatedAt older < fl_updatedAt newer \<and> \<not> settled (fl_view older) \<and> same_card older newer"

definition history_ok :: "PaymentFlowRecord list \<Rightarrow> bool" where
  "history_ok log = sorted_wrt (\<lambda>newer older. same_flow newer older \<longrightarrow> follows newer older) log"

lemma sorted_wrt_either:
  "sorted_wrt P xs \<Longrightarrow> x \<in> set xs \<Longrightarrow> y \<in> set xs \<Longrightarrow> x = y \<or> P x y \<or> P y x"
  by (induction xs) auto

lemma history_unique:
  assumes "history_ok log" and "r \<in> set log" and "q \<in> set log" and "same_flow r q" and "fl_updatedAt r = fl_updatedAt q"
  shows "r = q"
  using sorted_wrt_either [OF assms(1) [unfolded history_ok_def] assms(2,3)] assms(4,5)
  by (auto simp: follows_def same_flow_def)

lemma follows_trans: "follows r x \<Longrightarrow> follows x q \<Longrightarrow> follows r q"
  by (auto simp: follows_def same_card_def)

text \<open>
  The invariant: the history is in order, and its records live for a day and hide mandate and recipient; the stored revision of a card is its last one; a card that is not stored
  any more has expired; and a call writes on the basis of a revision that was stored and not settled.
\<close>

definition record_ok :: "PaymentFlowRecord \<Rightarrow> bool" where
  "record_ok r \<longleftrightarrow> fl_expiresAt r = fl_createdAt r + FLOW_TTL_MS \<and> fl_view r ''mandate'' = None \<and> fl_view r ''recipient'' = None"

definition card_inv :: "(string \<Rightarrow> PaymentFlowRecord option) \<Rightarrow> int \<Rightarrow> Call list \<Rightarrow> PaymentFlowRecord list \<Rightarrow> bool" where
  "card_inv stored now calls log \<longleftrightarrow> history_ok log \<and>
     (\<forall>r \<in> set log. record_ok r) \<and>
     (\<forall>f x. stored f = Some x \<longrightarrow> x \<in> set log \<and> (\<forall>q \<in> set log. same_flow x q \<longrightarrow> q = x \<or> follows x q)) \<and>
     (\<forall>r \<in> set log. (\<exists>x. stored (fl_flowId r) = Some x \<and> fl_createdAt x = fl_createdAt r) \<or> fl_expiresAt r \<le> now) \<and>
     (\<forall>c \<in> set calls. \<forall>n e. cl_at c = Writing n e \<longrightarrow> e \<in> set log \<and> \<not> settled (fl_view e))"

lemma inv_history: "card_inv stored now calls log \<Longrightarrow> history_ok log"
  and inv_record: "card_inv stored now calls log \<Longrightarrow> r \<in> set log \<Longrightarrow> record_ok r"
  and inv_stored: "card_inv stored now calls log \<Longrightarrow> stored f = Some x \<Longrightarrow> x \<in> set log"
  and inv_latest: "card_inv stored now calls log \<Longrightarrow> stored f = Some x \<Longrightarrow> q \<in> set log \<Longrightarrow> same_flow x q \<Longrightarrow> q = x \<or> follows x q"
  and inv_gone: "card_inv stored now calls log \<Longrightarrow> r \<in> set log \<Longrightarrow>
    (\<exists>x. stored (fl_flowId r) = Some x \<and> fl_createdAt x = fl_createdAt r) \<or> fl_expiresAt r \<le> now"
  by (auto simp only: card_inv_def)

lemma inv_ttl: "card_inv stored now calls log \<Longrightarrow> r \<in> set log \<Longrightarrow> fl_expiresAt r = fl_createdAt r + FLOW_TTL_MS"
  using inv_record by (simp add: record_ok_def)

lemma merged_hides:
  assumes "existing k = None" and "k = ''mandate'' \<or> k = ''recipient''"
  shows "merged_view existing view k = None"
proof -
  have "k \<noteq> ''limits''" and "publicView view k = None" using assms(2) by (auto simp: publicView_def)
  then have "(kept ++ publicView view) k = None" if "kept k = None" for kept using that by (simp add: map_add_def)
  then show ?thesis
    using assms(1) \<open>k \<noteq> ''limits''\<close> unfolding merged_view_def Let_def by (simp split: option.split)
qed

text \<open>Expired cards may go and calls may read; both keep the invariant.\<close>

lemma inv_kept:
  assumes inv: "card_inv stored now calls log" and kept: "\<And>f. kept_or_expired now (stored f) (stored' f)"
    and id: "\<And>f x. stored f = Some x \<Longrightarrow> fl_flowId x = f"
  shows "card_inv stored' now calls log"
proof -
  have same: "stored' f = Some x \<Longrightarrow> stored f = Some x" for f x using kept [of f] by (auto simp: kept_or_expired_def)
  have "(\<exists>x. stored' (fl_flowId r) = Some x \<and> fl_createdAt x = fl_createdAt r) \<or> fl_expiresAt r \<le> now" if r: "r \<in> set log" for r
  proof (cases "fl_expiresAt r \<le> now")
    case False
    with inv_gone [OF inv r] obtain x where x: "stored (fl_flowId r) = Some x" "fl_createdAt x = fl_createdAt r" by blast
    then have "fl_expiresAt x = fl_expiresAt r" using inv_ttl [OF inv] inv_stored [OF inv] r by metis
    then have "stored' (fl_flowId r) = Some x" using kept [of "fl_flowId r"] x(1) False by (auto simp: kept_or_expired_def)
    then show ?thesis using x(2) by blast
  qed simp
  then show ?thesis using inv same unfolding card_inv_def by meson
qed

lemma inv_tick: "card_inv stored now calls log \<Longrightarrow> now \<le> t \<Longrightarrow> card_inv stored t calls log"
  unfolding card_inv_def by (meson order_trans)

lemma inv_calls:
  assumes "card_inv stored now calls log"
    and "\<And>c n e. c \<in> set calls' \<Longrightarrow> cl_at c = Writing n e \<Longrightarrow> c \<in> set calls \<or> e \<in> set log \<and> \<not> settled (fl_view e)"
  shows "card_inv stored now calls' log"
  using assms unfolding card_inv_def by meson


text \<open>A new revision that follows all earlier ones of its card.\<close>

lemma inv_written:
  assumes inv: "card_inv stored now calls log" and new: "\<And>q. q \<in> set log \<Longrightarrow> same_flow r q \<Longrightarrow> follows r q"
    and ttl: "record_ok r" and at: "stored' (fl_flowId r) = Some r"
    and others: "\<And>f. f \<noteq> fl_flowId r \<Longrightarrow> kept_or_expired now (stored f) (stored' f)"
    and id: "\<And>f x. stored f = Some x \<Longrightarrow> fl_flowId x = f"
    and old: "\<And>x. stored (fl_flowId r) = Some x \<Longrightarrow> fl_createdAt x = fl_createdAt r"
  shows "card_inv stored' now calls (r # log)"
proof -
  have same: "stored' f = Some x \<Longrightarrow> f \<noteq> fl_flowId r \<Longrightarrow> stored f = Some x" for f x
    using others [of f] by (auto simp: kept_or_expired_def)
  have "history_ok (r # log)" using inv_history [OF inv] new by (simp add: history_ok_def)
  moreover have "x \<in> set (r # log) \<and> (\<forall>q \<in> set (r # log). same_flow x q \<longrightarrow> q = x \<or> follows x q)" if "stored' f = Some x" for f x
  proof (cases "f = fl_flowId r")
    case True
    then show ?thesis using that at new by auto
  next
    case False
    then have x: "stored f = Some x" using same that by blast
    then have "\<not> same_flow x r" using id False by (auto simp: same_flow_def)
    then show ?thesis using inv_stored [OF inv x] inv_latest [OF inv x] by auto
  qed
  moreover have "(\<exists>x. stored' (fl_flowId q) = Some x \<and> fl_createdAt x = fl_createdAt q) \<or> fl_expiresAt q \<le> now"
    if q: "q \<in> set log" for q
  proof (cases "fl_expiresAt q \<le> now")
    case False
    with inv_gone [OF inv q] obtain x where x: "stored (fl_flowId q) = Some x" "fl_createdAt x = fl_createdAt q" by blast
    show ?thesis
    proof (cases "fl_flowId q = fl_flowId r")
      case True
      then show ?thesis using x old at by auto
    next
      case other: False
      have "fl_expiresAt x = fl_expiresAt q" using inv_ttl [OF inv] inv_stored [OF inv x(1)] q x(2) by simp
      then have "stored' (fl_flowId q) = Some x" using others [OF other] x(1) False by (auto simp: kept_or_expired_def)
      then show ?thesis using x(2) by blast
    qed
  qed simp
  ultimately show ?thesis using inv ttl at unfolding card_inv_def by auto
qed

lemma inv_created:
  assumes "card_inv stored now calls log" and "stored (fl_flowId r) = None" and "fl_createdAt r = now"
    and "q \<in> set log" and "same_flow r q"
  shows "follows r q"
  using inv_gone [OF assms(1,4)] inv_ttl [OF assms(1,4)] assms(2,3,5) by (auto simp: same_flow_def FLOW_TTL_MS_def)

lemma inv_updated:
  assumes inv: "card_inv stored now calls log" and x: "stored (fl_flowId r) = Some x" "fl_updatedAt x < fl_updatedAt r" "same_card x r"
    and base: "base \<in> set log" "\<not> settled (fl_view base)" "same_flow base r" "fl_updatedAt base = fl_updatedAt x"
    and q: "q \<in> set log" "same_flow r q"
  shows "follows r q"
proof -
  have "same_flow x base" using base(3) x(3) by (simp add: same_flow_def same_card_def)
  then have "x = base" using history_unique [OF inv_history [OF inv] inv_stored [OF inv x(1)] base(1)] base(4) by simp
  then have "follows r x" using base(2) x(2,3) by (simp add: follows_def)
  moreover have "q = x \<or> follows x q"
    using inv_latest [OF inv x(1) q(1)] q(2) x(3) by (simp add: same_flow_def same_card_def)
  ultimately show ?thesis using follows_trans by blast
qed

context flow_store
begin

definition good :: "'st cards \<Rightarrow> bool" where
  "good s \<longleftrightarrow> ok (cs_store s) \<and> card_inv (peek (cs_store s)) (cs_now s) (cs_calls s) (cs_log s)"

lemma put_refused:
  assumes "good s" and "put (cs_now s) r e (cs_store s) = (st', Inl m)"
  shows "good (s\<lparr>cs_store := st'\<rparr>)"
  using assms inv_kept [of "peek (cs_store s)" "cs_now s" "cs_calls s" "cs_log s" "peek st'"] put_ok put_others peek_id
  by (fastforce simp: good_def)

lemma put_create:
  assumes s: "good s" and p: "put (cs_now s) r None (cs_store s) = (st', Inr ())"
    and r: "fl_createdAt r = cs_now s" "record_ok r"
  shows "good (s\<lparr>cs_store := st', cs_log := r # cs_log s\<rparr>)"
proof -
  from s have ok: "ok (cs_store s)" and inv: "card_inv (peek (cs_store s)) (cs_now s) (cs_calls s) (cs_log s)" by (auto simp: good_def)
  note none = put_created [OF ok p]
  have "card_inv (peek st') (cs_now s) (cs_calls s) (r # cs_log s)"
    by (rule inv_written [OF inv inv_created [OF inv none r(1)]])
      (use r none put_stored [OF ok p] put_others [OF ok p] peek_id [OF ok] in auto)
  then show ?thesis using put_ok [OF ok p] by (simp add: good_def)
qed

lemma put_update:
  assumes s: "good s" and p: "put (cs_now s) r (Some (fl_updatedAt e)) (cs_store s) = (st', Inr ())"
    and e: "e \<in> set (cs_log s)" "\<not> settled (fl_view e)" "same_card e r" and r: "record_ok r"
  shows "good (s\<lparr>cs_store := st', cs_log := r # cs_log s\<rparr>)"
proof -
  from s have ok: "ok (cs_store s)" and inv: "card_inv (peek (cs_store s)) (cs_now s) (cs_calls s) (cs_log s)" by (auto simp: good_def)
  from put_updated [OF ok p] obtain x where x: "peek (cs_store s) (fl_flowId r) = Some x" "fl_updatedAt x < fl_updatedAt r" "same_card x r"
    and u: "fl_updatedAt e = fl_updatedAt x" by auto
  have "same_flow e r" using e(3) by (simp add: same_flow_def same_card_def)
  note new = inv_updated [OF inv x e(1,2) this u]
  have "card_inv (peek st') (cs_now s) (cs_calls s) (r # cs_log s)"
    by (rule inv_written [OF inv new r])
      (use x put_stored [OF ok p] put_others [OF ok p] peek_id [OF ok] in \<open>auto simp: same_card_def\<close>)
  then show ?thesis using put_ok [OF ok p] by (simp add: good_def)
qed

lemma good_calls:
  assumes "good s" and "\<And>c n e. c \<in> set calls' \<Longrightarrow> cl_at c = Writing n e \<Longrightarrow> c \<in> set (cs_calls s) \<or> e \<in> set (cs_log s) \<and> \<not> settled (fl_view e)"
  shows "good (s\<lparr>cs_calls := calls'\<rparr>)"
  using assms inv_calls [of "peek (cs_store s)" "cs_now s" "cs_calls s" "cs_log s" calls'] by (simp add: good_def)

lemma good_read:
  assumes s: "good s" and c: "c \<in> set (cs_calls s)"
    and e: "cl_at (read_flow get (cs_now s) (cs_store s) c) = Writing n e"
  shows "e \<in> set (cs_log s) \<and> \<not> settled (fl_view e)"
proof (cases "cl_at c")
  case (Reading k)
  with e s have "peek (cs_store s) (cl_flowId c) = Some e" "\<not> settled (fl_view e)"
    by (auto simp: read_flow_def good_def get_peek split: option.splits if_splits)
  then show ?thesis using s inv_stored by (fastforce simp: good_def)
next
  case (Writing k x)
  with e s c show ?thesis by (auto simp: read_flow_def good_def card_inv_def)
qed (use e in \<open>auto simp: read_flow_def\<close>)

lemma good_write:
  assumes s: "good s" and c: "c \<in> set (cs_calls s)" and w: "write_flow put (cs_now s) (cs_store s) c = (st', c', written)"
  shows "good (s\<lparr>cs_store := st', cs_log := written @ cs_log s\<rparr>) \<and> (c' = c \<or> (\<forall>n e. cl_at c' \<noteq> Writing n e))"
proof (cases "cl_at c")
  case (Writing k e)
  let ?r = "revised (cs_now s) (cl_view c) e"
  have e: "e \<in> set (cs_log s)" "\<not> settled (fl_view e)" using s c Writing by (auto simp: good_def card_inv_def)
  have card: "same_card e ?r" by (simp add: revised_def same_card_def)
  have "record_ok e" using s e(1) inv_record by (fastforce simp: good_def)
  then have wf: "record_ok ?r" by (simp add: record_ok_def revised_def merged_hides)
  obtain res where p: "put (cs_now s) ?r (Some (fl_updatedAt e)) (cs_store s) = (st', res)"
    and c': "c' = c\<lparr>cl_at := after_write k res\<rparr>" and written: "written = (if res = Inr () then [?r] else [])"
    using w Writing by (auto simp: write_flow_def Let_def split: prod.splits)
  have "\<forall>n e. cl_at c' \<noteq> Writing n e" using c' by (auto simp: after_write_def split: sum.splits)
  then show ?thesis
    using put_update [OF s _ e card wf, of st'] put_refused [OF s, of ?r "Some (fl_updatedAt e)" st'] p written
    by (cases res) auto
qed (use s w in \<open>auto simp: write_flow_def\<close>)

lemma good_step: "card_step put get clean s s' \<Longrightarrow> good s \<Longrightarrow> good s'"
proof (induction rule: card_step.induct)
  case (tick s t)
  then show ?case using inv_tick by (auto simp: good_def)
next
  case (opened s flowId url w view paymentId st')
  then have "put (cs_now s) (new_flow (cs_now s) flowId url w view paymentId) None (cs_store s) = (st', Inr ())"
    by (auto simp: createFlow_def split: if_splits prod.splits sum.splits)
  from put_create [OF opened(2) this] show ?case by (simp add: new_flow_def record_ok_def publicView_def)
next
  case (refused s flowId url wallet view paymentId st' e)
  then show ?case using put_refused by (auto simp: createFlow_def split: if_splits prod.splits sum.splits option.splits)
next
  case (begin_call c s)
  then show ?case by (auto intro: good_calls)
next
  case (do_read i s)
  then show ?case using good_read [OF do_read(2) nth_mem [OF do_read(1)]]
    by (intro good_calls) (auto dest!: set_update_subset_insert [THEN subsetD])
next
  case (do_write i s st' c' written)
  note w = good_write [OF do_write(3) nth_mem [OF do_write(1)] do_write(2)]
  then have "good (s\<lparr>cs_store := st', cs_log := written @ cs_log s, cs_calls := (cs_calls s)[i := c']\<rparr>)"
    using do_write(1) by (intro good_calls) (auto dest!: set_update_subset_insert [THEN subsetD])
  then show ?case by simp
next
  case (lost i s st' c' r)
  note w = good_write [OF lost(3) nth_mem [OF lost(1)] lost(2)]
  then have "good (s\<lparr>cs_store := st', cs_log := r # cs_log s, cs_calls := (cs_calls s)[i := c'\<lparr>cl_at := Finished\<rparr>]\<rparr>)"
    by (intro good_calls) (auto dest!: set_update_subset_insert [THEN subsetD])
  then show ?case by simp
next
  case (cleaned s)
  then show ?case
    using inv_kept [of "peek (cs_store s)" "cs_now s" "cs_calls s" "cs_log s" "peek (clean (cs_now s) (cs_store s))"]
      clean_ok clean_keeps peek_id by (auto simp: good_def)
qed

lemma good_reach: "card_reach put get clean empty s \<Longrightarrow> good s"
proof (induction rule: card_reach.induct)
  case (init t)
  show ?case by (simp add: good_def card_inv_def history_ok_def empty_ok empty_peek)
qed (rule good_step)

text \<open>A settled card stays as it is for as long as anyone may see it.\<close>

lemma settled_stays:
  assumes reach: "card_reach put get clean empty s" and r: "r \<in> set (cs_log s)" "settled (fl_view r)" "cs_now s < fl_expiresAt r"
  shows "get (cs_now s) (fl_flowId r) (cs_store s) = Some r"
proof -
  have ok: "ok (cs_store s)" and inv: "card_inv (peek (cs_store s)) (cs_now s) (cs_calls s) (cs_log s)"
    using good_reach [OF reach] by (auto simp: good_def)
  from inv_gone [OF inv r(1)] r(3) obtain x where x: "peek (cs_store s) (fl_flowId r) = Some x" "fl_createdAt x = fl_createdAt r"
    by auto
  then have "same_flow x r" using peek_id [OF ok x(1)] by (simp add: same_flow_def)
  then have "x = r" using inv_latest [OF inv x(1) r(1)] r(2) by (auto simp: follows_def)
  then show ?thesis using x(1) r(3) by (simp add: get_peek [OF ok])
qed

lemma records_sound: "card_reach put get clean empty s \<Longrightarrow> r \<in> set (cs_log s) \<Longrightarrow> record_ok r"
  using inv_record [of "peek (cs_store s)" "cs_now s" "cs_calls s" "cs_log s" r] good_reach [of s] by (simp add: good_def)

lemma history_sound: "card_reach put get clean empty s \<Longrightarrow> history_ok (cs_log s)"
  using inv_history [of "peek (cs_store s)" "cs_now s" "cs_calls s"] good_reach [of s] by (simp add: good_def)

end

section \<open>Both stores keep the contract\<close>

definition memory_ok :: "flow_map \<Rightarrow> bool" where
  "memory_ok flows \<longleftrightarrow> distinct (map fst flows) \<and> (\<forall>f x. map_of flows f = Some x \<longrightarrow> fl_flowId x = f)"

lemma map_of_live:
  "distinct (map fst flows) \<Longrightarrow> map_of (live_flows now flows) f =
     (case map_of flows f of Some x \<Rightarrow> if fl_expiresAt x \<le> now then None else Some x | None \<Rightarrow> None)"
  by (induction flows) (auto simp: live_flows_def split: option.splits, auto simp: map_of_eq_None_iff image_iff)

lemma live_ok: "memory_ok flows \<Longrightarrow> memory_ok (live_flows now flows)"
  using map_of_live [of flows now]
  by (auto simp: memory_ok_def live_flows_def distinct_map_filter split: option.splits if_splits)

lemma update_ok: "memory_ok flows \<Longrightarrow> memory_ok (AList.update (fl_flowId r) r flows)"
  by (auto simp: memory_ok_def distinct_update update_conv' split: if_splits)

lemma memory_put_cases:
  assumes "putFlow memory_put now r e flows = (flows', res)"
  obtains "flows' = flows" "res \<noteq> Inr ()"
  | "flows' = live_flows now flows" "res \<noteq> Inr ()"
  | "flows' = AList.update (fl_flowId r) r (live_flows now flows)" "res = Inr ()"
  using assms by (auto simp: putFlow_def memory_put_def Let_def split: if_splits)

lemma memory_put_accepted:
  assumes "putFlow memory_put now r e flows = (flows', Inr ())"
  shows "case e of None \<Rightarrow> map_of flows (fl_flowId r) = None
    | Some u \<Rightarrow> \<exists>x. map_of flows (fl_flowId r) = Some x \<and> fl_updatedAt x = u \<and> u < fl_updatedAt r \<and> fl_wallet x = fl_wallet r \<and>
        fl_paymentId x = fl_paymentId r \<and> fl_createdAt x = fl_createdAt r \<and> fl_expiresAt x = fl_expiresAt r"
  using assms by (auto simp: putFlow_def memory_put_def Let_def split: if_splits option.splits)

interpretation memory: flow_store memory_ok map_of "putFlow memory_put" memory_get "\<lambda>now flows. flows" "[]"
proof
  fix flows flows' :: flow_map and now r e res f
  assume ok: "memory_ok flows"
  then have d: "distinct (map fst flows)" by (simp add: memory_ok_def)
  show "putFlow memory_put now r e flows = (flows', res) \<Longrightarrow> memory_ok flows'"
    by (erule memory_put_cases) (simp_all add: ok live_ok update_ok)
  show "kept_or_expired now (map_of flows f) (map_of flows' f)"
    if "putFlow memory_put now r e flows = (flows', res)" "res \<noteq> Inr () \<or> f \<noteq> fl_flowId r"
    using that by (elim memory_put_cases) (auto simp: kept_or_expired_def map_of_live [OF d] update_conv' split: option.splits)
  show "putFlow memory_put now r e flows = (flows', Inr ()) \<Longrightarrow> map_of flows' (fl_flowId r) = Some r"
    by (erule memory_put_cases) (simp_all add: update_conv')
  show "putFlow memory_put now r None flows = (flows', Inr ()) \<Longrightarrow> map_of flows (fl_flowId r) = None"
    using memory_put_accepted [of now r None flows flows'] by simp
  show "putFlow memory_put now r (Some u) flows = (flows', Inr ()) \<Longrightarrow>
      \<exists>x. map_of flows (fl_flowId r) = Some x \<and> fl_updatedAt x = u \<and> u < fl_updatedAt r \<and> same_card x r" for u
    using memory_put_accepted [of now r "Some u" flows flows'] ok by (auto simp: memory_ok_def same_card_def)
qed (auto simp: memory_ok_def memory_get_def kept_or_expired_def)

definition convex_peek :: "flow_table \<Rightarrow> string \<Rightarrow> PaymentFlowRecord option" where
  "convex_peek table f = map_option fr_record (find_row table f)"

definition convex_ok :: "flow_table \<Rightarrow> bool" where
  "convex_ok table \<longleftrightarrow> list_all (\<lambda>row. fl_flowId (fr_record row) = fr_flowId row \<and> fl_wallet (fr_record row) = fr_wallet row \<and>
     fl_expiresAt (fr_record row) = fr_expires row) table \<and> distinct (map fr_flowId table)"

lemma find_row_Nil [simp]: "find_row [] f = None"
  and find_row_Cons [simp]: "find_row (row # table) f = (if fr_flowId row = f then Some row else find_row table f)"
  by (simp_all add: find_row_def)

lemma find_row_append: "find_row (table @ [row]) f = (case find_row table f of Some x \<Rightarrow> Some x | None \<Rightarrow> if fr_flowId row = f then Some row else None)"
  by (induction table) auto

lemma find_row_Some: "find_row table f = Some row \<Longrightarrow> row \<in> set table \<and> fr_flowId row = f"
  by (induction table) (auto split: if_splits)

lemma find_row_None: "find_row table f = None \<longleftrightarrow> f \<notin> fr_flowId ` set table"
  by (induction table) auto

lemma find_row_replace:
  "fr_flowId row = g \<Longrightarrow> find_row (map (\<lambda>x. if fr_flowId x = g then row else x) table) f =
     (if f = g \<and> find_row table g \<noteq> None then Some row else find_row table f)"
  by (induction table) auto

lemma find_row_filter:
  "find_row (filter (\<lambda>row. P (fr_flowId row)) table) f = (if P f then find_row table f else None)"
  by (induction table) auto


lemma find_row_cleanup:
  "find_row (cleanup now table) f = (if f \<in> set (map fr_flowId (expired_rows now table)) then None else find_row table f)"
  unfolding cleanup_def using find_row_filter [of "\<lambda>id. id \<notin> set (map fr_flowId (expired_rows now table))" table f] by simp

definition flow_row :: "PaymentFlowRecord \<Rightarrow> FlowRow" where
  "flow_row r = \<lparr>fr_flowId = fl_flowId r, fr_wallet = fl_wallet r, fr_record = r, fr_expires = fl_expiresAt r\<rparr>"

lemma convex_put_cases:
  assumes "putFlow (convex_put too_large maintenance) now r e table = (table', res)"
  obtains "table' = table" "res \<noteq> Inr ()"
  | "table' = table @ [flow_row r]" "find_row table (fl_flowId r) = None" "res = Inr ()" "e = None"
  | prior where "table' = map (\<lambda>x. if fr_flowId x = fl_flowId r then flow_row r else x) table" "find_row table (fl_flowId r) = Some prior"
      "res = Inr ()" "e = Some (fl_updatedAt (fr_record prior))" "fl_updatedAt (fr_record prior) < fl_updatedAt r"
      "fr_wallet prior = fl_wallet r" "fr_expires prior = fl_expiresAt r" "fl_paymentId (fr_record prior) = fl_paymentId r"
      "fl_createdAt (fr_record prior) = fl_createdAt r"
  using assms
  by (auto simp: putFlow_def convex_put_def Let_def flow_row_def split: if_splits option.splits)

lemma convex_ok_replace:
  assumes "convex_ok table" and "find_row table (fl_flowId r) = Some prior"
  shows "convex_ok (map (\<lambda>x. if fr_flowId x = fl_flowId r then flow_row r else x) table)"
proof -
  have "map fr_flowId (map (\<lambda>x. if fr_flowId x = fl_flowId r then flow_row r else x) table) = map fr_flowId table"
    by (simp add: flow_row_def)
  then show ?thesis using assms(1) by (auto simp: convex_ok_def list_all_iff flow_row_def simp del: map_map)
qed

lemma convex_ok_append: "convex_ok table \<Longrightarrow> find_row table (fl_flowId r) = None \<Longrightarrow> convex_ok (table @ [flow_row r])"
  by (auto simp: convex_ok_def flow_row_def find_row_None)

lemma cleaned_expired:
  assumes ok: "convex_ok table" and row: "find_row table f = Some row" and gone: "f \<in> set (map fr_flowId (expired_rows now table))"
  shows "fr_expires row \<le> now"
proof -
  from gone obtain x where x: "x \<in> set (expired_rows now table)" "fr_flowId x = f" by auto
  then have "x \<in> set table" "fr_expires x \<le> now"
    using set_take_subset [of 500 "sort_key fr_expires (filter (\<lambda>row. fr_expires row \<le> now) table)"]
    by (auto simp: expired_rows_def)
  moreover have "x = row"
    using find_row_Some [OF row] x(2) ok \<open>x \<in> set table\<close> by (auto simp: convex_ok_def distinct_map dest: inj_onD)
  ultimately show ?thesis by simp
qed

interpretation convex: flow_store convex_ok convex_peek "putFlow (convex_put too_large maintenance)" convex_get cleanup "[]"
proof
  fix table table' :: flow_table and now r e res f
  assume ok: "convex_ok table"
  note ids = flow_row_def convex_peek_def
  show "putFlow (convex_put too_large maintenance) now r e table = (table', res) \<Longrightarrow> convex_ok table'"
    by (erule convex_put_cases) (simp_all add: ok convex_ok_append convex_ok_replace)
  show "convex_ok (cleanup now table)"
    using ok by (auto simp: convex_ok_def cleanup_def list_all_iff intro: distinct_map_filter)
  show "kept_or_expired now (convex_peek table f) (convex_peek table' f)"
    if "putFlow (convex_put too_large maintenance) now r e table = (table', res)" "res \<noteq> Inr () \<or> f \<noteq> fl_flowId r"
    using that by (elim convex_put_cases) (auto simp: kept_or_expired_def ids find_row_append find_row_replace split: option.splits)
  show "kept_or_expired now (convex_peek table f) (convex_peek (cleanup now table) f)"
  proof (cases "find_row table f")
    case (Some row)
    with ok have "fl_expiresAt (fr_record row) = fr_expires row" by (auto simp: convex_ok_def list_all_iff dest: find_row_Some)
    then show ?thesis using Some cleaned_expired [OF ok Some]
      by (simp add: kept_or_expired_def convex_peek_def find_row_cleanup)
  qed (simp add: kept_or_expired_def convex_peek_def find_row_cleanup)
  show "putFlow (convex_put too_large maintenance) now r e table = (table', Inr ()) \<Longrightarrow> convex_peek table' (fl_flowId r) = Some r"
    by (erule convex_put_cases) (auto simp: ids find_row_append find_row_replace)
  show "putFlow (convex_put too_large maintenance) now r None table = (table', Inr ()) \<Longrightarrow> convex_peek table (fl_flowId r) = None"
    by (erule convex_put_cases) (auto simp: convex_peek_def)
  show "\<exists>x. convex_peek table (fl_flowId r) = Some x \<and> fl_updatedAt x = u \<and> u < fl_updatedAt r \<and> same_card x r"
    if "putFlow (convex_put too_large maintenance) now r (Some u) table = (table', Inr ())" for u
    using that ok by (elim convex_put_cases) (auto simp: convex_peek_def same_card_def convex_ok_def list_all_iff dest: find_row_Some)
  show "convex_peek table f = Some x \<Longrightarrow> fl_flowId x = f" for x
    using ok by (auto simp: convex_peek_def convex_ok_def list_all_iff dest: find_row_Some)
  show "convex_get now f table = (case convex_peek table f of None \<Rightarrow> None | Some x \<Rightarrow> if now < fl_expiresAt x then Some x else None)"
    using ok by (auto simp: convex_get_def convex_peek_def convex_ok_def list_all_iff split: option.splits dest: find_row_Some)
qed (simp_all add: convex_ok_def convex_peek_def)

section \<open>Properties\<close>

text \<open>
  C13. A payment card tells one story, whatever the tools do at the same time. In every reachable state of the server, with
  the store in memory and with the service behind it, for reads and writes of any number of calls in any order, lost
  answers and cleaning included, the revisions of a card that were ever stored have strictly increasing revision
  numbers and keep its wallet, payment, creation and expiry, and none comes after a settled one. So once a
  card was settled, every reader sees exactly that revision until the card expires.
\<close>

theorem settled_card_final:
  "(card_reach (putFlow memory_put) memory_get (\<lambda>now flows. flows) [] s \<longrightarrow> history_ok (cs_log s) \<and>
     (\<forall>r \<in> set (cs_log s). settled (fl_view r) \<and> cs_now s < fl_expiresAt r \<longrightarrow>
       memory_get (cs_now s) (fl_flowId r) (cs_store s) = Some r)) \<and>
   (card_reach (putFlow (convex_put too_large maintenance)) convex_get cleanup [] s' \<longrightarrow> history_ok (cs_log s') \<and>
     (\<forall>r \<in> set (cs_log s'). settled (fl_view r) \<and> cs_now s' < fl_expiresAt r \<longrightarrow>
       convex_get (cs_now s') (fl_flowId r) (cs_store s') = Some r))"
  using memory.settled_stays memory.history_sound convex.settled_stays convex.history_sound by blast


text \<open>
  A card never shows whom the money goes to or under which mandate: no revision that any store ever held has a
  \<open>mandate\<close> or a \<open>recipient\<close> in its view, whatever views the tools record; and each lives for exactly 24 hours from the
  creation of its card.
\<close>

theorem card_hides_parties:
  "(card_reach (putFlow memory_put) memory_get (\<lambda>now flows. flows) [] s \<longrightarrow> list_all (\<lambda>r. fl_view r ''mandate'' = None \<and>
      fl_view r ''recipient'' = None \<and> fl_expiresAt r = fl_createdAt r + 86400000) (cs_log s)) \<and>
   (card_reach (putFlow (convex_put too_large maintenance)) convex_get cleanup [] s' \<longrightarrow> list_all (\<lambda>r. fl_view r ''mandate'' = None \<and>
      fl_view r ''recipient'' = None \<and> fl_expiresAt r = fl_createdAt r + 86400000) (cs_log s'))"
  using memory.records_sound convex.records_sound by (auto simp: list_all_iff record_ok_def FLOW_TTL_MS_def)

text \<open>A call takes at most six steps of its own, whatever the others do.\<close>

definition steps_left :: "progress \<Rightarrow> nat" where
  "steps_left p = (case p of Reading n \<Rightarrow> 6 - 2 * n | Writing n e \<Rightarrow> 5 - 2 * n | Finished \<Rightarrow> 0)"

definition within_attempts :: "Call \<Rightarrow> bool" where
  "within_attempts c \<longleftrightarrow> (case cl_at c of Reading n \<Rightarrow> n \<le> 2 | Writing n e \<Rightarrow> n \<le> 2 | Finished \<Rightarrow> True)"

lemma read_progress:
  assumes "within_attempts c" and "cl_at c = Reading n"
  shows "within_attempts (read_flow get now st c) \<and> steps_left (cl_at (read_flow get now st c)) < steps_left (cl_at c)"
  using assms by (auto simp: within_attempts_def steps_left_def read_flow_def split: option.splits)

lemma write_progress:
  assumes "within_attempts c" and "cl_at c = Writing n e" and "write_flow put now st c = (st', c', written)"
  shows "within_attempts c' \<and> steps_left (cl_at c') < steps_left (cl_at c)"
  using assms by (auto simp: within_attempts_def steps_left_def write_flow_def after_write_def Let_def split: prod.splits sum.splits)

lemma finished_idle: "cl_at c = Finished \<Longrightarrow> write_flow put now st (read_flow get now st c) = (st, c, [])"
  by (simp add: read_flow_def write_flow_def)

text \<open>Alone, the first attempt records the view.\<close>

lemma recordFlow_alone:
  assumes "cl_at c = Reading 0" and "memory_get now (cl_flowId c) flows = Some e" and "fl_wallet e = cl_wallet c"
    and "fl_paymentId e = cl_paymentId c" and "\<not> settled (fl_view e)" and "safe_integer (fl_updatedAt e)" and "memory_ok flows"
  shows "recordFlow (putFlow memory_put) memory_get now 3 c flows =
    (AList.update (cl_flowId c) (revised now (cl_view c) e) (live_flows now flows), c\<lparr>cl_at := Finished\<rparr>)"
proof -
  from assms(2) have e: "map_of flows (cl_flowId c) = Some e" "now < fl_expiresAt e"
    by (auto simp: memory_get_def split: option.splits if_splits)
  with assms(7) have "fl_flowId e = cl_flowId c" by (simp add: memory_ok_def)
  then have "write_flow (putFlow memory_put) now flows (read_flow memory_get now flows c) =
      (AList.update (cl_flowId c) (revised now (cl_view c) e) (live_flows now flows), c\<lparr>cl_at := Finished\<rparr>, [revised now (cl_view c) e])"
    using assms e by (simp add: read_flow_def write_flow_def putFlow_def memory_put_def revised_def after_write_def Let_def)
  then show ?thesis by (simp add: numeral_3_eq_3 finished_idle)
qed


section \<open>Examples\<close>

definition sample_card :: PaymentFlowRecord where
  "sample_card = new_flow 5 ''f'' ''u'' ''w'' [''state'' \<mapsto> str_val ''ready''] ''payment_1''"

definition sample_call :: Call where
  "sample_call = \<lparr>cl_wallet = ''w'', cl_flowId = ''f'', cl_view = [''state'' \<mapsto> str_val ''settled''], cl_paymentId = ''payment_1'',
     cl_at = Reading 0\<rparr>"

definition sample_settled :: PaymentFlowRecord where
  "sample_settled = revised 5 [''state'' \<mapsto> str_val ''settled''] sample_card"

lemma sample_views: "settled (fl_view sample_settled)" "\<not> settled (fl_view sample_card)" "fl_expiresAt sample_settled = 86400005"
  by (simp_all add: sample_settled_def sample_card_def revised_def merged_view_def new_flow_def publicView_def settled_def str_val_def
      jstr_def map_add_def FLOW_TTL_MS_def Let_def)

lemma sample_reach:
  assumes create: "put 5 sample_card None st0 = (st1, Inr ())" and got: "get 5 ''f'' st1 = Some sample_card"
    and update: "put 5 sample_settled (Some 5) st1 = (st2, Inr ())"
  shows "card_reach put get clean st0 \<lparr>cs_now = 5, cs_store = st2, cs_calls = [sample_call\<lparr>cl_at := Finished\<rparr>], cs_log = [sample_settled, sample_card]\<rparr>"
proof -
  let ?s = "\<lambda>st calls log. \<lparr>cs_now = 5, cs_store = st, cs_calls = calls, cs_log = log\<rparr>"
  have "card_reach put get clean st0 (?s st0 [] [])" by (rule card_reach.init)
  from card_reach.step [OF this, OF card_step.opened, of "''f''" "''u''" "''w''" "[''state'' \<mapsto> str_val ''ready'']" "''payment_1''" st1]
  have "card_reach put get clean st0 (?s st1 [] [sample_card])"
    using create by (simp add: createFlow_def sample_card_def)
  from card_reach.step [OF this, OF card_step.begin_call, of sample_call]
  have "card_reach put get clean st0 (?s st1 [sample_call] [sample_card])" by (simp add: sample_call_def)
  from card_reach.step [OF this, OF card_step.do_read, of 0]
  have "card_reach put get clean st0 (?s st1 [sample_call\<lparr>cl_at := Writing 0 sample_card\<rparr>] [sample_card])"
    using got sample_views(2) by (simp add: read_flow_def sample_call_def) (simp add: sample_card_def new_flow_def)
  from card_reach.step [OF this, OF card_step.do_write, of 0 st2 "sample_call\<lparr>cl_at := Finished\<rparr>" "[sample_settled]"]
  show ?thesis
    using update by (simp add: write_flow_def after_write_def Let_def)
      (simp add: sample_call_def sample_settled_def sample_card_def new_flow_def)
qed

lemma sample_memory: "\<exists>s. card_reach (putFlow memory_put) memory_get (\<lambda>now flows. flows) [] s \<and> cs_now s = 5 \<and>
    sample_settled \<in> set (cs_log s)"
proof -
  have "putFlow memory_put 5 sample_card None [] = ([(''f'', sample_card)], Inr ())"
    by (simp add: putFlow_def memory_put_def live_flows_def) (simp add: sample_card_def new_flow_def)
  moreover have "memory_get 5 ''f'' [(''f'', sample_card)] = Some sample_card"
    by (simp add: memory_get_def) (simp add: sample_card_def new_flow_def FLOW_TTL_MS_def)
  moreover have "putFlow memory_put 5 sample_settled (Some 5) [(''f'', sample_card)] = ([(''f'', sample_settled)], Inr ())"
    by (simp add: putFlow_def memory_put_def safe_integer_def)
      (simp add: sample_settled_def revised_def sample_card_def new_flow_def FLOW_TTL_MS_def live_flows_def)
  ultimately show ?thesis using sample_reach [where clean = "\<lambda>now flows. flows"] by fastforce
qed

lemma sample_convex: "\<exists>s. card_reach (putFlow (convex_put (\<lambda>_. False) False)) convex_get cleanup [] s \<and> cs_now s = 5 \<and>
    sample_settled \<in> set (cs_log s)"
proof -
  let ?put = "putFlow (convex_put (\<lambda>_. False) False)"
  have "?put 5 sample_card None [] = ([flow_row sample_card], Inr ())"
    by (simp add: putFlow_def convex_put_def flow_row_def)
      (simp add: sample_card_def new_flow_def FLOW_TTL_MS_def safe_number_def safe_integer_def Let_def)
  moreover have "convex_get 5 ''f'' [flow_row sample_card] = Some sample_card"
    by (simp add: convex_get_def flow_row_def) (simp add: sample_card_def new_flow_def FLOW_TTL_MS_def)
  moreover have "?put 5 sample_settled (Some 5) [flow_row sample_card] = ([flow_row sample_settled], Inr ())"
    by (simp add: putFlow_def convex_put_def flow_row_def safe_number_def safe_integer_def)
      (simp add: sample_settled_def revised_def sample_card_def new_flow_def FLOW_TTL_MS_def Let_def safe_number_def safe_integer_def)
  ultimately show ?thesis using sample_reach [where clean = cleanup] by fastforce
qed

theorem settled_card_final_witness:
  "(\<exists>s. card_reach (putFlow memory_put) memory_get (\<lambda>now flows. flows) [] s \<and> history_ok (cs_log s) \<and>
      memory_get (cs_now s) (fl_flowId sample_settled) (cs_store s) = Some sample_settled) \<and>
   (\<exists>s. card_reach (putFlow (convex_put (\<lambda>_. False) False)) convex_get cleanup [] s \<and> history_ok (cs_log s) \<and>
      convex_get (cs_now s) (fl_flowId sample_settled) (cs_store s) = Some sample_settled)"
proof -
  obtain s where s: "card_reach (putFlow memory_put) memory_get (\<lambda>now flows. flows) [] s" "cs_now s = 5" "sample_settled \<in> set (cs_log s)"
    using sample_memory by blast
  obtain s' where s': "card_reach (putFlow (convex_put (\<lambda>_. False) False)) convex_get cleanup [] s'" "cs_now s' = 5"
    "sample_settled \<in> set (cs_log s')" using sample_convex by blast
  show ?thesis using settled_card_final [of s "\<lambda>_. False" False s'] s s' sample_views by auto
qed

theorem card_hides_parties_witness:
  "(\<exists>s. card_reach (putFlow memory_put) memory_get (\<lambda>now flows. flows) [] s \<and> cs_log s \<noteq> [] \<and>
      list_all (\<lambda>r. fl_view r ''recipient'' = None) (cs_log s)) \<and>
   (\<exists>s. card_reach (putFlow (convex_put (\<lambda>_. False) False)) convex_get cleanup [] s \<and> cs_log s \<noteq> [] \<and>
      list_all (\<lambda>r. fl_view r ''recipient'' = None) (cs_log s))"
proof -
  obtain s where s: "card_reach (putFlow memory_put) memory_get (\<lambda>now flows. flows) [] s" "sample_settled \<in> set (cs_log s)"
    using sample_memory by blast
  obtain s' where s': "card_reach (putFlow (convex_put (\<lambda>_. False) False)) convex_get cleanup [] s'"
    "sample_settled \<in> set (cs_log s')" using sample_convex by blast
  show ?thesis using card_hides_parties [of s "\<lambda>_. False" False s'] s s'
    by (intro conjI exI [of _ s] exI [of _ s']) (auto simp: list_all_iff)
qed

end
