(* ===== verification/Connections.thy ===== *)
theory Connections
  imports PaymentRequest "HOL-Library.AList"
begin

text \<open>
  The agent connections of the MCP server: \<open>McpConnectionRegistry\<close> of \<open>mcp-server/src/connections.ts\<close> in memory (register,
  identify, observe, list, revoke, inbox, rate limit). A time stamp
  is its number of milliseconds; ISO texts of one format sort in the same order. The random ids and tokens are
  arguments. SHA-256 comes from \<open>C\<close>. The registry is a step relation whose invariant accounts for every call; the
  bound of the rate limit comes from a lemma about disjoint windows.
\<close>

section \<open>Connections\<close>

record ConnectionToolCall =
  tc_name :: jstext
  tc_count :: nat
  tc_lastCalledAt :: int

record PublicMcpConnection =
  cn_id :: jstext
  cn_wallet :: jstext
  cn_agentName :: jstext
  cn_scope :: jstext
  cn_connectedAt :: int
  cn_lastSeenAt :: "int option"
  cn_totalCalls :: nat
  cn_toolsCalled :: "ConnectionToolCall list"

record MemoryConnectionRecord = PublicMcpConnection +
  mc_tokenHash :: jstext
  mc_revokedAt :: "int option"

type_synonym connection_map = "(jstext \<times> MemoryConnectionRecord) list"

definition publicMemoryRecord :: "MemoryConnectionRecord \<Rightarrow> PublicMcpConnection" where
  "publicMemoryRecord = PublicMcpConnection.truncate"

definition lower_letter :: "nat \<Rightarrow> nat" where
  "lower_letter c = (if 65 \<le> c \<and> c \<le> 90 then c + 32 else c)"

text \<open>The first two pieces of \<open>authorization.split(" ")\<close>.\<close>

definition first_word :: "jstext \<Rightarrow> jstext" where "first_word s = takeWhile (\<lambda>c. c \<noteq> 32) s"
definition after_word :: "jstext \<Rightarrow> jstext" where "after_word s = drop 1 (dropWhile (\<lambda>c. c \<noteq> 32) s)"

definition bearerToken :: "jstext option \<Rightarrow> jstext option" where
  "bearerToken authorization = (case authorization of
     None \<Rightarrow> None
   | Some s \<Rightarrow>
       let scheme = first_word s; token = first_word (after_word s) in
       if map lower_letter scheme = jstr ''bearer'' \<and> token \<noteq> [] then Some token else None)"

definition tokenHash :: "crypto \<Rightarrow> jstext \<Rightarrow> jstext" where
  "tokenHash C token = jstr (hex_str (cr_sha256 C (utf8 token)))"

definition register :: "crypto \<Rightarrow> int \<Rightarrow> jstext \<Rightarrow> jstext \<Rightarrow> jstext \<Rightarrow> jstext \<Rightarrow> jstext option \<Rightarrow> connection_map \<Rightarrow>
    connection_map \<times> (PublicMcpConnection \<times> jstext) result" where
  "register C now uuid randomHex wallet agentName scope records =
     (let wallet' = js_trim wallet; agent = js_trim agentName in
      if wallet' = [] \<or> units wallet' > 44 then (records, Inl ''wallet is required and must be a Solana address'')
      else if agent = [] \<or> units agent > 128 then (records, Inl ''agentName must contain 1..128 characters'')
      else if (case scope of Some s \<Rightarrow> units s | None \<Rightarrow> 0) > 8192 then (records, Inl ''scope is too large'')
      else
        let token = jstr ''cp_agent_'' @ randomHex;
            trimmed = (case scope of Some s \<Rightarrow> js_trim s | None \<Rightarrow> []);
            record = \<lparr>cn_id = jstr ''conn_'' @ uuid, cn_wallet = wallet', cn_agentName = agent,
              cn_scope = (if trimmed = [] then jstr ''Unscoped'' else trimmed), cn_connectedAt = now, cn_lastSeenAt = None,
              cn_totalCalls = 0, cn_toolsCalled = [], mc_tokenHash = tokenHash C token, mc_revokedAt = None\<rparr> in
        (AList.update (cn_id record) record records, Inr (publicMemoryRecord record, token)))"

definition active_record :: "jstext \<Rightarrow> connection_map \<Rightarrow> MemoryConnectionRecord option" where
  "active_record hash records = find (\<lambda>r. mc_tokenHash r = hash \<and> mc_revokedAt r = None) (map snd records)"

definition identify :: "crypto \<Rightarrow> jstext option \<Rightarrow> connection_map \<Rightarrow> PublicMcpConnection option" where
  "identify C authorization records = (case bearerToken authorization of
     None \<Rightarrow> None
   | Some token \<Rightarrow> map_option publicMemoryRecord (active_record (tokenHash C token) records))"

text \<open>\<open>find\<close> returns the object itself, so its fields are updated in place.\<close>

fun updateToolCalls :: "ConnectionToolCall list \<Rightarrow> jstext \<Rightarrow> int \<Rightarrow> ConnectionToolCall list" where
  "updateToolCalls [] name now = [\<lparr>tc_name = name, tc_count = 1, tc_lastCalledAt = now\<rparr>]"
| "updateToolCalls (tool # calls) name now =
     (if tc_name tool = name then tool\<lparr>tc_count := tc_count tool + 1, tc_lastCalledAt := now\<rparr> # calls
      else tool # updateToolCalls calls name now)"

definition applyObservation :: "MemoryConnectionRecord \<Rightarrow> jstext option \<Rightarrow> int \<Rightarrow> MemoryConnectionRecord" where
  "applyObservation record name now =
     (let seen = record\<lparr>cn_lastSeenAt := Some now\<rparr> in
      case name of
        None \<Rightarrow> seen
      | Some n \<Rightarrow> if n = [] then seen
          else seen\<lparr>cn_totalCalls := cn_totalCalls seen + 1, cn_toolsCalled := updateToolCalls (cn_toolsCalled seen) n now\<rparr>)"

definition observe :: "crypto \<Rightarrow> int \<Rightarrow> jstext option \<Rightarrow> jstext option \<Rightarrow> connection_map \<Rightarrow> connection_map" where
  "observe C now authorization name records = (case bearerToken authorization of
     None \<Rightarrow> records
   | Some token \<Rightarrow> (case active_record (tokenHash C token) records of
       None \<Rightarrow> records
     | Some record \<Rightarrow> AList.update (cn_id record) (applyObservation record name now) records))"

definition list_connections :: "jstext \<Rightarrow> connection_map \<Rightarrow> PublicMcpConnection list" where
  "list_connections wallet records =
     map publicMemoryRecord (sort_key (\<lambda>r. - cn_connectedAt r)
       (filter (\<lambda>r. cn_wallet r = js_trim wallet \<and> mc_revokedAt r = None) (map snd records)))"

definition revoke :: "int \<Rightarrow> jstext \<Rightarrow> jstext \<Rightarrow> connection_map \<Rightarrow> connection_map \<times> bool" where
  "revoke now wallet connId records = (case map_of records connId of
     None \<Rightarrow> (records, False)
   | Some record \<Rightarrow>
       if cn_wallet record \<noteq> js_trim wallet \<or> mc_revokedAt record \<noteq> None then (records, False)
       else (AList.update connId (record\<lparr>mc_revokedAt := Some now\<rparr>) records, True))"

section \<open>Inbox\<close>

datatype InboxRole = User | Assistant | Tool

record PublicInboxMessage =
  im_id :: jstext
  im_wallet :: jstext
  im_role :: InboxRole
  im_content :: json
  im_createdAt :: int

record MemoryInboxMessage = PublicInboxMessage +
  mi_sequence :: nat

definition publicMemoryInbox :: "MemoryInboxMessage \<Rightarrow> PublicInboxMessage" where
  "publicMemoryInbox = PublicInboxMessage.truncate"

record Inbox =
  ib_messages :: "(jstext \<times> MemoryInboxMessage) list"
  ib_sequence :: nat

definition appendInboxMessage :: "int \<Rightarrow> jstext \<Rightarrow> jstext \<Rightarrow> InboxRole \<Rightarrow> json \<Rightarrow> Inbox \<Rightarrow> Inbox \<times> PublicInboxMessage result" where
  "appendInboxMessage now uuid wallet role content inbox =
     (let normalized = js_trim wallet in
      if normalized = [] then (inbox, Inl ''wallet is required to persist inbox history'')
      else
        let sequence = ib_sequence inbox + 1;
            record = \<lparr>im_id = jstr ''msg_'' @ uuid, im_wallet = normalized, im_role = role, im_content = content,
              im_createdAt = now, mi_sequence = sequence\<rparr> in
        (\<lparr>ib_messages = AList.update (im_id record) record (ib_messages inbox), ib_sequence = sequence\<rparr>,
         Inr (publicMemoryInbox record)))"

definition listInbox :: "jstext \<Rightarrow> int \<Rightarrow> Inbox \<Rightarrow> PublicInboxMessage list" where
  "listInbox wallet limit inbox =
     map publicMemoryInbox (take (nat (max 1 (min limit 100)))
       (sort_key (\<lambda>m. - int (mi_sequence m)) (filter (\<lambda>m. im_wallet m = js_trim wallet) (map snd (ib_messages inbox)))))"

section \<open>Rate limits\<close>

text \<open>In memory: per key the start of its window and the number of calls accepted in it.\<close>

type_synonym rates = "(jstext \<times> (int \<times> int)) list"

definition rateLimit :: "jstext \<Rightarrow> int \<Rightarrow> int \<Rightarrow> int \<Rightarrow> rates \<Rightarrow> rates \<times> bool" where
  "rateLimit key now limit windowMs rates =
     (let live = filter (\<lambda>(id, startedAt, count). \<not> now - startedAt \<ge> windowMs) rates in
      if length live \<ge> 10000 \<and> map_of live key = None then (live, False)
      else case map_of live key of
        None \<Rightarrow> (AList.update key (now, 1) live, True)
      | Some (startedAt, count) \<Rightarrow>
          if count \<ge> limit then (live, False) else (AList.update key (startedAt, count + 1) live, True))"

section \<open>All requests together\<close>

text \<open>
  A new id and a new token are random: no connection has them yet. Tokens are hashed, so the same is asked of the
  hash.
\<close>

inductive conn_step :: "crypto \<Rightarrow> connection_map \<Rightarrow> connection_map \<Rightarrow> bool" for C where
  registered: "register C now uuid randomHex wallet agentName scope records = (records', outcome) \<Longrightarrow>
    map_of records (jstr ''conn_'' @ uuid) = None \<Longrightarrow>
    tokenHash C (jstr ''cp_agent_'' @ randomHex) \<notin> mc_tokenHash ` snd ` set records \<Longrightarrow> conn_step C records records'"
| observed: "conn_step C records (observe C now authorization name records)"
| revoked: "revoke now wallet connId records = (records', found) \<Longrightarrow> conn_step C records records'"

text \<open>
  The invariant: ids and token hashes are unique, and the calls of a connection are the sum of the calls of its
  tools, each listed once.
\<close>

definition connection_ok :: "MemoryConnectionRecord \<Rightarrow> bool" where
  "connection_ok r \<longleftrightarrow> cn_totalCalls r = sum_list (map tc_count (cn_toolsCalled r)) \<and> distinct (map tc_name (cn_toolsCalled r)) \<and>
     list_all (\<lambda>t. tc_count t > 0) (cn_toolsCalled r)"

definition registry_ok :: "connection_map \<Rightarrow> bool" where
  "registry_ok records \<longleftrightarrow> distinct (map fst records) \<and> distinct (map (mc_tokenHash \<circ> snd) records) \<and>
     list_all (\<lambda>(i, r). i = cn_id r \<and> connection_ok r) records"

lemma update_existing:
  assumes "distinct (map fst xs)" and "map_of xs k = Some v"
  shows "\<exists>ys zs. xs = ys @ (k, v) # zs \<and> AList.update k w xs = ys @ (k, w) # zs"
  using assms
proof (induction xs)
  case (Cons x xs)
  show ?case
  proof (cases "fst x = k")
    case True
    then show ?thesis using Cons by (cases x) auto
  next
    case False
    with Cons obtain ys zs where "xs = ys @ (k, v) # zs" "AList.update k w xs = ys @ (k, w) # zs" by (cases x) auto
    then show ?thesis using False by (cases x) (auto intro: exI [of _ "x # ys"])
  qed
qed simp

lemma update_fresh: "map_of xs k = None \<Longrightarrow> AList.update k w xs = xs @ [(k, w)]"
  by (induction xs) (auto split: if_splits)

lemma active_record_Some:
  "active_record hash records = Some r \<Longrightarrow> \<exists>i. (i, r) \<in> set records \<and> mc_tokenHash r = hash \<and> mc_revokedAt r = None"
  by (auto simp: active_record_def find_Some_iff) (metis nth_mem prod.collapse)

lemma tool_calls_sum: "sum_list (map tc_count (updateToolCalls calls name now)) = sum_list (map tc_count calls) + 1"
  by (induction calls) auto

lemma tool_calls_names: "tc_name ` set (updateToolCalls calls name now) = insert name (tc_name ` set calls)"
  by (induction calls) auto

lemma tool_calls_distinct: "distinct (map tc_name calls) \<Longrightarrow> distinct (map tc_name (updateToolCalls calls name now))"
  by (induction calls) (auto simp: tool_calls_names)

lemma tool_calls_positive: "list_all (\<lambda>t. tc_count t > 0) calls \<Longrightarrow> list_all (\<lambda>t. tc_count t > 0) (updateToolCalls calls name now)"
  by (induction calls) auto

lemma observation_ok:
  "connection_ok r \<Longrightarrow> connection_ok (applyObservation r name now)"
  by (auto simp: connection_ok_def applyObservation_def Let_def tool_calls_sum tool_calls_distinct tool_calls_positive split: option.splits)

lemma observation_keeps [simp]:
  "cn_id (applyObservation r name now) = cn_id r" "mc_tokenHash (applyObservation r name now) = mc_tokenHash r"
  "mc_revokedAt (applyObservation r name now) = mc_revokedAt r" "cn_wallet (applyObservation r name now) = cn_wallet r"
  "cn_scope (applyObservation r name now) = cn_scope r"
  by (auto simp: applyObservation_def Let_def split: option.splits)

text \<open>How a connection changes: its identity never, and nothing of it after it was revoked.\<close>

definition evolves :: "MemoryConnectionRecord \<Rightarrow> MemoryConnectionRecord \<Rightarrow> bool" where
  "evolves r r' \<longleftrightarrow> cn_wallet r' = cn_wallet r \<and> cn_scope r' = cn_scope r \<and> mc_tokenHash r' = mc_tokenHash r \<and>
     cn_totalCalls r \<le> cn_totalCalls r' \<and> (mc_revokedAt r \<noteq> None \<longrightarrow> r' = r)"

lemma evolves_refl: "evolves r r"
  by (simp add: evolves_def)

lemma evolves_trans: "evolves r s \<Longrightarrow> evolves s t \<Longrightarrow> evolves r t"
  by (auto simp: evolves_def)

definition all_evolve :: "connection_map \<Rightarrow> connection_map \<Rightarrow> bool" where
  "all_evolve records records' \<longleftrightarrow> (\<forall>i r. map_of records i = Some r \<longrightarrow> (\<exists>r'. map_of records' i = Some r' \<and> evolves r r'))"

lemma registry_lookup: "registry_ok records \<Longrightarrow> (i, r) \<in> set records \<Longrightarrow> map_of records i = Some r \<and> i = cn_id r"
  by (auto simp: registry_ok_def list_all_iff)

lemma replace_ok:
  assumes ok: "registry_ok records" and r: "map_of records i = Some r"
    and r': "cn_id r' = cn_id r" "mc_tokenHash r' = mc_tokenHash r" "connection_ok r'" "evolves r r'"
  shows "registry_ok (AList.update i r' records) \<and> all_evolve records (AList.update i r' records)"
proof -
  from ok have "distinct (map fst records)" by (simp add: registry_ok_def)
  from update_existing [OF this r, of r'] obtain ys zs where
    split: "records = ys @ (i, r) # zs" "AList.update i r' records = ys @ (i, r') # zs" by blast
  have "registry_ok (ys @ (i, r) # zs)" using ok split(1) by simp
  then have "registry_ok (AList.update i r' records)" unfolding split(2) using r' by (auto simp: registry_ok_def)
  moreover have "all_evolve records (AList.update i r' records)"
    using r r'(4) evolves_refl by (auto simp: all_evolve_def update_conv')
  ultimately show ?thesis by blast
qed

lemma observed_ok:
  assumes "registry_ok records"
  shows "registry_ok (observe C now authorization name records) \<and> all_evolve records (observe C now authorization name records)"
proof (cases "bearerToken authorization")
  case (Some token)
  show ?thesis
  proof (cases "active_record (tokenHash C token) records")
    case active: (Some r)
    then obtain i where "(i, r) \<in> set records" "mc_revokedAt r = None" using active_record_Some by blast
    then have r: "map_of records (cn_id r) = Some r" "connection_ok r" and "mc_revokedAt r = None"
      using registry_lookup [OF assms] assms by (auto simp: registry_ok_def list_all_iff)
    have "cn_totalCalls r \<le> cn_totalCalls (applyObservation r name now)"
      by (auto simp: applyObservation_def Let_def split: option.splits)
    then have "evolves r (applyObservation r name now)" using \<open>mc_revokedAt r = None\<close> by (simp add: evolves_def)
    then show ?thesis using replace_ok [OF assms r(1)] observation_ok [OF r(2)] Some active by (simp add: observe_def)
  qed (use Some assms evolves_refl in \<open>simp add: observe_def all_evolve_def\<close>)
qed (use assms evolves_refl in \<open>simp add: observe_def all_evolve_def\<close>)

lemma step_ok:
  assumes "conn_step C records records'" and ok: "registry_ok records"
  shows "registry_ok records' \<and> all_evolve records records'"
  using assms
proof (induction rule: conn_step.induct)
  case (registered now uuid randomHex wallet agentName scope records records' outcome)
  show ?case
  proof (cases "records' = records")
    case False
    with registered(1) obtain r where r: "records' = AList.update (cn_id r) r records" "cn_id r = jstr ''conn_'' @ uuid"
      "mc_tokenHash r = tokenHash C (jstr ''cp_agent_'' @ randomHex)" "connection_ok r"
      by (auto simp: register_def Let_def connection_ok_def split: if_splits)
    have "records' = records @ [(cn_id r, r)]" using update_fresh registered(2) r(1,2) by simp
    then show ?thesis using registered(2-4) r evolves_refl
      by (auto simp: registry_ok_def all_evolve_def map_of_eq_None_iff map_add_def split: option.splits)
  qed (use registered evolves_refl in \<open>simp add: all_evolve_def\<close>)
next
  case (observed records now authorization name)
  then show ?case using observed_ok by blast
next
  case (revoked now wallet connId records records' found)
  show ?case
  proof (cases "map_of records connId")
    case (Some r)
    then have "connection_ok r" using revoked(2) by (auto simp: registry_ok_def list_all_iff dest: map_of_SomeD)
    then have "evolves r (r\<lparr>mc_revokedAt := Some now\<rparr>)" if "mc_revokedAt r = None" using that by (simp add: evolves_def)
    then show ?thesis
      using replace_ok [OF revoked(2) Some, of "r\<lparr>mc_revokedAt := Some now\<rparr>"] revoked Some \<open>connection_ok r\<close> evolves_refl
      by (auto simp: revoke_def connection_ok_def all_evolve_def split: if_splits)
  qed (use revoked evolves_refl in \<open>simp add: revoke_def all_evolve_def\<close>)
qed

lemma steps_ok:
  assumes "(conn_step C)\<^sup>*\<^sup>* records records'" and "registry_ok records"
  shows "registry_ok records' \<and> all_evolve records records'"
  using assms
proof (induction rule: rtranclp_induct)
  case (step b c)
  then have "registry_ok c" "all_evolve records b" "all_evolve b c" using step_ok by blast+
  then show ?case unfolding all_evolve_def using evolves_trans by metis
qed (use evolves_refl in \<open>simp add: all_evolve_def\<close>)

lemma reachable_ok: "(conn_step C)\<^sup>*\<^sup>* [] records \<Longrightarrow> registry_ok records"
  using steps_ok [of C "[]" records] by (simp add: registry_ok_def)

lemma token_unique:
  assumes "registry_ok records" and "(i, r) \<in> set records" and "(j, s) \<in> set records" and "mc_tokenHash r = mc_tokenHash s"
  shows "r = s"
proof -
  have "inj_on (mc_tokenHash \<circ> snd) (set records)" using assms(1) by (simp add: registry_ok_def distinct_map)
  from inj_onD [OF this _ assms(2,3)] assms(4) show ?thesis by simp
qed

lemma revoked_stays: "all_evolve records later \<Longrightarrow> map_of records i = Some r \<Longrightarrow> mc_revokedAt r \<noteq> None \<Longrightarrow> map_of later i = Some r"
  unfolding all_evolve_def evolves_def by metis

lemma identify_Some:
  assumes "registry_ok records" and "identify C authorization records = Some c"
  shows "\<exists>token r. bearerToken authorization = Some token \<and> map_of records (cn_id r) = Some r \<and> mc_tokenHash r = tokenHash C token \<and>
    mc_revokedAt r = None \<and> c = publicMemoryRecord r"
  using assms active_record_Some registry_lookup [OF assms(1)]
  by (fastforce simp: identify_def split: option.splits)

lemma public_fields [simp]:
  "cn_id (publicMemoryRecord r) = cn_id r" "cn_wallet (publicMemoryRecord r) = cn_wallet r"
  "cn_scope (publicMemoryRecord r) = cn_scope r" "cn_totalCalls (publicMemoryRecord r) = cn_totalCalls r"
  "cn_toolsCalled (publicMemoryRecord r) = cn_toolsCalled r"
  by (simp_all add: publicMemoryRecord_def PublicMcpConnection.truncate_def)

lemma revoked_never_active:
  assumes "registry_ok records" and "map_of records i = Some r" and "mc_revokedAt r \<noteq> None"
  shows "active_record (mc_tokenHash r) records = None"
proof (rule ccontr)
  assume "active_record (mc_tokenHash r) records \<noteq> None"
  then obtain j s where s: "(j, s) \<in> set records" "mc_tokenHash s = mc_tokenHash r" "mc_revokedAt s = None"
    using active_record_Some by fastforce
  moreover have "(i, r) \<in> set records" using assms(2) by (rule map_of_SomeD)
  ultimately have "s = r" using token_unique [OF assms(1)] by blast
  then show False using s(3) assms(3) by simp
qed

lemma revoked_later:
  assumes "(conn_step C)\<^sup>*\<^sup>* [] records" and "map_of records connId = Some r" and "revoke now wallet connId records = (records', True)"
    and "(conn_step C)\<^sup>*\<^sup>* records' later"
  shows "registry_ok later" and "map_of later connId = Some (r\<lparr>mc_revokedAt := Some now\<rparr>)"
    and "active_record (mc_tokenHash r) later = None"
proof -
  let ?r = "r\<lparr>mc_revokedAt := Some now\<rparr>"
  have ok: "registry_ok records'" using reachable_ok [OF assms(1)] conn_step.revoked [OF assms(3)] step_ok by blast
  have "map_of records' connId = Some ?r" using assms(2,3) by (auto simp: revoke_def update_conv' split: if_splits)
  then show later: "registry_ok later" "map_of later connId = Some ?r"
    using steps_ok [OF assms(4) ok] revoked_stays [of records' later connId ?r] by simp_all
  show "active_record (mc_tokenHash r) later = None" using revoked_never_active [OF later] by simp
qed

text \<open>
  Revoking a connection is final: once \<open>revoke\<close> has returned true, no sequence of registrations, observed
  calls and revocations makes its token valid again, its owner no longer sees it listed, and its record,
  call counts included, never changes again.
\<close>

theorem revoked_connection_dead:
  assumes "(conn_step C)\<^sup>*\<^sup>* [] records" and "map_of records connId = Some r" and "revoke now wallet connId records = (records', True)"
    and "(conn_step C)\<^sup>*\<^sup>* records' later" and "bearerToken authorization = Some token" and "tokenHash C token = mc_tokenHash r"
  shows "identify C authorization later = None \<and> connId \<notin> cn_id ` set (list_connections anyone later) \<and>
    map_of later connId = Some (r\<lparr>mc_revokedAt := Some now\<rparr>)"
proof -
  note later = revoked_later [OF assms(1-4)]
  have "connId \<notin> cn_id ` set (list_connections anyone later)"
  proof
    assume "connId \<in> cn_id ` set (list_connections anyone later)"
    then obtain j s where s: "(j, s) \<in> set later" "mc_revokedAt s = None" "cn_id s = connId"
      by (auto simp: list_connections_def)
    then have "map_of later connId = Some s" using registry_lookup [OF later(1)] by auto
    then show False using later(2) s(2) by auto
  qed
  then show ?thesis using later(2,3) assms(5,6) by (simp add: identify_def)
qed

lemma same_connection:
  assumes ok: "registry_ok records" and steps: "(conn_step C)\<^sup>*\<^sup>* records later" and s: "identify C authorization later = Some s"
    and r: "bearerToken authorization = Some token" "map_of records (cn_id r) = Some r" "mc_tokenHash r = tokenHash C token"
  shows "cn_wallet s = cn_wallet r \<and> cn_scope s = cn_scope r"
proof -
  from steps_ok [OF steps ok] have later: "registry_ok later" "all_evolve records later" by auto
  from later(2) r(2) obtain r' where r': "map_of later (cn_id r) = Some r'" "evolves r r'" by (auto simp: all_evolve_def)
  from identify_Some [OF later(1) s] r(1) obtain q where q: "map_of later (cn_id q) = Some q" "mc_tokenHash q = tokenHash C token"
    "s = publicMemoryRecord q" by auto
  have "q = r'"
    using token_unique [OF later(1) map_of_SomeD [OF q(1)] map_of_SomeD [OF r'(1)]] q(2) r(3) r'(2) by (simp add: evolves_def)
  then show ?thesis using q(3) r'(2) by (simp add: evolves_def)
qed

text \<open>
  The registry accounts for every call: in every reachable state ids and tokens belong to one connection each, the
  total of a connection is the sum over its tools, each listed once and called at least once; and a request
  is identified as the one active connection of its token, of the wallet and with the scope it was registered with.
\<close>

theorem connection_calls_accounted:
  assumes "(conn_step C)\<^sup>*\<^sup>* [] records"
  shows "registry_ok records \<and> (\<forall>authorization c. identify C authorization records = Some c \<longrightarrow>
    (\<exists>token r. bearerToken authorization = Some token \<and> map_of records (cn_id c) = Some r \<and> mc_tokenHash r = tokenHash C token \<and>
      mc_revokedAt r = None \<and> c = publicMemoryRecord r \<and> cn_totalCalls c = sum_list (map tc_count (cn_toolsCalled c)) \<and>
      (\<forall>later s. (conn_step C)\<^sup>*\<^sup>* records later \<and> identify C authorization later = Some s \<longrightarrow>
        cn_wallet s = cn_wallet c \<and> cn_scope s = cn_scope c)))"
proof (intro conjI allI impI)
  show ok: "registry_ok records" by (rule reachable_ok [OF assms])
  fix authorization c
  assume "identify C authorization records = Some c"
  from identify_Some [OF ok this] obtain token r where r: "bearerToken authorization = Some token" "map_of records (cn_id r) = Some r"
    "mc_tokenHash r = tokenHash C token" "mc_revokedAt r = None" "c = publicMemoryRecord r" by blast
  have "connection_ok r" using ok r(2) by (auto simp: registry_ok_def list_all_iff dest: map_of_SomeD)
  moreover have "cn_wallet s = cn_wallet c \<and> cn_scope s = cn_scope c"
    if "(conn_step C)\<^sup>*\<^sup>* records later" "identify C authorization later = Some s" for later s
    using same_connection [OF ok that r(1-3)] r(5) by simp
  ultimately show "\<exists>token r. bearerToken authorization = Some token \<and> map_of records (cn_id c) = Some r \<and>
      mc_tokenHash r = tokenHash C token \<and> mc_revokedAt r = None \<and> c = publicMemoryRecord r \<and>
      cn_totalCalls c = sum_list (map tc_count (cn_toolsCalled c)) \<and>
      (\<forall>later s. (conn_step C)\<^sup>*\<^sup>* records later \<and> identify C authorization later = Some s \<longrightarrow>
        cn_wallet s = cn_wallet c \<and> cn_scope s = cn_scope c)"
    using r by (intro exI [of _ token] exI [of _ r]) (auto simp: connection_ok_def)
qed

section \<open>The bound of the rate limit\<close>

text \<open>
  Accepted calls of one key, each with the start of its window: when windows are disjoint and none accepts more than
  \<open>L\<close> calls, any stretch of time of the length of a window contains at most \<open>2 * L\<close> of them.
\<close>

definition windows_ok :: "int \<Rightarrow> int \<Rightarrow> (int \<times> int) list \<Rightarrow> bool" where
  "windows_ok w L log \<longleftrightarrow>
     (\<forall>(s, t) \<in> set log. s \<le> t \<and> t < s + w) \<and> (\<forall>s. int (length (filter (\<lambda>x. fst x = s) log)) \<le> L) \<and>
     (\<forall>s \<in> fst ` set log. \<forall>s' \<in> fst ` set log. s < s' \<longrightarrow> s + w \<le> s')"

lemma count_by_start:
  assumes "finite S" and "\<And>s. s \<in> S \<Longrightarrow> int (length (filter (\<lambda>x. fst x = s) log)) \<le> L" and "fst ` set xs \<subseteq> S"
    and "\<And>s. length (filter (\<lambda>x. fst x = s) xs) \<le> length (filter (\<lambda>x. fst x = s) log)"
  shows "int (length xs) \<le> int (card S) * L"
proof -
  have "length xs = (\<Sum>s \<in> S. length (filter (\<lambda>x. fst x = s) xs))"
    using assms(1,3)
  proof (induction xs)
    case (Cons x xs)
    have "(\<Sum>s \<in> S. length (filter (\<lambda>y. fst y = s) (x # xs))) =
        (\<Sum>s \<in> S. (if fst x = s then 1 else 0) + length (filter (\<lambda>y. fst y = s) xs))"
      by (rule sum.cong) auto
    also have "\<dots> = 1 + length xs" using Cons by (simp add: sum.distrib)
    finally show ?case by simp
  qed simp
  also have "int \<dots> \<le> (\<Sum>s \<in> S. L)"
    unfolding of_nat_sum by (rule sum_mono) (use assms(2,4) in \<open>meson of_nat_mono order_trans\<close>)
  also have "\<dots> = int (card S) * L" by simp
  finally show ?thesis by simp
qed

lemma two_windows:
  assumes ok: "windows_ok w L log" and w: "0 < w" and L: "0 \<le> L"
  shows "int (length (filter (\<lambda>x. a \<le> snd x \<and> snd x < a + w) log)) \<le> 2 * L"
proof -
  let ?xs = "filter (\<lambda>x. a \<le> snd x \<and> snd x < a + w) log"
  let ?S = "fst ` set ?xs"
  have spaced: "s + w \<le> s' \<or> s' + w \<le> s" if "s \<in> ?S" "s' \<in> ?S" "s \<noteq> s'" for s s'
    using ok that unfolding windows_ok_def by (meson filter_is_subset image_mono linorder_neqE subsetD)
  have near: "a - w < s \<and> s < a + w" if "s \<in> ?S" for s
    using ok that unfolding windows_ok_def by force
  have "card ?S \<le> 2"
  proof (rule ccontr)
    assume "\<not> card ?S \<le> 2"
    then have "3 \<le> card ?S" by linarith
    then obtain T where T: "T \<subseteq> ?S" "card T = 3" by (rule obtain_subset_with_card_n)
    from T(2) obtain x y z where xyz: "T = {x, y, z}" "x \<noteq> y" "y \<noteq> z" "x \<noteq> z" unfolding card_3_iff by metis
    then have "x \<in> ?S" "y \<in> ?S" "z \<in> ?S" using T(1) by (simp_all only: insert_subset)
    then show False using xyz spaced [of x y] spaced [of y z] spaced [of x z] near [of x] near [of y] near [of z] w by linarith
  qed
  then have "int (card ?S) * L \<le> 2 * L" using L by (intro mult_right_mono) simp_all
  moreover have "length (filter (\<lambda>x. fst x = s) ?xs) \<le> length (filter (\<lambda>x. fst x = s) log)" for s
    by (induction log) auto
  then have "int (length ?xs) \<le> int (card ?S) * L"
    using ok by (intro count_by_start [where log = log]) (simp_all add: windows_ok_def)
  ultimately show ?thesis by simp
qed


text \<open>The calls that the limiter in memory accepts, one after the other.\<close>

fun accepted :: "int \<Rightarrow> int \<Rightarrow> rates \<Rightarrow> (jstext \<times> int) list \<Rightarrow> (jstext \<times> int) list" where
  "accepted limit w rates [] = []"
| "accepted limit w rates ((key, now) # calls) =
     (case rateLimit key now limit w rates of (rates', ok) \<Rightarrow>
       (if ok then [(key, now)] else []) @ accepted limit w rates' calls)"

text \<open>The windows in which it accepts the calls of one key.\<close>

fun rate_log :: "jstext \<Rightarrow> int \<Rightarrow> int \<Rightarrow> rates \<Rightarrow> (jstext \<times> int) list \<Rightarrow> (int \<times> int) list" where
  "rate_log k limit w rates [] = []"
| "rate_log k limit w rates ((key, now) # calls) =
     (case rateLimit key now limit w rates of (rates', ok) \<Rightarrow>
       (if ok \<and> key = k then [(fst (the (map_of rates' k)), now)] else []) @ rate_log k limit w rates' calls)"

lemma rate_log_times:
  "map snd (rate_log k limit w rates calls) = map snd (filter (\<lambda>x. fst x = k) (accepted limit w rates calls))"
  by (induction calls arbitrary: rates) (auto split: prod.splits)

definition live_rates :: "int \<Rightarrow> int \<Rightarrow> rates \<Rightarrow> rates" where
  "live_rates now w rates = filter (\<lambda>(i, startedAt, count). \<not> now - startedAt \<ge> w) rates"

lemma map_of_live_rates:
  "distinct (map fst rates) \<Longrightarrow> map_of (live_rates now w rates) k =
     (case map_of rates k of Some (s, c) \<Rightarrow> if now < s + w then Some (s, c) else None | None \<Rightarrow> None)"
  by (induction rates) (auto simp: live_rates_def split: option.splits, auto simp: map_of_eq_None_iff image_iff)

lemma live_rates_distinct: "distinct (map fst rates) \<Longrightarrow> distinct (map fst (live_rates now w rates))"
  by (simp add: live_rates_def distinct_map_filter)

definition rate_inv :: "jstext \<Rightarrow> int \<Rightarrow> int \<Rightarrow> rates \<Rightarrow> (int \<times> int) list \<Rightarrow> int \<Rightarrow> bool" where
  "rate_inv k w L rates log now \<longleftrightarrow> distinct (map fst rates) \<and> windows_ok w L log \<and>
     (case map_of rates k of
        Some (s, c) \<Rightarrow> c = int (length (filter (\<lambda>x. fst x = s) log)) \<and> 1 \<le> c \<and> (\<forall>x \<in> set log. fst x \<le> s) \<and> s \<le> now
      | None \<Rightarrow> \<forall>x \<in> set log. fst x + w \<le> now)"

lemma rate_inv_live:
  assumes "rate_inv k w L rates log now" and "now \<le> t"
  shows "rate_inv k w L (live_rates t w rates) log t"
proof (cases "map_of rates k")
  case (Some e)
  then obtain s c where e: "map_of rates k = Some (s, c)" by (cases e) simp
  then show ?thesis using assms live_rates_distinct [of rates t w]
    by (fastforce simp: rate_inv_def map_of_live_rates simp del: map_of_eq_Some_iff)
qed (use assms live_rates_distinct [of rates t w] in \<open>force simp: rate_inv_def map_of_live_rates\<close>)

lemma rate_inv_other:
  assumes "rate_inv k w L rates log now" and "key \<noteq> k"
  shows "rate_inv k w L (AList.update key e rates) log now"
  using assms by (simp add: rate_inv_def update_conv' distinct_update)

lemma rate_inv_first:
  assumes inv: "rate_inv k w L rates log now" and none: "map_of rates k = None" and w: "0 < w" and L: "1 \<le> L"
  shows "rate_inv k w L (AList.update k (now, 1) rates) ((now, now) # log) now"
proof -
  from inv none have old: "fst x + w \<le> now" if "x \<in> set log" for x using that by (simp add: rate_inv_def)
  then have empty: "filter (\<lambda>x. fst x = now) log = []" using w by (fastforce simp: filter_empty_conv)
  have "windows_ok w L ((now, now) # log)"
    using inv old w L empty unfolding rate_inv_def windows_ok_def by (auto split: if_splits) force+
  then show ?thesis using inv old w empty by (force simp: rate_inv_def update_conv' distinct_update)
qed

lemma rate_inv_more:
  assumes inv: "rate_inv k w L rates log now" and some: "map_of rates k = Some (s, c)" and live: "now < s + w" and more: "c < L"
  shows "rate_inv k w L (AList.update k (s, c + 1) rates) ((s, now) # log) now"
proof -
  from inv some have c: "c = int (length (filter (\<lambda>x. fst x = s) log))" "1 \<le> c" "\<forall>x \<in> set log. fst x \<le> s" "s \<le> now"
    and ok: "windows_ok w L log" by (auto simp: rate_inv_def)
  then have "filter (\<lambda>x. fst x = s) log \<noteq> []" by force
  then have "s \<in> fst ` set log" by (auto simp: filter_empty_conv)
  then have "fst ` set ((s, now) # log) = fst ` set log" by auto
  then have "windows_ok w L ((s, now) # log)" using ok c live more unfolding windows_ok_def by auto
  then show ?thesis using inv some c by (auto simp: rate_inv_def update_conv' distinct_update)
qed

lemma rateLimit_step:
  assumes inv: "rate_inv k w (max 1 limit) rates log now" and "now \<le> t" and w: "0 < w"
    and call: "rateLimit key t limit w rates = (rates', ok)"
  shows "rate_inv k w (max 1 limit) rates' ((if ok \<and> key = k then [(fst (the (map_of rates' k)), t)] else []) @ log) t"
proof -
  note live = rate_inv_live [OF inv assms(2)]
  have d: "distinct (map fst rates)" using inv by (simp add: rate_inv_def)
  show ?thesis
  proof (cases "ok \<and> key = k")
    case False
    then show ?thesis using call live rate_inv_other [OF live, of key]
      by (auto simp: rateLimit_def Let_def live_rates_def [symmetric] split: if_splits option.splits prod.splits)
  next
    case True
    show ?thesis
    proof (cases "map_of (live_rates t w rates) k")
      case None
      then show ?thesis using True call rate_inv_first [OF live None w] 
        by (auto simp: rateLimit_def Let_def live_rates_def [symmetric] update_conv' split: if_splits)
    next
      case (Some e)
      then obtain s c where e: "map_of (live_rates t w rates) k = Some (s, c)" by (cases e) simp
      then have "t < s + w" by (auto simp: map_of_live_rates [OF d] split: option.splits prod.splits if_splits simp del: map_of_eq_Some_iff)
      then show ?thesis using True call rate_inv_more [OF live e] e
        by (auto simp: rateLimit_def Let_def live_rates_def [symmetric] update_conv' split: if_splits simp del: map_of_eq_Some_iff)
    qed
  qed
qed

lemma rate_log_ok:
  assumes "rate_inv k w (max 1 limit) rates log now" and "sorted (now # map snd calls)" and "0 < w"
  shows "windows_ok w (max 1 limit) (rev (rate_log k limit w rates calls) @ log)"
  using assms
proof (induction calls arbitrary: rates log now)
  case (Cons x calls)
  obtain key t where x: "x = (key, t)" by force
  obtain rates' ok where call: "rateLimit key t limit w rates = (rates', ok)" by force
  from Cons.IH [OF rateLimit_step [OF Cons.prems(1) _ Cons.prems(3) call]] Cons.prems(2,3) x call
  show ?case by (cases "ok \<and> key = k") auto
qed (simp add: rate_inv_def)

lemma rate_size: "rateLimit key now limit w rates = (rates', ok) \<Longrightarrow> length rates \<le> 10000 \<Longrightarrow> length rates' \<le> 10000"
proof -
  assume call: "rateLimit key now limit w rates = (rates', ok)" and "length rates \<le> 10000"
  then have "length (live_rates now w rates) \<le> 10000" by (simp add: live_rates_def le_trans [OF length_filter_le])
  moreover have "length (AList.update key e live) = length live" if "map_of live key = Some e'" for e e' and live :: rates
    using that by (induction live) (auto split: if_splits)
  moreover have "length (AList.update key e live) = Suc (length live)" if "map_of live key = None" for e and live :: rates
    using that by (simp add: update_fresh)
  ultimately show ?thesis using call
    by (auto simp: rateLimit_def Let_def live_rates_def [symmetric] split: if_splits option.splits prod.splits simp del: map_of_eq_Some_iff)
qed

text \<open>
  C15. The rate limit bounds bursts: for calls of any keys at times that never go back, in any stretch of time as long as a
  window at most twice the limit of the calls of one key are accepted (a burst may span the end of one window and
  the start of the next; a limit below one still admits one call per window), and the table of windows never holds more than
  10 000 entries.
\<close>

theorem rate_limit_bound:
  assumes "sorted (map snd calls)" and "0 < w"
  shows "int (length (filter (\<lambda>x. fst x = k \<and> a \<le> snd x \<and> snd x < a + w) (accepted limit w [] calls))) \<le> 2 * max 1 limit \<and>
    length (foldl (\<lambda>rates (key, now). fst (rateLimit key now limit w rates)) [] calls) \<le> 10000"
proof
  let ?log = "rate_log k limit w [] calls"
  define t0 where "t0 = (case calls of [] \<Rightarrow> 0 | c # cs \<Rightarrow> snd c)"
  have "sorted (t0 # map snd calls)" using assms(1) by (cases calls) (auto simp: t0_def)
  moreover have "rate_inv k w (max 1 limit) [] [] t0" by (simp add: rate_inv_def windows_ok_def)
  ultimately have "windows_ok w (max 1 limit) (rev ?log)" using rate_log_ok [of k w limit "[]" "[]"] assms(2) by simp
  from two_windows [OF this assms(2), of a]
  have "int (length (filter (\<lambda>x. a \<le> snd x \<and> snd x < a + w) ?log)) \<le> 2 * max 1 limit" by (simp add: rev_filter [symmetric])
  also have "length (filter (\<lambda>x. a \<le> snd x \<and> snd x < a + w) ?log) = length (filter (\<lambda>t. a \<le> t \<and> t < a + w) (map snd ?log))"
    by (simp add: filter_map comp_def)
  finally show "int (length (filter (\<lambda>x. fst x = k \<and> a \<le> snd x \<and> snd x < a + w) (accepted limit w [] calls))) \<le> 2 * max 1 limit"
    by (simp add: rate_log_times filter_map comp_def conj_commute)
next
  have "length rates \<le> 10000 \<Longrightarrow> length (foldl (\<lambda>rates (key, now). fst (rateLimit key now limit w rates)) rates calls) \<le> 10000" for rates
    by (induction calls arbitrary: rates) (auto simp: rate_size [OF prod.collapse [symmetric]])
  then show "length (foldl (\<lambda>rates (key, now). fst (rateLimit key now limit w rates)) [] calls) \<le> 10000" by simp
qed

section \<open>Examples\<close>

theorem rate_limit_bound_witness:
  "sorted (map snd [([1], 0), ([1], 1), ([2], 2), ([1], 2), ([1 :: nat], 10 :: int)]) \<and>
   accepted 2 10 [] [([1], 0), ([1], 1), ([2], 2), ([1], 2), ([1], 10)] = [([1], 0), ([1], 1), ([2], 2), ([1], 10)] \<and>
   int (length (filter (\<lambda>x. fst x = [1] \<and> 1 \<le> snd x \<and> snd x < 1 + 10)
     (accepted 2 10 [] [([1], 0), ([1], 1), ([2], 2), ([1], 2), ([1], 10)]))) \<le> 2 * max 1 2"
  using rate_limit_bound [of "[([1], 0), ([1], 1), ([2], 2), ([1], 2), ([1], 10)]" 10 "[1]" 1 2]
  by (simp add: rateLimit_def)

definition sample_conn_crypto :: crypto where
  "sample_conn_crypto = \<lparr>cr_sha256 = (\<lambda>b. b), cr_verify = (\<lambda>_ _ _. True)\<rparr>"

definition sample_token :: jstext where "sample_token = jstr ''cp_agent_'' @ jstr ''aa''"

definition sample_header :: "jstext option" where "sample_header = Some (jstr ''Bearer cp_agent_aa'')"

definition sample_conn :: MemoryConnectionRecord where
  "sample_conn = \<lparr>cn_id = jstr ''conn_1'', cn_wallet = jstr ''w'', cn_agentName = jstr ''a'', cn_scope = jstr ''Unscoped'',
     cn_connectedAt = 7, cn_lastSeenAt = None, cn_totalCalls = 0, cn_toolsCalled = [],
     mc_tokenHash = tokenHash sample_conn_crypto sample_token, mc_revokedAt = None\<rparr>"

lemma sample_bearer: "bearerToken sample_header = Some sample_token"
  by (simp add: bearerToken_def sample_header_def sample_token_def first_word_def after_word_def jstr_def lower_letter_def)

lemma sample_registered: "conn_step sample_conn_crypto [] [(cn_id sample_conn, sample_conn)]"
proof -
  have "register sample_conn_crypto 7 (jstr ''1'') (jstr ''aa'') (jstr ''w'') (jstr ''a'') None [] =
    ([(cn_id sample_conn, sample_conn)], Inr (publicMemoryRecord sample_conn, sample_token))"
    by (simp add: register_def sample_conn_def sample_token_def jstr_def js_trim_def js_space_def units_def Let_def)
  from conn_step.registered [OF this] show ?thesis by simp
qed

theorem revoked_connection_dead_witness:
  "\<exists>records. (conn_step sample_conn_crypto)\<^sup>*\<^sup>* [] records \<and> identify sample_conn_crypto sample_header records \<noteq> None \<and>
     identify sample_conn_crypto sample_header (fst (revoke 9 (jstr ''w'') (cn_id sample_conn) records)) = None"
proof -
  let ?r = "[(cn_id sample_conn, sample_conn)]"
  have reach: "(conn_step sample_conn_crypto)\<^sup>*\<^sup>* [] ?r" using sample_registered by auto
  have rv: "revoke 9 (jstr ''w'') (cn_id sample_conn) ?r = ([(cn_id sample_conn, sample_conn\<lparr>mc_revokedAt := Some 9\<rparr>)], True)"
    by (simp add: revoke_def sample_conn_def jstr_def js_trim_def js_space_def)
  have m: "map_of ?r (cn_id sample_conn) = Some sample_conn" by simp
  have h: "tokenHash sample_conn_crypto sample_token = mc_tokenHash sample_conn" by (simp add: sample_conn_def)
  have "identify sample_conn_crypto sample_header ?r \<noteq> None"
    by (simp add: identify_def sample_bearer active_record_def sample_conn_def)
  moreover have "identify sample_conn_crypto sample_header (fst (revoke 9 (jstr ''w'') (cn_id sample_conn) ?r)) = None"
    unfolding rv fst_conv using revoked_connection_dead [OF reach m rv rtranclp.rtrancl_refl sample_bearer h] by blast
  ultimately show ?thesis using reach by blast
qed

theorem connection_calls_accounted_witness:
  "\<exists>records c. (conn_step sample_conn_crypto)\<^sup>*\<^sup>* [] records \<and> identify sample_conn_crypto sample_header records = Some c \<and>
     cn_totalCalls c = 1 \<and> sum_list (map tc_count (cn_toolsCalled c)) = 1"
proof -
  let ?r = "observe sample_conn_crypto 8 sample_header (Some (jstr ''get_asset'')) [(cn_id sample_conn, sample_conn)]"
  have "(conn_step sample_conn_crypto)\<^sup>*\<^sup>* [] ?r" using sample_registered conn_step.observed by (meson converse_rtranclp_into_rtranclp r_into_rtranclp)
  moreover from this have "registry_ok ?r \<and> cn_totalCalls c = sum_list (map tc_count (cn_toolsCalled c))"
    if "identify sample_conn_crypto sample_header ?r = Some c" for c
    using connection_calls_accounted that by blast
  moreover obtain c where "identify sample_conn_crypto sample_header ?r = Some c" "cn_totalCalls c = 1"
    by (simp add: identify_def sample_bearer observe_def active_record_def sample_conn_def applyObservation_def jstr_def)
  ultimately show ?thesis by auto
qed

end
