(* ===== verification/Authorization.thy ===== *)
theory Authorization
  imports Connections Accounts
begin

text \<open>
  What an MCP request may do and what its result means: \<open>mcp-server/src/authorization.ts\<close> (scopes, principals, the check of
  every tool call) and \<open>mcp-server/src/outcome.ts\<close> (the reading of tool results). \<open>parse\<close> is \<open>JSON.parse\<close>, with \<open>None\<close> for
  a text it throws on; the session of the backend, the chain and the ownership of cards are asked of the environment.
  The arguments of a tool are a map from their names. The properties say what a scoped connection can reach, that
  revoking it takes effect on requests already admitted, and when a payment is reported as settled.
\<close>

section \<open>Scopes\<close>

record ConnectionScope =
  sc_mandates :: "jstext list"
  sc_tools :: "jstext list"
  sc_agents :: "(jstext \<times> json) list"
  sc_cards :: "jstext list option"

record Principal =
  pr_wallet :: jstext
  pr_scope :: "ConnectionScope option"

definition PUBLIC_TOOLS :: "string list" where
  "PUBLIC_TOOLS = [''get_protocol_config'', ''get_asset'', ''get_supported_assets'', ''verify_payment_request'']"

definition OWNER_TOOLS :: "string list" where
  "OWNER_TOOLS = [''create_mandate'', ''update_mandate'', ''pause_mandate'', ''revoke_mandate'', ''prepare_token_accounts'', ''freeze_agent_card'']"

definition CARD_TOOLS :: "string list" where
  "CARD_TOOLS = [''prepare_agent_card'', ''request_card_checkout'', ''get_card_activity'', ''get_statement'', ''freeze_agent_card'']"

text \<open>\<open>/^[0-9a-f]{64}$/\<close>\<close>

definition CARD_ID :: "jstext \<Rightarrow> bool" where
  "CARD_ID s \<longleftrightarrow> length s = 64 \<and> list_all (\<lambda>c. 48 \<le> c \<and> c \<le> 57 \<or> 97 \<le> c \<and> c \<le> 102) s"

definition INVALID_SCOPE :: string where
  "INVALID_SCOPE = ''Invalid connection scope. Reconnect with explicit permissions.''"

text \<open>The strings of an array of strings.\<close>

fun strings_of :: "json list \<Rightarrow> jstext list option" where
  "strings_of [] = Some []"
| "strings_of (JStr s # vs) = map_option ((#) s) (strings_of vs)"
| "strings_of _ = None"

definition string_array :: "json option \<Rightarrow> jstext list option" where
  "string_array v = (case v of Some (JArr vs) \<Rightarrow> strings_of vs | _ \<Rightarrow> None)"

definition read_cards :: "json option \<Rightarrow> jstext list option result" where
  "read_cards cards = (case cards of
     None \<Rightarrow> Inr None
   | Some _ \<Rightarrow> (case string_array cards of
       None \<Rightarrow> Inl INVALID_SCOPE
     | Some ids \<Rightarrow> if length ids > 20 \<or> \<not> list_all CARD_ID ids then Inl INVALID_SCOPE else Inr (Some ids)))"

definition parseScope :: "json option \<Rightarrow> ConnectionScope result" where
  "parseScope parsed = (case parsed of
     None \<Rightarrow> Inl ''Legacy Unscoped connection. Reconnect and select a mandate and permitted tools.''
   | Some scope \<Rightarrow>
       (let field = (\<lambda>k. case scope of JObj ms \<Rightarrow> map_of ms (jstr k) | _ \<Rightarrow> None) in
        bindR (read_cards (field ''cards'')) (\<lambda>cards.
        case (field ''version'', string_array (field ''mandates''), string_array (field ''tools''), field ''agents'') of
          (Some (JNum (NInt v)), Some mandates, Some tools, Some (JObj agents)) \<Rightarrow>
            if v \<noteq> 1 \<or> (mandates = [] \<and> (cards = None \<or> cards = Some [])) \<or> length mandates > 20 \<or> tools = [] \<or> length tools > 30
            then Inl INVALID_SCOPE
            else Inr \<lparr>sc_mandates = mandates, sc_tools = tools, sc_agents = agents, sc_cards = cards\<rparr>
        | _ \<Rightarrow> Inl INVALID_SCOPE)))"

section \<open>Who is asking\<close>

text \<open>\<open>/^Bearer ([^ ]{32,256})$/\<close>\<close>

definition request_token :: "jstext option \<Rightarrow> jstext option" where
  "request_token authorization = (case authorization of
     None \<Rightarrow> None
   | Some h \<Rightarrow>
       let token = drop 7 h in
       if take 7 h = jstr ''Bearer '' \<and> 32 \<le> units token \<and> units token \<le> 256 \<and> 32 \<notin> set token then Some token else None)"

record Session =
  ss_wallet :: "jstext option"
  ss_expires_at_ms :: "int option"

definition session_principal :: "int \<Rightarrow> Session \<Rightarrow> Principal result" where
  "session_principal now session = (case (ss_wallet session, ss_expires_at_ms session) of
     (Some wallet, Some expires) \<Rightarrow>
       if wallet = [] \<or> expires = 0 \<or> expires \<le> now then Inl ''Invalid wallet session''
       else Inr \<lparr>pr_wallet = wallet, pr_scope = None\<rparr>
   | _ \<Rightarrow> Inl ''Invalid wallet session'')"

definition requestContext :: "crypto \<Rightarrow> (jstext \<Rightarrow> json option) \<Rightarrow> (jstext \<Rightarrow> Session option) option \<Rightarrow> int \<Rightarrow> jstext option \<Rightarrow>
    connection_map \<Rightarrow> Principal result" where
  "requestContext C parse backend now authorization records =
     bindR (fetch (request_token authorization) ''Sign in with your wallet to continue.'') (\<lambda>token.
     case identify C authorization records of
       Some connection \<Rightarrow>
         bindR (parseScope (parse (cn_scope connection))) (\<lambda>scope. Inr \<lparr>pr_wallet = cn_wallet connection, pr_scope = Some scope\<rparr>)
     | None \<Rightarrow>
         bindR (fetch backend ''Wallet session backend is not configured'') (\<lambda>session_of.
         bindR (fetch (session_of token) ''Wallet session expired. Sign in again.'') (session_principal now)))"

text \<open>\<open>assertActive\<close> of a connection asks the registry again.\<close>

definition assertActive :: "crypto \<Rightarrow> jstext option \<Rightarrow> connection_map \<Rightarrow> unit result" where
  "assertActive C authorization records =
     require (identify C authorization records \<noteq> None) ''Connection revoked. Reconnect to continue.''"

section \<open>What may be done\<close>

type_synonym args = "string \<rightharpoonup> json"

record auth_env =
  ae_getMandate :: "jstext \<Rightarrow> Mandate option result"
  ae_receiptMandate :: "jstext \<Rightarrow> jstext option result"
  ae_active :: "unit result"

definition scope_agent :: "ConnectionScope \<Rightarrow> jstext \<Rightarrow> json option" where
  "scope_agent scope addr = map_of (sc_agents scope) addr"

definition approved :: "Mandate \<Rightarrow> json" where "approved m = JStr (jstr (m_approvedAgent m))"

definition mandateInScope :: "Principal option \<Rightarrow> Mandate \<Rightarrow> bool" where
  "mandateInScope caller m = (case Option.bind caller pr_scope of
     None \<Rightarrow> True
   | Some scope \<Rightarrow> jstr (m_address m) \<in> set (sc_mandates scope) \<and> scope_agent scope (jstr (m_address m)) = Some (approved m))"

definition authorizeMandate :: "auth_env \<Rightarrow> Principal option \<Rightarrow> jstext \<Rightarrow> Mandate result" where
  "authorizeMandate env caller addr =
     bindR (fetch caller ''Verified wallet or scoped connection required'') (\<lambda>p.
     bindR (require (case pr_scope p of None \<Rightarrow> True | Some scope \<Rightarrow> addr \<in> set (sc_mandates scope))
       ''Mandate is outside this connection's scope'') (\<lambda>_.
     bindR (ae_getMandate env addr) (\<lambda>found.
     bindR (fetch found ''Mandate is not owned by this session'') (\<lambda>mandate.
     bindR (require (jstr (m_owner mandate) = pr_wallet p) ''Mandate is not owned by this session'') (\<lambda>_.
     bindR (require (case pr_scope p of None \<Rightarrow> True | Some scope \<Rightarrow> scope_agent scope addr = Some (approved mandate))
       ''Mandate agent changed. Reconnect to authorize the current agent.'') (\<lambda>_.
     Inr mandate))))))"

definition authorizeCardTool :: "Principal \<Rightarrow> string \<Rightarrow> args \<Rightarrow> unit result" where
  "authorizeCardTool p name args =
     (if name = ''prepare_agent_card'' then Inr ()
      else case args ''cardId'' of
        Some (JStr cardId) \<Rightarrow>
          bindR (require (CARD_ID cardId) ''A card id (64 lowercase hex characters) is required'') (\<lambda>_.
          bindR (require (\<not> (name = ''request_card_checkout'' \<and> pr_scope p = None)) ''Card checkout needs an agent connection scoped to this card'') (\<lambda>_.
          require (case pr_scope p of None \<Rightarrow> True | Some scope \<Rightarrow> (case sc_cards scope of Some ids \<Rightarrow> cardId \<in> set ids | None \<Rightarrow> False))
            ''Card is outside this connection's scope''))
      | _ \<Rightarrow> Inl ''A card id (64 lowercase hex characters) is required'')"

definition OWNED_LISTS :: "string list" where
  "OWNED_LISTS = [''list_mandates'', ''find_compatible_mandate'', ''create_mandate'', ''prepare_token_accounts'', ''get_spend_overview'',
     ''list_receipts'', ''export_receipts'']"

definition NO_MANDATE :: "string list" where
  "NO_MANDATE = [''list_mandates'', ''find_compatible_mandate'', ''create_mandate'', ''prepare_token_accounts'',
     ''create_demo_payment_request'', ''quote_payment_request'', ''wait_for_payment'', ''get_spend_overview'', ''list_receipts'', ''export_receipts'']"

definition RESUME_TOOLS :: "string list" where
  "RESUME_TOOLS = [''execute_x402_payment'', ''execute_crossmint_payment'', ''get_crossmint_payment'']"

definition string_arg :: "args \<Rightarrow> string \<Rightarrow> jstext option" where
  "string_arg args k = (case args k of Some (JStr s) \<Rightarrow> Some s | _ \<Rightarrow> None)"

definition resumes :: "string \<Rightarrow> args \<Rightarrow> bool" where
  "resumes name args \<longleftrightarrow> name \<in> set RESUME_TOOLS \<and> (case string_arg args ''paymentId'' of Some s \<Rightarrow> take 8 s = jstr ''payment_'' | None \<Rightarrow> False)"

definition named_mandate :: "string \<Rightarrow> args \<Rightarrow> jstext option" where
  "named_mandate name args =
     (if name = ''get_mandate'' \<and> string_arg args ''address'' \<noteq> None then string_arg args ''address''
      else if string_arg args ''mandate'' \<noteq> None then string_arg args ''mandate'' else string_arg args ''mandateAddress'')"

text \<open>The mandate a call is about: named, or that of the named receipt. An empty name counts as none.\<close>

definition mandate_of_call :: "auth_env \<Rightarrow> string \<Rightarrow> args \<Rightarrow> jstext option result" where
  "mandate_of_call env name args =
     (case named_mandate name args of
        Some a \<Rightarrow> if a \<noteq> [] then Inr (Some a) else
          (case string_arg args ''receiptAddress'' of
             None \<Rightarrow> Inr (Some a)
           | Some r \<Rightarrow> bindR (ae_receiptMandate env r) (\<lambda>found. bindR (fetch found ''Receipt unavailable'') (\<lambda>m. Inr (Some m))))
      | None \<Rightarrow> (case string_arg args ''receiptAddress'' of
          None \<Rightarrow> Inr None
        | Some r \<Rightarrow> bindR (ae_receiptMandate env r) (\<lambda>found. bindR (fetch found ''Receipt unavailable'') (\<lambda>m. Inr (Some m)))))"

definition owner_filled :: "Principal \<Rightarrow> string \<Rightarrow> args \<Rightarrow> args" where
  "owner_filled p name args = (if name \<in> set OWNED_LISTS then args(''owner'' \<mapsto> JStr (pr_wallet p)) else args)"

text \<open>Whether the caller may use the tool at all.\<close>

definition tool_permitted :: "Principal \<Rightarrow> string \<Rightarrow> bool" where
  "tool_permitted p name \<longleftrightarrow> (let scopedName = (if name = ''open_payment'' then ''execute_payment'' else name) in
     case pr_scope p of None \<Rightarrow> True | Some scope \<Rightarrow> jstr scopedName \<in> set (sc_tools scope) \<and> name \<notin> set OWNER_TOOLS)"

definition own_wallet :: "Principal \<Rightarrow> args \<Rightarrow> bool" where
  "own_wallet p args \<longleftrightarrow> list_all (\<lambda>field. args field = None \<or> args field = Some (JStr (pr_wallet p))) [''owner'', ''wallet'', ''ownerWallet'']"

text \<open>The agent the call acts for, where it is about a mandate.\<close>

definition authorizeSubject :: "auth_env \<Rightarrow> Principal \<Rightarrow> string \<Rightarrow> args \<Rightarrow> address option result" where
  "authorizeSubject env p name args =
     (if resumes name args then Inr None
      else
        bindR (require (\<not> (name = ''get_mandate'' \<and> args ''address'' \<noteq> None \<and> args ''mandate'' \<noteq> None \<and>
            \<not> strictly_equal (args ''address'') (args ''mandate''))) ''address and mandate differ'') (\<lambda>_.
        bindR (mandate_of_call env name args) (\<lambda>subject.
        if subject = None \<or> subject = Some [] then
          bindR (require (name \<in> set PUBLIC_TOOLS \<or> name \<in> set NO_MANDATE) ''An explicit owned mandate is required'') (\<lambda>_. Inr None)
        else
          bindR (authorizeMandate env (Some p) (the subject)) (\<lambda>mandate.
          bindR (require (args ''agent'' = None \<or> args ''agent'' = Some (approved mandate)) ''Agent differs from approved mandate agent'') (\<lambda>_.
          Inr (Some (m_approvedAgent mandate)))))))"

text \<open>The agent and the arguments of the admitted call, with the owner filled in.\<close>

definition authorizeTool :: "auth_env \<Rightarrow> Principal option \<Rightarrow> string \<Rightarrow> args \<Rightarrow> (address option \<times> args) result" where
  "authorizeTool env caller name args =
     (case caller of
        None \<Rightarrow> if name \<in> set PUBLIC_TOOLS then Inr (None, args)
                else Inl ''Sign in with a wallet session or reconnect with a scoped connection''
      | Some p \<Rightarrow>
          bindR (ae_active env) (\<lambda>_.
          bindR (require (tool_permitted p name) ''Tool is not permitted by this connection'') (\<lambda>_.
          bindR (require (own_wallet p args) ''Wallet differs from verified owner'') (\<lambda>_.
          if name \<in> set CARD_TOOLS then bindR (authorizeCardTool p name args) (\<lambda>_. Inr (None, args))
          else
            let args' = owner_filled p name args in
            bindR (authorizeSubject env p name args') (\<lambda>agent. Inr (agent, args'))))))"

text \<open>\<open>owned\<close> is the answer of the backend to the owner's session, \<open>False\<close> for anything but 200.\<close>

definition authorizeOwnedCard :: "(jstext \<Rightarrow> bool) option \<Rightarrow> Principal option \<Rightarrow> jstext \<Rightarrow> unit result" where
  "authorizeOwnedCard owned caller cardId =
     bindR (require (CARD_ID cardId) ''Invalid card id'') (\<lambda>_.
     bindR (require (case caller of None \<Rightarrow> False | Some p \<Rightarrow> pr_scope p = None) ''Owner session required to scope a card'') (\<lambda>_.
     bindR (fetch owned ''Card ownership can't be checked right now'') (\<lambda>ask.
     require (ask cardId) ''Card is not owned by this session'')))"

section \<open>What a result means\<close>

datatype outcome_kind = MandateApprovalRequired | TokenAccountApprovalRequired | PaymentApprovalRequired | PaymentSettled
  | PaymentBlocked | DetailsRequired | PaymentPending

record NormalizedOutcome =
  no_kind :: outcome_kind
  no_receiptAddress :: "jstext option"
  no_signature :: "jstext option"
  no_status :: "jstext option"
  no_paymentId :: "jstext option"
  no_resourceStatus :: "jstext option"
  no_receiptUrl :: "jstext option"

definition BLOCKED_ACTIONS :: "string list" where
  "BLOCKED_ACTIONS = [''rejected_by_preflight'', ''x402_rejected_by_preflight'', ''managed_payment_failed'', ''managed_backend_rejected'',
     ''payment_failed'', ''x402_payment_failed'', ''requirements_blocked'', ''payment_request_blocked'', ''payment_request_rejected'',
     ''backend_rejected'', ''backend_not_finalized'', ''backend_required'', ''agent_identity_mismatch'',
     ''x402_settled_resource_rejected'', ''x402_resource_rejected'', ''delegated_signature_rejected'']"

definition SETTLED_ACTIONS :: "string list" where
  "SETTLED_ACTIONS = [''managed_payment_settled'', ''backend_relayed'', ''payment_confirmed'', ''x402_verified'', ''crossmint_settled'']"

definition PENDING_ACTIONS :: "string list" where
  "PENDING_ACTIONS = [''payment_pending'', ''x402_payment_pending'', ''crossmint_payment_pending'']"

fun pickString :: "json option list \<Rightarrow> jstext option" where
  "pickString [] = None"
| "pickString (Some (JStr s) # vs) = (if js_trim s \<noteq> [] then Some (js_trim s) else pickString vs)"
| "pickString (_ # vs) = pickString vs"

text \<open>The member of an object, \<open>undefined\<close> for anything else: \<open>nestedRecord(v)?.k\<close>.\<close>

definition nested :: "json option \<Rightarrow> string \<Rightarrow> json option" where
  "nested v k = (case v of Some (JObj ms) \<Rightarrow> map_of ms (jstr k) | _ \<Rightarrow> None)"

text \<open>\<open>String(v)\<close>\<close>

fun js_string :: "json \<Rightarrow> jstext" and js_items :: "json list \<Rightarrow> jstext list" where
  "js_string JNull = jstr ''null''"
| "js_string (JBool b) = jstr (if b then ''true'' else ''false'')"
| "js_string (JNum n) = json_num n"
| "js_string (JStr s) = s"
| "js_string (JArr vs) = concat (case js_items vs of [] \<Rightarrow> [] | x # xs \<Rightarrow> x # map (\<lambda>y. 44 # y) xs)"
| "js_string (JObj ms) = jstr ''[object Object]''"
| "js_items [] = []"
| "js_items (v # vs) = (if v = JNull then [] else js_string v) # js_items vs"

text \<open>\<open>encodeURIComponent\<close>, which throws on a lone surrogate.\<close>

definition uri_unreserved :: "nat \<Rightarrow> bool" where
  "uri_unreserved c \<longleftrightarrow> 48 \<le> c \<and> c \<le> 57 \<or> 65 \<le> c \<and> c \<le> 90 \<or> 97 \<le> c \<and> c \<le> 122 \<or> c \<in> set (jstr ''-_.!~*'' @ [39] @ jstr ''()'')"

definition upper_hex :: "byte \<Rightarrow> jstext" where
  "upper_hex b = map (\<lambda>d. if d < 10 then 48 + d else 55 + d) [unat b div 16, unat b mod 16]"

definition encodeURIComponent :: "jstext \<Rightarrow> jstext result" where
  "encodeURIComponent s =
     (if list_ex is_surrogate s then Inl ''URI malformed''
      else Inr (concat (map (\<lambda>c. if uri_unreserved c then [c] else concat (map (\<lambda>b. 37 # upper_hex b) (utf8_cp c))) s)))"

text \<open>\<open>appUrl\<close> is \<open>CHAINPAY_APP_URL\<close>.\<close>

definition receiptUrlForAddress :: "jstext option \<Rightarrow> jstext option \<Rightarrow> jstext option result" where
  "receiptUrlForAddress appUrl receipt = (case receipt of
     None \<Rightarrow> Inr None
   | Some r \<Rightarrow>
       let trimmed = (case appUrl of None \<Rightarrow> [] | Some u \<Rightarrow> js_trim u);
           base = (if trimmed \<noteq> [] \<and> last trimmed = 47 then butlast trimmed else trimmed) in
       if r = [] \<or> base = [] then Inr None
       else bindR (encodeURIComponent r) (\<lambda>e. Inr (Some (base @ jstr ''/verify/'' @ e))))"

text \<open>The kind of a result, and the status it is shown with.\<close>

definition is_action :: "jstext \<Rightarrow> string list \<Rightarrow> bool" where "is_action action names \<longleftrightarrow> action \<in> set (map jstr names)"

definition outcome_of :: "jstext \<Rightarrow> bool \<Rightarrow> jstext option \<Rightarrow> jstext option \<Rightarrow> jstext option \<Rightarrow> (outcome_kind \<times> jstext option) option" where
  "outcome_of action isError status signature receipt =
     (let default = (\<lambda>d. if status = None then Some (jstr d) else status);
          complete = (status = Some (jstr ''confirmed'') \<and> signature \<noteq> None \<and> receipt \<noteq> None) in
      if is_action action [''owner_wallet_signature_required''] then Some (MandateApprovalRequired, status)
      else if is_action action [''token_account_signature_required''] then Some (TokenAccountApprovalRequired, status)
      else if is_action action [''agent_signature_required'', ''x402_agent_signature_required'', ''crossmint_agent_signature_required''] then
        (if isError then Some (PaymentBlocked, default ''blocked'') else Some (PaymentApprovalRequired, status))
      else if is_action action [''details_required''] \<or> status = Some (jstr ''needs_details'') then Some (DetailsRequired, status)
      else if isError \<or> status = Some (jstr ''failed'') \<or> is_action action BLOCKED_ACTIONS then Some (PaymentBlocked, status)
      else if is_action action PENDING_ACTIONS then Some (PaymentPending, default ''pending'')
      else if is_action action [''payment_terminal''] then
        (if complete then Some (PaymentSettled, status)
         else if status = Some (jstr ''failed'') then Some (PaymentBlocked, status)
         else Some (PaymentPending, default ''pending''))
      else if is_action action SETTLED_ACTIONS \<or> (is_action action [''backend_relayed'', ''payment_confirmed''] \<and> complete) then
        (if complete then Some (PaymentSettled, status) else None)
      else if is_action action [''managed_payment_settled''] \<and> signature \<noteq> None \<and> receipt \<noteq> None then Some (PaymentSettled, default ''confirmed'')
      else None)"

definition normalizeToolOutcome :: "jstext option \<Rightarrow> json \<Rightarrow> NormalizedOutcome option result" where
  "normalizeToolOutcome appUrl response =
     (case nested (Some response) ''structuredContent'' of
        Some (JObj ms) \<Rightarrow>
          (let data = (\<lambda>k. map_of ms (jstr k)); payment = nested (data ''payment''); settlement = nested (data ''settlement'');
               action = (case data ''action'' of Some (JStr a) \<Rightarrow> a | _ \<Rightarrow> []);
               receipt = pickString [data ''receiptAddress'', data ''receipt_address'', payment ''receipt_address'', settlement ''receipt_address''];
               signature = pickString [data ''signature'', payment ''signature'', settlement ''signature''];
               status = pickString [data ''status'', payment ''status'', settlement ''status''];
               paymentId = pickString [data ''paymentId'', data ''payment_id'', payment ''payment_id'', settlement ''payment_id''];
               resourceStatus = pickString [data ''resourceStatus'', data ''resource_status'', map_option (JStr \<circ> js_string) (data ''httpStatus'')];
               isError = (nested (Some response) ''isError'' = Some (JBool True)) in
           bindR (receiptUrlForAddress appUrl receipt) (\<lambda>receiptUrl.
           Inr (map_option (\<lambda>(kind, shown). \<lparr>no_kind = kind, no_receiptAddress = receipt, no_signature = signature, no_status = shown,
               no_paymentId = paymentId, no_resourceStatus = resourceStatus, no_receiptUrl = receiptUrl\<rparr>)
             (outcome_of action isError status signature receipt))))
      | _ \<Rightarrow> Inr None)"

section \<open>Properties\<close>

definition may_use :: "auth_env \<Rightarrow> Principal \<Rightarrow> ConnectionScope \<Rightarrow> jstext \<Rightarrow> Mandate \<Rightarrow> bool" where
  "may_use env p scope addr m \<longleftrightarrow> ae_getMandate env addr = Inr (Some m) \<and> addr \<in> set (sc_mandates scope) \<and>
     jstr (m_owner m) = pr_wallet p \<and> scope_agent scope addr = Some (approved m)"

lemma authorizeMandate_scoped:
  assumes "pr_scope p = Some scope"
  shows "authorizeMandate env (Some p) addr = Inr m \<longleftrightarrow> may_use env p scope addr m"
  using assms by (auto simp: authorizeMandate_def may_use_def result_simps fetch_def split: option.splits)

lemma owner_filled_keeps:
  "k \<noteq> ''owner'' \<Longrightarrow> owner_filled p name args k = args k"
  by (simp add: owner_filled_def)

lemma filled_fields:
  "owner_filled p name args ''paymentId'' = args ''paymentId''" "owner_filled p name args ''address'' = args ''address''"
  "owner_filled p name args ''mandate'' = args ''mandate''" "owner_filled p name args ''mandateAddress'' = args ''mandateAddress''"
  "owner_filled p name args ''receiptAddress'' = args ''receiptAddress''" "owner_filled p name args ''agent'' = args ''agent''"
  by (simp_all add: owner_filled_keeps)

lemma authorizeSubject_filled [simp]:
  "authorizeSubject env p name (owner_filled p' name' args) = authorizeSubject env p name args"
  unfolding authorizeSubject_def resumes_def mandate_of_call_def named_mandate_def string_arg_def filled_fields ..

lemma authorizeTool_Inr:
  "authorizeTool env (Some p) name args = Inr (agent, args') \<longleftrightarrow>
     ae_active env = Inr () \<and> tool_permitted p name \<and> own_wallet p args \<and>
     (if name \<in> set CARD_TOOLS then authorizeCardTool p name args = Inr () \<and> agent = None \<and> args' = args
      else authorizeSubject env p name args = Inr agent \<and> args' = owner_filled p name args)"
  by (auto simp: authorizeTool_def Let_def bindR_require result_simps)

text \<open>The three ways in which a call that is not about a card is admitted.\<close>

lemma authorizeSubject_cases:
  assumes "authorizeSubject env p name args = Inr agent"
  obtains (resume) "resumes name args" "agent = None"
  | (plain) "mandate_of_call env name args \<in> {Inr None, Inr (Some [])}" "name \<in> set PUBLIC_TOOLS \<union> set NO_MANDATE" "agent = None"
  | (mandate) addr m where "mandate_of_call env name args = Inr (Some addr)" "addr \<noteq> []"
      "authorizeMandate env (Some p) addr = Inr m" "args ''agent'' = None \<or> args ''agent'' = Some (approved m)"
      "agent = Some (m_approvedAgent m)"
proof (cases "resumes name args")
  case True
  then show ?thesis using assms resume by (simp add: authorizeSubject_def)
next
  case False
  then obtain subject where s: "mandate_of_call env name args = Inr subject"
    using assms by (auto simp: authorizeSubject_def result_simps)
  show ?thesis
  proof (cases "subject = None \<or> subject = Some []")
    case True
    then show ?thesis using False assms s plain by (auto simp: authorizeSubject_def bindR_require split: if_splits)
  next
    case named: False
    then obtain addr where addr: "subject = Some addr" "addr \<noteq> []" by auto
    then show ?thesis using False assms s mandate by (auto simp: authorizeSubject_def bindR_require result_simps split: if_splits)
  qed
qed

lemma own_wallet_filled: "own_wallet p args \<Longrightarrow> own_wallet p (owner_filled p name args)"
  by (simp add: own_wallet_def owner_filled_def)

lemma card_in_scope:
  assumes "authorizeCardTool p name args = Inr ()" and "pr_scope p = Some scope" and "name \<noteq> ''prepare_agent_card''"
  shows "\<exists>cardId ids. args ''cardId'' = Some (JStr cardId) \<and> sc_cards scope = Some ids \<and> cardId \<in> set ids"
  using assms by (auto simp: authorizeCardTool_def bindR_require split: option.splits json.splits if_splits)

lemma subject_scoped:
  assumes "authorizeSubject env p name args = Inr agent" and "pr_scope p = Some scope"
  shows "case agent of Some a \<Rightarrow> \<exists>addr m. may_use env p scope addr m \<and> a = m_approvedAgent m \<and> args ''agent'' \<in> {None, Some (approved m)}
    | None \<Rightarrow> name \<in> set (RESUME_TOOLS @ PUBLIC_TOOLS @ NO_MANDATE)"
  using assms(1) by (cases rule: authorizeSubject_cases) (auto simp: resumes_def authorizeMandate_scoped [OF assms(2)])

lemma subject_named:
  assumes "authorizeSubject env p name args = Inr agent" and "pr_scope p = Some scope"
    and "\<not> resumes name args" "named_mandate name args = Some addr" "addr \<noteq> []"
  shows "\<exists>m. may_use env p scope addr m \<and> agent = Some (m_approvedAgent m)"
  using assms(1)
proof (cases rule: authorizeSubject_cases)
  case (mandate addr' m)
  with assms(4,5) show ?thesis by (auto simp: mandate_of_call_def authorizeMandate_scoped [OF assms(2)])
qed (use assms(3-5) in \<open>auto simp: mandate_of_call_def\<close>)

text \<open>
  C11. A connection only does what it was scoped to. When the call of a scoped connection is admitted, the connection is still active,
  the tool is one of the permitted ones (opening a payment counts as executing it) and never one reserved to the owner; every
  wallet named in the arguments, before and after the owner is filled in, is the connection's own; a card tool other than preparing
  a card names a card of the scope; a call is only ever made for the approved agent of a mandate of the scope, owned by the
  connection's wallet, whose agent is still the one the scope pins, and an agent named in the arguments is that one; a call
  that names a mandate is made for that mandate; and a call without a mandate is one of the tools that need none.
\<close>

theorem scoped_call_confined:
  assumes call: "authorizeTool env (Some p) name args = Inr (agent, args')" and scope: "pr_scope p = Some scope"
  shows "ae_active env = Inr () \<and>
    jstr (if name = ''open_payment'' then ''execute_payment'' else name) \<in> set (sc_tools scope) \<and> name \<notin> set OWNER_TOOLS \<and>
    own_wallet p args \<and> own_wallet p args' \<and>
    (name \<in> set CARD_TOOLS \<and> name \<noteq> ''prepare_agent_card'' \<longrightarrow>
       (\<exists>cardId ids. args ''cardId'' = Some (JStr cardId) \<and> sc_cards scope = Some ids \<and> cardId \<in> set ids)) \<and>
    (\<forall>a. agent = Some a \<longrightarrow>
       (\<exists>addr m. may_use env p scope addr m \<and> a = m_approvedAgent m \<and> args ''agent'' \<in> {None, Some (approved m)})) \<and>
    (\<forall>addr. name \<notin> set CARD_TOOLS \<and> \<not> resumes name args \<and> named_mandate name args = Some addr \<and> addr \<noteq> [] \<longrightarrow>
       (\<exists>m. may_use env p scope addr m \<and> agent = Some (m_approvedAgent m))) \<and>
    (agent = None \<longrightarrow> name \<in> set (CARD_TOOLS @ RESUME_TOOLS @ PUBLIC_TOOLS @ NO_MANDATE))"
    (is "?gate \<and> ?tool \<and> ?owner \<and> ?own \<and> ?own' \<and> ?card \<and> ?acts \<and> ?names \<and> ?none")
proof -
  note facts = call [unfolded authorizeTool_Inr]
  have first: ?gate ?tool ?owner ?own ?own'
    using facts scope by (auto simp: tool_permitted_def Let_def own_wallet_filled split: if_splits)
  show ?thesis
  proof (cases "name \<in> set CARD_TOOLS")
    case True
    then have "?card \<and> agent = None" using facts card_in_scope [OF _ scope] by auto
    with True show ?thesis using first by simp
  next
    case False
    then have sub: "authorizeSubject env p name args = Inr agent" using facts by simp
    have ?acts ?none using subject_scoped [OF sub scope] by auto
    moreover have ?names using subject_named [OF sub scope] by blast
    ultimately show ?thesis using first False by simp
  qed
qed

lemma not_empty_action [simp]: "\<not> is_action [] (''payment_terminal'' # SETTLED_ACTIONS)"
  by (simp add: is_action_def SETTLED_ACTIONS_def jstr_def)

lemma outcome_settled:
  assumes "outcome_of action isError status signature receipt = Some (kind, shown)"
  shows "kind = PaymentSettled \<longleftrightarrow> \<not> isError \<and> shown = Some (jstr ''confirmed'') \<and> signature \<noteq> None \<and> receipt \<noteq> None \<and>
    is_action action (''payment_terminal'' # SETTLED_ACTIONS)"
proof -
  have "\<not> (is_action action (''payment_terminal'' # SETTLED_ACTIONS) \<and> is_action action (BLOCKED_ACTIONS @ PENDING_ACTIONS @
      [''owner_wallet_signature_required'', ''token_account_signature_required'', ''agent_signature_required'',
       ''x402_agent_signature_required'', ''crossmint_agent_signature_required'', ''details_required'']))"
    by (auto simp: is_action_def SETTLED_ACTIONS_def BLOCKED_ACTIONS_def PENDING_ACTIONS_def jstr_def)
  then show ?thesis using assms
    by (auto simp: outcome_of_def Let_def is_action_def jstr_def SETTLED_ACTIONS_def split: if_splits)
qed

text \<open>The last branch of the source asks for \<open>managed_payment_settled\<close> once more, but the branch above has already returned for it:
  such a result without a status gets no outcome, although the source then means to report it as settled.\<close>

lemma settled_without_status:
  "outcome_of (jstr ''managed_payment_settled'') False None (Some sig) (Some r) = None"
  by (simp add: outcome_of_def Let_def is_action_def SETTLED_ACTIONS_def BLOCKED_ACTIONS_def PENDING_ACTIONS_def jstr_def)

lemma session_unscoped:
  assumes "identify C authorization records = None" and "requestContext C parse backend t authorization records = Inr q"
  shows "pr_scope q = None"
proof -
  from assms obtain s where "session_principal t s = Inr q" by (auto simp: requestContext_def result_simps)
  then show ?thesis by (auto simp: session_principal_def split: option.splits if_splits)
qed

text \<open>
  C12. Revoking a connection stops the requests it has already been admitted with. From any registry reached by the operations, once
  the connection behind a request is revoked, then whatever else happens to the registry, every tool call the request still makes is
  refused, for whatever tool, arguments and principal, and the same credential never again yields a scoped principal.
\<close>

theorem revoked_call_refused:
  assumes reach: "(conn_step C)\<^sup>*\<^sup>* [] records" and known: "identify C authorization records = Some c"
    and rev: "revoke now wallet (cn_id c) records = (records', True)" and steps: "(conn_step C)\<^sup>*\<^sup>* records' later"
    and active: "ae_active env = assertActive C authorization later"
  shows "authorizeTool env (Some p) name args = Inl ''Connection revoked. Reconnect to continue.'' \<and>
    (\<forall>q. requestContext C parse backend t authorization later = Inr q \<longrightarrow> pr_scope q = None)"
proof -
  have ok: "registry_ok records" by (rule reachable_ok [OF reach])
  from identify_Some [OF ok known] obtain token r where r: "bearerToken authorization = Some token" "map_of records (cn_id r) = Some r"
    "mc_tokenHash r = tokenHash C token" "c = publicMemoryRecord r" by auto
  have id: "cn_id c = cn_id r" using r(4) by (simp add: publicMemoryRecord_def PublicMcpConnection.defs)
  have "active_record (mc_tokenHash r) later = None" by (rule revoked_later(3) [OF reach r(2) rev [unfolded id] steps])
  then have gone: "identify C authorization later = None" using r(1,3) by (simp add: identify_def)
  then have "authorizeTool env (Some p) name args = Inl ''Connection revoked. Reconnect to continue.''"
    using active by (simp add: authorizeTool_def assertActive_def require_def)
  moreover have "pr_scope q = None" if "requestContext C parse backend t authorization later = Inr q" for q
    using session_unscoped [OF gone that] .
  ultimately show ?thesis by blast
qed

text \<open>
  What a tool result says of a payment, read from the result itself: the first of some of its members that is a string
  and not blank, trimmed; and when it says that the payment is settled, with which signature and receipt.
\<close>

definition shown_text :: "json option \<Rightarrow> jstext option" where
  "shown_text v = (case v of Some (JStr s) \<Rightarrow> (if js_trim s = [] then None else Some (js_trim s)) | _ \<Rightarrow> None)"

definition first_text :: "json option list \<Rightarrow> jstext option" where
  "first_text vs = (case List.map_filter shown_text vs of [] \<Rightarrow> None | s # _ \<Rightarrow> Some s)"

lemma pickString_first: "pickString vs = first_text vs"
  by (induction vs rule: pickString.induct) (auto simp: first_text_def shown_text_def map_filter_simps)

definition result_text :: "json \<Rightarrow> string list \<Rightarrow> string \<Rightarrow> jstext option" where
  "result_text response own k =
     (let content = nested (Some response) ''structuredContent'' in
      first_text (map (nested content) own @ [nested (nested content ''payment'') k, nested (nested content ''settlement'') k]))"

definition settled_result :: "json \<Rightarrow> jstext \<Rightarrow> jstext \<Rightarrow> bool" where
  "settled_result response sig rcpt \<longleftrightarrow>
     nested (Some response) ''isError'' \<noteq> Some (JBool True) \<and>
     (\<exists>action. nested (nested (Some response) ''structuredContent'') ''action'' = Some (JStr action) \<and>
        is_action action (''payment_terminal'' # SETTLED_ACTIONS)) \<and>
     result_text response [''status''] ''status'' = Some (jstr ''confirmed'') \<and>
     result_text response [''signature''] ''signature'' = Some sig \<and>
     result_text response [''receiptAddress'', ''receipt_address''] ''receipt_address'' = Some rcpt"

lemma outcome_of_settled:
  "outcome_of action isError status signature receipt = Some (PaymentSettled, shown) \<longleftrightarrow>
     \<not> isError \<and> status = Some (jstr ''confirmed'') \<and> shown = status \<and> signature \<noteq> None \<and> receipt \<noteq> None \<and>
     is_action action (''payment_terminal'' # SETTLED_ACTIONS)" (is "?L \<longleftrightarrow> ?R")
proof
  assume ?L
  moreover have "is_action action [''managed_payment_settled''] \<Longrightarrow> is_action action SETTLED_ACTIONS"
    by (simp add: is_action_def SETTLED_ACTIONS_def)
  ultimately show ?R using outcome_settled [OF \<open>?L\<close>]
    by (auto simp: outcome_of_def Let_def split: if_splits)
next
  assume ?R
  moreover from this have "\<not> is_action action (BLOCKED_ACTIONS @ PENDING_ACTIONS @
      [''owner_wallet_signature_required'', ''token_account_signature_required'', ''agent_signature_required'',
       ''x402_agent_signature_required'', ''crossmint_agent_signature_required'', ''details_required''])"
    by (auto simp: is_action_def SETTLED_ACTIONS_def BLOCKED_ACTIONS_def PENDING_ACTIONS_def jstr_def)
  ultimately show ?L
    by (auto simp: outcome_of_def Let_def is_action_def jstr_def)
qed

text \<open>
  C14. A payment is reported as settled exactly when the tool result says so, and with what the result says. The outcome of
  a result is \<open>PaymentSettled\<close> if and only if the result is not an error, its action is one of the settled ones or the end
  of a wait, its status (its own, or that of its payment or settlement) is \<open>confirmed\<close>, and it names both a signature and a
  receipt address; the outcome then carries this signature, this receipt, the confirmed status, the result's payment id and resource
  status and the link made of the receipt. The one exception is a receipt for which the link cannot be made, where the code throws.
\<close>

theorem settled_outcome_exact:
  "normalizeToolOutcome appUrl response = Inr (Some oc) \<and> no_kind oc = PaymentSettled \<longleftrightarrow>
    (\<exists>sig rcpt url. settled_result response sig rcpt \<and> receiptUrlForAddress appUrl (Some rcpt) = Inr url \<and>
      oc = \<lparr>no_kind = PaymentSettled, no_receiptAddress = Some rcpt, no_signature = Some sig, no_status = Some (jstr ''confirmed''),
        no_paymentId = result_text response [''paymentId'', ''payment_id''] ''payment_id'',
        no_resourceStatus = first_text (let content = nested (Some response) ''structuredContent'' in
          [nested content ''resourceStatus'', nested content ''resource_status'', map_option (JStr \<circ> js_string) (nested content ''httpStatus'')]),
        no_receiptUrl = url\<rparr>)"
proof (cases "\<exists>ms. nested (Some response) ''structuredContent'' = Some (JObj ms)")
  case True
  then obtain ms where ms: "nested (Some response) ''structuredContent'' = Some (JObj ms)" by blast
  have get: "nested (Some (JObj ms)) k = map_of ms (jstr k)" for k by (simp add: nested_def)
  have act: "is_action (case map_of ms (jstr ''action'') of Some (JStr a) \<Rightarrow> a | _ \<Rightarrow> []) (''payment_terminal'' # SETTLED_ACTIONS)
      \<longleftrightarrow> (\<exists>a. map_of ms (jstr ''action'') = Some (JStr a) \<and> is_action a (''payment_terminal'' # SETTLED_ACTIONS))"
    by (auto split: option.splits json.splits)
  show ?thesis
    by (cases oc)
      (auto simp: normalizeToolOutcome_def ms Let_def result_simps outcome_of_settled act settled_result_def result_text_def get pickString_first)
next
  case False
  then have "nested (nested (Some response) ''structuredContent'') k = None" for k
    by (auto simp: nested_def [of "nested _ _"] split: option.splits json.splits)
  moreover have "normalizeToolOutcome appUrl response = Inr None"
    using False by (auto simp: normalizeToolOutcome_def split: option.splits json.splits)
  ultimately show ?thesis by (simp add: settled_result_def)
qed

section \<open>Witnesses\<close>

definition sample_mandate_view :: Mandate where
  "sample_mandate_view = \<lparr>m_address = ''m'', m_owner = ''w'', m_approvedAgent = ''a'', m_sourceTokenAccount = ''s'', m_allowedMint = ''t'',
     m_legacyAllowedRecipient = None, m_maxPerPayment = 5, m_totalLimit = 10, m_amountSpent = 0, m_paymentCount = 0, m_expiresAtSlot = 9,
     m_maxPaymentCount = 3, m_cooldownSlots = 0, m_lastPaymentSlot = 0, m_paused = False, m_revoked = False, m_status = Active,
     m_tokenProgram = None, m_mandateNonce = None\<rparr>"

definition sample_scope :: ConnectionScope where
  "sample_scope = \<lparr>sc_mandates = [jstr ''m''], sc_tools = [jstr ''get_mandate''], sc_agents = [(jstr ''m'', JStr (jstr ''a''))], sc_cards = None\<rparr>"

definition sample_auth_env :: "unit result \<Rightarrow> auth_env" where
  "sample_auth_env active = \<lparr>ae_getMandate = (\<lambda>a. Inr (if a = jstr ''m'' then Some sample_mandate_view else None)),
     ae_receiptMandate = (\<lambda>_. Inr None), ae_active = active\<rparr>"

definition sample_principal :: Principal where "sample_principal = \<lparr>pr_wallet = jstr ''w'', pr_scope = Some sample_scope\<rparr>"

definition sample_args :: args where "sample_args = [''mandate'' \<mapsto> JStr (jstr ''m'')]"

lemma sample_call:
  "authorizeTool (sample_auth_env (Inr ())) (Some sample_principal) ''get_mandate'' sample_args = Inr (Some ''a'', sample_args)"
  by (simp add: authorizeTool_def sample_auth_env_def sample_principal_def sample_args_def tool_permitted_def sample_scope_def OWNER_TOOLS_def
      own_wallet_def CARD_TOOLS_def owner_filled_def OWNED_LISTS_def authorizeSubject_def resumes_def RESUME_TOOLS_def mandate_of_call_def
      named_mandate_def string_arg_def authorizeMandate_def fetch_def sample_mandate_view_def scope_agent_def approved_def require_def
      jstr_def)

theorem scoped_call_confined_witness:
  "\<exists>m. may_use (sample_auth_env (Inr ())) sample_principal sample_scope (jstr ''m'') m \<and> m_approvedAgent m = ''a''"
proof -
  have scope: "pr_scope sample_principal = Some sample_scope" by (simp add: sample_principal_def)
  have "''get_mandate'' \<notin> set CARD_TOOLS \<and> \<not> resumes ''get_mandate'' sample_args \<and>
      named_mandate ''get_mandate'' sample_args = Some (jstr ''m'') \<and> jstr ''m'' \<noteq> []"
    by (simp add: CARD_TOOLS_def resumes_def RESUME_TOOLS_def named_mandate_def string_arg_def sample_args_def jstr_def)
  then show ?thesis using scoped_call_confined [OF sample_call scope] by auto
qed

theorem revoked_call_refused_witness:
  "\<exists>records later. (conn_step sample_conn_crypto)\<^sup>*\<^sup>* [] records \<and> identify sample_conn_crypto sample_header records \<noteq> None \<and>
     authorizeTool (sample_auth_env (assertActive sample_conn_crypto sample_header later)) (Some sample_principal) ''get_mandate'' sample_args =
       Inl ''Connection revoked. Reconnect to continue.''"
proof -
  let ?r = "[(cn_id sample_conn, sample_conn)]"
  have reach: "(conn_step sample_conn_crypto)\<^sup>*\<^sup>* [] ?r" using sample_registered by auto
  have known: "identify sample_conn_crypto sample_header ?r = Some (publicMemoryRecord sample_conn)"
    by (simp add: identify_def sample_bearer active_record_def sample_conn_def)
  have rv: "revoke 9 (jstr ''w'') (cn_id (publicMemoryRecord sample_conn)) ?r = ([(cn_id sample_conn, sample_conn\<lparr>mc_revokedAt := Some 9\<rparr>)], True)"
    (is "_ = (?later, True)")
    by (simp add: revoke_def sample_conn_def jstr_def js_trim_def js_space_def publicMemoryRecord_def PublicMcpConnection.defs)
  have "ae_active (sample_auth_env (assertActive sample_conn_crypto sample_header ?later)) = assertActive sample_conn_crypto sample_header ?later"
    by (simp add: sample_auth_env_def)
  from revoked_call_refused [OF reach known rv rtranclp.rtrancl_refl this] known reach show ?thesis by blast
qed

definition sample_response :: json where
  "sample_response = JObj [(jstr ''structuredContent'', JObj [(jstr ''action'', JStr (jstr ''payment_terminal'')),
     (jstr ''status'', JStr (jstr ''confirmed'')), (jstr ''signature'', JStr (jstr ''s'')), (jstr ''receiptAddress'', JStr (jstr ''r''))])]"

theorem settled_outcome_exact_witness:
  "\<exists>oc. normalizeToolOutcome None sample_response = Inr (Some oc) \<and> no_kind oc = PaymentSettled \<and>
     no_signature oc = Some (jstr ''s'') \<and> no_receiptAddress oc = Some (jstr ''r'')"
proof -
  have "settled_result sample_response (jstr ''s'') (jstr ''r'')"
    by (simp add: settled_result_def sample_response_def nested_def result_text_def first_text_def shown_text_def map_filter_simps
        is_action_def js_trim_def js_space_def jstr_def)
  moreover have "receiptUrlForAddress None (Some (jstr ''r'')) = Inr None"
    by (simp add: receiptUrlForAddress_def)
  ultimately show ?thesis using settled_outcome_exact [of None sample_response] by (metis NormalizedOutcome.select_convs(1-3))
qed

end
