(* ===== verification/TokenAmount.thy ===== *)
theory TokenAmount
  imports Delivery
begin

text \<open>
  Amounts as people type and read them, from \<open>sdk/src/mandate-request.ts\<close> (\<open>parseHumanTokenAmount\<close>, \<open>formatHumanTokenAmount\<close>), and the names
  of the known assets (\<open>sdk/src/known-assets.ts\<close>). No floating point is involved: the property is that a printed amount is read back exactly.
\<close>

section \<open>Amounts in whole tokens\<close>

definition REQUEST_U64_MAX :: int where "REQUEST_U64_MAX = 18446744073709551615"

definition parseHumanTokenAmount :: "jstext \<Rightarrow> jsnum \<Rightarrow> jstext result" where
  "parseHumanTokenAmount value decimals =
     (let normalized = js_trim value in
      if \<not> num_in 0 255 decimals then Inl ''decimals must be an integer between 0 and 255''
      else if \<not> decimal_text normalized then Inl (''Not a token amount: '' @ text_string value)
      else
        let d = nat (num_val decimals); whole = takeWhile (\<lambda>c. c \<noteq> 46) normalized; fraction = tl (dropWhile (\<lambda>c. c \<noteq> 46) normalized) in
        if length fraction > d then Inl (''This mint allows '' @ nat_dec d @ '' decimal places'')
        else
          let tokens = text_int whole * 10 ^ d + text_int (fraction @ replicate (d - length fraction) 48) in
          if tokens > REQUEST_U64_MAX then Inl ''Amount is too large for a token account'' else Inr (jstr (int_dec tokens)))"

text \<open>\<open>amount\<close> is \<open>BigInt(baseUnits)\<close>.\<close>

definition formatHumanTokenAmount :: "int \<Rightarrow> nat \<Rightarrow> string" where
  "formatHumanTokenAmount amount decimals =
     (if decimals = 0 then int_dec amount
      else
        let scale = 10 ^ decimals; whole = amount div scale; fraction = amount mod scale in
        if fraction = 0 then int_dec whole
        else int_dec whole @ ''.'' @ rev (dropWhile (\<lambda>c. c = CHR ''0'') (rev (pad_start decimals CHR ''0'' (int_dec fraction)))))"

section \<open>Known assets\<close>

record KnownAsset =
  ka_label :: string
  ka_order :: nat
  ka_mints :: "string list"

definition KNOWN_ASSETS :: "KnownAsset list" where
  "KNOWN_ASSETS =
     [\<lparr>ka_label = ''USDC'', ka_order = 0,
       ka_mints = [''4zMMC9srt5Ri5X14GAgXhaHii3GnPAEERYPJgZJDncDU'', ''EPjFWdd5AufqSSqeM2qN1xzybapC8G4wEGGkZwyTDt1v'']\<rparr>,
      \<lparr>ka_label = ''PYUSD'', ka_order = 1,
       ka_mints = [''CXk2AMBfi3TwaEL2468s6zP8xq9NxTXjp9gjMgzeUynM'', ''2b1kV6DkPAnxd5ixfnxCpjxmKwqjjaYmCZfHsFu24GXo'']\<rparr>,
      \<lparr>ka_label = ''EURC'', ka_order = 2, ka_mints = [''HzwqbKZw8HxMN6bF2yFZNrht3c2iXXzpKcFu7uBEDKtr'']\<rparr>,
      \<lparr>ka_label = ''USDG'', ka_order = 3, ka_mints = [''4F6PM96JJxngmHnZLBh9n58RH4aTVNWvDs2nuwrT5BP7'']\<rparr>]"

definition knownAsset :: "string \<Rightarrow> KnownAsset option" where
  "knownAsset mint = find (\<lambda>asset. mint \<in> set (ka_mints asset)) KNOWN_ASSETS"

definition assetOrder :: "string \<Rightarrow> nat" where
  "assetOrder mint = (case knownAsset mint of Some a \<Rightarrow> ka_order a | None \<Rightarrow> length KNOWN_ASSETS)"

definition assetLabel :: "string \<Rightarrow> string \<Rightarrow> string" where
  "assetLabel mint fallback = (case knownAsset mint of Some a \<Rightarrow> ka_label a | None \<Rightarrow> fallback)"

section \<open>Exactness\<close>

lemma dropWhile_head: "s \<noteq> [] \<Longrightarrow> \<not> P (hd s) \<Longrightarrow> dropWhile P s = s"
  by (cases s) auto

lemma js_trim_id: "s \<noteq> [] \<Longrightarrow> \<not> js_space (hd s) \<Longrightarrow> \<not> js_space (last s) \<Longrightarrow> js_trim s = s"
  by (simp add: js_trim_def dropWhile_head hd_rev)

lemma text_int_jstr: "list_all is_digit s \<Longrightarrow> text_int (jstr s) = dec_val s"
proof (induction s rule: rev_induct)
  case (snoc c s)
  then have "int (of_char c) - 48 = int (digit_val c)" by (auto simp: is_digit_def digit_val_def Let_def)
  with snoc show ?case by (simp add: text_int_def jstr_def dec_val_def)
qed (simp add: text_int_def jstr_def dec_val_def)

lemma digits_jstr: "digits_text (jstr s) \<longleftrightarrow> is_digits s"
  by (auto simp: digits_text_def is_digits_def jstr_def list_all_iff cp_digit_def is_digit_def Let_def)

lemma nat_dec_width: "0 < d \<Longrightarrow> n < 10 ^ d \<Longrightarrow> length (nat_dec n) \<le> d"
proof (induction d arbitrary: n)
  case (Suc d)
  show ?case
  proof (cases "n < 10")
    case True
    then show ?thesis by (simp add: radix_str.simps)
  next
    case False
    then have "0 < d" using Suc.prems(2) by (cases d) auto
    moreover have "n div 10 < 10 ^ d" using Suc.prems(2) by (simp add: less_mult_imp_div_less mult.commute)
    ultimately show ?thesis using Suc.IH [of "n div 10"] False by (simp add: radix_str.simps [of 10 n])
  qed
qed simp

lemma digit_codes: "c \<in> set (jstr s) \<Longrightarrow> is_digits s \<Longrightarrow> 48 \<le> c \<and> c \<le> 57"
  by (auto simp: is_digits_def list_all_iff jstr_def is_digit_def Let_def)

text \<open>Digits with an optional point and digits, as the reader splits them.\<close>

definition decimal :: "string \<Rightarrow> string \<Rightarrow> string" where
  "decimal w f = w @ (if f = [] then [] else ''.'' @ f)"

lemma decimal_split:
  assumes w: "is_digits w" and f: "f = [] \<or> is_digits f"
  shows "js_trim (jstr (decimal w f)) = jstr (decimal w f)" and "takeWhile (\<lambda>c. c \<noteq> 46) (jstr (decimal w f)) = jstr w"
    and "tl (dropWhile (\<lambda>c. c \<noteq> 46) (jstr (decimal w f))) = jstr f" and "decimal_text (jstr (decimal w f))"
proof -
  have free: "46 \<notin> set (jstr w)" using digit_codes [OF _ w, of 46] by auto
  have eq: "jstr (decimal w f) = jstr w @ (if f = [] then [] else 46 # jstr f)" by (simp add: decimal_def jstr_def)
  have "takeWhile (\<lambda>c. c \<noteq> 46) (jstr w) = jstr w" "dropWhile (\<lambda>c. c \<noteq> 46) (jstr w) = []"
    using free by (auto simp: takeWhile_eq_all_conv)
  then show split: "takeWhile (\<lambda>c. c \<noteq> 46) (jstr (decimal w f)) = jstr w" "tl (dropWhile (\<lambda>c. c \<noteq> 46) (jstr (decimal w f))) = jstr f"
    using free unfolding eq by (auto simp: takeWhile_append dropWhile_append jstr_def)
  have "dropWhile (\<lambda>c. c \<noteq> 46) (jstr (decimal w f)) = (if f = [] then [] else 46 # jstr f)"
    using free unfolding eq by (auto simp: dropWhile_append)
  then show "decimal_text (jstr (decimal w f))" using w f split by (auto simp: decimal_text_def digits_jstr)
  have ws: "jstr w \<noteq> []" "f \<noteq> [] \<Longrightarrow> jstr f \<noteq> []" using w by (auto simp: jstr_def is_digits_def)
  have "\<not> js_space c" if "48 \<le> c" "c \<le> 57" for c using that by (auto simp: js_space_def)
  then have "\<not> js_space (hd (jstr w))" "\<not> js_space (last (jstr w))" "f \<noteq> [] \<Longrightarrow> \<not> js_space (last (jstr f))"
    using digit_codes [OF _ w] digit_codes [of _ f] f ws by (metis hd_in_set last_in_set)+
  then show "js_trim (jstr (decimal w f)) = jstr (decimal w f)"
    using ws unfolding eq by (intro js_trim_id) auto
qed

lemma parse_decimal:
  assumes "is_digits w" and "f = [] \<or> is_digits f" and "length f \<le> d" and "d \<le> 255"
    and "dec_val w * 10 ^ d + dec_val (f @ replicate (d - length f) CHR ''0'') = n" and "n \<le> REQUEST_U64_MAX"
  shows "parseHumanTokenAmount (jstr (decimal w f)) (NInt (int d)) = Inr (jstr (int_dec n))"
proof -
  have zeros: "jstr f @ replicate k 48 = jstr (f @ replicate k CHR ''0'')" for k by (simp add: jstr_def)
  have "list_all is_digit (f @ replicate k CHR ''0'')" for k
    using assms(2) by (auto simp: is_digits_def list_all_iff is_digit_def Let_def)
  then have "text_int (jstr f @ replicate k 48) = dec_val (f @ replicate k CHR ''0'')" for k
    unfolding zeros by (rule text_int_jstr)
  moreover have "text_int (jstr w) = dec_val w" using assms(1) text_int_jstr by (simp add: is_digits_def)
  moreover have "length (jstr f) = length f" by (simp add: jstr_def)
  ultimately show ?thesis
    using assms(3-6) by (simp add: parseHumanTokenAmount_def decimal_split [OF assms(1,2)] Let_def)
qed

lemma strip_zeros:
  obtains k where "s = rev (dropWhile (\<lambda>c. c = CHR ''0'') (rev s)) @ replicate k CHR ''0''"
proof -
  have "takeWhile (\<lambda>c. c = CHR ''0'') (rev s) = replicate (length (takeWhile (\<lambda>c. c = CHR ''0'') (rev s))) CHR ''0''"
    by (induction "rev s" arbitrary: s) (metis (full_types) replicate_length_same set_takeWhileD)+
  then have "rev s = replicate (length (takeWhile (\<lambda>c. c = CHR ''0'') (rev s))) CHR ''0'' @ dropWhile (\<lambda>c. c = CHR ''0'') (rev s)"
    by (metis takeWhile_dropWhile_id)
  then show thesis using that by (metis rev_append rev_replicate rev_rev_ident)
qed

text \<open>
  Amounts typed and shown in whole tokens are exact. For every unsigned 64-bit amount of base units and every number of decimals a
  mint can have, reading what was printed gives the same base units back, digit for digit, however many trailing zeros were dropped.
\<close>

theorem human_amount_roundtrip:
  assumes "0 \<le> amount" and "amount \<le> REQUEST_U64_MAX" and "d \<le> 255"
  shows "parseHumanTokenAmount (jstr (formatHumanTokenAmount amount d)) (NInt (int d)) = Inr (jstr (int_dec amount))"
proof -
  have digits: "is_digits (int_dec n)" "dec_val (int_dec n) = n" if "0 \<le> n" for n using that by (simp_all add: int_dec_def)
  have plain: ?thesis if "formatHumanTokenAmount amount d = int_dec w" "w * 10 ^ d = amount" "0 \<le> w" for w
    using parse_decimal [of "int_dec w" "[]" d amount] digits [OF that(3)] that assms
    by (simp add: decimal_def dec_val_def radix_val_zeros [of 10 d "[]", simplified])
  let ?w = "amount div 10 ^ d" and ?r = "amount mod 10 ^ d"
  consider "d = 0" | "d > 0" "?r = 0" | "d > 0" "?r \<noteq> 0" by blast
  then show ?thesis
  proof cases
    case 1
    then show ?thesis using plain [of amount] assms by (simp add: formatHumanTokenAmount_def)
  next
    case 2
    then have "?w * 10 ^ d = amount" "0 \<le> ?w" using assms(1) by (auto simp: pos_imp_zdiv_nonneg_iff)
    then show ?thesis using plain [of ?w] 2 by (simp add: formatHumanTokenAmount_def Let_def)
  next
    case 3
    define frac where "frac = pad_start d CHR ''0'' (int_dec ?r)"
    define f where "f = rev (dropWhile (\<lambda>c. c = CHR ''0'') (rev frac))"
    obtain k where k: "frac = f @ replicate k CHR ''0''" unfolding f_def by (rule strip_zeros)
    have r: "0 \<le> ?r" "nat ?r < 10 ^ d" by (simp_all add: nat_less_iff)
    have len: "length frac = d" using nat_dec_width [OF 3(1) r(2)] r(1) by (simp add: frac_def int_dec_def not_less [symmetric] del: not_less)
    have val: "dec_val frac = ?r" by (simp add: frac_def digits(2) [OF r(1)])
    have all: "list_all is_digit frac" unfolding frac_def using digits(1) [OF r(1)] by (intro list_all_pad) (simp add: is_digits_def)
    have "f \<noteq> []"
      using val 3(2) k by (auto simp: dec_val_def radix_val_zeros [of 10 k "[]", simplified])
    then have f: "is_digits f" using all k by (simp add: is_digits_def)
    have "formatHumanTokenAmount amount d = decimal (int_dec ?w) f"
      using 3 \<open>f \<noteq> []\<close> by (simp add: formatHumanTokenAmount_def Let_def f_def frac_def decimal_def)
    moreover have "k = d - length f" "length f \<le> d" using k len by auto
    moreover have "0 \<le> ?w" using assms(1) by (simp add: pos_imp_zdiv_nonneg_iff)
    ultimately show ?thesis
      using parse_decimal [of "int_dec ?w" f d amount] digits [of ?w] f val k assms div_mult_mod_eq [of amount "10 ^ d"] by simp
  qed
qed

theorem human_amount_roundtrip_witness:
  "parseHumanTokenAmount (jstr (formatHumanTokenAmount 5250000 6)) (NInt 6) = Inr (jstr (int_dec 5250000))"
  using human_amount_roundtrip [of 5250000 6] by (simp add: REQUEST_U64_MAX_def)

end
