(* ===== verification/ReceiptExport.thy ===== *)
theory ReceiptExport
  imports TokenAmount CardCommitment
begin

text \<open>
  \<open>sdk/src/receipt-export.ts\<close>: the limits shown beside a receipt and the CSV file of receipts that accounting tools import. The
  contract of the file is stated with a reader of RFC 4180 that is independent of the writer: it gives back every cell, and no cell
  can be run as a formula. The amounts in the file are those \<open>formatHumanTokenAmount\<close> prints. A block time is in whole seconds.
\<close>

section \<open>Limits beside a receipt\<close>

record ReceiptPolicyLimits =
  pl_maxPerPayment :: int
  pl_totalLimit :: int
  pl_amountSpentAfter :: int
  pl_paymentCountAfter :: int
  pl_maxPaymentCount :: int
  pl_expiresAtSlot :: int
  pl_cooldownSlots :: int

datatype ReceiptPolicy =
    OnChain ReceiptPolicyLimits
  | RelayObserved ReceiptPolicyLimits int bool
  | NotRecorded

definition snapshot_limits :: "ReceiptPolicySnapshot \<Rightarrow> ReceiptPolicyLimits" where
  "snapshot_limits s = \<lparr>pl_maxPerPayment = s_maxPerPayment s, pl_totalLimit = s_totalLimit s, pl_amountSpentAfter = s_amountSpentAfter s,
     pl_paymentCountAfter = s_paymentCountAfter s, pl_maxPaymentCount = s_maxPaymentCount s, pl_expiresAtSlot = s_expiresAtSlot s,
     pl_cooldownSlots = s_cooldownSlots s\<rparr>"

definition receiptPolicy :: "Receipt \<Rightarrow> ReceiptPolicy option \<Rightarrow> ReceiptPolicy" where
  "receiptPolicy receipt relayObserved = (case r_policySnapshot receipt of
     Some snapshot \<Rightarrow> OnChain (snapshot_limits snapshot)
   | None \<Rightarrow> (case relayObserved of Some (RelayObserved l slot later) \<Rightarrow> RelayObserved l slot later | _ \<Rightarrow> NotRecorded))"

definition u64Field :: "json option \<Rightarrow> int option" where
  "u64Field value = (case string_member value of
     Some t \<Rightarrow> if digits_text t \<and> text_int t \<le> 18446744073709551615 then Some (text_int t) else None
   | None \<Rightarrow> None)"

definition relayObservedPolicy :: "json \<Rightarrow> ReceiptPolicy option" where
  "relayObservedPolicy value = (case value of
     JObj ms \<Rightarrow>
       (let field = (\<lambda>k. u64Field (map_of ms (jstr k))) in
        if map_of ms (jstr ''source'') \<noteq> Some (JStr (jstr ''relay-observed'')) then None
        else case map field [''max_per_payment'', ''total_limit'', ''amount_spent_after'', ''payment_count_after'', ''max_payment_count'',
            ''expires_at_slot'', ''cooldown_slots'', ''observed_at_slot''] of
          [Some a, Some b, Some c, Some d, Some e, Some f, Some g, Some slot] \<Rightarrow>
            Some (RelayObserved \<lparr>pl_maxPerPayment = a, pl_totalLimit = b, pl_amountSpentAfter = c, pl_paymentCountAfter = d,
              pl_maxPaymentCount = e, pl_expiresAtSlot = f, pl_cooldownSlots = g\<rparr> slot
              (map_of ms (jstr ''includes_later_payments'') = Some (JBool True)))
        | _ \<Rightarrow> None)
   | _ \<Rightarrow> None)"

definition receiptExplorerUrl :: "Receipt \<Rightarrow> bool \<Rightarrow> string" where
  "receiptExplorerUrl receipt devnet =
     (let suffix = (if devnet then ''?cluster=devnet'' else []) in
      case r_transactionSignature receipt of
        Some s \<Rightarrow> if s \<noteq> [] then ''https://explorer.solana.com/tx/'' @ s @ suffix
                  else ''https://explorer.solana.com/address/'' @ r_address receipt @ suffix
      | None \<Rightarrow> ''https://explorer.solana.com/address/'' @ r_address receipt @ suffix)"

section \<open>The rows\<close>

record ReceiptPurpose =
  pp_invoice :: "jstext option"
  pp_description :: "jstext option"
  pp_lineItems :: "PaymentRequestLineItem list option"

record ReceiptCsvRow =
  cw_receipt :: Receipt
  cw_decimals :: "jsnum option"
  cw_symbol :: "jstext option"
  cw_blockTime :: "int option"
  cw_policy :: "ReceiptPolicy option"
  cw_purpose :: "ReceiptPurpose option"
  cw_verifyUrl :: "jstext option"
  cw_explorerUrl :: "jstext option"
  cw_poNumber :: "jstext option"
  cw_orderMatch :: "jstext option"

definition RECEIPT_CSV_HEADERS :: "jstext list" where
  "RECEIPT_CSV_HEADERS = map jstr [''Date'', ''Description'', ''Amount'', ''Payee'', ''Reference'', ''Token'', ''Agent'', ''Spending permission'',
     ''Per-payment limit'', ''Total limit'', ''Spent after'', ''Limits source'', ''Receipt'', ''Verify URL'', ''Explorer URL'', ''PO number'',
     ''Order match'']"

definition strip_end :: "char \<Rightarrow> string \<Rightarrow> string" where
  "strip_end c s = rev (dropWhile (\<lambda>x. x = c) (rev s))"

text \<open>\<open>display.replace(/0+$/, "").replace(/\\.$/, "")\<close>\<close>

definition exactAmount :: "int \<Rightarrow> jsnum option \<Rightarrow> string result" where
  "exactAmount value decimals =
     bindR (formatExactTokenAmount value decimals) (\<lambda>exact.
     Inr (if t_displayKind exact = BaseUnits then t_baseUnits exact @ '' base units''
          else if CHR ''.'' \<in> set (t_display exact)
          then (let s = strip_end CHR ''0'' (t_display exact) in if s \<noteq> [] \<and> last s = CHR ''.'' then butlast s else s)
          else t_display exact))"

text \<open>\<open>toISOString\<close> throws outside the range of dates.\<close>

definition isoDate :: "int option \<Rightarrow> string result" where
  "isoDate blockTime = (case blockTime of
     None \<Rightarrow> Inr []
   | Some seconds \<Rightarrow> if \<bar>seconds\<bar> \<le> 8640000000000 then Inr (iso_day (seconds div 86400)) else Inl ''Invalid time value'')"

definition csv_guard :: "jstext \<Rightarrow> jstext" where
  "csv_guard value = (if value \<noteq> [] \<and> hd value \<in> {61, 43, 45, 64, 9, 13} then 39 # value else value)"

definition csv_quote :: "jstext \<Rightarrow> jstext" where
  "csv_quote safe =
     (if list_ex (\<lambda>c. c \<in> {34, 44, 13, 10}) safe then 34 # concat (map (\<lambda>c. if c = 34 then [34, 34] else [c]) safe) @ [34] else safe)"

definition csvCell :: "jstext \<Rightarrow> jstext" where
  "csvCell value = csv_quote (csv_guard value)"

definition purpose_text :: "ReceiptPurpose option \<Rightarrow> jstext" where
  "purpose_text purpose = (case purpose of
     None \<Rightarrow> []
   | Some p \<Rightarrow>
       (case pp_description p of
          Some d \<Rightarrow> if d \<noteq> [] then d else (case pp_lineItems p of Some items \<Rightarrow> join_text (jstr ''; '') (map li_label items) | None \<Rightarrow> [])
        | None \<Rightarrow> (case pp_lineItems p of Some items \<Rightarrow> join_text (jstr ''; '') (map li_label items) | None \<Rightarrow> [])))"

definition policy_source :: "ReceiptPolicy \<Rightarrow> string" where
  "policy_source p = (case p of OnChain _ \<Rightarrow> ''on-chain'' | RelayObserved _ _ _ \<Rightarrow> ''relay-observed'' | NotRecorded \<Rightarrow> ''not-recorded'')"

definition policy_limits :: "ReceiptPolicy \<Rightarrow> ReceiptPolicyLimits option" where
  "policy_limits p = (case p of OnChain l \<Rightarrow> Some l | RelayObserved l _ _ \<Rightarrow> Some l | NotRecorded \<Rightarrow> None)"

definition spent_after_known :: "ReceiptPolicy \<Rightarrow> bool" where
  "spent_after_known p = (case p of OnChain _ \<Rightarrow> True | RelayObserved _ _ later \<Rightarrow> \<not> later | NotRecorded \<Rightarrow> False)"

definition limit_cell :: "ReceiptPolicyLimits option \<Rightarrow> (ReceiptPolicyLimits \<Rightarrow> int) \<Rightarrow> jsnum option \<Rightarrow> string result" where
  "limit_cell limits field decimals = (case limits of Some l \<Rightarrow> exactAmount (field l) decimals | None \<Rightarrow> Inr [])"

definition or_empty :: "jstext option \<Rightarrow> jstext" where "or_empty v = (case v of Some t \<Rightarrow> t | None \<Rightarrow> [])"

definition rowCells :: "ReceiptCsvRow \<Rightarrow> jstext list result" where
  "rowCells row =
     (let receipt = cw_receipt row; decimals = cw_decimals row;
          policy = (case cw_policy row of Some p \<Rightarrow> p | None \<Rightarrow> receiptPolicy receipt None); limits = policy_limits policy in
      bindR (isoDate (cw_blockTime row)) (\<lambda>date.
      bindR (exactAmount (r_amount receipt) decimals) (\<lambda>amount.
      bindR (limit_cell limits pl_maxPerPayment decimals) (\<lambda>perPayment.
      bindR (limit_cell limits pl_totalLimit decimals) (\<lambda>totalLimit.
      bindR (limit_cell (if spent_after_known policy then limits else None) pl_amountSpentAfter decimals) (\<lambda>spentAfter.
      Inr [jstr date, purpose_text (cw_purpose row), jstr amount, jstr (r_recipientTokenAccount receipt),
        (case Option.bind (cw_purpose row) pp_invoice of Some i \<Rightarrow> i | None \<Rightarrow> jstr (bytesToHex (r_invoiceHash receipt))),
        (case cw_symbol row of Some s \<Rightarrow> s | None \<Rightarrow> jstr (r_mint receipt)), jstr (r_agent receipt), jstr (r_mandate receipt),
        jstr perPayment, jstr totalLimit, jstr spentAfter, jstr (policy_source policy), jstr (r_address receipt), or_empty (cw_verifyUrl row),
        (case cw_explorerUrl row of Some u \<Rightarrow> u | None \<Rightarrow> jstr (receiptExplorerUrl receipt True)), or_empty (cw_poNumber row),
        or_empty (cw_orderMatch row)]))))))"

definition csv_text :: "jstext list list \<Rightarrow> jstext" where
  "csv_text table = join_text [13, 10] (map (\<lambda>cells. join_text [44] (map csvCell cells)) table) @ [13, 10]"

definition receiptsToCsv :: "ReceiptCsvRow list \<Rightarrow> jstext result" where
  "receiptsToCsv rows = bindR (mapR rowCells rows) (\<lambda>table. Inr (csv_text (RECEIPT_CSV_HEADERS # table)))"

section \<open>A reader of RFC 4180\<close>

datatype csv_state = AtStart | InPlain | InQuotes | AfterQuote

text \<open>Cells and rows are collected in reverse; every row ends with a line break.\<close>

fun csv_read :: "csv_state \<Rightarrow> jstext \<Rightarrow> jstext list \<Rightarrow> jstext list list \<Rightarrow> jstext \<Rightarrow> jstext list list option" where
  "csv_read st cell cells rows [] = (if st = AtStart \<and> cells = [] then Some (rev rows) else None)"
| "csv_read InQuotes cell cells rows (c # s) =
     (if c = 34 then csv_read AfterQuote cell cells rows s else csv_read InQuotes (c # cell) cells rows s)"
| "csv_read st cell cells rows (c # s) =
     (if c = 44 then csv_read AtStart [] (rev cell # cells) rows s
      else if c = 13 then (case s of b # t \<Rightarrow> if b = 10 then csv_read AtStart [] [] (rev (rev cell # cells) # rows) t else None | [] \<Rightarrow> None)
      else if c = 34 then
        (if st = AtStart then csv_read InQuotes [] cells rows s
         else if st = AfterQuote then csv_read InQuotes (34 # cell) cells rows s else None)
      else if c = 10 \<or> st = AfterQuote then None
      else csv_read InPlain (c # cell) cells rows s)"

definition csv_parse :: "jstext \<Rightarrow> jstext list list option" where
  "csv_parse s = csv_read AtStart [] [] [] s"

section \<open>Reading what was written\<close>

lemma read_comma: "st \<noteq> InQuotes \<Longrightarrow> csv_read st cell cells rows (44 # s) = csv_read AtStart [] (rev cell # cells) rows s"
  by (cases st) simp_all

lemma read_break: "st \<noteq> InQuotes \<Longrightarrow> csv_read st cell cells rows (13 # 10 # s) = csv_read AtStart [] [] (rev (rev cell # cells) # rows) s"
  by (cases st) simp_all

lemma read_quoted:
  "csv_read InQuotes cell cells rows (concat (map (\<lambda>c. if c = 34 then [34, 34] else [c]) v) @ 34 # t) =
   csv_read AfterQuote (rev v @ cell) cells rows t"
  by (induction v arbitrary: cell) simp_all

lemma read_plain:
  assumes "\<not> list_ex (\<lambda>c. c \<in> {34, 44, 13, 10}) v" and "st = AtStart \<or> st = InPlain"
  shows "csv_read st cell cells rows (v @ t) = csv_read (if v = [] then st else InPlain) (rev v @ cell) cells rows t"
  using assms by (induction v arbitrary: cell st) auto

text \<open>A written cell leaves the reader outside quotes with the cell's value.\<close>

lemma read_cell: "\<exists>st. st \<noteq> InQuotes \<and> (\<forall>t. csv_read AtStart [] cells rows (csv_quote v @ t) = csv_read st (rev v) cells rows t)"
proof (cases "list_ex (\<lambda>c. c \<in> {34, 44, 13, 10}) v")
  case True
  have "csv_read AtStart [] cells rows (csv_quote v @ t) = csv_read AfterQuote (rev v) cells rows t" for t
    using True read_quoted [of "[]" cells rows v t] by (simp add: csv_quote_def)
  then show ?thesis by (intro exI [of _ AfterQuote]) simp
next
  case False
  then have "csv_read AtStart [] cells rows (csv_quote v @ t) = csv_read (if v = [] then AtStart else InPlain) (rev v) cells rows t" for t
    using read_plain [of v AtStart "[]"] by (simp add: csv_quote_def)
  then show ?thesis by (intro exI [of _ "if v = [] then AtStart else InPlain"]) simp
qed

lemma read_row:
  "vs \<noteq> [] \<Longrightarrow> csv_read AtStart [] cells rows (join_text [44] (map csv_quote vs) @ 13 # 10 # t) =
     csv_read AtStart [] [] ((rev cells @ vs) # rows) t"
proof (induction vs arbitrary: cells rule: induct_list012)
  case (2 v)
  from read_cell [of cells rows v] obtain st where "st \<noteq> InQuotes"
    "csv_read AtStart [] cells rows (csv_quote v @ 13 # 10 # t) = csv_read st (rev v) cells rows (13 # 10 # t)" by blast
  then show ?case by (simp add: read_break)
next
  case (3 v w vs)
  let ?rest = "join_text [44] (map csv_quote (w # vs)) @ 13 # 10 # t"
  from read_cell [of cells rows v] obtain st where "st \<noteq> InQuotes"
    "csv_read AtStart [] cells rows (csv_quote v @ 44 # ?rest) = csv_read st (rev v) cells rows (44 # ?rest)" by blast
  with 3(2) [of "v # cells"] show ?case by (simp add: read_comma)
qed simp

lemma csvCell_comp: "csvCell = csv_quote \<circ> csv_guard"
  by (rule ext) (simp add: csvCell_def)

lemma read_table:
  "table \<noteq> [] \<Longrightarrow> \<forall>cells \<in> set table. cells \<noteq> [] \<Longrightarrow>
   csv_read AtStart [] [] rows (csv_text table) = Some (rev rows @ map (map csv_guard) table)"
proof (induction table arbitrary: rows rule: induct_list012)
  case (2 cells)
  then show ?case using read_row [of "map csv_guard cells" "[]" rows "[]"] by (simp add: csv_text_def csvCell_comp)
next
  case (3 cells more table)
  have "csv_text (cells # more # table) = join_text [44] (map csv_quote (map csv_guard cells)) @ 13 # 10 # csv_text (more # table)"
    by (simp add: csv_text_def csvCell_comp)
  then show ?case using 3 read_row [of "map csv_guard cells" "[]" rows "csv_text (more # table)"] by simp
qed simp

lemma csv_guard_safe: "csv_guard v = [] \<or> hd (csv_guard v) \<notin> {61, 43, 45, 64, 9, 13}"
  by (simp add: csv_guard_def)

lemma rowCells_length: "rowCells row = Inr cells \<Longrightarrow> length cells = 17"
  by (auto simp: rowCells_def Let_def bindR_eq_Inr)

text \<open>
  C30. The exported file says what the receipts say and nothing in it runs. Read by any reader of RFC 4180, it is the header row followed by one
  row of seventeen cells per receipt, in order; each cell is the cell of the receipt, with an apostrophe in front exactly where a spreadsheet
  would have taken it for a formula, whatever commas, quotes and line breaks merchants put in the texts. So no cell starts
  with a formula character.
\<close>

theorem exported_csv_exact:
  assumes "receiptsToCsv rows = Inr file"
  shows "\<exists>table. mapR rowCells rows = Inr table \<and> csv_parse file = Some (map (map csv_guard) (RECEIPT_CSV_HEADERS # table)) \<and>
    length table = length rows \<and> list_all (\<lambda>cells. length cells = length RECEIPT_CSV_HEADERS) table \<and>
    list_all (list_all (\<lambda>cell. cell = [] \<or> hd cell \<notin> {61, 43, 45, 64, 9, 13})) (the (csv_parse file))"
proof -
  from assms obtain table where t: "mapR rowCells rows = Inr table" "file = csv_text (RECEIPT_CSV_HEADERS # table)"
    by (auto simp: receiptsToCsv_def bindR_eq_Inr)
  have rows: "length table = length rows" "\<forall>i < length rows. rowCells (rows ! i) = Inr (table ! i)"
    using t(1) by (simp_all add: mapR_eq_Inr)
  have width: "\<forall>cells \<in> set table. length cells = 17"
    using rows rowCells_length by (metis in_set_conv_nth)
  have read: "csv_parse file = Some (map (map csv_guard) (RECEIPT_CSV_HEADERS # table))"
    unfolding csv_parse_def t(2) using width by (subst read_table) (auto simp: RECEIPT_CSV_HEADERS_def)
  have "list_all (list_all (\<lambda>cell. cell = [] \<or> hd cell \<notin> {61, 43, 45, 64, 9, 13})) (map (map csv_guard) (RECEIPT_CSV_HEADERS # table))"
    using csv_guard_safe by (simp add: list_all_iff)
  then show ?thesis using t(1) rows(1) width read by (auto simp: list_all_iff RECEIPT_CSV_HEADERS_def)
qed

section \<open>Exact amounts\<close>

lemma pad_digit:
  assumes "0 < k"
  shows "pad_start (Suc k) CHR ''0'' (nat_dec n) = pad_start k CHR ''0'' (nat_dec (n div 10)) @ [digit_char (n mod 10)]"
proof (cases "n < 10")
  case True
  then have "nat_dec n = [digit_char n]" "nat_dec (n div 10) = [CHR ''0'']"
    by (simp_all add: radix_str.simps digit_char_0)
  with True assms show ?thesis
    by (cases k) (simp_all add: pad_start_def replicate_append_same)
next
  case False
  then have "nat_dec n = nat_dec (n div 10) @ [digit_char (n mod 10)]" by (simp add: radix_str.simps [of 10 n])
  then show ?thesis by (simp add: pad_start_def)
qed

lemma pad_split:
  "pad_start (Suc (Suc d)) CHR ''0'' (nat_dec n) =
     nat_dec (n div 10 ^ Suc d) @ pad_start (Suc d) CHR ''0'' (nat_dec (n mod 10 ^ Suc d))"
proof (induction d arbitrary: n)
  case 0
  have "pad_start (Suc 0) CHR ''0'' (nat_dec m) = nat_dec m" for m by (cases "nat_dec m") (simp_all add: pad_start_def)
  moreover have "nat_dec (n mod 10) = [digit_char (n mod 10)]" by (simp add: radix_str.simps)
  ultimately show ?case using pad_digit [of 1 n] by (simp add: pad_start_def)
next
  case (Suc d)
  have "pad_start (Suc (Suc d)) CHR ''0'' (nat_dec (n mod 10 ^ Suc (Suc d))) =
      pad_start (Suc d) CHR ''0'' (nat_dec (n mod 10 ^ Suc (Suc d) div 10)) @ [digit_char (n mod 10 ^ Suc (Suc d) mod 10)]"
    by (rule pad_digit) simp
  moreover have "n mod 10 ^ Suc (Suc d) div 10 = n div 10 mod 10 ^ Suc d"
    using mod_mult2_eq [of n 10 "10 ^ Suc d"] by simp
  moreover have "n mod 10 ^ Suc (Suc d) mod 10 = n mod 10" by (simp add: mod_mod_cancel)
  moreover have "n div 10 div 10 ^ Suc d = n div 10 ^ Suc (Suc d)" by (simp only: power_Suc div_mult2_eq)
  ultimately show ?case using pad_digit [of "Suc (Suc d)" n] Suc.IH [of "n div 10"] by simp
qed

lemma dropWhile_stop: "\<not> P c \<Longrightarrow> dropWhile P (xs @ c # ys) = dropWhile P xs @ c # ys"
  by (induction xs) simp_all

lemma strip_zeros_point: "strip_end CHR ''0'' (w @ CHR ''.'' # f) = w @ CHR ''.'' # strip_end CHR ''0'' f"
  by (simp add: strip_end_def dropWhile_stop)

lemma strip_digits:
  assumes "list_all is_digit f"
  shows "strip_end CHR ''0'' f = [] \<or> last (strip_end CHR ''0'' f) \<noteq> CHR ''.''"
proof (rule ccontr)
  assume f: "\<not> ?thesis"
  then have "CHR ''.'' \<in> set f" unfolding strip_end_def by (metis last_in_set set_dropWhileD set_rev)
  then show False using assms by (auto simp: list_all_iff is_digit_def)
qed

lemma strip_empty: "strip_end CHR ''0'' f = [] \<longleftrightarrow> f = replicate (length f) CHR ''0''"
proof -
  have "strip_end CHR ''0'' f = [] \<longleftrightarrow> (\<forall>x \<in> set f. x = CHR ''0'')" by (simp add: strip_end_def)
  also have "\<dots> \<longleftrightarrow> f = replicate (length f) CHR ''0''" by (induction f) auto
  finally show ?thesis .
qed

lemma pad_zero_iff:
  assumes "0 < d"
  shows "strip_end CHR ''0'' (pad_start d CHR ''0'' (nat_dec n)) = [] \<longleftrightarrow> n = 0"
proof
  assume "strip_end CHR ''0'' (pad_start d CHR ''0'' (nat_dec n)) = []"
  then have "dec_val (pad_start d CHR ''0'' (nat_dec n)) = dec_val (replicate (length (pad_start d CHR ''0'' (nat_dec n))) CHR ''0'')"
    unfolding strip_empty by (rule arg_cong)
  moreover have "dec_val (replicate k CHR ''0'') = 0" for k
    using radix_val_zeros [of 10 k "[]"] by (simp add: dec_val_def)
  ultimately show "n = 0" by (simp del: length_pad_start)
next
  assume "n = 0"
  then have "pad_start d CHR ''0'' (nat_dec n) = replicate d CHR ''0''"
    using assms by (cases d) (simp_all add: radix_str.simps digit_char_0 pad_start_def replicate_append_same)
  then show "strip_end CHR ''0'' (pad_start d CHR ''0'' (nat_dec n)) = []" by (simp add: strip_empty)
qed

text \<open>The amounts of the file are the ones people are shown elsewhere: the two printers of the SDK agree.\<close>

lemma exactAmount_human:
  assumes v: "0 \<le> v" "v \<le> 18446744073709551615" and d: "d \<le> 255"
  shows "exactAmount v (Some (NInt (int d))) = Inr (formatHumanTokenAmount v d)"
proof (cases d)
  case 0
  have "CHR ''.'' \<notin> set (int_dec v)" using v is_digits_nat_dec [of "nat v"] by (auto simp: int_dec_def is_digits_def list_all_iff is_digit_def)
  then show ?thesis using 0 v by (simp add: exactAmount_def formatExactTokenAmount_def formatHumanTokenAmount_def Let_def)
next
  case (Suc e)
  then have pos: "0 < d" by simp
  let ?w = "nat_dec (nat v div 10 ^ d)" and ?r = "nat v mod 10 ^ d"
  let ?f = "pad_start d CHR ''0'' (nat_dec ?r)"
  have len: "length ?f = d" using length_nat_dec [of d ?r] Suc by simp
  have split: "pad_start (d + 1) CHR ''0'' (int_dec v) = ?w @ ?f"
    using v Suc pad_split [of e "nat v"] by (simp add: int_dec_def)
  have digits: "list_all is_digit ?f" using is_digits_nat_dec by (intro list_all_pad) (simp add: is_digits_def)
  have shown: "formatExactTokenAmount v (Some (NInt (int d))) = Inr \<lparr>t_baseUnits = int_dec v, t_decimals = Some (int d),
      t_display = ?w @ CHR ''.'' # ?f, t_displayKind = UiAmount\<rparr>"
    using v d pos len split by (simp add: formatExactTokenAmount_def Let_def del: length_pad_start)
  have "v div 10 ^ d = int (nat v div 10 ^ d)" "v mod 10 ^ d = int ?r" using v by (simp_all add: zdiv_int zmod_int)
  then have parts: "int_dec (v div 10 ^ d) = ?w" "int_dec (v mod 10 ^ d) = nat_dec ?r" "v mod 10 ^ d = 0 \<longleftrightarrow> ?r = 0"
    by (simp_all only: int_dec_def of_nat_0_eq_iff nat_int) simp_all
  let ?g = "strip_end CHR ''0'' ?f"
  have human: "formatHumanTokenAmount v d = (if ?r = 0 then ?w else ?w @ ''.'' @ ?g)"
    unfolding formatHumanTokenAmount_def Let_def parts strip_end_def using pos by simp
  have exported: "exactAmount v (Some (NInt (int d))) =
      Inr (let s = ?w @ CHR ''.'' # ?g in if s \<noteq> [] \<and> last s = CHR ''.'' then butlast s else s)"
    unfolding exactAmount_def shown bindR_Inr by (simp add: strip_zeros_point)
  show ?thesis
  proof (cases "?r = 0")
    case True
    then have "?g = []" by (rule pad_zero_iff [OF pos, THEN iffD2])
    then show ?thesis unfolding exported human Let_def using True by (simp add: butlast_append)
  next
    case False
    then have "?g \<noteq> []" "last ?g \<noteq> CHR ''.''" using pad_zero_iff [OF pos, of ?r] strip_digits [OF digits] by argo+
    then show ?thesis unfolding exported human Let_def using False by simp
  qed
qed

section \<open>Witness\<close>

definition sample_csv_receipt :: Receipt where
  "sample_csv_receipt = \<lparr>r_address = ''R'', r_mandate = ''M'', r_invoiceHash = [], r_paymentId = [], r_mint = ''T'', r_recipient = ''P'',
     r_sourceTokenAccount = ''S'', r_recipientTokenAccount = ''P'', r_amount = 7, r_agent = ''A'', r_executedAtSlot = 1,
     r_signatureReference = [], r_status = Confirmed, r_onChainStatus = 1, r_bump = 255, r_transactionSignature = None, r_policySnapshot = None\<rparr>"

definition sample_csv_row :: ReceiptCsvRow where
  "sample_csv_row = \<lparr>cw_receipt = sample_csv_receipt, cw_decimals = None, cw_symbol = None, cw_blockTime = None, cw_policy = None,
     cw_purpose = Some \<lparr>pp_invoice = Some (jstr ''=1+1''), pp_description = Some (jstr ''a,b''), pp_lineItems = None\<rparr>, cw_verifyUrl = None,
     cw_explorerUrl = None, cw_poNumber = None, cw_orderMatch = None\<rparr>"

theorem exported_csv_exact_witness:
  "\<exists>file table. receiptsToCsv [sample_csv_row] = Inr file \<and> csv_parse file = Some (map (map csv_guard) (RECEIPT_CSV_HEADERS # table)) \<and>
     length table = 1"
proof -
  obtain out where "receiptsToCsv [sample_csv_row] = Inr out"
    by (simp add: receiptsToCsv_def sample_csv_row_def sample_csv_receipt_def rowCells_def Let_def isoDate_def exactAmount_def
        formatExactTokenAmount_def limit_cell_def receiptPolicy_def policy_limits_def spent_after_known_def)
  then show ?thesis using exported_csv_exact by fastforce
qed

end
