(* ===== verification/MandateRequest.thy ===== *)
theory MandateRequest
  imports TokenAmount
begin

text \<open>
  \<open>sdk/src/mandate-request.ts\<close>: the signed ask for a spending permission that a vendor or a builder sends to an owner as a link. The link is untrusted, so the request is first a \<open>json\<close> value. \<open>parse\<close> is
  \<open>JSON.parse\<close> after the fatal UTF-8 decoder, with \<open>None\<close> where either throws. The properties: what a verified request guarantees,
  that the hash shown to the owner binds every field, and that a signed request survives the link and verifies.
\<close>

section \<open>Data and constants\<close>

datatype MandateRequestRole = Vendor | Grantee
datatype Cluster = Devnet | MainnetBeta

record MandateRequestPayload =
  mr_cluster :: Cluster
  mr_role :: MandateRequestRole
  mr_requester :: address
  mr_requesterName :: "jstext option"
  mr_agent :: "address option"
  mr_mint :: address
  mr_tokenProgram :: TokenProgram
  mr_recipient :: "address option"
  mr_suggestedMaxPerPayment :: jstext
  mr_suggestedTotal :: jstext
  mr_decimals :: int
  mr_suggestedExpirySlot :: "jstext option"
  mr_validUntilSlot :: "jstext option"
  mr_description :: jstext
  mr_poNumber :: "jstext option"
  mr_nonce :: jstext

record SignedMandateRequest =
  sm_payload :: MandateRequestPayload
  sm_signature :: jstext

text \<open>The payload of a verification is the raw one where the request could not be read.\<close>

record MandateRequestVerification =
  mv_valid :: bool
  mv_payload :: json
  mv_requestHash :: string
  mv_reason :: "string option"

definition MANDATE_REQUEST_PATH :: jstext where "MANDATE_REQUEST_PATH = jstr ''/app/requests/permission''"
definition MANDATE_REQUEST_FRAGMENT_KEY :: jstext where "MANDATE_REQUEST_FRAGMENT_KEY = jstr ''req''"
definition MAX_REQUESTER_NAME_LENGTH :: nat where "MAX_REQUESTER_NAME_LENGTH = 64"
definition MAX_REQUEST_DESCRIPTION_LENGTH :: nat where "MAX_REQUEST_DESCRIPTION_LENGTH = 280"
definition MAX_PO_NUMBER_LENGTH :: nat where "MAX_PO_NUMBER_LENGTH = 64"
definition MAX_REQUEST_NONCE_LENGTH :: nat where "MAX_REQUEST_NONCE_LENGTH = 128"
definition NOMINAL_SLOTS_PER_DAY :: int where "NOMINAL_SLOTS_PER_DAY = 216000"

text \<open>\<open>/^(0|[1-9]\\d*)$/\<close>, \<open>/^[A-Za-z0-9_-]*$/\<close> and \<open>/[\\u0000-\\u001f\\u007f]/\<close>\<close>

definition CANONICAL_UINT :: "jstext \<Rightarrow> bool" where
  "CANONICAL_UINT s \<longleftrightarrow> digits_text s \<and> (s = [48] \<or> hd s \<noteq> 48)"

definition BASE64URL :: "jstext \<Rightarrow> bool" where
  "BASE64URL s \<longleftrightarrow> list_all (\<lambda>c. 65 \<le> c \<and> c \<le> 90 \<or> 97 \<le> c \<and> c \<le> 122 \<or> 48 \<le> c \<and> c \<le> 57 \<or> c = 95 \<or> c = 45) s"

definition CONTROL_CHARACTER :: "jstext \<Rightarrow> bool" where
  "CONTROL_CHARACTER s \<longleftrightarrow> list_ex (\<lambda>c. c \<le> 0x1f \<or> c = 0x7f) s"

definition REQUEST_KEYS :: "jstext list" where
  "REQUEST_KEYS = map jstr [''version'', ''cluster'', ''role'', ''requester'', ''requesterName'', ''agent'', ''mint'', ''tokenProgram'',
     ''recipient'', ''suggestedMaxPerPayment'', ''suggestedTotal'', ''decimals'', ''suggestedExpirySlot'', ''validUntilSlot'',
     ''description'', ''poNumber'', ''nonce'']"

definition REQUEST_ENVELOPE_KEYS :: "jstext list" where
  "REQUEST_ENVELOPE_KEYS = map jstr [''payload'', ''signature'']"

section \<open>Canonical form\<close>

fun cluster_text :: "Cluster \<Rightarrow> jstext" where
  "cluster_text Devnet = jstr ''devnet''"
| "cluster_text MainnetBeta = jstr ''mainnet-beta''"

fun role_text :: "MandateRequestRole \<Rightarrow> jstext" where
  "role_text Vendor = jstr ''vendor''"
| "role_text Grantee = jstr ''grantee''"

fun token_program_text :: "TokenProgram \<Rightarrow> jstext" where
  "token_program_text SplToken = jstr ''spl-token''"
| "token_program_text Token2022 = jstr ''token-2022''"

text \<open>\<open>orderedPayload\<close>: fixed key order, optional keys only when present.\<close>

definition request_members :: "MandateRequestPayload \<Rightarrow> (jstext \<times> json) list" where
  "request_members p =
     [(jstr ''version'', JNum (NInt 1)), (jstr ''cluster'', JStr (cluster_text (mr_cluster p))),
      (jstr ''role'', JStr (role_text (mr_role p))), (jstr ''requester'', JStr (jstr (mr_requester p)))]
     @ optional_member ''requesterName'' (map_option JStr (mr_requesterName p))
     @ optional_member ''agent'' (map_option (JStr \<circ> jstr) (mr_agent p))
     @ [(jstr ''mint'', JStr (jstr (mr_mint p))), (jstr ''tokenProgram'', JStr (token_program_text (mr_tokenProgram p)))]
     @ optional_member ''recipient'' (map_option (JStr \<circ> jstr) (mr_recipient p))
     @ [(jstr ''suggestedMaxPerPayment'', JStr (mr_suggestedMaxPerPayment p)), (jstr ''suggestedTotal'', JStr (mr_suggestedTotal p)),
        (jstr ''decimals'', JNum (NInt (mr_decimals p)))]
     @ optional_member ''suggestedExpirySlot'' (map_option JStr (mr_suggestedExpirySlot p))
     @ optional_member ''validUntilSlot'' (map_option JStr (mr_validUntilSlot p))
     @ [(jstr ''description'', JStr (mr_description p))]
     @ optional_member ''poNumber'' (map_option JStr (mr_poNumber p))
     @ [(jstr ''nonce'', JStr (mr_nonce p))]"

definition canonicalMandateRequest :: "MandateRequestPayload \<Rightarrow> jstext" where
  "canonicalMandateRequest payload = print_json (JObj (request_members payload))"

section \<open>Parsing\<close>

definition canonicalAddress :: "web3 \<Rightarrow> json option \<Rightarrow> string \<Rightarrow> address result" where
  "canonicalAddress W value name = (case string_member value of
     None \<Rightarrow> Inl (name @ '' must be a Solana address'')
   | Some t \<Rightarrow> (case address_text W t of
       Inl _ \<Rightarrow> Inl (name @ '' must be a Solana address'')
     | Inr parsed \<Rightarrow> if jstr parsed \<noteq> t then Inl (name @ '' must be a canonical Solana address'') else Inr parsed))"

text \<open>The checked text; its value is \<open>text_int\<close> of it.\<close>

definition u64String :: "json option \<Rightarrow> string \<Rightarrow> bool \<Rightarrow> jstext result" where
  "u64String value name positive = (case string_member value of
     None \<Rightarrow> Inl (name @ '' must be an unsigned integer string'')
   | Some t \<Rightarrow>
       if \<not> CANONICAL_UINT t then Inl (name @ '' must be an unsigned integer string'')
       else if text_int t > REQUEST_U64_MAX then Inl (name @ '' must fit in u64'')
       else if positive \<and> text_int t = 0 then Inl (name @ '' must be greater than zero'')
       else Inr t)"

text \<open>The checked text, \<open>None\<close> where it is absent and may be.\<close>

definition boundedText :: "json option \<Rightarrow> string \<Rightarrow> nat \<Rightarrow> bool \<Rightarrow> jstext option result" where
  "boundedText value name limit required =
     (if value = None \<and> \<not> required then Inr None
      else case string_member value of
        None \<Rightarrow> Inl (name @ '' must be text'')
      | Some t \<Rightarrow>
          if js_trim t = [] then Inl (name @ '' must not be empty'')
          else if t \<noteq> js_trim t then Inl (name @ '' must not start or end with spaces'')
          else if length t > limit then Inl (name @ '' must be at most '' @ nat_dec limit @ '' characters'')
          else if CONTROL_CHARACTER t then Inl (name @ '' must not contain control characters'')
          else Inr (Some t))"

definition optional_u64 :: "json option \<Rightarrow> string \<Rightarrow> jstext option result" where
  "optional_u64 value name = (if value = None then Inr None else bindR (u64String value name True) (\<lambda>t. Inr (Some t)))"

text \<open>A string out of a list of choices.\<close>

definition one_of :: "(jstext \<times> 'a) list \<Rightarrow> json option \<Rightarrow> 'a option" where
  "one_of choices value = (case string_member value of Some t \<Rightarrow> map_of choices t | None \<Rightarrow> None)"

text \<open>The payee of a vendor and the agent of a grantee; the other one must be absent.\<close>

definition request_parties ::
  "web3 \<Rightarrow> MandateRequestRole \<Rightarrow> json option \<Rightarrow> json option \<Rightarrow> (address option \<times> address option) result" where
  "request_parties W role agent recipient = (case role of
     Vendor \<Rightarrow>
       bindR (canonicalAddress W recipient ''recipient'') (\<lambda>r.
       bindR (require (agent = None) ''A vendor request must not name an agent'') (\<lambda>_. Inr (None, Some r)))
   | Grantee \<Rightarrow>
       bindR (canonicalAddress W agent ''agent'') (\<lambda>a.
       bindR (require (recipient = None) ''A budget request must not name a recipient'') (\<lambda>_. Inr (Some a, None))))"

definition request_decimals :: "json option \<Rightarrow> int result" where
  "request_decimals value = (case value of
     Some (JNum (NInt d)) \<Rightarrow> if 0 \<le> d \<and> d \<le> 255 then Inr d else Inl ''decimals must be an integer between 0 and 255''
   | _ \<Rightarrow> Inl ''decimals must be an integer between 0 and 255'')"

definition parse_request :: "web3 \<Rightarrow> (jstext \<times> json) list \<Rightarrow> MandateRequestPayload result" where
  "parse_request W value =
     (let member = (\<lambda>k. map_of value (jstr k)) in
      bindR (case unknownKeys value REQUEST_KEYS of
               [] \<Rightarrow> Inr () | k # _ \<Rightarrow> Inl (''Unknown mandate request field: '' @ text_string k)) (\<lambda>_.
      bindR (require (member ''version'' = Some (JNum (NInt 1))) ''Unsupported mandate request version'') (\<lambda>_.
      bindR (fetch (one_of (map (\<lambda>c. (cluster_text c, c)) [Devnet, MainnetBeta]) (member ''cluster'')) ''Unsupported Solana cluster'') (\<lambda>cluster.
      bindR (fetch (one_of (map (\<lambda>r. (role_text r, r)) [Vendor, Grantee]) (member ''role'')) ''Role must be vendor or grantee'') (\<lambda>role.
      bindR (fetch (one_of (map (\<lambda>t. (token_program_text t, t)) [SplToken, Token2022]) (member ''tokenProgram'')) ''Unsupported token program'') (\<lambda>tokenProgram.
      bindR (canonicalAddress W (member ''requester'') ''requester'') (\<lambda>requester.
      bindR (canonicalAddress W (member ''mint'') ''mint'') (\<lambda>mint.
      bindR (request_parties W role (member ''agent'') (member ''recipient'')) (\<lambda>parties.
      bindR (boundedText (member ''requesterName'') ''requesterName'' MAX_REQUESTER_NAME_LENGTH False) (\<lambda>requesterName.
      bindR (boundedText (member ''description'') ''description'' MAX_REQUEST_DESCRIPTION_LENGTH True) (\<lambda>description.
      bindR (boundedText (member ''poNumber'') ''poNumber'' MAX_PO_NUMBER_LENGTH False) (\<lambda>poNumber.
      bindR (boundedText (member ''nonce'') ''nonce'' MAX_REQUEST_NONCE_LENGTH True) (\<lambda>nonce.
      bindR (u64String (member ''suggestedMaxPerPayment'') ''suggestedMaxPerPayment'' True) (\<lambda>perPayment.
      bindR (u64String (member ''suggestedTotal'') ''suggestedTotal'' True) (\<lambda>suggestedTotal.
      bindR (require (\<not> text_int suggestedTotal < text_int perPayment) ''suggestedTotal must be at least suggestedMaxPerPayment'') (\<lambda>_.
      bindR (request_decimals (member ''decimals'')) (\<lambda>decimals.
      bindR (optional_u64 (member ''suggestedExpirySlot'') ''suggestedExpirySlot'') (\<lambda>suggestedExpirySlot.
      bindR (optional_u64 (member ''validUntilSlot'') ''validUntilSlot'') (\<lambda>validUntilSlot.
      Inr \<lparr>mr_cluster = cluster, mr_role = role, mr_requester = requester, mr_requesterName = requesterName, mr_agent = fst parties,
           mr_mint = mint, mr_tokenProgram = tokenProgram, mr_recipient = snd parties, mr_suggestedMaxPerPayment = perPayment,
           mr_suggestedTotal = suggestedTotal, mr_decimals = decimals, mr_suggestedExpirySlot = suggestedExpirySlot,
           mr_validUntilSlot = validUntilSlot, mr_description = the description, mr_poNumber = poNumber, mr_nonce = the nonce\<rparr>)))))))))))))))))))"

fun parseMandateRequestPayload :: "web3 \<Rightarrow> json option \<Rightarrow> MandateRequestPayload result" where
  "parseMandateRequestPayload W (Some (JObj value)) = parse_request W value"
| "parseMandateRequestPayload W _ = Inl ''Mandate request payload must be an object''"

fun parseSignedMandateRequest :: "web3 \<Rightarrow> json \<Rightarrow> SignedMandateRequest result" where
  "parseSignedMandateRequest W (JObj value) =
     bindR (case unknownKeys value REQUEST_ENVELOPE_KEYS of
              [] \<Rightarrow> Inr () | k # _ \<Rightarrow> Inl (''Unknown mandate request envelope field: '' @ text_string k)) (\<lambda>_.
     bindR (fetch (string_member (map_of value (jstr ''signature''))) ''Mandate request signature is required'') (\<lambda>sig.
     bindR (parseMandateRequestPayload W (map_of value (jstr ''payload''))) (\<lambda>payload.
     Inr \<lparr>sm_payload = payload, sm_signature = sig\<rparr>)))"
| "parseSignedMandateRequest W _ = Inl ''Mandate request must be an object''"

section \<open>Base64url\<close>

definition url_char :: "nat \<Rightarrow> nat" where "url_char c = (if c = 43 then 45 else if c = 47 then 95 else c)"
definition plain_char :: "nat \<Rightarrow> nat" where "plain_char c = (if c = 45 then 43 else if c = 95 then 47 else c)"

definition bytesToBase64Url :: "bytes \<Rightarrow> jstext" where
  "bytesToBase64Url b = rev (dropWhile (\<lambda>c. c = 61) (rev (map url_char (btoa (map unat b)))))"

definition base64UrlToBytes :: "jstext \<Rightarrow> bytes result" where
  "base64UrlToBytes value =
     (if \<not> BASE64URL value \<or> length value mod 4 = 1 then Inl ''Value must be base64url''
      else let padded = map plain_char value @ replicate ((4 - length value mod 4) mod 4) 61 in
        bindR (atob padded) (\<lambda>binary. Inr (map word_of_nat binary)))"

section \<open>Verifying and signing\<close>

definition request_bytes :: "MandateRequestPayload \<Rightarrow> bytes" where
  "request_bytes payload = utf8 (canonicalMandateRequest payload)"

definition sha256Hex :: "crypto \<Rightarrow> bytes \<Rightarrow> string" where
  "sha256Hex C message = hex_str (cr_sha256 C message)"

definition invalid :: "json \<Rightarrow> string \<Rightarrow> string \<Rightarrow> MandateRequestVerification" where
  "invalid payload reason requestHash =
     \<lparr>mv_valid = False, mv_payload = payload, mv_requestHash = requestHash, mv_reason = Some reason\<rparr>"

definition slot_passed :: "jstext option \<Rightarrow> int option \<Rightarrow> bool" where
  "slot_passed slot currentSlot = (case (slot, currentSlot) of (Some s, Some now) \<Rightarrow> text_int s \<le> now | _ \<Rightarrow> False)"

text \<open>The raw payload of a request that could not be read: \<open>{}\<close> unless it is an object.\<close>

definition raw_payload :: "json \<Rightarrow> json" where
  "raw_payload request = (case request of
     JObj ms \<Rightarrow> (case map_of ms (jstr ''payload'') of Some (JObj p) \<Rightarrow> JObj p | _ \<Rightarrow> JObj [])
   | _ \<Rightarrow> JObj [])"

definition verifyMandateRequest :: "crypto \<Rightarrow> web3 \<Rightarrow> json \<Rightarrow> int option \<Rightarrow> MandateRequestVerification" where
  "verifyMandateRequest C W request currentSlot = (case parseSignedMandateRequest W request of
     Inl e \<Rightarrow> invalid (raw_payload request) e []
   | Inr signed' \<Rightarrow>
       (let payload = sm_payload signed'; message = request_bytes payload; requestHash = sha256Hex C message;
            shown = JObj (request_members payload); refuse = (\<lambda>reason. invalid shown reason requestHash) in
        if slot_passed (mr_validUntilSlot payload) currentSlot then refuse ''This request link has expired''
        else if slot_passed (mr_suggestedExpirySlot payload) currentSlot then refuse ''The suggested expiry has already passed''
        else (case base64UrlToBytes (sm_signature signed') of
          Inl _ \<Rightarrow> refuse ''Signature must be base64url''
        | Inr signature \<Rightarrow>
            if length signature \<noteq> 64 then refuse ''Ed25519 signature must be 64 bytes''
            else (case publicKey W (mr_requester payload) of
              Inl e \<Rightarrow> refuse e
            | Inr key \<Rightarrow>
                if \<not> cr_verify C key signature message then refuse ''Mandate request signature is invalid''
                else \<lparr>mv_valid = True, mv_payload = shown, mv_requestHash = requestHash, mv_reason = None\<rparr>))))"

text \<open>\<open>exported\<close> is the member \<open>x\<close> of the key exported as a JSON web key: the base64url text of its 32 public bytes.\<close>

definition signMandateRequest ::
  "signer \<Rightarrow> (bytes \<Rightarrow> jstext option) \<Rightarrow> web3 \<Rightarrow> json \<Rightarrow> bytes \<Rightarrow> SignedMandateRequest result" where
  "signMandateRequest S exported W payload secretKey =
     bindR (parseMandateRequestPayload W (Some payload)) (\<lambda>parsed.
     bindR (ed25519Seed secretKey) (\<lambda>seed.
     let key = pkcs8FromSeed seed in
     bindR (base64UrlToBytes (case exported key of Some x \<Rightarrow> x | None \<Rightarrow> [])) (\<lambda>public.
     bindR (require (to_base58 W public = mr_requester parsed) ''Signing key does not match the requester'') (\<lambda>_.
     Inr \<lparr>sm_payload = parsed, sm_signature = bytesToBase64Url (sg_sign S key (request_bytes parsed))\<rparr>))))"

section \<open>The link\<close>

definition signed_json :: "SignedMandateRequest \<Rightarrow> json" where
  "signed_json s = JObj [(jstr ''payload'', JObj (request_members (sm_payload s))), (jstr ''signature'', JStr (sm_signature s))]"

definition encodeMandateRequestLink :: "SignedMandateRequest \<Rightarrow> jstext \<Rightarrow> jstext result" where
  "encodeMandateRequestLink s appBaseUrl =
     (let origin = rev (dropWhile (\<lambda>c. c = 47) (rev (js_trim appBaseUrl))) in
      if origin = [] then Inl ''App URL is required''
      else Inr (origin @ MANDATE_REQUEST_PATH @ jstr ''#'' @ MANDATE_REQUEST_FRAGMENT_KEY @ jstr ''='' @
        bytesToBase64Url (utf8 (print_json (signed_json s)))))"

text \<open>
  \<open>new URLSearchParams(s).get(key)\<close>. A character outside ASCII, written or escaped, stays outside ASCII, so that neither the key \<open>req\<close>
  nor a base64url value contains it; the bytes of an escape are therefore left as they are.
\<close>

definition hex_code :: "nat \<Rightarrow> nat option" where
  "hex_code c = (if 48 \<le> c \<and> c \<le> 57 then Some (c - 48) else if 65 \<le> c \<and> c \<le> 70 then Some (c - 55)
     else if 97 \<le> c \<and> c \<le> 102 then Some (c - 87) else None)"

fun percent_decode :: "jstext \<Rightarrow> jstext" where
  "percent_decode (c # a # b # rest) =
     (if c = 37 \<and> hex_code a \<noteq> None \<and> hex_code b \<noteq> None
      then (16 * the (hex_code a) + the (hex_code b)) # percent_decode rest
      else (if c = 43 then 32 else c) # percent_decode (a # b # rest))"
| "percent_decode (c # rest) = (if c = 43 then 32 else c) # percent_decode rest"
| "percent_decode [] = []"

function split_amp :: "jstext \<Rightarrow> jstext list" where
  "split_amp s = (let part = takeWhile (\<lambda>c. c \<noteq> 38) s; rest = dropWhile (\<lambda>c. c \<noteq> 38) s in
     if rest = [] then [part] else part # split_amp (tl rest))"
  by pat_completeness auto
termination
proof (relation "measure length", goal_cases)
  case (2 s part rest)
  then have "rest \<noteq> []" "length rest \<le> length s" using length_dropWhile_le by auto
  then show ?case by (cases rest) simp_all
qed simp

definition form_pairs :: "jstext \<Rightarrow> (jstext \<times> jstext) list" where
  "form_pairs s =
     (let body = (if s \<noteq> [] \<and> hd s = 63 then tl s else s) in
      map (\<lambda>part. (percent_decode (takeWhile (\<lambda>c. c \<noteq> 61) part), percent_decode (tl (dropWhile (\<lambda>c. c \<noteq> 61) part))))
        (filter (\<lambda>part. part \<noteq> []) (split_amp body)))"

definition link_value :: "jstext \<Rightarrow> jstext" where
  "link_value urlOrFragment =
     (let value = js_trim urlOrFragment;
          fragment = (if 35 \<in> set value then tl (dropWhile (\<lambda>c. c \<noteq> 35) value) else value) in
      if 61 \<in> set fragment
      then (case map_of (form_pairs fragment) MANDATE_REQUEST_FRAGMENT_KEY of Some v \<Rightarrow> v | None \<Rightarrow> [])
      else fragment)"

definition decodeMandateRequestLink :: "(bytes \<Rightarrow> json option) \<Rightarrow> web3 \<Rightarrow> jstext \<Rightarrow> SignedMandateRequest result" where
  "decodeMandateRequestLink parse W urlOrFragment =
     (let encoded = link_value urlOrFragment in
      if encoded = [] then Inl ''No mandate request in this link''
      else (case base64UrlToBytes encoded of
        Inl _ \<Rightarrow> Inl ''This mandate request link is damaged''
      | Inr b \<Rightarrow> (case parse b of
          None \<Rightarrow> Inl ''This mandate request link is damaged''
        | Some parsed \<Rightarrow> parseSignedMandateRequest W parsed)))"

section \<open>The requester's own tools\<close>

record BuildMandateRequestInput =
  bi_role :: MandateRequestRole
  bi_cluster :: "Cluster option"
  bi_requester :: address
  bi_requesterName :: "jstext option"
  bi_agent :: "address option"
  bi_mint :: address
  bi_tokenProgram :: TokenProgram
  bi_recipient :: "address option"
  bi_maxPerPayment :: "jstext option"
  bi_total :: jstext
  bi_decimals :: jsnum
  bi_currentSlot :: int
  bi_days :: jsnum
  bi_linkValidDays :: "jsnum option"
  bi_description :: jstext
  bi_poNumber :: "jstext option"
  bi_nonce :: "jstext option"

definition wholeDays :: "jsnum \<Rightarrow> string \<Rightarrow> int result" where
  "wholeDays value name =
     (if num_in 1 3650 value then Inr (num_val value) else Inl (name @ '' must be a whole number of days from 1 to 3650''))"

text \<open>A name that is set and not empty, trimmed.\<close>

definition trimmed_if_set :: "jstext option \<Rightarrow> json option" where
  "trimmed_if_set v = (case v of Some t \<Rightarrow> if t = [] then None else Some (JStr (js_trim t)) | None \<Rightarrow> None)"

text \<open>\<open>random\<close> are the 16 bytes \<open>randomNonce\<close> draws.\<close>

definition buildMandateRequestPayload :: "web3 \<Rightarrow> bytes \<Rightarrow> BuildMandateRequestInput \<Rightarrow> MandateRequestPayload result" where
  "buildMandateRequestPayload W random input =
     bindR (wholeDays (bi_days input) ''days'') (\<lambda>days.
     bindR (wholeDays (case bi_linkValidDays input of Some n \<Rightarrow> n | None \<Rightarrow> NInt 7) ''link validity'') (\<lambda>linkDays.
     let slot = (\<lambda>n. JStr (jstr (int_dec (bi_currentSlot input + n * NOMINAL_SLOTS_PER_DAY)))) in
     parseMandateRequestPayload W (Some (JObj (
       [(jstr ''version'', JNum (NInt 1)),
        (jstr ''cluster'', JStr (cluster_text (case bi_cluster input of Some c \<Rightarrow> c | None \<Rightarrow> Devnet))),
        (jstr ''role'', JStr (role_text (bi_role input))), (jstr ''requester'', JStr (jstr (bi_requester input)))]
       @ optional_member ''requesterName'' (trimmed_if_set (bi_requesterName input))
       @ optional_member ''agent'' (if bi_role input = Grantee then map_option (JStr \<circ> jstr) (bi_agent input) else None)
       @ [(jstr ''mint'', JStr (jstr (bi_mint input))), (jstr ''tokenProgram'', JStr (token_program_text (bi_tokenProgram input)))]
       @ optional_member ''recipient'' (if bi_role input = Vendor then map_option (JStr \<circ> jstr) (bi_recipient input) else None)
       @ [(jstr ''suggestedMaxPerPayment'', JStr (case bi_maxPerPayment input of Some m \<Rightarrow> m | None \<Rightarrow> bi_total input)),
          (jstr ''suggestedTotal'', JStr (bi_total input)), (jstr ''decimals'', JNum (bi_decimals input)),
          (jstr ''suggestedExpirySlot'', slot days), (jstr ''validUntilSlot'', slot linkDays),
          (jstr ''description'', JStr (js_trim (bi_description input)))]
       @ optional_member ''poNumber'' (trimmed_if_set (bi_poNumber input))
       @ [(jstr ''nonce'', JStr (case bi_nonce input of Some n \<Rightarrow> n | None \<Rightarrow> bytesToBase64Url random))])))))"

definition shortKey :: "string \<Rightarrow> jstext" where
  "shortKey value = (if length value < 12 then jstr value
     else jstr (take 4 value) @ [0x2026] @ jstr (drop (length value - 4) value))"

definition daysFrom :: "jstext option \<Rightarrow> int \<Rightarrow> string option" where
  "daysFrom slot currentSlot = map_option (\<lambda>s.
     let remaining = text_int s - currentSlot in
     if remaining \<le> 0 then ''0 days''
     else
       let days = (remaining + NOMINAL_SLOTS_PER_DAY div 2) div NOMINAL_SLOTS_PER_DAY in
       if days = 1 then ''1 day'' else int_dec days @ '' days'') slot"

definition mandateRequestSummary :: "MandateRequestPayload \<Rightarrow> int \<Rightarrow> jstext" where
  "mandateRequestSummary payload currentSlot =
     (let amount = (\<lambda>t. formatHumanTokenAmount (text_int t) (nat (mr_decimals payload)) @ '' '' @ assetLabel (mr_mint payload) ''tokens'');
          limits = (if mr_role payload = Vendor \<or> mr_suggestedMaxPerPayment payload \<noteq> mr_suggestedTotal payload
            then [''up to '' @ amount (mr_suggestedMaxPerPayment payload) @ '' per payment'', amount (mr_suggestedTotal payload) @ '' total'']
            else [''up to '' @ amount (mr_suggestedTotal payload) @ '' total'']);
          terms = limits @ (case daysFrom (mr_suggestedExpirySlot payload) currentSlot of Some l \<Rightarrow> [l] | None \<Rightarrow> []);
          joined = concat (case terms of [] \<Rightarrow> [] | t # ts \<Rightarrow> t # map (\<lambda>x. '', '' @ x) ts);
          who = (case mr_role payload of
            Vendor \<Rightarrow> jstr ''Payee '' @ shortKey (case mr_recipient payload of Some r \<Rightarrow> r | None \<Rightarrow> []) @ jstr ''.''
          | Grantee \<Rightarrow> jstr ''Agent '' @ shortKey (case mr_agent payload of Some a \<Rightarrow> a | None \<Rightarrow> []) @ jstr '' signs the payments.'') in
      jstr (''Asks for '' @ joined @ ''. '') @ who @
      (case daysFrom (mr_validUntilSlot payload) currentSlot of Some l \<Rightarrow> jstr ('' Link valid '' @ l @ ''.'') | None \<Rightarrow> []))"

section \<open>Lemmas\<close>

lemma btoa_unpadded:
  assumes less: "\<forall>b \<in> set bs. b < 256"
  shows "rev (dropWhile (\<lambda>c. c = 61) (rev (map url_char (btoa bs)))) = map (url_char \<circ> b64_char) (sextets bs)"
proof -
  from btoa_shape [OF less] obtain n where n: "btoa bs = map b64_char (sextets bs) @ replicate n 61" by blast
  have "url_char (b64_char v) \<noteq> 61" if "v \<in> set (sextets bs)" for v
    using sextets_less [OF less] that by (auto simp: url_char_def b64_char_def split: if_splits)
  then have "dropWhile (\<lambda>c. c = 61) (rev (map (url_char \<circ> b64_char) (sextets bs))) = rev (map (url_char \<circ> b64_char) (sextets bs))"
    by (cases "rev (sextets bs)") (auto simp: rev_map [symmetric] dest!: arg_cong [where f = set])
  then show ?thesis by (simp add: n rev_map url_char_def dropWhile_append)
qed

lemma sextets_count: "length (sextets bs) mod 4 \<noteq> 1"
  by (induction bs rule: sextets.induct) auto

lemma btoa_padded:
  assumes less: "\<forall>b \<in> set bs. b < 256"
  shows "btoa bs = map b64_char (sextets bs) @ replicate ((4 - length (sextets bs) mod 4) mod 4) 61"
proof -
  from btoa_shape [OF less] obtain n where n: "n \<le> 2" "btoa bs = map b64_char (sextets bs) @ replicate n 61" by blast
  let ?k = "length (sextets bs)"
  have "(?k + n) mod 4 = 0" using length_btoa [of bs] n(2) by simp
  moreover have "n = 0 \<or> n = 1 \<or> n = 2" using n(1) by linarith
  moreover have "(?k + 1) mod 4 = 0 \<Longrightarrow> ?k mod 4 = 3" "(?k + 2) mod 4 = 0 \<Longrightarrow> ?k mod 4 = 2" by presburger+
  ultimately have "n = (4 - ?k mod 4) mod 4" by auto
  with n(2) show ?thesis by simp
qed

theorem base64url_roundtrip: "base64UrlToBytes (bytesToBase64Url b) = Inr b"
proof -
  let ?bs = "map unat b"
  have less: "\<forall>x \<in> set ?bs. x < 256" using unsigned_less [where ?'a = nat and ?'b = 8] by auto
  have printed: "bytesToBase64Url b = map (url_char \<circ> b64_char) (sextets ?bs)"
    unfolding bytesToBase64Url_def by (rule btoa_unpadded [OF less])
  have ok: "BASE64URL (map (url_char \<circ> b64_char) (sextets ?bs))"
    using sextets_less [OF less] by (auto simp: BASE64URL_def list_all_iff url_char_def b64_char_def)
  have unurl: "map plain_char (map (url_char \<circ> b64_char) (sextets ?bs)) = map b64_char (sextets ?bs)"
    using sextets_less [OF less] by (auto simp: plain_char_def url_char_def b64_char_def)
  have "atob (map b64_char (sextets ?bs) @ replicate ((4 - length (sextets ?bs) mod 4) mod 4) 61) = Inr ?bs"
    using atob_btoa [OF less] btoa_padded [OF less] by simp
  then show ?thesis
    using ok sextets_count [of ?bs] unfolding printed base64UrlToBytes_def unurl Let_def by (simp add: o_def)
qed

text \<open>What a payload that was read satisfies.\<close>

definition amount_ok :: "jstext \<Rightarrow> bool" where
  "amount_ok t \<longleftrightarrow> CANONICAL_UINT t \<and> 0 < text_int t \<and> text_int t \<le> REQUEST_U64_MAX"

definition bounded_text_ok :: "nat \<Rightarrow> jstext \<Rightarrow> bool" where
  "bounded_text_ok limit t \<longleftrightarrow> t \<noteq> [] \<and> js_trim t = t \<and> length t \<le> limit \<and> \<not> CONTROL_CHARACTER t"

definition canonical_address :: "web3 \<Rightarrow> address \<Rightarrow> bool" where
  "canonical_address W a \<longleftrightarrow> address W a = Inr a"

definition request_ok :: "web3 \<Rightarrow> MandateRequestPayload \<Rightarrow> bool" where
  "request_ok W p \<longleftrightarrow>
     canonical_address W (mr_requester p) \<and> canonical_address W (mr_mint p) \<and>
     (case mr_role p of
        Vendor \<Rightarrow> mr_agent p = None \<and> (\<exists>r. mr_recipient p = Some r \<and> canonical_address W r)
      | Grantee \<Rightarrow> mr_recipient p = None \<and> (\<exists>a. mr_agent p = Some a \<and> canonical_address W a)) \<and>
     pred_option (bounded_text_ok 64) (mr_requesterName p) \<and> bounded_text_ok 280 (mr_description p) \<and>
     pred_option (bounded_text_ok 64) (mr_poNumber p) \<and> bounded_text_ok 128 (mr_nonce p) \<and>
     amount_ok (mr_suggestedMaxPerPayment p) \<and> amount_ok (mr_suggestedTotal p) \<and>
     text_int (mr_suggestedMaxPerPayment p) \<le> text_int (mr_suggestedTotal p) \<and> 0 \<le> mr_decimals p \<and> mr_decimals p \<le> 255 \<and>
     pred_option amount_ok (mr_suggestedExpirySlot p) \<and> pred_option amount_ok (mr_validUntilSlot p)"

lemma string_member_Some: "string_member v = Some t \<longleftrightarrow> v = Some (JStr t)"
  by (cases v rule: string_member.cases) auto

lemma canonicalAddress_Inr: "canonicalAddress W v name = Inr a \<longleftrightarrow> v = Some (JStr (jstr a)) \<and> canonical_address W a"
proof
  assume "canonicalAddress W v name = Inr a"
  then show "v = Some (JStr (jstr a)) \<and> canonical_address W a"
    by (auto simp: canonicalAddress_def canonical_address_def string_member_Some split: option.splits sum.splits if_splits)
qed (simp add: canonicalAddress_def canonical_address_def)

lemma text_int_nonneg: "digits_text t \<Longrightarrow> 0 \<le> text_int t"
proof -
  have "list_all cp_digit t \<Longrightarrow> 0 \<le> a \<Longrightarrow> 0 \<le> foldl (\<lambda>a c. 10 * a + (int c - 48)) a t" for a
    by (induction t arbitrary: a) (auto simp: cp_digit_def)
  then show "digits_text t \<Longrightarrow> 0 \<le> text_int t" by (simp add: digits_text_def text_int_def)
qed

lemma u64String_Inr: "u64String v name True = Inr t \<longleftrightarrow> v = Some (JStr t) \<and> amount_ok t"
proof -
  have "CANONICAL_UINT t \<Longrightarrow> 0 \<le> text_int t" by (simp add: CANONICAL_UINT_def text_int_nonneg)
  then show ?thesis
    by (auto simp: u64String_def amount_ok_def string_member_Some split: option.splits if_splits)
qed

lemma optional_u64_Inr: "optional_u64 v name = Inr t \<longleftrightarrow> v = map_option JStr t \<and> pred_option amount_ok t"
  by (cases t) (auto simp: optional_u64_def bindR_eq_Inr u64String_Inr)

lemma boundedText_Inr:
  "boundedText v name limit required = Inr t \<longleftrightarrow>
     (case t of None \<Rightarrow> v = None \<and> \<not> required | Some x \<Rightarrow> v = Some (JStr x) \<and> bounded_text_ok limit x)"
  by (auto simp: boundedText_def bounded_text_ok_def string_member_Some split: option.splits if_splits)

lemma one_of_cluster: "one_of (map (\<lambda>c. (cluster_text c, c)) [Devnet, MainnetBeta]) v = Some c \<longleftrightarrow> v = Some (JStr (cluster_text c))"
  by (cases c) (auto simp: one_of_def string_member_Some jstr_inject split: option.splits)

lemma one_of_role: "one_of (map (\<lambda>r. (role_text r, r)) [Vendor, Grantee]) v = Some r \<longleftrightarrow> v = Some (JStr (role_text r))"
  by (cases r) (auto simp: one_of_def string_member_Some jstr_inject split: option.splits)

lemma one_of_program: "one_of (map (\<lambda>t. (token_program_text t, t)) [SplToken, Token2022]) v = Some t \<longleftrightarrow> v = Some (JStr (token_program_text t))"
  by (cases t) (auto simp: one_of_def string_member_Some jstr_inject split: option.splits)

lemma request_parties_Inr:
  "request_parties W role agent recipient = Inr parties \<longleftrightarrow>
     agent = map_option (JStr \<circ> jstr) (fst parties) \<and> recipient = map_option (JStr \<circ> jstr) (snd parties) \<and>
     (case role of
        Vendor \<Rightarrow> fst parties = None \<and> (\<exists>x. snd parties = Some x \<and> canonical_address W x)
      | Grantee \<Rightarrow> snd parties = None \<and> (\<exists>x. fst parties = Some x \<and> canonical_address W x))"
  by (cases parties; cases role) (auto simp: request_parties_def bindR_eq_Inr canonicalAddress_Inr)

lemma request_decimals_Inr: "request_decimals v = Inr d \<longleftrightarrow> v = Some (JNum (NInt d)) \<and> 0 \<le> d \<and> d \<le> 255"
  by (auto simp: request_decimals_def split: option.splits json.splits jsnum.splits if_splits)

definition members_are :: "(jstext \<times> json) list \<Rightarrow> MandateRequestPayload \<Rightarrow> bool" where
  "members_are value p \<longleftrightarrow> (let member = (\<lambda>k. map_of value (jstr k)) in
     member ''version'' = Some (JNum (NInt 1)) \<and> member ''cluster'' = Some (JStr (cluster_text (mr_cluster p))) \<and>
     member ''role'' = Some (JStr (role_text (mr_role p))) \<and> member ''requester'' = Some (JStr (jstr (mr_requester p))) \<and>
     member ''requesterName'' = map_option JStr (mr_requesterName p) \<and> member ''agent'' = map_option (JStr \<circ> jstr) (mr_agent p) \<and>
     member ''mint'' = Some (JStr (jstr (mr_mint p))) \<and> member ''tokenProgram'' = Some (JStr (token_program_text (mr_tokenProgram p))) \<and>
     member ''recipient'' = map_option (JStr \<circ> jstr) (mr_recipient p) \<and>
     member ''suggestedMaxPerPayment'' = Some (JStr (mr_suggestedMaxPerPayment p)) \<and>
     member ''suggestedTotal'' = Some (JStr (mr_suggestedTotal p)) \<and> member ''decimals'' = Some (JNum (NInt (mr_decimals p))) \<and>
     member ''suggestedExpirySlot'' = map_option JStr (mr_suggestedExpirySlot p) \<and>
     member ''validUntilSlot'' = map_option JStr (mr_validUntilSlot p) \<and> member ''description'' = Some (JStr (mr_description p)) \<and>
     member ''poNumber'' = map_option JStr (mr_poNumber p) \<and> member ''nonce'' = Some (JStr (mr_nonce p)))"

lemma bounded_required: "boundedText v name limit True = Inr t \<longleftrightarrow> (\<exists>x. t = Some x \<and> v = Some (JStr x) \<and> bounded_text_ok limit x)"
  by (cases t) (auto simp: boundedText_Inr)

lemma bounded_optional: "boundedText v name limit False = Inr t \<longleftrightarrow> v = map_option JStr t \<and> pred_option (bounded_text_ok limit) t"
  by (cases t) (auto simp: boundedText_Inr)

lemma no_unknown: "(case xs of [] \<Rightarrow> Inr () | k # _ \<Rightarrow> Inl (f k)) = Inr u \<longleftrightarrow> xs = []"
  by (cases xs) auto

lemmas parse_steps = bindR_eq_Inr require_eq_Inr fetch_eq_Inr no_unknown one_of_cluster one_of_role one_of_program canonicalAddress_Inr
  bounded_required bounded_optional u64String_Inr request_decimals_Inr optional_u64_Inr request_parties_Inr
  MAX_REQUESTER_NAME_LENGTH_def MAX_REQUEST_DESCRIPTION_LENGTH_def MAX_PO_NUMBER_LENGTH_def MAX_REQUEST_NONCE_LENGTH_def

lemma parse_request_only:
  assumes "parse_request W value = Inr p"
  shows "unknownKeys value REQUEST_KEYS = [] \<and> members_are value p \<and> request_ok W p"
  using assms unfolding parse_request_def Let_def parse_steps not_less
  apply (elim exE conjE)
  apply (drule sum.inject(2) [THEN iffD1], hypsubst)
  unfolding members_are_def request_ok_def Let_def MandateRequestPayload.select_convs option.sel
  by (intro conjI; assumption)

lemma parse_request_complete:
  assumes "unknownKeys value REQUEST_KEYS = []" and m: "members_are value p" and ok: "request_ok W p"
  shows "parse_request W value = Inr p"
proof -
  let ?m = "\<lambda>k. map_of value (jstr k)"
  note are = m [unfolded members_are_def Let_def] and good = ok [unfolded request_ok_def]
  have choices: "fetch (one_of (map (\<lambda>c. (cluster_text c, c)) [Devnet, MainnetBeta]) (?m ''cluster'')) e = Inr (mr_cluster p)"
    "fetch (one_of (map (\<lambda>r. (role_text r, r)) [Vendor, Grantee]) (?m ''role'')) e = Inr (mr_role p)"
    "fetch (one_of (map (\<lambda>t. (token_program_text t, t)) [SplToken, Token2022]) (?m ''tokenProgram'')) e = Inr (mr_tokenProgram p)" for e :: string
    using are unfolding fetch_eq_Inr one_of_cluster one_of_role one_of_program by blast+
  have parties: "canonicalAddress W (?m ''requester'') n = Inr (mr_requester p)" "canonicalAddress W (?m ''mint'') n = Inr (mr_mint p)"
    "request_parties W (mr_role p) (?m ''agent'') (?m ''recipient'') = Inr (mr_agent p, mr_recipient p)" for n
    using are good unfolding canonicalAddress_Inr request_parties_Inr fst_conv snd_conv by blast+
  have texts: "boundedText (?m ''requesterName'') n 64 False = Inr (mr_requesterName p)"
    "boundedText (?m ''description'') n 280 True = Inr (Some (mr_description p))"
    "boundedText (?m ''poNumber'') n 64 False = Inr (mr_poNumber p)" "boundedText (?m ''nonce'') n 128 True = Inr (Some (mr_nonce p))" for n
    using are good unfolding bounded_required bounded_optional by blast+
  have numbers: "u64String (?m ''suggestedMaxPerPayment'') n True = Inr (mr_suggestedMaxPerPayment p)"
    "u64String (?m ''suggestedTotal'') n True = Inr (mr_suggestedTotal p)" "request_decimals (?m ''decimals'') = Inr (mr_decimals p)"
    "optional_u64 (?m ''suggestedExpirySlot'') n = Inr (mr_suggestedExpirySlot p)"
    "optional_u64 (?m ''validUntilSlot'') n = Inr (mr_validUntilSlot p)" for n
    using are good unfolding u64String_Inr request_decimals_Inr optional_u64_Inr by blast+
  have first: "?m ''version'' = Some (JNum (NInt 1))"
    and least: "\<not> text_int (mr_suggestedTotal p) < text_int (mr_suggestedMaxPerPayment p)" using are good by auto
  show ?thesis
    unfolding parse_request_def Let_def assms(1) list.case bindR_Inr choices parties fst_conv snd_conv texts numbers first
      MAX_REQUESTER_NAME_LENGTH_def MAX_REQUEST_DESCRIPTION_LENGTH_def MAX_PO_NUMBER_LENGTH_def MAX_REQUEST_NONCE_LENGTH_def
    using least by simp
qed

lemma request_members_are: "members_are (request_members p) p"
  unfolding members_are_def Let_def request_members_def
  by (intro conjI; simp add: jstr_inject map_of_optional del: map_of_append split: option.split)

lemma request_members_known: "unknownKeys (request_members p) REQUEST_KEYS = []"
  by (auto simp: unknownKeys_def request_members_def REQUEST_KEYS_def jstr_inject optional_member_def filter_empty_conv split: option.splits)

lemma cluster_text_inject: "cluster_text a = cluster_text b \<longleftrightarrow> a = b"
  by (cases a; cases b) (simp_all add: jstr_inject)

lemma role_text_inject: "role_text a = role_text b \<longleftrightarrow> a = b"
  by (cases a; cases b) (simp_all add: jstr_inject)

lemma token_program_text_inject: "token_program_text a = token_program_text b \<longleftrightarrow> a = b"
  by (cases a; cases b) (simp_all add: jstr_inject)

lemmas text_injects = cluster_text_inject role_text_inject token_program_text_inject

lemma map_option_jstr [simp]: "map_option (JStr \<circ> jstr) a = map_option (JStr \<circ> jstr) b \<longleftrightarrow> a = b"
  by (cases a; cases b) (auto simp: jstr_inject)

lemma members_determine: "members_are value p \<Longrightarrow> members_are value q \<Longrightarrow> p = q"
  by (cases p; cases q) (simp add: members_are_def Let_def text_injects jstr_inject)

lemma same_members:
  assumes "unknownKeys v REQUEST_KEYS = []" and "unknownKeys w REQUEST_KEYS = []" and "members_are v p" and "members_are w p"
  shows "map_of v = map_of w"
proof
  fix k
  show "map_of v k = map_of w k"
  proof (cases "k \<in> set REQUEST_KEYS")
    case True
    then show ?thesis using assms(3,4) unfolding REQUEST_KEYS_def members_are_def Let_def by auto
  next
    case False
    then have "map_of v k = None" "map_of w k = None"
      using assms(1,2) by (auto simp: unknownKeys_def filter_empty_conv map_of_eq_None_iff)
    then show ?thesis by simp
  qed
qed

lemma parse_request_members: "request_ok W p \<Longrightarrow> parse_request W (request_members p) = Inr p"
  by (rule parse_request_complete [OF request_members_known request_members_are])

lemma parse_signed_json: "request_ok W (sm_payload s) \<Longrightarrow> parseSignedMandateRequest W (signed_json s) = Inr s"
  by (simp add: signed_json_def unknownKeys_def REQUEST_ENVELOPE_KEYS_def jstr_inject parse_request_members)

definition request_text_ok :: "MandateRequestPayload \<Rightarrow> bool" where
  "request_text_ok p \<longleftrightarrow> pred_option text_ok (mr_requesterName p) \<and> text_ok (mr_description p) \<and> pred_option text_ok (mr_poNumber p) \<and>
     text_ok (mr_nonce p)"

lemma amount_text_ok: "amount_ok t \<Longrightarrow> text_ok t"
  by (auto simp: amount_ok_def CANONICAL_UINT_def digits_text_def text_ok_def list_all_iff cp_digit_def)

lemma plain_texts: "text_ok (cluster_text c)" "text_ok (role_text r)" "text_ok (token_program_text t)"
  by (cases c; cases r; cases t; simp)+

lemma plain_request:
  assumes "request_ok W p" and "request_text_ok p"
  shows "plain (JObj (request_members p))"
proof -
  have "pred_option plain (map_option (JStr \<circ> jstr) a)" for a :: "address option" by (cases a) simp_all
  moreover have "pred_option text_ok a" if "pred_option amount_ok a" for a using that amount_text_ok by (cases a) simp_all
  ultimately show ?thesis
    using assms amount_text_ok by (simp add: request_members_def request_ok_def request_text_ok_def plain_texts)
qed

lemma request_bytes_inject:
  assumes "request_ok W p" "request_text_ok p" and "request_ok W q" "request_text_ok q" and "request_bytes p = request_bytes q"
  shows "p = q"
proof -
  have "request_members p = request_members q"
    using utf8_print_inject [OF plain_request [OF assms(1,2)] plain_request [OF assms(3,4)]] assms(5)
    by (simp add: request_bytes_def canonicalMandateRequest_def)
  then show ?thesis using members_determine request_members_are by metis
qed

lemma verified_request:
  assumes "mv_valid (verifyMandateRequest C W request slot)"
  obtains s signature key where "parseSignedMandateRequest W request = Inr s"
    "\<not> slot_passed (mr_validUntilSlot (sm_payload s)) slot" "\<not> slot_passed (mr_suggestedExpirySlot (sm_payload s)) slot"
    "base64UrlToBytes (sm_signature s) = Inr signature" "length signature = 64" "publicKey W (mr_requester (sm_payload s)) = Inr key"
    "cr_verify C key signature (request_bytes (sm_payload s))"
    "verifyMandateRequest C W request slot = \<lparr>mv_valid = True, mv_payload = JObj (request_members (sm_payload s)),
       mv_requestHash = sha256Hex C (request_bytes (sm_payload s)), mv_reason = None\<rparr>"
  using assms unfolding verifyMandateRequest_def Let_def
  by (auto simp: invalid_def split: sum.splits if_splits)

lemma parsed_signed:
  assumes "parseSignedMandateRequest W request = Inr s"
  obtains ms members where "request = JObj ms" "unknownKeys ms REQUEST_ENVELOPE_KEYS = []" "map_of ms (jstr ''payload'') = Some (JObj members)"
    "map_of ms (jstr ''signature'') = Some (JStr (sm_signature s))" "parse_request W members = Inr (sm_payload s)"
proof -
  from assms obtain ms where ms: "request = JObj ms" by (cases "(W, request)" rule: parseSignedMandateRequest.cases) auto
  with assms have u: "unknownKeys ms REQUEST_ENVELOPE_KEYS = []" and sig: "map_of ms (jstr ''signature'') = Some (JStr (sm_signature s))"
    and p: "parseMandateRequestPayload W (map_of ms (jstr ''payload'')) = Inr (sm_payload s)"
    by (auto simp: bindR_eq_Inr no_unknown string_member_Some simp del: map_of_eq_Some_iff)
  from p obtain members where "map_of ms (jstr ''payload'') = Some (JObj members)" "parse_request W members = Inr (sm_payload s)"
    by (cases "(W, map_of ms (jstr ''payload''))" rule: parseMandateRequestPayload.cases) auto
  with ms u sig that show thesis by blast
qed

section \<open>Properties\<close>

text \<open>
  C27. A request for a permission that verifies says exactly what its requester signed, and it makes sense. The payload object of the request
  has the members of the payload that is returned and no others; the signature is 64 bytes and valid under the requester's key over
  the UTF-8 bytes of that payload's canonical JSON; the hash shown is the SHA-256 of those bytes; limits and slots are positive u64
  texts with the payment limit within the total; a vendor names a payee and no agent, a grantee an agent and no payee; the texts are
  trimmed, bounded and without control characters; and with a slot given neither the link nor the suggested expiry has passed.
\<close>

theorem verified_mandate_request_sound:
  assumes "mv_valid (verifyMandateRequest C W request slot)"
  shows "\<exists>p ms members sig signature key. request = JObj ms \<and> map_of ms (jstr ''payload'') = Some (JObj members) \<and>
    map_of members = map_of (request_members p) \<and> request_ok W p \<and> map_of ms (jstr ''signature'') = Some (JStr sig) \<and>
    base64UrlToBytes sig = Inr signature \<and> length signature = 64 \<and> publicKey W (mr_requester p) = Inr key \<and>
    cr_verify C key signature (request_bytes p) \<and>
    mv_payload (verifyMandateRequest C W request slot) = JObj (request_members p) \<and>
    mv_requestHash (verifyMandateRequest C W request slot) = hex_str (cr_sha256 C (request_bytes p)) \<and>
    \<not> slot_passed (mr_validUntilSlot p) slot \<and> \<not> slot_passed (mr_suggestedExpirySlot p) slot"
proof (rule verified_request [OF assms])
  fix s signature key
  assume parsed: "parseSignedMandateRequest W request = Inr s"
    and rest: "\<not> slot_passed (mr_validUntilSlot (sm_payload s)) slot" "\<not> slot_passed (mr_suggestedExpirySlot (sm_payload s)) slot"
    "base64UrlToBytes (sm_signature s) = Inr signature" "length signature = 64" "publicKey W (mr_requester (sm_payload s)) = Inr key"
    "cr_verify C key signature (request_bytes (sm_payload s))"
    "verifyMandateRequest C W request slot = \<lparr>mv_valid = True, mv_payload = JObj (request_members (sm_payload s)),
       mv_requestHash = sha256Hex C (request_bytes (sm_payload s)), mv_reason = None\<rparr>"
  from parsed obtain ms members where ms: "request = JObj ms" "map_of ms (jstr ''payload'') = Some (JObj members)"
    "map_of ms (jstr ''signature'') = Some (JStr (sm_signature s))" "parse_request W members = Inr (sm_payload s)"
    by (rule parsed_signed)
  note only = parse_request_only [OF ms(4)]
  have "map_of members = map_of (request_members (sm_payload s))"
    using same_members [OF _ request_members_known _ request_members_are] only by blast
  then show ?thesis unfolding rest(7) MandateRequestVerification.select_convs sha256Hex_def using ms only rest(1-6) by blast
qed

text \<open>
  The hash the owner compares binds the request: two verified requests with the same hash have the same payload in every field, unless
  the bytes that were signed are themselves two different strings with the same SHA-256 digest.
\<close>

lemma request_hash_binds:
  assumes v: "mv_valid (verifyMandateRequest C W request1 slot1)" "mv_valid (verifyMandateRequest C W request2 slot2)"
    and s: "parseSignedMandateRequest W request1 = Inr s1" "parseSignedMandateRequest W request2 = Inr s2"
    and t: "request_text_ok (sm_payload s1)" "request_text_ok (sm_payload s2)"
    and hash: "mv_requestHash (verifyMandateRequest C W request1 slot1) = mv_requestHash (verifyMandateRequest C W request2 slot2)"
  shows "sm_payload s1 = sm_payload s2 \<or> request_bytes (sm_payload s1) \<noteq> request_bytes (sm_payload s2) \<and>
    cr_sha256 C (request_bytes (sm_payload s1)) = cr_sha256 C (request_bytes (sm_payload s2))"
proof -
  have shown: "mv_requestHash (verifyMandateRequest C W request slot) = hex_str (cr_sha256 C (request_bytes (sm_payload s)))"
    if "mv_valid (verifyMandateRequest C W request slot)" "parseSignedMandateRequest W request = Inr s" for request slot s
    using that(2) by (rule_tac verified_request [OF that(1)]) (simp add: sha256Hex_def)
  have ok: "request_ok W (sm_payload s)" if "parseSignedMandateRequest W request = Inr s" for request s
    using parsed_signed [OF that] parse_request_only by metis
  show ?thesis
  proof (cases "request_bytes (sm_payload s1) = request_bytes (sm_payload s2)")
    case True
    then show ?thesis using request_bytes_inject [OF ok [OF s(1)] t(1) ok [OF s(2)] t(2)] by simp
  next
    case False
    then show ?thesis using hash shown [OF v(1) s(1)] shown [OF v(2) s(2)] by (simp add: hex_str_inject)
  qed
qed

text \<open>The link and back.\<close>

lemma js_trim_subset: "set (js_trim s) \<subseteq> set s"
proof
  fix x
  assume "x \<in> set (js_trim s)"
  then show "x \<in> set s" unfolding js_trim_def set_rev by (metis set_dropWhileD set_rev)
qed

lemma after_first: "c \<notin> set a \<Longrightarrow> tl (dropWhile (\<lambda>x. x \<noteq> c) (a @ c # b)) = b"
  by (induction a) auto

lemma js_trim_head: "js_trim s \<noteq> [] \<Longrightarrow> \<not> js_space (hd (js_trim s))"
proof -
  let ?d = "dropWhile js_space s"
  assume ne: "js_trim s \<noteq> []"
  then have d: "?d \<noteq> []" unfolding js_trim_def by (metis dropWhile.simps(1) rev.simps(1))
  then have h: "\<not> js_space (hd ?d)" using hd_dropWhile by blast
  obtain t where t: "?d = js_trim s @ t"
    unfolding js_trim_def by (metis rev_append rev_rev_ident takeWhile_dropWhile_id)
  with ne h show ?thesis by simp
qed

lemma base64url_ascii: "BASE64URL (bytesToBase64Url b)"
  using base64url_roundtrip [of b] by (simp add: base64UrlToBytes_def split: if_splits)

lemma base64url_free:
  assumes "BASE64URL s" and "c \<in> {32, 35, 37, 38, 43, 61}"
  shows "c \<notin> set s"
  using assms by (auto simp: BASE64URL_def list_all_iff)

lemma percent_decode_id: "37 \<notin> set s \<Longrightarrow> 43 \<notin> set s \<Longrightarrow> percent_decode s = s"
  by (induction s rule: percent_decode.induct) auto

lemma takeWhile_free: "c \<notin> set s \<Longrightarrow> takeWhile (\<lambda>x. x \<noteq> c) s = s" "c \<notin> set s \<Longrightarrow> dropWhile (\<lambda>x. x \<noteq> c) s = []"
  by (auto simp: takeWhile_eq_all_conv)

lemma split_amp_single: "38 \<notin> set s \<Longrightarrow> split_amp s = [s]"
  by (simp add: takeWhile_free)

declare split_amp.simps [simp del]

lemma form_pairs_single:
  assumes "BASE64URL v"
  shows "form_pairs (jstr ''req'' @ 61 # v) = [(jstr ''req'', v)]"
proof -
  have free: "38 \<notin> set (jstr ''req'' @ 61 # v)" using base64url_free [OF assms, of 38] by (simp add: jstr_def)
  have "percent_decode v = v" "percent_decode (jstr ''req'') = jstr ''req''"
    using percent_decode_id [of v] base64url_free [OF assms] by (simp_all add: jstr_def hex_code_def)
  then show ?thesis unfolding form_pairs_def using split_amp_single [OF free] by (simp add: jstr_def hex_code_def)
qed

lemma link_value_encoded:
  assumes link: "encodeMandateRequestLink s base = Inr link" and hash: "35 \<notin> set base"
  shows "link_value link = bytesToBase64Url (utf8 (print_json (signed_json s)))"
proof -
  let ?v = "bytesToBase64Url (utf8 (print_json (signed_json s)))"
  define origin where "origin = rev (dropWhile (\<lambda>c. c = 47) (rev (js_trim base)))"
  have ne: "origin \<noteq> []" and l: "link = (origin @ MANDATE_REQUEST_PATH) @ 35 # (jstr ''req'' @ 61 # ?v)"
    using link by (auto simp: encodeMandateRequestLink_def Let_def origin_def MANDATE_REQUEST_FRAGMENT_KEY_def jstr_def split: if_splits)
  obtain t where t: "js_trim base = origin @ t" by (metis origin_def rev_append rev_rev_ident takeWhile_dropWhile_id)
  have first: "\<not> js_space (hd link)" using js_trim_head [of base] ne t l by simp
  have free: "35 \<notin> set (origin @ MANDATE_REQUEST_PATH)" using hash t js_trim_subset [of base] by (auto simp: MANDATE_REQUEST_PATH_def jstr_def)
  have last_v: "\<not> js_space (last link)"
    using base64url_ascii [of "utf8 (print_json (signed_json s))"]
    by (cases ?v rule: rev_cases) (auto simp: l jstr_def js_space_def BASE64URL_def)
  have trimmed: "js_trim link = link" by (rule js_trim_id) (use first last_v l in auto)
  have drop: "tl (dropWhile (\<lambda>c. c \<noteq> 35) link) = jstr ''req'' @ 61 # ?v"
    unfolding l by (rule after_first [OF free])
  have "35 \<in> set link" by (simp add: l)
  then show ?thesis
    unfolding link_value_def Let_def trimmed drop using form_pairs_single [OF base64url_ascii]
    by (simp add: MANDATE_REQUEST_FRAGMENT_KEY_def)
qed

lemma bytesToBase64Url_empty: "bytesToBase64Url [] = []"
  by (simp add: bytesToBase64Url_def)

lemma signed_request:
  assumes "signMandateRequest S exported W payload secret = Inr s" and "ed25519Seed secret = Inr seed"
    and "exported (pkcs8FromSeed seed) = Some (bytesToBase64Url key)"
  shows "request_ok W (sm_payload s)" and "mr_requester (sm_payload s) = to_base58 W key"
    and "sm_signature s = bytesToBase64Url (sg_sign S (pkcs8FromSeed seed) (request_bytes (sm_payload s)))"
proof -
  from assms obtain p where p: "parseMandateRequestPayload W (Some payload) = Inr p" "to_base58 W key = mr_requester p"
    "s = \<lparr>sm_payload = p, sm_signature = bytesToBase64Url (sg_sign S (pkcs8FromSeed seed) (request_bytes p))\<rparr>"
    by (auto simp: signMandateRequest_def Let_def bindR_eq_Inr base64url_roundtrip)
  then show "mr_requester (sm_payload s) = to_base58 W key"
    "sm_signature s = bytesToBase64Url (sg_sign S (pkcs8FromSeed seed) (request_bytes (sm_payload s)))" by simp_all
  from p(1) show "request_ok W (sm_payload s)" unfolding p(3)
    by (cases "(W, Some payload)" rule: parseMandateRequestPayload.cases) (auto dest: parse_request_only)
qed

lemma signed_request_verifies:
  assumes W: "web3_ok W" and key: "length key = 32" and ok: "request_ok W (sm_payload s)"
    and requester: "mr_requester (sm_payload s) = to_base58 W key" and sig: "sm_signature s = bytesToBase64Url signature"
    and good: "length signature = 64" "cr_verify C key signature (request_bytes (sm_payload s))"
    and slots: "\<not> slot_passed (mr_validUntilSlot (sm_payload s)) slot" "\<not> slot_passed (mr_suggestedExpirySlot (sm_payload s)) slot"
  shows "mv_valid (verifyMandateRequest C W (signed_json s) slot)"
  using slots good unfolding verifyMandateRequest_def parse_signed_json [OF ok] sum.case Let_def sig base64url_roundtrip requester
    publicKey_base58 [OF W key] by simp

text \<open>
  C28. A signed request reaches the owner intact. What \<open>signMandateRequest\<close> returns for a key pair, sent as a link to any app address
  without a fragment and read back by \<open>decodeMandateRequestLink\<close>, is the same request; it verifies until the slots it names have passed,
  with the hash of its canonical bytes. \<open>JSON.parse\<close> is only asked to invert \<open>JSON.stringify\<close> on this request, and Ed25519 to verify what it signed.
\<close>

theorem mandate_request_link_roundtrip:
  assumes W: "web3_ok W" and signed: "signMandateRequest S exported W payload secret = Inr s" and seed: "ed25519Seed secret = Inr seed"
    and pair: "signer_ok C S (pkcs8FromSeed seed) key" "exported (pkcs8FromSeed seed) = Some (bytesToBase64Url key)" "length key = 32"
    and link: "encodeMandateRequestLink s base = Inr link" "35 \<notin> set base"
    and json: "parse (utf8 (print_json (signed_json s))) = Some (signed_json s)"
    and slots: "\<not> slot_passed (mr_validUntilSlot (sm_payload s)) slot" "\<not> slot_passed (mr_suggestedExpirySlot (sm_payload s)) slot"
  shows "decodeMandateRequestLink parse W link = Inr s \<and> mv_valid (verifyMandateRequest C W (signed_json s) slot) \<and>
    mv_payload (verifyMandateRequest C W (signed_json s) slot) = JObj (request_members (sm_payload s))"
proof -
  note s = signed_request [OF signed seed pair(2)]
  let ?b = "utf8 (print_json (signed_json s))"
  have "?b \<noteq> []" by (simp add: utf8_def utf8_cp_not_Nil signed_json_def)
  then have "bytesToBase64Url ?b \<noteq> []"
    using base64url_roundtrip [of ?b] base64url_roundtrip [of "[]"] by (metis sum.inject(2) bytesToBase64Url_empty)
  then have "decodeMandateRequestLink parse W link = Inr s"
    using json parse_signed_json [OF s(1)] by (simp add: decodeMandateRequestLink_def link_value_encoded [OF link] Let_def base64url_roundtrip)
  moreover have valid: "mv_valid (verifyMandateRequest C W (signed_json s) slot)"
    using pair(1) signed_request_verifies [OF W pair(3) s(1,2,3) _ _ slots] by (simp add: signer_ok_def)
  moreover have "mv_payload (verifyMandateRequest C W (signed_json s) slot) = JObj (request_members (sm_payload s))"
    using parse_signed_json [OF s(1)] by (rule_tac verified_request [OF valid]) simp
  ultimately show ?thesis by blast
qed

section \<open>Witnesses\<close>

definition sample_mandate_request :: MandateRequestPayload where
  "sample_mandate_request = \<lparr>mr_cluster = Devnet, mr_role = Grantee, mr_requester = to_base58 sample_web3 (replicate 32 1), mr_requesterName = None,
     mr_agent = Some (to_base58 sample_web3 (replicate 32 2)), mr_mint = to_base58 sample_web3 (replicate 32 3), mr_tokenProgram = SplToken,
     mr_recipient = None, mr_suggestedMaxPerPayment = jstr ''5'', mr_suggestedTotal = jstr ''50'', mr_decimals = 6,
     mr_suggestedExpirySlot = None, mr_validUntilSlot = Some (jstr ''900''), mr_description = jstr ''ads'', mr_poNumber = None,
     mr_nonce = jstr ''n''\<rparr>"

definition sample_signed_request :: SignedMandateRequest where
  "sample_signed_request = \<lparr>sm_payload = sample_mandate_request, sm_signature = bytesToBase64Url (replicate 64 0)\<rparr>"

lemma sample_mandate_request_ok: "request_ok sample_web3 sample_mandate_request"
  by (simp add: request_ok_def sample_mandate_request_def canonical_address_def amount_ok_def CANONICAL_UINT_def digits_text_def cp_digit_def
      text_int_def REQUEST_U64_MAX_def bounded_text_ok_def CONTROL_CHARACTER_def jstr_def js_trim_def js_space_def)

lemma sample_slots:
  "\<not> slot_passed (mr_validUntilSlot (sm_payload sample_signed_request)) (Some 500)"
  "\<not> slot_passed (mr_suggestedExpirySlot (sm_payload sample_signed_request)) (Some 500)"
  by (simp_all add: slot_passed_def sample_signed_request_def sample_mandate_request_def text_int_def jstr_def)

lemma sample_request_verifies: "mv_valid (verifyMandateRequest sample_crypto sample_web3 (signed_json sample_signed_request) (Some 500))"
proof (rule signed_request_verifies [where key = "replicate 32 1" and signature = "replicate 64 0", OF sample_web3_ok _ _ _ _ _ _ sample_slots])
  show "request_ok sample_web3 (sm_payload sample_signed_request)" by (simp add: sample_signed_request_def sample_mandate_request_ok)
qed (simp_all add: sample_signed_request_def sample_mandate_request_def sample_crypto_def)

theorem verified_mandate_request_sound_witness:
  "\<exists>p signature key. request_ok sample_web3 p \<and> publicKey sample_web3 (mr_requester p) = Inr key \<and>
     cr_verify sample_crypto key signature (request_bytes p) \<and>
     mv_payload (verifyMandateRequest sample_crypto sample_web3 (signed_json sample_signed_request) (Some 500)) = JObj (request_members p)"
  using verified_mandate_request_sound [OF sample_request_verifies] by blast

theorem mandate_request_link_roundtrip_witness:
  "\<exists>s link. signMandateRequest sample_signer (\<lambda>_. Some (bytesToBase64Url (replicate 32 1))) sample_web3
       (JObj (request_members sample_mandate_request)) (replicate 32 9) = Inr s \<and>
     encodeMandateRequestLink s (jstr ''https://chainpay.app/'') = Inr link \<and>
     decodeMandateRequestLink (\<lambda>_. Some (signed_json s)) sample_web3 link = Inr s \<and>
     mv_valid (verifyMandateRequest sample_crypto sample_web3 (signed_json s) (Some 500))"
proof -
  let ?s = sample_signed_request
  have signed: "signMandateRequest sample_signer (\<lambda>_. Some (bytesToBase64Url (replicate 32 1))) sample_web3
      (JObj (request_members sample_mandate_request)) (replicate 32 9) = Inr ?s"
    unfolding signMandateRequest_def parseMandateRequestPayload.simps parse_request_members [OF sample_mandate_request_ok]
    by (simp add: ed25519Seed_def base64url_roundtrip sample_signed_request_def sample_mandate_request_def sample_signer_def Let_def)
  have seed: "ed25519Seed (replicate 32 9) = Inr (replicate 32 9)" by (simp add: ed25519Seed_def)
  obtain link where link: "encodeMandateRequestLink ?s (jstr ''https://chainpay.app/'') = Inr link"
    by (simp add: encodeMandateRequestLink_def jstr_def js_trim_def js_space_def)
  have "35 \<notin> set (jstr ''https://chainpay.app/'')" by (simp add: jstr_def)
  from mandate_request_link_roundtrip [where C = sample_crypto and key = "replicate 32 1" and parse = "\<lambda>_. Some (signed_json ?s)",
      OF sample_web3_ok signed seed sample_signer_ok refl _ link this refl sample_slots]
  show ?thesis using signed link by auto
qed

end
