(* ===== verification/Challenge.thy ===== *)
theory Challenge
  imports MandateRequest
begin

text \<open>
  \<open>sdk/src/x402-challenge.ts\<close>: reading the payment requirements of an HTTP 402 response. A document is untrusted JSON from a header or from
  the body; two protocols are told apart and never guessed. \<open>JSON.parse\<close>, the lenient base64 decoder of Node and the URL parser of the
  platform are the record \<open>wire\<close>. Errors carry a code and a message. The properties: what a detected challenge guarantees, and that
  documents of different protocols are refused.
\<close>

section \<open>Data\<close>

datatype X402ProtocolCode = Malformed | UnsupportedNetwork | UnsupportedScheme | ResourceMismatch | ConflictingProtocols

type_synonym x402_error = "X402ProtocolCode \<times> string"
type_synonym 'a parsed = "x402_error + 'a"

definition CUSTOM_X402_VERSION :: string where "CUSTOM_X402_VERSION = ''x402/1.0''"
definition SOLANA_DEVNET_CAIP2 :: string where "SOLANA_DEVNET_CAIP2 = ''solana:EtWTRABZaYq6iMfeYKouRu166VU2xqa1''"
definition CUSTOM_NETWORK :: string where "CUSTOM_NETWORK = ''solana-devnet''"
definition MAX_HEADER_CHARS :: nat where "MAX_HEADER_CHARS = 16384"
definition MAX_DECODED_CHARS :: nat where "MAX_DECODED_CHARS = 16384"
definition MAX_ACCEPTS :: nat where "MAX_ACCEPTS = 16"
definition MAX_RESOURCE_CHARS :: nat where "MAX_RESOURCE_CHARS = 2048"
definition MAX_NONCE_CHARS :: nat where "MAX_NONCE_CHARS = 128"

text \<open>The members of an option that are constants of its protocol are left out.\<close>

record CustomChallengeOption =
  co_mint :: address
  co_recipient :: address
  co_amount :: jstext
  co_resource :: jstext
  co_tokenProgram :: "TokenProgram option"
  co_nonce :: "jstext option"
  co_expiresAtSlot :: "jstext option"

record StandardV2Option =
  so_amount :: jstext
  so_asset :: address
  so_merchantOwner :: address
  so_resource :: jstext
  so_maxTimeoutSeconds :: "int option"
  so_feePayer :: "address option"

type_synonym document = "(jstext \<times> json) list"

datatype DetectedChallenge = Custom CustomChallengeOption document | StandardV2 StandardV2Option document

text \<open>What \<open>new URL(s)\<close> tells of a text: its normal form and whether it carries credentials.\<close>

record url =
  url_href :: jstext
  url_credentials :: bool

record wire =
  w_json :: "jstext \<Rightarrow> json option"
  w_base64_utf8 :: "jstext \<Rightarrow> jstext"
  w_url :: "jstext \<Rightarrow> url option"

section \<open>Fields\<close>

definition field :: "document \<Rightarrow> string \<Rightarrow> json option" where "field d k = map_of d (jstr k)"

text \<open>\<open>a ?? b\<close>\<close>

definition coalesce :: "json option \<Rightarrow> json option \<Rightarrow> json option" where
  "coalesce a b = (if a = None \<or> a = Some JNull then b else a)"

definition is_text :: "json option \<Rightarrow> string \<Rightarrow> bool" where "is_text v s \<longleftrightarrow> v = Some (JStr (jstr s))"

text \<open>Two members that, both given, must be the same value.\<close>

definition conflicting :: "json option \<Rightarrow> json option \<Rightarrow> bool" where
  "conflicting a b \<longleftrightarrow> a \<noteq> None \<and> b \<noteq> None \<and> \<not> strictly_equal a b"

definition canonicalU64String :: "json option \<Rightarrow> string \<Rightarrow> bool \<Rightarrow> jstext parsed" where
  "canonicalU64String value name allowZero = (case string_member value of
     None \<Rightarrow> Inl (Malformed, name @ '' must be a canonical decimal u64 string'')
   | Some t \<Rightarrow>
       if \<not> CANONICAL_UINT t \<or> (\<not> allowZero \<and> t = [48]) then Inl (Malformed, name @ '' must be a canonical decimal u64 string'')
       else if text_int t > REQUEST_U64_MAX \<or> jstr (int_dec (text_int t)) \<noteq> t
       then Inl (Malformed, name @ '' must fit in an unsigned 64-bit integer'')
       else Inr t)"

definition challengeAddress :: "web3 \<Rightarrow> json option \<Rightarrow> string \<Rightarrow> address parsed" where
  "challengeAddress W value name = (case string_member value of
     None \<Rightarrow> Inl (Malformed, name @ '' is required'')
   | Some t \<Rightarrow>
       if js_trim t = [] then Inl (Malformed, name @ '' is required'')
       else (case address_text W t of
         Inl _ \<Rightarrow> Inl (Malformed, name @ '' must be a canonical Solana address'')
       | Inr a \<Rightarrow> if jstr a \<noteq> t then Inl (Malformed, name @ '' must be a canonical Solana address'') else Inr a))"

definition boundedString :: "json option \<Rightarrow> string \<Rightarrow> nat \<Rightarrow> jstext parsed" where
  "boundedString value name limit = (case string_member value of
     None \<Rightarrow> Inl (Malformed, name @ '' is required'')
   | Some t \<Rightarrow>
       if js_trim t = [] then Inl (Malformed, name @ '' is required'')
       else if units t > limit then Inl (Malformed, name @ '' is too long'')
       else Inr t)"

section \<open>Documents of a response\<close>

definition decodePaymentRequiredWire :: "wire \<Rightarrow> jstext \<Rightarrow> json parsed" where
  "decodePaymentRequiredWire X value =
     (if value = [] \<or> units value > MAX_HEADER_CHARS then Inl (Malformed, ''x402 payment-required payload is missing or too large'')
      else (case w_json X value of
        Some j \<Rightarrow> if units value > MAX_DECODED_CHARS then Inl (Malformed, ''x402 payment-required payload is too large'') else Inr j
      | None \<Rightarrow>
          (let decoded = w_base64_utf8 X value in
           if decoded = [] \<or> units decoded > MAX_DECODED_CHARS then Inl (Malformed, ''x402 payment-required payload is too large'')
           else fetch (w_json X decoded) (Malformed, ''x402 payment-required header is neither JSON nor base64 JSON''))))"

text \<open>A header that is absent or empty is skipped, and a document seen before is not listed again.\<close>

fun header_documents :: "wire \<Rightarrow> jstext option list \<Rightarrow> json list \<Rightarrow> json list parsed" where
  "header_documents X [] documents = Inr documents"
| "header_documents X (h # hs) documents = (case h of
     None \<Rightarrow> header_documents X hs documents
   | Some t \<Rightarrow>
       if t = [] then header_documents X hs documents
       else bindR (decodePaymentRequiredWire X t) (\<lambda>document.
         if print_json document \<in> set (map print_json documents) then header_documents X hs documents
         else header_documents X hs (documents @ [document])))"

definition paymentRequiredDocumentsFromResponse :: "wire \<Rightarrow> (string \<Rightarrow> jstext option) \<Rightarrow> json option \<Rightarrow> json list parsed" where
  "paymentRequiredDocumentsFromResponse X headers body =
     bindR (header_documents X [headers ''payment-required'', headers ''x-payment-required''] []) (\<lambda>documents.
     Inr (case body of
       None \<Rightarrow> documents
     | Some b \<Rightarrow> if print_json b \<in> set (map print_json documents) then documents else documents @ [b]))"

section \<open>Options\<close>

text \<open>An empty expected resource counts as none.\<close>

definition resourceBinding :: "wire \<Rightarrow> jstext \<Rightarrow> jstext option \<Rightarrow> jstext parsed" where
  "resourceBinding X value expectedResource =
     bindR (boundedString (Some (JStr value)) ''resource'' MAX_RESOURCE_CHARS) (\<lambda>resource.
     bindR (fetch (w_url X resource) (Malformed, ''resource must be an absolute URL'')) (\<lambda>url.
     bindR (require (\<not> url_credentials url) (Malformed, ''x402 resource URLs must not contain credentials'')) (\<lambda>_.
     bindR (require (case expectedResource of None \<Rightarrow> True | Some e \<Rightarrow> e = [] \<or> url_href url = e \<or> resource = e)
       (ResourceMismatch, ''x402 challenge resource does not match the requested resource URL'')) (\<lambda>_.
     Inr resource))))"

definition customAmount :: "document \<Rightarrow> jstext parsed" where
  "customAmount option =
     bindR (require (\<not> conflicting (field option ''amount'') (field option ''maxAmountRequired''))
       (Malformed, ''custom x402 amount and maxAmountRequired must be identical canonical strings'')) (\<lambda>_.
     canonicalU64String (coalesce (field option ''amount'') (field option ''maxAmountRequired'')) ''amount'' False)"

definition challenge_program :: "json option \<Rightarrow> TokenProgram option parsed" where
  "challenge_program value =
     (if value = None then Inr None
      else if is_text value ''spl-token'' then Inr (Some SplToken)
      else if is_text value ''token-2022'' then Inr (Some Token2022)
      else Inl (Malformed, ''tokenProgram must be spl-token or token-2022''))"

definition if_given :: "json option \<Rightarrow> 'a parsed \<Rightarrow> 'a option parsed" where
  "if_given value p = (if value = None then Inr None else bindR p (\<lambda>v. Inr (Some v)))"

definition parseCustomOption :: "web3 \<Rightarrow> wire \<Rightarrow> document \<Rightarrow> jstext option \<Rightarrow> CustomChallengeOption parsed" where
  "parseCustomOption W X option expectedResource =
     (let f = field option in
      bindR (require (is_text (f ''scheme'') ''exact'') (UnsupportedScheme, ''Only the x402 exact scheme is enabled'')) (\<lambda>_.
      bindR (require (is_text (f ''network'') CUSTOM_NETWORK) (UnsupportedNetwork, ''Custom ChainPay x402/1.0 requires network solana-devnet'')) (\<lambda>_.
      bindR (require (\<not> conflicting (f ''asset'') (f ''mint'')) (Malformed, ''custom x402 asset and mint must match'')) (\<lambda>_.
      bindR (require (\<not> conflicting (f ''payTo'') (f ''recipient'')) (Malformed, ''custom x402 payTo and recipient must match'')) (\<lambda>_.
      bindR (resourceBinding X (case string_member (f ''resource'') of Some r \<Rightarrow> r | None \<Rightarrow> []) expectedResource) (\<lambda>resource.
      bindR (challengeAddress W (coalesce (f ''asset'') (f ''mint'')) ''asset'') (\<lambda>mint.
      bindR (challengeAddress W (coalesce (f ''payTo'') (f ''recipient'')) ''payTo'') (\<lambda>recipient.
      bindR (customAmount option) (\<lambda>amount.
      bindR (challenge_program (f ''tokenProgram'')) (\<lambda>tokenProgram.
      bindR (if_given (f ''nonce'') (bindR (boundedString (f ''nonce'') ''nonce'' MAX_NONCE_CHARS) (\<lambda>n. Inr (js_trim n)))) (\<lambda>nonce.
      bindR (if_given (f ''expiresAtSlot'') (canonicalU64String (f ''expiresAtSlot'') ''expiresAtSlot'' True)) (\<lambda>expiresAtSlot.
      Inr \<lparr>co_mint = mint, co_recipient = recipient, co_amount = amount, co_resource = resource, co_tokenProgram = tokenProgram,
           co_nonce = nonce, co_expiresAtSlot = expiresAtSlot\<rparr>))))))))))))"

text \<open>An empty text counts as no resource.\<close>

definition v2Resource :: "wire \<Rightarrow> document \<Rightarrow> document \<Rightarrow> jstext option \<Rightarrow> jstext parsed" where
  "v2Resource X envelope option expectedResource =
     (let envelopeUrl = (case field envelope ''resource'' of Some (JObj r) \<Rightarrow> string_member (field r ''url'') | _ \<Rightarrow> None);
          optionUrl = string_member (field option ''resource'');
          resource = (if envelopeUrl \<noteq> None then envelopeUrl else optionUrl) in
      bindR (require (\<not> (envelopeUrl \<notin> {None, Some []} \<and> optionUrl \<notin> {None, Some []} \<and> envelopeUrl \<noteq> optionUrl))
        (ResourceMismatch, ''x402 v2 resource.url does not match the selected requirement resource'')) (\<lambda>_.
      bindR (require (resource \<notin> {None, Some []}) (Malformed, ''standard x402 v2 resource.url is required'')) (\<lambda>_.
      resourceBinding X (the resource) expectedResource)))"

definition timeout_seconds :: "json option \<Rightarrow> int option parsed" where
  "timeout_seconds value = (case value of
     None \<Rightarrow> Inr None
   | Some (JNum (NInt n)) \<Rightarrow>
       if 1 \<le> n \<and> n \<le> 86400 then Inr (Some n) else Inl (Malformed, ''maxTimeoutSeconds must be an integer between 1 and 86400'')
   | _ \<Rightarrow> Inl (Malformed, ''maxTimeoutSeconds must be an integer between 1 and 86400''))"

definition parseV2Option :: "web3 \<Rightarrow> document \<Rightarrow> jstext \<Rightarrow> StandardV2Option parsed" where
  "parseV2Option W option resource =
     (let f = field option; extra = f ''extra''; feePayer = (case extra of Some (JObj e) \<Rightarrow> field e ''feePayer'' | _ \<Rightarrow> None) in
      bindR (require (is_text (f ''scheme'') ''exact'') (UnsupportedScheme, ''Only the x402 exact scheme is enabled'')) (\<lambda>_.
      bindR (require (is_text (f ''network'') SOLANA_DEVNET_CAIP2)
        (UnsupportedNetwork, ''Standard x402 v2 Solana Devnet must use CAIP-2 '' @ SOLANA_DEVNET_CAIP2)) (\<lambda>_.
      bindR (require (\<not> conflicting (f ''maxAmountRequired'') (f ''amount''))
        (Malformed, ''standard x402 v2 amount fields must be identical canonical strings'')) (\<lambda>_.
      bindR (require (f ''amount'' \<noteq> None) (Malformed, ''standard x402 v2 amount is required'')) (\<lambda>_.
      bindR (require (case extra of None \<Rightarrow> True | Some (JObj _) \<Rightarrow> True | _ \<Rightarrow> False) (Malformed, ''standard x402 v2 extra must be an object'')) (\<lambda>_.
      bindR (canonicalU64String (f ''amount'') ''amount'' False) (\<lambda>amount.
      bindR (challengeAddress W (f ''asset'') ''asset'') (\<lambda>asset.
      bindR (challengeAddress W (f ''payTo'') ''payTo'') (\<lambda>merchantOwner.
      bindR (timeout_seconds (f ''maxTimeoutSeconds'')) (\<lambda>maxTimeoutSeconds.
      bindR (if_given feePayer (challengeAddress W feePayer ''extra.feePayer'')) (\<lambda>payer.
      Inr \<lparr>so_amount = amount, so_asset = asset, so_merchantOwner = merchantOwner, so_resource = resource,
           so_maxTimeoutSeconds = maxTimeoutSeconds, so_feePayer = payer\<rparr>)))))))))))"

section \<open>Envelopes\<close>

fun records :: "json list \<Rightarrow> document list option" where
  "records [] = Some []"
| "records (JObj d # vs) = map_option ((#) d) (records vs)"
| "records _ = None"

definition acceptRecords :: "json list \<Rightarrow> document list parsed" where
  "acceptRecords value =
     bindR (require (value \<noteq> [] \<and> length value \<le> MAX_ACCEPTS) (Malformed, ''x402 accepts must be a bounded non-empty array'')) (\<lambda>_.
     fetch (records value) (Malformed, ''x402 accepts entries must be objects''))"

definition selectCustomAccept :: "document list \<Rightarrow> document parsed" where
  "selectCustomAccept accepts = (case find (\<lambda>o1. is_text (field o1 ''network'') CUSTOM_NETWORK \<and> is_text (field o1 ''scheme'') ''exact'') accepts of
     Some selected \<Rightarrow> Inr selected
   | None \<Rightarrow>
       if list_ex (\<lambda>o1. is_text (field o1 ''scheme'') ''exact'' \<and> string_member (field o1 ''network'') \<noteq> None) accepts
       then Inl (UnsupportedNetwork, ''Custom ChainPay x402/1.0 requires network solana-devnet'')
       else Inl (Malformed, ''x402/1.0 response has no Solana Devnet exact payment option''))"

definition selectV2Accept :: "document list \<Rightarrow> document parsed" where
  "selectV2Accept accepts = (case find (\<lambda>o1. is_text (field o1 ''network'') SOLANA_DEVNET_CAIP2 \<and> is_text (field o1 ''scheme'') ''exact'') accepts of
     Some selected \<Rightarrow> Inr selected
   | None \<Rightarrow>
       if list_ex (\<lambda>o1. string_member (field o1 ''network'') \<noteq> None) accepts
       then Inl (UnsupportedNetwork, ''Standard x402 v2 Solana Devnet must use CAIP-2 '' @ SOLANA_DEVNET_CAIP2)
       else Inl (Malformed, ''standard x402 v2 response has no Solana Devnet exact payment option''))"

definition parseCustomEnvelope :: "web3 \<Rightarrow> wire \<Rightarrow> document \<Rightarrow> jstext option \<Rightarrow> DetectedChallenge parsed" where
  "parseCustomEnvelope W X value expectedResource =
     bindR (case field value ''accepts'' of Some (JArr vs) \<Rightarrow> bindR (acceptRecords vs) selectCustomAccept | _ \<Rightarrow> Inr value) (\<lambda>option.
     bindR (parseCustomOption W X option expectedResource) (\<lambda>parsed. Inr (Custom parsed value)))"

definition parseV2Envelope :: "web3 \<Rightarrow> wire \<Rightarrow> document \<Rightarrow> jstext option \<Rightarrow> DetectedChallenge parsed" where
  "parseV2Envelope W X value expectedResource =
     bindR (case field value ''accepts'' of
         Some (JArr vs) \<Rightarrow> bindR (acceptRecords vs) selectV2Accept
       | _ \<Rightarrow> (case field value ''accepted'' of Some (JObj a) \<Rightarrow> Inr a | _ \<Rightarrow> Inr value)) (\<lambda>option.
     bindR (v2Resource X value option expectedResource) (\<lambda>resource.
     bindR (parseV2Option W option resource) (\<lambda>parsed. Inr (StandardV2 parsed value))))"

definition parseBareOption :: "web3 \<Rightarrow> wire \<Rightarrow> document \<Rightarrow> jstext option \<Rightarrow> DetectedChallenge parsed" where
  "parseBareOption W X value expectedResource =
     (if is_text (field value ''network'') SOLANA_DEVNET_CAIP2 then parseV2Envelope W X value expectedResource
      else if is_text (field value ''network'') CUSTOM_NETWORK
      then Inl (Malformed, ''Custom ChainPay x402 requires an explicit version '' @ CUSTOM_X402_VERSION @ ''; refusing to infer it from the network name'')
      else if string_member (field value ''network'') \<noteq> None then Inl (UnsupportedNetwork, ''Unsupported x402 network'')
      else Inl (Malformed, ''x402 challenge is missing an explicit protocol version or network''))"

lemma size_member: "map_of ms k = Some (v :: json) \<Longrightarrow> size v < size (JObj ms)"
proof -
  assume "map_of ms k = Some v"
  then have "(k, v) \<in> set ms" by (rule map_of_SomeD)
  then have "size v < size_list (size_prod (\<lambda>_. 0) size) ms"
    by (induction ms) auto
  then show ?thesis by simp
qed

function parsePaymentRequiredDocument :: "web3 \<Rightarrow> wire \<Rightarrow> json \<Rightarrow> jstext option \<Rightarrow> DetectedChallenge parsed" where
  "parsePaymentRequiredDocument W X value expectedResource = (case value of
     JObj d \<Rightarrow>
       let two = (field d ''x402Version'' = Some (JNum (NInt 2))); custom = is_text (field d ''version'') CUSTOM_X402_VERSION in
       if two \<and> custom then Inl (Malformed, ''x402 document must not mix x402Version 2 with custom x402/1.0'')
       else (case field d ''paymentRequired'' of
         Some inner \<Rightarrow> parsePaymentRequiredDocument W X inner expectedResource
       | None \<Rightarrow>
           if two then parseV2Envelope W X d expectedResource
           else if custom then parseCustomEnvelope W X d expectedResource
           else if field d ''x402Version'' \<noteq> None then Inl (Malformed, ''unsupported x402Version'')
           else if field d ''version'' \<noteq> None then Inl (Malformed, ''unsupported x402 version'')
           else parseBareOption W X d expectedResource)
   | _ \<Rightarrow> Inl (Malformed, ''x402 payment requirements must be an object''))"
  by pat_completeness auto
termination
  by (relation "measure (\<lambda>(W, X, value, e). size value)") (auto simp: field_def dest!: size_member)

declare parsePaymentRequiredDocument.simps [simp del]

definition custom_kind :: "DetectedChallenge \<Rightarrow> bool" where
  "custom_kind c = (case c of Custom _ _ \<Rightarrow> True | StandardV2 _ _ \<Rightarrow> False)"

definition detectAndParsePaymentRequired :: "web3 \<Rightarrow> wire \<Rightarrow> json list \<Rightarrow> jstext option \<Rightarrow> DetectedChallenge parsed" where
  "detectAndParsePaymentRequired W X documents expectedResource =
     (let results = map (\<lambda>d. parsePaymentRequiredDocument W X d expectedResource) documents;
          parsed = concat (map (\<lambda>r. case r of Inr c \<Rightarrow> [c] | Inl _ \<Rightarrow> []) results);
          errors = concat (map (\<lambda>r. case r of Inr _ \<Rightarrow> [] | Inl e \<Rightarrow> [e]) results) in
      if documents = [] then Inl (Malformed, ''HTTP 402 response did not include payment requirements'')
      else if parsed = [] then Inl (hd errors)
      else if \<exists>c \<in> set parsed. custom_kind c \<noteq> custom_kind (hd parsed)
      then Inl (ConflictingProtocols, ''PAYMENT-REQUIRED sources disagree on custom vs standard v2'')
      else Inr (hd parsed))"

definition detectPaymentChallenge ::
  "web3 \<Rightarrow> wire \<Rightarrow> (string \<Rightarrow> jstext option) \<Rightarrow> json option \<Rightarrow> jstext option \<Rightarrow> DetectedChallenge parsed" where
  "detectPaymentChallenge W X headers body expectedResource =
     bindR (paymentRequiredDocumentsFromResponse X headers body) (\<lambda>documents. detectAndParsePaymentRequired W X documents expectedResource)"

text \<open>\<open>customReceiptProofDocument\<close>: the proof a merchant of the custom flow is shown.\<close>

definition customReceiptProofDocument :: "string \<Rightarrow> address \<Rightarrow> json" where
  "customReceiptProofDocument signature receiptPDA = JObj
     [(jstr ''version'', JStr (jstr CUSTOM_X402_VERSION)), (jstr ''scheme'', JStr (jstr ''exact'')), (jstr ''network'', JStr (jstr CUSTOM_NETWORK)),
      (jstr ''payload'', JObj [(jstr ''signature'', JStr (jstr signature)), (jstr ''receiptPDA'', JStr (jstr receiptPDA))])]"

section \<open>What an accepted option guarantees\<close>

definition resource_ok :: "wire \<Rightarrow> jstext option \<Rightarrow> jstext \<Rightarrow> bool" where
  "resource_ok X expected r \<longleftrightarrow> js_trim r \<noteq> [] \<and> units r \<le> MAX_RESOURCE_CHARS \<and>
     (\<exists>u. w_url X r = Some u \<and> \<not> url_credentials u \<and> (expected \<in> {None, Some []} \<or> expected = Some (url_href u) \<or> expected = Some r))"

definition custom_ok :: "web3 \<Rightarrow> wire \<Rightarrow> jstext option \<Rightarrow> document \<Rightarrow> CustomChallengeOption \<Rightarrow> bool" where
  "custom_ok W X expected d c \<longleftrightarrow> is_text (field d ''scheme'') ''exact'' \<and> is_text (field d ''network'') CUSTOM_NETWORK \<and>
     \<not> conflicting (field d ''asset'') (field d ''mint'') \<and> coalesce (field d ''asset'') (field d ''mint'') = Some (JStr (jstr (co_mint c))) \<and>
     \<not> conflicting (field d ''payTo'') (field d ''recipient'') \<and>
     coalesce (field d ''payTo'') (field d ''recipient'') = Some (JStr (jstr (co_recipient c))) \<and>
     \<not> conflicting (field d ''amount'') (field d ''maxAmountRequired'') \<and>
     coalesce (field d ''amount'') (field d ''maxAmountRequired'') = Some (JStr (co_amount c)) \<and> field d ''resource'' = Some (JStr (co_resource c)) \<and>
     canonical_address W (co_mint c) \<and> canonical_address W (co_recipient c) \<and> amount_ok (co_amount c) \<and> resource_ok X expected (co_resource c) \<and>
     field d ''tokenProgram'' = map_option (\<lambda>p. JStr (jstr (case p of SplToken \<Rightarrow> ''spl-token'' | Token2022 \<Rightarrow> ''token-2022''))) (co_tokenProgram c) \<and>
     (case co_nonce c of None \<Rightarrow> field d ''nonce'' = None | Some n \<Rightarrow> \<exists>t. field d ''nonce'' = Some (JStr t) \<and> n = js_trim t) \<and>
     field d ''expiresAtSlot'' = map_option JStr (co_expiresAtSlot c)"

text \<open>
  The resource a standard challenge names: \<open>resource.url\<close> of the envelope, which the option's own \<open>resource\<close> may only
  repeat, or else the option's own.
\<close>

definition v2_names :: "document \<Rightarrow> document \<Rightarrow> jstext \<Rightarrow> bool" where
  "v2_names envelope d r \<longleftrightarrow> r \<noteq> [] \<and>
     (let url = (case field envelope ''resource'' of Some (JObj m) \<Rightarrow> field m ''url'' | _ \<Rightarrow> None) in
      url = Some (JStr r) \<and> (\<forall>t. field d ''resource'' = Some (JStr t) \<longrightarrow> t = [] \<or> t = r) \<or>
      (\<forall>t. url \<noteq> Some (JStr t)) \<and> field d ''resource'' = Some (JStr r))"

definition v2_ok :: "web3 \<Rightarrow> wire \<Rightarrow> jstext option \<Rightarrow> document \<Rightarrow> document \<Rightarrow> StandardV2Option \<Rightarrow> bool" where
  "v2_ok W X expected envelope d c \<longleftrightarrow> v2_names envelope d (so_resource c) \<and> is_text (field d ''scheme'') ''exact'' \<and> is_text (field d ''network'') SOLANA_DEVNET_CAIP2 \<and>
     field d ''asset'' = Some (JStr (jstr (so_asset c))) \<and> field d ''payTo'' = Some (JStr (jstr (so_merchantOwner c))) \<and>
     field d ''amount'' = Some (JStr (so_amount c)) \<and> \<not> conflicting (field d ''maxAmountRequired'') (field d ''amount'') \<and>
     canonical_address W (so_asset c) \<and> canonical_address W (so_merchantOwner c) \<and> amount_ok (so_amount c) \<and> resource_ok X expected (so_resource c) \<and>
     (case field d ''extra'' of Some (JObj e) \<Rightarrow> field e ''feePayer'' | _ \<Rightarrow> None) = map_option (JStr \<circ> jstr) (so_feePayer c) \<and>
     field d ''maxTimeoutSeconds'' = map_option (JNum \<circ> NInt) (so_maxTimeoutSeconds c) \<and>
     pred_option (canonical_address W) (so_feePayer c) \<and> pred_option (\<lambda>n. 1 \<le> n \<and> n \<le> 86400) (so_maxTimeoutSeconds c)"

lemma positive_amount: "canonicalU64String v name False = Inr t \<Longrightarrow> v = Some (JStr t) \<and> amount_ok t"
proof -
  assume "canonicalU64String v name False = Inr t"
  then have t: "v = Some (JStr t)" "CANONICAL_UINT t" "t \<noteq> [48]" "text_int t \<le> REQUEST_U64_MAX" "jstr (int_dec (text_int t)) = t"
    by (auto simp: canonicalU64String_def string_member_Some split: option.splits if_splits)
  have "text_int t \<noteq> 0"
  proof
    assume "text_int t = 0"
    with t(5) have "t = jstr (int_dec 0)" by simp
    then show False using t(3) by (simp add: int_dec_def radix_str.simps digit_char_0 jstr_def)
  qed
  with t show ?thesis using text_int_nonneg [of t] by (auto simp: amount_ok_def CANONICAL_UINT_def)
qed

lemma challenge_address: "challengeAddress W v name = Inr a \<Longrightarrow> v = Some (JStr (jstr a)) \<and> canonical_address W a"
  by (auto simp: challengeAddress_def canonical_address_def string_member_Some split: option.splits sum.splits if_splits)

lemma resource_bound: "resourceBinding X v expected = Inr r \<Longrightarrow> r = v \<and> resource_ok X expected r"
  by (auto simp: resourceBinding_def boundedString_def resource_ok_def bindR_eq_Inr split: option.splits if_splits)

lemma custom_option_ok:
  assumes "parseCustomOption W X d expected = Inr c"
  shows "custom_ok W X expected d c"
proof -
  from assms obtain r where
    facts: "is_text (field d ''scheme'') ''exact''" "is_text (field d ''network'') CUSTOM_NETWORK" "\<not> conflicting (field d ''asset'') (field d ''mint'')"
      "\<not> conflicting (field d ''payTo'') (field d ''recipient'')"
      "challengeAddress W (coalesce (field d ''asset'') (field d ''mint'')) ''asset'' = Inr (co_mint c)"
      "challengeAddress W (coalesce (field d ''payTo'') (field d ''recipient'')) ''payTo'' = Inr (co_recipient c)"
      "customAmount d = Inr (co_amount c)" "challenge_program (field d ''tokenProgram'') = Inr (co_tokenProgram c)"
      "if_given (field d ''expiresAtSlot'') (canonicalU64String (field d ''expiresAtSlot'') ''expiresAtSlot'' True) = Inr (co_expiresAtSlot c)"
      "if_given (field d ''nonce'') (bindR (boundedString (field d ''nonce'') ''nonce'' MAX_NONCE_CHARS) (\<lambda>n. Inr (js_trim n))) = Inr (co_nonce c)"
    and r: "resourceBinding X (case string_member (field d ''resource'') of Some r \<Rightarrow> r | None \<Rightarrow> []) expected = Inr (co_resource c)"
    unfolding parseCustomOption_def Let_def bindR_eq_Inr require_eq_Inr by (elim exE conjE) (auto dest!: sum.inject(2) [THEN iffD1])
  note res = resource_bound [OF r]
  have "field d ''resource'' = Some (JStr (co_resource c))"
    using res by (cases "string_member (field d ''resource'')") (auto simp: string_member_Some resource_ok_def js_trim_def)
  moreover have "\<not> conflicting (field d ''amount'') (field d ''maxAmountRequired'')"
    "coalesce (field d ''amount'') (field d ''maxAmountRequired'') = Some (JStr (co_amount c))" "amount_ok (co_amount c)"
    using facts(7) positive_amount by (auto simp: customAmount_def bindR_eq_Inr)
  moreover have "field d ''tokenProgram'' = map_option (\<lambda>p. JStr (jstr (case p of SplToken \<Rightarrow> ''spl-token'' | Token2022 \<Rightarrow> ''token-2022''))) (co_tokenProgram c)"
    using facts(8) by (cases "co_tokenProgram c") (auto simp: challenge_program_def is_text_def split: if_splits)
  moreover have "case co_nonce c of None \<Rightarrow> field d ''nonce'' = None | Some n \<Rightarrow> \<exists>t. field d ''nonce'' = Some (JStr t) \<and> n = js_trim t"
    using facts(10) by (cases "co_nonce c") (auto simp: if_given_def bindR_eq_Inr boundedString_def string_member_Some split: option.splits if_splits)
  moreover have "field d ''expiresAtSlot'' = map_option JStr (co_expiresAtSlot c)"
    using facts(9) by (cases "co_expiresAtSlot c") (auto simp: if_given_def bindR_eq_Inr canonicalU64String_def string_member_Some split: option.splits if_splits)
  ultimately show ?thesis
    using facts(1-4) challenge_address [OF facts(5)] challenge_address [OF facts(6)] res unfolding custom_ok_def by blast
qed

lemma v2_resource_named: "v2Resource X envelope d expected = Inr r \<Longrightarrow> v2_names envelope d r \<and> resource_ok X expected r"
  by (auto simp: v2Resource_def v2_names_def Let_def bindR_eq_Inr string_member_Some dest!: resource_bound
      split: option.splits json.splits if_splits)

lemma v2_option_ok:
  assumes "parseV2Option W d r = Inr c" and "v2_names envelope d r" and "resource_ok X expected r"
  shows "v2_ok W X expected envelope d c"
proof -
  from assms(1) obtain payer where payer: "payer = (case field d ''extra'' of Some (JObj e) \<Rightarrow> field e ''feePayer'' | _ \<Rightarrow> None)" and
    facts: "is_text (field d ''scheme'') ''exact''" "is_text (field d ''network'') SOLANA_DEVNET_CAIP2"
      "\<not> conflicting (field d ''maxAmountRequired'') (field d ''amount'')" "so_resource c = r"
      "canonicalU64String (field d ''amount'') ''amount'' False = Inr (so_amount c)" "challengeAddress W (field d ''asset'') ''asset'' = Inr (so_asset c)"
      "challengeAddress W (field d ''payTo'') ''payTo'' = Inr (so_merchantOwner c)"
      "timeout_seconds (field d ''maxTimeoutSeconds'') = Inr (so_maxTimeoutSeconds c)"
      "if_given payer (challengeAddress W payer ''extra.feePayer'') = Inr (so_feePayer c)"
    unfolding parseV2Option_def Let_def bindR_eq_Inr require_eq_Inr by (elim exE conjE) (auto dest!: sum.inject(2) [THEN iffD1])
  have "payer = map_option (JStr \<circ> jstr) (so_feePayer c) \<and> pred_option (canonical_address W) (so_feePayer c)"
    using facts(9) challenge_address by (cases "so_feePayer c") (auto simp: if_given_def bindR_eq_Inr split: if_splits)
  moreover have "field d ''maxTimeoutSeconds'' = map_option (JNum \<circ> NInt) (so_maxTimeoutSeconds c) \<and>
      pred_option (\<lambda>n. 1 \<le> n \<and> n \<le> 86400) (so_maxTimeoutSeconds c)"
    using facts(8) by (cases "so_maxTimeoutSeconds c") (auto simp: timeout_seconds_def split: option.splits json.splits jsnum.splits if_splits)
  ultimately show ?thesis
    using facts(1-4) positive_amount [OF facts(5)] challenge_address [OF facts(6)] challenge_address [OF facts(7)] assms(2,3)
    by (simp add: v2_ok_def payer)
qed

text \<open>The objects a document wraps in \<open>paymentRequired\<close>, and the payment options an envelope offers.\<close>

inductive carries :: "json \<Rightarrow> document \<Rightarrow> bool" where
  itself: "carries (JObj d) d"
| wrapped: "field d ''paymentRequired'' = Some v \<Longrightarrow> carries v e \<Longrightarrow> carries (JObj d) e"

definition offers :: "document \<Rightarrow> document \<Rightarrow> bool" where
  "offers envelope d \<longleftrightarrow> d = envelope \<or> field envelope ''accepted'' = Some (JObj d) \<or>
     (\<exists>vs. field envelope ''accepts'' = Some (JArr vs) \<and> length vs \<le> MAX_ACCEPTS \<and> JObj d \<in> set vs)"

definition challenge_ok :: "web3 \<Rightarrow> wire \<Rightarrow> jstext option \<Rightarrow> json \<Rightarrow> DetectedChallenge \<Rightarrow> bool" where
  "challenge_ok W X expected document c = (case c of
     Custom opt envelope \<Rightarrow> carries document envelope \<and> is_text (field envelope ''version'') CUSTOM_X402_VERSION \<and>
       field envelope ''x402Version'' \<noteq> Some (JNum (NInt 2)) \<and> (\<exists>d. offers envelope d \<and> custom_ok W X expected d opt)
   | StandardV2 opt envelope \<Rightarrow> carries document envelope \<and> \<not> is_text (field envelope ''version'') CUSTOM_X402_VERSION \<and>
       (field envelope ''x402Version'' = Some (JNum (NInt 2)) \<or> is_text (field envelope ''network'') SOLANA_DEVNET_CAIP2) \<and>
       (\<exists>d. offers envelope d \<and> v2_ok W X expected envelope d opt))"

lemma records_objects: "records vs = Some ds \<Longrightarrow> d \<in> set ds \<Longrightarrow> JObj d \<in> set vs"
  by (induction vs arbitrary: ds rule: records.induct) auto

lemma accepted_records:
  assumes "acceptRecords vs = Inr ds" and "d \<in> set ds" and "field envelope ''accepts'' = Some (JArr vs)"
  shows "offers envelope d"
  using assms records_objects by (auto simp: acceptRecords_def offers_def bindR_eq_Inr)

lemma offers_self: "offers d d"
  by (simp add: offers_def)

lemma offers_accepted: "field envelope ''accepted'' = Some (JObj d) \<Longrightarrow> offers envelope d"
  by (simp add: offers_def)

lemma select_custom: "selectCustomAccept ds = Inr d \<Longrightarrow> d \<in> set ds"
  by (auto simp: selectCustomAccept_def find_Some_iff split: option.splits if_splits)

lemma select_v2: "selectV2Accept ds = Inr d \<Longrightarrow> d \<in> set ds"
  by (auto simp: selectV2Accept_def find_Some_iff split: option.splits if_splits)

lemma custom_envelope:
  assumes "parseCustomEnvelope W X envelope expected = Inr c"
  obtains opt d where "c = Custom opt envelope" "offers envelope d" "custom_ok W X expected d opt"
proof -
  from assms obtain d opt where
    d: "(case field envelope ''accepts'' of Some (JArr vs) \<Rightarrow> bindR (acceptRecords vs) selectCustomAccept | _ \<Rightarrow> Inr envelope) = Inr d"
    and opt: "parseCustomOption W X d expected = Inr opt" "c = Custom opt envelope"
    by (auto simp: parseCustomEnvelope_def bindR_eq_Inr)
  have "offers envelope d"
    using d by (auto simp: bindR_eq_Inr offers_self intro: accepted_records select_custom split: option.splits json.splits)
  with that opt custom_option_ok show thesis by blast
qed

lemma v2_envelope:
  assumes "parseV2Envelope W X envelope expected = Inr c"
  obtains opt d where "c = StandardV2 opt envelope" "offers envelope d" "v2_ok W X expected envelope d opt"
proof -
  from assms obtain d r opt where
    d: "(case field envelope ''accepts'' of
         Some (JArr vs) \<Rightarrow> bindR (acceptRecords vs) selectV2Accept
       | _ \<Rightarrow> (case field envelope ''accepted'' of Some (JObj a) \<Rightarrow> Inr a | _ \<Rightarrow> Inr envelope)) = Inr d"
    and r: "v2Resource X envelope d expected = Inr r" and opt: "parseV2Option W d r = Inr opt" "c = StandardV2 opt envelope"
    by (auto simp: parseV2Envelope_def bindR_eq_Inr)
  have "offers envelope d"
    using d by (auto simp: bindR_eq_Inr offers_self offers_accepted intro: accepted_records select_v2 split: option.splits json.splits)
  with that opt v2_resource_named [OF r] v2_option_ok show thesis by blast
qed

lemma parsed_document_ok:
  "parsePaymentRequiredDocument W X j expected = Inr c \<Longrightarrow> challenge_ok W X expected j c"
proof (induction W X j expected rule: parsePaymentRequiredDocument.induct)
  case (1 W X doc expected)
  note eq = 1(2) [unfolded parsePaymentRequiredDocument.simps [of W X doc]]
  then obtain d where v: "doc = JObj d" by (cases doc) auto
  show ?case
  proof (cases "field d ''paymentRequired''")
    case (Some inner)
    with eq v have "parsePaymentRequiredDocument W X inner expected = Inr c"
      by (simp add: Let_def split: if_splits)
    then have "challenge_ok W X expected inner c"
      using 1(1) [OF v refl refl] Some eq v by (auto simp: Let_def split: if_splits)
    then show ?thesis using Some v carries.wrapped by (auto simp: challenge_ok_def split: DetectedChallenge.splits)
  next
    case None
    note parsed = eq [unfolded v] None
    consider "parseV2Envelope W X d expected = Inr c" "\<not> is_text (field d ''version'') CUSTOM_X402_VERSION"
        "field d ''x402Version'' = Some (JNum (NInt 2)) \<or> is_text (field d ''network'') SOLANA_DEVNET_CAIP2"
      | "parseCustomEnvelope W X d expected = Inr c" "is_text (field d ''version'') CUSTOM_X402_VERSION" "field d ''x402Version'' \<noteq> Some (JNum (NInt 2))"
      using parsed by (auto simp: Let_def parseBareOption_def is_text_def split: if_splits)
    then show ?thesis
      by cases (auto simp: challenge_ok_def v intro: carries.itself elim!: custom_envelope v2_envelope)
  qed
qed

text \<open>
  C29. A challenge is taken from the response as it stands or not at all. When a challenge is detected, it comes from one of the documents of the
  headers or the body; it is of the protocol the document names (the custom one only by its explicit version, never both); its
  option is one the envelope offers, with the exact scheme on Solana Devnet; amount, token, payee, token program, nonce, expiry,
  timeout and fee payer are the
  option's own members; the resource is the option's own in the custom protocol, and in the standard one the envelope's \<open>resource.url\<close>, which the
  option must not contradict, or else the option's; where two members name the same thing they agree, the amount is a positive u64, the addresses are
  canonical, and the resource is a URL without credentials that is the requested one; and every other document of the response that can be
  read is of the same protocol.
\<close>

theorem detected_challenge_sound:
  assumes "detectPaymentChallenge W X headers body expected = Inr c"
  shows "\<exists>documents document. paymentRequiredDocumentsFromResponse X headers body = Inr documents \<and> document \<in> set documents \<and>
    challenge_ok W X expected document c \<and>
    list_all (\<lambda>d. case parsePaymentRequiredDocument W X d expected of Inr c' \<Rightarrow> custom_kind c' = custom_kind c | Inl _ \<Rightarrow> True) documents"
proof -
  from assms obtain docs where docs: "paymentRequiredDocumentsFromResponse X headers body = Inr docs"
    "detectAndParsePaymentRequired W X docs expected = Inr c" by (auto simp: detectPaymentChallenge_def bindR_eq_Inr)
  define parsed where "parsed = concat (map (\<lambda>r. case r of Inr c \<Rightarrow> [c] | Inl _ \<Rightarrow> []) (map (\<lambda>d. parsePaymentRequiredDocument W X d expected) docs))"
  note detected = docs(2) [unfolded detectAndParsePaymentRequired_def Let_def, folded parsed_def]
  have c: "parsed \<noteq> []" "c = hd parsed" "\<forall>c' \<in> set parsed. custom_kind c' = custom_kind c"
    using detected by (simp_all split: if_splits)
  have in_parsed: "c' \<in> set parsed \<longleftrightarrow> (\<exists>d \<in> set docs. parsePaymentRequiredDocument W X d expected = Inr c')" for c'
    by (auto simp: parsed_def split: sum.splits) (metis sum.inject(2))
  from c(1,2) in_parsed obtain d where d: "d \<in> set docs" "parsePaymentRequiredDocument W X d expected = Inr c" by (metis hd_in_set)
  moreover have "list_all (\<lambda>d. case parsePaymentRequiredDocument W X d expected of Inr c' \<Rightarrow> custom_kind c' = custom_kind c | Inl _ \<Rightarrow> True) docs"
    using c(3) in_parsed by (auto simp: list_all_iff split: sum.splits)
  ultimately show ?thesis using docs(1) parsed_document_ok by blast
qed

section \<open>Witness\<close>

definition sample_wire :: wire where
  "sample_wire = \<lparr>w_json = (\<lambda>_. None), w_base64_utf8 = (\<lambda>_. []), w_url = (\<lambda>r. Some \<lparr>url_href = r, url_credentials = False\<rparr>)\<rparr>"

definition sample_members :: document where
  "sample_members = [(jstr ''version'', JStr (jstr CUSTOM_X402_VERSION)), (jstr ''scheme'', JStr (jstr ''exact'')),
     (jstr ''network'', JStr (jstr CUSTOM_NETWORK)), (jstr ''asset'', JStr (jstr (to_base58 sample_web3 (replicate 32 3)))),
     (jstr ''payTo'', JStr (jstr (to_base58 sample_web3 (replicate 32 4)))), (jstr ''amount'', JStr (jstr ''5'')),
     (jstr ''resource'', JStr (jstr ''https://m/a''))]"

lemma sample_text_visible: "js_trim (jstr (sample_text b)) \<noteq> []"
proof (cases "find (\<lambda>s. sample_key s = b) known_ids")
  case None
  then have "33 \<in> set (jstr (sample_text b))" by (simp add: sample_text_def jstr_def)
  moreover have "\<not> js_space 33" by (simp add: js_space_def)
  ultimately show ?thesis unfolding js_trim_empty_iff by blast
next
  case (Some s)
  then have "s \<in> set known_ids" by (auto simp: find_Some_iff)
  then have "hd s \<in> set s" "\<not> js_space (of_char (hd s))"
    by (auto simp: known_ids_def SYSTEM_PROGRAM_ID_def SPL_TOKEN_PROGRAM_ID_def TOKEN_2022_PROGRAM_ID_def
        ASSOCIATED_TOKEN_PROGRAM_ID_def DEFAULT_PROGRAM_ID_def js_space_def)
  with Some show ?thesis unfolding js_trim_empty_iff by (auto simp: sample_text_def jstr_def)
qed

lemma sample_challenge_address:
  "length b = 32 \<Longrightarrow> challengeAddress sample_web3 (Some (JStr (jstr (to_base58 sample_web3 b)))) name = Inr (to_base58 sample_web3 b)"
  using sample_text_visible [of b] by (simp add: challengeAddress_def) (simp add: sample_web3_def)

lemma sample_fields:
  "field sample_members ''version'' = Some (JStr (jstr CUSTOM_X402_VERSION))" "field sample_members ''scheme'' = Some (JStr (jstr ''exact''))"
  "field sample_members ''network'' = Some (JStr (jstr CUSTOM_NETWORK))"
  "field sample_members ''asset'' = Some (JStr (jstr (to_base58 sample_web3 (replicate 32 3))))" "field sample_members ''mint'' = None"
  "field sample_members ''payTo'' = Some (JStr (jstr (to_base58 sample_web3 (replicate 32 4))))" "field sample_members ''recipient'' = None"
  "field sample_members ''amount'' = Some (JStr (jstr ''5''))" "field sample_members ''maxAmountRequired'' = None"
  "field sample_members ''resource'' = Some (JStr (jstr ''https://m/a''))" "field sample_members ''tokenProgram'' = None"
  "field sample_members ''nonce'' = None" "field sample_members ''expiresAtSlot'' = None" "field sample_members ''accepts'' = None"
  "field sample_members ''x402Version'' = None" "field sample_members ''paymentRequired'' = None"
  by (simp_all add: field_def sample_members_def jstr_inject)

lemma sample_amount: "canonicalU64String (Some (JStr (jstr ''5''))) ''amount'' False = Inr (jstr ''5'')"
proof -
  have "int_dec 5 = ''5''" by code_simp
  then show ?thesis
    by (simp add: canonicalU64String_def jstr_def CANONICAL_UINT_def digits_text_def cp_digit_def text_int_def REQUEST_U64_MAX_def)
qed

lemma sample_resource: "resourceBinding sample_wire (jstr ''https://m/a'') (Some (jstr ''https://m/a'')) = Inr (jstr ''https://m/a'')"
  by (simp add: resourceBinding_def boundedString_def sample_wire_def js_trim_def jstr_def js_space_def units_def MAX_RESOURCE_CHARS_def)

lemma sample_custom_option:
  "\<exists>c. parseCustomOption sample_web3 sample_wire sample_members (Some (jstr ''https://m/a'')) = Inr c"
  by (simp add: parseCustomOption_def Let_def sample_fields is_text_def conflicting_def coalesce_def sample_challenge_address sample_resource
      customAmount_def sample_amount challenge_program_def if_given_def)

lemma sample_detected:
  "\<exists>c. detectPaymentChallenge sample_web3 sample_wire (\<lambda>_. None) (Some (JObj sample_members)) (Some (jstr ''https://m/a'')) = Inr c"
  using sample_custom_option
  by (auto simp: detectPaymentChallenge_def paymentRequiredDocumentsFromResponse_def detectAndParsePaymentRequired_def
      parsePaymentRequiredDocument.simps [of _ _ "JObj sample_members"] sample_fields is_text_def parseCustomEnvelope_def)

theorem detected_challenge_sound_witness:
  "\<exists>c. detectPaymentChallenge sample_web3 sample_wire (\<lambda>_. None) (Some (JObj sample_members)) (Some (jstr ''https://m/a'')) = Inr c \<and>
     challenge_ok sample_web3 sample_wire (Some (jstr ''https://m/a'')) (JObj sample_members) c"
proof -
  obtain c where "detectPaymentChallenge sample_web3 sample_wire (\<lambda>_. None) (Some (JObj sample_members)) (Some (jstr ''https://m/a'')) = Inr c"
    using sample_detected by blast
  with detected_challenge_sound [OF this] show ?thesis
    by (auto simp: paymentRequiredDocumentsFromResponse_def)
qed

end
