(* ===== verification/X402.thy ===== *)
theory X402
  imports Challenge
begin

text \<open>
  \<open>sdk/src/x402.ts\<close> and \<open>sdk/src/x402-adapt.ts\<close>: the references of an x402 payment, which payer and merchant derive each on their own
  from the terms of the challenge, and the payment request made of a detected challenge. The invoice hash is the SHA-256
  digest of the printed terms; \<open>C\<close> is the digest. Shown here: the hash binds the terms, up to an explicit collision, and
  the request made of the references carries them.
\<close>

section \<open>References\<close>

record X402ExactPayment =
  xp_mint :: address
  xp_recipient :: address
  xp_amount :: jstext
  xp_resource :: jstext
  xp_tokenProgram :: TokenProgram
  xp_nonce :: "jstext option"
  xp_expiresAtSlot :: "jstext option"

record X402PaymentReferences =
  xr_nonce :: jstext
  xr_invoiceHash :: string
  xr_paymentId :: string
  xr_signatureReference :: string

text \<open>\<open>sha256Hex\<close> of a text: the digest of its UTF-8 bytes in hexadecimal.\<close>

definition text_sha256 :: "crypto \<Rightarrow> jstext \<Rightarrow> string" where
  "text_sha256 C value = sha256Hex C (utf8 value)"

definition nonce_seed :: "X402ExactPayment \<Rightarrow> json" where
  "nonce_seed input = JObj
     ([(jstr ''network'', JStr (jstr ''solana-devnet'')), (jstr ''scheme'', JStr (jstr ''exact'')), (jstr ''mint'', JStr (jstr (xp_mint input))),
       (jstr ''recipient'', JStr (jstr (xp_recipient input))), (jstr ''amount'', JStr (xp_amount input)), (jstr ''resource'', JStr (xp_resource input))]
      @ optional_member ''expiresAtSlot'' (map_option JStr (xp_expiresAtSlot input)))"

text \<open>\<open>input.nonce?.trim() || \<dots>\<close>\<close>

definition x402_nonce :: "crypto \<Rightarrow> X402ExactPayment \<Rightarrow> jstext" where
  "x402_nonce C input =
     (let given = (case xp_nonce input of Some n \<Rightarrow> js_trim n | None \<Rightarrow> []) in
      if given \<noteq> [] then given else jstr (take 32 (text_sha256 C (jstr ''nonce:'' @ print_json (nonce_seed input)))))"

text \<open>An empty text counts as not given.\<close>

definition given_text :: "jstext option \<Rightarrow> jstext option" where
  "given_text v = (if v = Some [] then None else v)"

definition canonical_payment :: "crypto \<Rightarrow> X402ExactPayment \<Rightarrow> json" where
  "canonical_payment C input = JObj
     ([(jstr ''network'', JStr (jstr ''solana-devnet'')), (jstr ''scheme'', JStr (jstr ''exact'')), (jstr ''asset'', JStr (jstr (xp_mint input))),
       (jstr ''payTo'', JStr (jstr (xp_recipient input))), (jstr ''amount'', JStr (xp_amount input)), (jstr ''resource'', JStr (xp_resource input)),
       (jstr ''nonce'', JStr (x402_nonce C input)), (jstr ''tokenProgram'', JStr (token_program_text (xp_tokenProgram input)))]
      @ optional_member ''expiresAtSlot'' (map_option JStr (given_text (xp_expiresAtSlot input))))"

definition deriveX402PaymentReferences :: "crypto \<Rightarrow> X402ExactPayment \<Rightarrow> X402PaymentReferences" where
  "deriveX402PaymentReferences C input =
     (let invoiceHash = text_sha256 C (print_json (canonical_payment C input)) in
      \<lparr>xr_nonce = x402_nonce C input, xr_invoiceHash = invoiceHash, xr_paymentId = text_sha256 C (jstr (''payment:'' @ invoiceHash)),
       xr_signatureReference = text_sha256 C (jstr (''x402:'' @ invoiceHash))\<rparr>)"

section \<open>From a challenge to a payment request\<close>

record X402PrepareFields =
  xf_mint :: address
  xf_recipient :: address
  xf_amount :: jstext
  xf_resource :: jstext
  xf_tokenProgram :: TokenProgram
  xf_invoiceHash :: string
  xf_paymentId :: string
  xf_signatureReference :: string
  xf_nonce :: jstext
  xf_merchantOwner :: "address option"

definition standardV2RecipientTokenAccount :: "web3 \<Rightarrow> StandardV2Option \<Rightarrow> TokenProgram \<Rightarrow> address result" where
  "standardV2RecipientTokenAccount W option tokenProgram = deriveAssociatedTokenAddress W (so_merchantOwner option) (so_asset option) tokenProgram"

definition prepare_fields :: "crypto \<Rightarrow> X402ExactPayment \<Rightarrow> address option \<Rightarrow> X402PrepareFields" where
  "prepare_fields C input merchantOwner =
     (let references = deriveX402PaymentReferences C input in
      \<lparr>xf_mint = xp_mint input, xf_recipient = xp_recipient input, xf_amount = xp_amount input, xf_resource = xp_resource input,
       xf_tokenProgram = xp_tokenProgram input, xf_invoiceHash = xr_invoiceHash references, xf_paymentId = xr_paymentId references,
       xf_signatureReference = xr_signatureReference references, xf_nonce = xr_nonce references, xf_merchantOwner = merchantOwner\<rparr>)"

definition customChallengeToPrepareFields :: "crypto \<Rightarrow> CustomChallengeOption \<Rightarrow> TokenProgram \<Rightarrow> X402PrepareFields" where
  "customChallengeToPrepareFields C option tokenProgram = prepare_fields C
     \<lparr>xp_mint = co_mint option, xp_recipient = co_recipient option, xp_amount = co_amount option, xp_resource = co_resource option,
      xp_tokenProgram = tokenProgram, xp_nonce = given_text (co_nonce option), xp_expiresAtSlot = given_text (co_expiresAtSlot option)\<rparr> None"

definition standardV2ChallengeToPrepareFields :: "web3 \<Rightarrow> crypto \<Rightarrow> StandardV2Option \<Rightarrow> TokenProgram \<Rightarrow> X402PrepareFields result" where
  "standardV2ChallengeToPrepareFields W C option tokenProgram =
     bindR (standardV2RecipientTokenAccount W option tokenProgram) (\<lambda>recipient.
     Inr (prepare_fields C
       \<lparr>xp_mint = so_asset option, xp_recipient = recipient, xp_amount = so_amount option, xp_resource = so_resource option,
        xp_tokenProgram = tokenProgram, xp_nonce = None, xp_expiresAtSlot = None\<rparr> (Some (so_merchantOwner option))))"

text \<open>\<open>BigInt(fields.amount)\<close> is read as \<open>text_int\<close>; the amount of a challenge is a canonical integer text.\<close>

definition toPreparePaymentInput :: "address \<Rightarrow> X402PrepareFields \<Rightarrow> PaymentRequest result" where
  "toPreparePaymentInput mandate prepared =
     bindR (hexToBytes (xf_invoiceHash prepared) ''invoiceHash'') (\<lambda>invoiceHash.
     bindR (hexToBytes (xf_paymentId prepared) ''paymentId'') (\<lambda>paymentId.
     bindR (hexToBytes (xf_signatureReference prepared) ''signatureReference'') (\<lambda>signatureReference.
     Inr \<lparr>q_mandate = mandate, q_invoiceHash = invoiceHash, q_paymentId = paymentId, q_signatureReference = signatureReference,
          q_mint = xf_mint prepared, q_recipient = xf_recipient prepared, q_amount = text_int (xf_amount prepared),
          q_tokenProgram = Some (xf_tokenProgram prepared)\<rparr>)))"

definition detectedChallengeToPrepareFields :: "web3 \<Rightarrow> crypto \<Rightarrow> DetectedChallenge \<Rightarrow> TokenProgram \<Rightarrow> X402PrepareFields result" where
  "detectedChallengeToPrepareFields W C detected tokenProgram = (case detected of
     Custom option _ \<Rightarrow> Inr (customChallengeToPrepareFields C option tokenProgram)
   | StandardV2 option _ \<Rightarrow> standardV2ChallengeToPrepareFields W C option tokenProgram)"

section \<open>The invoice hash binds the terms\<close>

definition same_terms :: "crypto \<Rightarrow> X402ExactPayment \<Rightarrow> X402ExactPayment \<Rightarrow> bool" where
  "same_terms C p q \<longleftrightarrow> xp_mint p = xp_mint q \<and> xp_recipient p = xp_recipient q \<and> xp_amount p = xp_amount q \<and> xp_resource p = xp_resource q \<and>
     xp_tokenProgram p = xp_tokenProgram q \<and> x402_nonce C p = x402_nonce C q \<and> given_text (xp_expiresAtSlot p) = given_text (xp_expiresAtSlot q)"

definition terms_text_ok :: "X402ExactPayment \<Rightarrow> bool" where
  "terms_text_ok p \<longleftrightarrow> text_ok (xp_amount p) \<and> text_ok (xp_resource p) \<and> pred_option text_ok (xp_nonce p) \<and> pred_option text_ok (xp_expiresAtSlot p)"

lemma optional_member_inject [simp]: "optional_member k v = optional_member k w \<longleftrightarrow> v = w"
  by (auto simp: optional_member_def split: option.splits)

declare token_program_text_inject [simp]

lemma map_JStr_inject: "map_option JStr a = map_option JStr b \<longleftrightarrow> a = b"
  by (cases a; cases b) auto

lemma canonical_payment_inject: "canonical_payment C p = canonical_payment C q \<longleftrightarrow> same_terms C p q"
  by (auto simp: canonical_payment_def same_terms_def jstr_inject map_JStr_inject)

lemma trim_text_ok: "text_ok s \<Longrightarrow> text_ok (js_trim s)"
  using js_trim_subset [of s] by (auto simp: text_ok_def)

lemma nonce_text_ok: "terms_text_ok p \<Longrightarrow> text_ok (x402_nonce C p)"
  by (auto simp: x402_nonce_def Let_def terms_text_ok_def intro: trim_text_ok split: option.splits)

lemma plain_canonical_payment: "terms_text_ok p \<Longrightarrow> plain (canonical_payment C p)"
  using nonce_text_ok [of p C] plain_texts(3)
  by (cases "given_text (xp_expiresAtSlot p)")
    (auto simp: canonical_payment_def terms_text_ok_def given_text_def optional_member_def split: if_splits)

lemma invoice_hash_of: "xr_invoiceHash (deriveX402PaymentReferences C p) = hex_str (cr_sha256 C (utf8 (print_json (canonical_payment C p))))"
  by (simp add: deriveX402PaymentReferences_def Let_def text_sha256_def sha256Hex_def)

text \<open>Two payments with the same invoice hash have the same terms, or the two printed terms are a collision of SHA-256.\<close>

lemma invoice_binds_terms:
  assumes "terms_text_ok p" and "terms_text_ok q"
    and "xr_invoiceHash (deriveX402PaymentReferences C p) = xr_invoiceHash (deriveX402PaymentReferences C q)"
  shows "same_terms C p q \<or> utf8 (print_json (canonical_payment C p)) \<noteq> utf8 (print_json (canonical_payment C q)) \<and>
    cr_sha256 C (utf8 (print_json (canonical_payment C p))) = cr_sha256 C (utf8 (print_json (canonical_payment C q)))"
  using assms(3) utf8_print_inject [OF plain_canonical_payment [OF assms(1), of C] plain_canonical_payment [OF assms(2), of C]]
  by (auto simp: invoice_hash_of hex_str_inject canonical_payment_inject)

text \<open>The references of the same terms are the same, and the request made of the fields carries them.\<close>

lemma derived_references_eq: "same_terms C p q \<Longrightarrow> deriveX402PaymentReferences C p = deriveX402PaymentReferences C q"
  using canonical_payment_inject [of C p q] by (simp add: deriveX402PaymentReferences_def same_terms_def)

lemma prepared_references:
  "toPreparePaymentInput mandate (prepare_fields C p owner) = Inr r \<longleftrightarrow>
     hexToBytes (xr_invoiceHash (deriveX402PaymentReferences C p)) ''invoiceHash'' = Inr (q_invoiceHash r) \<and>
     hexToBytes (xr_paymentId (deriveX402PaymentReferences C p)) ''paymentId'' = Inr (q_paymentId r) \<and>
     hexToBytes (xr_signatureReference (deriveX402PaymentReferences C p)) ''signatureReference'' = Inr (q_signatureReference r) \<and>
     q_mandate r = mandate \<and> q_mint r = xp_mint p \<and> q_recipient r = xp_recipient p \<and> q_amount r = text_int (xp_amount p) \<and>
     q_tokenProgram r = Some (xp_tokenProgram p)"
  by (cases r) (auto simp: toPreparePaymentInput_def prepare_fields_def Let_def bindR_eq_Inr)

end
