(* ===== verification/Merchant.thy ===== *)
theory Merchant
  imports X402 CardMath
begin

text \<open>
  The demo merchant's paid resource: \<open>demo-merchant/src/config.ts\<close> (the challenge a merchant sends), \<open>demo-merchant/src/proof.ts\<close> (reading the proof of a
  payment, decoding the finalized transaction and checking both against the merchant's terms), \<open>sdk/src/transaction-reader.ts\<close> and
  the \<open>/data\<close> route of \<open>demo-merchant/src/app.ts\<close>. Code outside the repository is the record \<open>node\<close>: \<open>JSON.parse\<close>, base64 and URL parsing of
  \<open>wire\<close>, \<open>Buffer.from(s, "base64")\<close>, the package bs58, and the codecs of \<open>@solana/transactions\<close>; the answers of the RPC node are the
  arguments \<open>receipts\<close> and \<open>transactions\<close>.
\<close>

section \<open>Configuration and challenge (config.ts)\<close>

datatype ChallengeShape = CustomShape | V2Shape

record MerchantConfig =
  mg_resource :: jstext
  mg_mint :: address
  mg_recipient :: address
  mg_merchantOwner :: "address option"
  mg_amount :: jstext
  mg_tokenProgram :: TokenProgram
  mg_allowedAgent :: address
  mg_programId :: address
  mg_nonce :: "jstext option"
  mg_challengeShape :: ChallengeShape

definition custom_accept :: "MerchantConfig \<Rightarrow> document" where
  "custom_accept config =
     [(jstr ''scheme'', JStr (jstr ''exact'')), (jstr ''network'', JStr (jstr ''solana-devnet'')), (jstr ''maxAmountRequired'', JStr (mg_amount config)),
      (jstr ''asset'', JStr (jstr (mg_mint config))), (jstr ''payTo'', JStr (jstr (mg_recipient config))), (jstr ''resource'', JStr (mg_resource config)),
      (jstr ''tokenProgram'', JStr (token_program_text (mg_tokenProgram config)))]
     @ optional_member ''nonce'' (map_option JStr (given_text (mg_nonce config)))"

definition customPaymentRequired :: "MerchantConfig \<Rightarrow> json" where
  "customPaymentRequired config = JObj
     [(jstr ''version'', JStr (jstr CUSTOM_X402_VERSION)), (jstr ''accepts'', JArr [JObj (custom_accept config)])]"

text \<open>An empty owner counts as none.\<close>

definition standardV2PaymentRequired :: "MerchantConfig \<Rightarrow> json result" where
  "standardV2PaymentRequired config = (case mg_merchantOwner config of
     None \<Rightarrow> Inl ''A v2 challenge needs an explicit merchant owner''
   | Some merchantOwner \<Rightarrow>
       if merchantOwner = [] then Inl ''A v2 challenge needs an explicit merchant owner''
       else Inr (JObj
         [(jstr ''x402Version'', JNum (NInt 2)),
          (jstr ''resource'', JObj [(jstr ''url'', JStr (mg_resource config)), (jstr ''description'', JStr (jstr ''ChainPay demo merchant resource'')),
             (jstr ''mimeType'', JStr (jstr ''application/json''))]),
          (jstr ''accepts'', JArr [JObj
            [(jstr ''scheme'', JStr (jstr ''exact'')), (jstr ''network'', JStr (jstr SOLANA_DEVNET_CAIP2)), (jstr ''amount'', JStr (mg_amount config)),
             (jstr ''asset'', JStr (jstr (mg_mint config))), (jstr ''payTo'', JStr (jstr merchantOwner)), (jstr ''maxTimeoutSeconds'', JNum (NInt 300)),
             (jstr ''extra'', JObj [(jstr ''feePayer'', JStr (jstr merchantOwner))])]])]))"

definition paymentRequiredForConfig :: "MerchantConfig \<Rightarrow> json result" where
  "paymentRequiredForConfig config =
     (if mg_challengeShape config = V2Shape then standardV2PaymentRequired config else Inr (customPaymentRequired config))"

text \<open>\<open>createConfiguredMerchant\<close>: the references the merchant expects.\<close>

definition merchant_references :: "crypto \<Rightarrow> MerchantConfig \<Rightarrow> X402PaymentReferences" where
  "merchant_references C config = deriveX402PaymentReferences C
     \<lparr>xp_mint = mg_mint config, xp_recipient = mg_recipient config, xp_amount = mg_amount config, xp_resource = mg_resource config,
      xp_tokenProgram = mg_tokenProgram config, xp_nonce = given_text (mg_nonce config), xp_expiresAtSlot = None\<rparr>"

section \<open>Errors\<close>

datatype ProofErrorCategory =
  InvalidProof | ReceiptNotFound | ReceiptMismatch | TransactionUnavailable | RpcUnavailable | UnsupportedProtocol

type_synonym 'a proved = "ProofErrorCategory + 'a"

definition RETRY_MESSAGE :: string where
  "RETRY_MESSAGE = ''Settlement confirmation is temporarily unavailable; retry this resource with the same proof and do not settle again''"

fun PUBLIC_MESSAGES :: "ProofErrorCategory \<Rightarrow> string" where
  "PUBLIC_MESSAGES InvalidProof = ''Payment verification failed''"
| "PUBLIC_MESSAGES ReceiptNotFound = ''Payment verification failed''"
| "PUBLIC_MESSAGES ReceiptMismatch = ''Payment verification failed''"
| "PUBLIC_MESSAGES TransactionUnavailable = RETRY_MESSAGE"
| "PUBLIC_MESSAGES RpcUnavailable = RETRY_MESSAGE"
| "PUBLIC_MESSAGES UnsupportedProtocol = ''Standard x402 exactSVM is unsupported without a ChainPay-accepted sponsor''"

definition httpStatus :: "ProofErrorCategory \<Rightarrow> nat" where
  "httpStatus category = (if category = RpcUnavailable \<or> category = TransactionUnavailable then 503 else 402)"

section \<open>Reading a proof\<close>

datatype MessageVersion = LegacyMessage | V0Message | V1Message

record CompiledInstruction =
  ci_programAddressIndex :: int
  ci_accountIndices :: "int list"
  ci_data :: bytes

record RawInstruction =
  ri_programAddressIndex :: int
  ri_accountIndices :: "int list option"
  ri_data :: "bytes option"

record InstructionHeader =
  ih_programAccountIndex :: int
  ih_numInstructionAccounts :: nat
  ih_numInstructionDataBytes :: nat

record InstructionPayload =
  ip_instructionAccountIndices :: "int list"
  ip_instructionData :: bytes

record AddressTableLookup =
  al_writableIndexes :: "int list"
  al_readonlyIndexes :: "int list"

record DecodedMessage =
  dm_version :: MessageVersion
  dm_numSignerAccounts :: int
  dm_numReadonlySignerAccounts :: int
  dm_numReadonlyNonSignerAccounts :: int
  dm_staticAccounts :: "address list"
  dm_instructions :: "RawInstruction list option"
  dm_instructionHeaders :: "InstructionHeader list option"
  dm_instructionPayloads :: "InstructionPayload list option"
  dm_numInstructions :: "int option"
  dm_addressTableLookups :: "AddressTableLookup list option"

record Transaction =
  tx_signatures :: "address \<Rightarrow> bytes option"
  tx_messageBytes :: bytes

record node =
  n_wire :: wire
  n_base64 :: "jstext \<Rightarrow> bytes"
  n_bs58_decode :: "jstext \<Rightarrow> bytes option"
  n_bs58_encode :: "bytes \<Rightarrow> jstext"
  n_decode_transaction :: "bytes \<Rightarrow> Transaction option"
  n_encode_transaction :: "Transaction \<Rightarrow> bytes"
  n_decode_message :: "bytes \<Rightarrow> DecodedMessage option"
  n_encode_message :: "DecodedMessage \<Rightarrow> bytes"

record CustomReceiptProof =
  cx_signature :: jstext
  cx_receiptPDA :: address

datatype DetectedPayment = CustomPayment CustomReceiptProof | StandardV2Payment document | MalformedPayment

definition exactKeys :: "document \<Rightarrow> string list \<Rightarrow> bool" where
  "exactKeys value allowed = list_all (\<lambda>(key, _). key \<in> jstr ` set allowed) value"

definition decodeCanonicalBase58 :: "node \<Rightarrow> jstext \<Rightarrow> nat \<Rightarrow> bytes proved" where
  "decodeCanonicalBase58 E value expectedLength =
     (if value = [] \<or> units value > 128 then Inl InvalidProof
      else (case n_bs58_decode E value of
        None \<Rightarrow> Inl InvalidProof
      | Some decoded \<Rightarrow>
          if length decoded \<noteq> expectedLength \<or> n_bs58_encode E decoded \<noteq> value then Inl InvalidProof else Inr decoded))"

definition canonicalPublicKey :: "web3 \<Rightarrow> jstext \<Rightarrow> address proved" where
  "canonicalPublicKey W value =
     (if value = [] \<or> units value > 64 then Inl InvalidProof
      else (case address_text W value of
        Inl _ \<Rightarrow> Inl InvalidProof
      | Inr encoded \<Rightarrow> if jstr encoded \<noteq> value then Inl InvalidProof else Inr encoded))"

definition decodeHeaderDocument :: "node \<Rightarrow> jstext \<Rightarrow> json proved" where
  "decodeHeaderDocument E header =
     (if header = [] \<or> units header > MAX_HEADER_CHARS then Inl InvalidProof
      else (case w_json (n_wire E) header of
        Some j \<Rightarrow> Inr j
      | None \<Rightarrow>
          (let decoded = w_base64_utf8 (n_wire E) header in
           if decoded = [] \<or> units decoded > MAX_DECODED_CHARS then Inl InvalidProof
           else fetch (w_json (n_wire E) decoded) InvalidProof)))"

definition parseCustomObject :: "node \<Rightarrow> web3 \<Rightarrow> document \<Rightarrow> CustomReceiptProof proved" where
  "parseCustomObject E W value =
     bindR (require (exactKeys value [''version'', ''scheme'', ''network'', ''payload'']) InvalidProof) (\<lambda>_.
     bindR (require (is_text (field value ''version'') CUSTOM_X402_VERSION \<and> is_text (field value ''scheme'') ''exact'' \<and>
       is_text (field value ''network'') ''solana-devnet'') InvalidProof) (\<lambda>_.
     case field value ''payload'' of
       Some (JObj payload) \<Rightarrow>
         bindR (require (exactKeys payload [''signature'', ''receiptPDA'']) InvalidProof) (\<lambda>_.
         case (string_member (field payload ''signature''), string_member (field payload ''receiptPDA'')) of
           (Some signature, Some receiptPDA) \<Rightarrow>
             bindR (decodeCanonicalBase58 E signature 64) (\<lambda>_.
             bindR (canonicalPublicKey W receiptPDA) (\<lambda>pda.
             Inr \<lparr>cx_signature = signature, cx_receiptPDA = pda\<rparr>))
         | _ \<Rightarrow> Inl InvalidProof)
     | _ \<Rightarrow> Inl InvalidProof))"

definition detectPaymentProtocol :: "node \<Rightarrow> web3 \<Rightarrow> json \<Rightarrow> DetectedPayment" where
  "detectPaymentProtocol E W value = (case value of
     JObj d \<Rightarrow>
       let two = (field d ''x402Version'' = Some (JNum (NInt 2))); custom = is_text (field d ''version'') CUSTOM_X402_VERSION in
       if two \<and> custom then MalformedPayment
       else if two then StandardV2Payment d
       else if custom then (case parseCustomObject E W d of Inr proof \<Rightarrow> CustomPayment proof | Inl _ \<Rightarrow> MalformedPayment)
       else MalformedPayment
   | _ \<Rightarrow> MalformedPayment)"

definition inspectPaymentHeader :: "node \<Rightarrow> web3 \<Rightarrow> jstext \<Rightarrow> DetectedPayment proved" where
  "inspectPaymentHeader E W header = bindR (decodeHeaderDocument E header) (\<lambda>j. Inr (detectPaymentProtocol E W j))"

definition parseCustomReceiptProof :: "node \<Rightarrow> web3 \<Rightarrow> jstext \<Rightarrow> CustomReceiptProof proved" where
  "parseCustomReceiptProof E W header = bindR (inspectPaymentHeader E W header) (\<lambda>detected.
     case detected of CustomPayment proof \<Rightarrow> Inr proof | _ \<Rightarrow> Inl InvalidProof)"

definition readV2Requirement :: "document \<Rightarrow> document option" where
  "readV2Requirement value = (case field value ''accepted'' of
     Some (JObj a) \<Rightarrow> Some a
   | _ \<Rightarrow> (case field value ''accepts'' of Some (JArr (JObj a # _)) \<Rightarrow> Some a | _ \<Rightarrow> None))"

definition canonicalIntegerString :: "json option \<Rightarrow> bool" where
  "canonicalIntegerString value = (case string_member value of
     None \<Rightarrow> False
   | Some t \<Rightarrow> CANONICAL_UINT t \<and> t \<noteq> jstr ''0'' \<and> text_int t \<le> REQUEST_U64_MAX)"

text \<open>Standard x402 v2 is refused in every case; what differs is the category.\<close>

definition rejectStandardV2 :: "document \<Rightarrow> ProofErrorCategory" where
  "rejectStandardV2 doc = (case readV2Requirement doc of
     None \<Rightarrow> UnsupportedProtocol
   | Some requirement \<Rightarrow>
       (let amount = coalesce (field requirement ''amount'') (field requirement ''maxAmountRequired'') in
        if amount \<noteq> None \<and> \<not> canonicalIntegerString amount then InvalidProof
        else (case string_member (field requirement ''network'') of
          Some network \<Rightarrow>
            if network \<noteq> jstr SOLANA_DEVNET_CAIP2 \<and> take 7 network \<noteq> jstr ''solana:'' then InvalidProof else UnsupportedProtocol
        | None \<Rightarrow> UnsupportedProtocol)))"

definition detectAndParsePaymentHeader :: "node \<Rightarrow> web3 \<Rightarrow> jstext \<Rightarrow> CustomReceiptProof proved" where
  "detectAndParsePaymentHeader E W header = bindR (inspectPaymentHeader E W header) (\<lambda>detected.
     case detected of
       StandardV2Payment doc \<Rightarrow> Inl (rejectStandardV2 doc)
     | CustomPayment proof \<Rightarrow> Inr proof
     | MalformedPayment \<Rightarrow> Inl InvalidProof)"

section \<open>Decoding the settlement transaction\<close>

definition decodeSupportedTransaction :: "node \<Rightarrow> bytes \<Rightarrow> (Transaction \<times> DecodedMessage) result" where
  "decodeSupportedTransaction E bytes =
     bindR (require (bytes \<noteq> [] \<and> length bytes \<le> 4096) ''Transaction exceeds the supported wire size'') (\<lambda>_.
     bindR (fetch (n_decode_transaction E bytes) ''Invalid transaction'') (\<lambda>transaction.
     bindR (fetch (n_decode_message E (tx_messageBytes transaction)) ''Invalid message'') (\<lambda>message.
     bindR (require (dm_version message = V1Message \<or> length bytes \<le> 1232) ''Legacy/v0 transaction exceeds 1232 bytes'') (\<lambda>_.
     bindR (require (n_encode_message E message = tx_messageBytes transaction) ''Noncanonical transaction message bytes'') (\<lambda>_.
     bindR (require (n_encode_transaction E transaction = bytes) ''Noncanonical transaction wire bytes'') (\<lambda>_.
     Inr (transaction, message)))))))"

definition MAX_BASE64_WIRE_CHARS :: nat where "MAX_BASE64_WIRE_CHARS = 5464"
definition MAX_WIRE_BYTES :: nat where "MAX_WIRE_BYTES = 4096"
definition MAX_ACCOUNT_KEYS :: nat where "MAX_ACCOUNT_KEYS = 256"
definition MAX_INSTRUCTIONS :: nat where "MAX_INSTRUCTIONS = 64"
definition MAX_LOADED_ADDRESSES :: nat where "MAX_LOADED_ADDRESSES = 256"
definition EXECUTE_PAYMENT_DATA_LENGTH :: nat where "EXECUTE_PAYMENT_DATA_LENGTH = 112"

definition asSlot :: "json option \<Rightarrow> int proved" where
  "asSlot value = (case value of
     Some (JNum (NInt n)) \<Rightarrow> if 0 \<le> n \<and> n \<le> 9007199254740991 then Inr n else Inl ReceiptMismatch
   | _ \<Rightarrow> Inl ReceiptMismatch)"

definition verifyMessageSignature :: "crypto \<Rightarrow> web3 \<Rightarrow> address \<Rightarrow> bytes \<Rightarrow> bytes \<Rightarrow> bool" where
  "verifyMessageSignature C W signer message signature =
     (if length signature \<noteq> 64 \<or> list_all (\<lambda>b. b = 0) signature then False
      else (case publicKey W signer of Inl _ \<Rightarrow> False | Inr key \<Rightarrow> cr_verify C key signature message))"

definition v1_instruction :: "InstructionHeader \<times> InstructionPayload \<Rightarrow> CompiledInstruction proved" where
  "v1_instruction = (\<lambda>(header, payload).
     bindR (require (ih_numInstructionAccounts header = length (ip_instructionAccountIndices payload)) ReceiptMismatch) (\<lambda>_.
     bindR (require (ih_numInstructionDataBytes header = length (ip_instructionData payload)) ReceiptMismatch) (\<lambda>_.
     Inr \<lparr>ci_programAddressIndex = ih_programAccountIndex header, ci_accountIndices = ip_instructionAccountIndices payload,
          ci_data = ip_instructionData payload\<rparr>)))"

definition raw_instruction :: "RawInstruction \<Rightarrow> CompiledInstruction" where
  "raw_instruction i = \<lparr>ci_programAddressIndex = ri_programAddressIndex i,
     ci_accountIndices = (case ri_accountIndices i of Some xs \<Rightarrow> xs | None \<Rightarrow> []),
     ci_data = (case ri_data i of Some d \<Rightarrow> d | None \<Rightarrow> [])\<rparr>"

definition compiledInstructions :: "DecodedMessage \<Rightarrow> CompiledInstruction list proved" where
  "compiledInstructions message =
     (if dm_version message = V1Message
      then (case (dm_instructionHeaders message, dm_instructionPayloads message) of
         (Some headers, Some payloads) \<Rightarrow>
           bindR (require (length headers = length payloads) ReceiptMismatch) (\<lambda>_.
           bindR (require (dm_numInstructions message = None \<or> dm_numInstructions message = Some (int (length headers))) ReceiptMismatch) (\<lambda>_.
           bindR (require (length headers \<le> MAX_INSTRUCTIONS) ReceiptMismatch) (\<lambda>_.
           mapR v1_instruction (zip headers payloads))))
       | _ \<Rightarrow> Inl ReceiptMismatch)
      else (case dm_instructions message of
         None \<Rightarrow> Inl ReceiptMismatch
       | Some instructions \<Rightarrow>
           if length instructions > MAX_INSTRUCTIONS then Inl ReceiptMismatch else Inr (map raw_instruction instructions)))"

record AccountRole =
  ar_address :: address
  ar_isSigner :: bool
  ar_isWritable :: bool

definition static_role :: "DecodedMessage \<Rightarrow> nat \<Rightarrow> address \<Rightarrow> AccountRole" where
  "static_role message index account =
     (let numSigners = dm_numSignerAccounts message;
          writableSigners = numSigners - dm_numReadonlySignerAccounts message;
          writableNonSigners = int (length (dm_staticAccounts message)) - numSigners - dm_numReadonlyNonSignerAccounts message in
      \<lparr>ar_address = account, ar_isSigner = (int index < numSigners),
       ar_isWritable = (int index < writableSigners \<or> numSigners \<le> int index \<and> int index < numSigners + writableNonSigners)\<rparr>)"

definition static_roles :: "web3 \<Rightarrow> DecodedMessage \<Rightarrow> AccountRole list proved" where
  "static_roles W message = mapR (\<lambda>(index, account). bindR (canonicalPublicKey W (jstr account)) (\<lambda>a. Inr (static_role message index a)))
     (enumerate 0 (dm_staticAccounts message))"

definition resolveAccounts :: "web3 \<Rightarrow> DecodedMessage \<Rightarrow> jstext list \<times> jstext list \<Rightarrow> AccountRole list proved" where
  "resolveAccounts W message loaded =
     (let signers = dm_numSignerAccounts message; readonlySigners = dm_numReadonlySignerAccounts message;
          readonlyOthers = dm_numReadonlyNonSignerAccounts message; accounts = length (dm_staticAccounts message) in
      bindR (require (accounts \<noteq> 0 \<and> accounts \<le> MAX_ACCOUNT_KEYS) ReceiptMismatch) (\<lambda>_.
      bindR (require (1 \<le> signers \<and> 0 \<le> readonlySigners \<and> 0 \<le> readonlyOthers \<and> readonlySigners \<le> signers \<and> signers \<le> int accounts)
        ReceiptMismatch) (\<lambda>_.
      bindR (require (1 \<le> signers - readonlySigners \<and> 0 \<le> int accounts - signers - readonlyOthers) ReceiptMismatch) (\<lambda>_.
      bindR (static_roles W message) (\<lambda>roles.
      case loaded of (writable, readonly) \<Rightarrow>
        if dm_version message \<noteq> V0Message
        then (if writable \<noteq> [] \<or> readonly \<noteq> [] then Inl ReceiptMismatch else Inr roles)
        else (let lookups = (case dm_addressTableLookups message of Some ls \<Rightarrow> ls | None \<Rightarrow> []) in
          bindR (require (length writable = sum_list (map (length \<circ> al_writableIndexes) lookups) \<and>
            length readonly = sum_list (map (length \<circ> al_readonlyIndexes) lookups)) ReceiptMismatch) (\<lambda>_.
          bindR (require (length writable + length readonly \<le> MAX_LOADED_ADDRESSES) ReceiptMismatch) (\<lambda>_.
          bindR (mapR (canonicalPublicKey W) writable) (\<lambda>w.
          bindR (mapR (canonicalPublicKey W) readonly) (\<lambda>r.
          bindR (require (length roles + length writable + length readonly \<le> MAX_ACCOUNT_KEYS) ReceiptMismatch) (\<lambda>_.
          Inr (roles @ map (\<lambda>a. \<lparr>ar_address = a, ar_isSigner = False, ar_isWritable = True\<rparr>) w
                     @ map (\<lambda>a. \<lparr>ar_address = a, ar_isSigner = False, ar_isWritable = False\<rparr>) r))))))))))))"

text \<open>A missing or null list is empty; every item must be a text.\<close>

definition address_list :: "json option \<Rightarrow> json list proved" where
  "address_list value = (case coalesce value (Some (JArr [])) of Some (JArr vs) \<Rightarrow> Inr vs | _ \<Rightarrow> Inl ReceiptMismatch)"

definition loadedAddressLists :: "document \<Rightarrow> (jstext list \<times> jstext list) proved" where
  "loadedAddressLists metadata = (case field metadata ''loadedAddresses'' of
     None \<Rightarrow> Inr ([], [])
   | Some (JObj loaded) \<Rightarrow>
       bindR (address_list (field loaded ''writable'')) (\<lambda>writable.
       bindR (address_list (field loaded ''readonly'')) (\<lambda>readonly.
       bindR (require (length writable \<le> MAX_LOADED_ADDRESSES \<and> length readonly \<le> MAX_LOADED_ADDRESSES) ReceiptMismatch) (\<lambda>_.
       bindR (mapR (\<lambda>v. fetch (string_member (Some v)) ReceiptMismatch) writable) (\<lambda>w.
       bindR (mapR (\<lambda>v. fetch (string_member (Some v)) ReceiptMismatch) readonly) (\<lambda>r.
       Inr (w, r))))))
   | _ \<Rightarrow> Inl ReceiptMismatch)"

section \<open>The settlement\<close>

record SettlementExpectation =
  se_programId :: address
  se_mint :: address
  se_recipient :: address
  se_amount :: int
  se_agent :: address
  se_tokenProgram :: address
  se_configPda :: address
  se_assetPda :: address
  se_invoiceHash :: bytes
  se_paymentId :: bytes
  se_signatureReference :: bytes

text \<open>The ten accounts of \<open>execute_payment\<close>, with their roles.\<close>

definition settlement_accounts :: "Receipt \<Rightarrow> SettlementExpectation \<Rightarrow> AccountRole list" where
  "settlement_accounts receipt expected = map (\<lambda>(a, s, w). \<lparr>ar_address = a, ar_isSigner = s, ar_isWritable = w\<rparr>)
     [(se_configPda expected, False, False), (se_assetPda expected, False, False), (r_mandate receipt, False, True),
      (r_address receipt, False, True), (se_agent expected, True, True), (se_mint expected, False, False),
      (r_sourceTokenAccount receipt, False, True), (se_recipient expected, False, True), (se_tokenProgram expected, False, False),
      (SYSTEM_PROGRAM_ID, False, False)]"

text \<open>\<open>requireAccount\<close>: the role at an index of the message.\<close>

definition requireAccount :: "AccountRole list \<Rightarrow> int \<Rightarrow> AccountRole \<Rightarrow> unit proved" where
  "requireAccount roles index expected =
     require (0 \<le> index \<and> index < int (length roles) \<and> roles ! nat index = expected) ReceiptMismatch"

text \<open>One instruction of the message: \<open>False\<close> is an instruction that is not the payment this receipt is of.\<close>

definition settles :: "AccountRole list \<Rightarrow> address list \<Rightarrow> Receipt \<Rightarrow> SettlementExpectation \<Rightarrow> CompiledInstruction \<Rightarrow> bool proved" where
  "settles roles requiredSigners receipt expected i =
     (let data = ci_data i; indices = ci_accountIndices i in
      if ci_programAddressIndex i < 0 \<or> int (length roles) \<le> ci_programAddressIndex i then Inl ReceiptMismatch
      else if ar_address (roles ! nat (ci_programAddressIndex i)) \<noteq> se_programId expected then Inr False
      else if length data < 8 then Inr False
      else if take 8 data \<noteq> DISC_executePayment then Inr False
      else if length data \<noteq> EXECUTE_PAYMENT_DATA_LENGTH then Inl ReceiptMismatch
      else if length indices < 10 \<or> 42 < length indices then Inl ReceiptMismatch
      else if list_ex (\<lambda>j. j < 0 \<or> int (length roles) \<le> j) indices then Inl ReceiptMismatch
      else if ar_address (roles ! nat (indices ! 3)) \<noteq> r_address receipt then Inr False
      else
        bindR (mapR (\<lambda>(j, account). requireAccount roles j account) (zip indices (settlement_accounts receipt expected))) (\<lambda>_.
        bindR (require (se_agent expected \<in> set requiredSigners) ReceiptMismatch) (\<lambda>_.
        bindR (require (slice data 8 32 = se_invoiceHash expected) ReceiptMismatch) (\<lambda>_.
        bindR (require (slice data 40 32 = se_paymentId expected) ReceiptMismatch) (\<lambda>_.
        bindR (require (slice data 72 32 = se_signatureReference expected) ReceiptMismatch) (\<lambda>_.
        let amount = le_val (slice data 104 8) in
        bindR (require (amount = se_amount expected \<and> amount = r_amount receipt) ReceiptMismatch) (\<lambda>_.
        Inr True)))))))"

text \<open>The transaction field is the pair of the encoded bytes and the name of their encoding.\<close>

definition wire_text :: "json option \<Rightarrow> jstext proved" where
  "wire_text value = (case value of
     Some (JArr [JStr wire, JStr encoding]) \<Rightarrow>
       if encoding \<noteq> jstr ''base64'' \<or> wire = [] \<or> units wire > MAX_BASE64_WIRE_CHARS then Inl ReceiptMismatch else Inr wire
   | _ \<Rightarrow> Inl ReceiptMismatch)"

definition required_signers :: "DecodedMessage \<Rightarrow> address list" where
  "required_signers message =
     (let n = dm_numSignerAccounts message; accounts = dm_staticAccounts message in
      if 0 \<le> n then take (nat n) accounts else take (length accounts - nat (- n)) accounts)"

definition signed_by :: "crypto \<Rightarrow> web3 \<Rightarrow> Transaction \<Rightarrow> address \<Rightarrow> bool" where
  "signed_by C W transaction signer = (case tx_signatures transaction signer of
     None \<Rightarrow> False
   | Some signature \<Rightarrow> verifyMessageSignature C W signer (tx_messageBytes transaction) signature)"

text \<open>An error of another kind, caught and given a category.\<close>

definition failing :: "ProofErrorCategory \<Rightarrow> 'a result \<Rightarrow> 'a proved" where
  "failing category r = (case r of Inl _ \<Rightarrow> Inl category | Inr v \<Rightarrow> Inr v)"

text \<open>The decoded transaction: its signatures, and the count of its instructions that are the payment.\<close>

definition settles_once ::
  "node \<Rightarrow> web3 \<Rightarrow> crypto \<Rightarrow> document \<Rightarrow> CustomReceiptProof \<Rightarrow> Receipt \<Rightarrow> SettlementExpectation \<Rightarrow> Transaction \<times> DecodedMessage \<Rightarrow> unit proved" where
  "settles_once E W C metadata proof receipt expected decoded =
     (let transaction = fst decoded; message = snd decoded; requiredSigners = required_signers message in
      bindR (require (requiredSigners \<noteq> []) ReceiptMismatch) (\<lambda>_.
      bindR (require (list_all (signed_by C W transaction) requiredSigners) ReceiptMismatch) (\<lambda>_.
      bindR (fetch (tx_signatures transaction (hd requiredSigners)) ReceiptMismatch) (\<lambda>firstSignature.
      bindR (decodeCanonicalBase58 E (cx_signature proof) 64) (\<lambda>proofSignature.
      bindR (require (proofSignature = firstSignature) InvalidProof) (\<lambda>_.
      bindR (loadedAddressLists metadata) (\<lambda>loaded.
      bindR (resolveAccounts W message loaded) (\<lambda>roles.
      bindR (compiledInstructions message) (\<lambda>instructions.
      bindR (mapR (settles roles requiredSigners receipt expected) instructions) (\<lambda>matches.
      require (length (filter (\<lambda>m. m) matches) = 1) ReceiptMismatch))))))))))"

text \<open>\<open>meta.err\<close> must be null itself; a missing member is refused.\<close>

definition validateSettlementTransaction ::
  "node \<Rightarrow> web3 \<Rightarrow> crypto \<Rightarrow> json \<Rightarrow> CustomReceiptProof \<Rightarrow> Receipt \<Rightarrow> SettlementExpectation \<Rightarrow> unit proved" where
  "validateSettlementTransaction E W C wireResult proof receipt expected = (case wireResult of
     JObj result \<Rightarrow> (case field result ''meta'' of
       Some (JObj metadata) \<Rightarrow>
         bindR (require (field metadata ''err'' = Some JNull) ReceiptMismatch) (\<lambda>_.
         bindR (asSlot (field result ''slot'')) (\<lambda>slot.
         bindR (require (slot = r_executedAtSlot receipt) ReceiptMismatch) (\<lambda>_.
         bindR (wire_text (field result ''transaction'')) (\<lambda>wire.
         let decodedWire = n_base64 E wire in
         bindR (require (decodedWire \<noteq> [] \<and> length decodedWire \<le> MAX_WIRE_BYTES) ReceiptMismatch) (\<lambda>_.
         bindR (failing ReceiptMismatch (decodeSupportedTransaction E decodedWire)) (\<lambda>decoded.
         settles_once E W C metadata proof receipt expected decoded))))))
     | _ \<Rightarrow> Inl ReceiptMismatch)
   | _ \<Rightarrow> Inl TransactionUnavailable)"

section \<open>The proof\<close>

text \<open>
  An answer of the RPC node: \<open>Inl\<close> stands for a rejected or late call, with the category of a \<open>MerchantProofError\<close> when it is one;
  \<open>Inr None\<close> for null.
\<close>

type_synonym 'a answer = "ProofErrorCategory option + 'a option"

fun answered :: "'a answer \<Rightarrow> 'a option proved" where
  "answered (Inl (Some category)) = Inl category"
| "answered (Inl None) = Inl RpcUnavailable"
| "answered (Inr v) = Inr v"

record VerifiedMerchantPayment =
  vm_receipt :: Receipt
  vm_transactionSignature :: jstext
  vm_resource :: jstext

text \<open>A derivation that fails is no proof error; the route answers it as an invalid proof.\<close>

definition expected_settlement :: "web3 \<Rightarrow> MerchantConfig \<Rightarrow> X402PaymentReferences \<Rightarrow> SettlementExpectation result" where
  "expected_settlement W config references =
     bindR (deriveConfigAddress W (mg_programId config)) (\<lambda>configPda.
     bindR (deriveAssetAddress W (mg_mint config) (mg_programId config)) (\<lambda>assetPda.
     bindR (hexToBytes (xr_invoiceHash references) ''invoiceHash'') (\<lambda>invoiceHash.
     bindR (hexToBytes (xr_paymentId references) ''paymentId'') (\<lambda>paymentId.
     bindR (hexToBytes (xr_signatureReference references) ''signatureReference'') (\<lambda>signatureReference.
     Inr \<lparr>se_programId = (if mg_programId config = [] then DEFAULT_PROGRAM_ID else mg_programId config), se_mint = mg_mint config,
          se_recipient = mg_recipient config, se_amount = text_int (mg_amount config), se_agent = mg_allowedAgent config,
          se_tokenProgram = tokenProgramAddress (mg_tokenProgram config), se_configPda = configPda, se_assetPda = assetPda,
          se_invoiceHash = invoiceHash, se_paymentId = paymentId, se_signatureReference = signatureReference\<rparr>)))))"

definition verifyMerchantProof ::
  "node \<Rightarrow> web3 \<Rightarrow> crypto \<Rightarrow> MerchantConfig \<Rightarrow> X402PaymentReferences \<Rightarrow> CustomReceiptProof \<Rightarrow> (address \<Rightarrow> Receipt answer) \<Rightarrow>
   (jstext \<Rightarrow> json answer) \<Rightarrow> VerifiedMerchantPayment proved" where
  "verifyMerchantProof E W C config references proof receipts transactions =
     bindR (answered (receipts (cx_receiptPDA proof))) (\<lambda>found.
     bindR (fetch found ReceiptNotFound) (\<lambda>receipt.
     bindR (require (r_status receipt = Confirmed \<and> r_onChainStatus receipt = 1) ReceiptMismatch) (\<lambda>_.
     bindR (failing InvalidProof (deriveReceiptAddress W (r_mandate receipt) (r_invoiceHash receipt) (mg_programId config))) (\<lambda>derived.
     bindR (require (derived = cx_receiptPDA proof \<and> r_address receipt = cx_receiptPDA proof) ReceiptMismatch) (\<lambda>_.
     bindR (require (bytesToHex (r_invoiceHash receipt) = xr_invoiceHash references) ReceiptMismatch) (\<lambda>_.
     bindR (require (bytesToHex (r_paymentId receipt) = xr_paymentId references) ReceiptMismatch) (\<lambda>_.
     bindR (require (bytesToHex (r_signatureReference receipt) = xr_signatureReference references) ReceiptMismatch) (\<lambda>_.
     bindR (require (r_mint receipt = mg_mint config) ReceiptMismatch) (\<lambda>_.
     bindR (require (r_recipient receipt = mg_recipient config \<and> r_recipientTokenAccount receipt = mg_recipient config) ReceiptMismatch) (\<lambda>_.
     bindR (require (r_amount receipt = text_int (mg_amount config)) ReceiptMismatch) (\<lambda>_.
     bindR (require (r_agent receipt = mg_allowedAgent config) ReceiptMismatch) (\<lambda>_.
     bindR (answered (transactions (cx_signature proof))) (\<lambda>wire.
     bindR (fetch wire TransactionUnavailable) (\<lambda>wireResult.
     bindR (require (wireResult \<noteq> JNull) TransactionUnavailable) (\<lambda>_.
     bindR (failing InvalidProof (expected_settlement W config references)) (\<lambda>expected.
     bindR (validateSettlementTransaction E W C wireResult proof receipt expected) (\<lambda>_.
     Inr \<lparr>vm_receipt = receipt, vm_transactionSignature = cx_signature proof, vm_resource = mg_resource config\<rparr>)))))))))))))))))"

section \<open>The route (app.ts)\<close>

datatype DataResponse =
    PaymentRequired json
  | PaidData VerifiedMerchantPayment
  | Refused nat string ProofErrorCategory

definition publicProofErrorBody :: "ProofErrorCategory \<Rightarrow> DataResponse" where
  "publicProofErrorBody category = Refused (httpStatus category) (PUBLIC_MESSAGES category) category"

fun standard_header :: "node \<Rightarrow> web3 \<Rightarrow> jstext list \<Rightarrow> jstext option proved" where
  "standard_header E W [] = Inr None"
| "standard_header E W (h # hs) = bindR (inspectPaymentHeader E W h) (\<lambda>detected.
     case detected of StandardV2Payment _ \<Rightarrow> Inr (Some h) | _ \<Rightarrow> standard_header E W hs)"

text \<open>
  \<open>GET /data\<close>. The headers are those of the request by their lower-case names; \<open>x-payment\<close> is taken before the first header given, even
  when it is empty (\<open>??\<close>).
\<close>

definition data_route ::
  "node \<Rightarrow> web3 \<Rightarrow> crypto \<Rightarrow> MerchantConfig \<Rightarrow> X402PaymentReferences \<Rightarrow> json \<Rightarrow> (address \<Rightarrow> Receipt answer) \<Rightarrow> (jstext \<Rightarrow> json answer) \<Rightarrow>
   (string \<Rightarrow> jstext option) \<Rightarrow> DataResponse" where
  "data_route E W C config references challenge receipts transactions headers =
     (let paymentHeaders = concat (map (\<lambda>name. case given_text (headers name) of Some h \<Rightarrow> [h] | None \<Rightarrow> [])
            [''payment-signature'', ''x-payment'', ''payment-required'']) in
      if paymentHeaders = [] then PaymentRequired challenge
      else (case
        bindR (standard_header E W paymentHeaders) (\<lambda>standardHeader.
        bindR (case standardHeader of Some h \<Rightarrow> bindR (detectAndParsePaymentHeader E W h) (\<lambda>_. Inr ()) | None \<Rightarrow> Inr ()) (\<lambda>_.
        bindR (detectAndParsePaymentHeader E W (case headers ''x-payment'' of Some h \<Rightarrow> h | None \<Rightarrow> hd paymentHeaders)) (\<lambda>proof.
        verifyMerchantProof E W C config references proof receipts transactions))) of
          Inr verified \<Rightarrow> PaidData verified
        | Inl category \<Rightarrow> publicProofErrorBody category))"

section \<open>What a settlement is\<close>

text \<open>An \<open>execute_payment\<close> of the program for this receipt, and such an instruction with exactly the accounts and data of the payment.\<close>

definition names_receipt :: "AccountRole list \<Rightarrow> Receipt \<Rightarrow> SettlementExpectation \<Rightarrow> CompiledInstruction \<Rightarrow> bool" where
  "names_receipt roles receipt expected i \<longleftrightarrow>
     0 \<le> ci_programAddressIndex i \<and> ci_programAddressIndex i < int (length roles) \<and>
     ar_address (roles ! nat (ci_programAddressIndex i)) = se_programId expected \<and> take 8 (ci_data i) = DISC_executePayment \<and>
     4 \<le> length (ci_accountIndices i) \<and> ar_address (roles ! nat (ci_accountIndices i ! 3)) = r_address receipt"

definition payment_data :: "Receipt \<Rightarrow> SettlementExpectation \<Rightarrow> bytes" where
  "payment_data receipt expected = DISC_executePayment @ se_invoiceHash expected @ se_paymentId expected @ se_signatureReference expected @
     le_bytes 8 (r_amount receipt)"

definition exact_payment :: "AccountRole list \<Rightarrow> address list \<Rightarrow> Receipt \<Rightarrow> SettlementExpectation \<Rightarrow> CompiledInstruction \<Rightarrow> bool" where
  "exact_payment roles requiredSigners receipt expected i \<longleftrightarrow> names_receipt roles receipt expected i \<and> ci_data i = payment_data receipt expected \<and>
     length (ci_data i) = 112 \<and>
     10 \<le> length (ci_accountIndices i) \<and> length (ci_accountIndices i) \<le> 42 \<and>
     list_all (\<lambda>j. 0 \<le> j \<and> j < int (length roles)) (ci_accountIndices i) \<and>
     map (\<lambda>j. roles ! nat j) (take 10 (ci_accountIndices i)) = settlement_accounts receipt expected \<and>
     se_agent expected \<in> set requiredSigners \<and> r_amount receipt = se_amount expected"

lemma length_settlement_accounts [simp]: "length (settlement_accounts r e) = 10"
  by (simp add: settlement_accounts_def)

lemma length_DISC_executePayment [simp]: "length DISC_executePayment = 8"
  by (simp add: DISC_executePayment_def)

lemma drop_slice: "drop a data = slice data a n @ drop (a + n) data"
  unfolding slice_def by (metis add.commute append_take_drop_id drop_drop)

lemma data_parts:
  assumes "length data = 112"
  shows "data = take 8 data @ slice data 8 32 @ slice data 40 32 @ slice data 72 32 @ slice data 104 8"
  using drop_slice [of 8 data 32] drop_slice [of 40 data 32] drop_slice [of 72 data 32] drop_slice [of 104 data 8] assms
    append_take_drop_id [of 8 data] by simp

lemma require_accounts:
  assumes "length accounts \<le> length indices" and "list_all (\<lambda>j. 0 \<le> j \<and> j < int (length roles)) indices"
  shows "(\<exists>u. mapR (\<lambda>(j, account). requireAccount roles j account) (zip indices accounts) = Inr u) \<longleftrightarrow>
    map (\<lambda>j. roles ! nat j) (take (length accounts) indices) = accounts"
  using assms
proof (induction accounts arbitrary: indices)
  case Nil
  then show ?case by simp
next
  case (Cons a accounts)
  then obtain j js where "indices = j # js" by (cases indices) auto
  with Cons Cons.IH [of js] show ?case by (auto simp: requireAccount_def bindR_eq_Inr)
qed

lemma settles_True:
  assumes "settles roles signers receipt expected i = Inr True"
  shows "exact_payment roles signers receipt expected i"
proof -
  let ?d = "ci_data i" and ?js = "ci_accountIndices i"
  from assms have facts: "0 \<le> ci_programAddressIndex i" "ci_programAddressIndex i < int (length roles)"
    "ar_address (roles ! nat (ci_programAddressIndex i)) = se_programId expected" "take 8 ?d = DISC_executePayment" "length ?d = 112"
    "10 \<le> length ?js" "length ?js \<le> 42" "list_all (\<lambda>j. 0 \<le> j \<and> j < int (length roles)) ?js"
    "ar_address (roles ! nat (?js ! 3)) = r_address receipt" "se_agent expected \<in> set signers"
    "\<exists>u. mapR (\<lambda>(j, account). requireAccount roles j account) (zip ?js (settlement_accounts receipt expected)) = Inr u"
    "slice ?d 8 32 = se_invoiceHash expected" "slice ?d 40 32 = se_paymentId expected" "slice ?d 72 32 = se_signatureReference expected"
    "le_val (slice ?d 104 8) = se_amount expected" "le_val (slice ?d 104 8) = r_amount receipt"
    by (auto simp: settles_def Let_def bindR_eq_Inr require_eq_Inr EXECUTE_PAYMENT_DATA_LENGTH_def list_all_iff list_ex_iff not_less not_le split: if_splits)
  have "le_bytes 8 (r_amount receipt) = slice ?d 104 8"
    using facts(5,16) le_bytes_le_val [of "slice ?d 104 8" 8] by simp
  then have "?d = payment_data receipt expected"
    using data_parts [OF facts(5)] facts(4,12-14) by (simp add: payment_data_def)
  moreover have "map (\<lambda>j. roles ! nat j) (take 10 ?js) = settlement_accounts receipt expected"
    using require_accounts [of "settlement_accounts receipt expected" ?js roles] facts(6,8,11) by simp
  ultimately show ?thesis
    using facts unfolding exact_payment_def names_receipt_def by simp
qed

lemma settles_False:
  assumes "settles roles signers receipt expected i = Inr False"
  shows "\<not> names_receipt roles receipt expected i"
  using assms by (auto simp: settles_def names_receipt_def Let_def bindR_eq_Inr split: if_splits)

lemma settles_exact:
  assumes "exact_payment roles signers receipt expected i"
    and "length (se_invoiceHash expected) = 32" "length (se_paymentId expected) = 32" "length (se_signatureReference expected) = 32"
    and "0 \<le> r_amount receipt" "r_amount receipt < 2 ^ 64"
  shows "settles roles signers receipt expected i = Inr True"
proof -
  let ?d = "ci_data i" and ?js = "ci_accountIndices i"
  note e = assms(1) [unfolded exact_payment_def names_receipt_def]
  have slices: "slice ?d 8 32 = se_invoiceHash expected" "slice ?d 40 32 = se_paymentId expected" "slice ?d 72 32 = se_signatureReference expected"
    "slice ?d 104 8 = le_bytes 8 (r_amount receipt)"
    using e assms(2-4) by (simp_all add: payment_data_def slice_def DISC_executePayment_def)
  have "\<exists>u. mapR (\<lambda>(j, account). requireAccount roles j account) (zip ?js (settlement_accounts receipt expected)) = Inr u"
    using require_accounts [of "settlement_accounts receipt expected" ?js roles] e by simp
  then obtain u where u: "mapR (\<lambda>(j, account). requireAccount roles j account) (zip ?js (settlement_accounts receipt expected)) = Inr u" ..
  have "\<not> list_ex (\<lambda>j. j < 0 \<or> int (length roles) \<le> j) ?js"
    using e by (auto simp: list_all_iff list_ex_iff not_less not_le)
  moreover have "length (payment_data receipt expected) = 112" "take 8 (payment_data receipt expected) = DISC_executePayment"
    using assms(2-4) by (simp_all add: payment_data_def)
  ultimately show ?thesis
    using e slices u assms(5,6) by (simp add: settles_def Let_def EXECUTE_PAYMENT_DATA_LENGTH_def)
qed

lemma settles_all:
  assumes "mapR (settles roles signers receipt expected) instructions = Inr matches"
  shows "length (filter (names_receipt roles receipt expected) instructions) = length (filter (\<lambda>m. m) matches)"
    and "\<forall>i \<in> set instructions. names_receipt roles receipt expected i \<longrightarrow> exact_payment roles signers receipt expected i"
  using assms
proof (induction instructions arbitrary: matches)
  case (Cons i instructions)
  {
    case 1
    from 1 obtain m ms where m: "settles roles signers receipt expected i = Inr m"
      "mapR (settles roles signers receipt expected) instructions = Inr ms" "matches = m # ms" by (auto simp: bindR_eq_Inr)
    then have "names_receipt roles receipt expected i \<longleftrightarrow> m"
      using settles_True settles_False by (cases m) (auto simp: exact_payment_def)
    with m Cons.IH(1) show ?case by simp
  next
    case 2
    from 2 obtain m ms where m: "settles roles signers receipt expected i = Inr m"
      "mapR (settles roles signers receipt expected) instructions = Inr ms" by (auto simp: bindR_eq_Inr)
    with Cons.IH(2) settles_True settles_False show ?case by (cases m) auto
  }
qed simp_all

text \<open>
  A finalized transaction proves the settlement of a receipt: it did not fail, it ran in the receipt's slot, it decodes canonically, every
  required signer signed its message, the proof names its first signature, and exactly one of its instructions is an
  \<open>execute_payment\<close> for this receipt, with exactly the accounts and the data of the payment.
\<close>

definition settlement_proven ::
  "node \<Rightarrow> web3 \<Rightarrow> crypto \<Rightarrow> CustomReceiptProof \<Rightarrow> Receipt \<Rightarrow> SettlementExpectation \<Rightarrow> json \<Rightarrow> bool" where
  "settlement_proven E W C proof receipt expected wireResult \<longleftrightarrow>
     (\<exists>result metadata wire transaction message loaded roles instructions i.
        wireResult = JObj result \<and> field result ''meta'' = Some (JObj metadata) \<and> field metadata ''err'' = Some JNull \<and>
        field result ''slot'' = Some (JNum (NInt (r_executedAtSlot receipt))) \<and> wire_text (field result ''transaction'') = Inr wire \<and>
        decodeSupportedTransaction E (n_base64 E wire) = Inr (transaction, message) \<and>
        required_signers message \<noteq> [] \<and> list_all (signed_by C W transaction) (required_signers message) \<and>
        n_bs58_decode E (cx_signature proof) = tx_signatures transaction (hd (required_signers message)) \<and>
        loadedAddressLists metadata = Inr loaded \<and> resolveAccounts W message loaded = Inr roles \<and> compiledInstructions message = Inr instructions \<and>
        filter (names_receipt roles receipt expected) instructions = [i] \<and> exact_payment roles (required_signers message) receipt expected i)"

lemma failing_eq_Inr: "failing c r = Inr v \<longleftrightarrow> r = Inr v"
  by (auto simp: failing_def split: sum.splits)

lemma asSlot_Inr: "asSlot v = Inr n \<longleftrightarrow> v = Some (JNum (NInt n)) \<and> 0 \<le> n \<and> n \<le> 9007199254740991"
  by (auto simp: asSlot_def split: option.splits json.splits jsnum.splits)

lemma decoded_base58: "decodeCanonicalBase58 E t n = Inr b \<Longrightarrow> n_bs58_decode E t = Some b"
  by (auto simp: decodeCanonicalBase58_def split: if_splits option.splits)

lemma validated_settlement:
  assumes "validateSettlementTransaction E W C wireResult proof receipt expected = Inr u"
  shows "settlement_proven E W C proof receipt expected wireResult"
proof -
  from assms obtain result metadata where r: "wireResult = JObj result" "field result ''meta'' = Some (JObj metadata)"
    by (auto simp: validateSettlementTransaction_def split: json.splits option.splits)
  from assms obtain wire transaction message where
    f: "field metadata ''err'' = Some JNull" "asSlot (field result ''slot'') = Inr (r_executedAtSlot receipt)"
      "wire_text (field result ''transaction'') = Inr wire" "decodeSupportedTransaction E (n_base64 E wire) = Inr (transaction, message)"
    and once: "settles_once E W C metadata proof receipt expected (transaction, message) = Inr u"
    unfolding validateSettlementTransaction_def r Let_def by (auto simp: bindR_eq_Inr require_eq_Inr failing_eq_Inr r(2))
  from once obtain first loaded roles instructions matches where
    g: "required_signers message \<noteq> []" "list_all (signed_by C W transaction) (required_signers message)"
      "tx_signatures transaction (hd (required_signers message)) = Some first" "decodeCanonicalBase58 E (cx_signature proof) 64 = Inr first"
      "loadedAddressLists metadata = Inr loaded" "resolveAccounts W message loaded = Inr roles" "compiledInstructions message = Inr instructions"
      "mapR (settles roles (required_signers message) receipt expected) instructions = Inr matches" "length (filter (\<lambda>m. m) matches) = 1"
    by (auto simp: settles_once_def Let_def bindR_eq_Inr require_eq_Inr fetch_eq_Inr)
  obtain i where i: "filter (names_receipt roles receipt expected) instructions = [i]"
    using settles_all(1) [OF g(8)] g(9) by (auto simp: length_Suc_conv)
  then have "i \<in> set instructions \<and> names_receipt roles receipt expected i"
    by (metis (mono_tags, lifting) filter_eq_Cons_iff in_set_conv_decomp)
  then have "exact_payment roles (required_signers message) receipt expected i" using settles_all(2) [OF g(8)] by blast
  then show ?thesis
    unfolding settlement_proven_def using r f g(1-3,5-7) i decoded_base58 [OF g(4)] by (cases loaded) (auto simp: asSlot_Inr)
qed

definition paid_receipt :: "web3 \<Rightarrow> MerchantConfig \<Rightarrow> X402PaymentReferences \<Rightarrow> Receipt \<Rightarrow> bool" where
  "paid_receipt W config references receipt \<longleftrightarrow> r_status receipt = Confirmed \<and> r_onChainStatus receipt = 1 \<and>
     deriveReceiptAddress W (r_mandate receipt) (r_invoiceHash receipt) (mg_programId config) = Inr (r_address receipt) \<and>
     bytesToHex (r_invoiceHash receipt) = xr_invoiceHash references \<and> bytesToHex (r_paymentId receipt) = xr_paymentId references \<and>
     bytesToHex (r_signatureReference receipt) = xr_signatureReference references \<and> r_mint receipt = mg_mint config \<and>
     r_recipient receipt = mg_recipient config \<and> r_recipientTokenAccount receipt = mg_recipient config \<and>
     r_amount receipt = text_int (mg_amount config) \<and> r_agent receipt = mg_allowedAgent config"

lemma answered_eq_Inr: "answered a = Inr v \<longleftrightarrow> a = Inr v"
  by (cases a rule: answered.cases) auto

lemma verified_proof:
  assumes "verifyMerchantProof E W C config references proof receipts transactions = Inr v"
  obtains wireResult expected where "receipts (cx_receiptPDA proof) = Inr (Some (vm_receipt v))" "transactions (cx_signature proof) = Inr (Some wireResult)"
    "vm_transactionSignature v = cx_signature proof" "vm_resource v = mg_resource config" "paid_receipt W config references (vm_receipt v)"
    "r_address (vm_receipt v) = cx_receiptPDA proof" "expected_settlement W config references = Inr expected"
    "settlement_proven E W C proof (vm_receipt v) expected wireResult"
proof -
  from assms obtain receipt wireResult expected u where
    f: "receipts (cx_receiptPDA proof) = Inr (Some receipt)" "paid_receipt W config references receipt" "r_address receipt = cx_receiptPDA proof"
      "transactions (cx_signature proof) = Inr (Some wireResult)" "expected_settlement W config references = Inr expected"
      "validateSettlementTransaction E W C wireResult proof receipt expected = Inr u"
      "v = \<lparr>vm_receipt = receipt, vm_transactionSignature = cx_signature proof, vm_resource = mg_resource config\<rparr>"
    unfolding verifyMerchantProof_def bindR_eq_Inr require_eq_Inr failing_eq_Inr answered_eq_Inr fetch_eq_Inr paid_receipt_def
    by (elim exE conjE) simp
  with that validated_settlement [OF f(6)] show thesis by simp
qed

text \<open>
  C22. The resource is served only to a payer who has paid. When the route answers with the paid content, one of the request's headers is a
  proof whose receipt is on chain, settled, at the address its mandate and invoice derive, and pays this merchant's price in this
  merchant's token to this merchant's account, from the allowed agent, under the references of this resource; and the
  finalized transaction the proof names did not fail, ran in the receipt's slot, is signed by every required signer, and has
  exactly one \<open>execute_payment\<close> for this receipt, with exactly the accounts, roles and data of that payment.
\<close>

theorem served_only_when_paid:
  assumes "data_route E W C config references challenge receipts transactions headers = PaidData v"
  shows "\<exists>header proof wireResult expected. header \<in> {h. \<exists>name. headers name = Some h} \<and> detectAndParsePaymentHeader E W header = Inr proof \<and>
    receipts (cx_receiptPDA proof) = Inr (Some (vm_receipt v)) \<and> r_address (vm_receipt v) = cx_receiptPDA proof \<and>
    paid_receipt W config references (vm_receipt v) \<and>
    transactions (cx_signature proof) = Inr (Some wireResult) \<and> vm_transactionSignature v = cx_signature proof \<and>
    expected_settlement W config references = Inr expected \<and> settlement_proven E W C proof (vm_receipt v) expected wireResult"
proof -
  define given where "given = concat (map (\<lambda>name. case given_text (headers name) of Some h \<Rightarrow> [h] | None \<Rightarrow> [])
    [''payment-signature'', ''x-payment'', ''payment-required''])"
  define header where "header = (case headers ''x-payment'' of Some h \<Rightarrow> h | None \<Rightarrow> hd given)"
  note route = assms [unfolded data_route_def Let_def, folded given_def, folded header_def]
  from route have "given \<noteq> []" by (auto split: if_splits)
  then have "hd given \<in> set given" by simp
  then have "\<exists>name. headers name = Some (hd given)"
    by (auto simp: given_def given_text_def split: option.splits if_splits)
  then have from_request: "\<exists>name. headers name = Some header" by (auto simp: header_def split: option.splits)
  from route obtain q where p: "detectAndParsePaymentHeader E W header = Inr q"
    "verifyMerchantProof E W C config references q receipts transactions = Inr v"
    by (auto simp: publicProofErrorBody_def bindR_eq_Inr split: if_splits sum.split_asm)
  from p(2) show ?thesis by (rule verified_proof) (use p(1) from_request in blast)
qed

section \<open>The challenge and its payer\<close>

lemma canonical_digits: "CANONICAL_UINT t \<Longrightarrow> jstr (int_dec (text_int t)) = t"
proof -
  assume t: "CANONICAL_UINT t"
  define s where "s = text_string t"
  have s: "t = jstr s"
    using t unfolding s_def text_string_def jstr_def CANONICAL_UINT_def digits_text_def list_all_iff cp_digit_def
    by (auto intro!: map_idI [symmetric])
  then have digits: "is_digits s" using t digits_jstr by (auto simp: CANONICAL_UINT_def)
  have "s = ''0'' \<or> hd s \<noteq> CHR ''0''"
    using t s digits by (cases s) (auto simp: CANONICAL_UINT_def jstr_def is_digits_def)
  moreover have "nat_dec 0 = ''0''" by code_simp
  ultimately have "nat_dec (radix_val 10 s) = s"
    using nat_dec_of_digits [OF digits] by (auto simp: radix_val_def)
  moreover have "text_int t = int (radix_val 10 s)"
    using s digits text_int_jstr [of s] by (simp add: is_digits_def dec_val_def)
  ultimately show ?thesis using s by (simp add: int_dec_def)
qed

lemma amount_accepted: "amount_ok t \<Longrightarrow> canonicalU64String (Some (JStr t)) name False = Inr t"
  using canonical_digits [of t] by (auto simp: amount_ok_def canonicalU64String_def text_int_def)

lemma resource_accepted: "resource_ok X expected r \<Longrightarrow> resourceBinding X r expected = Inr r"
  by (auto simp: resource_ok_def resourceBinding_def boundedString_def split: option.splits)

text \<open>What \<open>loadMerchantConfig\<close> guarantees of the terms, and that the resource is one the payer asked for.\<close>

definition visible_address :: "web3 \<Rightarrow> address \<Rightarrow> bool" where
  "visible_address W a \<longleftrightarrow> canonical_address W a \<and> js_trim (jstr a) \<noteq> []"

definition terms_ok :: "web3 \<Rightarrow> wire \<Rightarrow> jstext option \<Rightarrow> MerchantConfig \<Rightarrow> bool" where
  "terms_ok W X expected config \<longleftrightarrow> visible_address W (mg_mint config) \<and> visible_address W (mg_recipient config) \<and> amount_ok (mg_amount config) \<and>
     resource_ok X expected (mg_resource config) \<and> pred_option (\<lambda>n. n \<noteq> [] \<and> js_trim n = n \<and> units n \<le> MAX_NONCE_CHARS) (mg_nonce config)"

lemma address_accepted: "visible_address W a \<Longrightarrow> challengeAddress W (Some (JStr (jstr a))) name = Inr a"
  by (simp add: visible_address_def canonical_address_def challengeAddress_def)

lemma custom_accept_fields:
  "field (custom_accept config) ''scheme'' = Some (JStr (jstr ''exact''))" "field (custom_accept config) ''network'' = Some (JStr (jstr ''solana-devnet''))"
  "field (custom_accept config) ''maxAmountRequired'' = Some (JStr (mg_amount config))" "field (custom_accept config) ''amount'' = None"
  "field (custom_accept config) ''asset'' = Some (JStr (jstr (mg_mint config)))" "field (custom_accept config) ''mint'' = None"
  "field (custom_accept config) ''payTo'' = Some (JStr (jstr (mg_recipient config)))" "field (custom_accept config) ''recipient'' = None"
  "field (custom_accept config) ''resource'' = Some (JStr (mg_resource config))"
  "field (custom_accept config) ''tokenProgram'' = Some (JStr (token_program_text (mg_tokenProgram config)))"
  "field (custom_accept config) ''nonce'' = map_option JStr (given_text (mg_nonce config))" "field (custom_accept config) ''expiresAtSlot'' = None"
  by (simp_all add: field_def custom_accept_def jstr_inject optional_member_def split: option.splits)

lemma program_accepted: "challenge_program (Some (JStr (token_program_text t))) = Inr (Some t)"
  by (cases t) (simp_all add: challenge_program_def is_text_def jstr_inject)

text \<open>The payment option the payer reads.\<close>

definition offered :: "MerchantConfig \<Rightarrow> CustomChallengeOption" where
  "offered config = \<lparr>co_mint = mg_mint config, co_recipient = mg_recipient config, co_amount = mg_amount config, co_resource = mg_resource config,
     co_tokenProgram = Some (mg_tokenProgram config), co_nonce = given_text (mg_nonce config), co_expiresAtSlot = None\<rparr>"

lemma custom_option_accepted:
  assumes "terms_ok W X expected config"
  shows "parseCustomOption W X (custom_accept config) expected = Inr (offered config)"
proof -
  note ok = assms [unfolded terms_ok_def]
  have nonce: "if_given (map_option JStr (given_text (mg_nonce config)))
      (bindR (boundedString (map_option JStr (given_text (mg_nonce config))) ''nonce'' MAX_NONCE_CHARS) (\<lambda>n. Inr (js_trim n))) = Inr (given_text (mg_nonce config))"
    using ok by (cases "mg_nonce config") (auto simp: if_given_def given_text_def boundedString_def)
  show ?thesis
    using ok nonce
    by (simp add: parseCustomOption_def Let_def custom_accept_fields is_text_def CUSTOM_NETWORK_def conflicting_def coalesce_def address_accepted
        resource_accepted customAmount_def amount_accepted program_accepted offered_def) (simp add: if_given_def)
qed

text \<open>The envelope of the challenge.\<close>

definition custom_envelope_of :: "MerchantConfig \<Rightarrow> document" where
  "custom_envelope_of config = [(jstr ''version'', JStr (jstr CUSTOM_X402_VERSION)), (jstr ''accepts'', JArr [JObj (custom_accept config)])]"

lemma custom_challenge_parsed:
  assumes "terms_ok W X expected config"
  shows "parsePaymentRequiredDocument W X (customPaymentRequired config) expected = Inr (Custom (offered config) (custom_envelope_of config))"
proof -
  let ?e = "custom_envelope_of config"
  have fields: "field ?e ''version'' = Some (JStr (jstr CUSTOM_X402_VERSION))" "field ?e ''accepts'' = Some (JArr [JObj (custom_accept config)])"
    "field ?e ''x402Version'' = None" "field ?e ''paymentRequired'' = None"
    by (simp_all add: field_def custom_envelope_of_def jstr_inject)
  have "acceptRecords [JObj (custom_accept config)] = Inr [custom_accept config]" by (simp add: acceptRecords_def MAX_ACCEPTS_def)
  moreover have "selectCustomAccept [custom_accept config] = Inr (custom_accept config)"
    by (simp add: selectCustomAccept_def custom_accept_fields is_text_def CUSTOM_NETWORK_def)
  ultimately have "parseCustomEnvelope W X ?e expected = Inr (Custom (offered config) ?e)"
    using custom_option_accepted [OF assms] by (simp add: parseCustomEnvelope_def fields)
  moreover have "customPaymentRequired config = JObj ?e" by (simp add: customPaymentRequired_def custom_envelope_of_def)
  ultimately show ?thesis by (simp add: parsePaymentRequiredDocument.simps [of W X "JObj ?e"] fields is_text_def)
qed

text \<open>
  C24. Payer and merchant agree on what is owed. The challenge a merchant of the custom flow sends, in the header and in the body, is detected by
  the payer as one custom challenge with the merchant's token, account, price, resource and token program, and the references
  the payer derives from it are the references the merchant will look for in the receipt.
\<close>

theorem merchant_challenge_accepted:
  assumes "terms_ok W X expected config" and "mg_challengeShape config = CustomShape"
    and "paymentRequiredForConfig config = Inr challenge"
    and "headers ''payment-required'' = None" and "headers ''x-payment-required'' = Some h" and "decodePaymentRequiredWire X h = Inr challenge"
  shows "detectPaymentChallenge W X headers (Some challenge) expected = Inr (Custom (offered config) (custom_envelope_of config)) \<and>
    co_tokenProgram (offered config) = Some (mg_tokenProgram config) \<and>
    (let f = customChallengeToPrepareFields C (offered config) (mg_tokenProgram config); r = merchant_references C config in
     xf_mint f = mg_mint config \<and> xf_recipient f = mg_recipient config \<and> xf_amount f = mg_amount config \<and> xf_resource f = mg_resource config \<and>
     xf_tokenProgram f = mg_tokenProgram config \<and> xf_invoiceHash f = xr_invoiceHash r \<and> xf_paymentId f = xr_paymentId r \<and>
     xf_signatureReference f = xr_signatureReference r)"
proof -
  have challenge: "challenge = customPaymentRequired config" using assms(2,3) by (simp add: paymentRequiredForConfig_def)
  have "h \<noteq> []" using assms(6) by (auto simp: decodePaymentRequiredWire_def)
  then have "paymentRequiredDocumentsFromResponse X headers (Some challenge) = Inr [challenge]"
    using assms(4-6) by (simp add: paymentRequiredDocumentsFromResponse_def)
  then have "detectPaymentChallenge W X headers (Some challenge) expected = Inr (Custom (offered config) (custom_envelope_of config))"
    using custom_challenge_parsed [OF assms(1)] by (simp add: detectPaymentChallenge_def detectAndParsePaymentRequired_def challenge)
  moreover have "given_text (given_text v) = given_text v" "given_text None = None" for v by (simp_all add: given_text_def)
  ultimately show ?thesis
    by (simp add: offered_def customChallengeToPrepareFields_def prepare_fields_def merchant_references_def Let_def)
qed

text \<open>A compiled instruction with the program, keys and data of a built one.\<close>

definition key_role :: "AccountMeta \<Rightarrow> AccountRole" where
  "key_role k = \<lparr>ar_address = meta_address k, ar_isSigner = isSigner k, ar_isWritable = isWritable k\<rparr>"

definition compiles_to :: "AccountRole list \<Rightarrow> ChainPayInstruction \<Rightarrow> CompiledInstruction \<Rightarrow> bool" where
  "compiles_to roles ix i \<longleftrightarrow> 0 \<le> ci_programAddressIndex i \<and> ci_programAddressIndex i < int (length roles) \<and>
     ar_address (roles ! nat (ci_programAddressIndex i)) = ix_programId ix \<and> ci_data i = ix_data ix \<and>
     list_all (\<lambda>j. 0 \<le> j \<and> j < int (length roles)) (ci_accountIndices i) \<and>
     map (\<lambda>j. roles ! nat j) (ci_accountIndices i) = map key_role (ix_keys ix)"

text \<open>The receipt the program writes for a payment of a mandate.\<close>

definition receipt_of :: "web3 \<Rightarrow> address \<Rightarrow> PaymentRequest \<Rightarrow> Mandate \<Rightarrow> Receipt \<Rightarrow> bool" where
  "receipt_of W programId request M receipt \<longleftrightarrow> r_mandate receipt = m_address M \<and> r_sourceTokenAccount receipt = m_sourceTokenAccount M \<and>
     r_amount receipt = q_amount request \<and> deriveReceiptAddress W (m_address M) (q_invoiceHash request) programId = Inr (r_address receipt)"

lemma derived_canonical:
  assumes "web3_ok W"
  shows "deriveConfigAddress W p = Inr a \<Longrightarrow> address W a = Inr a" "deriveAssetAddress W m p = Inr b \<Longrightarrow> address W b = Inr b"
    "deriveReceiptAddress W m h p = Inr c \<Longrightarrow> address W c = Inr c"
  using pda_canonical [OF assms] by (auto simp: deriveConfigAddress_def deriveAssetAddress_def deriveReceiptAddress_def)

lemma built_keys:
  assumes W: "web3_ok W" and build: "buildExecutePaymentInstruction W request agent M programId = Inr ix"
    and canonical: "list_all (canonical_address W) [programId, agent, m_address M, m_sourceTokenAccount M, q_mint request, q_recipient request, tokenProgramAddress tp]"
    and tp: "q_tokenProgram request = Some tp" and mint: "m_allowedMint M = q_mint request"
    and receipt: "receipt_of W programId request M receipt" and e: "deriveConfigAddress W programId = Inr (se_configPda e)"
      "deriveAssetAddress W (q_mint request) programId = Inr (se_assetPda e)" "se_agent e = agent" "se_mint e = q_mint request"
      "se_recipient e = q_recipient request" "se_tokenProgram e = tokenProgramAddress tp"
  shows "map key_role (ix_keys ix) = settlement_accounts receipt e" and "ix_programId ix = programId"
    and "encodePayment (q_invoiceHash request) (q_paymentId request) (q_signatureReference request) (q_amount request) = Inr (ix_data ix)"
proof -
  note can = canonical [unfolded canonical_address_def list.pred_inject]
  have system: "address W SYSTEM_PROGRAM_ID = Inr SYSTEM_PROGRAM_ID"
    using W address_base58 [OF W, of "replicate 32 0"] by (simp add: web3_ok_def)
  have accounts: "deriveReceiptAddress W (m_address M) (q_invoiceHash request) programId = Inr (r_address receipt)"
    "r_mandate receipt = m_address M" "r_sourceTokenAccount receipt = m_sourceTokenAccount M"
    using receipt by (simp_all add: receipt_of_def)
  note derived = derived_canonical(1) [OF W e(1)] derived_canonical(2) [OF W e(2)] derived_canonical(3) [OF W accounts(1)]
  note built = build [unfolded buildExecutePaymentInstruction_def bindR_eq_Inr instruction_eq_Inr tp mint e(1,2) accounts(1)]
  show "map key_role (ix_keys ix) = settlement_accounts receipt e" and "ix_programId ix = programId"
    and "encodePayment (q_invoiceHash request) (q_paymentId request) (q_signatureReference request) (q_amount request) = Inr (ix_data ix)"
    using built can by (auto simp: meta_def derived system key_role_def settlement_accounts_def accounts e)
qed

lemma offered_request:
  assumes "toPreparePaymentInput mandate (customChallengeToPrepareFields C (offered config) (mg_tokenProgram config)) = Inr request"
    and "expected_settlement W config (merchant_references C config) = Inr expected" and "mg_programId config \<noteq> []"
  shows "q_mint request = mg_mint config" "q_recipient request = mg_recipient config" "q_tokenProgram request = Some (mg_tokenProgram config)"
    "q_amount request = text_int (mg_amount config)" "q_invoiceHash request = se_invoiceHash expected" "q_paymentId request = se_paymentId expected"
    "q_signatureReference request = se_signatureReference expected" "se_programId expected = mg_programId config"
    "deriveConfigAddress W (mg_programId config) = Inr (se_configPda expected)" "deriveAssetAddress W (mg_mint config) (mg_programId config) = Inr (se_assetPda expected)"
    "se_agent expected = mg_allowedAgent config" "se_mint expected = mg_mint config" "se_recipient expected = mg_recipient config"
    "se_tokenProgram expected = tokenProgramAddress (mg_tokenProgram config)" "se_amount expected = text_int (mg_amount config)"
proof -
  have "given_text (given_text v) = given_text v" "given_text None = None" for v by (simp_all add: given_text_def)
  note request = assms(1) [unfolded customChallengeToPrepareFields_def prepared_references offered_def CustomChallengeOption.select_convs this,
      folded merchant_references_def]
  show "q_mint request = mg_mint config" "q_recipient request = mg_recipient config" "q_tokenProgram request = Some (mg_tokenProgram config)"
    "q_amount request = text_int (mg_amount config)" "q_invoiceHash request = se_invoiceHash expected" "q_paymentId request = se_paymentId expected"
    "q_signatureReference request = se_signatureReference expected" "se_programId expected = mg_programId config"
    "deriveConfigAddress W (mg_programId config) = Inr (se_configPda expected)" "deriveAssetAddress W (mg_mint config) (mg_programId config) = Inr (se_assetPda expected)"
    "se_agent expected = mg_allowedAgent config" "se_mint expected = mg_mint config" "se_recipient expected = mg_recipient config"
    "se_tokenProgram expected = tokenProgramAddress (mg_tokenProgram config)" "se_amount expected = text_int (mg_amount config)"
    using request assms(2,3) by (auto simp: expected_settlement_def bindR_eq_Inr)
qed

text \<open>
  C23. A payer who follows the challenge is recognised. The instruction the SDK builds for the request it made of the challenge, compiled into a
  message with the agent among its signers, is an instruction the merchant counts as the settlement of the receipt the program
  writes for it.
\<close>

theorem built_payment_recognised:
  assumes W: "web3_ok W"
    and request: "toPreparePaymentInput mandate (customChallengeToPrepareFields C (offered config) (mg_tokenProgram config)) = Inr request"
    and build: "buildExecutePaymentInstruction W request (mg_allowedAgent config) M (mg_programId config) = Inr ix"
    and mint: "m_allowedMint M = mg_mint config" and program: "mg_programId config \<noteq> []"
    and canonical: "list_all (canonical_address W) [mg_programId config, mg_allowedAgent config, m_address M, m_sourceTokenAccount M, mg_mint config,
      mg_recipient config, tokenProgramAddress (mg_tokenProgram config)]"
    and receipt: "receipt_of W (mg_programId config) request M receipt"
    and expected: "expected_settlement W config (merchant_references C config) = Inr expected"
    and compiled: "compiles_to roles ix i" and signer: "mg_allowedAgent config \<in> set signers"
  shows "settles roles signers receipt expected i = Inr True"
proof -
  note r = offered_request [OF request expected program]
  have "list_all (canonical_address W) [mg_programId config, mg_allowedAgent config, m_address M, m_sourceTokenAccount M, q_mint request,
      q_recipient request, tokenProgramAddress (mg_tokenProgram config)]" and "m_allowedMint M = q_mint request"
    using canonical mint by (simp_all add: r)
  from built_keys [OF W build this(1) r(3) this(2) receipt, of expected]
  have keys: "map key_role (ix_keys ix) = settlement_accounts receipt expected" "ix_programId ix = mg_programId config"
    "encodePayment (q_invoiceHash request) (q_paymentId request) (q_signatureReference request) (q_amount request) = Inr (ix_data ix)"
    by (simp_all add: r)
  have encoded: "request_wf request" "ix_data ix = DISC_executePayment @ ser_PaymentParams (payment_params request)"
    using keys(3) [unfolded encodePayment_ser] by simp_all
  then have "uint (word_of_int (q_amount request) :: u64) = r_amount receipt"
    using receipt by (simp add: request_wf_def u64_ok_def receipt_of_def take_bit_int_eq_self unsigned_of_int)
  with encoded have wf: "request_wf request" and data: "ix_data ix = payment_data receipt expected"
    by (simp_all add: ser_PaymentParams_def payment_params_def payment_data_def r(5-7) ser_u64_def)
  note c = compiled [unfolded compiles_to_def keys(1,2) data]
  have len: "length (ci_accountIndices i) = 10" using c by (metis length_map length_settlement_accounts)
  have "ar_address (roles ! nat (ci_accountIndices i ! 3)) = r_address receipt"
  proof -
    have "map (\<lambda>j. roles ! nat j) (ci_accountIndices i) ! 3 = roles ! nat (ci_accountIndices i ! 3)" using len by simp
    moreover have "map (\<lambda>j. roles ! nat j) (ci_accountIndices i) = settlement_accounts receipt expected" using c by blast
    ultimately have "roles ! nat (ci_accountIndices i ! 3) = settlement_accounts receipt expected ! 3" by simp
    then show ?thesis by (simp add: settlement_accounts_def)
  qed
  moreover have "take 10 (ci_accountIndices i) = ci_accountIndices i" using len by simp
  ultimately have "exact_payment roles signers receipt expected i"
    using c len wf signer receipt by (simp add: exact_payment_def names_receipt_def payment_data_def r receipt_of_def request_wf_def)
  then show ?thesis
    by (rule settles_exact) (use wf receipt in \<open>simp_all add: request_wf_def r receipt_of_def u64_ok_def\<close>)
qed

text \<open>The proof the SDK prints is the proof the merchant reads.\<close>

lemma proof_document_read:
  assumes "decodeCanonicalBase58 E (jstr signature) 64 = Inr b" and "canonicalPublicKey W (jstr receiptPDA) = Inr receiptPDA"
  shows "detectPaymentProtocol E W (customReceiptProofDocument signature receiptPDA) =
    CustomPayment \<lparr>cx_signature = jstr signature, cx_receiptPDA = receiptPDA\<rparr>"
  using assms by (simp add: detectPaymentProtocol_def customReceiptProofDocument_def parseCustomObject_def exactKeys_def field_def is_text_def
      jstr_inject CUSTOM_NETWORK_def)

section \<open>A merchant and a paid request\<close>

definition party :: "byte \<Rightarrow> address" where "party n = to_base58 sample_web3 (replicate 32 n)"

definition sample_merchant :: MerchantConfig where
  "sample_merchant = \<lparr>mg_resource = jstr ''https://m/a'', mg_mint = party 4, mg_recipient = party 5, mg_merchantOwner = None, mg_amount = jstr ''5'',
     mg_tokenProgram = SplToken, mg_allowedAgent = party 6, mg_programId = party 9, mg_nonce = None, mg_challengeShape = CustomShape\<rparr>"

definition merchant_crypto :: crypto where
  "merchant_crypto = \<lparr>cr_sha256 = (\<lambda>m. take 32 (m @ replicate 32 0)), cr_verify = (\<lambda>key sig msg. sig = replicate 64 1)\<rparr>"

abbreviation sample_terms :: X402PaymentReferences where
  "sample_terms \<equiv> merchant_references merchant_crypto sample_merchant"

text \<open>The bytes of a reference.\<close>

definition unhex :: "string \<Rightarrow> bytes" where
  "unhex s = (case hexToBytes s [] of Inr b \<Rightarrow> b | Inl _ \<Rightarrow> [])"

definition sample_receipt_address :: address where
  "sample_receipt_address = to_base58 sample_web3 (sample_pda [str_bytes ''receipt'', replicate 32 7, unhex (xr_invoiceHash sample_terms)])"

definition sample_paid_receipt :: Receipt where
  "sample_paid_receipt = \<lparr>r_address = sample_receipt_address, r_mandate = party 7, r_invoiceHash = unhex (xr_invoiceHash sample_terms),
     r_paymentId = unhex (xr_paymentId sample_terms), r_mint = party 4, r_recipient = party 5, r_sourceTokenAccount = party 8, r_recipientTokenAccount = party 5,
     r_amount = 5, r_agent = party 6, r_executedAtSlot = 77, r_signatureReference = unhex (xr_signatureReference sample_terms), r_status = Confirmed,
     r_onChainStatus = 1, r_bump = 255, r_transactionSignature = None, r_policySnapshot = None\<rparr>"

definition sample_settlement :: SettlementExpectation where
  "sample_settlement = \<lparr>se_programId = party 9, se_mint = party 4, se_recipient = party 5, se_amount = 5, se_agent = party 6,
     se_tokenProgram = SPL_TOKEN_PROGRAM_ID, se_configPda = to_base58 sample_web3 (sample_pda [str_bytes ''config'']),
     se_assetPda = to_base58 sample_web3 (sample_pda [str_bytes ''asset'', replicate 32 4]), se_invoiceHash = unhex (xr_invoiceHash sample_terms),
     se_paymentId = unhex (xr_paymentId sample_terms), se_signatureReference = unhex (xr_signatureReference sample_terms)\<rparr>"

definition sample_message :: DecodedMessage where
  "sample_message = \<lparr>dm_version = LegacyMessage, dm_numSignerAccounts = 1, dm_numReadonlySignerAccounts = 0, dm_numReadonlyNonSignerAccounts = 6,
     dm_staticAccounts = [party 6, party 7, sample_receipt_address, party 8, party 5, se_configPda sample_settlement, se_assetPda sample_settlement, party 4,
       SPL_TOKEN_PROGRAM_ID, SYSTEM_PROGRAM_ID, party 9],
     dm_instructions = Some [\<lparr>ri_programAddressIndex = 10, ri_accountIndices = Some [5, 6, 1, 2, 0, 7, 3, 4, 8, 9],
       ri_data = Some (payment_data sample_paid_receipt sample_settlement)\<rparr>],
     dm_instructionHeaders = None, dm_instructionPayloads = None, dm_numInstructions = None, dm_addressTableLookups = None\<rparr>"

definition sample_transaction :: Transaction where
  "sample_transaction = \<lparr>tx_signatures = (\<lambda>_. Some (replicate 64 1)), tx_messageBytes = [2]\<rparr>"

definition sample_node :: node where
  "sample_node = \<lparr>n_wire = sample_wire\<lparr>w_json := (\<lambda>t. Some (customReceiptProofDocument ''sig'' sample_receipt_address))\<rparr>, n_base64 = (\<lambda>_. [1]),
     n_bs58_decode = (\<lambda>_. Some (replicate 64 1)), n_bs58_encode = (\<lambda>_. jstr ''sig''),
     n_decode_transaction = (\<lambda>_. Some sample_transaction), n_encode_transaction = (\<lambda>_. [1]), n_decode_message = (\<lambda>_. Some sample_message),
     n_encode_message = (\<lambda>_. [2])\<rparr>"

definition sample_answer :: json where
  "sample_answer = JObj [(jstr ''meta'', JObj [(jstr ''err'', JNull)]), (jstr ''slot'', JNum (NInt 77)),
     (jstr ''transaction'', JArr [JStr (jstr ''AQ''), JStr (jstr ''base64'')])]"

lemma units_jstr [simp]: "units (jstr s) = length s"
proof -
  have "of_char c < (0x10000 :: nat)" for c using nat_of_char_less_256 [of c] by (rule less_trans) simp
  then show ?thesis by (induction s) (auto simp: units_def jstr_def not_le)
qed

lemma length_sample_text: "length b = 32 \<Longrightarrow> sample_text b \<noteq> [] \<and> length (sample_text b) \<le> 64"
proof (cases "find (\<lambda>s. sample_key s = b) known_ids")
  case (Some s)
  assume "length b = 32"
  from Some have "s \<in> set known_ids" by (auto simp: find_Some_iff)
  with Some show ?thesis
    by (auto simp: sample_text_def known_ids_def SYSTEM_PROGRAM_ID_def SPL_TOKEN_PROGRAM_ID_def TOKEN_2022_PROGRAM_ID_def ASSOCIATED_TOKEN_PROGRAM_ID_def
        DEFAULT_PROGRAM_ID_def)
qed (simp add: sample_text_def)

lemma sample_key_accepted: "length b = 32 \<Longrightarrow> canonicalPublicKey sample_web3 (jstr (to_base58 sample_web3 b)) = Inr (to_base58 sample_web3 b)"
  using length_sample_text [of b] by (simp add: canonicalPublicKey_def) (simp add: sample_web3_def jstr_def)

lemma spl_text: "to_base58 sample_web3 (sample_key SPL_TOKEN_PROGRAM_ID) = SPL_TOKEN_PROGRAM_ID"
  by (simp add: sample_web3_def sample_text_def known_ids_def sample_key_def SYSTEM_PROGRAM_ID_def SPL_TOKEN_PROGRAM_ID_def str_bytes_def)
    (auto dest: arg_cong [where f = hd])

lemma system_text: "to_base58 sample_web3 (replicate 32 0) = SYSTEM_PROGRAM_ID"
  using sample_web3_ok by (simp add: web3_ok_def)

lemma spl_key: "length (sample_key SPL_TOKEN_PROGRAM_ID) = 32"
  by (rule length_sample_key) simp

lemma party_accepted [simp]: "canonicalPublicKey sample_web3 (jstr (party n)) = Inr (party n)" "address sample_web3 (party n) = Inr (party n)"
  "publicKey sample_web3 (party n) = Inr (replicate 32 n)"
  by (simp_all add: party_def sample_key_accepted)

lemma programs_accepted [simp]: "canonicalPublicKey sample_web3 (jstr SPL_TOKEN_PROGRAM_ID) = Inr SPL_TOKEN_PROGRAM_ID"
  "canonicalPublicKey sample_web3 (jstr SYSTEM_PROGRAM_ID) = Inr SYSTEM_PROGRAM_ID"
  using sample_key_accepted [OF spl_key] sample_key_accepted [of "replicate 32 0"] by (simp_all add: spl_text system_text)

lemma digest_hex: "hexToBytes (text_sha256 merchant_crypto t) n = Inr (cr_sha256 merchant_crypto (utf8 t))"
  "length (cr_sha256 merchant_crypto m) = 32" "bytesToHex (cr_sha256 merchant_crypto (utf8 t)) = text_sha256 merchant_crypto t"
proof -
  show len: "length (cr_sha256 merchant_crypto m) = 32" for m by (simp add: merchant_crypto_def)
  show hex: "bytesToHex (cr_sha256 merchant_crypto (utf8 t)) = text_sha256 merchant_crypto t" for t
    by (simp add: bytesToHex_eq text_sha256_def sha256Hex_def)
  show "hexToBytes (text_sha256 merchant_crypto t) n = Inr (cr_sha256 merchant_crypto (utf8 t))"
    using hex_roundtrip [OF len, of "utf8 t" n] by (simp add: hex)
qed

lemma sample_hexes:
  assumes "s \<in> {xr_invoiceHash sample_terms, xr_paymentId sample_terms, xr_signatureReference sample_terms}"
  shows "hexToBytes s n = Inr (unhex s)" "length (unhex s) = 32" "bytesToHex (unhex s) = s"
proof -
  from assms obtain t where "s = text_sha256 merchant_crypto t"
    by (auto simp: merchant_references_def deriveX402PaymentReferences_def Let_def)
  then show "hexToBytes s n = Inr (unhex s)" "length (unhex s) = 32" "bytesToHex (unhex s) = s"
    by (simp_all add: unhex_def digest_hex)
qed

lemma sample_expected: "expected_settlement sample_web3 sample_merchant sample_terms = Inr sample_settlement"
proof -
  have "text_int (jstr ''5'') = 5" by (simp add: text_int_def jstr_def)
  moreover have "party 9 \<noteq> []" using length_sample_text [of "replicate 32 9"] by (simp add: party_def sample_web3_def)
  ultimately show ?thesis
    by (simp add: expected_settlement_def sample_merchant_def sample_settlement_def deriveConfigAddress_def deriveAssetAddress_def pda_def sample_hexes)
qed

definition sample_roles :: "AccountRole list" where
  "sample_roles = map (\<lambda>(a, s, w). \<lparr>ar_address = a, ar_isSigner = s, ar_isWritable = w\<rparr>)
     [(party 6, True, True), (party 7, False, True), (sample_receipt_address, False, True), (party 8, False, True), (party 5, False, True),
      (se_configPda sample_settlement, False, False), (se_assetPda sample_settlement, False, False), (party 4, False, False),
      (SPL_TOKEN_PROGRAM_ID, False, False), (SYSTEM_PROGRAM_ID, False, False), (party 9, False, False)]"

lemma derived_accepted: "canonicalPublicKey sample_web3 (jstr sample_receipt_address) = Inr sample_receipt_address"
  "canonicalPublicKey sample_web3 (jstr (se_configPda sample_settlement)) = Inr (se_configPda sample_settlement)"
  "canonicalPublicKey sample_web3 (jstr (se_assetPda sample_settlement)) = Inr (se_assetPda sample_settlement)"
  by (simp_all add: sample_receipt_address_def sample_settlement_def sample_key_accepted)

lemma sample_resolved: "resolveAccounts sample_web3 sample_message ([], []) = Inr sample_roles"
  by (simp add: resolveAccounts_def Let_def static_roles_def static_role_def sample_message_def derived_accepted sample_roles_def MAX_ACCOUNT_KEYS_def)

lemma sample_signers: "required_signers sample_message = [party 6]"
  by (simp add: required_signers_def sample_message_def)

lemma sample_settles:
  "settles sample_roles [party 6] sample_paid_receipt sample_settlement
     (raw_instruction \<lparr>ri_programAddressIndex = 10, ri_accountIndices = Some [5, 6, 1, 2, 0, 7, 3, 4, 8, 9],
        ri_data = Some (payment_data sample_paid_receipt sample_settlement)\<rparr>) = Inr True"
proof (rule settles_exact)
  have "length (payment_data sample_paid_receipt sample_settlement) = 112"
    by (simp add: payment_data_def sample_settlement_def sample_hexes)
  moreover have "take 8 (payment_data sample_paid_receipt sample_settlement) = DISC_executePayment"
    by (simp add: payment_data_def)
  moreover have "settlement_accounts sample_paid_receipt sample_settlement = map (\<lambda>j. sample_roles ! nat j) [5, 6, 1, 2, 0, 7, 3, 4, 8, 9]"
    by (simp add: settlement_accounts_def sample_roles_def sample_paid_receipt_def sample_settlement_def)
  ultimately show "exact_payment sample_roles [party 6] sample_paid_receipt sample_settlement
     (raw_instruction \<lparr>ri_programAddressIndex = 10, ri_accountIndices = Some [5, 6, 1, 2, 0, 7, 3, 4, 8, 9],
        ri_data = Some (payment_data sample_paid_receipt sample_settlement)\<rparr>)"
    by (simp add: exact_payment_def names_receipt_def raw_instruction_def sample_roles_def)
      (simp add: sample_settlement_def sample_paid_receipt_def)
qed (simp_all add: sample_settlement_def sample_paid_receipt_def sample_hexes)

lemma sample_validated:
  "validateSettlementTransaction sample_node sample_web3 merchant_crypto sample_answer
     \<lparr>cx_signature = jstr ''sig'', cx_receiptPDA = sample_receipt_address\<rparr> sample_paid_receipt sample_settlement = Inr ()"
proof -
  have decoded: "decodeSupportedTransaction sample_node [1] = Inr (sample_transaction, sample_message)"
    by (simp add: decodeSupportedTransaction_def sample_node_def sample_transaction_def)
  have "compiledInstructions sample_message = Inr [raw_instruction \<lparr>ri_programAddressIndex = 10, ri_accountIndices = Some [5, 6, 1, 2, 0, 7, 3, 4, 8, 9],
      ri_data = Some (payment_data sample_paid_receipt sample_settlement)\<rparr>]"
    by (simp add: compiledInstructions_def sample_message_def MAX_INSTRUCTIONS_def)
  moreover have "signed_by merchant_crypto sample_web3 sample_transaction (party 6)"
    by (simp add: signed_by_def sample_transaction_def verifyMessageSignature_def merchant_crypto_def list_all_iff)
  moreover have "decodeCanonicalBase58 sample_node (jstr ''sig'') 64 = Inr (replicate 64 1)"
    by (simp add: decodeCanonicalBase58_def sample_node_def) (simp add: jstr_def)
  ultimately have "settles_once sample_node sample_web3 merchant_crypto [(jstr ''err'', JNull)]
      \<lparr>cx_signature = jstr ''sig'', cx_receiptPDA = sample_receipt_address\<rparr> sample_paid_receipt sample_settlement (sample_transaction, sample_message) = Inr ()"
    using sample_settles
    by (simp add: settles_once_def Let_def sample_signers sample_resolved loadedAddressLists_def field_def jstr_inject) (simp add: sample_transaction_def)
  moreover have "wire_text (Some (JArr [JStr (jstr ''AQ''), JStr (jstr ''base64'')])) = Inr (jstr ''AQ'')"
    by (simp add: wire_text_def MAX_BASE64_WIRE_CHARS_def) (simp add: jstr_def)
  moreover have "n_base64 sample_node (jstr ''AQ'') = [1]" by (simp add: sample_node_def)
  ultimately show ?thesis using decoded
    by (simp add: validateSettlementTransaction_def sample_answer_def field_def jstr_inject asSlot_def failing_def MAX_WIRE_BYTES_def)
      (simp add: sample_paid_receipt_def)
qed

definition sample_header :: "string \<Rightarrow> jstext option" where
  "sample_header name = (if name = ''x-payment'' then Some (jstr ''{}'') else None)"

abbreviation sample_response :: DataResponse where
  "sample_response \<equiv> data_route sample_node sample_web3 merchant_crypto sample_merchant sample_terms JNull (\<lambda>_. Inr (Some sample_paid_receipt))
     (\<lambda>_. Inr (Some sample_answer)) sample_header"

lemma sample_proof_read:
  "detectAndParsePaymentHeader sample_node sample_web3 (jstr ''{}'') = Inr \<lparr>cx_signature = jstr ''sig'', cx_receiptPDA = sample_receipt_address\<rparr>"
  "inspectPaymentHeader sample_node sample_web3 (jstr ''{}'') =
     Inr (CustomPayment \<lparr>cx_signature = jstr ''sig'', cx_receiptPDA = sample_receipt_address\<rparr>)"
proof -
  have "decodeCanonicalBase58 sample_node (jstr ''sig'') 64 = Inr (replicate 64 1)"
    by (simp add: decodeCanonicalBase58_def sample_node_def) (simp add: jstr_def)
  moreover have "decodeHeaderDocument sample_node (jstr ''{}'') = Inr (customReceiptProofDocument ''sig'' sample_receipt_address)"
    by (simp add: decodeHeaderDocument_def sample_node_def MAX_HEADER_CHARS_def) (simp add: jstr_def)
  ultimately show read: "inspectPaymentHeader sample_node sample_web3 (jstr ''{}'') =
     Inr (CustomPayment \<lparr>cx_signature = jstr ''sig'', cx_receiptPDA = sample_receipt_address\<rparr>)"
    using proof_document_read derived_accepted(1) by (simp add: inspectPaymentHeader_def)
  show "detectAndParsePaymentHeader sample_node sample_web3 (jstr ''{}'') = Inr \<lparr>cx_signature = jstr ''sig'', cx_receiptPDA = sample_receipt_address\<rparr>"
    by (simp add: detectAndParsePaymentHeader_def read)
qed

lemma sample_receipt_paid: "paid_receipt sample_web3 sample_merchant sample_terms sample_paid_receipt"
proof -
  have "text_int (mg_amount sample_merchant) = 5" by (simp add: text_int_def jstr_def sample_merchant_def)
  moreover have "deriveReceiptAddress sample_web3 (party 7) (unhex (xr_invoiceHash sample_terms)) (party 9) = Inr sample_receipt_address"
    by (simp add: deriveReceiptAddress_def pda_def sample_receipt_address_def bytes32_def sample_hexes)
  moreover have "mg_programId sample_merchant = party 9" "mg_mint sample_merchant = party 4" "mg_recipient sample_merchant = party 5" "mg_allowedAgent sample_merchant = party 6"
    by (simp_all add: sample_merchant_def)
  ultimately show ?thesis by (simp add: paid_receipt_def sample_paid_receipt_def sample_hexes)
qed

lemma sample_served:
  "sample_response = PaidData \<lparr>vm_receipt = sample_paid_receipt, vm_transactionSignature = jstr ''sig'', vm_resource = mg_resource sample_merchant\<rparr>"
proof -
  have "r_address sample_paid_receipt = sample_receipt_address" "sample_answer \<noteq> JNull"
    by (simp_all add: sample_paid_receipt_def sample_answer_def)
  then have "verifyMerchantProof sample_node sample_web3 merchant_crypto sample_merchant sample_terms
      \<lparr>cx_signature = jstr ''sig'', cx_receiptPDA = sample_receipt_address\<rparr> (\<lambda>_. Inr (Some sample_paid_receipt)) (\<lambda>_. Inr (Some sample_answer)) =
      Inr \<lparr>vm_receipt = sample_paid_receipt, vm_transactionSignature = jstr ''sig'', vm_resource = mg_resource sample_merchant\<rparr>"
    using sample_receipt_paid sample_validated by (simp add: verifyMerchantProof_def paid_receipt_def failing_def sample_expected)
  moreover have "jstr ''{}'' \<noteq> []" by (simp add: jstr_def)
  ultimately show ?thesis
    by (simp add: data_route_def Let_def sample_header_def given_text_def sample_proof_read)
qed

theorem served_only_when_paid_witness:
  "\<exists>header p wireResult expected. detectAndParsePaymentHeader sample_node sample_web3 header = Inr p \<and>
     paid_receipt sample_web3 sample_merchant sample_terms sample_paid_receipt \<and>
     expected_settlement sample_web3 sample_merchant sample_terms = Inr expected \<and>
     settlement_proven sample_node sample_web3 merchant_crypto p sample_paid_receipt expected wireResult"
  using served_only_when_paid [OF sample_served] by auto

lemma sample_terms_ok: "terms_ok sample_web3 sample_wire (Some (jstr ''https://m/a'')) sample_merchant"
proof -
  have "visible_address sample_web3 (party n)" for n
    using sample_text_visible [of "replicate 32 n"] by (simp add: visible_address_def canonical_address_def) (simp add: party_def sample_web3_def)
  moreover have "resource_ok sample_wire (Some (jstr ''https://m/a'')) (jstr ''https://m/a'')"
    using sample_resource resource_bound by blast
  moreover have "amount_ok (jstr ''5'')" using sample_amount positive_amount by blast
  ultimately show ?thesis by (simp add: terms_ok_def sample_merchant_def)
qed

text \<open>A wire on which the header decodes to the challenge.\<close>

definition challenge_wire :: wire where
  "challenge_wire = sample_wire\<lparr>w_json := (\<lambda>_. Some (customPaymentRequired sample_merchant))\<rparr>"

theorem merchant_challenge_accepted_witness:
  "detectPaymentChallenge sample_web3 challenge_wire (\<lambda>name. if name = ''x-payment-required'' then Some (jstr ''e30='') else None)
     (Some (customPaymentRequired sample_merchant)) (Some (jstr ''https://m/a'')) = Inr (Custom (offered sample_merchant) (custom_envelope_of sample_merchant))"
proof -
  have "terms_ok sample_web3 challenge_wire (Some (jstr ''https://m/a'')) sample_merchant"
    using sample_terms_ok by (simp add: terms_ok_def resource_ok_def challenge_wire_def)
  moreover have "mg_challengeShape sample_merchant = CustomShape" "paymentRequiredForConfig sample_merchant = Inr (customPaymentRequired sample_merchant)"
    by (simp_all add: paymentRequiredForConfig_def sample_merchant_def)
  moreover have "decodePaymentRequiredWire challenge_wire (jstr ''e30='') = Inr (customPaymentRequired sample_merchant)"
    by (simp add: decodePaymentRequiredWire_def challenge_wire_def MAX_HEADER_CHARS_def MAX_DECODED_CHARS_def) (simp add: jstr_def)
  ultimately show ?thesis
    using merchant_challenge_accepted [of sample_web3 challenge_wire "Some (jstr ''https://m/a'')" sample_merchant "customPaymentRequired sample_merchant"
        "\<lambda>name. if name = ''x-payment-required'' then Some (jstr ''e30='') else None" "jstr ''e30=''" merchant_crypto] by simp
qed

definition sample_payer :: PaymentRequest where
  "sample_payer = \<lparr>q_mandate = party 7, q_invoiceHash = unhex (xr_invoiceHash sample_terms), q_paymentId = unhex (xr_paymentId sample_terms),
     q_signatureReference = unhex (xr_signatureReference sample_terms), q_mint = party 4, q_recipient = party 5, q_amount = 5, q_tokenProgram = Some SplToken\<rparr>"

definition payer_mandate :: Mandate where
  "payer_mandate = sample_view\<lparr>m_address := party 7, m_sourceTokenAccount := party 8, m_allowedMint := party 4\<rparr>"

lemma sample_payer_request:
  "toPreparePaymentInput (party 7) (customChallengeToPrepareFields merchant_crypto (offered sample_merchant) (mg_tokenProgram sample_merchant)) = Inr sample_payer"
proof -
  have "given_text (given_text v) = given_text v" "given_text None = None" for v by (simp_all add: given_text_def)
  note t = this
  have "text_int (mg_amount sample_merchant) = 5" by (simp add: text_int_def jstr_def sample_merchant_def)
  moreover have "mg_mint sample_merchant = party 4" "mg_recipient sample_merchant = party 5" "mg_tokenProgram sample_merchant = SplToken"
    by (simp_all add: sample_merchant_def)
  ultimately show ?thesis
    unfolding customChallengeToPrepareFields_def prepared_references offered_def CustomChallengeOption.select_convs t
    unfolding merchant_references_def [symmetric] by (simp add: sample_payer_def sample_hexes)
qed

lemma sample_built: "\<exists>ix. buildExecutePaymentInstruction sample_web3 sample_payer (party 6) payer_mandate (party 9) = Inr ix"
proof -
  have "address sample_web3 SPL_TOKEN_PROGRAM_ID = Inr SPL_TOKEN_PROGRAM_ID" "address sample_web3 SYSTEM_PROGRAM_ID = Inr SYSTEM_PROGRAM_ID"
    using address_base58 [OF sample_web3_ok spl_key] address_base58 [OF sample_web3_ok, of "replicate 32 0"] by (simp_all add: spl_text system_text)
  moreover have "\<exists>d. encodePayment (q_invoiceHash sample_payer) (q_paymentId sample_payer) (q_signatureReference sample_payer) (q_amount sample_payer) = Inr d"
    unfolding encodePayment_ser by (simp add: request_wf_def sample_payer_def sample_hexes u64_ok_def)
  ultimately show ?thesis
    by (auto simp: buildExecutePaymentInstruction_def instruction_def meta_def deriveConfigAddress_def deriveAssetAddress_def deriveReceiptAddress_def
        pda_def bytes32_def sample_payer_def payer_mandate_def sample_hexes)
qed

lemma sample_canonical:
  "list_all (canonical_address sample_web3) [mg_programId sample_merchant, mg_allowedAgent sample_merchant, m_address payer_mandate,
     m_sourceTokenAccount payer_mandate, mg_mint sample_merchant, mg_recipient sample_merchant, tokenProgramAddress (mg_tokenProgram sample_merchant)]"
  using address_base58 [OF sample_web3_ok spl_key] by (simp add: canonical_address_def sample_merchant_def payer_mandate_def spl_text)

lemma sample_receipt_of: "receipt_of sample_web3 (mg_programId sample_merchant) sample_payer payer_mandate sample_paid_receipt"
proof -
  have "deriveReceiptAddress sample_web3 (party 7) (unhex (xr_invoiceHash sample_terms)) (party 9) = Inr sample_receipt_address"
    by (simp add: deriveReceiptAddress_def pda_def sample_receipt_address_def bytes32_def sample_hexes)
  moreover have "mg_programId sample_merchant = party 9" by (simp add: sample_merchant_def)
  ultimately show ?thesis by (simp add: receipt_of_def sample_payer_def payer_mandate_def sample_paid_receipt_def)
qed

theorem built_payment_recognised_witness:
  "\<exists>ix i. buildExecutePaymentInstruction sample_web3 sample_payer (mg_allowedAgent sample_merchant) payer_mandate (mg_programId sample_merchant) = Inr ix \<and>
     compiles_to sample_roles ix i \<and> settles sample_roles [party 6] sample_paid_receipt sample_settlement i = Inr True"
proof -
  have program: "mg_programId sample_merchant \<noteq> []"
    using length_sample_text [of "replicate 32 9"] by (simp add: sample_merchant_def party_def sample_web3_def)
  have config: "mg_programId sample_merchant = party 9" "mg_allowedAgent sample_merchant = party 6" "mg_mint sample_merchant = party 4" by (simp_all add: sample_merchant_def)
  note r = offered_request [OF sample_payer_request sample_expected program]
  have mint: "m_allowedMint payer_mandate = mg_mint sample_merchant" by (simp add: config payer_mandate_def)
  obtain ix where ix: "buildExecutePaymentInstruction sample_web3 sample_payer (mg_allowedAgent sample_merchant) payer_mandate (mg_programId sample_merchant) = Inr ix"
    using sample_built by (auto simp: config)
  define i where "i = \<lparr>ci_programAddressIndex = 10, ci_accountIndices = [5, 6, 1, 2, 0, 7, 3, 4, 8, 9], ci_data = ix_data ix\<rparr>"
  have keys: "map key_role (ix_keys ix) = settlement_accounts sample_paid_receipt sample_settlement" "ix_programId ix = party 9"
    using built_keys(1,2) [OF sample_web3_ok ix _ r(3) _ sample_receipt_of, of sample_settlement] sample_canonical mint
      r(9,10) [unfolded config] by (simp_all add: r config)
  have "compiles_to sample_roles ix i"
    unfolding compiles_to_def keys
    by (simp add: i_def sample_roles_def settlement_accounts_def) (simp add: sample_paid_receipt_def sample_settlement_def)
  moreover have "mg_allowedAgent sample_merchant \<in> set [party 6]" by (simp add: config)
  ultimately show ?thesis
    using built_payment_recognised [OF sample_web3_ok sample_payer_request ix mint program sample_canonical sample_receipt_of sample_expected] ix by blast
qed

section \<open>The v2 challenge and a configured nonce\<close>

text \<open>
  The v2 challenge carries no nonce, so a payer derives one from the terms, while the merchant derives its references from the nonce it is
  configured with. When the two differ, the payer's invoice hash is the merchant's only if the two printed terms are a
  collision: a merchant of the v2 shape with a configured nonce does not recognise the payments made for its own challenge.
\<close>

lemma v2_nonce_disagrees:
  assumes "standardV2ChallengeToPrepareFields W C \<lparr>so_amount = mg_amount config, so_asset = mg_mint config, so_merchantOwner = owner,
      so_resource = mg_resource config, so_maxTimeoutSeconds = Some 300, so_feePayer = Some owner\<rparr> (mg_tokenProgram config) = Inr f"
    and recipient: "deriveAssociatedTokenAddress W owner (mg_mint config) (mg_tokenProgram config) = Inr (mg_recipient config)"
    and texts: "text_ok (mg_amount config)" "text_ok (mg_resource config)" "text_ok nonce"
    and nonce: "mg_nonce config = Some nonce" "nonce \<noteq> []" "js_trim nonce = nonce"
    and differs: "xf_nonce f \<noteq> nonce" and same: "xf_invoiceHash f = xr_invoiceHash (merchant_references C config)"
  shows "\<exists>a b. a \<noteq> b \<and> cr_sha256 C a = cr_sha256 C b"
proof -
  define p where "p = \<lparr>xp_mint = mg_mint config, xp_recipient = mg_recipient config, xp_amount = mg_amount config, xp_resource = mg_resource config,
    xp_tokenProgram = mg_tokenProgram config, xp_nonce = None, xp_expiresAtSlot = None\<rparr>"
  have f: "f = prepare_fields C p (Some owner)"
    using assms(1) recipient by (simp add: standardV2ChallengeToPrepareFields_def standardV2RecipientTokenAccount_def p_def)
  define q where "q = p\<lparr>xp_nonce := Some nonce\<rparr>"
  have q: "merchant_references C config = deriveX402PaymentReferences C q"
    using nonce by (simp add: merchant_references_def p_def q_def given_text_def)
  have "\<not> same_terms C p q"
    using differs nonce by (simp add: same_terms_def f prepare_fields_def Let_def deriveX402PaymentReferences_def) (simp add: x402_nonce_def q_def Let_def)
  moreover have "terms_text_ok p" "terms_text_ok q" using texts by (simp_all add: terms_text_ok_def p_def q_def)
  moreover have "xr_invoiceHash (deriveX402PaymentReferences C p) = xr_invoiceHash (deriveX402PaymentReferences C q)"
    using same by (simp add: f q prepare_fields_def Let_def)
  ultimately show ?thesis using invoice_binds_terms by blast
qed

end
