(* ===== verification/MerchantDelivery.thy ===== *)
theory MerchantDelivery
  imports Merchant
begin

text \<open>
  The delivery statements of the demo merchant: \<open>demo-merchant/src/delivery.ts\<close> (which served responses are published, and once) and
  \<open>demo-merchant/src/publisher.ts\<close> (looking a statement up, signing it once, and posting it with retries). The controller is a step relation: responses
  finish or close in any order and calls of the publisher end at any time, so every interleaving of its asynchronous code is
  covered. The relay's answers and the clock are the record \<open>relay\<close>, indexed by the order of the requests; a run of the publisher
  returns the events it caused beside its result.
\<close>

section \<open>Data\<close>

record DeliveryPublishInput =
  di_receiptAddress :: address
  di_contentHash :: string
  di_body :: bytes
  di_programId :: address

record SellerPublishConfig =
  sp_programId :: address
  sp_seller :: address
  sp_secretKey :: bytes

datatype ExistingVerdict = Reuse | Conflict | Absence

section \<open>Reading a statement of the relay (publisher.ts)\<close>

definition envelopeFromPublicDto :: "json \<Rightarrow> json option" where
  "envelopeFromPublicDto value = (case value of
     JObj d \<Rightarrow> (case (field d ''payload'', string_member (field d ''signature'')) of
       (Some payload, Some signature) \<Rightarrow> Some (JObj [(jstr ''payload'', payload), (jstr ''signature'', JStr signature)])
     | _ \<Rightarrow> None)
   | _ \<Rightarrow> None)"

definition seller_options :: "TrustedSellerMapping \<Rightarrow> SellerPublishConfig \<Rightarrow> VerifyDeliveryOptions" where
  "seller_options trusted config = \<lparr>vo_trustedSellers = Some trusted, vo_receipt = None, vo_programId = Some (sp_programId config),
     vo_now = None, vo_maxFutureSkewMs = None\<rparr>"

definition classifyExisting ::
  "crypto \<Rightarrow> web3 \<Rightarrow> int \<Rightarrow> json \<Rightarrow> SellerPublishConfig \<Rightarrow> DeliveryPublishInput \<Rightarrow> ExistingVerdict result" where
  "classifyExisting C W clock dto config input = (case envelopeFromPublicDto dto of
     None \<Rightarrow> Inr Absence
   | Some envelope \<Rightarrow>
       bindR (defaultTrustedSellerMapping W [sp_seller config] (sp_programId config)) (\<lambda>trusted.
       let verified = verifyDeliveryAttestation C W clock envelope (seller_options trusted config) in
       Inr (case (dv_valid verified, dv_payload verified) of
         (True, Some payload) \<Rightarrow>
           if dp_seller payload \<noteq> sp_seller config \<or> dp_receiptAddress payload \<noteq> di_receiptAddress input \<or>
              dp_programId payload \<noteq> sp_programId config then Conflict
           else if dp_contentHash payload \<noteq> jstr (di_contentHash input) then Conflict
           else Reuse
       | _ \<Rightarrow> Absence)))"

section \<open>Publishing\<close>

text \<open>An answer of the relay: its status and its body, which is missing when it is empty, too long or no JSON.\<close>

datatype http = Unreachable | Answered nat "json option"

record relay =
  rl_get :: "nat \<Rightarrow> http"
  rl_post :: "nat \<Rightarrow> http"
  rl_clock :: "nat \<Rightarrow> int"

datatype relay_event = Looked | Slept nat | Posted jstext

datatype publish_outcome = Reused | ConflictFound | Published

datatype publish_error = HttpError nat | HashMismatch | OtherError string

definition POST_ATTEMPTS :: nat where "POST_ATTEMPTS = 3"
definition RETRY_DELAYS_MS :: "nat list" where "RETRY_DELAYS_MS = [200, 800]"

definition http_ok :: "nat \<Rightarrow> bool" where "http_ok status \<longleftrightarrow> 200 \<le> status \<and> status \<le> 299"

definition getExisting :: "http \<Rightarrow> json option" where
  "getExisting answer = (case answer of
     Unreachable \<Rightarrow> None
   | Answered status body \<Rightarrow> if status = 404 \<or> \<not> http_ok status then None else body)"

definition existing_verdict ::
  "crypto \<Rightarrow> web3 \<Rightarrow> relay \<Rightarrow> nat \<Rightarrow> SellerPublishConfig \<Rightarrow> DeliveryPublishInput \<Rightarrow> ExistingVerdict result" where
  "existing_verdict C W R k config input = (case getExisting (rl_get R k) of
     None \<Rightarrow> Inr Absence
   | Some dto \<Rightarrow> classifyExisting C W (rl_clock R k) dto config input)"

datatype attempt = Settled publish_outcome | Stopped publish_error | Retrying publish_error

text \<open>
  One turn of the loop of \<open>postIdenticalEnvelope\<close>. An error of the body's reader or of the check is caught and tried again; an HTTP error below
  500 other than 429 and a mismatch are not. The lookup after a 409 is the request \<open>k + 1\<close>.
\<close>

definition post_attempt ::
  "crypto \<Rightarrow> web3 \<Rightarrow> relay \<Rightarrow> SellerPublishConfig \<Rightarrow> DeliveryPublishInput \<Rightarrow> nat \<Rightarrow> relay_event list \<times> attempt" where
  "post_attempt C W R config input k = (case rl_post R k of
     Unreachable \<Rightarrow> ([], Retrying (OtherError ''fetch failed''))
   | Answered status body \<Rightarrow>
       if status = 409 then ([Looked], case existing_verdict C W R (Suc k) config input of
           Inr Reuse \<Rightarrow> Settled Reused
         | Inr Conflict \<Rightarrow> Settled ConflictFound
         | Inr Absence \<Rightarrow> Retrying (HttpError 409)
         | Inl e \<Rightarrow> Retrying (OtherError e))
       else ([],
         if status = 429 \<or> 500 \<le> status then Retrying (HttpError status)
         else if \<not> http_ok status then Stopped (HttpError status)
         else (case body of
           None \<Rightarrow> Retrying (OtherError ''delivery_publish_body'')
         | Some dto \<Rightarrow> (case classifyExisting C W (rl_clock R (Suc k)) dto config input of
             Inr Reuse \<Rightarrow> Settled Published
           | Inr _ \<Rightarrow> Stopped HashMismatch
           | Inl e \<Rightarrow> Retrying (OtherError e)))))"

definition retry_delay :: "nat \<Rightarrow> nat" where
  "retry_delay k = (if k - 1 < length RETRY_DELAYS_MS then RETRY_DELAYS_MS ! (k - 1) else 800)"

fun post_loop ::
  "crypto \<Rightarrow> web3 \<Rightarrow> relay \<Rightarrow> SellerPublishConfig \<Rightarrow> DeliveryPublishInput \<Rightarrow> jstext \<Rightarrow> nat \<Rightarrow> nat \<Rightarrow> publish_error \<Rightarrow>
   relay_event list \<times> (publish_error + publish_outcome)" where
  "post_loop C W R config input body k 0 lastError = ([], Inl lastError)"
| "post_loop C W R config input body k (Suc n) lastError =
     (let (looked, result) = post_attempt C W R config input k;
          events = (if 0 < k then [Slept (retry_delay k)] else []) @ [Posted body] @ looked in
      case result of
        Settled outcome \<Rightarrow> (events, Inr outcome)
      | Stopped e \<Rightarrow> (events, Inl e)
      | Retrying e \<Rightarrow>
          (let (later, final) = post_loop C W R config input body (Suc k) n e in (events @ later, final)))"

definition postIdenticalEnvelope ::
  "crypto \<Rightarrow> web3 \<Rightarrow> relay \<Rightarrow> SellerPublishConfig \<Rightarrow> DeliveryPublishInput \<Rightarrow> jstext \<Rightarrow> relay_event list \<times> (publish_error + publish_outcome)" where
  "postIdenticalEnvelope C W R config input body = post_loop C W R config input body 0 POST_ATTEMPTS (OtherError ''delivery_publish_failed'')"

definition statement_json :: "SellerPublishConfig \<Rightarrow> DeliveryPublishInput \<Rightarrow> jstext \<Rightarrow> json" where
  "statement_json config input servedAt = JObj
     [(jstr ''version'', JNum (NInt 1)), (jstr ''statement'', JStr (jstr ''chainpay.response-served'')), (jstr ''cluster'', JStr (jstr ''devnet'')),
      (jstr ''programId'', JStr (jstr (di_programId input))), (jstr ''receiptAddress'', JStr (jstr (di_receiptAddress input))),
      (jstr ''seller'', JStr (jstr (sp_seller config))), (jstr ''contentHash'', JStr (jstr (di_contentHash input))), (jstr ''servedAt'', JStr servedAt)]"

definition publish ::
  "crypto \<Rightarrow> signer \<Rightarrow> web3 \<Rightarrow> relay \<Rightarrow> SellerPublishConfig \<Rightarrow> jstext \<Rightarrow> DeliveryPublishInput \<Rightarrow>
   relay_event list \<times> (publish_error + publish_outcome)" where
  "publish C S W R config servedAt input = (case existing_verdict C W R 0 config input of
     Inl e \<Rightarrow> ([Looked], Inl (OtherError e))
   | Inr Reuse \<Rightarrow> ([Looked], Inr Reused)
   | Inr Conflict \<Rightarrow> ([Looked], Inr ConflictFound)
   | Inr Absence \<Rightarrow> (case signDeliveryAttestation S W (statement_json config input servedAt) (sp_secretKey config) of
       Inl e \<Rightarrow> ([Looked], Inl (OtherError e))
     | Inr envelope \<Rightarrow>
         (let (events, result) = postIdenticalEnvelope C W R config input (print_json (envelope_json envelope)) in
          (Looked # events, result))))"

section \<open>The controller (delivery.ts)\<close>

text \<open>A response of a paid request: what \<open>sendPaid\<close> binds to it, and which of its events have fired.\<close>

record Served =
  sv_input :: DeliveryPublishInput
  sv_statusCode :: nat
  sv_finished :: bool
  sv_aborted :: bool
  sv_finish_fired :: bool
  sv_close_fired :: bool

text \<open>
  The controller: the sets \<open>issued\<close> and \<open>inflight\<close> of the source; the calls of the publisher that run; those that ended and whose \<open>finally\<close> has
  not run yet; and the calls that succeeded, in order. The last three are the promises of the source.
\<close>

record Controller =
  ct_responses :: "Served list"
  ct_issued :: "address set"
  ct_inflight :: "address set"
  ct_running :: "DeliveryPublishInput list"
  ct_ended :: "DeliveryPublishInput list"
  ct_published :: "DeliveryPublishInput list"

definition serializeJsonBody :: "json \<Rightarrow> bytes" where
  "serializeJsonBody body = utf8 (print_json body)"

definition paid_body :: "VerifiedMerchantPayment \<Rightarrow> json" where
  "paid_body v = JObj [(jstr ''data'', JStr (jstr ''Premium resource content'')), (jstr ''paidWith'', JStr (jstr (r_address (vm_receipt v)))),
     (jstr ''transactionSignature'', JStr (vm_transactionSignature v))]"

definition sendPaid :: "crypto \<Rightarrow> address \<Rightarrow> json \<Rightarrow> address \<Rightarrow> Controller \<Rightarrow> Controller" where
  "sendPaid C programId body receipt s =
     (let bytes = serializeJsonBody body in
      s\<lparr>ct_responses := ct_responses s @
        [\<lparr>sv_input = \<lparr>di_receiptAddress = receipt, di_contentHash = sha256Hex C bytes, di_body = bytes, di_programId = programId\<rparr>,
          sv_statusCode = 200, sv_finished = False, sv_aborted = False, sv_finish_fired = False, sv_close_fired = False\<rparr>]\<rparr>)"

text \<open>\<open>gatedPublisher.publish\<close>: a call for a receipt that is issued or in flight starts nothing.\<close>

definition gated_publish :: "DeliveryPublishInput \<Rightarrow> Controller \<Rightarrow> Controller" where
  "gated_publish input s =
     (if di_receiptAddress input \<in> ct_issued s then s
      else if di_receiptAddress input \<in> ct_inflight s then s
      else s\<lparr>ct_inflight := insert (di_receiptAddress input) (ct_inflight s), ct_running := ct_running s @ [input]\<rparr>)"

definition on_close :: "nat \<Rightarrow> Controller \<Rightarrow> Controller" where
  "on_close i s =
     (let r = ct_responses s ! i in
      s\<lparr>ct_responses := (ct_responses s)[i := r\<lparr>sv_close_fired := True, sv_aborted := sv_aborted r \<or> \<not> sv_finished r\<rparr>]\<rparr>)"

definition on_finish :: "bool \<Rightarrow> nat \<Rightarrow> Controller \<Rightarrow> Controller" where
  "on_finish publisher i s =
     (let r = ct_responses s ! i; s' = s\<lparr>ct_responses := (ct_responses s)[i := r\<lparr>sv_finish_fired := True, sv_finished := True\<rparr>]\<rparr> in
      if sv_aborted r \<or> sv_statusCode r \<noteq> 200 \<or> \<not> publisher then s' else gated_publish (sv_input r) s')"

text \<open>The end of a call: \<open>then\<close> on success, and later \<open>finally\<close>.\<close>

definition on_success :: "nat \<Rightarrow> Controller \<Rightarrow> Controller" where
  "on_success i s =
     (let input = ct_running s ! i in
      s\<lparr>ct_issued := insert (di_receiptAddress input) (ct_issued s), ct_running := take i (ct_running s) @ drop (Suc i) (ct_running s),
        ct_ended := ct_ended s @ [input], ct_published := ct_published s @ [input]\<rparr>)"

definition on_failure :: "nat \<Rightarrow> Controller \<Rightarrow> Controller" where
  "on_failure i s =
     (let input = ct_running s ! i in
      s\<lparr>ct_running := take i (ct_running s) @ drop (Suc i) (ct_running s), ct_ended := ct_ended s @ [input]\<rparr>)"

definition on_finally :: "nat \<Rightarrow> Controller \<Rightarrow> Controller" where
  "on_finally i s =
     (let input = ct_ended s ! i in
      s\<lparr>ct_inflight := ct_inflight s - {di_receiptAddress input}, ct_ended := take i (ct_ended s) @ drop (Suc i) (ct_ended s)\<rparr>)"

definition createDeliveryController :: Controller where
  "createDeliveryController = \<lparr>ct_responses = [], ct_issued = {}, ct_inflight = {}, ct_running = [], ct_ended = [], ct_published = []\<rparr>"

inductive delivery_step :: "crypto \<Rightarrow> address \<Rightarrow> bool \<Rightarrow> Controller \<Rightarrow> Controller \<Rightarrow> bool" for C programId publisher where
  send: "delivery_step C programId publisher s (sendPaid C programId (paid_body v) (r_address (vm_receipt v)) s)"
| close: "i < length (ct_responses s) \<Longrightarrow> \<not> sv_close_fired (ct_responses s ! i) \<Longrightarrow> delivery_step C programId publisher s (on_close i s)"
| finish: "i < length (ct_responses s) \<Longrightarrow> \<not> sv_finish_fired (ct_responses s ! i) \<Longrightarrow> delivery_step C programId publisher s (on_finish publisher i s)"
| success: "i < length (ct_running s) \<Longrightarrow> delivery_step C programId publisher s (on_success i s)"
| failure: "i < length (ct_running s) \<Longrightarrow> delivery_step C programId publisher s (on_failure i s)"
| finally_: "i < length (ct_ended s) \<Longrightarrow> delivery_step C programId publisher s (on_finally i s)"

section \<open>What a publication shows\<close>

definition statement_shown :: "crypto \<Rightarrow> web3 \<Rightarrow> int \<Rightarrow> json \<Rightarrow> SellerPublishConfig \<Rightarrow> DeliveryPublishInput \<Rightarrow> bool" where
  "statement_shown C W clock dto config input \<longleftrightarrow> (\<exists>envelope trusted payload. envelopeFromPublicDto dto = Some envelope \<and>
     defaultTrustedSellerMapping W [sp_seller config] (sp_programId config) = Inr trusted \<and>
     dv_valid (verifyDeliveryAttestation C W clock envelope (seller_options trusted config)) \<and>
     dv_payload (verifyDeliveryAttestation C W clock envelope (seller_options trusted config)) = Some payload \<and>
     dp_seller payload = sp_seller config \<and> dp_receiptAddress payload = di_receiptAddress input \<and> dp_programId payload = sp_programId config \<and>
     dp_contentHash payload = jstr (di_contentHash input))"

text \<open>The relay answered one of the requests with such a statement.\<close>

definition relay_shows :: "crypto \<Rightarrow> web3 \<Rightarrow> relay \<Rightarrow> SellerPublishConfig \<Rightarrow> DeliveryPublishInput \<Rightarrow> bool" where
  "relay_shows C W R config input \<longleftrightarrow> (\<exists>k status dto clock. (rl_get R k = Answered status (Some dto) \<or> rl_post R k = Answered status (Some dto)) \<and>
     http_ok status \<and> statement_shown C W clock dto config input)"

lemma classified_reuse: "classifyExisting C W clock dto config input = Inr Reuse \<Longrightarrow> statement_shown C W clock dto config input"
  by (auto simp: classifyExisting_def statement_shown_def Let_def bindR_eq_Inr split: option.split_asm bool.split_asm if_split_asm)

lemma existing_reuse: "existing_verdict C W R k config input = Inr Reuse \<Longrightarrow> relay_shows C W R config input"
  unfolding existing_verdict_def relay_shows_def
  by (auto simp: getExisting_def dest!: classified_reuse split: http.split_asm option.split_asm if_split_asm)

lemma attempt_shows:
  assumes "post_attempt C W R config input k = (looked, Settled outcome)" and "outcome \<noteq> ConflictFound"
  shows "relay_shows C W R config input"
proof (cases "rl_post R k")
  case (Answered status body)
  show ?thesis
  proof (cases "status = 409")
    case True
    then have "existing_verdict C W R (Suc k) config input = Inr Reuse"
      using assms Answered by (auto simp: post_attempt_def split: sum.split_asm ExistingVerdict.split_asm)
    then show ?thesis by (rule existing_reuse)
  next
    case False
    then obtain dto where "body = Some dto" "http_ok status" "classifyExisting C W (rl_clock R (Suc k)) dto config input = Inr Reuse"
      using assms Answered by (auto simp: post_attempt_def split: if_split_asm option.split_asm sum.split_asm ExistingVerdict.split_asm)
    then show ?thesis using Answered classified_reuse unfolding relay_shows_def by blast
  qed
qed (use assms in \<open>simp add: post_attempt_def\<close>)

lemma attempt_events: "post_attempt C W R config input k = (looked, result) \<Longrightarrow> set looked \<subseteq> {Looked}"
  by (auto simp: post_attempt_def split: http.split_asm if_split_asm)

fun is_post :: "relay_event \<Rightarrow> bool" where
  "is_post (Posted _) = True"
| "is_post _ = False"

fun slept :: "relay_event \<Rightarrow> nat" where
  "slept (Slept ms) = ms"
| "slept _ = 0"

lemma looked_quiet: "set looked \<subseteq> {Looked} \<Longrightarrow> filter is_post looked = [] \<and> sum_list (map slept looked) = 0"
  by (induction looked) auto

text \<open>One turn of the loop, then the posts of a run and the time slept before the attempts from \<open>k\<close> on.\<close>

lemma loop_turn:
  assumes "post_loop C W R config input body k (Suc n) lastError = (events, result)"
  obtains looked res where "post_attempt C W R config input k = (looked, res)"
    "events = (if 0 < k then [Slept (retry_delay k)] else []) @ [Posted body] @ looked"
    "\<And>outcome. result = Inr outcome \<Longrightarrow> res = Settled outcome"
  | looked later e where "post_attempt C W R config input k = (looked, Retrying e)" "post_loop C W R config input body (Suc k) n e = (later, result)"
    "events = ((if 0 < k then [Slept (retry_delay k)] else []) @ [Posted body] @ looked) @ later"
proof -
  obtain looked res where a: "post_attempt C W R config input k = (looked, res)" by fastforce
  show thesis
  proof (cases res)
    case (Retrying e)
    obtain later final where "post_loop C W R config input body (Suc k) n e = (later, final)" by fastforce
    with that(2) a Retrying assms show thesis by (auto simp: Let_def)
  qed (use that(1) a assms in \<open>auto simp: Let_def\<close>)
qed

lemma loop_run:
  assumes "post_loop C W R config input body k n lastError = (events, result)"
  shows "(\<exists>m \<le> n. filter is_post events = replicate m (Posted body)) \<and>
    sum_list (map slept events) \<le> (\<Sum>j \<in> {k..<k + n} - {0}. retry_delay j) \<and>
    (\<forall>outcome. result = Inr outcome \<and> outcome \<noteq> ConflictFound \<longrightarrow> relay_shows C W R config input)"
  using assms
proof (induction n arbitrary: k lastError events)
  case (Suc n)
  have split: "{k..<k + Suc n} - {0} = (if 0 < k then {k} else {}) \<union> ({Suc k..<Suc k + n} - {0})" by auto
  have total: "(\<Sum>j \<in> {k..<k + Suc n} - {0}. retry_delay j) =
      (if 0 < k then retry_delay k else 0) + (\<Sum>j \<in> {Suc k..<Suc k + n} - {0}. retry_delay j)"
    unfolding split by (subst sum.union_disjoint) auto
  from Suc.prems show ?case
  proof (cases rule: loop_turn)
    case (1 looked res)
    note quiet = looked_quiet [OF attempt_events [OF 1(1)]]
    have "filter is_post events = replicate 1 (Posted body)" "sum_list (map slept events) = (if 0 < k then retry_delay k else 0)"
      using quiet by (simp_all add: 1(2))
    then show ?thesis unfolding total using attempt_shows [of C W R config input k looked] 1(1,3) by fastforce
  next
    case (2 looked later e)
    note quiet = looked_quiet [OF attempt_events [OF 2(1)]] and rest = Suc.IH [OF 2(2)]
    from rest obtain m where m: "m \<le> n" "filter is_post later = replicate m (Posted body)" by blast
    have "filter is_post events = replicate (Suc m) (Posted body)"
      "sum_list (map slept events) = (if 0 < k then retry_delay k else 0) + sum_list (map slept later)"
      using quiet m(2) by (simp_all add: 2(3))
    then show ?thesis unfolding total using rest m(1) by (metis Suc_le_mono add_left_mono)
  qed
qed auto

text \<open>
  C26. A delivery statement is published truthfully and once. One run of the publisher posts at most three times, always the same bytes, and
  waits at most one second in all; and when it reports the statement as published or already there, the relay has shown, in answer to one of its
  requests, a statement that verifies, of this seller and this program, for this receipt and with the hash of the bytes that were
  served.
\<close>

theorem publication_sound:
  assumes "publish C S W R config servedAt input = (events, result)"
  shows "(\<exists>body m. m \<le> 3 \<and> filter is_post events = replicate m (Posted body)) \<and> sum_list (map slept events) \<le> 1000 \<and>
    (result = Inr Published \<or> result = Inr Reused \<longrightarrow> relay_shows C W R config input)"
proof (cases "existing_verdict C W R 0 config input = Inr Absence \<and>
    (\<exists>envelope. signDeliveryAttestation S W (statement_json config input servedAt) (sp_secretKey config) = Inr envelope)")
  case True
  then obtain envelope later where
    l: "post_loop C W R config input (print_json (envelope_json envelope)) 0 3 (OtherError ''delivery_publish_failed'') = (later, result)"
      "events = Looked # later"
    using assms by (auto simp: publish_def postIdenticalEnvelope_def POST_ATTEMPTS_def split: prod.split_asm)
  have "(\<Sum>j \<in> {0..<0 + 3} - {0}. retry_delay j) = 1000"
    by (simp add: retry_delay_def RETRY_DELAYS_MS_def atLeast0_lessThan_Suc numeral_3_eq_3 insert_Diff_if)
  with loop_run [OF l(1)] show ?thesis by (auto simp: l(2))
next
  case False
  then have "events = [Looked]" and "result = Inr Published \<or> result = Inr Reused \<Longrightarrow> existing_verdict C W R 0 config input = Inr Reuse"
    using assms by (auto simp: publish_def split: sum.split_asm ExistingVerdict.split_asm)
  then show ?thesis using existing_reuse [of C W R 0 config input] by (auto intro: exI [of _ 0])
qed

section \<open>One statement per receipt\<close>

text \<open>A call of the publisher is for a response that was sent with status 200 and finished before it was closed.\<close>

definition earned :: "Controller \<Rightarrow> DeliveryPublishInput \<Rightarrow> bool" where
  "earned s input \<longleftrightarrow> (\<exists>r \<in> set (ct_responses s). sv_input r = input \<and> sv_statusCode r = 200 \<and> sv_finished r \<and> \<not> sv_aborted r)"

definition bound :: "crypto \<Rightarrow> address \<Rightarrow> Served \<Rightarrow> bool" where
  "bound C programId r \<longleftrightarrow> di_programId (sv_input r) = programId \<and> (\<exists>v. di_receiptAddress (sv_input r) = r_address (vm_receipt v) \<and>
     di_body (sv_input r) = serializeJsonBody (paid_body v)) \<and> di_contentHash (sv_input r) = sha256Hex C (di_body (sv_input r)) \<and>
     (sv_finish_fired r \<longleftrightarrow> sv_finished r)"

definition controller_inv :: "crypto \<Rightarrow> address \<Rightarrow> Controller \<Rightarrow> bool" where
  "controller_inv C programId s \<longleftrightarrow>
     distinct (map di_receiptAddress (ct_running s @ ct_ended s)) \<and> di_receiptAddress ` set (ct_running s @ ct_ended s) = ct_inflight s \<and>
     distinct (map di_receiptAddress (ct_published s)) \<and> di_receiptAddress ` set (ct_published s) = ct_issued s \<and>
     di_receiptAddress ` set (ct_running s) \<inter> ct_issued s = {} \<and>
     (\<forall>r \<in> set (ct_responses s). bound C programId r) \<and> (\<forall>input \<in> set (ct_running s @ ct_ended s @ ct_published s). earned s input)"

lemma earned_update:
  assumes "earned s input" and "ct_responses t = (ct_responses s)[i := r]" and "sv_input r = sv_input (ct_responses s ! i)"
    "sv_statusCode r = sv_statusCode (ct_responses s ! i)"
    "sv_finished (ct_responses s ! i) \<Longrightarrow> sv_finished r \<and> sv_aborted r = sv_aborted (ct_responses s ! i)"
  shows "earned t input"
proof -
  from assms(1) obtain j where j: "j < length (ct_responses s)" "sv_input (ct_responses s ! j) = input" "sv_statusCode (ct_responses s ! j) = 200"
    "sv_finished (ct_responses s ! j)" "\<not> sv_aborted (ct_responses s ! j)" by (auto simp: earned_def in_set_conv_nth)
  have "ct_responses t ! j \<in> set (ct_responses t)" using j(1) assms(2) by simp
  moreover have "sv_input (ct_responses t ! j) = input \<and> sv_statusCode (ct_responses t ! j) = 200 \<and> sv_finished (ct_responses t ! j) \<and> \<not> sv_aborted (ct_responses t ! j)"
    using j assms(2-5) by (cases "i = j") auto
  ultimately show ?thesis unfolding earned_def by blast
qed

lemma close_keeps: "controller_inv C p s \<Longrightarrow> i < length (ct_responses s) \<Longrightarrow> controller_inv C p (on_close i s)"
  unfolding controller_inv_def on_close_def Let_def
  by (auto simp: bound_def intro: earned_update dest!: set_update_subset_insert [THEN subsetD])

lemma sent_keeps: "controller_inv C p s \<Longrightarrow> controller_inv C p (sendPaid C p (paid_body v) (r_address (vm_receipt v)) s)"
  unfolding controller_inv_def sendPaid_def Let_def by (auto simp: bound_def earned_def)

lemma gated_keeps:
  assumes "controller_inv C p s" and "earned s input"
  shows "controller_inv C p (gated_publish input s)"
  using assms unfolding controller_inv_def gated_publish_def by (auto simp: earned_def)

lemma finished_marked:
  assumes inv: "controller_inv C p s" and i: "i < length (ct_responses s)"
  defines "t \<equiv> s\<lparr>ct_responses := (ct_responses s)[i := (ct_responses s ! i)\<lparr>sv_finish_fired := True, sv_finished := True\<rparr>]\<rparr>"
  shows "controller_inv C p t" and "\<not> sv_aborted (ct_responses s ! i) \<Longrightarrow> sv_statusCode (ct_responses s ! i) = 200 \<Longrightarrow> earned t (sv_input (ct_responses s ! i))"
proof -
  show "controller_inv C p t"
    using inv i unfolding controller_inv_def t_def
    by (auto simp: bound_def intro: earned_update dest!: set_update_subset_insert [THEN subsetD])
  assume "\<not> sv_aborted (ct_responses s ! i)" "sv_statusCode (ct_responses s ! i) = 200"
  then show "earned t (sv_input (ct_responses s ! i))"
    unfolding earned_def t_def by (intro bexI [of _ "(ct_responses s ! i)\<lparr>sv_finish_fired := True, sv_finished := True\<rparr>"]) (simp_all add: set_update_memI i)
qed

lemma finish_keeps: "controller_inv C p s \<Longrightarrow> i < length (ct_responses s) \<Longrightarrow> controller_inv C p (on_finish publisher i s)"
  using finished_marked [of C p s i] gated_keeps by (auto simp: on_finish_def Let_def)

lemma removed: "i < length xs \<Longrightarrow> xs = take i xs @ xs ! i # drop (Suc i) xs"
  by (simp add: id_take_nth_drop)

lemma success_keeps:
  assumes "controller_inv C p s" and "i < length (ct_running s)"
  shows "controller_inv C p (on_success i s)"
proof -
  obtain a x b where run: "ct_running s = a @ x # b" "take i (ct_running s) = a" "drop (Suc i) (ct_running s) = b" "ct_running s ! i = x"
    using removed [OF assms(2)] by blast
  then show ?thesis using assms(1) unfolding controller_inv_def on_success_def Let_def run(2-4) by (auto simp: run(1) earned_def)
qed

lemma failure_keeps:
  assumes "controller_inv C p s" and "i < length (ct_running s)"
  shows "controller_inv C p (on_failure i s)"
proof -
  obtain a x b where run: "ct_running s = a @ x # b" "take i (ct_running s) = a" "drop (Suc i) (ct_running s) = b" "ct_running s ! i = x"
    using removed [OF assms(2)] by blast
  then show ?thesis using assms(1) unfolding controller_inv_def on_failure_def Let_def run(2-4) by (auto simp: run(1) earned_def)
qed

lemma finally_keeps:
  assumes "controller_inv C p s" and "i < length (ct_ended s)"
  shows "controller_inv C p (on_finally i s)"
proof -
  obtain a x b where run: "ct_ended s = a @ x # b" "take i (ct_ended s) = a" "drop (Suc i) (ct_ended s) = b" "ct_ended s ! i = x"
    using removed [OF assms(2)] by blast
  then show ?thesis using assms(1) unfolding controller_inv_def on_finally_def Let_def run(2-4)
    by (auto simp: run(1) earned_def image_iff)
qed

interpretation controller: invariant createDeliveryController "delivery_step C programId publisher" "controller_inv C programId" for C programId publisher
proof unfold_locales
  show "controller_inv C programId createDeliveryController" by (simp add: controller_inv_def createDeliveryController_def)
  fix s t
  assume inv: "controller_inv C programId s" and "delivery_step C programId publisher s t"
  from this(2) inv show "controller_inv C programId t"
    by (cases rule: delivery_step.cases) (auto intro: sent_keeps close_keeps finish_keeps success_keeps failure_keeps finally_keeps)
qed

text \<open>
  C25. The publisher is called for bytes that were delivered, and succeeds at most once per receipt. However responses finish, close and calls of the
  publisher end, no two successful calls are for the same receipt, no two calls for one receipt run at the same time,
  none runs for a receipt a call has succeeded for; and every call is for a response of a verified payment that was sent with
  status 200 and finished before it was closed, with the hash of exactly the bytes that were sent.
\<close>

theorem published_once:
  assumes "reach createDeliveryController (delivery_step C programId publisher) s"
  shows "distinct (map di_receiptAddress (ct_published s)) \<and> distinct (map di_receiptAddress (ct_running s)) \<and>
    di_receiptAddress ` set (ct_running s) \<inter> di_receiptAddress ` set (ct_published s) = {} \<and>
    list_all (\<lambda>input. \<exists>r v. r \<in> set (ct_responses s) \<and> sv_input r = input \<and> sv_statusCode r = 200 \<and> sv_finished r \<and> \<not> sv_aborted r \<and>
      di_programId input = programId \<and> di_receiptAddress input = r_address (vm_receipt v) \<and> di_body input = serializeJsonBody (paid_body v) \<and>
      di_contentHash input = sha256Hex C (di_body input)) (ct_running s @ ct_published s)"
proof -
  note inv = controller.inv_reach [OF assms, unfolded controller_inv_def]
  have all: "\<exists>r v. r \<in> set (ct_responses s) \<and> sv_input r = input \<and> sv_statusCode r = 200 \<and> sv_finished r \<and> \<not> sv_aborted r \<and>
      di_programId input = programId \<and> di_receiptAddress input = r_address (vm_receipt v) \<and> di_body input = serializeJsonBody (paid_body v) \<and>
      di_contentHash input = sha256Hex C (di_body input)" if member: "input \<in> set (ct_running s @ ct_published s)" for input
  proof -
    from inv member have "earned s input" by auto
    then obtain r where r: "r \<in> set (ct_responses s)" "sv_input r = input" "sv_statusCode r = 200" "sv_finished r" "\<not> sv_aborted r"
      by (auto simp: earned_def)
    with inv have "bound C programId r" by blast
    with r show ?thesis unfolding bound_def by blast
  qed
  from inv have keys: "distinct (map di_receiptAddress (ct_published s))" "distinct (map di_receiptAddress (ct_running s @ ct_ended s))"
    "di_receiptAddress ` set (ct_running s) \<inter> ct_issued s = {}" "di_receiptAddress ` set (ct_published s) = ct_issued s" by blast+
  show ?thesis
    by (intro conjI) (use keys in simp, use keys in simp, use keys in simp, unfold list_all_iff, intro ballI all)
qed

section \<open>Examples\<close>

definition sample_publisher :: SellerPublishConfig where
  "sample_publisher = \<lparr>sp_programId = dp_programId sample_delivery, sp_seller = dp_seller sample_delivery, sp_secretKey = replicate 32 7\<rparr>"

definition sample_input :: DeliveryPublishInput where
  "sample_input = \<lparr>di_receiptAddress = dp_receiptAddress sample_delivery, di_contentHash = replicate 64 CHR ''a'', di_body = [],
     di_programId = dp_programId sample_delivery\<rparr>"

text \<open>A relay that shows the statement to every request.\<close>

definition sample_relay :: relay where
  "sample_relay = \<lparr>rl_get = (\<lambda>_. Answered 200 (Some (envelope_json sample_attestation))), rl_post = (\<lambda>_. Unreachable), rl_clock = (\<lambda>_. 1789445760000)\<rparr>"

lemma sample_seller_accepted:
  "verifyDeliveryAttestation sample_crypto sample_web3 1789445760000 (envelope_json sample_attestation) (seller_options sample_trust sample_publisher)
   = \<lparr>dv_valid = True, dv_payload = Some sample_delivery, dv_reason = None, dv_code = None\<rparr>"
proof -
  have key: "publicKey sample_web3 (dp_seller sample_delivery) = Inr (replicate 32 7)"
    by (simp add: sample_delivery_def)
  have addresses: "address sample_web3 (dp_programId sample_delivery) = Inr (dp_programId sample_delivery)"
    using sample_delivery_canonical by (simp_all add: payload_canonical_def)
  have allowed: "trustedSellerAllows sample_web3 sample_delivery sample_trust = Inr None"
    using default_mapping_allows(1) [OF sample_web3_ok sample_delivery_canonical sample_trust_default] by simp
  have payload: "da_payload sample_attestation = sample_delivery" by (simp add: sample_attestation_def)
  show ?thesis
    using key addresses allowed sample_iso(2) base64_roundtrip [of "replicate 64 0"] canonical_delivery [OF sample_delivery_canonical]
      parse_envelope_json [of sample_web3 sample_attestation] sample_delivery_canonical
    by (cases "dp_programId sample_delivery")
       (simp_all add: verifyDeliveryAttestation_def payload delivery_try_def seller_options_def sample_publisher_def truthy_def
        sample_trust_def sample_attestation_def sample_crypto_def, simp_all add: sample_delivery_def)
qed

lemma sample_verdict: "existing_verdict sample_crypto sample_web3 sample_relay 0 sample_publisher sample_input = Inr Reuse"
proof -
  have "envelopeFromPublicDto (envelope_json sample_attestation) = Some (envelope_json sample_attestation)"
    by (simp add: envelopeFromPublicDto_def envelope_json_def field_def jstr_inject)
  moreover have "defaultTrustedSellerMapping sample_web3 [sp_seller sample_publisher] (sp_programId sample_publisher) = Inr sample_trust"
    using sample_trust_default by (simp add: sample_publisher_def)
  moreover have "jstr (di_contentHash sample_input) = dp_contentHash sample_delivery"
    by (simp add: sample_input_def jstr_def sample_delivery_def)
  ultimately show ?thesis
    by (simp add: existing_verdict_def getExisting_def sample_relay_def http_ok_def classifyExisting_def sample_seller_accepted)
      (simp add: sample_publisher_def sample_input_def)
qed

theorem publication_sound_witness:
  "publish sample_crypto sample_signer sample_web3 sample_relay sample_publisher [] sample_input = ([Looked], Inr Reused) \<and>
   relay_shows sample_crypto sample_web3 sample_relay sample_publisher sample_input"
proof -
  have run: "publish sample_crypto sample_signer sample_web3 sample_relay sample_publisher [] sample_input = ([Looked], Inr Reused)"
    by (simp add: publish_def sample_verdict)
  with publication_sound [OF run] show ?thesis by blast
qed

definition sample_verified :: VerifiedMerchantPayment where
  "sample_verified = \<lparr>vm_receipt = sample_paid_receipt, vm_transactionSignature = jstr ''sig'', vm_resource = mg_resource sample_merchant\<rparr>"

text \<open>A response is sent and finishes, its statement is published, and a second response for the same receipt starts no further call.\<close>

definition sample_deliveries :: Controller where
  "sample_deliveries = on_finish True 1 (sendPaid sample_crypto (party 9) (paid_body sample_verified) sample_receipt_address
     (on_success 0 (on_finish True 0 (sendPaid sample_crypto (party 9) (paid_body sample_verified) sample_receipt_address createDeliveryController))))"

lemma sample_reached: "reach createDeliveryController (delivery_step sample_crypto (party 9) True) sample_deliveries"
proof -
  have paid: "r_address (vm_receipt sample_verified) = sample_receipt_address" by (simp add: sample_verified_def sample_paid_receipt_def)
  note send = delivery_step.send [where v = sample_verified and C = sample_crypto and programId = "party 9" and publisher = True, unfolded paid]
  note defs = sendPaid_def createDeliveryController_def on_finish_def on_success_def gated_publish_def Let_def
  let ?R = "reach createDeliveryController (delivery_step sample_crypto (party 9) True)"
  let ?sent = "sendPaid sample_crypto (party 9) (paid_body sample_verified) sample_receipt_address"
  have "?R (?sent createDeliveryController)" by (rule reach_step, rule reach_start, rule send)
  then have "?R (on_finish True 0 (?sent createDeliveryController))"
    by (rule reach_step) (rule delivery_step.finish; simp add: defs)
  then have "?R (on_success 0 (on_finish True 0 (?sent createDeliveryController)))"
    by (rule reach_step) (rule delivery_step.success; simp add: defs)
  then have "?R (?sent (on_success 0 (on_finish True 0 (?sent createDeliveryController))))" by (rule reach_step) (rule send)
  then show ?thesis
    unfolding sample_deliveries_def by (rule reach_step) (rule delivery_step.finish; simp add: defs)
qed

theorem published_once_witness:
  "map di_receiptAddress (ct_published sample_deliveries) = [sample_receipt_address] \<and> ct_running sample_deliveries = [] \<and>
   distinct (map di_receiptAddress (ct_published sample_deliveries))"
proof -
  have "map di_receiptAddress (ct_published sample_deliveries) = [sample_receipt_address]" "ct_running sample_deliveries = []"
    by (simp_all add: sample_deliveries_def sendPaid_def createDeliveryController_def on_finish_def on_success_def gated_publish_def Let_def)
  with published_once [OF sample_reached] show ?thesis by blast
qed

end
