(* ===== verification/Spec2Isabelle.thy ===== *)
theory Spec2Isabelle
  imports Invariants Settlement Delivery CardCodec CardCommitment CardDraft Guards Flows Authorization ReceiptExport MerchantDelivery
begin

text \<open>
  ChainPay: limited payment mandates for software agents on Solana, and cards paid from them. This development models the
  decision logic of the repository (the on-chain program, the TypeScript SDK, the guards of the owner's browser and the
  checks of the MCP server) and proves what makes it correct. It is a shallow embedding: a TypeScript function is a HOL
  function of the same name, \<open>throw new Error(m)\<close> is \<open>Inl m\<close> of the type \<open>result\<close>, a bigint is an \<open>int\<close>, a \<open>number\<close> the
  type \<open>jsnum\<close> (or \<open>int\<close> where the code has checked that it is an integer), a Rust \<open>u64\<close> is a \<open>64 word\<close>, bytes are
  \<open>8 word list\<close>, a string is a \<open>string\<close> where it is ASCII and a list of code points (\<open>jstext\<close>) where it is not.

  \<^bold>\<open>How the program is put together.\<close> An owner creates a \<^emph>\<open>mandate\<close> on chain: which agent may pay, from which token account, how
  much per payment and in total, how often and until when. The program (\<open>programs/chainpay\<close>) checks each payment against the
  mandate and writes one \<^emph>\<open>receipt\<close> per invoice. The SDK (\<open>sdk/src\<close>) builds the instructions, predicts the program's decision
  (\<open>preflightPayment\<close>), reads accounts back, verifies merchants' signed requests and sellers' signed deliveries. Cards
  (\<open>sdk/src/cards\<close>, \<open>programs/card_policy\<close>) keep spending rules on chain and commit to the private part of a purchase. The
  dashboard (\<open>frontend/src/dashboard/cards\<close>) refuses to sign transactions of the server that do anything but the reviewed
  step. The MCP server (\<open>mcp-server/src\<close>) lets an agent's connection call tools within the scope the owner gave it and
  shows each payment on a live card, stored in memory or by \<open>convex/storage.ts\<close>. A merchant (\<open>demo-merchant/src\<close>) answers an
  unpaid request with a challenge, serves the resource when it is shown the receipt and the transaction that paid for it, and
  publishes a signed statement of what it served.

  \<^bold>\<open>The theories,\<close> from the bottom up.

  \<^item> \<open>Prelude\<close>, \<open>JsText\<close>, \<open>Text\<close>: results, little-endian integers (the locale \<open>fixed_codec\<close>), invariants of step relations (the
    locale \<open>invariant\<close>), and the JavaScript text operations the sources use: radix printing, \<open>trim\<close>, UTF-8, \<open>JSON.stringify\<close>, base64.
  \<^item> \<open>Encoding\<close> (\<open>constants.ts\<close>, \<open>encoding.ts\<close>, \<open>pda.ts\<close>, \<open>token.ts\<close>), \<open>Program\<close> (\<open>programs/chainpay/src\<close>: \<open>state.rs\<close>, \<open>policy.rs\<close>,
    every instruction handler with its account constraints, as functions on a chain state, and the step relation
    \<open>chain_step\<close>), \<open>Invariants\<close> (spend and count equal the receipts and stay within the limits; one receipt per invoice;
    revocation is final), \<open>Sample\<close> (concrete instances of the parameters).
  \<^item> \<open>Accounts\<close> (\<open>accounts.ts\<close>): the decoders invert the program's layouts and accept exactly the accounts of the right kind. \<open>Mandate\<close>
    (\<open>mandate.ts\<close>): validation and the owner's builders, against the arguments the handlers take. \<open>Payment\<close> (\<open>payment.ts\<close>): the
    preflight agrees with the program's policy, for one payment and for a batch. \<open>Settlement\<close>: the SDK and the program
    composed; a preflighted payment settles and moves the amount, given what is documented of the token program's \<open>TransferChecked\<close>
    (\<open>transfer_checked_documented\<close>). \<open>Receipt\<close> (\<open>receipt.ts\<close>): the public reader accepts the program's receipts, and only settled
    receipts of the requested program. \<open>PaymentRequest\<close> (\<open>payment-request.ts\<close>) and \<open>Delivery\<close> (\<open>delivery.ts\<close>): what signed statements guarantee.
  \<^item> \<open>CardLayout\<close> (\<open>cards/layout.ts\<close>, the locale \<open>field_codec\<close>), \<open>CardAccounts\<close>, \<open>CardMath\<close>, \<open>CardPda\<close> (\<open>constants.ts\<close>, \<open>pda.ts\<close>, \<open>hash.ts\<close>),
    \<open>CardInstructions\<close>, \<open>CardBuilders\<close> and \<open>CardCodec\<close> (\<open>instructions.ts\<close> and \<open>programs/card_policy/src/policy.rs\<close>): round trips of
    accounts and of all 31 instructions, the policy mirror, money bounds. \<open>CardCommitment\<close> (\<open>commitment.ts\<close>): the Merkle
    commitment is binding and what is shared verifies. \<open>CardRedact\<close> (\<open>redact.ts\<close>), \<open>CardDraft\<close> (\<open>draft.ts\<close>, \<open>merchants.ts\<close>).
  \<^item> \<open>Base58\<close> and \<open>Repayment\<close> (\<open>private-repayment.ts\<close>): the decoder and check of server-built transactions, and the payment run
    with its waiting loops. \<open>Guards\<close> (\<open>signingGuards.ts\<close>): an accepted setup or restore transaction calls the expected program
    with the expected accounts and data.
  \<^item> \<open>Flows\<close> (\<open>payment-flows.ts\<close>, the flow operations of \<open>connections.ts\<close>, \<open>convex/storage.ts\<close> and \<open>convex/cleanup.ts\<close>): concurrent tool calls
    as an interleaving of their reads and writes; the store is the locale \<open>flow_store\<close>, interpreted on both stores. \<open>Connections\<close>
    (\<open>connections.ts\<close>): the registry as a step relation, inbox and rate limit. \<open>Authorization\<close> (\<open>authorization.ts\<close>, \<open>outcome.ts\<close>): the
    admission of tool calls, composed with the registry, and the reading of results.
  \<^item> \<open>TokenAmount\<close> and \<open>MandateRequest\<close> (\<open>known-assets.ts\<close>, \<open>mandate-request.ts\<close>): signed requests for a mandate, their links, and amounts in whole
    tokens. \<open>ReceiptExport\<close> (\<open>receipt-export.ts\<close>): the CSV of receipts, against a reader of RFC 4180.
  \<^item> \<open>Challenge\<close> (\<open>x402-challenge.ts\<close>): what a detected payment challenge guarantees. \<open>X402\<close> (\<open>x402.ts\<close>, \<open>x402-adapt.ts\<close>): the references payer and
    merchant derive, and that the invoice hash binds the terms. \<open>Merchant\<close> (\<open>proof.ts\<close>, \<open>config.ts\<close>, the \<open>/data\<close> route of \<open>app.ts\<close>,
    \<open>transaction-reader.ts\<close>): content is served only when it is paid, and a payer who follows the challenge is recognised.
    \<open>MerchantDelivery\<close> (\<open>delivery.ts\<close>, \<open>publisher.ts\<close>): the controller as a step relation, interpreted as an \<open>invariant\<close>, and the publisher's
    retries.

  \<^bold>\<open>Parameters.\<close> Code outside the repository is an argument of the definitions that use it: web3.js is the record \<open>W\<close> (with
  \<open>web3_ok W\<close>: printing a key and parsing it again gives the key), the Solana runtime the record \<open>R\<close>, SHA-256 and Ed25519 the record
  \<open>C\<close>, an engine's \<open>Date.parse\<close> the record \<open>dates\<close>, comparison of numbers that are no integers \<open>frac_less\<close>, the curve test \<open>onCurve\<close>, the
  HTTP calls, wallet and clock of a payment run \<open>pay_env\<close>, the session, chain and registry a tool call asks \<open>auth_env\<close>, \<open>JSON.parse\<close>
  \<open>parse\<close>, the state of the storage service \<open>too_large\<close> and \<open>maintenance\<close>, JSON, base64 and URL parsing of a response \<open>wire\<close>, the packages of the
  merchant's host (bs58 and the transaction codecs) \<open>node\<close>, and the relay's answers \<open>relay\<close>. Properties that would need SHA-256 to be
  injective end in an explicit collision instead. Each property with hypotheses has a witness on a concrete instance.

  \<^bold>\<open>Loops.\<close> Bounded loops are structural recursion. The loops that wait for the network are partial functions with the value
  \<open>None\<close> for not returning; that they return is proved (\<open>private_payment_ends\<close>, \<open>settlement_wait_ends\<close>) from a clock that advances by
  the time slept. No definition has a fuel argument standing for a loop without bound: \<open>recordFlow\<close> counts the three
  attempts of the source, \<open>post_loop\<close> the three posts, and in the step relation of \<open>Flows\<close> any number of calls may be in progress.

  \<^bold>\<open>Not modelled.\<close> User interface (React), HTTP and JSON-RPC transport, SQL text and schema migrations, the Rust backend and the
  handlers of \<open>programs/card_policy\<close>, the TEE session, vendor adapters, the reading of the merchant's
  environment and its pages; \<open>toUpperCase\<close> on arbitrary Unicode text, and the text layer (\<open>JSON.parse\<close>) of links. Emitted events and logs of the programs are left out.
\<close>

end
